(* ===== verification/Prelude.thy ===== *)
theory Prelude
  imports Main "HOL-Library.Sublist" "HOL-Library.Char_ord" "HOL-Library.List_Lexorder"
begin

text \<open>
  Shared vocabulary of the development.

  \<^item> \<open>bmap\<close> models Rust's \<open>BTreeMap\<close>: an association list whose keys ascend strictly
    (\<open>bm_wf\<close>), so that iteration order is the list's order. \<open>bm_get\<close>, \<open>bm_insert\<close>,
    \<open>bm_remove\<close> are \<open>get\<close>, \<open>insert\<close>, \<open>remove\<close>. The contract every client relies on
    is the locale \<open>ordered_map\<close>, interpreted here on these operations.
  \<^item> \<open>bset\<close> models \<open>BTreeSet\<close>: a strictly ascending list; \<open>bs_collect\<close> is \<open>collect\<close>.
  \<^item> \<open>find_map\<close>, \<open>position_of\<close> are the iterator adaptors the code uses.
\<close>

named_theorems bmap_simps \<open>lookups and keys of ordered maps\<close>

section \<open>Ordered maps\<close>

type_synonym ('k, 'v) bmap = "('k \<times> 'v) list"

abbreviation bm_get :: "('k, 'v) bmap \<Rightarrow> 'k \<Rightarrow> 'v option" where
  "bm_get \<equiv> map_of"

abbreviation bm_keys :: "('k, 'v) bmap \<Rightarrow> 'k list" where
  "bm_keys \<equiv> map fst"

abbreviation bm_values :: "('k, 'v) bmap \<Rightarrow> 'v list" where
  "bm_values \<equiv> map snd"

abbreviation bm_empty :: "('k, 'v) bmap" where
  "bm_empty \<equiv> []"

definition bm_contains :: "('k, 'v) bmap \<Rightarrow> 'k \<Rightarrow> bool" where
  "bm_contains m k \<longleftrightarrow> bm_get m k \<noteq> None"

definition bm_wf :: "('k::linorder, 'v) bmap \<Rightarrow> bool" where
  "bm_wf m \<longleftrightarrow> sorted_wrt (<) (bm_keys m)"

fun bm_insert :: "'k::linorder \<Rightarrow> 'v \<Rightarrow> ('k, 'v) bmap \<Rightarrow> ('k, 'v) bmap" where
  "bm_insert k v [] = [(k, v)]"
| "bm_insert k v ((k', v') # m) =
     (if k < k' then (k, v) # (k', v') # m
      else if k = k' then (k, v) # m
      else (k', v') # bm_insert k v m)"

definition bm_remove :: "'k \<Rightarrow> ('k, 'v) bmap \<Rightarrow> ('k, 'v) bmap" where
  "bm_remove k m = filter (\<lambda>e. fst e \<noteq> k) m"

lemma bm_get_insert [simp, bmap_simps]:
  "bm_get (bm_insert k v m) k' = (if k' = k then Some v else bm_get m k')"
  by (induction k v m rule: bm_insert.induct) auto

lemma bm_get_remove [simp, bmap_simps]:
  "bm_get (bm_remove k m) k' = (if k' = k then None else bm_get m k')"
  by (induction m) (auto simp: bm_remove_def)

lemma bm_contains_insert [simp, bmap_simps]:
  "bm_contains (bm_insert k v m) k' \<longleftrightarrow> k' = k \<or> bm_contains m k'"
  by (simp add: bm_contains_def)

lemma bm_contains_iff: "bm_contains m k \<longleftrightarrow> k \<in> fst ` set m"
  by (simp add: bm_contains_def map_of_eq_None_iff)

lemma bm_keys_insert [bmap_simps]:
  "set (bm_keys (bm_insert k v m)) = insert k (set (bm_keys m))"
  by (induction k v m rule: bm_insert.induct) auto

lemma bm_wf_Nil [simp]: "bm_wf []"
  by (simp add: bm_wf_def)

lemma bm_wf_Cons [simp]:
  "bm_wf ((k, v) # m) \<longleftrightarrow> (\<forall>k' \<in> set (bm_keys m). k < k') \<and> bm_wf m"
  by (simp add: bm_wf_def)

lemma bm_wf_insert [simp]: "bm_wf m \<Longrightarrow> bm_wf (bm_insert k v m)"
proof (induction k v m rule: bm_insert.induct)
  case (2 k v k' v' m)
  then show ?case
    using bm_keys_insert [of k v m] by (auto simp: not_less_iff_gr_or_eq)
qed simp

lemma bm_wf_remove [simp]: "bm_wf m \<Longrightarrow> bm_wf (bm_remove k m)"
  by (induction m) (auto simp: bm_remove_def)

lemma bm_wf_distinct: "bm_wf m \<Longrightarrow> distinct (bm_keys m)"
  by (simp add: bm_wf_def strict_sorted_iff)

lemma bm_get_in_set: "bm_get m k = Some v \<Longrightarrow> (k, v) \<in> set m"
  by (rule map_of_SomeD)

lemma bm_wf_get_iff: "bm_wf m \<Longrightarrow> bm_get m k = Some v \<longleftrightarrow> (k, v) \<in> set m"
  by (rule map_of_eq_Some_iff) (rule bm_wf_distinct)

text \<open>Two well-formed maps with the same lookups are the same map.\<close>

lemma bm_wf_min:
  "bm_wf ((k, v) # m) \<Longrightarrow> bm_get m k = None"
  by (auto simp: map_of_eq_None_iff)

lemma bm_ext: "bm_wf m \<Longrightarrow> bm_wf m' \<Longrightarrow> bm_get m = bm_get m' \<Longrightarrow> m = m'"
proof (induction m arbitrary: m')
  case Nil
  have "m' = []"
  proof (rule ccontr)
    assume "m' \<noteq> []"
    then obtain k v m'' where "m' = (k, v) # m''" by (cases m') auto
    then show False using fun_cong [OF Nil.prems(3), of k] by simp
  qed
  then show ?case by simp
next
  case (Cons e m)
  obtain k v where e: "e = (k, v)" by force
  have get_k: "bm_get m' k = Some v"
    using Cons.prems(3) e by (metis map_of_Cons_code(2))
  then obtain k' v' m'' where m': "m' = (k', v') # m''"
    by (cases m') auto
  have "k' = k"
  proof (rule ccontr)
    assume "k' \<noteq> k"
    with get_k m' have "k' < k"
      using Cons.prems(2) by (auto dest!: bm_get_in_set)
    moreover have "bm_get (e # m) k' = Some v'"
      using fun_cong [OF Cons.prems(3), of k'] m' by simp
    ultimately show False
      using Cons.prems(1) e by (auto dest!: bm_get_in_set split: if_splits)
  qed
  with get_k m' have v: "v' = v" by simp
  have "bm_get m = bm_get m''"
  proof
    fix x
    show "bm_get m x = bm_get m'' x"
      using Cons.prems e m' \<open>k' = k\<close> v bm_wf_min [of k v m] bm_wf_min [of k v m'']
      by (cases "x = k") (auto dest!: fun_cong [where x = x])
  qed
  then have "m = m''"
    using Cons.IH Cons.prems m' e by auto
  then show ?case
    using e m' \<open>k' = k\<close> v by simp
qed

lemma bm_insert_same: "bm_wf m \<Longrightarrow> bm_get m k = Some v \<Longrightarrow> bm_insert k v m = m"
  by (rule bm_ext) (auto simp: fun_eq_iff)

text \<open>
  The contract of the map type: what a lookup returns after each update and that every
  update keeps the representation ordered.
\<close>

locale ordered_map =
  fixes empty :: "'m"
    and get :: "'m \<Rightarrow> 'k::linorder \<Rightarrow> 'v option"
    and insert :: "'k \<Rightarrow> 'v \<Rightarrow> 'm \<Rightarrow> 'm"
    and remove :: "'k \<Rightarrow> 'm \<Rightarrow> 'm"
    and wf :: "'m \<Rightarrow> bool"
  assumes get_empty: "get empty k = None"
    and get_insert: "get (insert k v m) k' = (if k' = k then Some v else get m k')"
    and get_remove: "get (remove k m) k' = (if k' = k then None else get m k')"
    and wf_empty: "wf empty"
    and wf_insert: "wf m \<Longrightarrow> wf (insert k v m)"
    and wf_remove: "wf m \<Longrightarrow> wf (remove k m)"
    and ext: "wf m \<Longrightarrow> wf m' \<Longrightarrow> get m = get m' \<Longrightarrow> m = m'"
begin

lemma insert_insert: "wf m \<Longrightarrow> insert k v (insert k v' m) = insert k v m"
  by (rule ext) (auto simp: get_insert wf_insert fun_eq_iff)

lemma insert_commute:
  "wf m \<Longrightarrow> k \<noteq> k' \<Longrightarrow> insert k v (insert k' v' m) = insert k' v' (insert k v m)"
  by (rule ext) (auto simp: get_insert wf_insert fun_eq_iff)

lemma remove_insert: "wf m \<Longrightarrow> remove k (insert k v m) = remove k m"
  by (rule ext) (auto simp: get_insert get_remove wf_insert wf_remove fun_eq_iff)

lemma insert_get: "wf m \<Longrightarrow> get m k = Some v \<Longrightarrow> insert k v m = m"
  by (rule ext) (auto simp: get_insert wf_insert fun_eq_iff)

end

interpretation bm: ordered_map bm_empty bm_get bm_insert bm_remove bm_wf
  by unfold_locales (auto intro: bm_ext)

section \<open>Ordered sets\<close>

type_synonym 'a bset = "'a list"

definition bs_wf :: "'a::linorder bset \<Rightarrow> bool" where
  "bs_wf s \<longleftrightarrow> sorted_wrt (<) s"

definition bs_collect :: "'a::linorder list \<Rightarrow> 'a bset" where
  "bs_collect xs = remdups (sort xs)"

lemma set_bs_collect [simp]: "set (bs_collect xs) = set xs"
  by (simp add: bs_collect_def)

lemma bs_wf_collect [simp]: "bs_wf (bs_collect xs)"
  by (simp add: bs_wf_def bs_collect_def strict_sorted_iff sorted_remdups)

lemma bs_ext: "bs_wf s \<Longrightarrow> bs_wf t \<Longrightarrow> set s = set t \<Longrightarrow> s = t"
  by (simp add: bs_wf_def strict_sorted_equal)

lemma bs_collect_Nil_iff [simp]: "bs_collect xs = [] \<longleftrightarrow> xs = []"
  by (metis set_bs_collect set_empty)

section \<open>Iterator adaptors\<close>

fun find_map :: "('a \<Rightarrow> 'b option) \<Rightarrow> 'a list \<Rightarrow> 'b option" where
  "find_map f [] = None"
| "find_map f (x # xs) = (case f x of Some y \<Rightarrow> Some y | None \<Rightarrow> find_map f xs)"

lemma find_map_Some:
  "find_map f xs = Some y \<Longrightarrow> \<exists>x \<in> set xs. f x = Some y"
  by (induction xs) (auto split: option.splits)

lemma find_map_None_iff: "find_map f xs = None \<longleftrightarrow> (\<forall>x \<in> set xs. f x = None)"
  by (induction xs) (auto split: option.splits)

fun position_of :: "('a \<Rightarrow> bool) \<Rightarrow> 'a list \<Rightarrow> nat option" where
  "position_of p [] = None"
| "position_of p (x # xs) = (if p x then Some 0 else map_option Suc (position_of p xs))"

lemma position_of_Some:
  "position_of p xs = Some i \<Longrightarrow> i < length xs \<and> p (xs ! i) \<and> (\<forall>j < i. \<not> p (xs ! j))"
proof (induction xs arbitrary: i)
  case (Cons x xs)
  show ?case
  proof (cases "p x")
    case True
    with Cons.prems show ?thesis by auto
  next
    case False
    with Cons.prems obtain i' where i': "position_of p xs = Some i'" "i = Suc i'"
      by auto
    show ?thesis
      using Cons.IH [OF i'(1)] i'(2) False by (auto simp: nth_Cons split: nat.splits)
  qed
qed simp

lemma position_of_None_iff: "position_of p xs = None \<longleftrightarrow> (\<forall>x \<in> set xs. \<not> p x)"
  by (induction xs) auto

lemma position_of_nth:
  "distinct xs \<Longrightarrow> i < length xs \<Longrightarrow> position_of (\<lambda>y. y = xs ! i) xs = Some i"
proof (induction xs arbitrary: i)
  case (Cons x xs)
  then show ?case by (cases i) auto
qed simp

definition get_or :: "'a \<Rightarrow> 'a option \<Rightarrow> 'a" where
  "get_or d x = (case x of None \<Rightarrow> d | Some y \<Rightarrow> y)"

lemma get_or_simps [simp]: "get_or d None = d" "get_or d (Some y) = y"
  by (simp_all add: get_or_def)

lemma set_map_filter: "y \<in> set (List.map_filter f xs) \<longleftrightarrow> (\<exists>x \<in> set xs. f x = Some y)"
  by (induction xs) (auto split: option.splits)

end
