(* ===== verification/Spec_Base.thy ===== *)
theory Spec_Base
  imports Prelude "HOL-Library.Option_ord"
begin

text \<open>
  The leaves of the specification language (\<open>src/src/spec/\<close>): identifiers and their escaped
  spelling (\<open>id.rs\<close>), field paths, scalar and schema types with the shorthand type grammar
  (\<open>schema.rs\<close>), value references (\<open>operation/value.rs\<close>) and result contracts
  (\<open>operation/result.rs\<close>).

  A Rust \<open>String\<close> is the list of its UTF-8 bytes, one \<open>char\<close> each; \<open>utf8_valid\<close> is the
  check \<open>String::from_utf8\<close> makes. \<open>trim\<close> is modelled on the white space of the ASCII range.
\<close>

section \<open>Identifiers\<close>

datatype id = Id (id_text: string)

instantiation id :: linorder
begin

definition less_eq_id :: "id \<Rightarrow> id \<Rightarrow> bool" where
  "less_eq_id a b \<longleftrightarrow> id_text a \<le> id_text b"

definition less_id :: "id \<Rightarrow> id \<Rightarrow> bool" where
  "less_id a b \<longleftrightarrow> id_text a < id_text b"

instance
  by standard (auto simp: less_eq_id_def less_id_def id.expand)

end

definition byte_of :: "char \<Rightarrow> nat" where
  "byte_of c = of_char c"

definition char_at :: "nat \<Rightarrow> char" where
  "char_at n = char_of n"

lemma byte_of_bound [simp]: "byte_of c < 256"
  by (simp add: byte_of_def)

lemma char_at_byte_of [simp]: "char_at (byte_of c) = c"
  by (simp add: char_at_def byte_of_def)

lemma byte_of_char_at [simp]: "n < 256 \<Longrightarrow> byte_of (char_at n) = n"
  by (simp add: char_at_def byte_of_def)

lemma byte_of_inject [simp]: "byte_of c = byte_of d \<longleftrightarrow> c = d"
  by (metis char_at_byte_of)

text \<open>\<open>u8::is_ascii_alphanumeric\<close>.\<close>

definition ascii_alphanumeric :: "nat \<Rightarrow> bool" where
  "ascii_alphanumeric b \<longleftrightarrow>
     48 \<le> b \<and> b \<le> 57 \<or> 65 \<le> b \<and> b \<le> 90 \<or> 97 \<le> b \<and> b \<le> 122"

text \<open>The digits of \<open>{:02X}\<close>.\<close>

definition hex_digit :: "nat \<Rightarrow> nat" where
  "hex_digit n = (if n < 10 then 48 + n else 55 + n)"

definition kept_byte :: "nat \<Rightarrow> nat \<Rightarrow> bool" where
  "kept_byte i b \<longleftrightarrow> ascii_alphanumeric b \<or> b = 95 \<or> b = 45 \<or> (b = 46 \<and> i > 0)"

definition encode_byte :: "nat \<Rightarrow> nat \<Rightarrow> nat list" where
  "encode_byte i b =
     (if kept_byte i b then [b] else [37, hex_digit (b div 16), hex_digit (b mod 16)])"

fun encode_from :: "nat \<Rightarrow> nat list \<Rightarrow> nat list" where
  "encode_from i [] = []"
| "encode_from i (b # bs) = encode_byte i b @ encode_from (Suc i) bs"

definition encoded :: "id \<Rightarrow> string" where
  "encoded i = map char_at (encode_from 0 (map byte_of (id_text i)))"

text \<open>One digit of \<open>u8::from_str_radix(_, 16)\<close>, either case.\<close>

definition hex_value :: "nat \<Rightarrow> nat option" where
  "hex_value b =
     (if 48 \<le> b \<and> b \<le> 57 then Some (b - 48)
      else if 65 \<le> b \<and> b \<le> 70 then Some (b - 55)
      else if 97 \<le> b \<and> b \<le> 102 then Some (b - 87)
      else None)"

text \<open>
  \<open>u8::from_str_radix\<close> on two bytes: it also accepts a leading \<open>+\<close> before one digit.
\<close>

definition from_hex2 :: "nat \<Rightarrow> nat \<Rightarrow> nat option" where
  "from_hex2 a b =
     (if a = 43 then hex_value b
      else case (hex_value a, hex_value b) of
        (Some x, Some y) \<Rightarrow> Some (16 * x + y)
      | _ \<Rightarrow> None)"

text \<open>Whether a byte continues a multi-byte UTF-8 character.\<close>

definition utf8_continuation :: "nat \<Rightarrow> bool" where
  "utf8_continuation b \<longleftrightarrow> 128 \<le> b \<and> b \<le> 191"

text \<open>
  The byte sequences \<open>String::from_utf8\<close> accepts: the well-formed sequences of the Unicode
  standard (no overlong form, no surrogate, nothing past U+10FFFF).
\<close>

fun utf8_valid :: "nat list \<Rightarrow> bool" where
  "utf8_valid [] = True"
| "utf8_valid (a # r0) =
     (if a < 128 then utf8_valid r0
      else case r0 of
        [] \<Rightarrow> False
      | b # r1 \<Rightarrow>
          if 194 \<le> a \<and> a \<le> 223 then utf8_continuation b \<and> utf8_valid r1
          else case r1 of
            [] \<Rightarrow> False
          | c # r2 \<Rightarrow>
              if 224 \<le> a \<and> a \<le> 239 then
                utf8_continuation b \<and> utf8_continuation c
                \<and> (a = 224 \<longrightarrow> 160 \<le> b) \<and> (a = 237 \<longrightarrow> b \<le> 159) \<and> utf8_valid r2
              else case r2 of
                [] \<Rightarrow> False
              | d # r3 \<Rightarrow>
                  240 \<le> a \<and> a \<le> 244
                  \<and> utf8_continuation b \<and> utf8_continuation c \<and> utf8_continuation d
                  \<and> (a = 240 \<longrightarrow> 144 \<le> b) \<and> (a = 244 \<longrightarrow> b \<le> 143) \<and> utf8_valid r3)"

text \<open>
  The loop of \<open>Id::decode\<close>. \<open>str::get(index + 1..index + 3)\<close> is \<open>None\<close> when fewer than two
  bytes follow or when the slice would not start and end on a character boundary.
\<close>

fun decode_bytes :: "nat list \<Rightarrow> nat list option" where
  "decode_bytes [] = Some []"
| "decode_bytes (b # bs) =
     (if b = 37 then
        (case bs of
           x # y # rest \<Rightarrow>
             if utf8_continuation x \<or> (case rest of z # _ \<Rightarrow> utf8_continuation z | [] \<Rightarrow> False)
             then None
             else (case from_hex2 x y of
                     None \<Rightarrow> None
                   | Some v \<Rightarrow> map_option ((#) v) (decode_bytes rest))
         | _ \<Rightarrow> None)
      else map_option ((#) b) (decode_bytes bs))"

definition decode :: "string \<Rightarrow> id option" where
  "decode e =
     (case decode_bytes (map byte_of e) of
        None \<Rightarrow> None
      | Some bs \<Rightarrow>
          if utf8_valid bs then
            (let i = Id (map char_at bs)
             in if id_text i \<noteq> [] \<and> encoded i = e then Some i else None)
          else None)"

lemma hex_digit_facts:
  "n < 16 \<Longrightarrow> hex_value (hex_digit n) = Some n"
  "n < 16 \<Longrightarrow> hex_digit n \<noteq> 43 \<and> hex_digit n \<noteq> 37 \<and> hex_digit n < 128"
  by (auto simp: hex_value_def hex_digit_def)

lemma from_hex2_digits:
  "a < 16 \<Longrightarrow> b < 16 \<Longrightarrow> from_hex2 (hex_digit a) (hex_digit b) = Some (16 * a + b)"
  by (simp add: from_hex2_def hex_digit_facts)

lemma kept_byte_ascii: "kept_byte i b \<Longrightarrow> b < 128 \<and> b \<noteq> 37"
  by (auto simp: kept_byte_def ascii_alphanumeric_def)

lemma encode_from_ascii: "\<forall>b \<in> set bs. b < 256 \<Longrightarrow> \<forall>x \<in> set (encode_from i bs). x < 128"
proof (induction i bs rule: encode_from.induct)
  case (2 i b bs)
  have "b div 16 < 16" "b mod 16 < 16" using "2.prems" by auto
  with 2 show ?case
    by (auto simp: encode_byte_def hex_digit_facts(2) dest: kept_byte_ascii)
qed simp

lemma not_continuation_ascii: "b < 128 \<Longrightarrow> \<not> utf8_continuation b"
  by (simp add: utf8_continuation_def)

lemma decode_encode_from:
  "\<forall>b \<in> set bs. b < 256 \<Longrightarrow> decode_bytes (encode_from i bs) = Some bs"
proof (induction i bs rule: encode_from.induct)
  case (2 i b bs)
  have digits: "b div 16 < 16" "b mod 16 < 16" using "2.prems" by auto
  have rest: "decode_bytes (encode_from (Suc i) bs) = Some bs" using 2 by simp
  have ascii: "\<forall>x \<in> set (encode_from (Suc i) bs). x < 128"
    using "2.prems" by (intro encode_from_ascii) simp
  show ?case
  proof (cases "kept_byte i b")
    case True
    with rest show ?thesis by (auto simp: encode_byte_def dest: kept_byte_ascii)
  next
    case False
    with rest ascii show ?thesis
      using digits hex_digit_facts(2) [OF digits(1)]
      by (auto simp: encode_byte_def from_hex2_digits not_continuation_ascii split: list.splits)
  qed
qed simp

lemma map_byte_of_encoded:
  "map byte_of (encoded i) = encode_from 0 (map byte_of (id_text i))"
proof -
  have "\<forall>x \<in> set (encode_from 0 (map byte_of (id_text i))). x < 128"
    by (rule encode_from_ascii) auto
  then show ?thesis
    by (force simp: encoded_def intro: map_idI)
qed

lemma decode_encoded:
  assumes "id_text i \<noteq> []" "utf8_valid (map byte_of (id_text i))"
  shows "decode (encoded i) = Some i"
proof -
  have "decode_bytes (map byte_of (encoded i)) = Some (map byte_of (id_text i))"
    by (simp add: map_byte_of_encoded decode_encode_from)
  then show ?thesis
    using assms by (cases i) (simp add: decode_def Let_def comp_def)
qed

lemma decode_Some: "decode e = Some i \<Longrightarrow> encoded i = e \<and> id_text i \<noteq> []"
  by (auto simp: decode_def Let_def split: option.splits if_splits)

lemma encoded_inject: "encoded i = encoded j \<longleftrightarrow> i = j"
proof
  assume "encoded i = encoded j"
  then have "map byte_of (encoded i) = map byte_of (encoded j)" by simp
  then have "map byte_of (id_text i) = map byte_of (id_text j)"
    unfolding map_byte_of_encoded
    by (metis byte_of_bound decode_encode_from imageE list.set_map option.inject)
  then show "i = j"
    by (cases i; cases j) (auto simp: map_inj_on inj_def intro: map_inj_on [of byte_of])
qed simp

section \<open>Field paths and schema types\<close>

datatype field_path = FieldPath (components: "string list")

instantiation field_path :: linorder
begin

definition less_eq_field_path :: "field_path \<Rightarrow> field_path \<Rightarrow> bool" where
  "less_eq_field_path a b \<longleftrightarrow> components a \<le> components b"

definition less_field_path :: "field_path \<Rightarrow> field_path \<Rightarrow> bool" where
  "less_field_path a b \<longleftrightarrow> components a < components b"

instance
  by standard (auto simp: less_eq_field_path_def less_field_path_def field_path.expand)

end

text \<open>\<open>a.0.starts_with(&b.0)\<close> on component lists.\<close>

definition starts_with :: "field_path \<Rightarrow> field_path \<Rightarrow> bool" where
  "starts_with a b \<longleftrightarrow> prefix (components b) (components a)"

definition default_path :: field_path where
  "default_path = FieldPath []"

datatype scalar_type = ScString | ScBool | ScInt | ScFloat | ScDecimal | ScUuid | ScTimestamp

datatype type_ref = TScalar scalar_type | TSchema id | TList type_ref

record field =
  f_ty :: type_ref
  f_optional :: bool

datatype schema_completeness = Partial | Complete

record canonical_schema =
  cs_description :: "string option"
  cs_completeness :: schema_completeness
  cs_fields :: "(string, field) bmap"

record schema_fragment =
  sf_source :: id
  sf_mapping :: "(string, field_path) bmap"

datatype schema = SchCanonical canonical_schema | SchFragment schema_fragment

definition scalar_from_name :: "string \<Rightarrow> scalar_type option" where
  "scalar_from_name n =
     (if n = ''string'' then Some ScString
      else if n = ''bool'' then Some ScBool
      else if n = ''int'' then Some ScInt
      else if n = ''float'' then Some ScFloat
      else if n = ''decimal'' then Some ScDecimal
      else if n = ''uuid'' then Some ScUuid
      else if n = ''timestamp'' then Some ScTimestamp
      else None)"

definition ascii_space :: "char \<Rightarrow> bool" where
  "ascii_space c \<longleftrightarrow> byte_of c \<in> {9, 10, 11, 12, 13, 32}"

definition trim :: "string \<Rightarrow> string" where
  "trim s = rev (dropWhile ascii_space (rev (dropWhile ascii_space s)))"

definition strip_suffix :: "char \<Rightarrow> string \<Rightarrow> string option" where
  "strip_suffix c s = (if s \<noteq> [] \<and> last s = c then Some (butlast s) else None)"

datatype type_error =
    ExpectedTypeName
  | OptionalInsideType string
  | UnterminatedList string
  | UnmatchedBracket string

lemma length_trim: "length (trim s) \<le> length s"
  unfolding trim_def by (metis length_dropWhile_le length_rev order_trans)

lemma trim_Cons_length: "trim s = c # r \<Longrightarrow> length r < length s"
  using length_trim [of s] by simp

text \<open>\<open>parse_type\<close>: the shorthand grammar. Each list bracket recurses on a shorter text.\<close>

function (sequential) parse_type :: "string \<Rightarrow> type_error + type_ref" where
  "parse_type s =
     (case trim s of
        [] \<Rightarrow> Inl ExpectedTypeName
      | c # r \<Rightarrow>
          if last (c # r) = CHR ''?'' then Inl (OptionalInsideType (c # r))
          else if c = CHR ''['' then
            (case strip_suffix (CHR '']'') r of
               None \<Rightarrow> Inl (UnterminatedList (c # r))
             | Some inner \<Rightarrow>
                 (case parse_type inner of Inl e \<Rightarrow> Inl e | Inr t \<Rightarrow> Inr (TList t)))
          else if last (c # r) = CHR '']'' then Inl (UnmatchedBracket (c # r))
          else (case scalar_from_name (c # r) of
                  Some sc \<Rightarrow> Inr (TScalar sc)
                | None \<Rightarrow> Inr (TSchema (Id (c # r)))))"
  by pat_completeness auto
termination
  by (relation "measure length")
     (auto simp: strip_suffix_def split: if_splits dest!: trim_Cons_length)

declare parse_type.simps [simp del]

text \<open>\<open>FieldVisitor::visit_str\<close>: a trailing \<open>?\<close> marks the field optional.\<close>

definition parse_field :: "string \<Rightarrow> type_error + field" where
  "parse_field s =
     (let text = trim s;
          (ty, optional) = (case strip_suffix (CHR ''?'') text of
                              Some rest \<Rightarrow> (rest, True) | None \<Rightarrow> (text, False))
      in case parse_type ty of
           Inl e \<Rightarrow> Inl e
         | Inr t \<Rightarrow> Inr \<lparr>f_ty = t, f_optional = optional\<rparr>)"

text \<open>\<open>str::split\<close> on a character: always at least one piece.\<close>

fun split_on :: "char \<Rightarrow> string \<Rightarrow> string list" where
  "split_on d [] = [[]]"
| "split_on d (c # cs) =
     (if c = d then [] # split_on d cs
      else (case split_on d cs of [] \<Rightarrow> [[c]] | p # ps \<Rightarrow> (c # p) # ps))"

datatype path_error = ExpectedFieldPath | EmptyComponent string

fun parse_components :: "string \<Rightarrow> string list \<Rightarrow> path_error + string list" where
  "parse_components text [] = Inr []"
| "parse_components text (p # ps) =
     (if trim p = [] then Inl (EmptyComponent text)
      else (case parse_components text ps of Inl e \<Rightarrow> Inl e | Inr cs \<Rightarrow> Inr (trim p # cs)))"

text \<open>\<open>FieldPathVisitor::visit_str\<close>.\<close>

definition parse_path :: "string \<Rightarrow> path_error + field_path" where
  "parse_path s =
     (let text = trim s
      in if text = [] then Inl ExpectedFieldPath
         else (case parse_components text (split_on (CHR ''.'') text) of
                 Inl e \<Rightarrow> Inl e
               | Inr cs \<Rightarrow> Inr (FieldPath cs)))"

text \<open>\<open>Display for FieldPath\<close>: the components joined by dots.\<close>

fun join_with :: "char \<Rightarrow> string list \<Rightarrow> string" where
  "join_with d [] = []"
| "join_with d [p] = p"
| "join_with d (p # q # ps) = p @ d # join_with d (q # ps)"

definition show_path :: "field_path \<Rightarrow> string" where
  "show_path p = join_with (CHR ''.'') (components p)"

text \<open>The spelling of a type in the shorthand grammar, for the round trip.\<close>

fun scalar_name :: "scalar_type \<Rightarrow> string" where
  "scalar_name ScString = ''string''"
| "scalar_name ScBool = ''bool''"
| "scalar_name ScInt = ''int''"
| "scalar_name ScFloat = ''float''"
| "scalar_name ScDecimal = ''decimal''"
| "scalar_name ScUuid = ''uuid''"
| "scalar_name ScTimestamp = ''timestamp''"

fun show_type :: "type_ref \<Rightarrow> string" where
  "show_type (TScalar s) = scalar_name s"
| "show_type (TSchema i) = id_text i"
| "show_type (TList t) = CHR ''['' # show_type t @ [CHR '']'']"

text \<open>
  The schema names the shorthand can spell: not blank at either end, not a scalar's name,
  not ending in a question mark or a bracket, not opening one.
\<close>

definition plain_name :: "string \<Rightarrow> bool" where
  "plain_name n \<longleftrightarrow>
     n \<noteq> [] \<and> \<not> ascii_space (hd n) \<and> \<not> ascii_space (last n)
     \<and> hd n \<noteq> CHR ''['' \<and> last n \<noteq> CHR '']'' \<and> last n \<noteq> CHR ''?''
     \<and> scalar_from_name n = None"

fun shorthand_type :: "type_ref \<Rightarrow> bool" where
  "shorthand_type (TScalar s) = True"
| "shorthand_type (TSchema i) = plain_name (id_text i)"
| "shorthand_type (TList t) = shorthand_type t"

lemma trim_id: "s \<noteq> [] \<Longrightarrow> \<not> ascii_space (hd s) \<Longrightarrow> \<not> ascii_space (last s) \<Longrightarrow> trim s = s"
  by (simp add: trim_def dropWhile_eq_self_iff [THEN iffD2] hd_rev)

lemma show_type_shape:
  "shorthand_type t \<Longrightarrow>
     show_type t \<noteq> [] \<and> \<not> ascii_space (hd (show_type t)) \<and> \<not> ascii_space (last (show_type t))
     \<and> last (show_type t) \<noteq> CHR ''?''"
proof (cases t)
  case (TScalar s)
  then show ?thesis by (cases s) (auto simp: ascii_space_def byte_of_def)
qed (auto simp: plain_name_def ascii_space_def byte_of_def)

lemma parse_show_type: "shorthand_type t \<Longrightarrow> parse_type (show_type t) = Inr t"
proof (induction t)
  case (TScalar s)
  have "trim (scalar_name s) = scalar_name s"
    using show_type_shape [of "TScalar s"] by (intro trim_id) auto
  then show ?case
    by (cases s) (simp_all add: parse_type.simps scalar_from_name_def)
next
  case (TSchema i)
  then obtain c r where cr: "id_text i = c # r"
    by (cases "id_text i") (auto simp: plain_name_def)
  have "trim (id_text i) = id_text i"
    using TSchema show_type_shape [of "TSchema i"] by (intro trim_id) auto
  then show ?case
    using TSchema cr by (cases i) (auto simp: parse_type.simps plain_name_def)
next
  case (TList t)
  let ?s = "CHR ''['' # show_type t @ [CHR '']'']"
  have "trim ?s = ?s"
    by (rule trim_id) (auto simp: ascii_space_def byte_of_def)
  then show ?case
    using TList by (subst parse_type.simps) (simp add: strip_suffix_def)
qed

text \<open>A path whose components are plain is what its displayed form parses to.\<close>

definition plain_component :: "string \<Rightarrow> bool" where
  "plain_component c \<longleftrightarrow>
     c \<noteq> [] \<and> \<not> ascii_space (hd c) \<and> \<not> ascii_space (last c) \<and> CHR ''.'' \<notin> set c"

lemma split_on_plain: "d \<notin> set p \<Longrightarrow> split_on d p = [p]"
  by (induction p) auto

lemma split_on_append: "d \<notin> set p \<Longrightarrow> split_on d (p @ d # s) = p # split_on d s"
  by (induction p) auto

lemma split_join: "ps \<noteq> [] \<Longrightarrow> \<forall>p \<in> set ps. d \<notin> set p \<Longrightarrow> split_on d (join_with d ps) = ps"
  by (induction d ps rule: join_with.induct) (auto simp: split_on_plain split_on_append)

lemma join_ends:
  "ps \<noteq> [] \<Longrightarrow> \<forall>p \<in> set ps. p \<noteq> [] \<Longrightarrow>
     join_with d ps \<noteq> [] \<and> hd (join_with d ps) = hd (hd ps) \<and> last (join_with d ps) = last (last ps)"
  by (induction d ps rule: join_with.induct) auto

lemma parse_components_plain:
  "\<forall>p \<in> set ps. plain_component p \<Longrightarrow> parse_components text ps = Inr ps"
  by (induction ps) (auto simp: plain_component_def trim_id)

lemma parse_show_path:
  assumes "components p \<noteq> []" "\<forall>c \<in> set (components p). plain_component c"
  shows "parse_path (show_path p) = Inr p"
proof -
  have ends: "show_path p \<noteq> []" "\<not> ascii_space (hd (show_path p))" "\<not> ascii_space (last (show_path p))"
    using assms join_ends [of "components p" "CHR ''.''"]
    by (auto simp: show_path_def plain_component_def)
  have "split_on (CHR ''.'') (show_path p) = components p"
    using assms by (auto simp: show_path_def plain_component_def intro!: split_join)
  then show ?thesis
    using ends assms by (simp add: parse_path_def trim_id parse_components_plain)
qed

section \<open>Properties\<close>

text \<open>
  C1. \<open>Id::decode\<close> accepts exactly the canonical spellings: a spelling decodes to an id if and
  only if the id is a non-empty UTF-8 text and the spelling is the one \<open>Id::encoded\<close> writes,
  so no two spellings name one id and no two ids share a file name.
\<close>

theorem decode_exact:
  "decode e = Some i \<longleftrightarrow>
     id_text i \<noteq> [] \<and> utf8_valid (map byte_of (id_text i)) \<and> e = encoded i"
proof
  assume d: "decode e = Some i"
  then obtain bs where bs: "decode_bytes (map byte_of e) = Some bs" "utf8_valid bs"
    by (auto simp: decode_def split: option.splits if_splits)
  have e: "encoded i = e" "id_text i \<noteq> []" using decode_Some [OF d] by auto
  have "decode_bytes (map byte_of (encoded i)) = Some (map byte_of (id_text i))"
    by (simp add: map_byte_of_encoded decode_encode_from)
  with bs e show "id_text i \<noteq> [] \<and> utf8_valid (map byte_of (id_text i)) \<and> e = encoded i"
    by simp
qed (auto intro: decode_encoded)

text \<open>
  The type shorthand is unambiguous: every type whose schema names the grammar can spell
  parses back, through any depth of list brackets and with or without the optional mark, to
  the field it was written from.
\<close>

theorem field_shorthand_round_trip:
  assumes "shorthand_type (f_ty f)"
  shows "parse_field (show_type (f_ty f) @ (if f_optional f then [CHR ''?''] else [])) = Inr f"
proof -
  let ?t = "show_type (f_ty f)"
  have shape: "?t \<noteq> []" "\<not> ascii_space (hd ?t)" "\<not> ascii_space (last ?t)" "last ?t \<noteq> CHR ''?''"
    using show_type_shape [OF assms] by auto
  have q: "\<not> ascii_space (CHR ''?'')" by (simp add: ascii_space_def byte_of_def)
  have "trim (?t @ (if f_optional f then [CHR ''?''] else []))
      = ?t @ (if f_optional f then [CHR ''?''] else [])"
    using shape q by (intro trim_id) auto
  then show ?thesis
    using shape parse_show_type [OF assms]
    by (simp add: parse_field_def Let_def strip_suffix_def)
qed

theorem field_shorthand_round_trip_witness:
  "parse_field ''[[Order]]?''
     = Inr \<lparr>f_ty = TList (TList (TSchema (Id ''Order''))), f_optional = True\<rparr>"
  using field_shorthand_round_trip
    [of "\<lparr>f_ty = TList (TList (TSchema (Id ''Order''))), f_optional = True\<rparr>"]
  by (simp add: plain_name_def ascii_space_def byte_of_def scalar_from_name_def)

end
