(* ===== verification/Spec_Effect.thy ===== *)
theory Spec_Effect
  imports Spec_Base
begin

text \<open>
  Values and effects: value references and derivations (\<open>spec/operation/value.rs\<close>), result
  contracts (\<open>result.rs\<close>), idempotency keys (\<open>idempotency.rs\<close>), operation inputs
  (\<open>input/\<close>) and the effects an operation executes (\<open>effect.rs\<close>), with the value roots
  each declaration rests on.
\<close>

section \<open>Value references\<close>

datatype value_source =
    VsInput (source_id: id)
  | VsEffect (source_id: id)
  | VsTransactionOutput (source_id: id)
  | VsStateMachineSubject (source_id: id)
  | VsTransactionRead (source_id: id)
  | VsEffectResultOk (source_id: id)
  | VsEffectResultErr (source_id: id)

datatype value_ref = ValueRef (vr_source: value_source) (vr_path: field_path)

fun kind_name :: "value_source \<Rightarrow> string" where
  "kind_name (VsInput _) = ''input''"
| "kind_name (VsEffect _) = ''effect''"
| "kind_name (VsTransactionOutput _) = ''transaction_output''"
| "kind_name (VsStateMachineSubject _) = ''state_machine_subject''"
| "kind_name (VsTransactionRead _) = ''transaction_read''"
| "kind_name (VsEffectResultOk _) = ''effect_result_ok''"
| "kind_name (VsEffectResultErr _) = ''effect_result_err''"

definition value_source_from_kind :: "string \<Rightarrow> id \<Rightarrow> value_source option" where
  "value_source_from_kind kind i =
     (if kind = ''input'' then Some (VsInput i)
      else if kind = ''effect'' then Some (VsEffect i)
      else if kind = ''transaction_output'' then Some (VsTransactionOutput i)
      else if kind = ''state_machine_subject'' then Some (VsStateMachineSubject i)
      else if kind = ''transaction_read'' then Some (VsTransactionRead i)
      else if kind = ''effect_result_ok'' then Some (VsEffectResultOk i)
      else if kind = ''effect_result_err'' then Some (VsEffectResultErr i)
      else None)"

text \<open>\<open>str::split_once\<close>: the text before and after the first occurrence.\<close>

fun split_once :: "char \<Rightarrow> string \<Rightarrow> (string \<times> string) option" where
  "split_once d [] = None"
| "split_once d (c # cs) =
     (if c = d then Some ([], cs)
      else map_option (\<lambda>(a, b). (c # a, b)) (split_once d cs))"

definition opens_with_value_source_kind :: "string \<Rightarrow> bool" where
  "opens_with_value_source_kind text =
     (case split_once (CHR '':'') text of
        None \<Rightarrow> False
      | Some (kind, _) \<Rightarrow> value_source_from_kind (trim kind) (Id []) \<noteq> None)"

datatype source_error = NoKind string | ExpectedId string string | UnknownKind string

text \<open>\<open>ValueSourceVisitor::visit_str\<close>.\<close>

definition parse_value_source :: "string \<Rightarrow> source_error + value_source" where
  "parse_value_source s =
     (let text = trim s
      in case split_once (CHR '':'') text of
           None \<Rightarrow> Inl (NoKind text)
         | Some (kind, i) \<Rightarrow>
             (if trim i = [] then Inl (ExpectedId text kind)
              else case value_source_from_kind (trim kind) (Id (trim i)) of
                     None \<Rightarrow> Inl (UnknownKind (trim kind))
                   | Some v \<Rightarrow> Inr v))"

definition show_value_source :: "value_source \<Rightarrow> string" where
  "show_value_source v = kind_name v @ CHR '':'' # id_text (source_id v)"

lemma split_once_append: "d \<notin> set a \<Longrightarrow> split_once d (a @ d # b) = Some (a, b)"
  by (induction a) auto

lemma kind_name_facts:
  "CHR '':'' \<notin> set (kind_name v)" "trim (kind_name v) = kind_name v"
  "kind_name v \<noteq> []" "\<not> ascii_space (hd (kind_name v))"
  "value_source_from_kind (kind_name v) (source_id v) = Some v"
proof -
  show "CHR '':'' \<notin> set (kind_name v)" "kind_name v \<noteq> []" "\<not> ascii_space (hd (kind_name v))"
    by (cases v; simp add: ascii_space_def byte_of_def)+
  show "trim (kind_name v) = kind_name v"
    by (rule trim_id) (cases v; simp add: ascii_space_def byte_of_def)+
  show "value_source_from_kind (kind_name v) (source_id v) = Some v"
    by (cases v) (simp_all add: value_source_from_kind_def)
qed

lemma parse_show_value_source:
  assumes "id_text (source_id v) \<noteq> []"
    "\<not> ascii_space (hd (id_text (source_id v)))" "\<not> ascii_space (last (id_text (source_id v)))"
  shows "parse_value_source (show_value_source v) = Inr v"
proof -
  have "trim (show_value_source v) = show_value_source v"
    using assms by (intro trim_id) (auto simp: show_value_source_def kind_name_facts)
  moreover have "split_once (CHR '':'') (show_value_source v)
      = Some (kind_name v, id_text (source_id v))"
    by (simp add: show_value_source_def split_once_append kind_name_facts)
  ultimately show ?thesis
    using assms
    by (simp add: parse_value_source_def trim_id kind_name_facts)
qed

datatype derivation = DUnspecified | Deterministic "value_ref list"

fun derivation_roots :: "derivation \<Rightarrow> value_ref list" where
  "derivation_roots DUnspecified = []"
| "derivation_roots (Deterministic from) = from"

section \<open>Result contracts\<close>

datatype error_disposition = EdUnspecified | EdTerminal | EdRetryable

record error_result_type =
  er_schema :: id
  er_disposition :: error_disposition

record result_type =
  rt_ok :: id
  rt_errors :: "(id, error_result_type) bmap"

datatype result_variant = VariantOk | VariantErr

datatype result_arm = ArmResOk | ArmResErr id

definition result_error :: "result_type \<Rightarrow> id \<Rightarrow> error_result_type option" where
  "result_error r c = bm_get (rt_errors r) c"

fun schema_of :: "result_type \<Rightarrow> result_arm \<Rightarrow> id option" where
  "schema_of r ArmResOk = Some (rt_ok r)"
| "schema_of r (ArmResErr e) = map_option er_schema (bm_get (rt_errors r) e)"

fun arm_variant :: "result_arm \<Rightarrow> result_variant" where
  "arm_variant ArmResOk = VariantOk"
| "arm_variant (ArmResErr _) = VariantErr"

fun arm_error :: "result_arm \<Rightarrow> id option" where
  "arm_error ArmResOk = None"
| "arm_error (ArmResErr e) = Some e"

text \<open>\<open>ErrorResultTypeVisitor::visit_str\<close>: the bare schema declares no disposition.\<close>

definition parse_error_result :: "string \<Rightarrow> error_result_type option" where
  "parse_error_result s =
     (if trim s = [] then None
      else Some \<lparr>er_schema = Id (trim s), er_disposition = EdUnspecified\<rparr>)"

section \<open>Idempotency keys\<close>

record idempotency_key =
  ik_components :: "value_ref list"

record key_propagation =
  kp_source :: idempotency_key
  kp_target :: idempotency_key

datatype idempotency_guarantee =
    IgUnspecified
  | IgNotDeduplicated
  | IgDeduplicatedBy idempotency_key

section \<open>Operation inputs\<close>

datatype request_identity = RiUnspecified | RiKeyed "field_path list"

record request_input =
  ri_schema :: id
  ri_identity :: request_identity
  ri_result :: result_type

datatype message_selector = MsAll | MsOnly "id bset"

record subscription_input =
  si_topic :: id
  si_messages :: message_selector
  si_acknowledge_on_success :: "bool option"

record outbox_input =
  oi_outbox :: id

datatype op_input =
    InRequest request_input
  | InSubscription subscription_input
  | InOutbox outbox_input

section \<open>Effects\<close>

record publication_effect =
  pe_topic :: id
  pe_schema :: id
  pe_propagation :: "key_propagation list"

record request_target =
  rq_operation :: id
  rq_input :: id

datatype retry_semantics = RetryUnspecified | RetryNever | RetryMayRepeat

record request_effect =
  re_target :: request_target
  re_schema :: id
  re_retry :: retry_semantics
  re_propagation :: "key_propagation list"

record outbox_write_effect =
  ow_outbox :: id
  ow_schema :: id
  ow_propagation :: "key_propagation list"

datatype external_identity = XiUnspecified | XiKeyed "value_ref list"

datatype external_idempotency =
    XdUnspecified | XdDistinguishable | XdIdenticalPerIdentity | XdSideEffectFree

datatype external_result_replay = XrUnspecified | XrUnstable | XrReplayStable

record external_effect =
  xe_name :: string
  xe_identity :: external_identity
  xe_idempotency :: external_idempotency
  xe_result_replay :: external_result_replay
  xe_result :: "result_type option"

datatype effect =
    EfPublication publication_effect
  | EfRequest request_effect
  | EfExternal external_effect
  | EfOutboxWrite outbox_write_effect

fun permits_direct_async :: "effect \<Rightarrow> bool" where
  "permits_direct_async (EfPublication _) = True"
| "permits_direct_async (EfRequest _) = True"
| "permits_direct_async (EfExternal _) = True"
| "permits_direct_async (EfOutboxWrite _) = False"

definition propagation_roots :: "key_propagation list \<Rightarrow> value_ref list" where
  "propagation_roots ps =
     concat (map (\<lambda>p. ik_components (kp_source p) @ ik_components (kp_target p)) ps)"

fun effect_roots :: "effect \<Rightarrow> value_ref list" where
  "effect_roots (EfPublication e) = propagation_roots (pe_propagation e)"
| "effect_roots (EfRequest e) = propagation_roots (re_propagation e)"
| "effect_roots (EfOutboxWrite e) = propagation_roots (ow_propagation e)"
| "effect_roots (EfExternal e) =
     (case xe_identity e of XiKeyed cs \<Rightarrow> cs | XiUnspecified \<Rightarrow> [])"

lemma set_propagation_roots:
  "set (propagation_roots ps) =
     (\<Union>p \<in> set ps. set (ik_components (kp_source p)) \<union> set (ik_components (kp_target p)))"
  by (auto simp: propagation_roots_def)

end
