(* ===== verification/Spec_Transaction.thy ===== *)
theory Spec_Transaction
  imports Spec_Effect
begin

text \<open>
  Transactions (\<open>spec/operation/transaction.rs\<close>): isolation, object selectors, the thirteen
  step kinds and what each one observes, compares, guards and may reject. An \<open>i64\<close> literal is
  an \<open>int\<close>; \<open>selector_value_of_u64\<close> keeps the range check of \<open>visit_u64\<close>.
\<close>

section \<open>Selectors and comparisons\<close>

datatype literal = LString string | LBool bool | LInt int

datatype selector_value = SvValue value_ref | SvLiteral literal

datatype predicate =
    PAll
  | PEq field_path selector_value
  | PAnd "predicate list"

record object_selector =
  os_object :: id
  os_predicate :: predicate

fun selector_value_roots :: "selector_value \<Rightarrow> value_ref list" where
  "selector_value_roots (SvValue r) = [r]"
| "selector_value_roots (SvLiteral _) = []"

fun predicate_roots :: "predicate \<Rightarrow> value_ref list" where
  "predicate_roots PAll = []"
| "predicate_roots (PEq _ v) = selector_value_roots v"
| "predicate_roots (PAnd ps) = concat (map predicate_roots ps)"

datatype selector_error = ReadsAsValueSource string | DoesNotFitInt nat

definition selector_value_of_str :: "string \<Rightarrow> selector_error + selector_value" where
  "selector_value_of_str text =
     (if opens_with_value_source_kind text then Inl (ReadsAsValueSource text)
      else Inr (SvLiteral (LString text)))"

definition selector_value_of_u64 :: "nat \<Rightarrow> selector_error + selector_value" where
  "selector_value_of_u64 n =
     (if n < 2 ^ 63 then Inr (SvLiteral (LInt (int n))) else Inl (DoesNotFitInt n))"

record compare_condition =
  cc_field :: field_path
  cc_expected :: selector_value

definition compare_root :: "compare_condition \<Rightarrow> value_ref option" where
  "compare_root c = (case cc_expected c of SvValue r \<Rightarrow> Some r | SvLiteral _ \<Rightarrow> None)"

definition observed_read :: "compare_condition \<Rightarrow> id option" where
  "observed_read c =
     (case compare_root c of
        Some (ValueRef (VsTransactionRead b) p) \<Rightarrow> if p = cc_field c then Some b else None
      | _ \<Rightarrow> None)"

section \<open>Steps\<close>

datatype field_selection = FsAll | FsOnly "field_path bset"

datatype lock_mode = Shared | Exclusive

datatype ordering_direction = Ascending | Descending

record ordering_term =
  ot_field :: field_path
  ot_direction :: ordering_direction

datatype lock_order = LoUnspecified | LoBy "ordering_term list"

datatype cursor_advance_rule = Successor | MonotonicAfter

record read_step =
  rd_bind :: id
  rd_target :: object_selector
  rd_fields :: field_selection

record update_step =
  up_target :: object_selector
  up_fields :: "field_path bset"
  up_values :: derivation

record compare_and_set =
  cas_target :: object_selector
  cas_compare :: "compare_condition list"
  cas_fields :: "field_path bset"
  cas_values :: derivation

record insert_step =
  in_object :: id
  in_values :: derivation

record upsert_step =
  us_target :: object_selector
  us_insert_values :: derivation
  us_update_fields :: "field_path bset"
  us_update_values :: derivation

record delete_step =
  de_target :: object_selector

record lock_step =
  lk_target :: object_selector
  lk_mode :: lock_mode
  lk_order :: lock_order

record transition_effect_intent =
  ti_bind :: id
  ti_values :: derivation

record transition_effect_application =
  ta_values :: derivation

record state_transition =
  st_machine :: id
  st_transition :: id
  st_subject :: object_selector
  st_compare :: "compare_condition list"
  st_effect_intents :: "(id, transition_effect_intent) bmap"
  st_effects :: "(id, transition_effect_application) bmap"

record advance_cursor =
  ac_target :: object_selector
  ac_field :: field_path
  ac_incoming :: value_ref
  ac_rule :: cursor_advance_rule
  ac_compare :: "compare_condition list"

record fence_step =
  fe_target :: object_selector
  fe_field :: field_path
  fe_token :: value_ref
  fe_compare :: "compare_condition list"

record establish_effect_intent =
  ei_bind :: id
  ei_effect_id :: id
  ei_effect :: effect
  ei_values :: derivation

record establish_transaction_output =
  eo_bind :: id
  eo_schema :: id
  eo_values :: derivation

record write_outbox_effect =
  wo_effect_id :: id
  wo_effect :: outbox_write_effect
  wo_values :: derivation

datatype tx_step =
    TsRead read_step
  | TsUpdate update_step
  | TsCompareAndSet compare_and_set
  | TsInsert insert_step
  | TsUpsert upsert_step
  | TsDelete delete_step
  | TsLock lock_step
  | TsTransition state_transition
  | TsAdvanceCursor advance_cursor
  | TsFence fence_step
  | TsEstablishEffectIntent establish_effect_intent
  | TsEstablishTransactionOutput establish_transaction_output
  | TsWriteOutbox write_outbox_effect

fun step_compare :: "tx_step \<Rightarrow> compare_condition list" where
  "step_compare (TsCompareAndSet s) = cas_compare s"
| "step_compare (TsTransition s) = st_compare s"
| "step_compare (TsAdvanceCursor s) = ac_compare s"
| "step_compare (TsFence s) = fe_compare s"
| "step_compare _ = []"

fun step_own_roots :: "tx_step \<Rightarrow> value_ref list" where
  "step_own_roots (TsRead s) = predicate_roots (os_predicate (rd_target s))"
| "step_own_roots (TsUpdate s) =
     predicate_roots (os_predicate (up_target s)) @ derivation_roots (up_values s)"
| "step_own_roots (TsCompareAndSet s) =
     predicate_roots (os_predicate (cas_target s)) @ derivation_roots (cas_values s)"
| "step_own_roots (TsInsert s) = derivation_roots (in_values s)"
| "step_own_roots (TsUpsert s) =
     predicate_roots (os_predicate (us_target s)) @ derivation_roots (us_insert_values s)
     @ derivation_roots (us_update_values s)"
| "step_own_roots (TsDelete s) = predicate_roots (os_predicate (de_target s))"
| "step_own_roots (TsLock s) = predicate_roots (os_predicate (lk_target s))"
| "step_own_roots (TsTransition s) =
     predicate_roots (os_predicate (st_subject s))
     @ concat (map (\<lambda>i. derivation_roots (ti_values i)) (bm_values (st_effect_intents s)))
     @ concat (map (\<lambda>e. derivation_roots (ta_values e)) (bm_values (st_effects s)))"
| "step_own_roots (TsAdvanceCursor s) =
     predicate_roots (os_predicate (ac_target s)) @ [ac_incoming s]"
| "step_own_roots (TsFence s) = predicate_roots (os_predicate (fe_target s)) @ [fe_token s]"
| "step_own_roots (TsEstablishEffectIntent s) =
     effect_roots (ei_effect s) @ derivation_roots (ei_values s)"
| "step_own_roots (TsEstablishTransactionOutput s) = derivation_roots (eo_values s)"
| "step_own_roots (TsWriteOutbox s) =
     derivation_roots (wo_values s) @ propagation_roots (ow_propagation (wo_effect s))"

text \<open>\<open>TransactionStep::roots\<close>: the step's own roots, then those its comparisons name.\<close>

definition step_roots :: "tx_step \<Rightarrow> value_ref list" where
  "step_roots s = step_own_roots s @ List.map_filter compare_root (step_compare s)"

fun step_rejects :: "tx_step \<Rightarrow> bool" where
  "step_rejects (TsCompareAndSet _) = True"
| "step_rejects (TsTransition _) = True"
| "step_rejects (TsAdvanceCursor _) = True"
| "step_rejects (TsFence _) = True"
| "step_rejects _ = False"

fun step_selector :: "tx_step \<Rightarrow> object_selector option" where
  "step_selector (TsRead s) = Some (rd_target s)"
| "step_selector (TsUpdate s) = Some (up_target s)"
| "step_selector (TsCompareAndSet s) = Some (cas_target s)"
| "step_selector (TsUpsert s) = Some (us_target s)"
| "step_selector (TsDelete s) = Some (de_target s)"
| "step_selector (TsLock s) = Some (lk_target s)"
| "step_selector (TsTransition s) = Some (st_subject s)"
| "step_selector (TsAdvanceCursor s) = Some (ac_target s)"
| "step_selector (TsFence s) = Some (fe_target s)"
| "step_selector _ = None"

fun step_object :: "tx_step \<Rightarrow> id option" where
  "step_object (TsInsert s) = Some (in_object s)"
| "step_object s = map_option os_object (step_selector s)"

fun step_guards :: "tx_step \<Rightarrow> bool" where
  "step_guards (TsCompareAndSet _) = True"
| "step_guards (TsTransition _) = True"
| "step_guards (TsAdvanceCursor _) = True"
| "step_guards (TsFence _) = True"
| "step_guards (TsUpsert _) = True"
| "step_guards _ = False"

section \<open>Transactions\<close>

datatype isolation = IsoUnspecified | IsoReadCommitted | IsoSnapshot | IsoSerializable

record serializability_requirement =
  sr_key :: value_ref

record ordering_requirement =
  or_key :: value_ref
  or_position :: value_ref

record tx_requirements =
  tr_serializability :: "serializability_requirement list"
  tr_ordering :: "ordering_requirement list"

record transaction =
  tx_id :: id
  tx_data_model :: "id option"
  tx_isolation :: isolation
  tx_idempotency :: idempotency_guarantee
  tx_requirements :: tx_requirements
  tx_steps :: "tx_step list"

definition tx_rejects :: "transaction \<Rightarrow> bool" where
  "tx_rejects t = (\<exists>s \<in> set (tx_steps t). step_rejects s)"

definition requirements_empty :: "tx_requirements \<Rightarrow> bool" where
  "requirements_empty r \<longleftrightarrow> tr_serializability r = [] \<and> tr_ordering r = []"

lemma step_rejects_guards: "step_rejects s \<Longrightarrow> step_guards s"
  by (cases s) auto

lemma step_compare_rejects: "step_compare s \<noteq> [] \<Longrightarrow> step_rejects s"
  by (cases s) auto

lemma step_guards_selector: "step_guards s \<Longrightarrow> step_selector s \<noteq> None"
  by (cases s) auto

lemma compare_root_in_roots:
  "c \<in> set (step_compare s) \<Longrightarrow> compare_root c = Some r \<Longrightarrow> r \<in> set (step_roots s)"
  by (force simp: step_roots_def map_filter_def)

lemma observed_read_root:
  "observed_read c = Some b \<Longrightarrow> compare_root c = Some (ValueRef (VsTransactionRead b) (cc_field c))"
  by (auto simp: observed_read_def split: option.splits value_ref.splits value_source.splits if_splits)

end
