(* ===== verification/Spec_Program.thy ===== *)
theory Spec_Program
  imports Spec_Transaction
begin

text \<open>
  Operation programs (\<open>spec/operation/program.rs\<close>): the structured block of steps, the
  conditions branches decide on, step locations, and the traversals and lookups every other
  part of the system goes through (\<open>steps_with_locations\<close>, \<open>transactions\<close>, \<open>transaction\<close>,
  \<open>transaction_mut\<close>).
\<close>

section \<open>Blocks and steps\<close>

datatype condition =
    CondUnspecified
  | CondEq value_ref selector_value
  | CondAnd "condition list"
  | CondNot condition
  | CondPresent value_ref

fun condition_roots :: "condition \<Rightarrow> value_ref list" where
  "condition_roots CondUnspecified = []"
| "condition_roots (CondEq v e) = v # selector_value_roots e"
| "condition_roots (CondAnd cs) = concat (map condition_roots cs)"
| "condition_roots (CondNot c) = condition_roots c"
| "condition_roots (CondPresent v) = [v]"

fun is_deterministic :: "condition \<Rightarrow> bool" where
  "is_deterministic CondUnspecified = False"
| "is_deterministic (CondEq _ _) = True"
| "is_deterministic (CondPresent _) = True"
| "is_deterministic (CondAnd cs) = list_all is_deterministic cs"
| "is_deterministic (CondNot c) = is_deterministic c"

datatype result_outcome = OutOk derivation | OutErr id derivation

fun outcome_arm :: "result_outcome \<Rightarrow> result_arm" where
  "outcome_arm (OutOk _) = ArmResOk"
| "outcome_arm (OutErr e _) = ArmResErr e"

fun outcome_variant :: "result_outcome \<Rightarrow> result_variant" where
  "outcome_variant (OutOk _) = VariantOk"
| "outcome_variant (OutErr _ _) = VariantErr"

fun outcome_values :: "result_outcome \<Rightarrow> derivation" where
  "outcome_values (OutOk d) = d"
| "outcome_values (OutErr _ d) = d"

record execute_effect =
  xf_effect_id :: id
  xf_effect :: effect
  xf_values :: derivation
  xf_bind :: "id option"

record execute_effect_async =
  xa_handle :: id
  xa_effect_id :: id
  xa_effect :: effect
  xa_values :: derivation

record execute_effect_intent =
  xi_intent :: id
  xi_bind :: "id option"

record execute_effect_intent_async =
  xia_intent :: id
  xia_handle :: id

record async_join =
  aj_handle :: id
  aj_bind :: "id option"

record race_step =
  rc_handles :: "id list"
  rc_bind :: "id option"

record return_step =
  ret_request :: id
  ret_outcome :: result_outcome

datatype operation_block = Block (block_steps: "operation_step list")
and operation_step =
    OsTransaction transaction "operation_block option"
  | OsExecuteEffect execute_effect
  | OsExecuteEffectAsync execute_effect_async
  | OsExecuteEffectIntent execute_effect_intent
  | OsExecuteEffectIntentAsync execute_effect_intent_async
  | OsJoinAll "async_join list"
  | OsRace race_step
  | OsMatchResult id operation_block "(id \<times> operation_block) list"
  | OsBranch condition operation_block "operation_block option"
  | OsReturn return_step
  | OsComplete
  | OsAbandon

section \<open>Locations\<close>

datatype arm = ArmOk | ArmErr id | ArmThen | ArmOtherwise | ArmRejected

fun arm_of :: "result_arm \<Rightarrow> arm" where
  "arm_of ArmResOk = ArmOk"
| "arm_of (ArmResErr e) = ArmErr e"

datatype step_hop = Hop (hop_step: nat) (hop_arm: "arm option")

type_synonym step_location = "step_hop list"

text \<open>\<open>StepLocation::descend\<close>: the last hop enters the arm, a fresh hop names the step.\<close>

definition descend :: "step_location \<Rightarrow> arm option \<Rightarrow> nat \<Rightarrow> step_location" where
  "descend loc a i =
     (if loc = [] then [Hop i None]
      else butlast loc @ [Hop (hop_step (last loc)) a, Hop i None])"

text \<open>
  \<open>OperationBlock::collect\<close>: every step with its location, depth first; the enumeration
  counter of the loop is the second argument of \<open>collect_steps\<close>.
\<close>

fun collect_block ::
    "step_location \<Rightarrow> arm option \<Rightarrow> operation_block \<Rightarrow> (step_location \<times> operation_step) list"
and collect_steps ::
    "step_location \<Rightarrow> arm option \<Rightarrow> nat \<Rightarrow> operation_step list
       \<Rightarrow> (step_location \<times> operation_step) list"
and collect_nested ::
    "step_location \<Rightarrow> operation_step \<Rightarrow> (step_location \<times> operation_step) list"
and collect_errors ::
    "step_location \<Rightarrow> (id \<times> operation_block) list \<Rightarrow> (step_location \<times> operation_step) list"
where
  "collect_block parent a (Block ss) = collect_steps parent a 0 ss"
| "collect_steps parent a i [] = []"
| "collect_steps parent a i (s # ss) =
     (descend parent a i, s) # collect_nested (descend parent a i) s
     @ collect_steps parent a (Suc i) ss"
| "collect_nested loc (OsTransaction t None) = []"
| "collect_nested loc (OsTransaction t (Some b)) = collect_block loc (Some ArmRejected) b"
| "collect_nested loc (OsMatchResult r ok errs) =
     collect_block loc (Some ArmOk) ok @ collect_errors loc errs"
| "collect_nested loc (OsBranch c b None) = collect_block loc (Some ArmThen) b"
| "collect_nested loc (OsBranch c b (Some d)) =
     collect_block loc (Some ArmThen) b @ collect_block loc (Some ArmOtherwise) d"
| "collect_nested loc s = []"
| "collect_errors loc [] = []"
| "collect_errors loc ((e, b) # errs) =
     collect_block loc (Some (ArmErr e)) b @ collect_errors loc errs"

definition steps_with_locations :: "operation_block \<Rightarrow> (step_location \<times> operation_step) list" where
  "steps_with_locations b = collect_block [] None b"

definition executions ::
    "operation_block \<Rightarrow> (step_location \<times> transaction \<times> operation_block option) list" where
  "executions b =
     List.map_filter (\<lambda>(loc, s). case s of
        OsTransaction t r \<Rightarrow> Some (loc, t, r) | _ \<Rightarrow> None) (steps_with_locations b)"

definition transactions :: "operation_block \<Rightarrow> (step_location \<times> transaction) list" where
  "transactions b = map (\<lambda>(loc, t, r). (loc, t)) (executions b)"

text \<open>\<open>OperationBlock::transaction\<close>: the first inline transaction with the id.\<close>

definition find_transaction :: "operation_block \<Rightarrow> id \<Rightarrow> transaction option" where
  "find_transaction b i =
     find_map (\<lambda>(loc, t). if tx_id t = i then Some t else None) (transactions b)"

section \<open>Mutable access to a transaction\<close>

text \<open>
  \<open>OperationBlock::transaction_mut\<close> hands out a mutable reference; the model applies a
  function at that place. As in the code, the first step that contains the id anywhere is
  entered, and within it the first arm that contains it.
\<close>

definition block_contains :: "id \<Rightarrow> operation_block \<Rightarrow> bool" where
  "block_contains i b \<longleftrightarrow> find_transaction b i \<noteq> None"

fun step_contains :: "id \<Rightarrow> operation_step \<Rightarrow> bool" where
  "step_contains i (OsTransaction t r) \<longleftrightarrow>
     tx_id t = i \<or> (case r of None \<Rightarrow> False | Some b \<Rightarrow> block_contains i b)"
| "step_contains i (OsMatchResult r ok errs) \<longleftrightarrow>
     block_contains i ok \<or> (\<exists>(e, b) \<in> set errs. block_contains i b)"
| "step_contains i (OsBranch c b d) \<longleftrightarrow>
     block_contains i b \<or> (case d of None \<Rightarrow> False | Some b' \<Rightarrow> block_contains i b')"
| "step_contains i s \<longleftrightarrow> False"

fun update_block :: "id \<Rightarrow> (transaction \<Rightarrow> transaction) \<Rightarrow> operation_block \<Rightarrow> operation_block option"
and update_steps ::
    "id \<Rightarrow> (transaction \<Rightarrow> transaction) \<Rightarrow> operation_step list \<Rightarrow> operation_step list option"
and update_inner :: "id \<Rightarrow> (transaction \<Rightarrow> transaction) \<Rightarrow> operation_step \<Rightarrow> operation_step option"
and update_errors ::
    "id \<Rightarrow> (transaction \<Rightarrow> transaction) \<Rightarrow> (id \<times> operation_block) list
       \<Rightarrow> (id \<times> operation_block) list option"
where
  "update_block i f (Block ss) = map_option Block (update_steps i f ss)"
| "update_steps i f [] = None"
| "update_steps i f (s # ss) =
     (if step_contains i s then map_option (\<lambda>s'. s' # ss) (update_inner i f s)
      else map_option ((#) s) (update_steps i f ss))"
| "update_inner i f (OsTransaction t None) =
     (if tx_id t = i then Some (OsTransaction (f t) None) else None)"
| "update_inner i f (OsTransaction t (Some b)) =
     (if tx_id t = i then Some (OsTransaction (f t) (Some b))
      else map_option (\<lambda>b'. OsTransaction t (Some b')) (update_block i f b))"
| "update_inner i f (OsMatchResult r ok errs) =
     (if block_contains i ok
      then map_option (\<lambda>b. OsMatchResult r b errs) (update_block i f ok)
      else map_option (OsMatchResult r ok) (update_errors i f errs))"
| "update_inner i f (OsBranch c b None) =
     (if block_contains i b then map_option (\<lambda>b'. OsBranch c b' None) (update_block i f b)
      else None)"
| "update_inner i f (OsBranch c b (Some d)) =
     (if block_contains i b then map_option (\<lambda>b'. OsBranch c b' (Some d)) (update_block i f b)
      else map_option (\<lambda>d'. OsBranch c b (Some d')) (update_block i f d))"
| "update_inner i f s = None"
| "update_errors i f [] = None"
| "update_errors i f ((e, b) # errs) =
     (if block_contains i b then map_option (\<lambda>b'. (e, b') # errs) (update_block i f b)
      else map_option ((#) (e, b)) (update_errors i f errs))"

text \<open>The transactions a traversal visits, as a list homomorphism.\<close>

definition tx_of :: "step_location \<times> operation_step \<Rightarrow> (step_location \<times> transaction) option" where
  "tx_of e = (case e of (loc, OsTransaction t r) \<Rightarrow> Some (loc, t) | _ \<Rightarrow> None)"

abbreviation txs :: "(step_location \<times> operation_step) list \<Rightarrow> (step_location \<times> transaction) list" where
  "txs \<equiv> List.map_filter tx_of"

lemma map_filter_append [simp]: "List.map_filter f (xs @ ys) = List.map_filter f xs @ List.map_filter f ys"
  by (simp add: map_filter_def)

lemma map_filter_simps [simp]:
  "List.map_filter f [] = []"
  "List.map_filter f (x # xs) =
     (case f x of None \<Rightarrow> List.map_filter f xs | Some y \<Rightarrow> y # List.map_filter f xs)"
  by (simp_all add: map_filter_def split: option.splits)

lemma transactions_txs: "transactions b = txs (steps_with_locations b)"
proof -
  have "map (\<lambda>(loc, t, r). (loc, t)) (List.map_filter (\<lambda>(loc, s). case s of
          OsTransaction t r \<Rightarrow> Some (loc, t, r) | _ \<Rightarrow> None) es) = txs es" for es
    by (induction es) (auto simp: tx_of_def split: operation_step.splits option.splits)
  then show ?thesis by (simp add: transactions_def executions_def)
qed

text \<open>Rewriting the first transaction with an id in such a list.\<close>

fun update_first :: "id \<Rightarrow> (transaction \<Rightarrow> transaction) \<Rightarrow> (step_location \<times> transaction) list
    \<Rightarrow> (step_location \<times> transaction) list" where
  "update_first i f [] = []"
| "update_first i f ((loc, t) # xs) =
     (if tx_id t = i then (loc, f t) # xs else (loc, t) # update_first i f xs)"

abbreviation has_tx :: "id \<Rightarrow> (step_location \<times> transaction) list \<Rightarrow> bool" where
  "has_tx i xs \<equiv> i \<in> (\<lambda>e. tx_id (snd e)) ` set xs"

lemma update_first_append:
  "update_first i f (xs @ ys) =
     (if has_tx i xs then update_first i f xs @ ys else xs @ update_first i f ys)"
  by (induction i f xs rule: update_first.induct) auto

lemma update_first_none: "\<not> has_tx i xs \<Longrightarrow> update_first i f xs = xs"
  by (induction i f xs rule: update_first.induct) auto

text \<open>Which transaction ids a block holds does not depend on where it sits.\<close>

fun ids_block :: "operation_block \<Rightarrow> id list"
and ids_steps :: "operation_step list \<Rightarrow> id list"
and ids_nested :: "operation_step \<Rightarrow> id list"
and ids_errors :: "(id \<times> operation_block) list \<Rightarrow> id list"
where
  "ids_block (Block ss) = ids_steps ss"
| "ids_steps [] = []"
| "ids_steps (s # ss) =
     (case s of OsTransaction t r \<Rightarrow> [tx_id t] | _ \<Rightarrow> []) @ ids_nested s @ ids_steps ss"
| "ids_nested (OsTransaction t None) = []"
| "ids_nested (OsTransaction t (Some b)) = ids_block b"
| "ids_nested (OsMatchResult r ok errs) = ids_block ok @ ids_errors errs"
| "ids_nested (OsBranch c b None) = ids_block b"
| "ids_nested (OsBranch c b (Some d)) = ids_block b @ ids_block d"
| "ids_nested s = []"
| "ids_errors [] = []"
| "ids_errors ((e, b) # errs) = ids_block b @ ids_errors errs"

lemma ids_collect:
  "map (\<lambda>e. tx_id (snd e)) (txs (collect_block loc a b)) = ids_block b"
  "map (\<lambda>e. tx_id (snd e)) (txs (collect_steps loc a i ss)) = ids_steps ss"
  "map (\<lambda>e. tx_id (snd e)) (txs (collect_nested loc s)) = ids_nested s"
  "map (\<lambda>e. tx_id (snd e)) (txs (collect_errors loc errs)) = ids_errors errs"
  by (induction loc a b and loc a i ss and loc s and loc errs
      rule: collect_block_collect_steps_collect_nested_collect_errors.induct)
     (auto simp: tx_of_def split: operation_step.splits)

lemma has_tx_collect:
  "has_tx i (txs (collect_block loc a b)) \<longleftrightarrow> i \<in> set (ids_block b)"
  "has_tx i (txs (collect_steps loc a k ss)) \<longleftrightarrow> i \<in> set (ids_steps ss)"
  "has_tx i (txs (collect_nested loc s)) \<longleftrightarrow> i \<in> set (ids_nested s)"
  "has_tx i (txs (collect_errors loc errs)) \<longleftrightarrow> i \<in> set (ids_errors errs)"
  by (metis ids_collect(1) list.set_map, metis ids_collect(2) list.set_map,
      metis ids_collect(3) list.set_map, metis ids_collect(4) list.set_map)

lemma find_transaction_None_iff: "find_transaction b i = None \<longleftrightarrow> i \<notin> set (ids_block b)"
proof -
  have "find_transaction b i = None \<longleftrightarrow> (\<forall>e \<in> set (transactions b). tx_id (snd e) \<noteq> i)"
    by (simp add: find_transaction_def find_map_None_iff case_prod_unfold)
  also have "\<dots> \<longleftrightarrow> \<not> has_tx i (transactions b)" by (auto simp: image_iff)
  finally show ?thesis
    unfolding transactions_txs steps_with_locations_def has_tx_collect .
qed

lemma block_contains_iff: "block_contains i b \<longleftrightarrow> i \<in> set (ids_block b)"
  by (simp add: block_contains_def find_transaction_None_iff)

lemma ids_errors_iff:
  "(\<exists>(e, b) \<in> set errs. block_contains i b) \<longleftrightarrow> i \<in> set (ids_errors errs)"
  by (induction errs) (auto simp: block_contains_iff)

definition own_tx :: "step_location \<Rightarrow> operation_step \<Rightarrow> (step_location \<times> transaction) list" where
  "own_tx loc s = (case s of OsTransaction t r \<Rightarrow> [(loc, t)] | _ \<Rightarrow> [])"

lemma txs_collect_steps_Cons:
  "txs (collect_steps loc a k (s # ss)) =
     (own_tx (descend loc a k) s @ txs (collect_nested (descend loc a k) s))
     @ txs (collect_steps loc a (Suc k) ss)"
  by (simp add: own_tx_def tx_of_def split: operation_step.splits)

lemma step_contains_iff:
  "step_contains i s \<longleftrightarrow> has_tx i (own_tx loc s @ txs (collect_nested loc s))"
proof -
  have "has_tx i (own_tx loc s @ txs (collect_nested loc s)) \<longleftrightarrow>
      has_tx i (own_tx loc s) \<or> i \<in> set (ids_nested s)"
    unfolding has_tx_collect(3) [symmetric, of i s loc] by (simp add: image_Un)
  then show ?thesis
    by (cases s) (auto simp: block_contains_iff ids_errors_iff own_tx_def split: option.splits)
qed

text \<open>
  The mutable access rewrites exactly the transaction the lookup finds, and nothing else of
  the traversal.
\<close>

lemma update_collect:
  "update_block i f b = Some b' \<Longrightarrow>
     txs (collect_block loc a b') = update_first i f (txs (collect_block loc a b))"
  "update_steps i f ss = Some ss' \<Longrightarrow>
     txs (collect_steps loc a k ss') = update_first i f (txs (collect_steps loc a k ss))"
  "update_inner i f s = Some s' \<Longrightarrow>
     own_tx loc s' @ txs (collect_nested loc s')
       = update_first i f (own_tx loc s @ txs (collect_nested loc s))"
  "update_errors i f errs = Some errs' \<Longrightarrow>
     txs (collect_errors loc errs') = update_first i f (txs (collect_errors loc errs))"
proof (induction i f b and i f ss and i f s and i f errs
    arbitrary: b' loc a and ss' loc a k and s' loc and errs' loc
    rule: update_block_update_steps_update_inner_update_errors.induct)
  case (3 i f s ss)
  show ?case
  proof (cases "step_contains i s")
    case True
    then obtain s' where s': "update_inner i f s = Some s'" "ss' = s' # ss"
      using "3.prems" by auto
    show ?thesis
      using "3.IH"(1) [OF True s'(1)] True
      unfolding s'(2) txs_collect_steps_Cons step_contains_iff [of i s "descend loc a k"]
      by (simp only: update_first_append [of i f "own_tx _ _ @ _"] if_True)
  next
    case False
    then obtain ss1 where ss1: "update_steps i f ss = Some ss1" "ss' = s # ss1"
      using "3.prems" by auto
    show ?thesis
      using "3.IH"(2) [OF False ss1(1)] False
      unfolding ss1(2) txs_collect_steps_Cons step_contains_iff [of i s "descend loc a k"]
      by (simp only: update_first_append [of i f "own_tx _ _ @ _"] if_False)
  qed
next
  case (6 i f r ok errs)
  then show ?case
    by (auto simp: block_contains_iff own_tx_def update_first_append has_tx_collect split: if_splits)
next
  case (8 i f c b d)
  then show ?case
    by (auto simp: block_contains_iff own_tx_def update_first_append has_tx_collect split: if_splits)
qed (auto simp: block_contains_iff own_tx_def has_tx_collect update_first_append split: if_splits)

lemma ids_steps_Cons:
  "i \<in> set (ids_steps (s # ss)) \<longleftrightarrow> step_contains i s \<or> i \<in> set (ids_steps ss)"
  by (cases s) (auto simp: block_contains_iff ids_errors_iff split: option.splits)

lemma update_iff:
  "update_block i f b \<noteq> None \<longleftrightarrow> i \<in> set (ids_block b)"
  "update_steps i f ss \<noteq> None \<longleftrightarrow> i \<in> set (ids_steps ss)"
  "update_inner i f s \<noteq> None \<longleftrightarrow> step_contains i s"
  "update_errors i f errs \<noteq> None \<longleftrightarrow> i \<in> set (ids_errors errs)"
proof (induction i f b and i f ss and i f s and i f errs
    rule: update_block_update_steps_update_inner_update_errors.induct)
  case (3 i f s ss)
  then show ?case unfolding ids_steps_Cons by auto
next
  case (6 i f r ok errs)
  then show ?case by (auto simp: ids_errors_iff block_contains_iff)
qed (auto simp: block_contains_iff)

lemma update_block_iff: "update_block i f b \<noteq> None \<longleftrightarrow> find_transaction b i \<noteq> None"
  using update_iff(1) by (auto simp: find_transaction_None_iff)

section \<open>Locations are unique\<close>

text \<open>Error arms are keyed maps, so a block names each class once.\<close>

fun wf_block :: "operation_block \<Rightarrow> bool"
and wf_step :: "operation_step \<Rightarrow> bool"
and wf_errors :: "(id \<times> operation_block) list \<Rightarrow> bool"
where
  "wf_block (Block ss) = list_all wf_step ss"
| "wf_step (OsTransaction t r) = (case r of None \<Rightarrow> True | Some b \<Rightarrow> wf_block b)"
| "wf_step (OsMatchResult r ok errs) = (wf_block ok \<and> distinct (map fst errs) \<and> wf_errors errs)"
| "wf_step (OsBranch c b d) = (wf_block b \<and> (case d of None \<Rightarrow> True | Some e \<Rightarrow> wf_block e))"
| "wf_step s = True"
| "wf_errors [] = True"
| "wf_errors ((e, b) # errs) = (wf_block b \<and> wf_errors errs)"

definition enter :: "step_location \<Rightarrow> arm option \<Rightarrow> step_location" where
  "enter loc a = (if loc = [] then [] else butlast loc @ [Hop (hop_step (last loc)) a])"

lemma descend_enter: "descend loc a i = enter loc a @ [Hop i None]"
  by (simp add: descend_def enter_def)

lemma descend_facts [simp]: "descend loc a i \<noteq> []" "enter (descend loc a i) x = enter loc a @ [Hop i x]"
  by (simp_all add: descend_enter enter_def)

fun error_arms :: "(id \<times> operation_block) list \<Rightarrow> arm set" where
  "error_arms errs = (ArmErr \<circ> fst) ` set errs"

lemma collect_prefix:
  "(l, x) \<in> set (collect_block loc a b) \<Longrightarrow> \<exists>h r. l = enter loc a @ h # r"
  "(l, x) \<in> set (collect_steps loc a k ss) \<Longrightarrow> \<exists>j y r. l = enter loc a @ Hop j y # r \<and> k \<le> j"
  "(l, x) \<in> set (collect_nested loc s) \<Longrightarrow> \<exists>ar h r. l = enter loc (Some ar) @ h # r"
  "(l, x) \<in> set (collect_errors loc errs) \<Longrightarrow>
     \<exists>ar h r. l = enter loc (Some ar) @ h # r \<and> ar \<in> error_arms errs"
proof (induction loc a b and loc a k ss and loc s and loc errs
    rule: collect_block_collect_steps_collect_nested_collect_errors.induct)
  case (1 parent a ss)
  then show ?case by force
next
  case (3 parent a i s ss)
  then consider "l = descend parent a i"
    | "(l, x) \<in> set (collect_nested (descend parent a i) s)"
    | "(l, x) \<in> set (collect_steps parent a (Suc i) ss)"
    by auto
  then show ?case
  proof cases
    case 1
    then show ?thesis by (auto simp: descend_enter)
  next
    case 2
    then show ?thesis using "3.IH"(1) by auto
  next
    case 3
    then obtain j y r where "l = enter parent a @ Hop j y # r" "Suc i \<le> j"
      using "3.IH"(2) by blast
    then show ?thesis by (intro exI [of _ j] exI [of _ y] exI [of _ r]) simp
  qed
next
  case (6 loc r ok errs)
  then show ?case by auto
next
  case (8 loc c b d)
  then show ?case by auto
next
  case (11 loc e b errs)
  then consider "(l, x) \<in> set (collect_block loc (Some (ArmErr e)) b)"
    | "(l, x) \<in> set (collect_errors loc errs)"
    by auto
  then show ?case
  proof cases
    case 1
    then obtain h r where "l = enter loc (Some (ArmErr e)) @ h # r"
      using "11.IH"(1) by blast
    then show ?thesis by (intro exI [of _ "ArmErr e"] exI [of _ h] exI [of _ r]) simp
  next
    case 2
    then obtain ar h r where "l = enter loc (Some ar) @ h # r" "ar \<in> error_arms errs"
      using "11.IH"(2) by blast
    then show ?thesis by (intro exI [of _ ar] exI [of _ h] exI [of _ r]) simp
  qed
qed auto

lemma collect_nested_location:
  "(l, x) \<in> set (collect_nested (descend loc a i) s) \<Longrightarrow>
     \<exists>ar h r. l = enter loc a @ Hop i (Some ar) # h # r"
  by (auto dest!: collect_prefix(3))

lemma collect_distinct:
  "wf_block b \<Longrightarrow> distinct (map fst (collect_block loc a b))"
  "list_all wf_step ss \<Longrightarrow> distinct (map fst (collect_steps loc a k ss))"
  "wf_step s \<Longrightarrow> loc \<noteq> [] \<Longrightarrow> distinct (map fst (collect_nested loc s))"
  "wf_errors errs \<Longrightarrow> distinct (map fst errs) \<Longrightarrow> loc \<noteq> [] \<Longrightarrow>
     distinct (map fst (collect_errors loc errs))"
proof (induction loc a b and loc a k ss and loc s and loc errs
    rule: collect_block_collect_steps_collect_nested_collect_errors.induct)
  case (3 parent a i s ss)
  let ?d = "descend parent a i"
  have d_nested: "?d \<notin> fst ` set (collect_nested ?d s)"
    by (auto dest!: collect_nested_location) (simp add: descend_enter)
  have d_rest: "?d \<notin> fst ` set (collect_steps parent a (Suc i) ss)"
    by (auto dest!: collect_prefix(2) simp: descend_enter)
  have "fst ` set (collect_nested ?d s) \<inter> fst ` set (collect_steps parent a (Suc i) ss) = {}"
    by (auto dest!: collect_prefix(2) collect_nested_location)
  with 3 d_nested d_rest show ?case by auto
next
  case (6 loc r ok errs)
  have "fst ` set (collect_block loc (Some ArmOk) ok) \<inter> fst ` set (collect_errors loc errs) = {}"
    using "6.prems" by (auto dest!: collect_prefix(1) collect_prefix(4) simp: enter_def)
  with 6 show ?case by auto
next
  case (8 loc c b d)
  have "fst ` set (collect_block loc (Some ArmThen) b)
      \<inter> fst ` set (collect_block loc (Some ArmOtherwise) d) = {}"
    using "8.prems" by (auto dest!: collect_prefix(1) simp: enter_def)
  with 8 show ?case by auto
next
  case (11 loc e b errs)
  have "fst ` set (collect_block loc (Some (ArmErr e)) b) \<inter> fst ` set (collect_errors loc errs) = {}"
    using "11.prems" by (force dest!: collect_prefix(1) collect_prefix(4) simp: enter_def)
  with 11 show ?case by auto
qed auto

lemma steps_with_locations_distinct:
  "wf_block b \<Longrightarrow> distinct (map fst (steps_with_locations b))"
  by (simp add: steps_with_locations_def collect_distinct(1))

section \<open>Properties\<close>

text \<open>
  C1. \<open>OperationBlock::transaction_mut\<close> and \<open>OperationBlock::transaction\<close> agree: the mutable
  access exists exactly when the lookup finds the transaction, and applying a change through
  it changes the first transaction with that id in the traversal order and no other, at any
  depth of match arms, branches and rejection handlers.
\<close>

theorem transaction_mut_agrees:
  "case find_transaction b i of
     None \<Rightarrow> update_block i f b = None
   | Some t \<Rightarrow> \<exists>b'. update_block i f b = Some b' \<and> transactions b' = update_first i f (transactions b)"
proof (cases "update_block i f b")
  case None
  then show ?thesis using update_block_iff [of i f b] by (auto split: option.splits)
next
  case (Some b')
  then show ?thesis
    using update_block_iff [of i f b] update_collect(1) [OF Some, of "[]" None]
    by (auto simp: transactions_txs steps_with_locations_def split: option.splits)
qed

text \<open>
  Step locations are identities: in a program whose error arms name each class once, no
  two steps of the traversal share a location, whatever the nesting.
\<close>

theorem locations_identify_steps:
  assumes "wf_block b"
    and "(l, s) \<in> set (steps_with_locations b)" "(l, s') \<in> set (steps_with_locations b)"
  shows "s = s'"
  using steps_with_locations_distinct [OF assms(1)] assms(2,3) by (metis map_of_eq_Some_iff option.inject)

theorem locations_identify_steps_witness:
  "{s. ([Hop 0 (Some ArmThen), Hop 0 None], s) \<in> set (steps_with_locations
      (Block [OsBranch CondUnspecified (Block [OsComplete]) (Some (Block [OsAbandon]))]))} = {OsComplete}"
  using locations_identify_steps
    [of "Block [OsBranch CondUnspecified (Block [OsComplete]) (Some (Block [OsAbandon]))]"
        "[Hop 0 (Some ArmThen), Hop 0 None]" OsComplete]
  by (auto simp: steps_with_locations_def descend_def)

end
