(* ===== verification/Spec_Model.thy ===== *)
theory Spec_Model
  imports Spec_Program
begin

text \<open>
  The model root (\<open>spec/model.rs\<close>) and everything it holds: services, data models and
  outboxes (\<open>data_model.rs\<close>), topics (\<open>topic.rs\<close>), state machines
  (\<open>operation/state_machine.rs\<close>), operations with their requirements (\<open>operation/mod.rs\<close>)
  and the optional runtime realization (\<open>runtime.rs\<close>), with the accessors the analyses use.
\<close>

section \<open>Application model\<close>

datatype service_kind = SkBackend | SkFrontend | SkWorker | SkJob

record service =
  sv_kind :: service_kind

datatype message_identity = MiUnspecified | MiKeyed "(id, field_path list) bmap"

record outbox =
  ob_messages :: "id bset"
  ob_identity :: message_identity

record object_version =
  ov_field :: field_path

record data_object =
  do_schema :: id
  do_identity :: "field_path list"
  do_version :: "object_version option"

record data_model =
  dm_objects :: "(id, data_object) bmap"
  dm_outboxes :: "(id, outbox) bmap"

record topic =
  tp_messages :: "id bset"
  tp_identity :: message_identity

datatype transition_side_effect =
    TsePublication publication_effect
  | TseRequest request_effect

datatype transition_effect = TeOutboxWrite (te_write: outbox_write_effect)

record transition =
  tn_from :: "id bset"
  tn_to :: id
  tn_side_effects :: "(id, transition_side_effect) bmap"
  tn_effects :: "(id, transition_effect) bmap"

datatype machine_subject = SubjectObject (ms_object: id) (ms_state: field_path)

record state_machine =
  sm_subject :: machine_subject
  sm_states :: "id bset"
  sm_initial :: id
  sm_transitions :: "(id, transition) bmap"

datatype result_replay_requirement = RrUnspecified | RrReplayConsistent

record idempotency_requirement =
  ir_key :: idempotency_key
  ir_result :: result_replay_requirement

datatype completion_requirement = CrResumable | CrGuaranteed

record recoverability_requirement =
  rr_key :: idempotency_key
  rr_completion :: completion_requirement

record operation_requirements =
  oq_idempotency :: "idempotency_requirement list"
  oq_recoverability :: "recoverability_requirement list"

definition default_requirements :: operation_requirements where
  "default_requirements = \<lparr>oq_idempotency = [], oq_recoverability = []\<rparr>"

record operation =
  op_service :: id
  op_description :: "string option"
  op_inputs :: "(id, op_input) bmap"
  op_program :: operation_block
  op_requirements :: operation_requirements

section \<open>Runtime realization\<close>

type_synonym grouping_key = "(id, field_path list) bmap"

datatype ordering_semantics = OrdNone | OrdGlobal | OrdWithinGroup

datatype delivery_semantics = DlUnspecified | DlAtMostOnce | DlAtLeastOnce

datatype member_assignment = MaConsistentHash | MaRoundRobin

record topic_runtime =
  tpr_grouping :: "grouping_key option"
  tpr_ordering :: "ordering_semantics option"

datatype subscription_routing_key = SrkGroupingKey

record subscription_routing =
  srt_key :: subscription_routing_key
  srt_assignment :: member_assignment

record subscription_dispatch =
  sd_pool :: id
  sd_routing :: "subscription_routing option"

record subscription_runtime =
  sbr_delivery :: delivery_semantics
  sbr_grouping :: "grouping_key option"
  sbr_ordering :: "ordering_semantics option"
  sbr_dispatch :: subscription_dispatch

datatype outbox_partitioning = OpNone | OpKeyed "(id, field_path list) bmap"

datatype outbox_ordering = OoNone | OoGlobal | OoPartition

datatype outbox_routing_key = OrkPartitionKey

record outbox_routing =
  ort_key :: outbox_routing_key
  ort_assignment :: member_assignment

datatype batch_preservation = BpPreserved | BpUnspecified

record outbox_dispatch =
  od_pool :: id
  od_routing :: "outbox_routing option"
  od_batching :: "batch_preservation option"

record outbox_runtime =
  obr_partitioning :: outbox_partitioning
  obr_ordering :: outbox_ordering
  obr_dispatch :: outbox_dispatch

record input_ref =
  ir_operation :: id
  ir_input :: id

record request_routing =
  rqr_key :: "field_path list"
  rqr_assignment :: member_assignment

record router =
  rt_boundary :: input_ref
  rt_pool :: id
  rt_routing :: "request_routing option"

datatype member_concurrency = McUnspecified | McBounded nat | McUnbounded

record execution_pool =
  ep_concurrency :: member_concurrency

record object_ref =
  or_data_model :: id
  or_object :: id

record storage_layout =
  sl_object :: object_ref
  sl_partition_key :: "field_path list"

record runtime_model =
  rm_topics :: "(id, topic_runtime) bmap"
  rm_subscriptions :: "(id, (id, subscription_runtime) bmap) bmap"
  rm_outboxes :: "(id, (id, outbox_runtime) bmap) bmap"
  rm_pools :: "(id, execution_pool) bmap"
  rm_routers :: "(id, router) bmap"
  rm_layouts :: "(id, storage_layout) bmap"

definition runtime_default :: runtime_model where
  "runtime_default = \<lparr>rm_topics = [], rm_subscriptions = [], rm_outboxes = [], rm_pools = [],
     rm_routers = [], rm_layouts = []\<rparr>"

definition runtime_is_empty :: "runtime_model \<Rightarrow> bool" where
  "runtime_is_empty r \<longleftrightarrow>
     rm_topics r = [] \<and> rm_subscriptions r = [] \<and> rm_outboxes r = [] \<and> rm_pools r = []
     \<and> rm_routers r = [] \<and> rm_layouts r = []"

definition declares_transport ::
    "grouping_key option \<Rightarrow> ordering_semantics option \<Rightarrow> bool" where
  "declares_transport g ord \<longleftrightarrow> g \<noteq> None \<or> ord \<noteq> None"

section \<open>The model and its accessors\<close>

type_synonym revision = nat

definition dsl_version :: nat where
  "dsl_version = 6"

record model =
  md_dsl :: nat
  md_revision :: revision
  md_services :: "(id, service) bmap"
  md_schemas :: "(id, schema) bmap"
  md_data_models :: "(id, data_model) bmap"
  md_topics :: "(id, topic) bmap"
  md_state_machines :: "(id, state_machine) bmap"
  md_operations :: "(id, operation) bmap"
  md_runtime :: "runtime_model option"

definition model_topic_runtime :: "model \<Rightarrow> id \<Rightarrow> topic_runtime option" where
  "model_topic_runtime m t = Option.bind (md_runtime m) (\<lambda>r. bm_get (rm_topics r) t)"

definition topic_scoped_transport :: "model \<Rightarrow> id \<Rightarrow> bool" where
  "topic_scoped_transport m t =
     (case model_topic_runtime m t of
        None \<Rightarrow> False
      | Some tr \<Rightarrow> declares_transport (tpr_grouping tr) (tpr_ordering tr))"

definition model_subscription_runtime :: "model \<Rightarrow> id \<Rightarrow> id \<Rightarrow> subscription_runtime option" where
  "model_subscription_runtime m opn inp =
     Option.bind (md_runtime m) (\<lambda>r.
     Option.bind (bm_get (rm_subscriptions r) opn) (\<lambda>ins. bm_get ins inp))"

definition effective_grouping :: "model \<Rightarrow> id \<Rightarrow> id \<Rightarrow> id \<Rightarrow> grouping_key option" where
  "effective_grouping m opn inp t =
     (if topic_scoped_transport m t
      then Option.bind (model_topic_runtime m t) tpr_grouping
      else Option.bind (model_subscription_runtime m opn inp) sbr_grouping)"

definition effective_ordering :: "model \<Rightarrow> id \<Rightarrow> id \<Rightarrow> id \<Rightarrow> ordering_semantics" where
  "effective_ordering m opn inp t =
     get_or OrdNone
       (if topic_scoped_transport m t
        then Option.bind (model_topic_runtime m t) tpr_ordering
        else Option.bind (model_subscription_runtime m opn inp) sbr_ordering)"

definition delivery :: "model \<Rightarrow> id \<Rightarrow> id \<Rightarrow> delivery_semantics" where
  "delivery m opn inp =
     (case model_subscription_runtime m opn inp of
        None \<Rightarrow> DlUnspecified | Some r \<Rightarrow> sbr_delivery r)"

definition find_outbox :: "(id, data_model) bmap \<Rightarrow> id \<Rightarrow> (id \<times> outbox) option" where
  "find_outbox dms ox =
     find_map (\<lambda>(d, dm). map_option (\<lambda>ob. (d, ob)) (bm_get (dm_outboxes dm) ox)) dms"

definition model_outbox :: "model \<Rightarrow> id \<Rightarrow> (id \<times> outbox) option" where
  "model_outbox m ox = find_outbox (md_data_models m) ox"

definition model_outbox_runtime :: "model \<Rightarrow> id \<Rightarrow> id \<Rightarrow> outbox_runtime option" where
  "model_outbox_runtime m opn inp =
     Option.bind (md_runtime m) (\<lambda>r.
     Option.bind (bm_get (rm_outboxes r) opn) (\<lambda>ins. bm_get ins inp))"

definition routers_for :: "model \<Rightarrow> id \<Rightarrow> id \<Rightarrow> (id \<times> router) list" where
  "routers_for m opn inp =
     (case md_runtime m of
        None \<Rightarrow> []
      | Some r \<Rightarrow> filter (\<lambda>(_, rt). ir_operation (rt_boundary rt) = opn
                                   \<and> ir_input (rt_boundary rt) = inp) (rm_routers r))"

definition model_execution_pool :: "model \<Rightarrow> id \<Rightarrow> execution_pool option" where
  "model_execution_pool m p = Option.bind (md_runtime m) (\<lambda>r. bm_get (rm_pools r) p)"

text \<open>Exactly one scope supplies a subscription's transport facts.\<close>

lemma effective_transport_scope:
  assumes "topic_scoped_transport m t"
  shows "effective_grouping m opn inp t = Option.bind (model_topic_runtime m t) tpr_grouping"
    and "effective_ordering m opn inp t
           = get_or OrdNone (Option.bind (model_topic_runtime m t) tpr_ordering)"
  using assms by (simp_all add: effective_grouping_def effective_ordering_def)

lemma find_outbox_owner:
  "find_outbox dms ox = Some (d, ob) \<Longrightarrow>
     \<exists>dm. (d, dm) \<in> set dms \<and> bm_get (dm_outboxes dm) ox = Some ob"
  by (force simp: find_outbox_def dest!: find_map_Some)

end
