(* ===== verification/Analysis_Values.thy ===== *)
theory Analysis_Values
  imports Spec_Model
begin

text \<open>
  Canonical value paths (\<open>analyzer/verification/value_identity.rs\<close>): a field path with every
  fragment alias substituted. The hop counter of the code is an argument; it only travels
  inwards, since the function returns the result of its recursive call. The section on
  meaning states what a fragment mapping asserts and shows that equal canonical forms denote
  equal values.
\<close>

record canonical_path =
  cp_schema :: id
  cp_path :: field_path

definition max_fragment_hops :: nat where
  "max_fragment_hops = 64"

function (sequential) canonicalize ::
    "model \<Rightarrow> id \<Rightarrow> string list \<Rightarrow> nat \<Rightarrow> canonical_path option" where
  "canonicalize m s cs hops =
     (case bm_get (md_schemas m) s of
        None \<Rightarrow> None
      | Some (SchFragment f) \<Rightarrow>
          if Suc hops > max_fragment_hops then None
          else (case cs of
                  [] \<Rightarrow> None
                | c # rest \<Rightarrow>
                    (case bm_get (sf_mapping f) c of
                       None \<Rightarrow> None
                     | Some mapped \<Rightarrow>
                         canonicalize m (sf_source f) (components mapped @ rest) (Suc hops)))
      | Some (SchCanonical can) \<Rightarrow>
          (case cs of
             [] \<Rightarrow> None
           | c # rest \<Rightarrow>
               (case bm_get (cs_fields can) c of
                  None \<Rightarrow> None
                | Some fld \<Rightarrow>
                    if rest = [] then Some \<lparr>cp_schema = s, cp_path = FieldPath [c]\<rparr>
                    else (case f_ty fld of
                            TSchema inner \<Rightarrow>
                              map_option (\<lambda>r. \<lparr>cp_schema = s,
                                  cp_path = FieldPath (c # components (cp_path r))\<rparr>)
                                (canonicalize m inner rest hops)
                          | _ \<Rightarrow> None))))"
  by pat_completeness auto
termination
  by (relation "measures [\<lambda>(m, s, cs, hops). max_fragment_hops - hops, \<lambda>(m, s, cs, hops). length cs]")
     (auto simp: max_fragment_hops_def)

declare canonicalize.simps [simp del]

definition canonical_value_path :: "model \<Rightarrow> id \<Rightarrow> field_path \<Rightarrow> canonical_path option" where
  "canonical_value_path m s p =
     (if components p = [] then None else canonicalize m s (components p) 0)"

lemma canonicalize_fragment:
  "bm_get (md_schemas m) s = Some (SchFragment f) \<Longrightarrow> canonicalize m s cs hops = Some r \<Longrightarrow>
     \<exists>c rest mapped. cs = c # rest \<and> bm_get (sf_mapping f) c = Some mapped
       \<and> Suc hops \<le> max_fragment_hops
       \<and> canonicalize m (sf_source f) (components mapped @ rest) (Suc hops) = Some r"
  by (subst (asm) canonicalize.simps) (auto split: if_splits list.splits option.splits)

lemma canonicalize_canonical:
  "bm_get (md_schemas m) s = Some (SchCanonical can) \<Longrightarrow> canonicalize m s cs hops = Some r \<Longrightarrow>
     \<exists>c rest fld. cs = c # rest \<and> bm_get (cs_fields can) c = Some fld \<and> cp_schema r = s
       \<and> (rest = [] \<and> components (cp_path r) = [c]
          \<or> (\<exists>inner r'. rest \<noteq> [] \<and> f_ty fld = TSchema inner \<and> canonicalize m inner rest hops = Some r'
               \<and> components (cp_path r) = c # components (cp_path r')))"
  by (subst (asm) canonicalize.simps)
     (auto split: if_splits list.splits option.splits type_ref.splits)

section \<open>Meaning\<close>

text \<open>
  A denotation gives every path of every schema a value. A fragment's mapping asserts that
  the path it maps denotes the same value in the source schema; a nested value is a function
  of the field it is nested in and of its denotation in the field's schema.
\<close>

definition respects_mappings ::
    "model \<Rightarrow> (id \<Rightarrow> string list \<Rightarrow> 'v) \<Rightarrow> (id \<Rightarrow> string \<Rightarrow> 'v \<Rightarrow> 'v) \<Rightarrow> bool" where
  "respects_mappings m den nest \<longleftrightarrow>
     (\<forall>s f c rest mapped. bm_get (md_schemas m) s = Some (SchFragment f) \<longrightarrow>
        bm_get (sf_mapping f) c = Some mapped \<longrightarrow>
        den s (c # rest) = den (sf_source f) (components mapped @ rest))
     \<and> (\<forall>s can c fld inner rest. bm_get (md_schemas m) s = Some (SchCanonical can) \<longrightarrow>
        bm_get (cs_fields can) c = Some fld \<longrightarrow> f_ty fld = TSchema inner \<longrightarrow> rest \<noteq> [] \<longrightarrow>
        den s (c # rest) = nest s c (den inner rest))"

lemma canonicalize_root:
  "respects_mappings m den nest \<Longrightarrow> canonicalize m s cs hops = Some r \<Longrightarrow>
    \<exists>cs' hops' can. den s cs = den (cp_schema r) cs'
      \<and> bm_get (md_schemas m) (cp_schema r) = Some (SchCanonical can)
      \<and> canonicalize m (cp_schema r) cs' hops' = Some r"
proof (induction m s cs hops rule: canonicalize.induct)
  case (1 m s cs hops)
  show ?case
  proof (cases "bm_get (md_schemas m) s")
    case None
    with "1.prems" show ?thesis by (subst (asm) canonicalize.simps) simp
  next
    case (Some sch)
    show ?thesis
    proof (cases sch)
      case (SchCanonical can)
      with Some "1.prems" canonicalize_canonical [of m s can cs hops r]
      show ?thesis by blast
    next
      case (SchFragment f)
      then obtain c rest mapped where c: "cs = c # rest" "bm_get (sf_mapping f) c = Some mapped"
        "Suc hops \<le> max_fragment_hops"
        "canonicalize m (sf_source f) (components mapped @ rest) (Suc hops) = Some r"
        using canonicalize_fragment Some "1.prems" by blast
      have "den s cs = den (sf_source f) (components mapped @ rest)"
        using "1.prems"(1) c(1,2) Some SchFragment unfolding respects_mappings_def by blast
      then show ?thesis
        using "1.IH"(2) [OF Some SchFragment _ c(1,2) "1.prems"(1) c(4)] c(3) by auto
    qed
  qed
qed

lemma canonicalize_nonempty:
  "respects_mappings m den nest \<Longrightarrow> canonicalize m s cs hops = Some r \<Longrightarrow> components (cp_path r) \<noteq> []"
  by (drule (1) canonicalize_root) (auto dest: canonicalize_canonical)

text \<open>The canonical root a schema expands to does not depend on the path.\<close>

lemma canonicalize_same_root:
  "canonicalize m s p hops = Some r \<Longrightarrow> canonicalize m s q hops' = Some r' \<Longrightarrow>
     cp_schema r = cp_schema r'"
proof (induction m s p hops arbitrary: q hops' rule: canonicalize.induct)
  case (1 m s cs hops)
  obtain sch where sch: "bm_get (md_schemas m) s = Some sch"
    using "1.prems"(1) by (subst (asm) canonicalize.simps) (auto split: option.splits)
  show ?case
  proof (cases sch)
    case (SchCanonical can)
    then show ?thesis
      using sch canonicalize_canonical "1.prems" by metis
  next
    case (SchFragment f)
    with sch obtain c rest mapped where c: "cs = c # rest" "bm_get (sf_mapping f) c = Some mapped"
      "Suc hops \<le> max_fragment_hops"
      "canonicalize m (sf_source f) (components mapped @ rest) (Suc hops) = Some r"
      using canonicalize_fragment "1.prems"(1) by blast
    obtain q' k where "canonicalize m (sf_source f) q' k = Some r'"
      using canonicalize_fragment "1.prems"(2) sch SchFragment by blast
    then show ?thesis
      using "1.IH"(2) [OF sch SchFragment _ c(1,2,4)] c(3) by auto
  qed
qed

lemma canonicalize_sound:
  assumes "respects_mappings m den nest"
  shows "canonicalize m s p hops = Some r \<Longrightarrow> canonicalize m s' q hops' = Some r' \<Longrightarrow>
    r = r' \<Longrightarrow> den s p = den s' q"
proof (induction "length (components (cp_path r))" arbitrary: s p hops s' q hops' r r'
    rule: less_induct)
  case less
  obtain p' k can where p': "den s p = den (cp_schema r) p'"
    "bm_get (md_schemas m) (cp_schema r) = Some (SchCanonical can)"
    "canonicalize m (cp_schema r) p' k = Some r"
    using canonicalize_root [OF assms less.prems(1)] by blast
  obtain q' k' can' where q': "den s' q = den (cp_schema r) q'"
    "canonicalize m (cp_schema r) q' k' = Some r"
    using canonicalize_root [OF assms less.prems(2)] less.prems(3) by blast
  obtain c rest fld where c: "p' = c # rest" "bm_get (cs_fields can) c = Some fld"
    "rest = [] \<and> components (cp_path r) = [c]
     \<or> (\<exists>inner r'. rest \<noteq> [] \<and> f_ty fld = TSchema inner \<and> canonicalize m inner rest k = Some r'
          \<and> components (cp_path r) = c # components (cp_path r'))"
    using canonicalize_canonical [OF p'(2,3)] by blast
  obtain d rest' fld' where d: "q' = d # rest'" "bm_get (cs_fields can) d = Some fld'"
    "rest' = [] \<and> components (cp_path r) = [d]
     \<or> (\<exists>inner r'. rest' \<noteq> [] \<and> f_ty fld' = TSchema inner \<and> canonicalize m inner rest' k' = Some r'
          \<and> components (cp_path r) = d # components (cp_path r'))"
    using canonicalize_canonical [OF p'(2) q'(2)] by blast
  have dc: "d = c" "fld' = fld" using c(2,3) d(2,3) by auto
  show ?case
  proof (cases "rest = []")
    case True
    then have "rest' = []"
      using c(3) d(3) canonicalize_nonempty [OF assms] by fastforce
    with True show ?thesis using p'(1) q'(1) c(1) d(1) dc by simp
  next
    case False
    then obtain inner r1 where r1: "f_ty fld = TSchema inner" "canonicalize m inner rest k = Some r1"
      "components (cp_path r) = c # components (cp_path r1)"
      using c(3) by auto
    then have "rest' \<noteq> []" using d(3) canonicalize_nonempty [OF assms] by fastforce
    then obtain r2 where r2: "canonicalize m inner rest' k' = Some r2"
      "components (cp_path r) = c # components (cp_path r2)"
      using d(3) r1(1) dc by auto
    have "components (cp_path r1) = components (cp_path r2)"
      using r1(3) r2(2) by simp
    then have "r1 = r2"
      using canonicalize_same_root [OF r1(2) r2(1)] by (cases r1; cases r2) (auto simp: field_path.expand)
    then have "den inner rest = den inner rest'"
      using less.hyps [of r1 inner rest k inner rest' k' r2] r1 r2 by simp
    moreover have "den (cp_schema r) p' = nest (cp_schema r) c (den inner rest)"
      "den (cp_schema r) q' = nest (cp_schema r) c (den inner rest')"
      using assms p'(2) c(1,2) d(1) dc r1(1) False \<open>rest' \<noteq> []\<close>
      unfolding respects_mappings_def by blast+
    ultimately show ?thesis using p'(1) q'(1) by simp
  qed
qed

section \<open>Properties\<close>

text \<open>
  C1. Equal canonical forms denote equal values: in every reading of the schemas under which a
  fragment mapping means what it asserts, two paths, of the same schema or of two, with one
  canonical form have one value. This is what every \<open>same_value\<close> verdict rests on.
\<close>

theorem canonical_forms_sound:
  assumes "respects_mappings m den nest"
    and "canonical_value_path m s p = Some r" "canonical_value_path m s' q = Some r"
  shows "den s (components p) = den s' (components q)"
proof -
  have "canonicalize m s (components p) 0 = Some r" "canonicalize m s' (components q) 0 = Some r"
    using assms(2,3) by (auto simp only: canonical_value_path_def split: if_splits)
  then show ?thesis using canonicalize_sound [OF assms(1)] by blast
qed

definition sample_schemas :: "(id, schema) bmap" where
  "sample_schemas =
     [(Id ''Alias'', SchFragment \<lparr>sf_source = Id ''Order'', sf_mapping = [(''ref'', FieldPath [''id''])]\<rparr>),
      (Id ''Order'', SchCanonical \<lparr>cs_description = None, cs_completeness = Complete,
         cs_fields = [(''id'', \<lparr>f_ty = TScalar ScUuid, f_optional = False\<rparr>)]\<rparr>)]"

definition sample_model :: model where
  "sample_model = \<lparr>md_dsl = dsl_version, md_revision = 0, md_services = [], md_schemas = sample_schemas,
     md_data_models = [], md_topics = [], md_state_machines = [], md_operations = [], md_runtime = None\<rparr>"

definition sample_den :: "id \<Rightarrow> string list \<Rightarrow> string list" where
  "sample_den s p =
     (case p of [] \<Rightarrow> [] | c # rest \<Rightarrow> (if s = Id ''Alias'' then ''id'' else c) # rest)"

lemma sample_respects: "respects_mappings sample_model sample_den (\<lambda>s c v. v)"
  unfolding respects_mappings_def sample_model_def sample_schemas_def sample_den_def
  by (auto split: if_splits)

lemma sample_canonical:
  "canonical_value_path sample_model (Id ''Order'') (FieldPath [''id''])
     = Some \<lparr>cp_schema = Id ''Order'', cp_path = FieldPath [''id'']\<rparr>"
  "canonical_value_path sample_model (Id ''Alias'') (FieldPath [''ref''])
     = Some \<lparr>cp_schema = Id ''Order'', cp_path = FieldPath [''id'']\<rparr>"
proof -
  have order: "canonicalize sample_model (Id ''Order'') [''id''] h
      = Some \<lparr>cp_schema = Id ''Order'', cp_path = FieldPath [''id'']\<rparr>" for h
    by (subst canonicalize.simps) (simp add: sample_model_def sample_schemas_def)
  have alias_path: "canonicalize sample_model (Id ''Alias'') [''ref''] 0
      = canonicalize sample_model (Id ''Order'') [''id''] 1"
    by (subst canonicalize.simps) (simp add: sample_model_def sample_schemas_def max_fragment_hops_def)
  show "canonical_value_path sample_model (Id ''Order'') (FieldPath [''id''])
      = Some \<lparr>cp_schema = Id ''Order'', cp_path = FieldPath [''id'']\<rparr>"
    by (simp add: canonical_value_path_def order)
  show "canonical_value_path sample_model (Id ''Alias'') (FieldPath [''ref''])
      = Some \<lparr>cp_schema = Id ''Order'', cp_path = FieldPath [''id'']\<rparr>"
    by (simp add: canonical_value_path_def order alias_path)
qed

theorem canonical_forms_sound_witness:
  "sample_den (Id ''Alias'') [''ref''] = sample_den (Id ''Order'') [''id'']"
  using canonical_forms_sound [OF sample_respects sample_canonical(2,1)] by simp

end
