(* ===== verification/Analysis_Conflicts.thy ===== *)
theory Analysis_Conflicts
  imports Analysis_Values
begin

text \<open>
  The access index of \<open>analyzer/verification/transaction_conflicts.rs\<close>: what every inline
  transaction template reads, writes, locks, guards and commits (\<open>template_of\<close>, \<open>build\<close>),
  when two accesses may overlap (\<open>selector_overlap\<close>, \<open>field_overlap\<close>, \<open>conflict\<close>), and
  what the identity of an object pins.
\<close>

section \<open>Facts of a template\<close>

record tx_ref =
  xr_operation :: id
  xr_transaction :: id
  xr_location :: step_location

record managed_field =
  mf_object :: id
  mf_field :: field_path

datatype access_mode =
    AmRead | AmUpdate | AmCompareRead | AmCompareWrite | AmInsert | AmUpsertReadWrite | AmDelete
  | AmTransitionRead | AmTransitionWrite | AmCursorReadWrite | AmFenceReadWrite | AmVersionPublish

fun mode_reads :: "access_mode \<Rightarrow> bool" where
  "mode_reads AmRead = True"
| "mode_reads AmCompareRead = True"
| "mode_reads AmUpsertReadWrite = True"
| "mode_reads AmTransitionRead = True"
| "mode_reads AmCursorReadWrite = True"
| "mode_reads AmFenceReadWrite = True"
| "mode_reads _ = False"

fun mode_writes :: "access_mode \<Rightarrow> bool" where
  "mode_writes AmUpdate = True"
| "mode_writes AmCompareWrite = True"
| "mode_writes AmInsert = True"
| "mode_writes AmUpsertReadWrite = True"
| "mode_writes AmDelete = True"
| "mode_writes AmTransitionWrite = True"
| "mode_writes AmCursorReadWrite = True"
| "mode_writes AmFenceReadWrite = True"
| "mode_writes AmVersionPublish = True"
| "mode_writes _ = False"

datatype access_fields = AfAll | AfOnly "field_path bset" | AfUnknown

record tx_access =
  acc_transaction :: tx_ref
  acc_step :: nat
  acc_object :: id
  acc_selector :: object_selector
  acc_fields :: access_fields
  acc_mode :: access_mode
  acc_field :: "field_path option"
  acc_rule :: "cursor_advance_rule option"

record lock_access =
  la_transaction :: tx_ref
  la_step :: nat
  la_object :: id
  la_selector :: object_selector
  la_mode :: lock_mode

record lock_ref =
  lr_transaction :: tx_ref
  lr_step :: nat
  lr_mode :: lock_mode

datatype mutation_kind =
  MkCompareAndSet | MkTransition | MkAdvanceCursor | MkFence | MkUpsertIdentityArbitration

definition holds_protection :: "mutation_kind \<Rightarrow> bool" where
  "holds_protection k \<longleftrightarrow> k \<noteq> MkFence"

record observed_value =
  obs_read :: id
  obs_step :: nat

record comparison_fact =
  cf_field :: field_path
  cf_expected :: selector_value
  cf_observed :: "observed_value option"

record conditional_mutation =
  cm_transaction :: tx_ref
  cm_step :: nat
  cm_target :: object_selector
  cm_mechanism :: mutation_kind
  cm_comparisons :: "comparison_fact list"
  cm_writes :: access_fields
  cm_publishes_version :: "field_path option"
  cm_identified :: bool

datatype commit_artifact =
    ArOutboxWrite id id id "id option"
  | ArEffectIntent id
  | ArTransactionOutput id

record tx_template =
  tt_reference :: tx_ref
  tt_transaction :: transaction
  tt_accesses :: "tx_access list"
  tt_locks :: "lock_access list"
  tt_mutations :: "conditional_mutation list"
  tt_artifacts :: "commit_artifact list"

record conflict_index =
  ci_model :: model
  ci_templates :: "tx_template list"
  ci_objects :: "(id, data_object) bmap"
  ci_states :: "(id, id \<times> field_path) bmap"

section \<open>Predicates and identity\<close>

fun pins :: "predicate \<Rightarrow> (field_path \<times> selector_value) list" where
  "pins PAll = []"
| "pins (PEq f v) = [(f, v)]"
| "pins (PAnd ps) = concat (map pins ps)"

definition version_field :: "conflict_index \<Rightarrow> id \<Rightarrow> field_path option" where
  "version_field ix obj =
     Option.bind (bm_get (ci_objects ix) obj) (\<lambda>d. map_option ov_field (do_version d))"

definition obj_identity :: "conflict_index \<Rightarrow> id \<Rightarrow> field_path list option" where
  "obj_identity ix obj = map_option do_identity (bm_get (ci_objects ix) obj)"

definition identifies_instance :: "conflict_index \<Rightarrow> object_selector \<Rightarrow> bool" where
  "identifies_instance ix sel =
     (case obj_identity ix (os_object sel) of
        None \<Rightarrow> False
      | Some fs \<Rightarrow> fs \<noteq> [] \<and> (\<forall>f \<in> set fs. \<exists>p \<in> set (pins (os_predicate sel)). fst p = f))"

text \<open>\<open>observation\<close>: the earlier read of the same instance a comparison names.\<close>

definition selection_covers :: "field_selection \<Rightarrow> field_path \<Rightarrow> bool" where
  "selection_covers fs f =
     (case fs of FsAll \<Rightarrow> True | FsOnly gs \<Rightarrow> \<exists>g \<in> set gs. starts_with f g)"

definition observation ::
    "transaction \<Rightarrow> nat \<Rightarrow> object_selector \<Rightarrow> compare_condition \<Rightarrow> observed_value option" where
  "observation tx step target c =
     (case observed_read c of
        None \<Rightarrow> None
      | Some b \<Rightarrow>
          find_map (\<lambda>(position, s). case s of
              TsRead r \<Rightarrow>
                if rd_bind r = b \<and> rd_target r = target \<and> selection_covers (rd_fields r) (cc_field c)
                then Some \<lparr>obs_read = b, obs_step = position\<rparr> else None
            | _ \<Rightarrow> None)
            (take step (List.enumerate 0 (tx_steps tx))))"

section \<open>Indexing a transaction\<close>

record step_facts =
  fx_accesses :: "tx_access list"
  fx_locks :: "lock_access list"
  fx_mutations :: "conditional_mutation list"
  fx_artifacts :: "commit_artifact list"

definition access_of ::
    "tx_ref \<Rightarrow> nat \<Rightarrow> object_selector \<Rightarrow> access_fields \<Rightarrow> access_mode \<Rightarrow> field_path option
       \<Rightarrow> cursor_advance_rule option \<Rightarrow> tx_access" where
  "access_of ref step sel fs mode f rule =
     \<lparr>acc_transaction = ref, acc_step = step, acc_object = os_object sel, acc_selector = sel,
      acc_fields = fs, acc_mode = mode, acc_field = f, acc_rule = rule\<rparr>"

definition managed :: "field_path \<Rightarrow> access_fields" where
  "managed f = AfOnly [f]"

definition declared_fields :: "field_path bset \<Rightarrow> access_fields" where
  "declared_fields fs = (if fs = [] then AfUnknown else AfOnly fs)"

definition publication :: "conflict_index \<Rightarrow> tx_ref \<Rightarrow> nat \<Rightarrow> object_selector \<Rightarrow> tx_access list" where
  "publication ix ref step sel =
     (case version_field ix (os_object sel) of
        None \<Rightarrow> []
      | Some v \<Rightarrow> [access_of ref step sel (managed v) AmVersionPublish (Some v) None])"

definition comparison_access ::
    "tx_ref \<Rightarrow> nat \<Rightarrow> object_selector \<Rightarrow> compare_condition list \<Rightarrow> tx_access list" where
  "comparison_access ref step sel cs =
     (if cs = [] then []
      else [access_of ref step sel (AfOnly (bs_collect (map cc_field cs))) AmCompareRead None None])"

definition guarded ::
    "conflict_index \<Rightarrow> tx_ref \<Rightarrow> transaction \<Rightarrow> nat \<Rightarrow> object_selector \<Rightarrow> mutation_kind
       \<Rightarrow> compare_condition list \<Rightarrow> access_fields \<Rightarrow> conditional_mutation" where
  "guarded ix ref tx step target mech cs writes =
     \<lparr>cm_transaction = ref, cm_step = step, cm_target = target, cm_mechanism = mech,
      cm_comparisons = map (\<lambda>c. \<lparr>cf_field = cc_field c, cf_expected = cc_expected c,
                                 cf_observed = observation tx step target c\<rparr>) cs,
      cm_writes = writes, cm_publishes_version = version_field ix (os_object target),
      cm_identified = identifies_instance ix target\<rparr>"

definition no_facts :: step_facts where
  "no_facts = \<lparr>fx_accesses = [], fx_locks = [], fx_mutations = [], fx_artifacts = []\<rparr>"

definition transition_write :: "model \<Rightarrow> state_transition \<Rightarrow> id \<Rightarrow> outbox_write_effect option" where
  "transition_write m s e =
     Option.bind (bm_get (md_state_machines m) (st_machine s)) (\<lambda>mc.
     Option.bind (bm_get (sm_transitions mc) (st_transition s)) (\<lambda>tn.
     map_option te_write (bm_get (tn_effects tn) e)))"

text \<open>The body of the loop of \<open>template_of\<close>: what one step adds to each list.\<close>

fun index_step :: "conflict_index \<Rightarrow> tx_ref \<Rightarrow> transaction \<Rightarrow> nat \<Rightarrow> tx_step \<Rightarrow> step_facts" where
  "index_step ix ref tx i (TsRead s) = no_facts\<lparr>fx_accesses :=
     [access_of ref i (rd_target s)
        (case rd_fields s of FsAll \<Rightarrow> AfAll | FsOnly fs \<Rightarrow> AfOnly fs) AmRead None None]\<rparr>"
| "index_step ix ref tx i (TsUpdate s) = no_facts\<lparr>fx_accesses :=
     access_of ref i (up_target s) (declared_fields (up_fields s)) AmUpdate None None
     # publication ix ref i (up_target s)\<rparr>"
| "index_step ix ref tx i (TsCompareAndSet s) = no_facts\<lparr>fx_accesses :=
     comparison_access ref i (cas_target s) (cas_compare s)
     @ access_of ref i (cas_target s) (declared_fields (cas_fields s)) AmCompareWrite None None
     # publication ix ref i (cas_target s),
     fx_mutations := [guarded ix ref tx i (cas_target s) MkCompareAndSet (cas_compare s)
                        (declared_fields (cas_fields s))]\<rparr>"
| "index_step ix ref tx i (TsInsert s) = no_facts\<lparr>fx_accesses :=
     [access_of ref i \<lparr>os_object = in_object s, os_predicate = PAll\<rparr> AfAll AmInsert None None]\<rparr>"
| "index_step ix ref tx i (TsUpsert s) = no_facts\<lparr>fx_accesses :=
     [access_of ref i (us_target s) AfAll AmUpsertReadWrite None None],
     fx_mutations := [guarded ix ref tx i (us_target s) MkUpsertIdentityArbitration [] AfAll]\<rparr>"
| "index_step ix ref tx i (TsDelete s) = no_facts\<lparr>fx_accesses :=
     [access_of ref i (de_target s) AfAll AmDelete None None]\<rparr>"
| "index_step ix ref tx i (TsLock s) = no_facts\<lparr>fx_locks :=
     [\<lparr>la_transaction = ref, la_step = i, la_object = os_object (lk_target s),
       la_selector = lk_target s, la_mode = lk_mode s\<rparr>]\<rparr>"
| "index_step ix ref tx i (TsTransition s) =
     (let fs = (case bm_get (ci_states ix) (st_machine s) of
                  Some (_, state) \<Rightarrow> managed state | None \<Rightarrow> AfAll)
      in no_facts\<lparr>fx_accesses :=
           access_of ref i (st_subject s) fs AmTransitionRead None None
           # comparison_access ref i (st_subject s) (st_compare s)
           @ access_of ref i (st_subject s) fs AmTransitionWrite None None
           # publication ix ref i (st_subject s),
           fx_mutations := [guarded ix ref tx i (st_subject s) MkTransition (st_compare s) fs],
           fx_artifacts := List.map_filter (\<lambda>e. map_option
               (\<lambda>w. ArOutboxWrite e (ow_outbox w) (ow_schema w) (Some (st_transition s)))
               (transition_write (ci_model ix) s e)) (bm_keys (st_effects s))\<rparr>)"
| "index_step ix ref tx i (TsAdvanceCursor s) = no_facts\<lparr>fx_accesses :=
     access_of ref i (ac_target s) (managed (ac_field s)) AmCursorReadWrite (Some (ac_field s))
       (Some (ac_rule s))
     # comparison_access ref i (ac_target s) (ac_compare s)
     @ publication ix ref i (ac_target s),
     fx_mutations := [guarded ix ref tx i (ac_target s) MkAdvanceCursor (ac_compare s)
                        (managed (ac_field s))]\<rparr>"
| "index_step ix ref tx i (TsFence s) = no_facts\<lparr>fx_accesses :=
     access_of ref i (fe_target s) (managed (fe_field s)) AmFenceReadWrite (Some (fe_field s)) None
     # comparison_access ref i (fe_target s) (fe_compare s)
     @ publication ix ref i (fe_target s),
     fx_mutations := [guarded ix ref tx i (fe_target s) MkFence (fe_compare s)
                        (managed (fe_field s))]\<rparr>"
| "index_step ix ref tx i (TsEstablishEffectIntent s) =
     no_facts\<lparr>fx_artifacts := [ArEffectIntent (ei_bind s)]\<rparr>"
| "index_step ix ref tx i (TsEstablishTransactionOutput s) =
     no_facts\<lparr>fx_artifacts := [ArTransactionOutput (eo_bind s)]\<rparr>"
| "index_step ix ref tx i (TsWriteOutbox s) = no_facts\<lparr>fx_artifacts :=
     [ArOutboxWrite (wo_effect_id s) (ow_outbox (wo_effect s)) (ow_schema (wo_effect s)) None]\<rparr>"

text \<open>The second loop of \<open>template_of\<close>: the intents a transition binds.\<close>

fun bound_intents :: "tx_step \<Rightarrow> commit_artifact list" where
  "bound_intents (TsTransition s) = map (\<lambda>i. ArEffectIntent (ti_bind i)) (bm_values (st_effect_intents s))"
| "bound_intents _ = []"

definition facts_of :: "conflict_index \<Rightarrow> tx_ref \<Rightarrow> transaction \<Rightarrow> step_facts list" where
  "facts_of ix ref tx = map (\<lambda>(i, s). index_step ix ref tx i s) (List.enumerate 0 (tx_steps tx))"

definition template_of :: "conflict_index \<Rightarrow> tx_ref \<Rightarrow> transaction \<Rightarrow> tx_template" where
  "template_of ix ref tx =
     \<lparr>tt_reference = ref, tt_transaction = tx,
      tt_accesses = concat (map fx_accesses (facts_of ix ref tx)),
      tt_locks = concat (map fx_locks (facts_of ix ref tx)),
      tt_mutations = concat (map fx_mutations (facts_of ix ref tx)),
      tt_artifacts = concat (map fx_artifacts (facts_of ix ref tx))
                     @ concat (map bound_intents (tx_steps tx))\<rparr>"

section \<open>Building the index\<close>

definition index_objects :: "model \<Rightarrow> (id, data_object) bmap" where
  "index_objects m =
     fold (\<lambda>(k, d). bm_insert k d) (concat (map (\<lambda>dm. dm_objects dm) (bm_values (md_data_models m)))) []"

fun machine_state :: "state_machine \<Rightarrow> id \<times> field_path" where
  "machine_state mc = (case sm_subject mc of SubjectObject obj st \<Rightarrow> (obj, st))"

definition index_states :: "model \<Rightarrow> (id, id \<times> field_path) bmap" where
  "index_states m = fold (\<lambda>(k, mc). bm_insert k (machine_state mc)) (md_state_machines m) []"

definition index_base :: "model \<Rightarrow> conflict_index" where
  "index_base m = \<lparr>ci_model = m, ci_templates = [], ci_objects = index_objects m,
                   ci_states = index_states m\<rparr>"

definition index_templates :: "model \<Rightarrow> tx_template list" where
  "index_templates m =
     concat (map (\<lambda>(opn, op).
         map (\<lambda>(loc, tx). template_of (index_base m)
                \<lparr>xr_operation = opn, xr_transaction = tx_id tx, xr_location = loc\<rparr> tx)
             (transactions (op_program op)))
       (md_operations m))"

definition build_index :: "model \<Rightarrow> conflict_index" where
  "build_index m = (index_base m)\<lparr>ci_templates := index_templates m\<rparr>"

definition deleter :: "conflict_index \<Rightarrow> id \<Rightarrow> tx_ref option" where
  "deleter ix obj =
     find_map (\<lambda>t. if \<exists>a \<in> set (tt_accesses t). acc_mode a = AmDelete \<and> acc_object a = obj
                   then Some (tt_reference t) else None) (ci_templates ix)"

definition index_position :: "conflict_index \<Rightarrow> id \<Rightarrow> id \<Rightarrow> nat option" where
  "index_position ix opn tx =
     position_of (\<lambda>t. xr_operation (tt_reference t) = opn \<and> xr_transaction (tt_reference t) = tx)
       (ci_templates ix)"

section \<open>Overlap\<close>

datatype selector_overlap = SoDisjoint | SoOverlapping | SoUnknown

datatype field_overlap = FoDisjoint | FoOverlapping | FoUnknown

record overlap =
  ol_selector :: selector_overlap
  ol_fields :: field_overlap

fun distinct_literals :: "selector_value \<Rightarrow> selector_value \<Rightarrow> bool" where
  "distinct_literals (SvLiteral l) (SvLiteral k) \<longleftrightarrow> l \<noteq> k"
| "distinct_literals _ _ \<longleftrightarrow> False"

definition incompatible_pins ::
    "(field_path \<times> selector_value) list \<Rightarrow> (field_path \<times> selector_value) list \<Rightarrow> bool" where
  "incompatible_pins as bs \<longleftrightarrow>
     (\<exists>(f, v) \<in> set as. \<exists>(g, w) \<in> set bs. f = g \<and> distinct_literals v w)"

fun literal_pin :: "field_path \<Rightarrow> field_path \<times> selector_value \<Rightarrow> literal option" where
  "literal_pin f (g, SvLiteral l) = (if g = f then Some l else None)"
| "literal_pin f (g, SvValue r) = None"

fun identity_literals ::
    "field_path list \<Rightarrow> (field_path \<times> selector_value) list \<Rightarrow> literal list option" where
  "identity_literals [] ps = Some []"
| "identity_literals (f # fs) ps =
     (case find_map (literal_pin f) ps of
        None \<Rightarrow> None
      | Some l \<Rightarrow> map_option ((#) l) (identity_literals fs ps))"

definition same_literal_identity ::
    "conflict_index \<Rightarrow> id \<Rightarrow> (field_path \<times> selector_value) list
       \<Rightarrow> (field_path \<times> selector_value) list \<Rightarrow> bool" where
  "same_literal_identity ix obj pa pb \<longleftrightarrow>
     (case obj_identity ix obj of
        None \<Rightarrow> False
      | Some fs \<Rightarrow> fs \<noteq> [] \<and> identity_literals fs pa \<noteq> None
                   \<and> identity_literals fs pa = identity_literals fs pb)"

definition selector_overlap_of :: "conflict_index \<Rightarrow> tx_access \<Rightarrow> tx_access \<Rightarrow> selector_overlap" where
  "selector_overlap_of ix a b =
     (let pa = pins (os_predicate (acc_selector a)); pb = pins (os_predicate (acc_selector b))
      in if acc_object a \<noteq> acc_object b then SoDisjoint
         else if incompatible_pins pa pb then SoDisjoint
         else if os_predicate (acc_selector a) = PAll \<and> os_predicate (acc_selector b) = PAll
         then SoOverlapping
         else if same_literal_identity ix (acc_object a) pa pb then SoOverlapping
         else SoUnknown)"

fun field_overlap_of :: "access_fields \<Rightarrow> access_fields \<Rightarrow> field_overlap" where
  "field_overlap_of AfUnknown b = FoUnknown"
| "field_overlap_of a AfUnknown = FoUnknown"
| "field_overlap_of AfAll b = FoOverlapping"
| "field_overlap_of a AfAll = FoOverlapping"
| "field_overlap_of (AfOnly fs) (AfOnly gs) =
     (if \<exists>f \<in> set fs. \<exists>g \<in> set gs. starts_with f g \<or> starts_with g f
      then FoOverlapping else FoDisjoint)"

text \<open>\<open>ConflictIndex::conflict\<close>.\<close>

definition access_conflict :: "conflict_index \<Rightarrow> tx_access \<Rightarrow> tx_access \<Rightarrow> overlap option" where
  "access_conflict ix a b =
     (if \<not> (mode_writes (acc_mode a) \<or> mode_writes (acc_mode b)) then None
      else if selector_overlap_of ix a b = SoDisjoint then None
      else if field_overlap_of (acc_fields a) (acc_fields b) = FoDisjoint then None
      else Some \<lparr>ol_selector = selector_overlap_of ix a b,
                 ol_fields = field_overlap_of (acc_fields a) (acc_fields b)\<rparr>)"

definition templates_conflict :: "conflict_index \<Rightarrow> nat \<Rightarrow> nat \<Rightarrow> bool" where
  "templates_conflict ix s t \<longleftrightarrow>
     (\<exists>a \<in> set (tt_accesses (ci_templates ix ! s)).
      \<exists>b \<in> set (tt_accesses (ci_templates ix ! t)). access_conflict ix a b \<noteq> None)"

lemma incompatible_pins_sym: "incompatible_pins as bs = incompatible_pins bs as"
proof -
  have "incompatible_pins as bs" if "incompatible_pins bs as" for as bs
  proof -
    have "distinct_literals v w = distinct_literals w v" for v w by (cases v; cases w) auto
    then show ?thesis using that unfolding incompatible_pins_def by fast
  qed
  then show ?thesis by blast
qed

lemma selector_overlap_sym: "selector_overlap_of ix a b = selector_overlap_of ix b a"
proof -
  have "same_literal_identity ix obj pa pb = same_literal_identity ix obj pb pa" for obj pa pb
    unfolding same_literal_identity_def by (cases "obj_identity ix obj") (simp_all, metis)
  then show ?thesis
    by (auto simp: selector_overlap_of_def Let_def incompatible_pins_sym)
qed

lemma field_overlap_sym: "field_overlap_of x y = field_overlap_of y x"
  by (cases x; cases y) auto

lemma access_conflict_sym: "access_conflict ix a b = access_conflict ix b a"
  by (auto simp: access_conflict_def selector_overlap_sym [of ix a b]
      field_overlap_sym [of "acc_fields a" "acc_fields b"])

lemma templates_conflict_sym: "templates_conflict ix s t = templates_conflict ix t s"
  unfolding templates_conflict_def by (metis access_conflict_sym)

section \<open>The conflict closure\<close>

text \<open>
  The worklist of \<open>closure\<close>: \<open>members\<close> is the \<open>BTreeSet\<close>, the frontier is the vector with its
  last element first. \<open>visit_candidates\<close> is the inner loop over every template.
\<close>

fun visit_candidates ::
    "(nat \<Rightarrow> bool) \<Rightarrow> nat list \<Rightarrow> nat list \<times> nat list \<Rightarrow> nat list \<times> nat list" where
  "visit_candidates adj [] (ms, fr) = (ms, fr)"
| "visit_candidates adj (c # cs) (ms, fr) =
     visit_candidates adj cs
       (if c \<notin> set ms \<and> adj c then (insort c ms, c # fr) else (ms, fr))"

lemma visit_candidates_facts:
  "visit_candidates adj cs (ms, fr) = (ms', fr') \<Longrightarrow>
     set ms' = set ms \<union> {c \<in> set cs. adj c}
     \<and> (\<exists>new. fr' = new @ fr \<and> set new = {c \<in> set cs. adj c} - set ms \<and> distinct new)"
proof (induction cs arbitrary: ms fr)
  case (Cons c cs)
  show ?case
  proof (cases "c \<notin> set ms \<and> adj c")
    case True
    then have "visit_candidates adj cs (insort c ms, c # fr) = (ms', fr')"
      using Cons.prems by simp
    from Cons.IH [OF this] obtain new where
      "set ms' = set (insort c ms) \<union> {c \<in> set cs. adj c}"
      "fr' = new @ c # fr" "set new = {c \<in> set cs. adj c} - set (insort c ms)" "distinct new"
      by blast
    then show ?thesis
      using True by (intro conjI exI [of _ "new @ [c]"]) (auto simp: set_insort_key)
  next
    case False
    then have "visit_candidates adj cs (ms, fr) = (ms', fr')"
      using Cons.prems by auto
    from Cons.IH [OF this] False show ?thesis by auto
  qed
qed simp

lemma visit_candidates_sorted:
  "sorted ms \<Longrightarrow> distinct ms \<Longrightarrow> visit_candidates adj cs (ms, fr) = (ms', fr') \<Longrightarrow>
     sorted ms' \<and> distinct ms'"
proof (induction cs arbitrary: ms fr)
  case (Cons c cs)
  show ?case
  proof (cases "c \<notin> set ms \<and> adj c")
    case True
    then show ?thesis
      using Cons.IH [of "insort c ms" "c # fr"] Cons.prems by (simp add: sorted_insort distinct_insort)
  next
    case False
    then show ?thesis using Cons.IH [of ms fr] Cons.prems by auto
  qed
qed simp

function closure_loop :: "nat \<Rightarrow> (nat \<Rightarrow> nat \<Rightarrow> bool) \<Rightarrow> nat list \<times> nat list \<Rightarrow> nat list" where
  "closure_loop n adj (ms, []) = ms"
| "closure_loop n adj (ms, cur # fr) =
     closure_loop n adj (visit_candidates (adj cur) [0..<n] (ms, fr))"
  by pat_completeness auto
termination
proof (relation "measure (\<lambda>(n, adj, ms, fr). card ({..<n} - set ms) + length fr)")
  fix n and adj :: "nat \<Rightarrow> nat \<Rightarrow> bool" and ms cur fr
  obtain ms' fr' where v: "visit_candidates (adj cur) [0..<n] (ms, fr) = (ms', fr')"
    by fastforce
  then obtain new where new: "fr' = new @ fr" "set new = {c \<in> {..<n}. adj cur c} - set ms"
    "distinct new" "set ms' = set ms \<union> {c \<in> {..<n}. adj cur c}"
    using visit_candidates_facts [OF v] by (auto simp: lessThan_def)
  have "{..<n} - set ms = ({..<n} - set ms') \<union> set new" "({..<n} - set ms') \<inter> set new = {}"
    using new by auto
  then have "card ({..<n} - set ms) = card ({..<n} - set ms') + length new"
    using new(3) by (simp add: card_Un_disjoint distinct_card)
  then show "(((n, adj, visit_candidates (adj cur) [0..<n] (ms, fr)), n, adj, ms, cur # fr))
      \<in> measure (\<lambda>(n, adj, ms, fr). card ({..<n} - set ms) + length fr)"
    by (simp add: v new(1))
qed simp

definition conflict_closure :: "conflict_index \<Rightarrow> nat \<Rightarrow> nat list" where
  "conflict_closure ix root =
     closure_loop (length (ci_templates ix)) (templates_conflict ix) ([root], [root])"

text \<open>The loop computes reachability; every intermediate state is sorted and closed so far.\<close>

definition edge_to :: "nat \<Rightarrow> (nat \<Rightarrow> nat \<Rightarrow> bool) \<Rightarrow> nat \<Rightarrow> nat \<Rightarrow> bool" where
  "edge_to n adj s t \<longleftrightarrow> t < n \<and> adj s t"

lemma closure_loop_reach:
  "set fr \<subseteq> set ms \<Longrightarrow> (\<forall>s \<in> set ms - set fr. \<forall>t. edge_to n adj s t \<longrightarrow> t \<in> set ms) \<Longrightarrow>
     set (closure_loop n adj (ms, fr)) = {t. \<exists>s \<in> set ms. (edge_to n adj)\<^sup>*\<^sup>* s t}"
proof (induction n adj "(ms, fr)" arbitrary: ms fr rule: closure_loop.induct)
  case (1 n adj ms)
  have "t \<in> set ms" if "(edge_to n adj)\<^sup>*\<^sup>* s t" "s \<in> set ms" for s t
    using that 1 by (induction rule: rtranclp_induct) auto
  then show ?case by auto
next
  case (2 n adj ms cur fr)
  obtain ms' fr' where v: "visit_candidates (adj cur) [0..<n] (ms, fr) = (ms', fr')" by fastforce
  then obtain new where new: "fr' = new @ fr" "set new = {c. edge_to n adj cur c} - set ms"
    "set ms' = set ms \<union> {c. edge_to n adj cur c}"
    using visit_candidates_facts [OF v] by (auto simp: edge_to_def)
  have closed: "\<forall>s \<in> set ms' - set fr'. \<forall>t. edge_to n adj s t \<longrightarrow> t \<in> set ms'"
  proof (intro ballI allI impI)
    fix s t assume s: "s \<in> set ms' - set fr'" and e: "edge_to n adj s t"
    then have "s \<in> set ms" "s \<notin> set fr" using new by auto
    show "t \<in> set ms'"
    proof (cases "s = cur")
      case True
      with e show ?thesis by (simp add: new(3))
    next
      case False
      with \<open>s \<in> set ms\<close> \<open>s \<notin> set fr\<close> have "s \<in> set ms - set (cur # fr)" by simp
      with 2(3) e have "t \<in> set ms" by blast
      then show ?thesis by (simp add: new(3))
    qed
  qed
  have "set (closure_loop n adj (ms', fr')) = {t. \<exists>s \<in> set ms'. (edge_to n adj)\<^sup>*\<^sup>* s t}"
  proof (rule 2(1) [OF v])
    show "set fr' \<subseteq> set ms'" using 2(2) new by auto
  qed (rule closed)
  also have "\<dots> = {t. \<exists>s \<in> set ms. (edge_to n adj)\<^sup>*\<^sup>* s t}"
  proof -
    have "\<exists>s \<in> set ms. (edge_to n adj)\<^sup>*\<^sup>* s t" if "s \<in> set ms'" "(edge_to n adj)\<^sup>*\<^sup>* s t" for s t
    proof (cases "s \<in> set ms")
      case False
      then have "edge_to n adj cur s" using that(1) new(3) by simp
      then have "(edge_to n adj)\<^sup>*\<^sup>* cur t" using that(2) by (rule converse_rtranclp_into_rtranclp)
      then show ?thesis using 2(2) by auto
    qed (use that(2) in blast)
    then show ?thesis using new(3) by blast
  qed
  finally show ?case by (simp add: v)
qed

lemma closure_loop_sorted:
  "sorted ms \<Longrightarrow> distinct ms \<Longrightarrow>
     sorted (closure_loop n adj (ms, fr)) \<and> distinct (closure_loop n adj (ms, fr))"
proof (induction n adj "(ms, fr)" arbitrary: ms fr rule: closure_loop.induct)
  case (2 n adj ms cur fr)
  obtain ms' fr' where v: "visit_candidates (adj cur) [0..<n] (ms, fr) = (ms', fr')" by fastforce
  show ?case
    using 2(1) [OF v] visit_candidates_sorted [OF 2(2,3) v] v by simp
qed simp

definition potential_conflict :: "conflict_index \<Rightarrow> nat \<Rightarrow> nat \<Rightarrow> bool" where
  "potential_conflict ix = edge_to (length (ci_templates ix)) (templates_conflict ix)"

lemma set_conflict_closure: "set (conflict_closure ix root) = {t. (potential_conflict ix)\<^sup>*\<^sup>* root t}"
  unfolding conflict_closure_def potential_conflict_def
  by (subst closure_loop_reach) auto

lemma conflict_closure_sorted:
  "sorted (conflict_closure ix root)" "distinct (conflict_closure ix root)"
  unfolding conflict_closure_def
  using closure_loop_sorted [of "[root]" _ _ "[root]"] by (simp_all del: closure_loop.simps)

lemma conflict_closure_bound:
  assumes "root < length (ci_templates ix)" "t \<in> set (conflict_closure ix root)"
  shows "t < length (ci_templates ix)"
proof -
  have "(potential_conflict ix)\<^sup>*\<^sup>* root t" using assms(2) by (simp add: set_conflict_closure)
  then show ?thesis
    by (induction rule: rtranclp_induct)
       (auto simp: assms(1) potential_conflict_def edge_to_def)
qed

lemma potential_conflict_sym:
  assumes "s < length (ci_templates ix)" "potential_conflict ix s t"
  shows "potential_conflict ix t s"
  using assms templates_conflict_sym [of ix s t] by (simp add: potential_conflict_def edge_to_def)

section \<open>Meaning of selectors and footprints\<close>

text \<open>
  An instance assigns literals to field paths; an environment assigns one to every value
  reference of one execution. Two executions evaluate their references independently.
\<close>

fun selector_literal :: "(value_ref \<Rightarrow> literal) \<Rightarrow> selector_value \<Rightarrow> literal" where
  "selector_literal env (SvValue r) = env r"
| "selector_literal env (SvLiteral l) = l"

fun holds :: "(value_ref \<Rightarrow> literal) \<Rightarrow> (field_path \<Rightarrow> literal) \<Rightarrow> predicate \<Rightarrow> bool" where
  "holds env inst PAll = True"
| "holds env inst (PEq f v) \<longleftrightarrow> inst f = selector_literal env v"
| "holds env inst (PAnd ps) \<longleftrightarrow> list_all (holds env inst) ps"

fun within :: "access_fields \<Rightarrow> field_path \<Rightarrow> bool" where
  "within (AfOnly fs) p \<longleftrightarrow> (\<exists>f \<in> set fs. starts_with p f)"
| "within _ p \<longleftrightarrow> True"

text \<open>The cells of an object an access of one execution touches.\<close>

definition touches ::
    "(value_ref \<Rightarrow> literal) \<Rightarrow> tx_access \<Rightarrow> id \<Rightarrow> (field_path \<Rightarrow> literal) \<Rightarrow> field_path \<Rightarrow> bool" where
  "touches env a obj inst p \<longleftrightarrow>
     acc_object a = obj \<and> holds env inst (os_predicate (acc_selector a)) \<and> within (acc_fields a) p"

lemma holds_pins: "holds env inst p \<Longrightarrow> (f, v) \<in> set (pins p) \<Longrightarrow> inst f = selector_literal env v"
  by (induction env inst p rule: holds.induct) (auto simp: list_all_iff)

lemma incompatible_pins_disjoint:
  "incompatible_pins (pins p) (pins q) \<Longrightarrow> holds env inst p \<Longrightarrow> holds env' inst q \<Longrightarrow> False"
proof -
  assume i: "incompatible_pins (pins p) (pins q)" and h: "holds env inst p" "holds env' inst q"
  then obtain f l k where "(f, SvLiteral l) \<in> set (pins p)" "(f, SvLiteral k) \<in> set (pins q)" "l \<noteq> k"
    unfolding incompatible_pins_def by (auto elim!: distinct_literals.elims)
  then show False using h by (auto dest!: holds_pins)
qed

lemma field_overlap_disjoint:
  "field_overlap_of x y = FoDisjoint \<Longrightarrow> within x p \<Longrightarrow> within y p \<Longrightarrow> False"
  by (cases x; cases y) (auto simp: starts_with_def split: if_splits dest: prefix_same_cases)

lemma selector_overlap_disjoint:
  "selector_overlap_of ix a b = SoDisjoint \<Longrightarrow> touches env a obj inst p \<Longrightarrow> touches env' b obj inst p' \<Longrightarrow> False"
  using incompatible_pins_disjoint
  by (auto simp: selector_overlap_of_def Let_def touches_def split: if_splits)

lemma no_conflict_disjoint:
  assumes "access_conflict ix a b = None"
    and "mode_writes (acc_mode a) \<or> mode_writes (acc_mode b)"
  shows "\<not> (touches env a obj inst p \<and> touches env' b obj inst p)"
proof
  assume t: "touches env a obj inst p \<and> touches env' b obj inst p"
  have "selector_overlap_of ix a b = SoDisjoint
      \<or> field_overlap_of (acc_fields a) (acc_fields b) = FoDisjoint"
    using assms by (simp add: access_conflict_def split: if_splits)
  then show False
  proof
    assume "selector_overlap_of ix a b = SoDisjoint"
    then show False using t selector_overlap_disjoint by blast
  next
    assume "field_overlap_of (acc_fields a) (acc_fields b) = FoDisjoint"
    then show False using t field_overlap_disjoint unfolding touches_def by blast
  qed
qed

section \<open>Completeness of the index\<close>

lemma facts_of_nth:
  "i < length (tx_steps tx) \<Longrightarrow> index_step ix ref tx i (tx_steps tx ! i) \<in> set (facts_of ix ref tx)"
  by (auto simp: facts_of_def in_set_enumerate_eq image_iff intro!: bexI [of _ "(i, tx_steps tx ! i)"])

lemma accesses_of_step:
  "i < length (tx_steps tx) \<Longrightarrow> a \<in> set (fx_accesses (index_step ix ref tx i (tx_steps tx ! i))) \<Longrightarrow>
     a \<in> set (tt_accesses (template_of ix ref tx))"
  using facts_of_nth [of i tx ix ref] by (auto simp: template_of_def)

lemma locks_of_step:
  "i < length (tx_steps tx) \<Longrightarrow> a \<in> set (fx_locks (index_step ix ref tx i (tx_steps tx ! i))) \<Longrightarrow>
     a \<in> set (tt_locks (template_of ix ref tx))"
  using facts_of_nth [of i tx ix ref] by (auto simp: template_of_def)

definition mutates_in_place :: "tx_step \<Rightarrow> bool" where
  "mutates_in_place s \<longleftrightarrow>
     (case s of TsUpdate _ \<Rightarrow> True | TsCompareAndSet _ \<Rightarrow> True | TsTransition _ \<Rightarrow> True
      | TsAdvanceCursor _ \<Rightarrow> True | TsFence _ \<Rightarrow> True | _ \<Rightarrow> False)"

lemma step_object_indexed:
  "step_object s = Some obj \<Longrightarrow>
     (\<exists>a \<in> set (fx_accesses (index_step ix ref tx i s)). acc_step a = i \<and> acc_object a = obj)
     \<or> (\<exists>l \<in> set (fx_locks (index_step ix ref tx i s)). la_step l = i \<and> la_object l = obj)"
  by (cases s) (auto simp: access_of_def no_facts_def Let_def)

lemma step_publishes:
  "mutates_in_place s \<Longrightarrow> step_object s = Some obj \<Longrightarrow> version_field ix obj = Some v \<Longrightarrow>
     \<exists>a \<in> set (fx_accesses (index_step ix ref tx i s)).
        acc_mode a = AmVersionPublish \<and> acc_object a = obj \<and> acc_fields a = AfOnly [v]"
  by (cases s) (auto simp: mutates_in_place_def publication_def access_of_def managed_def no_facts_def Let_def)

lemma version_field_base: "version_field (build_index m) = version_field (index_base m)"
  by (simp add: fun_eq_iff version_field_def build_index_def)

lemma template_indexed:
  assumes "(opn, op) \<in> set (md_operations m)" "(loc, tx) \<in> set (transactions (op_program op))"
  shows "template_of (index_base m)
           \<lparr>xr_operation = opn, xr_transaction = tx_id tx, xr_location = loc\<rparr> tx
         \<in> set (ci_templates (build_index m))"
  using assms by (force simp: build_index_def index_templates_def)

section \<open>Properties\<close>


definition sample_access :: "string \<Rightarrow> string \<Rightarrow> tx_access" where
  "sample_access key f =
     access_of \<lparr>xr_operation = Id ''op'', xr_transaction = Id ''tx'', xr_location = []\<rparr> 0
       \<lparr>os_object = Id ''Order'', os_predicate = PEq (FieldPath [''id'']) (SvLiteral (LString key))\<rparr>
       (AfOnly [FieldPath [f]]) AmUpdate None None"

definition sample_index :: conflict_index where
  "sample_index = \<lparr>ci_model = sample_model, ci_templates = [], ci_objects = [], ci_states = []\<rparr>"


text \<open>
  C29. Conflict closures partition the templates: the closure of a member is the closure itself,
  in template order and without repetition, and no template outside it conflicts with any
  template inside.
\<close>

theorem closures_partition:
  assumes "s < length (ci_templates ix)" "t \<in> set (conflict_closure ix s)"
  shows "conflict_closure ix t = conflict_closure ix s
    \<and> (\<forall>u < length (ci_templates ix). u \<notin> set (conflict_closure ix s) \<longrightarrow> \<not> templates_conflict ix t u)"
proof -
  let ?R = "potential_conflict ix"
  have st: "?R\<^sup>*\<^sup>* s t" using assms(2) by (simp add: set_conflict_closure)
  have ts: "?R\<^sup>*\<^sup>* t s"
    using st
  proof (induction rule: rtranclp_induct)
    case (step y z)
    have "y < length (ci_templates ix)"
      using conflict_closure_bound [OF assms(1)] step(1) by (simp add: set_conflict_closure)
    then have "?R z y" using potential_conflict_sym step(2) by blast
    then show ?case using step(3) by (rule converse_rtranclp_into_rtranclp)
  qed simp
  have "set (conflict_closure ix t) = set (conflict_closure ix s)"
    using st ts by (auto simp: set_conflict_closure intro: rtranclp_trans)
  then have "conflict_closure ix t = conflict_closure ix s"
    using conflict_closure_sorted by (metis sorted_distinct_set_unique)
  moreover have "u \<in> set (conflict_closure ix s)"
    if "u < length (ci_templates ix)" "templates_conflict ix t u" for u
    using that st
    by (auto simp: set_conflict_closure potential_conflict_def edge_to_def
        intro: rtranclp.rtrancl_into_rtrancl)
  ultimately show ?thesis by blast
qed

text \<open>
  The access index is complete: every step of every transaction of every operation that
  names an object is an access or a lock of the template the index holds for it, and every
  mutation in place of a versioned object also publishes the version field.
\<close>

theorem index_complete:
  assumes "(opn, op) \<in> set (md_operations m)" "(loc, tx) \<in> set (transactions (op_program op))"
    and "i < length (tx_steps tx)" "step_object (tx_steps tx ! i) = Some obj"
  shows "\<exists>t \<in> set (ci_templates (build_index m)).
    tt_reference t = \<lparr>xr_operation = opn, xr_transaction = tx_id tx, xr_location = loc\<rparr>
    \<and> tt_transaction t = tx
    \<and> ((\<exists>a \<in> set (tt_accesses t). acc_step a = i \<and> acc_object a = obj)
       \<or> (\<exists>l \<in> set (tt_locks t). la_step l = i \<and> la_object l = obj))
    \<and> (\<forall>v. mutates_in_place (tx_steps tx ! i) \<and> version_field (build_index m) obj = Some v \<longrightarrow>
         (\<exists>a \<in> set (tt_accesses t). acc_mode a = AmVersionPublish \<and> acc_object a = obj
            \<and> acc_fields a = AfOnly [v]))"
proof -
  let ?ref = "\<lparr>xr_operation = opn, xr_transaction = tx_id tx, xr_location = loc\<rparr>"
  let ?t = "template_of (index_base m) ?ref tx"
  have idx: "(\<exists>a \<in> set (tt_accesses ?t). acc_step a = i \<and> acc_object a = obj)
      \<or> (\<exists>l \<in> set (tt_locks ?t). la_step l = i \<and> la_object l = obj)"
    using step_object_indexed [OF assms(4)] accesses_of_step [OF assms(3)] locks_of_step [OF assms(3)]
    by metis
  have pub: "\<exists>a \<in> set (tt_accesses ?t). acc_mode a = AmVersionPublish \<and> acc_object a = obj
      \<and> acc_fields a = AfOnly [v]"
    if "mutates_in_place (tx_steps tx ! i)" "version_field (build_index m) obj = Some v" for v
    using step_publishes [OF that(1) assms(4), of "index_base m" v] that(2)
      accesses_of_step [OF assms(3)] unfolding version_field_base by metis
  show ?thesis
    using template_indexed [OF assms(1,2)] idx pub
    by (intro bexI [of _ ?t]) (auto simp: template_of_def)
qed

text \<open>A small program: one transaction reads an order and compares what it read, one updates it.\<close>

definition order_selector :: object_selector where
  "order_selector = \<lparr>os_object = Id ''Order'',
     os_predicate = PEq (FieldPath [''id'']) (SvValue (ValueRef (VsInput (Id ''in'')) (FieldPath [''id''])))\<rparr>"

definition sample_tx :: "string \<Rightarrow> isolation \<Rightarrow> tx_step list \<Rightarrow> transaction" where
  "sample_tx n level ss = \<lparr>tx_id = Id n, tx_data_model = Some (Id ''dm''), tx_isolation = level,
     tx_idempotency = IgUnspecified,
     tx_requirements = \<lparr>tr_serializability = [], tr_ordering = []\<rparr>, tx_steps = ss\<rparr>"

definition sample_reader :: transaction where
  "sample_reader = sample_tx ''reader'' IsoReadCommitted
     [TsRead \<lparr>rd_bind = Id ''seen'', rd_target = order_selector, rd_fields = FsAll\<rparr>,
      TsCompareAndSet \<lparr>cas_target = order_selector,
        cas_compare = [\<lparr>cc_field = FieldPath [''version''], cc_expected =
          SvValue (ValueRef (VsTransactionRead (Id ''seen'')) (FieldPath [''version'']))\<rparr>],
        cas_fields = [FieldPath [''total'']], cas_values = DUnspecified\<rparr>]"

definition sample_writer :: transaction where
  "sample_writer = sample_tx ''writer'' IsoReadCommitted
     [TsUpdate \<lparr>up_target = order_selector, up_fields = [FieldPath [''total'']], up_values = DUnspecified\<rparr>]"

definition sample_operation :: operation where
  "sample_operation = \<lparr>op_service = Id ''svc'', op_description = None, op_inputs = [],
     op_program = Block [OsTransaction sample_reader None, OsTransaction sample_writer None],
     op_requirements = default_requirements\<rparr>"

definition order_model :: model where
  "order_model = sample_model\<lparr>
     md_data_models := [(Id ''dm'', \<lparr>dm_objects = [(Id ''Order'', \<lparr>do_schema = Id ''Order'',
         do_identity = [FieldPath [''id'']], do_version = Some \<lparr>ov_field = FieldPath [''version'']\<rparr>\<rparr>)],
       dm_outboxes = []\<rparr>)],
     md_operations := [(Id ''pay'', sample_operation)]\<rparr>"

lemmas sample_defs = order_model_def sample_operation_def sample_reader_def sample_writer_def
  sample_tx_def order_selector_def sample_model_def

theorem index_complete_witness:
  "\<exists>t \<in> set (ci_templates (build_index order_model)).
     xr_transaction (tt_reference t) = Id ''writer''
     \<and> (\<exists>a \<in> set (tt_accesses t). acc_mode a = AmVersionPublish \<and> acc_object a = Id ''Order''
          \<and> acc_fields a = AfOnly [FieldPath [''version'']])"
proof -
  have "version_field (build_index order_model) (Id ''Order'') = Some (FieldPath [''version''])"
    by (simp add: version_field_def build_index_def index_base_def index_objects_def sample_defs)
  moreover have "(Id ''pay'', sample_operation) \<in> set (md_operations order_model)"
    by (simp add: order_model_def)
  moreover have "([Hop 1 None], sample_writer) \<in> set (transactions (op_program sample_operation))"
    by (simp add: sample_operation_def transactions_txs steps_with_locations_def tx_of_def descend_def)
  ultimately show ?thesis
    using index_complete [of "Id ''pay''" sample_operation order_model "[Hop 1 None]" sample_writer 0 "Id ''Order''"]
    by (force simp: sample_writer_def sample_tx_def order_selector_def mutates_in_place_def)
qed

theorem closures_partition_witness:
  "conflict_closure (build_index order_model) 1 = conflict_closure (build_index order_model) 0"
proof -
  have "1 \<in> set (conflict_closure (build_index order_model) 0)" "0 < length (ci_templates (build_index order_model))"
    by code_simp+
  then show ?thesis using closures_partition by blast
qed

end
