(* ===== verification/Analysis_Evidence.thy ===== *)
theory Analysis_Evidence
  imports Analysis_Conflicts
begin

text \<open>
  Serialization dependencies and their commit-order evidence
  (\<open>analyzer/verification/transaction_conflicts.rs\<close>, from \<open>dependencies\<close> to
  \<open>covering_lock\<close>): every pair of conflicting accesses of a closure gives write-read,
  anti- and write-write dependencies, each with the declared fact that orders the two commits
  or the gaps that leave it unordered. A \<open>Result\<close> is a sum with the error on the left.
\<close>

section \<open>Evidence and gaps\<close>

datatype dependency_kind = DkWriteRead | DkAntiDependency | DkWriteWrite

datatype dependency_side = SideReader | SideWriter

datatype guard_coverage =
    GcAtomic
  | GcHeldProtection
  | GcObservedState id nat
  | GcObservedVersion id nat field_path bool
  | GcLockedReader lock_ref

datatype held_write =
    HwIsolation tx_ref isolation
  | HwGuardedMutation tx_ref nat id mutation_kind guard_coverage "field_path bset"

datatype evidence =
    EvCommittedRead isolation
  | EvAtomicWriteOrder isolation isolation
  | EvStrictLock lock_ref lock_ref
  | EvConditionalMutation tx_ref nat id (ev_mechanism: mutation_kind) guard_coverage
      "field_path bset" "held_write option"
  | EvReadOnlyObservation isolation
  | EvOrderedCursor id field_path cursor_advance_rule
  | EvNone

datatype dependency_gap =
    GapLockCoverageMissing tx_ref dependency_side id nat
  | GapLockAcquiredAfter tx_ref dependency_side nat nat
  | GapGuardMissing tx_ref id nat
  | GapGuardDoesNotCover tx_ref id nat nat access_fields
  | GapNotIdentified tx_ref id nat
  | GapVersionMayRepeat tx_ref id nat tx_ref
  | GapIsolationUnspecified tx_ref
  | GapUnknownSelectorOverlap id
  | GapUnknownFieldOverlap id

record dependency =
  dp_kind :: dependency_kind
  dp_source :: tx_ref
  dp_source_step :: nat
  dp_source_mode :: access_mode
  dp_target :: tx_ref
  dp_target_step :: nat
  dp_target_mode :: access_mode
  dp_object :: id
  dp_selector_overlap :: selector_overlap
  dp_field_overlap :: field_overlap
  dp_evidence :: evidence
  dp_fence :: "managed_field option"
  dp_gaps :: "dependency_gap list"

definition constrained :: "dependency \<Rightarrow> bool" where
  "constrained d \<longleftrightarrow> dp_evidence d \<noteq> EvNone"

section \<open>Guards and locks\<close>

definition guard_evidence ::
    "tx_template \<Rightarrow> conditional_mutation \<Rightarrow> guard_coverage \<Rightarrow> field_path bset \<Rightarrow> held_write option
       \<Rightarrow> evidence" where
  "guard_evidence t g cov compared held =
     EvConditionalMutation (tt_reference t) (cm_step g) (os_object (cm_target g)) (cm_mechanism g) cov
       (if compared = [] then bs_collect (map cf_field (cm_comparisons g)) else compared) held"

text \<open>\<open>protection\<close>: the guard at the access's own step, else one at an earlier step.\<close>

definition guards_for :: "tx_template \<Rightarrow> tx_access \<Rightarrow> conditional_mutation list" where
  "guards_for t a =
     filter (\<lambda>g. cm_identified g \<and> holds_protection (cm_mechanism g) \<and> cm_target g = acc_selector a)
       (tt_mutations t)"

definition protection ::
    "tx_template \<Rightarrow> tx_access \<Rightarrow> (conditional_mutation \<times> guard_coverage) option" where
  "protection t a =
     (case find (\<lambda>g. cm_step g = acc_step a) (guards_for t a) of
        Some g \<Rightarrow> Some (g, GcAtomic)
      | None \<Rightarrow> map_option (\<lambda>g. (g, GcHeldProtection))
                  (find (\<lambda>g. cm_step g < acc_step a) (guards_for t a)))"

definition serializes_at_its_read :: "conflict_index \<Rightarrow> tx_template \<Rightarrow> bool" where
  "serializes_at_its_read ix t =
     (if \<exists>a \<in> set (tt_accesses t). mode_writes (acc_mode a) then False
      else case tx_isolation (tt_transaction t) of
        IsoUnspecified \<Rightarrow> False
      | IsoSnapshot \<Rightarrow> True
      | _ \<Rightarrow>
          (case filter (\<lambda>a. mode_reads (acc_mode a)) (tt_accesses t) of
             [] \<Rightarrow> True
           | first # rest \<Rightarrow>
               identifies_instance ix (acc_selector first)
               \<and> (\<forall>a \<in> set rest. acc_step a = acc_step first \<and> acc_selector a = acc_selector first)))"

definition held_write_of :: "tx_template \<Rightarrow> tx_access \<Rightarrow> held_write option" where
  "held_write_of t a =
     (if tx_isolation (tt_transaction t) \<noteq> IsoUnspecified
      then Some (HwIsolation (tt_reference t) (tx_isolation (tt_transaction t)))
      else map_option (\<lambda>(g, cov).
             HwGuardedMutation (tt_reference t) (cm_step g) (os_object (cm_target g)) (cm_mechanism g)
               cov (bs_collect (map cf_field (cm_comparisons g))))
           (protection t a))"

text \<open>\<open>uncovered\<close>: the conflicting regions no compared field covers.\<close>

definition region_covered :: "field_path bset \<Rightarrow> field_path \<Rightarrow> bool" where
  "region_covered compared r \<longleftrightarrow> (\<exists>f \<in> set compared. starts_with r f)"

definition common_region :: "field_path \<Rightarrow> field_path \<Rightarrow> field_path option" where
  "common_region r w =
     (if starts_with r w then Some r else if starts_with w r then Some w else None)"

definition missing_regions :: "field_path list \<Rightarrow> field_path bset \<Rightarrow> access_fields option" where
  "missing_regions rs compared =
     (let missing = filter (\<lambda>r. \<not> region_covered compared r) (bs_collect rs)
      in if missing = [] then None else Some (AfOnly missing))"

fun uncovered :: "access_fields \<Rightarrow> access_fields \<Rightarrow> field_path bset \<Rightarrow> access_fields option" where
  "uncovered AfUnknown w compared = Some AfUnknown"
| "uncovered r AfUnknown compared = Some AfUnknown"
| "uncovered AfAll AfAll compared = Some AfAll"
| "uncovered AfAll (AfOnly fs) compared = missing_regions fs compared"
| "uncovered (AfOnly fs) AfAll compared = missing_regions fs compared"
| "uncovered (AfOnly rs) (AfOnly ws) compared =
     missing_regions (concat (map (\<lambda>r. List.map_filter (common_region r) ws) rs)) compared"

text \<open>\<open>covers\<close>: everything the lock constrains, the access constrains identically.\<close>

definition lock_covers :: "predicate \<Rightarrow> predicate \<Rightarrow> bool" where
  "lock_covers l a \<longleftrightarrow> (\<forall>p \<in> set (pins l). p \<in> set (pins a))"

definition lock_applies :: "tx_access \<Rightarrow> bool \<Rightarrow> lock_access \<Rightarrow> bool" where
  "lock_applies a exclusive l \<longleftrightarrow>
     \<not> (la_object l \<noteq> acc_object a \<or> (exclusive \<and> la_mode l \<noteq> Exclusive)
        \<or> \<not> lock_covers (os_predicate (la_selector l)) (os_predicate (acc_selector a)))"

definition or_insert :: "'a option \<Rightarrow> 'a \<Rightarrow> 'a option" where
  "or_insert x y = (case x of None \<Rightarrow> Some y | Some z \<Rightarrow> Some z)"

fun lock_loop ::
    "tx_template \<Rightarrow> tx_access \<Rightarrow> bool \<Rightarrow> lock_access list \<Rightarrow> nat option \<Rightarrow> dependency_gap + lock_ref" where
  "lock_loop t a exclusive [] late =
     Inl (let side = (if exclusive then SideWriter else SideReader)
          in case late of
               Some s \<Rightarrow> GapLockAcquiredAfter (tt_reference t) side s (acc_step a)
             | None \<Rightarrow> GapLockCoverageMissing (tt_reference t) side (acc_object a) (acc_step a))"
| "lock_loop t a exclusive (l # ls) late =
     (if \<not> lock_applies a exclusive l then lock_loop t a exclusive ls late
      else if la_step l < acc_step a
      then Inr \<lparr>lr_transaction = tt_reference t, lr_step = la_step l, lr_mode = la_mode l\<rparr>
      else lock_loop t a exclusive ls (or_insert late (la_step l)))"

definition covering_lock :: "tx_template \<Rightarrow> tx_access \<Rightarrow> bool \<Rightarrow> dependency_gap + lock_ref" where
  "covering_lock t a exclusive = lock_loop t a exclusive (tt_locks t) None"

section \<open>Observations guarded by a later mutation\<close>

definition version_observed ::
    "conflict_index \<Rightarrow> tx_access \<Rightarrow> conditional_mutation \<Rightarrow> (field_path \<times> observed_value) option" where
  "version_observed ix a g =
     Option.bind (version_field ix (acc_object a)) (\<lambda>v.
       find_map (\<lambda>c. case cf_observed c of
           Some ob \<Rightarrow> if cf_field c = v \<and> obs_step ob \<le> acc_step a then Some (v, ob) else None
         | None \<Rightarrow> None) (cm_comparisons g))"

definition repeated_version :: "conflict_index \<Rightarrow> tx_access \<Rightarrow> tx_access \<Rightarrow> tx_ref option" where
  "repeated_version ix a b =
     (if acc_mode b = AmInsert \<or> acc_mode b = AmUpsertReadWrite then deleter ix (acc_object a) else None)"

definition compared_fields :: "tx_access \<Rightarrow> conditional_mutation \<Rightarrow> field_path bset" where
  "compared_fields a g =
     bs_collect (map cf_field (filter (\<lambda>c. case cf_observed c of
         Some ob \<Rightarrow> obs_step ob = acc_step a | None \<Rightarrow> False) (cm_comparisons g)))"

definition observing_read :: "tx_template \<Rightarrow> tx_access \<Rightarrow> read_step option" where
  "observing_read t a =
     (if acc_step a < length (tx_steps (tt_transaction t))
      then (case tx_steps (tt_transaction t) ! acc_step a of TsRead r \<Rightarrow> Some r | _ \<Rightarrow> None)
      else None)"

text \<open>
  The loop over the later guards: the version route returns or leaves a shortfall, then the
  observed-state route does. \<open>shortfall\<close> keeps the first one found.
\<close>

fun state_route ::
    "tx_template \<Rightarrow> tx_access \<Rightarrow> tx_access \<Rightarrow> conditional_mutation \<Rightarrow> dependency_gap option
       \<Rightarrow> dependency_gap option + evidence" where
  "state_route t a b g shortfall =
     (case observing_read t a of
        None \<Rightarrow> Inl shortfall
      | Some r \<Rightarrow>
          if compared_fields a g = [] then Inl shortfall
          else (case uncovered (acc_fields a) (acc_fields b) (compared_fields a g) of
                  None \<Rightarrow> Inr (guard_evidence t g (GcObservedState (rd_bind r) (acc_step a))
                                 (compared_fields a g) None)
                | Some fs \<Rightarrow> Inl (or_insert shortfall
                    (GapGuardDoesNotCover (tt_reference t) (acc_object a) (acc_step a) (cm_step g) fs))))"

definition guard_route ::
    "conflict_index \<Rightarrow> tx_template \<Rightarrow> tx_access \<Rightarrow> tx_access \<Rightarrow> conditional_mutation
       \<Rightarrow> dependency_gap option \<Rightarrow> dependency_gap option + evidence" where
  "guard_route ix t a b g shortfall =
     (case version_observed ix a g of
        None \<Rightarrow> state_route t a b g shortfall
      | Some (v, ob) \<Rightarrow>
          (case repeated_version ix a b of
             None \<Rightarrow> Inr (guard_evidence t g
               (GcObservedVersion (obs_read ob) (obs_step ob) v
                  (acc_mode b = AmInsert \<or> acc_mode b = AmUpsertReadWrite)) [v] None)
           | Some deleted_by \<Rightarrow> state_route t a b g (or_insert shortfall
               (GapVersionMayRepeat (tt_reference t) (acc_object a) (acc_step a) deleted_by))))"

fun guard_loop ::
    "conflict_index \<Rightarrow> tx_template \<Rightarrow> tx_access \<Rightarrow> tx_access \<Rightarrow> conditional_mutation list
       \<Rightarrow> dependency_gap option \<Rightarrow> dependency_gap + evidence" where
  "guard_loop ix t a b [] shortfall =
     Inl (case shortfall of None \<Rightarrow> GapGuardMissing (tt_reference t) (acc_object a) (acc_step a)
                          | Some gap \<Rightarrow> gap)"
| "guard_loop ix t a b (g # gs) shortfall =
     (case guard_route ix t a b g shortfall of
        Inr ev \<Rightarrow> Inr ev
      | Inl shortfall' \<Rightarrow> guard_loop ix t a b gs shortfall')"

definition observation_guard ::
    "conflict_index \<Rightarrow> tx_template \<Rightarrow> tx_access \<Rightarrow> tx_access \<Rightarrow> dependency_gap + evidence" where
  "observation_guard ix t a b =
     (case protection t a of
        Some (g, cov) \<Rightarrow> Inr (guard_evidence t g cov [] None)
      | None \<Rightarrow>
          if \<not> identifies_instance ix (acc_selector a)
          then Inl (GapNotIdentified (tt_reference t) (acc_object a) (acc_step a))
          else guard_loop ix t a b
                 (filter (\<lambda>g. acc_step a < cm_step g) (guards_for t a)) None)"

section \<open>Dependencies\<close>

abbreviation isolation_of :: "tx_template \<Rightarrow> isolation" where
  "isolation_of t \<equiv> tx_isolation (tt_transaction t)"

fun write_read_evidence ::
    "tx_template \<Rightarrow> tx_access \<Rightarrow> tx_template \<Rightarrow> tx_access \<Rightarrow> evidence \<times> dependency_gap list" where
  "write_read_evidence source a target b =
     (if isolation_of target \<noteq> IsoUnspecified then (EvCommittedRead (isolation_of target), [])
      else (case (protection target b, held_write_of source a) of
              (Some (g, cov), Some held) \<Rightarrow> (guard_evidence target g cov [] (Some held), [])
            | _ \<Rightarrow> (EvNone, [GapIsolationUnspecified (tt_reference target)])))"

definition write_write_gaps :: "tx_template \<Rightarrow> tx_template \<Rightarrow> dependency_gap list" where
  "write_write_gaps source target =
     map (\<lambda>t. GapIsolationUnspecified (tt_reference t))
       (filter (\<lambda>t. isolation_of t = IsoUnspecified) [source, target])"

fun write_write_evidence ::
    "tx_template \<Rightarrow> tx_access \<Rightarrow> tx_template \<Rightarrow> tx_access \<Rightarrow> evidence \<times> dependency_gap list" where
  "write_write_evidence source a target b =
     (if isolation_of source \<noteq> IsoUnspecified \<and> isolation_of target \<noteq> IsoUnspecified
      then (EvAtomicWriteOrder (isolation_of source) (isolation_of target), [])
      else (case protection source a of
              Some (g, cov) \<Rightarrow> (guard_evidence source g cov [] None, [])
            | None \<Rightarrow>
                (case protection target b of
                   Some (g, cov) \<Rightarrow>
                     if isolation_of source \<noteq> IsoUnspecified
                     then (guard_evidence target g cov []
                             (Some (HwIsolation (tt_reference source) (isolation_of source))), [])
                     else (EvNone, write_write_gaps source target)
                 | None \<Rightarrow> (EvNone, write_write_gaps source target))))"

fun lock_gaps :: "dependency_gap + lock_ref \<Rightarrow> dependency_gap list" where
  "lock_gaps (Inl g) = [g]"
| "lock_gaps (Inr l) = []"

definition read_write_evidence ::
    "conflict_index \<Rightarrow> tx_template \<Rightarrow> tx_access \<Rightarrow> tx_template \<Rightarrow> tx_access
       \<Rightarrow> evidence \<times> dependency_gap list" where
  "read_write_evidence ix source a target b =
     (case (covering_lock source a False, covering_lock target b True) of
        (Inr r, Inr w) \<Rightarrow> (EvStrictLock r w, [])
      | (r, w) \<Rightarrow>
          (case observation_guard ix source a b of
             Inr ev \<Rightarrow> (ev, [])
           | Inl gap \<Rightarrow>
               if serializes_at_its_read ix source
               then (EvReadOnlyObservation (isolation_of source), [])
               else (case (r, protection target b) of
                       (Inr l, Some (g, _)) \<Rightarrow>
                         if identifies_instance ix (acc_selector a)
                         then (guard_evidence target g (GcLockedReader l) [] None, [])
                         else (EvNone, lock_gaps r @ lock_gaps w @ [gap])
                     | _ \<Rightarrow> (EvNone, lock_gaps r @ lock_gaps w @ [gap]))))"

definition same_cursor :: "tx_access \<Rightarrow> tx_access \<Rightarrow> bool" where
  "same_cursor a b \<longleftrightarrow>
     acc_mode a = AmCursorReadWrite \<and> acc_mode b = AmCursorReadWrite \<and> acc_field a = acc_field b
     \<and> acc_rule a \<noteq> None \<and> acc_rule a = acc_rule b"

definition evidence_for ::
    "conflict_index \<Rightarrow> dependency_kind \<Rightarrow> tx_template \<Rightarrow> tx_access \<Rightarrow> tx_template \<Rightarrow> tx_access
       \<Rightarrow> evidence \<times> dependency_gap list" where
  "evidence_for ix kind source a target b =
     (if same_cursor a b
      then (EvOrderedCursor (acc_object a) (get_or default_path (acc_field a)) (the (acc_rule a)), [])
      else case kind of
        DkWriteRead \<Rightarrow> write_read_evidence source a target b
      | DkWriteWrite \<Rightarrow> write_write_evidence source a target b
      | DkAntiDependency \<Rightarrow> read_write_evidence ix source a target b)"

definition overlap_gaps :: "evidence \<Rightarrow> overlap \<Rightarrow> id \<Rightarrow> dependency_gap list" where
  "overlap_gaps ev ol obj =
     (if ev \<noteq> EvNone then []
      else (if ol_selector ol = SoUnknown then [GapUnknownSelectorOverlap obj] else [])
           @ (if ol_fields ol = FoUnknown then [GapUnknownFieldOverlap obj] else []))"

definition shared_fence :: "tx_access \<Rightarrow> tx_access \<Rightarrow> managed_field option" where
  "shared_fence a b =
     (if acc_mode a = AmFenceReadWrite \<and> acc_mode b = AmFenceReadWrite \<and> acc_field a = acc_field b
      then Some \<lparr>mf_object = acc_object a, mf_field = get_or default_path (acc_field a)\<rparr> else None)"

definition dependency_of ::
    "conflict_index \<Rightarrow> dependency_kind \<Rightarrow> nat \<Rightarrow> tx_access \<Rightarrow> nat \<Rightarrow> tx_access \<Rightarrow> overlap \<Rightarrow> dependency" where
  "dependency_of ix kind s a t b ol =
     (let source = ci_templates ix ! s; target = ci_templates ix ! t;
          (ev, gaps) = evidence_for ix kind source a target b
      in \<lparr>dp_kind = kind, dp_source = tt_reference source, dp_source_step = acc_step a,
          dp_source_mode = acc_mode a, dp_target = tt_reference target, dp_target_step = acc_step b,
          dp_target_mode = acc_mode b, dp_object = acc_object a,
          dp_selector_overlap = ol_selector ol, dp_field_overlap = ol_fields ol,
          dp_evidence = ev, dp_fence = shared_fence a b,
          dp_gaps = gaps @ overlap_gaps ev ol (acc_object a)\<rparr>)"

definition pair_dependencies ::
    "conflict_index \<Rightarrow> nat \<Rightarrow> nat \<Rightarrow> tx_access \<Rightarrow> tx_access \<Rightarrow> dependency list" where
  "pair_dependencies ix s t a b =
     (case access_conflict ix a b of
        None \<Rightarrow> []
      | Some ol \<Rightarrow>
          (if mode_writes (acc_mode a) \<and> mode_reads (acc_mode b)
           then [dependency_of ix DkWriteRead s a t b ol] else [])
          @ (if mode_reads (acc_mode a) \<and> mode_writes (acc_mode b)
             then [dependency_of ix DkAntiDependency s a t b ol] else [])
          @ (if mode_writes (acc_mode a) \<and> mode_writes (acc_mode b)
             then [dependency_of ix DkWriteWrite s a t b ol] else []))"

definition dependencies :: "conflict_index \<Rightarrow> nat list \<Rightarrow> dependency list" where
  "dependencies ix closure =
     concat (map (\<lambda>s. concat (map (\<lambda>t.
         concat (map (\<lambda>a. concat (map (\<lambda>b. pair_dependencies ix s t a b)
             (tt_accesses (ci_templates ix ! t)))) (tt_accesses (ci_templates ix ! s))))
       closure)) closure)"

section \<open>Lemmas\<close>

lemma holds_iff_pins:
  "holds env inst p \<longleftrightarrow> (\<forall>(f, v) \<in> set (pins p). inst f = selector_literal env v)"
  by (induction env inst p rule: holds.induct) (auto simp: list_all_iff)

lemma lock_covers_sound: "lock_covers l a \<Longrightarrow> holds env inst a \<Longrightarrow> holds env inst l"
  by (auto simp: holds_iff_pins lock_covers_def)

lemma lock_loop_sound:
  "lock_loop t a ex ls late = Inr r \<Longrightarrow>
     \<exists>l \<in> set ls. lock_applies a ex l \<and> la_step l < acc_step a
       \<and> r = \<lparr>lr_transaction = tt_reference t, lr_step = la_step l, lr_mode = la_mode l\<rparr>"
  by (induction t a ex ls late rule: lock_loop.induct) (auto split: if_splits)

lemma guards_for_facts:
  "g \<in> set (guards_for t a) \<longleftrightarrow>
     g \<in> set (tt_mutations t) \<and> cm_identified g \<and> cm_mechanism g \<noteq> MkFence \<and> cm_target g = acc_selector a"
  by (auto simp: guards_for_def holds_protection_def)

lemma find_SomeD: "find p xs = Some x \<Longrightarrow> x \<in> set xs \<and> p x"
  by (metis find_Some_iff nth_mem)

lemma protection_facts:
  assumes "protection t a = Some (g, cov)"
  shows "g \<in> set (guards_for t a) \<and> cm_step g \<le> acc_step a \<and> cov \<in> {GcAtomic, GcHeldProtection}
    \<and> (cov = GcAtomic \<longleftrightarrow> cm_step g = acc_step a)"
  using assms by (auto simp: protection_def dest!: find_SomeD split: option.splits)

lemma region_coveredD: "region_covered cs r \<Longrightarrow> starts_with p r \<Longrightarrow> region_covered cs p"
  unfolding region_covered_def starts_with_def using prefix_order.trans by blast

lemma missing_regions_None:
  "missing_regions rs cs = None \<Longrightarrow> r \<in> set rs \<Longrightarrow> starts_with p r \<Longrightarrow> region_covered cs p"
  by (auto simp: missing_regions_def Let_def filter_empty_conv split: if_splits intro: region_coveredD)

lemma common_region_exists:
  assumes "starts_with p r" "starts_with p w"
  shows "\<exists>c. common_region r w = Some c \<and> starts_with p c"
  using assms prefix_same_cases [of "components r" "components p" "components w"]
  by (auto simp: common_region_def starts_with_def)

lemma uncovered_None:
  assumes "uncovered r w cs = None" "within r p" "within w p"
  shows "region_covered cs p"
proof (cases r; cases w)
  fix rs ws assume rw: "r = AfOnly rs" "w = AfOnly ws"
  with assms obtain x y where x: "x \<in> set rs" "starts_with p x" and y: "y \<in> set ws" "starts_with p y"
    by auto
  obtain c where c: "common_region x y = Some c" "starts_with p c"
    using common_region_exists [OF x(2) y(2)] by blast
  have "c \<in> set (concat (map (\<lambda>r. List.map_filter (common_region r) ws) rs))"
    using x(1) y(1) c(1) by (auto simp: set_map_filter)
  then show ?thesis
    using missing_regions_None [OF _ _ c(2)] assms(1) rw by simp
qed (use assms in \<open>auto intro: missing_regions_None\<close>)

lemma observation_facts:
  assumes "observation tx step target c = Some ob"
  shows "obs_step ob < step \<and> obs_step ob < length (tx_steps tx)
    \<and> (\<exists>r. tx_steps tx ! obs_step ob = TsRead r \<and> rd_bind r = obs_read ob \<and> rd_target r = target
         \<and> selection_covers (rd_fields r) (cc_field c))
    \<and> compare_root c = Some (ValueRef (VsTransactionRead (obs_read ob)) (cc_field c))"
proof -
  obtain b where b: "observed_read c = Some b"
    using assms by (auto simp: observation_def split: option.splits)
  obtain e where e: "e \<in> set (take step (List.enumerate 0 (tx_steps tx)))"
    "(case e of (position, s) \<Rightarrow> case s of
        TsRead r \<Rightarrow> if rd_bind r = b \<and> rd_target r = target \<and> selection_covers (rd_fields r) (cc_field c)
                    then Some \<lparr>obs_read = b, obs_step = position\<rparr> else None
      | _ \<Rightarrow> None) = Some ob"
    using assms b by (auto simp: observation_def dest!: find_map_Some)
  obtain i where i: "i < step" "i < length (tx_steps tx)" "e = (i, tx_steps tx ! i)"
    using e(1) by (auto simp: in_set_conv_nth nth_enumerate_eq)
  have ob: "obs_read ob = b" "obs_step ob = i"
    "\<exists>r. tx_steps tx ! i = TsRead r \<and> rd_bind r = b \<and> rd_target r = target
       \<and> selection_covers (rd_fields r) (cc_field c)"
    using e(2) i(3) by (auto split: tx_step.splits if_splits)
  then show ?thesis using i observed_read_root [OF b] by auto
qed

section \<open>What a guarded observation rests on\<close>

text \<open>
  A guard of the reader protects its observation from a writer's access when it mutates the
  same identified instance and either is at or before the observation, or compares later: the
  version some read at or before the observation saw (no deletion lets an insertion repeat
  it), or fields of the very read that contain every cell both accesses touch.
\<close>

definition protects_observation ::
    "conflict_index \<Rightarrow> tx_template \<Rightarrow> tx_access \<Rightarrow> tx_access \<Rightarrow> conditional_mutation \<Rightarrow> bool" where
  "protects_observation ix t a b g \<longleftrightarrow>
     g \<in> set (tt_mutations t) \<and> cm_identified g \<and> cm_mechanism g \<noteq> MkFence
     \<and> cm_target g = acc_selector a
     \<and> (cm_step g \<le> acc_step a
        \<or> (\<exists>c \<in> set (cm_comparisons g). \<exists>ob. cf_observed c = Some ob \<and> obs_step ob \<le> acc_step a
             \<and> version_field ix (acc_object a) = Some (cf_field c)
             \<and> (acc_mode b \<in> {AmInsert, AmUpsertReadWrite} \<longrightarrow> deleter ix (acc_object a) = None))
        \<or> (\<forall>p. within (acc_fields a) p \<and> within (acc_fields b) p \<longrightarrow>
             (\<exists>c \<in> set (cm_comparisons g). \<exists>ob. cf_observed c = Some ob \<and> obs_step ob = acc_step a
                \<and> starts_with p (cf_field c))))"

lemma version_observed_facts:
  assumes "version_observed ix a g = Some (v, ob)"
  shows "version_field ix (acc_object a) = Some v
    \<and> (\<exists>c \<in> set (cm_comparisons g). cf_observed c = Some ob \<and> cf_field c = v \<and> obs_step ob \<le> acc_step a)"
proof -
  obtain v' where v': "version_field ix (acc_object a) = Some v'"
    using assms by (cases "version_field ix (acc_object a)") (auto simp: version_observed_def)
  then have "find_map (\<lambda>c. case cf_observed c of
           Some ob \<Rightarrow> if cf_field c = v' \<and> obs_step ob \<le> acc_step a then Some (v', ob) else None
         | None \<Rightarrow> None) (cm_comparisons g) = Some (v, ob)"
    using assms by (simp add: version_observed_def)
  from find_map_Some [OF this] v' show ?thesis
    by (auto split: option.splits if_splits)
qed

lemma compared_fields_covered:
  "region_covered (compared_fields a g) p \<Longrightarrow>
     \<exists>c \<in> set (cm_comparisons g). \<exists>ob. cf_observed c = Some ob \<and> obs_step ob = acc_step a
       \<and> starts_with p (cf_field c)"
  by (auto simp: region_covered_def compared_fields_def split: option.splits)

definition guard_named :: "tx_template \<Rightarrow> conditional_mutation \<Rightarrow> evidence \<Rightarrow> bool" where
  "guard_named t g ev \<longleftrightarrow>
     (\<exists>cov cf held. ev = EvConditionalMutation (tt_reference t) (cm_step g) (os_object (cm_target g))
        (cm_mechanism g) cov cf held)"

lemma guard_named_evidence [simp]: "guard_named t g (guard_evidence t g cov cf held)"
  by (simp add: guard_named_def guard_evidence_def)

lemma guard_namedI: "guard_evidence t g cov cf held = ev \<Longrightarrow> guard_named t g ev"
  using guard_named_evidence by blast

lemma state_route_sound:
  assumes "state_route t a b g sf = Inr ev" "g \<in> set (guards_for t a)"
  shows "protects_observation ix t a b g \<and> guard_named t g ev"
proof -
  have ev: "ev = guard_evidence t g (GcObservedState (rd_bind (the (observing_read t a))) (acc_step a))
      (compared_fields a g) None"
    and u: "uncovered (acc_fields a) (acc_fields b) (compared_fields a g) = None"
    using assms(1) by (auto split: option.splits if_splits)
  have "\<exists>c \<in> set (cm_comparisons g). \<exists>ob. cf_observed c = Some ob \<and> obs_step ob = acc_step a
       \<and> starts_with p (cf_field c)" if "within (acc_fields a) p" "within (acc_fields b) p" for p
    using uncovered_None [OF u that] by (rule compared_fields_covered)
  then show ?thesis
    using assms(2) ev by (simp add: protects_observation_def guards_for_facts)
qed

lemma guard_route_sound:
  assumes "guard_route ix t a b g sf = Inr ev" "g \<in> set (guards_for t a)"
  shows "protects_observation ix t a b g \<and> guard_named t g ev"
proof (cases "version_observed ix a g")
  case None
  with assms show ?thesis by (intro state_route_sound) (auto simp: guard_route_def)
next
  case (Some e)
  obtain v ob where e: "e = (v, ob)" by force
  show ?thesis
  proof (cases "repeated_version ix a b")
    case None
    then have "guard_named t g ev" using assms(1) Some e by (auto simp: guard_route_def)
    moreover have "acc_mode b \<in> {AmInsert, AmUpsertReadWrite} \<longrightarrow> deleter ix (acc_object a) = None"
      using None by (auto simp: repeated_version_def split: if_splits)
    ultimately show ?thesis
      using version_observed_facts [of ix a g v ob] Some e assms(2)
      by (auto simp: protects_observation_def guards_for_facts)
  next
    case (Some d)
    with \<open>version_observed ix a g = Some e\<close> e assms(1)
    have "state_route t a b g (or_insert sf
        (GapVersionMayRepeat (tt_reference t) (acc_object a) (acc_step a) d)) = Inr ev"
      by (simp add: guard_route_def del: state_route.simps)
    then show ?thesis using assms(2) by (rule state_route_sound)
  qed
qed

lemma guard_loop_sound:
  "guard_loop ix t a b gs sf = Inr ev \<Longrightarrow> set gs \<subseteq> set (guards_for t a) \<Longrightarrow>
     \<exists>g. protects_observation ix t a b g \<and> guard_named t g ev"
proof (induction ix t a b gs sf rule: guard_loop.induct)
  case (2 ix t a b g gs sf)
  show ?case
  proof (cases "guard_route ix t a b g sf")
    case (Inl sf')
    then show ?thesis using 2 by simp
  next
    case (Inr ev')
    then show ?thesis using 2(2,3) guard_route_sound [of ix t a b g sf ev'] by auto
  qed
qed simp

lemma observation_guard_sound:
  assumes "observation_guard ix t a b = Inr ev"
  shows "\<exists>g. protects_observation ix t a b g \<and> guard_named t g ev"
proof (cases "protection t a")
  case None
  then have "guard_loop ix t a b (filter (\<lambda>g. acc_step a < cm_step g) (guards_for t a)) None = Inr ev"
    using assms by (simp add: observation_guard_def split: if_splits)
  then show ?thesis by (rule guard_loop_sound) auto
next
  case (Some e)
  obtain g cov where e: "e = (g, cov)" by force
  have "protects_observation ix t a b g" "guard_named t g ev"
    using protection_facts [of t a g cov] Some e assms
    by (auto simp: protects_observation_def guards_for_facts observation_guard_def)
  then show ?thesis by blast
qed

section \<open>The guards of a built index\<close>

lemma guarded_fields [simp]:
  "cm_step (guarded ix ref tx i sel k cs w) = i"
  "cm_target (guarded ix ref tx i sel k cs w) = sel"
  "cm_mechanism (guarded ix ref tx i sel k cs w) = k"
  "cm_identified (guarded ix ref tx i sel k cs w) = identifies_instance ix sel"
  by (simp_all add: guarded_def)

lemma index_step_mutations:
  "g \<in> set (fx_mutations (index_step ix ref tx i s)) \<Longrightarrow>
     \<exists>k cs w. g = guarded ix ref tx i (the (step_selector s)) k cs w
       \<and> step_guards s \<and> cs = step_compare s"
  by (cases s) (auto simp: no_facts_def Let_def)

lemma template_mutations:
  assumes "g \<in> set (tt_mutations (template_of ix ref tx))"
  shows "\<exists>i k w. i < length (tx_steps tx) \<and> step_guards (tx_steps tx ! i)
    \<and> g = guarded ix ref tx i (the (step_selector (tx_steps tx ! i))) k (step_compare (tx_steps tx ! i)) w"
proof -
  obtain fx where "fx \<in> set (facts_of ix ref tx)" "g \<in> set (fx_mutations fx)"
    using assms by (auto simp: template_of_def)
  then obtain i where "i < length (tx_steps tx)" "g \<in> set (fx_mutations (index_step ix ref tx i (tx_steps tx ! i)))"
    by (auto simp: facts_of_def in_set_enumerate_eq)
  then show ?thesis using index_step_mutations by blast
qed

lemma built_template:
  assumes "t \<in> set (ci_templates (build_index m))"
  shows "\<exists>ref tx. t = template_of (index_base m) ref tx"
  using assms by (auto simp: build_index_def index_templates_def)

lemma template_of_simps [simp]:
  "tt_reference (template_of ix ref tx) = ref" "tt_transaction (template_of ix ref tx) = tx"
  by (simp_all add: template_of_def)

lemma built_comparison_observed:
  assumes "t \<in> set (ci_templates (build_index m))" "g \<in> set (tt_mutations t)"
    and "c \<in> set (cm_comparisons g)" "cf_observed c = Some ob"
  shows "obs_step ob < cm_step g \<and> obs_step ob < length (tx_steps (tt_transaction t))
    \<and> (\<exists>r. tx_steps (tt_transaction t) ! obs_step ob = TsRead r \<and> rd_bind r = obs_read ob
         \<and> rd_target r = cm_target g \<and> selection_covers (rd_fields r) (cf_field c))
    \<and> cf_expected c = SvValue (ValueRef (VsTransactionRead (obs_read ob)) (cf_field c))"
proof -
  obtain ref tx where t: "t = template_of (index_base m) ref tx"
    using built_template [OF assms(1)] by blast
  obtain i k w where g: "g = guarded (index_base m) ref tx i
      (the (step_selector (tx_steps tx ! i))) k (step_compare (tx_steps tx ! i)) w"
    using template_mutations assms(2) t by blast
  obtain cc where cc: "cf_field c = cc_field cc" "cf_expected c = cc_expected cc"
    "observation tx i (the (step_selector (tx_steps tx ! i))) cc = Some ob"
    using assms(3,4) g by (auto simp: guarded_def)
  have "cc_expected cc = SvValue (ValueRef (VsTransactionRead (obs_read ob)) (cc_field cc))"
    using observation_facts [OF cc(3)] by (auto simp: compare_root_def split: selector_value.splits)
  then show ?thesis
    using observation_facts [OF cc(3)] cc g t by auto
qed

section \<open>Every dependency is listed\<close>

fun kind_applies :: "dependency_kind \<Rightarrow> access_mode \<Rightarrow> access_mode \<Rightarrow> bool" where
  "kind_applies DkWriteRead a b \<longleftrightarrow> mode_writes a \<and> mode_reads b"
| "kind_applies DkAntiDependency a b \<longleftrightarrow> mode_reads a \<and> mode_writes b"
| "kind_applies DkWriteWrite a b \<longleftrightarrow> mode_writes a \<and> mode_writes b"

lemma ex_kind: "(\<exists>k. P k) \<longleftrightarrow> P DkWriteRead \<or> P DkAntiDependency \<or> P DkWriteWrite"
  by (metis dependency_kind.exhaust)

lemma set_pair_dependencies:
  "d \<in> set (pair_dependencies ix s t a b) \<longleftrightarrow>
     (\<exists>ol k. access_conflict ix a b = Some ol \<and> kind_applies k (acc_mode a) (acc_mode b)
        \<and> d = dependency_of ix k s a t b ol)"
  by (cases "access_conflict ix a b") (auto simp add: pair_dependencies_def ex_kind)

lemma dependency_of_ends [simp]:
  "dp_source (dependency_of ix k s a t b ol) = tt_reference (ci_templates ix ! s)"
  "dp_target (dependency_of ix k s a t b ol) = tt_reference (ci_templates ix ! t)"
  "dp_evidence (dependency_of ix k s a t b ol)
     = fst (evidence_for ix k (ci_templates ix ! s) a (ci_templates ix ! t) b)"
  by (simp_all add: dependency_of_def Let_def case_prod_unfold)

lemma write_write_gaps_nonempty:
  "\<not> (isolation_of s \<noteq> IsoUnspecified \<and> isolation_of t \<noteq> IsoUnspecified) \<Longrightarrow> write_write_gaps s t \<noteq> []"
  by (auto simp: write_write_gaps_def)

lemma guard_evidence_not_None [simp]: "guard_evidence t g cov cf held \<noteq> EvNone"
  by (simp add: guard_evidence_def)

lemma observation_guard_not_None: "observation_guard ix t a b \<noteq> Inr EvNone"
  using observation_guard_sound [of ix t a b EvNone] by (auto simp: guard_named_def)

lemma evidence_for_gaps:
  "fst (evidence_for ix k s a t b) = EvNone \<longleftrightarrow> snd (evidence_for ix k s a t b) \<noteq> []"
proof (cases k)
  case DkWriteRead
  then show ?thesis
    by (auto simp: evidence_for_def split: option.splits)
next
  case DkWriteWrite
  then show ?thesis
    using write_write_gaps_nonempty [of s t]
    by (auto simp: evidence_for_def split: option.splits)
next
  case DkAntiDependency
  then show ?thesis
    using observation_guard_not_None [of ix s a b]
    by (auto simp: evidence_for_def read_write_evidence_def split: option.splits sum.splits)
qed

lemma write_write_guard:
  assumes "is_EvConditionalMutation (fst (write_write_evidence s a t b))"
  shows "\<exists>u x g c. u \<in> {s, t} \<and> protection u x = Some (g, c) \<and> guard_named u g (fst (write_write_evidence s a t b))"
proof (cases "protection s a")
  case None
  with assms obtain g c where p: "protection t b = Some (g, c)"
    by (cases "protection t b") (auto split: if_splits)
  then have "guard_named t g (fst (write_write_evidence s a t b))"
    using assms None by (auto split: if_splits)
  with p show ?thesis by blast
next
  case (Some e)
  obtain g c where e: "e = (g, c)" by force
  then have "guard_named s g (fst (write_write_evidence s a t b))"
    using assms Some by (auto split: if_splits)
  with Some e show ?thesis by blast
qed

lemma evidence_for_guard:
  assumes "fst (evidence_for ix k s a t b) = ev" "is_EvConditionalMutation ev"
  shows "\<exists>u g. u \<in> {s, t} \<and> g \<in> set (tt_mutations u) \<and> cm_identified g \<and> cm_mechanism g \<noteq> MkFence
    \<and> guard_named u g ev"
proof (cases k)
  case DkWriteRead
  then obtain g c held where "protection t b = Some (g, c)" "ev = guard_evidence t g c [] held"
    using assms by (auto simp: evidence_for_def split: option.splits if_splits)
  then show ?thesis by (meson guard_named_evidence guards_for_facts insertI1 insertI2 protection_facts)
next
  case DkWriteWrite
  then have ev: "ev = fst (write_write_evidence s a t b)"
    using assms by (auto simp: evidence_for_def simp del: write_write_evidence.simps split: if_splits)
  obtain u x g c where u: "u \<in> {s, t}" "protection u x = Some (g, c)" "guard_named u g ev"
    using write_write_guard [of s a t b] assms(2) unfolding ev [symmetric] by blast
  then show ?thesis using protection_facts [OF u(2)] guards_for_facts [of g u x] by blast
next
  case DkAntiDependency
  consider "observation_guard ix s a b = Inr ev"
    | g c c' held where "protection t b = Some (g, c)" "ev = guard_evidence t g c' [] held"
    using assms DkAntiDependency
    by (auto simp: evidence_for_def read_write_evidence_def
        split: option.splits sum.splits if_splits)
  then show ?thesis
  proof cases
    case 1
    then show ?thesis
      using observation_guard_sound [OF 1] unfolding protects_observation_def by blast
  next
    case 2
    then show ?thesis by (meson guard_named_evidence guards_for_facts insertI1 insertI2 protection_facts)
  qed
qed

section \<open>Properties\<close>


text \<open>
  A dependency is reported unordered exactly when a gap says why: no evidence without an
  empty gap list, no refusal without an explanation.
\<close>

theorem gaps_explain_refusals:
  "dp_gaps (dependency_of ix k s a t b ol) \<noteq> []
     \<longleftrightarrow> dp_evidence (dependency_of ix k s a t b ol) = EvNone"
  using evidence_for_gaps [of ix k "ci_templates ix ! s" a "ci_templates ix ! t" b]
  by (auto simp: dependency_of_def Let_def case_prod_unfold overlap_gaps_def)

text \<open>
  A conditional mutation is commit-order evidence only when it is a guard of one of the two
  templates that pins one instance, and never when it is a fence.
\<close>

theorem guard_evidence_is_a_guard:
  assumes "dp_evidence (dependency_of ix k s a t b ol) = EvConditionalMutation r st obj mech cov cf held"
  shows "mech \<noteq> MkFence
    \<and> (\<exists>u \<in> {s, t}. \<exists>g \<in> set (tt_mutations (ci_templates ix ! u)).
         tt_reference (ci_templates ix ! u) = r \<and> cm_step g = st \<and> cm_mechanism g = mech
         \<and> cm_identified g \<and> os_object (cm_target g) = obj)"
proof -
  let ?ev = "EvConditionalMutation r st obj mech cov cf held"
  obtain u g where u: "u \<in> {ci_templates ix ! s, ci_templates ix ! t}" "g \<in> set (tt_mutations u)"
    "cm_identified g" "cm_mechanism g \<noteq> MkFence" "guard_named u g ?ev"
    using evidence_for_guard [of ix k "ci_templates ix ! s" a "ci_templates ix ! t" b ?ev] assms by auto
  from u(5) have "r = tt_reference u" "cm_step g = st" "cm_mechanism g = mech" "os_object (cm_target g) = obj"
    by (auto simp: guard_named_def)
  with u show ?thesis by blast
qed

text \<open>
  Under declared isolation on both sides, write-read and write-write dependencies are always
  ordered, and so are the anti-dependencies of a template that only reads one snapshot.
\<close>

theorem isolation_orders_dependencies:
  assumes "isolation_of (ci_templates ix ! s) \<noteq> IsoUnspecified"
    and "isolation_of (ci_templates ix ! t) \<noteq> IsoUnspecified"
    and "k = DkAntiDependency \<Longrightarrow> isolation_of (ci_templates ix ! s) = IsoSnapshot
           \<and> (\<forall>x \<in> set (tt_accesses (ci_templates ix ! s)). \<not> mode_writes (acc_mode x))"
  shows "constrained (dependency_of ix k s a t b ol)"
proof (cases k)
  case DkAntiDependency
  then have "serializes_at_its_read ix (ci_templates ix ! s)"
    using assms(3) by (simp add: serializes_at_its_read_def)
  then show ?thesis
    using DkAntiDependency observation_guard_not_None [of ix "ci_templates ix ! s" a b]
    by (auto simp: constrained_def evidence_for_def read_write_evidence_def split: sum.splits)
qed (use assms in \<open>auto simp: constrained_def evidence_for_def\<close>)

text \<open>
  Strict-lock evidence is real: the lock a template is credited with is one it declares on
  the accessed object, taken at an earlier step, exclusive where the access mutates, and
  whatever instance the access selects, the lock selects too.
\<close>

theorem covering_lock_sound:
  assumes "covering_lock t a exclusive = Inr l"
  shows "\<exists>k \<in> set (tt_locks t). la_step k = lr_step l \<and> la_mode k = lr_mode l
    \<and> la_step k < acc_step a \<and> la_object k = acc_object a \<and> (exclusive \<longrightarrow> la_mode k = Exclusive)
    \<and> (\<forall>env inst. holds env inst (os_predicate (acc_selector a)) \<longrightarrow> holds env inst (os_predicate (la_selector k)))"
proof -
  obtain k where "k \<in> set (tt_locks t)" "lock_applies a exclusive k" "la_step k < acc_step a"
    "l = \<lparr>lr_transaction = tt_reference t, lr_step = la_step k, lr_mode = la_mode k\<rparr>"
    using lock_loop_sound assms unfolding covering_lock_def by blast
  then show ?thesis
    by (intro bexI [of _ k]) (auto simp: lock_applies_def intro: lock_covers_sound)
qed

text \<open>
  C11. An observation is credited only when it cannot go stale unnoticed: the credited guard
  mutates the same identified instance at or before the observation, or later compares the
  version (which no insertion can repeat) or fields containing every cell the two accesses
  share; and every comparison it is credited for names an earlier read of that very instance.
\<close>

theorem guarded_observation_protected:
  assumes "t \<in> set (ci_templates (build_index m))" "observation_guard (build_index m) t a b = Inr ev"
  shows "\<exists>g. protects_observation (build_index m) t a b g \<and> guard_named t g ev
    \<and> (\<forall>c \<in> set (cm_comparisons g). \<forall>ob. cf_observed c = Some ob \<longrightarrow>
         obs_step ob < cm_step g
         \<and> cf_expected c = SvValue (ValueRef (VsTransactionRead (obs_read ob)) (cf_field c))
         \<and> (\<exists>r. tx_steps (tt_transaction t) ! obs_step ob = TsRead r \<and> rd_bind r = obs_read ob
              \<and> rd_target r = cm_target g \<and> selection_covers (rd_fields r) (cf_field c)))"
proof -
  obtain g where g: "protects_observation (build_index m) t a b g" "guard_named t g ev"
    using observation_guard_sound [OF assms(2)] by blast
  moreover have "g \<in> set (tt_mutations t)" using g(1) by (simp add: protects_observation_def)
  ultimately show ?thesis
    using built_comparison_observed [OF assms(1)] by blast
qed

section \<open>Witnesses\<close>

definition order_index :: conflict_index where
  "order_index = build_index order_model"

definition reader_template :: tx_template where
  "reader_template = ci_templates order_index ! 0"

definition writer_template :: tx_template where
  "writer_template = ci_templates order_index ! 1"

definition reader_ref :: tx_ref where
  "reader_ref = \<lparr>xr_operation = Id ''pay'', xr_transaction = Id ''reader'', xr_location = [Hop 0 None]\<rparr>"

text \<open>The reader compares the version it read, so its read survives the writer's update.\<close>

lemma reader_guarded:
  "observation_guard order_index reader_template (tt_accesses reader_template ! 0)
       (tt_accesses writer_template ! 0)
     = Inr (EvConditionalMutation reader_ref 1 (Id ''Order'') MkCompareAndSet
              (GcObservedVersion (Id ''seen'') 0 (FieldPath [''version'']) False)
              [FieldPath [''version'']] None)"
  by code_simp

theorem guarded_observation_protected_witness:
  "\<exists>g. protects_observation order_index reader_template (tt_accesses reader_template ! 0)
         (tt_accesses writer_template ! 0) g \<and> cm_step g = 1"
proof -
  have "reader_template \<in> set (ci_templates (build_index order_model))"
    unfolding reader_template_def order_index_def by (rule nth_mem) code_simp
  from guarded_observation_protected [OF this reader_guarded [unfolded order_index_def]]
  show ?thesis by (auto simp: order_index_def guard_named_def)
qed

theorem guard_evidence_is_a_guard_witness:
  "\<exists>u \<in> {0, 1}. \<exists>g \<in> set (tt_mutations (ci_templates order_index ! u)).
     tt_reference (ci_templates order_index ! u) = reader_ref \<and> cm_step g = 1 \<and> cm_identified g"
proof -
  have "dp_evidence (dependency_of order_index DkAntiDependency 0 (tt_accesses reader_template ! 0) 1
       (tt_accesses writer_template ! 0) \<lparr>ol_selector = SoUnknown, ol_fields = FoOverlapping\<rparr>)
     = EvConditionalMutation reader_ref 1 (Id ''Order'') MkCompareAndSet
              (GcObservedVersion (Id ''seen'') 0 (FieldPath [''version'']) False)
              [FieldPath [''version'']] None"
    by code_simp
  from guard_evidence_is_a_guard [OF this] show ?thesis by auto
qed

theorem isolation_orders_dependencies_witness:
  "constrained (dependency_of order_index DkWriteRead 1 (tt_accesses writer_template ! 0) 0
     (tt_accesses reader_template ! 0) \<lparr>ol_selector = SoUnknown, ol_fields = FoOverlapping\<rparr>)"
proof -
  have "isolation_of (ci_templates order_index ! 1) \<noteq> IsoUnspecified"
    "isolation_of (ci_templates order_index ! 0) \<noteq> IsoUnspecified"
    by code_simp+
  then show ?thesis by (rule isolation_orders_dependencies) simp
qed

definition locked_template :: tx_template where
  "locked_template = template_of order_index reader_ref
     (sample_tx ''locked'' IsoUnspecified
        [TsLock \<lparr>lk_target = \<lparr>os_object = Id ''Order'', os_predicate = PAll\<rparr>, lk_mode = Exclusive,
                 lk_order = LoUnspecified\<rparr>,
         TsUpdate \<lparr>up_target = order_selector, up_fields = [], up_values = DUnspecified\<rparr>])"

theorem covering_lock_sound_witness:
  "\<exists>k \<in> set (tt_locks locked_template). la_step k = 0 \<and> la_mode k = Exclusive
     \<and> la_object k = Id ''Order''"
proof -
  have "covering_lock locked_template (tt_accesses locked_template ! 0) True
      = Inr \<lparr>lr_transaction = reader_ref, lr_step = 0, lr_mode = Exclusive\<rparr>"
    by code_simp
  moreover have "acc_object (tt_accesses locked_template ! 0) = Id ''Order''" by code_simp
  ultimately show ?thesis using covering_lock_sound by fastforce
qed

end
