(* ===== verification/Analysis_Cycles.thy ===== *)
theory Analysis_Cycles
  imports Analysis_Evidence
begin

text \<open>
  Cycles of the dependency graph (\<open>strongly_connected_components\<close>, \<open>cyclic_components\<close> and
  \<open>unconstrained_cycles\<close> of \<open>analyzer/verification/transaction_conflicts.rs\<close>): Tarjan's
  algorithm with its vectors, stack and low links, and its correctness. The stack is the
  code's vector with its last element first. Node numbers out of range are a panic in the
  code; every edge is a pair of positions below \<open>count\<close>, and the model skips the others.
\<close>

section \<open>The algorithm\<close>

record scc_state =
  sc_index :: nat
  sc_indices :: "nat option list"
  sc_lowlink :: "nat list"
  sc_on_stack :: "bool list"
  sc_stack :: "nat list"
  sc_components :: "nat list list"

definition is_unvisited :: "scc_state \<Rightarrow> nat \<Rightarrow> bool" where
  "is_unvisited st v \<longleftrightarrow> v < length (sc_indices st) \<and> sc_indices st ! v = None"

definition unvisited :: "scc_state \<Rightarrow> nat set" where
  "unvisited st = {v. is_unvisited st v}"

definition enter_node :: "nat \<Rightarrow> scc_state \<Rightarrow> scc_state" where
  "enter_node v st = st\<lparr>
     sc_indices := (sc_indices st)[v := Some (sc_index st)],
     sc_lowlink := (sc_lowlink st)[v := sc_index st],
     sc_index := Suc (sc_index st),
     sc_stack := v # sc_stack st,
     sc_on_stack := (sc_on_stack st)[v := True]\<rparr>"

definition successors :: "(nat \<times> nat) list \<Rightarrow> nat \<Rightarrow> nat list" where
  "successors es v = map snd (filter (\<lambda>e. fst e = v) es)"

definition relax :: "nat \<Rightarrow> nat \<Rightarrow> scc_state \<Rightarrow> scc_state" where
  "relax v low st = st\<lparr>sc_lowlink := (sc_lowlink st)[v := min (sc_lowlink st ! v) low]\<rparr>"

text \<open>The popping loop: the members from the top down to the node, and the rest.\<close>

fun pop_until :: "nat \<Rightarrow> nat list \<Rightarrow> nat list \<times> nat list" where
  "pop_until v [] = ([], [])"
| "pop_until v (x # xs) =
     (if x = v then ([x], xs) else (let (c, r) = pop_until v xs in (x # c, r)))"

definition close_node :: "nat \<Rightarrow> scc_state \<Rightarrow> scc_state" where
  "close_node v st =
     (if Some (sc_lowlink st ! v) = sc_indices st ! v then
        (let (c, r) = pop_until v (sc_stack st)
         in st\<lparr>sc_stack := r,
               sc_on_stack := fold (\<lambda>m os. os[m := False]) c (sc_on_stack st),
               sc_components := sc_components st @ [sort c]\<rparr>)
      else st)"

lemma unvisited_enter: "unvisited (enter_node v st) = unvisited st - {v}"
  by (cases "v < length (sc_indices st)")
     (auto simp: unvisited_def is_unvisited_def enter_node_def nth_list_update split: if_splits)

lemma unvisited_relax [simp]: "unvisited (relax v l st) = unvisited st"
  by (simp add: unvisited_def is_unvisited_def relax_def)

lemma unvisited_close [simp]: "unvisited (close_node v st) = unvisited st"
  by (simp add: unvisited_def is_unvisited_def close_node_def case_prod_unfold Let_def)

lemma finite_unvisited [simp]: "finite (unvisited st)"
  by (simp add: unvisited_def is_unvisited_def)

text \<open>\<open>visit\<close> and its loop over the successors.\<close>

function (sequential)
  visit :: "(nat \<times> nat) list \<Rightarrow> nat \<Rightarrow> scc_state \<Rightarrow> scc_state"
and visit_successors :: "(nat \<times> nat) list \<Rightarrow> nat \<Rightarrow> nat list \<Rightarrow> scc_state \<Rightarrow> scc_state"
where
  "visit es v st =
     (if \<not> is_unvisited st v then st
      else close_node v (visit_successors es v (successors es v) (enter_node v st)))"
| "visit_successors es v [] st = st"
| "visit_successors es v (w # ws) st =
     (if is_unvisited st w then
        (let st' = visit es w st
         in visit_successors es v ws (relax v (sc_lowlink st' ! w) st'))
      else if w < length (sc_indices st) \<and> sc_on_stack st ! w
      then visit_successors es v ws (relax v (the (sc_indices st ! w)) st)
      else visit_successors es v ws st)"
  by pat_completeness auto

lemma visit_unvisited:
  "visit_visit_successors_dom (Inl (es, v, st)) \<Longrightarrow> unvisited (visit es v st) \<subseteq> unvisited st"
  "visit_visit_successors_dom (Inr (es, v, ws, st)) \<Longrightarrow>
     unvisited (visit_successors es v ws st) \<subseteq> unvisited st"
proof (induction es v st and es v ws st rule: visit_visit_successors.pinduct)
  case (1 es v st)
  then show ?case
    by (auto simp: visit.psimps unvisited_enter)
next
  case (3 es v w ws st)
  then show ?case
    by (simp add: visit_successors.psimps Let_def) blast
qed (simp add: visit_successors.psimps)

termination visit
proof (relation "measures [\<lambda>x. case x of Inl (es, v, st) \<Rightarrow> card (unvisited st)
                                       | Inr (es, v, ws, st) \<Rightarrow> card (unvisited st),
                          \<lambda>x. case x of Inl (es, v, st) \<Rightarrow> 0 | Inr (es, v, ws, st) \<Rightarrow> Suc (length ws)]")
  fix es v st assume "\<not> \<not> is_unvisited st v"
  then have "card (unvisited (enter_node v st)) < card (unvisited st)"
    by (auto simp: unvisited_enter intro!: card_Diff1_less) (simp add: unvisited_def)
  then show "(Inr (es, v, successors es v, enter_node v st), Inl (es, v, st))
      \<in> measures [\<lambda>x. case x of Inl (es, v, st) \<Rightarrow> card (unvisited st)
                                       | Inr (es, v, ws, st) \<Rightarrow> card (unvisited st),
                          \<lambda>x. case x of Inl (es, v, st) \<Rightarrow> 0 | Inr (es, v, ws, st) \<Rightarrow> Suc (length ws)]"
    by simp
next
  fix es v w ws st x
  assume "visit_visit_successors_dom (Inl (es, w, st))" "x = visit es w st"
  then have "card (unvisited x) \<le> card (unvisited st)"
    using visit_unvisited(1) [of es w st] by (intro card_mono) simp_all
  then show "(Inr (es, v, ws, relax v (sc_lowlink x ! w) x), Inr (es, v, w # ws, st))
      \<in> measures [\<lambda>x. case x of Inl (es, v, st) \<Rightarrow> card (unvisited st)
                                       | Inr (es, v, ws, st) \<Rightarrow> card (unvisited st),
                          \<lambda>x. case x of Inl (es, v, st) \<Rightarrow> 0 | Inr (es, v, ws, st) \<Rightarrow> Suc (length ws)]"
    by (auto simp: le_less)
qed auto

declare visit.simps [simp del] visit_successors.simps(2) [simp del]

definition initial_scc :: "nat \<Rightarrow> scc_state" where
  "initial_scc n = \<lparr>sc_index = 0, sc_indices = replicate n None, sc_lowlink = replicate n 0,
     sc_on_stack = replicate n False, sc_stack = [], sc_components = []\<rparr>"

definition scc_run :: "nat \<Rightarrow> (nat \<times> nat) list \<Rightarrow> nat list \<Rightarrow> scc_state \<Rightarrow> scc_state" where
  "scc_run n es = fold (\<lambda>v st. if is_unvisited st v then visit es v st else st)"

definition strongly_connected_components :: "nat \<Rightarrow> (nat \<times> nat) list \<Rightarrow> nat list list" where
  "strongly_connected_components n es = sort (sc_components (scc_run n es [0..<n] (initial_scc n)))"

section \<open>Correctness\<close>

abbreviation reach :: "(nat \<times> nat) list \<Rightarrow> nat \<Rightarrow> nat \<Rightarrow> bool" where
  "reach es x y \<equiv> (x, y) \<in> (set es)\<^sup>*"

definition is_scc :: "(nat \<times> nat) list \<Rightarrow> nat set \<Rightarrow> bool" where
  "is_scc es C \<longleftrightarrow> (\<exists>v. C = {w. reach es v w \<and> reach es w v})"

definition num :: "scc_state \<Rightarrow> nat \<Rightarrow> nat" where
  "num st v = the (sc_indices st ! v)"

definition low :: "scc_state \<Rightarrow> nat \<Rightarrow> nat" where
  "low st v = sc_lowlink st ! v"

definition finished :: "scc_state \<Rightarrow> nat set" where
  "finished st = \<Union> (set ` set (sc_components st))"

abbreviation stack_set :: "scc_state \<Rightarrow> nat set" where
  "stack_set st \<equiv> set (sc_stack st)"

text \<open>The visited nodes are those on the stack and those in a component.\<close>

definition scc_shape :: "nat \<Rightarrow> scc_state \<Rightarrow> bool" where
  "scc_shape n st \<longleftrightarrow>
     length (sc_indices st) = n \<and> length (sc_lowlink st) = n \<and> length (sc_on_stack st) = n
     \<and> distinct (sc_stack st) \<and> stack_set st \<subseteq> {..<n} \<and> finished st \<subseteq> {..<n}
     \<and> stack_set st \<inter> finished st = {}
     \<and> (\<forall>v < n. is_unvisited st v \<longleftrightarrow> v \<notin> stack_set st \<and> v \<notin> finished st)
     \<and> (\<forall>v < n. sc_on_stack st ! v \<longleftrightarrow> v \<in> stack_set st)
     \<and> sorted_wrt (\<lambda>x y. num st y < num st x) (sc_stack st)
     \<and> (\<forall>v \<in> stack_set st. num st v < sc_index st)"

abbreviation visited :: "scc_state \<Rightarrow> nat \<Rightarrow> bool" where
  "visited st v \<equiv> v \<in> stack_set st \<or> v \<in> finished st"

text \<open>\<open>G\<close> is the recursion path.\<close>

definition scc_paths :: "(nat \<times> nat) list \<Rightarrow> nat set \<Rightarrow> scc_state \<Rightarrow> bool" where
  "scc_paths es G st \<longleftrightarrow>
     G \<subseteq> stack_set st
     \<and> (\<forall>v w. visited st v \<longrightarrow> v \<notin> G \<longrightarrow> (v, w) \<in> set es \<longrightarrow> visited st w)
     \<and> (\<forall>x \<in> stack_set st. \<forall>y \<in> stack_set st. num st x \<le> num st y \<longrightarrow> reach es x y)
     \<and> (\<forall>y \<in> stack_set st. \<exists>g \<in> G. num st g \<le> num st y \<and> reach es y g)"

definition scc_done :: "(nat \<times> nat) list \<Rightarrow> scc_state \<Rightarrow> bool" where
  "scc_done es st \<longleftrightarrow>
     (\<forall>c \<in> set (sc_components st). is_scc es (set c) \<and> sorted c \<and> distinct c)
     \<and> distinct (sc_components st)"

definition scc_inv :: "nat \<Rightarrow> (nat \<times> nat) list \<Rightarrow> nat set \<Rightarrow> scc_state \<Rightarrow> bool" where
  "scc_inv n es G st \<longleftrightarrow> scc_shape n st \<and> scc_paths es G st \<and> scc_done es st"

text \<open>What a call leaves of the state it started from.\<close>

definition grows :: "nat set \<Rightarrow> scc_state \<Rightarrow> scc_state \<Rightarrow> bool" where
  "grows V st st' \<longleftrightarrow>
     (\<exists>X. sc_stack st' = X @ sc_stack st) \<and> finished st \<subseteq> finished st'
     \<and> (\<forall>u. visited st u \<longrightarrow> num st' u = num st u \<and> (u \<notin> V \<longrightarrow> low st' u = low st u))"

definition loop_inv ::
    "nat \<Rightarrow> (nat \<times> nat) list \<Rightarrow> nat set \<Rightarrow> nat list \<Rightarrow> nat \<Rightarrow> nat set \<Rightarrow> scc_state \<Rightarrow> bool" where
  "loop_inv n es G S0 v B st \<longleftrightarrow>
     scc_inv n es (insert v G) st \<and> G \<subseteq> set S0 \<and> (\<forall>w \<in> B. visited st w)
     \<and> low st v \<le> num st v
     \<and> (\<exists>y \<in> set (v # S0). num st y = low st v \<and> reach es v y)
     \<and> (\<forall>w \<in> B. w \<in> set S0 \<longrightarrow> low st v \<le> num st w)
     \<and> (\<exists>X. sc_stack st = X @ v # S0
          \<and> (\<forall>x \<in> set X. \<forall>y \<in> set S0. (x, y) \<in> set es \<longrightarrow> low st v \<le> num st y))"

definition visit_post ::
    "nat \<Rightarrow> (nat \<times> nat) list \<Rightarrow> nat set \<Rightarrow> nat \<Rightarrow> scc_state \<Rightarrow> scc_state \<Rightarrow> bool" where
  "visit_post n es G v st st' \<longleftrightarrow>
     scc_inv n es G st' \<and> grows {} st st' \<and> visited st' v
     \<and> (v \<in> stack_set st' \<longrightarrow> (\<exists>y \<in> stack_set st. num st y = low st' v \<and> reach es v y))
     \<and> (v \<notin> stack_set st' \<longrightarrow> (\<forall>u \<in> stack_set st. num st u < low st' v))
     \<and> (\<exists>X. sc_stack st' = X @ sc_stack st
          \<and> (\<forall>x \<in> set X. \<forall>y \<in> stack_set st. (x, y) \<in> set es \<longrightarrow> low st' v \<le> num st y))"

lemma scc_shapeD:
  assumes "scc_shape n st"
  shows "length (sc_indices st) = n" "length (sc_lowlink st) = n" "length (sc_on_stack st) = n"
    "distinct (sc_stack st)" "stack_set st \<subseteq> {..<n}" "finished st \<subseteq> {..<n}"
    "stack_set st \<inter> finished st = {}"
    "v < n \<Longrightarrow> is_unvisited st v \<longleftrightarrow> \<not> visited st v"
    "v < n \<Longrightarrow> sc_on_stack st ! v \<longleftrightarrow> v \<in> stack_set st"
    "sorted_wrt (\<lambda>x y. num st y < num st x) (sc_stack st)"
    "v \<in> stack_set st \<Longrightarrow> num st v < sc_index st"
  using assms unfolding scc_shape_def by auto

lemma scc_invD:
  assumes "scc_inv n es G st"
  shows "scc_shape n st" "scc_paths es G st" "scc_done es st" "G \<subseteq> stack_set st"
    "visited st v \<Longrightarrow> v \<notin> G \<Longrightarrow> (v, w) \<in> set es \<Longrightarrow> visited st w"
    "x \<in> stack_set st \<Longrightarrow> y \<in> stack_set st \<Longrightarrow> num st x \<le> num st y \<Longrightarrow> reach es x y"
    "y \<in> stack_set st \<Longrightarrow> \<exists>g \<in> G. num st g \<le> num st y \<and> reach es y g"
  using assms unfolding scc_inv_def scc_paths_def by blast+

text \<open>Relaxing a low link changes nothing but that low link.\<close>

lemma relax_simps [simp]:
  "sc_stack (relax v l st) = sc_stack st" "finished (relax v l st) = finished st"
  "num (relax v l st) = num st" "sc_index (relax v l st) = sc_index st"
  "sc_indices (relax v l st) = sc_indices st" "sc_on_stack (relax v l st) = sc_on_stack st"
  "is_unvisited (relax v l st) = is_unvisited st" "sc_components (relax v l st) = sc_components st"
  "length (sc_lowlink (relax v l st)) = length (sc_lowlink st)"
  by (auto simp: relax_def finished_def num_def is_unvisited_def fun_eq_iff)

lemma low_relax:
  "v < length (sc_lowlink st) \<Longrightarrow>
     low (relax v l st) u = (if u = v then min (low st v) l else low st u)"
  by (simp add: low_def relax_def)

lemma scc_inv_relax [simp]: "scc_inv n es G (relax v l st) = scc_inv n es G st"
  by (simp add: scc_inv_def scc_shape_def scc_paths_def scc_done_def)

lemma grows_refl [simp]: "grows V st st"
  by (simp add: grows_def)

lemma grows_trans:
  assumes "grows V a b" "grows V b c"
  shows "grows V a c"
proof -
  obtain X Y where "sc_stack b = X @ sc_stack a" "sc_stack c = Y @ sc_stack b"
    using assms by (auto simp: grows_def)
  moreover have "visited b u" if "visited a u" for u
    using that assms(1) by (auto simp: grows_def)
  ultimately show ?thesis
    using assms unfolding grows_def by (auto intro: exI [of _ "Y @ X"])
qed

lemma grows_mono: "grows U a b \<Longrightarrow> U \<subseteq> V \<Longrightarrow> grows V a b"
  by (auto simp: grows_def)

lemma grows_relax:
  "grows V a b \<Longrightarrow> v \<in> V \<Longrightarrow> v < length (sc_lowlink b) \<Longrightarrow> grows V a (relax v l b)"
  by (auto simp: grows_def low_relax)

lemma grows_visited: "grows V a b \<Longrightarrow> visited a u \<Longrightarrow> visited b u"
  by (auto simp: grows_def)

lemma grows_num: "grows V a b \<Longrightarrow> visited a u \<Longrightarrow> num b u = num a u"
  by (auto simp: grows_def)

lemma grows_low: "grows V a b \<Longrightarrow> visited a u \<Longrightarrow> u \<notin> V \<Longrightarrow> low b u = low a u"
  by (auto simp: grows_def)

text \<open>The order of the stack.\<close>

lemma stack_order:
  assumes "scc_shape n st" "sc_stack st = X @ v # S0"
  shows "x \<in> set X \<Longrightarrow> num st v < num st x" "y \<in> set S0 \<Longrightarrow> num st y < num st v"
    "x \<in> set X \<Longrightarrow> y \<in> set S0 \<Longrightarrow> num st y < num st x"
    "v \<notin> set X" "v \<notin> set S0" "x \<in> set X \<Longrightarrow> x \<notin> set S0"
  using scc_shapeD(4,10) [OF assms(1)] assms(2) by (auto simp: sorted_wrt_append)

lemma enter_simps:
  assumes "v < length (sc_indices st)" "v < length (sc_lowlink st)"
  shows "num (enter_node v st) u = (if u = v then sc_index st else num st u)"
    "low (enter_node v st) u = (if u = v then sc_index st else low st u)"
    "sc_stack (enter_node v st) = v # sc_stack st" "finished (enter_node v st) = finished st"
    "sc_components (enter_node v st) = sc_components st"
  using assms by (simp_all add: enter_node_def num_def low_def finished_def)

lemma enter_shape:
  assumes "scc_shape n st" "v < n" "\<not> visited st v"
  shows "scc_shape n (enter_node v st)"
proof -
  note sh = scc_shapeD [OF assms(1)]
  have len: "v < length (sc_indices st)" "v < length (sc_lowlink st)" using sh(1,2) assms(2) by auto
  have unv: "is_unvisited (enter_node v st) u \<longleftrightarrow> u \<noteq> v \<and> is_unvisited st u" for u
    using unvisited_enter [of v st] by (auto simp: unvisited_def)
  have on: "sc_on_stack (enter_node v st) ! u = (if u = v then True else sc_on_stack st ! u)" for u
    using assms(2) sh(3) by (simp add: enter_node_def)
  have ne: "\<forall>x \<in> stack_set st. x \<noteq> v" using assms(3) by auto
  have srt: "sorted_wrt (\<lambda>x y. num (enter_node v st) y < num (enter_node v st) x) (sc_stack st)"
    using sh(10) by (rule sorted_wrt_mono_rel [rotated]) (use ne in \<open>auto simp: enter_simps [OF len]\<close>)
  have bd: "\<forall>u \<in> stack_set st. num st u < sc_index st" using sh(11) by blast
  show ?thesis
    unfolding scc_shape_def
    using sh(1-9) srt bd ne assms(2,3)
    by (auto simp: enter_simps [OF len] unv on less_SucI) (auto simp: enter_node_def less_SucI)
qed

lemma enter_inv:
  assumes inv: "scc_inv n es G st" and v: "v < n" "\<not> visited st v"
    and acc: "\<forall>g \<in> G. reach es g v"
  shows "loop_inv n es G (sc_stack st) v {} (enter_node v st)" "grows {v} st (enter_node v st)"
proof -
  note sh = scc_shapeD [OF scc_invD(1) [OF inv]]
  have len: "v < length (sc_indices st)" "v < length (sc_lowlink st)" using sh(1,2) v by auto
  note e = enter_simps [OF len]
  have shape: "scc_shape n (enter_node v st)"
    using enter_shape [OF scc_invD(1) [OF inv] v] .
  have to_v: "reach es x v" if "x \<in> stack_set st" for x
    using scc_invD(7) [OF inv that] acc by (meson rtrancl_trans)
  have "scc_paths es (insert v G) (enter_node v st)"
    unfolding scc_paths_def
  proof (intro conjI allI impI ballI)
    show "insert v G \<subseteq> stack_set (enter_node v st)" using scc_invD(4) [OF inv] by (auto simp: e)
    show "visited (enter_node v st) w" if "visited (enter_node v st) u" "u \<notin> insert v G" "(u, w) \<in> set es" for u w
      using scc_invD(5) [OF inv, of u w] that by (auto simp: e)
    show "reach es x y" if "x \<in> stack_set (enter_node v st)" "y \<in> stack_set (enter_node v st)"
      "num (enter_node v st) x \<le> num (enter_node v st) y" for x y
      using that to_v scc_invD(6) [OF inv, of x y] sh(11) [of y] v
      by (auto simp: e split: if_splits)
    show "\<exists>g \<in> insert v G. num (enter_node v st) g \<le> num (enter_node v st) y \<and> reach es y g"
      if y: "y \<in> stack_set (enter_node v st)" for y
    proof (cases "y = v")
      case False
      then obtain g where "g \<in> G" "num st g \<le> num st y" "reach es y g"
        using y scc_invD(7) [OF inv, of y] by (auto simp: e)
      moreover have "g \<noteq> v" using \<open>g \<in> G\<close> scc_invD(4) [OF inv] v by auto
      ultimately show ?thesis using False by (auto simp: e)
    qed auto
  qed
  moreover have "scc_done es (enter_node v st)"
    using scc_invD(3) [OF inv] by (simp add: scc_done_def e)
  ultimately have "scc_inv n es (insert v G) (enter_node v st)" using shape by (simp add: scc_inv_def)
  then show "loop_inv n es G (sc_stack st) v {} (enter_node v st)"
    unfolding loop_inv_def using scc_invD(4) [OF inv] by (auto simp: e)
  show "grows {v} st (enter_node v st)"
    using v by (auto simp: grows_def e)
qed

text \<open>The three cases of the loop over the successors.\<close>

lemma loop_invD:
  assumes "loop_inv n es G S0 v B st"
  shows "scc_inv n es (insert v G) st" "G \<subseteq> set S0" "w \<in> B \<Longrightarrow> visited st w"
    "low st v \<le> num st v" "\<exists>y \<in> set (v # S0). num st y = low st v \<and> reach es v y"
    "w \<in> B \<Longrightarrow> w \<in> set S0 \<Longrightarrow> low st v \<le> num st w"
    "\<exists>X. sc_stack st = X @ v # S0
          \<and> (\<forall>x \<in> set X. \<forall>y \<in> set S0. (x, y) \<in> set es \<longrightarrow> low st v \<le> num st y)"
  using assms unfolding loop_inv_def by blast+

lemma loop_inv_stack:
  assumes "loop_inv n es G S0 v B st"
  shows "v \<in> stack_set st" "set S0 \<subseteq> stack_set st" "v < length (sc_lowlink st)"
    "y \<in> set S0 \<Longrightarrow> num st y < num st v"
    "w \<in> stack_set st \<Longrightarrow> num st w < num st v \<Longrightarrow> w \<in> set S0"
proof -
  obtain X where X: "sc_stack st = X @ v # S0" using loop_invD(7) [OF assms] by blast
  note sh = scc_invD(1) [OF loop_invD(1) [OF assms]]
  show "v \<in> stack_set st" "set S0 \<subseteq> stack_set st" using X by auto
  then show "v < length (sc_lowlink st)" using scc_shapeD(2,5) [OF sh] by auto
  show "y \<in> set S0 \<Longrightarrow> num st y < num st v" using stack_order(2) [OF sh X] .
  show "w \<in> set S0" if "w \<in> stack_set st" "num st w < num st v"
    using that X stack_order(1) [OF sh X, of w] by auto
qed

lemma loop_skip:
  assumes "loop_inv n es G S0 v B st" "visited st w" "w \<notin> stack_set st"
  shows "loop_inv n es G S0 v (insert w B) st"
  using assms loop_inv_stack(2) [OF assms(1)] unfolding loop_inv_def by auto

lemma loop_relax:
  assumes loop: "loop_inv n es G S0 v B st" and edge: "(v, w) \<in> set es" and w: "w \<in> stack_set st"
  shows "loop_inv n es G S0 v (insert w B) (relax v (num st w) st)"
proof -
  note len = loop_inv_stack(3) [OF loop]
  have lows: "low (relax v (num st w) st) v = min (low st v) (num st w)" by (simp add: low_relax len)
  have ex: "\<exists>y \<in> set (v # S0). num st y = min (low st v) (num st w) \<and> reach es v y"
  proof (cases "low st v \<le> num st w")
    case True
    then show ?thesis using loop_invD(5) [OF loop] by (simp add: min_def)
  next
    case False
    then have "w \<in> set S0"
      using loop_inv_stack(5) [OF loop w] loop_invD(4) [OF loop] by simp
    then show ?thesis using edge False by (auto simp: min_def intro!: bexI [of _ w])
  qed
  obtain X where X: "sc_stack st = X @ v # S0"
    "\<forall>x \<in> set X. \<forall>y \<in> set S0. (x, y) \<in> set es \<longrightarrow> low st v \<le> num st y"
    using loop_invD(7) [OF loop] by blast
  show ?thesis
    unfolding loop_inv_def scc_inv_relax relax_simps lows
    using loop_invD(1,2) [OF loop] loop_invD(3,6) [OF loop] loop_invD(4) [OF loop] w ex X
    by (fastforce simp: min_le_iff_disj)
qed

lemma loop_tree:
  assumes loop: "loop_inv n es G S0 v B st" and edge: "(v, w) \<in> set es" and w: "\<not> visited st w"
    and post: "visit_post n es (insert v G) w st st'"
  shows "loop_inv n es G S0 v (insert w B) (relax v (low st' w) st')"
proof -
  have inv': "scc_inv n es (insert v G) st'" and g: "grows {} st st'" and w': "visited st' w"
    using post by (auto simp: visit_post_def)
  have vis: "visited st v" "\<forall>y \<in> set S0. visited st y" using loop_inv_stack(1,2) [OF loop] by auto
  note nums = grows_num [OF g]
  have lowv: "low st' v = low st v" using grows_low [OF g vis(1)] by simp
  obtain X where X: "sc_stack st = X @ v # S0"
    "\<forall>x \<in> set X. \<forall>y \<in> set S0. (x, y) \<in> set es \<longrightarrow> low st v \<le> num st y"
    using loop_invD(7) [OF loop] by blast
  obtain Y where Y: "sc_stack st' = Y @ sc_stack st"
    "\<forall>x \<in> set Y. \<forall>y \<in> stack_set st. (x, y) \<in> set es \<longrightarrow> low st' w \<le> num st y"
    using post by (auto simp: visit_post_def)
  have "stack_set st \<subseteq> stack_set st'" using Y(1) by auto
  then have len: "v < length (sc_lowlink st')"
    using scc_shapeD(2,5) [OF scc_invD(1) [OF inv']] loop_inv_stack(1) [OF loop] by auto
  then have lows: "low (relax v (low st' w) st') v = min (low st v) (low st' w)"
    by (simp add: low_relax lowv)
  have ex: "\<exists>y \<in> set (v # S0). num st y = min (low st v) (low st' w) \<and> reach es v y"
  proof (cases "low st v \<le> low st' w")
    case True
    then show ?thesis using loop_invD(5) [OF loop] by (simp add: min_def)
  next
    case False
    have "w \<in> stack_set st'"
    proof (rule ccontr)
      assume "w \<notin> stack_set st'"
      then have "num st v < low st' w"
        using post loop_inv_stack(1) [OF loop] by (auto simp: visit_post_def)
      then show False using False loop_invD(4) [OF loop] by simp
    qed
    then obtain y where y: "y \<in> stack_set st" "num st y = low st' w" "reach es w y"
      using post by (auto simp: visit_post_def)
    then have "y \<in> set S0"
      using loop_inv_stack(5) [OF loop y(1)] loop_invD(4) [OF loop] False by simp
    moreover have "reach es v y" using edge y(3) by (rule converse_rtrancl_into_rtrancl)
    ultimately show ?thesis using y(2) False by (auto simp: min_def intro!: bexI [of _ y])
  qed
  have wS0: "w \<notin> set S0" using w loop_inv_stack(2) [OF loop] by auto
  have nS0: "num st' y = num st y" if "y \<in> set (v # S0)" for y using nums vis that by auto
  show ?thesis
    unfolding loop_inv_def scc_inv_relax relax_simps lows
  proof (intro conjI ballI impI)
    show "visited st' u" if "u \<in> insert w B" for u
      using that w' loop_invD(3) [OF loop] grows_visited [OF g] by blast
    show "min (low st v) (low st' w) \<le> num st' v"
      using loop_invD(4) [OF loop] nS0 by (simp add: min.coboundedI1)
    show "\<exists>y \<in> set (v # S0). num st' y = min (low st v) (low st' w) \<and> reach es v y"
      using ex nS0 by metis
    show "min (low st v) (low st' w) \<le> num st' u" if "u \<in> insert w B" "u \<in> set S0" for u
      using that wS0 nS0 loop_invD(6) [OF loop, of u] by (auto simp: min_le_iff_disj)
    have "min (low st v) (low st' w) \<le> num st' y"
      if "x \<in> set (Y @ X)" "y \<in> set S0" "(x, y) \<in> set es" for x y
      using that X Y nS0 [of y] loop_inv_stack(2) [OF loop] by (auto simp: min_le_iff_disj)
    then show "\<exists>Z. sc_stack st' = Z @ v # S0
        \<and> (\<forall>x \<in> set Z. \<forall>y \<in> set S0. (x, y) \<in> set es \<longrightarrow> min (low st v) (low st' w) \<le> num st' y)"
      using X(1) Y(1) by (intro exI [of _ "Y @ X"]) auto
  qed (use inv' loop_invD(2) [OF loop] in auto)
qed

text \<open>Closing a node: either its component is popped, or it waits for a node below.\<close>

lemma pop_until_append: "v \<notin> set X \<Longrightarrow> pop_until v (X @ v # S0) = (X @ [v], S0)"
  by (induction X) auto

lemma clear_nth:
  "length (fold (\<lambda>m os. os[m := False]) c os) = length os"
  "u < length os \<Longrightarrow> fold (\<lambda>m os. os[m := False]) c os ! u = (if u \<in> set c then False else os ! u)"
  by (induction c arbitrary: os) (auto simp: nth_list_update)

lemma segment_closed:
  assumes loop: "loop_inv n es G S0 v B st" and succ: "\<forall>w. (v, w) \<in> set es \<longrightarrow> w \<in> B"
    and low: "low st v = num st v" and X: "sc_stack st = X @ v # S0"
    and t: "\<forall>x \<in> set (X @ [v]). reach es t x"
    and p: "p \<in> set (X @ [v])" and pz: "reach es p z" and zt: "reach es z t"
  shows "z \<in> set (X @ [v])"
  using pz zt
proof (induction rule: rtrancl_induct)
  case base
  show ?case using p .
next
  case (step y z)
  note inv = loop_invD(1) [OF loop]
  note sh = scc_invD(1) [OF inv]
  have y: "y \<in> set (X @ [v])" using step.IH step.prems step.hyps(2) by (meson converse_rtrancl_into_rtrancl)
  have yG: "y \<in> set X \<Longrightarrow> y \<notin> insert v G"
    using stack_order(4,6) [OF sh X] loop_invD(2) [OF loop] by blast
  have "visited st z"
  proof (cases "y = v")
    case True
    then show ?thesis using succ step.hyps(2) loop_invD(3) [OF loop] by blast
  next
    case False
    with y have "y \<in> set X" by simp
    then show ?thesis using scc_invD(5) [OF inv, of y z] yG X step.hyps(2) by auto
  qed
  moreover have "z \<notin> set S0"
  proof
    assume z: "z \<in> set S0"
    have "low st v \<le> num st z"
    proof (cases "y = v")
      case True
      then show ?thesis using succ step.hyps(2) loop_invD(6) [OF loop] z by blast
    next
      case False
      with y z show ?thesis using loop_invD(7) [OF loop] X step.hyps(2) by auto
    qed
    then show False using stack_order(2) [OF sh X z] low by simp
  qed
  moreover have "z \<notin> finished st"
  proof
    assume "z \<in> finished st"
    then obtain c where c: "c \<in> set (sc_components st)" "z \<in> set c" by (auto simp: finished_def)
    then obtain r where r: "set c = {w. reach es r w \<and> reach es w r}"
      using scc_invD(3) [OF inv] by (auto simp: scc_done_def is_scc_def)
    have "reach es z y" using step.prems t y by (meson rtrancl_trans)
    then have "y \<in> set c"
      using c(2) r step.hyps(2) by (auto intro: rtrancl_trans converse_rtrancl_into_rtrancl)
    then have "y \<in> finished st" using c(1) by (auto simp: finished_def)
    then show False using y X scc_shapeD(7) [OF sh] by auto
  qed
  ultimately show ?case using X by auto
qed

lemma segment_is_scc:
  assumes loop: "loop_inv n es G S0 v B st" and succ: "\<forall>w. (v, w) \<in> set es \<longrightarrow> w \<in> B"
    and low: "low st v = num st v" and X: "sc_stack st = X @ v # S0"
  shows "set (X @ [v]) = {w. reach es v w \<and> reach es w v}"
proof -
  note inv = loop_invD(1) [OF loop]
  note sh = scc_invD(1) [OF inv]
  have below: "reach es y x" if "y \<in> insert v (set S0)" "x \<in> set (X @ [v])" for x y
  proof -
    have "num st y \<le> num st x"
      using that stack_order(1) [OF sh X, of x] stack_order(2) [OF sh X, of y]
        stack_order(3) [OF sh X, of x y] by auto
    then show ?thesis using that X by (intro scc_invD(6) [OF inv]) auto
  qed
  have "reach es x v" if x: "x \<in> set (X @ [v])" for x
  proof -
    obtain g where g: "g \<in> insert v G" "reach es x g"
      using scc_invD(7) [OF inv, of x] x X by auto
    show ?thesis
    proof (cases "g = v")
      case False
      then have "g \<in> set S0" using g(1) loop_invD(2) [OF loop] by auto
      then have "g \<in> set (X @ [v])"
        using segment_closed [OF loop succ low X _ x g(2)] below by blast
      then show ?thesis using \<open>g \<in> set S0\<close> stack_order(5,6) [OF sh X] by auto
    qed (use g in simp)
  qed
  then show ?thesis
    using below segment_closed [OF loop succ low X, of v v] by auto
qed

lemma close_popped:
  assumes loop: "loop_inv n es G S0 v B st" and succ: "\<forall>w. (v, w) \<in> set es \<longrightarrow> w \<in> B"
    and low: "low st v = num st v"
  shows "scc_inv n es G (close_node v st) \<and> sc_stack (close_node v st) = S0
    \<and> finished (close_node v st) = finished st \<union> (stack_set st - set S0)
    \<and> num (close_node v st) = num st \<and> sc_lowlink (close_node v st) = sc_lowlink st"
proof -
  obtain X where X: "sc_stack st = X @ v # S0" using loop_invD(7) [OF loop] by blast
  note inv = loop_invD(1) [OF loop]
  note sh = scc_invD(1) [OF inv] and ord = stack_order [OF scc_invD(1) [OF inv] X]
  let ?c = "X @ [v]"
  have vn: "v < n" using scc_shapeD(5) [OF sh] X by auto
  have "is_unvisited st v \<longleftrightarrow> False" using scc_shapeD(8) [OF sh vn] X by simp
  then have "sc_indices st ! v \<noteq> None"
    using scc_shapeD(1) [OF sh] vn by (simp add: is_unvisited_def)
  then have cond: "Some (sc_lowlink st ! v) = sc_indices st ! v"
    using low by (auto simp: low_def num_def)
  define st' where "st' = close_node v st"
  have st': "st' = st\<lparr>sc_stack := S0, sc_on_stack := fold (\<lambda>m os. os[m := False]) ?c (sc_on_stack st),
      sc_components := sc_components st @ [sort ?c]\<rparr>"
    unfolding st'_def close_node_def using cond pop_until_append [OF ord(4)] X by simp
  have simps [simp]: "sc_stack st' = S0" "sc_indices st' = sc_indices st" "sc_lowlink st' = sc_lowlink st"
    "sc_index st' = sc_index st" "sc_components st' = sc_components st @ [sort ?c]"
    "num st' = num st" "is_unvisited st' = is_unvisited st" "finished st' = finished st \<union> set ?c"
    by (auto simp: st' num_def is_unvisited_def finished_def fun_eq_iff)
  have on: "length (sc_on_stack st') = length (sc_on_stack st)"
    "u < n \<Longrightarrow> sc_on_stack st' ! u = (if u \<in> set ?c then False else sc_on_stack st ! u)" for u
  proof -
    have eq: "sc_on_stack st' = fold (\<lambda>m os. os[m := False]) ?c (sc_on_stack st)" by (simp add: st')
    show "length (sc_on_stack st') = length (sc_on_stack st)" unfolding eq by (rule clear_nth)
    show "sc_on_stack st' ! u = (if u \<in> set ?c then False else sc_on_stack st ! u)" if "u < n"
      unfolding eq by (rule clear_nth) (use that scc_shapeD(3) [OF sh] in simp)
  qed
  have vis: "visited st' u \<longleftrightarrow> visited st u" for u using X by auto
  have "scc_shape n st'"
    unfolding scc_shape_def using scc_shapeD [OF sh] X ord on
    by (auto simp: sorted_wrt_append)
  moreover have "scc_paths es G st'"
    unfolding scc_paths_def vis
  proof (intro conjI allI impI ballI)
    show "G \<subseteq> stack_set st'" using loop_invD(2) [OF loop] by simp
    show "visited st w" if "visited st u" "u \<notin> G" "(u, w) \<in> set es" for u w
      using that scc_invD(5) [OF inv, of u w] succ loop_invD(3) [OF loop] by (cases "u = v") auto
    show "reach es x y" if "x \<in> stack_set st'" "y \<in> stack_set st'" "num st' x \<le> num st' y" for x y
      using that scc_invD(6) [OF inv, of x y] X by auto
    show "\<exists>g \<in> G. num st' g \<le> num st' y \<and> reach es y g" if "y \<in> stack_set st'" for y
      using that scc_invD(7) [OF inv, of y] X ord(2) [of y] by auto
  qed
  moreover have "scc_done es st'"
  proof -
    have "is_scc es (set ?c)" unfolding is_scc_def using segment_is_scc [OF loop succ low X] by blast
    moreover have "distinct ?c" using scc_shapeD(4) [OF sh] X by auto
    moreover have "sort ?c \<notin> set (sc_components st)"
    proof
      assume "sort ?c \<in> set (sc_components st)"
      then have "v \<in> finished st" by (force simp: finished_def)
      then show False using scc_shapeD(7) [OF sh] X by auto
    qed
    ultimately show ?thesis
      using scc_invD(3) [OF inv] by (simp add: scc_done_def)
  qed
  moreover have "set ?c = stack_set st - set S0" using X ord(5,6) by auto
  ultimately show ?thesis unfolding st'_def [symmetric] scc_inv_def by simp
qed

lemma close_waiting:
  assumes loop: "loop_inv n es G S0 v B st" and succ: "\<forall>w. (v, w) \<in> set es \<longrightarrow> w \<in> B"
    and low: "low st v \<noteq> num st v"
  shows "close_node v st = st \<and> scc_inv n es G st
    \<and> (\<exists>y \<in> set S0. num st y = low st v \<and> reach es v y)"
proof -
  obtain X where X: "sc_stack st = X @ v # S0" using loop_invD(7) [OF loop] by blast
  note inv = loop_invD(1) [OF loop]
  note sh = scc_invD(1) [OF inv] and ord = stack_order [OF scc_invD(1) [OF inv] X]
  have "Some (sc_lowlink st ! v) \<noteq> sc_indices st ! v"
    using low by (metis low_def num_def option.sel)
  then have same: "close_node v st = st" by (simp add: close_node_def)
  obtain y where y: "y \<in> set S0" "num st y = low st v" "reach es v y"
    using loop_invD(5) [OF loop] low by auto
  obtain g0 where g: "g0 \<in> insert v G" "num st g0 \<le> num st y" "reach es y g0"
    using scc_invD(7) [OF inv, of y] y(1) X by auto
  have g0: "g0 \<in> G" "num st g0 \<le> num st v" "reach es v g0"
    using g y(3) ord(2) [OF y(1)] by (auto intro: rtrancl_trans)
  have "scc_paths es G st"
    unfolding scc_paths_def
  proof (intro conjI allI impI ballI)
    show "G \<subseteq> stack_set st" using loop_invD(2) [OF loop] X by auto
    show "visited st w" if "visited st u" "u \<notin> G" "(u, w) \<in> set es" for u w
      using that scc_invD(5) [OF inv, of u w] succ loop_invD(3) [OF loop] by (cases "u = v") auto
    show "reach es a b" if "a \<in> stack_set st" "b \<in> stack_set st" "num st a \<le> num st b" for a b
      using that scc_invD(6) [OF inv] by blast
    show "\<exists>g \<in> G. num st g \<le> num st a \<and> reach es a g" if a: "a \<in> stack_set st" for a
    proof -
      obtain g where g: "g \<in> insert v G" "num st g \<le> num st a" "reach es a g"
        using scc_invD(7) [OF inv a] by blast
      show ?thesis
        using g g0 by (cases "g = v") (auto intro: rtrancl_trans order_trans)
    qed
  qed
  then show ?thesis using same inv y by (auto simp: scc_inv_def)
qed

text \<open>A visit meets its contract, by induction over the recursion.\<close>

lemma visit_close:
  assumes loop: "loop_inv n es G (sc_stack st0) v B st" and succ: "\<forall>w. (v, w) \<in> set es \<longrightarrow> w \<in> B"
    and g: "grows {v} st0 st" and v: "\<not> visited st0 v"
  shows "visit_post n es G v st0 (close_node v st)"
proof -
  note inv = loop_invD(1) [OF loop]
  note sh = scc_invD(1) [OF inv]
  have nums: "num st y = num st0 y" if "y \<in> stack_set st0" for y
    using grows_num [OF g] that by blast
  obtain X where X: "sc_stack st = X @ v # sc_stack st0"
    "\<forall>x \<in> set X. \<forall>y \<in> stack_set st0. (x, y) \<in> set es \<longrightarrow> low st v \<le> num st y"
    using loop_invD(7) [OF loop] by blast
  show ?thesis
  proof (cases "low st v = num st v")
    case True
    let ?st = "close_node v st"
    have c: "scc_inv n es G ?st" "sc_stack ?st = sc_stack st0"
      "finished ?st = finished st \<union> (stack_set st - stack_set st0)" "num ?st = num st" "low ?st = low st"
      using close_popped [OF loop succ True] by (auto simp: low_def fun_eq_iff)
    have "visited ?st v" using c v X by auto
    moreover have "grows {} st0 ?st"
      using g v unfolding grows_def by (auto simp: c)
    moreover have "num st0 u < num st v" if "u \<in> stack_set st0" for u
      using stack_order(2) [OF sh X(1) that] nums [OF that] by simp
    ultimately show ?thesis
      unfolding visit_post_def using c True v by auto
  next
    case False
    have w: "close_node v st = st" "scc_inv n es G st"
      "\<exists>y \<in> stack_set st0. num st y = low st v \<and> reach es v y"
      using close_waiting [OF loop succ False] by auto
    have g0: "grows {} st0 st" using g v X unfolding grows_def by auto
    have l: "low st v \<le> num st0 y" if "x \<in> set (X @ [v])" "y \<in> stack_set st0" "(x, y) \<in> set es" for x y
    proof (cases "x = v")
      case True
      then show ?thesis using that nums [of y] loop_invD(6) [OF loop, of y] succ by auto
    next
      case False
      then have "x \<in> set X" using that(1) by simp
      then have "low st v \<le> num st y" using X(2) that(2,3) by blast
      then show ?thesis using nums [OF that(2)] by simp
    qed
    show ?thesis
      unfolding visit_post_def w(1)
    proof (intro conjI)
      show "grows {} st0 st" using g0 .
      show "scc_inv n es G st" using w(2) .
      have "v \<in> stack_set st" using X(1) by simp
      then show "visited st v" "v \<notin> stack_set st \<longrightarrow> (\<forall>u \<in> stack_set st0. num st0 u < low st v)" by auto
      show "v \<in> stack_set st \<longrightarrow> (\<exists>y \<in> stack_set st0. num st0 y = low st v \<and> reach es v y)"
        using w(3) nums by auto
      show "\<exists>Z. sc_stack st = Z @ sc_stack st0
          \<and> (\<forall>x \<in> set Z. \<forall>y \<in> stack_set st0. (x, y) \<in> set es \<longrightarrow> low st v \<le> num st0 y)"
        using X(1) l by (intro exI [of _ "X @ [v]"]) simp
    qed
  qed
qed

lemma set_successors: "set (successors es v) = {w. (v, w) \<in> set es}"
  by (force simp: successors_def)

lemma visit_correct:
  "\<lbrakk>scc_inv n es G st; v < n; \<not> visited st v; \<forall>g \<in> G. reach es g v; set es \<subseteq> {..<n} \<times> {..<n}\<rbrakk>
     \<Longrightarrow> visit_post n es G v st (visit es v st)"
  "\<lbrakk>loop_inv n es G S0 v B st; set ws \<subseteq> {w. (v, w) \<in> set es}; set es \<subseteq> {..<n} \<times> {..<n};
    \<forall>g \<in> G. reach es g v\<rbrakk>
     \<Longrightarrow> loop_inv n es G S0 v (B \<union> set ws) (visit_successors es v ws st)
       \<and> grows {v} st (visit_successors es v ws st)"
proof (induction es v st and es v ws st arbitrary: G and G S0 B rule: visit_visit_successors.induct)
  case (1 es v st)
  have unv: "is_unvisited st v"
    using "1.prems"(2,3) scc_shapeD(8) [OF scc_invD(1) [OF "1.prems"(1)]] by blast
  note e = enter_inv [OF "1.prems"(1-4)]
  have l: "loop_inv n es G (sc_stack st) v ({} \<union> set (successors es v))
        (visit_successors es v (successors es v) (enter_node v st))
      \<and> grows {v} (enter_node v st) (visit_successors es v (successors es v) (enter_node v st))"
    using "1.IH" [OF _ e(1)] unv "1.prems"(4,5) by (simp add: set_successors)
  have "visit_post n es G v st
      (close_node v (visit_successors es v (successors es v) (enter_node v st)))"
  proof (rule visit_close)
    show "loop_inv n es G (sc_stack st) v (set (successors es v))
        (visit_successors es v (successors es v) (enter_node v st))" using l by simp
    show "grows {v} st (visit_successors es v (successors es v) (enter_node v st))"
      using e(2) l grows_trans by blast
  qed (use "1.prems"(3) in \<open>auto simp: set_successors\<close>)
  then show ?case using unv by (simp add: visit.simps)
next
  case (2 es v st)
  then show ?case by simp
next
  case (3 es v w ws st)
  note loop = "3.prems"(1)
  have edge: "(v, w) \<in> set es" and wn: "w < n" and ws: "set ws \<subseteq> {w. (v, w) \<in> set es}"
    using "3.prems"(2,3) by auto
  note inv = loop_invD(1) [OF loop]
  note sh = scc_invD(1) [OF inv]
  have unv: "is_unvisited st w \<longleftrightarrow> \<not> visited st w" using scc_shapeD(8) [OF sh wn] .
  have goal: "loop_inv n es G S0 v (B \<union> set (w # ws)) (visit_successors es v ws st2)
      \<and> grows {v} st (visit_successors es v ws st2)"
    if "loop_inv n es G S0 v (insert w B) st2" "grows {v} st st2"
      "\<And>B'. loop_inv n es G S0 v B' st2 \<Longrightarrow>
        loop_inv n es G S0 v (B' \<union> set ws) (visit_successors es v ws st2)
        \<and> grows {v} st2 (visit_successors es v ws st2)" for st2
    using that(3) [OF that(1)] grows_trans [OF that(2)] by simp
  show ?case
  proof (cases "is_unvisited st w")
    case True
    have acc: "\<forall>g \<in> insert v G. reach es g w"
      using "3.prems"(4) edge by (auto intro: rtrancl_into_rtrancl)
    have post: "visit_post n es (insert v G) w st (visit es w st)"
      using "3.IH"(1) [OF True inv wn _ acc "3.prems"(3)] True unv by simp
    let ?st = "visit es w st"
    let ?st2 = "relax v (sc_lowlink ?st ! w) ?st"
    have "\<not> visited st w" using True unv by simp
    from loop_tree [OF loop edge this post]
    have l2: "loop_inv n es G S0 v (insert w B) ?st2" by (simp add: low_def)
    have "v < length (sc_lowlink ?st)" using loop_inv_stack(3) [OF l2] by simp
    then have g2: "grows {v} st ?st2"
      using post by (auto simp: visit_post_def intro: grows_relax grows_mono)
    show ?thesis
      using goal [OF l2 g2] "3.IH"(2) [OF True refl _ ws "3.prems"(3,4)] True
      by (simp add: visit_successors.simps(2) Let_def)
  next
    case False
    then have vis: "visited st w" using unv by simp
    have on: "w < length (sc_indices st) \<and> sc_on_stack st ! w \<longleftrightarrow> w \<in> stack_set st"
      using scc_shapeD(1) [OF sh] scc_shapeD(9) [OF sh wn] wn by simp
    show ?thesis
    proof (cases "w \<in> stack_set st")
      case True
      let ?st2 = "relax v (the (sc_indices st ! w)) st"
      have l2: "loop_inv n es G S0 v (insert w B) ?st2"
        using loop_relax [OF loop edge True] by (simp add: num_def)
      have g2: "grows {v} st ?st2" using loop_inv_stack(3) [OF loop] by (auto intro: grows_relax)
      show ?thesis
        using goal [OF l2 g2] "3.IH"(3) [OF False _ _ ws "3.prems"(3,4)] on True False
        by (simp add: visit_successors.simps(2))
    next
      case nst: False
      have l2: "loop_inv n es G S0 v (insert w B) st"
        using loop_skip [OF loop vis nst] .
      have no: "\<not> (w < length (sc_indices st) \<and> sc_on_stack st ! w)" using on nst by blast
      have "visit_successors es v (w # ws) st = visit_successors es v ws st"
        by (subst visit_successors.simps(2)) (simp only: False no if_False)
      then show ?thesis
        using goal [OF l2 grows_refl] "3.IH"(4) [OF False no _ ws "3.prems"(3,4)] by simp
    qed
  qed
qed

lemma scc_inv_idle: "scc_inv n es {} st \<Longrightarrow> sc_stack st = []"
  using scc_invD(7) by fastforce

lemma initial_inv: "scc_inv n es {} (initial_scc n)"
  by (simp add: initial_scc_def scc_inv_def scc_shape_def scc_paths_def scc_done_def finished_def
      is_unvisited_def)

lemma scc_run_inv:
  assumes "set es \<subseteq> {..<n} \<times> {..<n}" "set vs \<subseteq> {..<n}" "scc_inv n es {} st"
  shows "scc_inv n es {} (scc_run n es vs st)
    \<and> finished st \<union> set vs \<subseteq> finished (scc_run n es vs st)"
  using assms(2,3)
proof (induction vs arbitrary: st)
  case (Cons v vs)
  let ?st = "if is_unvisited st v then visit es v st else st"
  have v: "v < n" using Cons.prems(1) by simp
  note sh = scc_invD(1) [OF Cons.prems(2)]
  have "scc_inv n es {} ?st \<and> finished st \<subseteq> finished ?st \<and> v \<in> finished ?st"
  proof (cases "is_unvisited st v")
    case True
    then have "visit_post n es {} v st (visit es v st)"
      using visit_correct(1) [OF Cons.prems(2) v _ _ assms(1)] scc_shapeD(8) [OF sh v] by simp
    then show ?thesis
      using True scc_inv_idle [of n es "visit es v st"] by (auto simp: visit_post_def grows_def)
  next
    case False
    then show ?thesis
      using Cons.prems(2) scc_shapeD(8) [OF sh v] scc_inv_idle [OF Cons.prems(2)] by auto
  qed
  then show ?case
    using Cons.IH [of ?st] Cons.prems(1) by (auto simp: scc_run_def)
qed (simp add: scc_run_def)

lemma components_are_sccs:
  assumes "set es \<subseteq> {..<n} \<times> {..<n}"
  shows "(C \<in> set ` set (strongly_connected_components n es))
      \<longleftrightarrow> (\<exists>v < n. C = {w. reach es v w \<and> reach es w v})"
    and "\<forall>c \<in> set (strongly_connected_components n es). sorted c \<and> distinct c"
    and "sorted (strongly_connected_components n es)" "distinct (strongly_connected_components n es)"
proof -
  let ?st = "scc_run n es [0..<n] (initial_scc n)"
  have "set [0..<n] \<subseteq> {..<n}" by auto
  from scc_run_inv [OF assms this initial_inv]
  have inv: "scc_inv n es {} ?st" and fin: "{..<n} \<subseteq> finished ?st" by auto
  have comps: "\<forall>c \<in> set (sc_components ?st). is_scc es (set c) \<and> sorted c \<and> distinct c"
    "distinct (sc_components ?st)"
    using scc_invD(3) [OF inv] by (auto simp: scc_done_def)
  have cls: "{w. reach es v w \<and> reach es w v} = set c" if "c \<in> set (sc_components ?st)" "v \<in> set c" for c v
  proof -
    have "is_scc es (set c)" using comps(1) that(1) by blast
    then obtain r where "set c = {w. reach es r w \<and> reach es w r}" by (auto simp: is_scc_def)
    then show ?thesis using that(2) by (auto intro: rtrancl_trans)
  qed
  show "(C \<in> set ` set (strongly_connected_components n es))
      \<longleftrightarrow> (\<exists>v < n. C = {w. reach es v w \<and> reach es w v})"
  proof
    assume "C \<in> set ` set (strongly_connected_components n es)"
    then obtain c where c: "c \<in> set (sc_components ?st)" "C = set c"
      by (auto simp: strongly_connected_components_def)
    then have "is_scc es (set c)" using comps(1) by blast
    then obtain r where r: "set c = {w. reach es r w \<and> reach es w r}" by (auto simp: is_scc_def)
    then have "r \<in> finished ?st" using c(1) by (auto simp: finished_def)
    then have "r < n" using scc_shapeD(6) [OF scc_invD(1) [OF inv]] by auto
    then show "\<exists>v < n. C = {w. reach es v w \<and> reach es w v}" using c(2) r by blast
  next
    assume "\<exists>v < n. C = {w. reach es v w \<and> reach es w v}"
    then obtain v where v: "v < n" "C = {w. reach es v w \<and> reach es w v}" by blast
    then obtain c where c: "c \<in> set (sc_components ?st)" "v \<in> set c"
      using fin by (auto simp: finished_def)
    then show "C \<in> set ` set (strongly_connected_components n es)"
      using cls [OF c] v(2) by (auto simp: strongly_connected_components_def)
  qed
  show "\<forall>c \<in> set (strongly_connected_components n es). sorted c \<and> distinct c"
    "sorted (strongly_connected_components n es)" "distinct (strongly_connected_components n es)"
    using comps by (auto simp: strongly_connected_components_def)
qed

section \<open>The contract of the component finder\<close>

text \<open>
  What the cycle analysis relies on: the components are the classes of mutual reachability.
\<close>

locale component_finder =
  fixes components :: "nat \<Rightarrow> (nat \<times> nat) list \<Rightarrow> nat list list"
  assumes classes: "set es \<subseteq> {..<n} \<times> {..<n} \<Longrightarrow>
    C \<in> set ` set (components n es) \<longleftrightarrow> (\<exists>v < n. C = {w. reach es v w \<and> reach es w v})"
begin

lemma edge_on_cycle_in_component:
  assumes "set es \<subseteq> {..<n} \<times> {..<n}" "(a, b) \<in> set es" "reach es b a"
  shows "\<exists>c \<in> set (components n es). a \<in> set c \<and> b \<in> set c \<and> (length c > 1 \<or> a = b)"
proof -
  have "a < n" using assms(1,2) by auto
  then have "{w. reach es a w \<and> reach es w a} \<in> set ` set (components n es)"
    using classes [OF assms(1)] by blast
  then obtain c where c: "c \<in> set (components n es)" "set c = {w. reach es a w \<and> reach es w a}" by auto
  then have ab: "a \<in> set c" "b \<in> set c" using assms(2,3) by auto
  have "length c > 1" if "a \<noteq> b"
  proof -
    have "card {a, b} \<le> card (set c)" using ab by (intro card_mono) auto
    then show ?thesis using that card_length [of c] by simp
  qed
  then show ?thesis using c(1) ab by blast
qed

lemma component_edge_on_cycle:
  assumes "set es \<subseteq> {..<n} \<times> {..<n}" "c \<in> set (components n es)" "a \<in> set c" "b \<in> set c"
  shows "reach es a b"
proof -
  obtain v where "set c = {w. reach es v w \<and> reach es w v}"
    using classes [OF assms(1), of "set c"] assms(2) by blast
  then show ?thesis using assms(3,4) by (auto intro: rtrancl_trans)
qed

end

interpretation tarjan: component_finder strongly_connected_components
  by unfold_locales (rule components_are_sccs(1))

section \<open>Cyclic components of the dependency graph\<close>

definition ref_position :: "tx_ref list \<Rightarrow> tx_ref \<Rightarrow> nat option" where
  "ref_position ms r = position_of (\<lambda>m. m = r) ms"

definition dependency_edges :: "tx_ref list \<Rightarrow> dependency list \<Rightarrow> (nat \<times> nat) list" where
  "dependency_edges ms ds =
     List.map_filter (\<lambda>d.
       case ref_position ms (dp_source d) of
         None \<Rightarrow> None
       | Some i \<Rightarrow> map_option (Pair i) (ref_position ms (dp_target d))) ds"

definition cyclic_components :: "tx_ref list \<Rightarrow> dependency list \<Rightarrow> tx_ref list list" where
  "cyclic_components ms ds =
     (let es = dependency_edges ms ds
      in map (map ((!) ms))
           (filter (\<lambda>c. length c > 1 \<or> (\<exists>e \<in> set es. fst e = snd e \<and> fst e \<in> set c))
             (strongly_connected_components (length ms) es)))"

record unconstrained_cycle =
  uc_members :: "tx_ref list"
  uc_unconstrained :: "dependency list"

definition unconstrained_in :: "dependency list \<Rightarrow> tx_ref list \<Rightarrow> dependency list" where
  "unconstrained_in ds ms =
     filter (\<lambda>d. dp_evidence d = EvNone \<and> dp_source d \<in> set ms \<and> dp_target d \<in> set ms) ds"

definition unconstrained_cycles ::
    "conflict_index \<Rightarrow> nat list \<Rightarrow> dependency list \<Rightarrow> unconstrained_cycle list" where
  "unconstrained_cycles ix closure ds =
     List.map_filter (\<lambda>ms.
         if unconstrained_in ds ms = [] then None
         else Some \<lparr>uc_members = ms, uc_unconstrained = unconstrained_in ds ms\<rparr>)
       (cyclic_components (map (\<lambda>i. tt_reference (ci_templates ix ! i)) closure) ds)"

lemma ref_position_facts:
  "ref_position ms r = Some i \<Longrightarrow> i < length ms \<and> ms ! i = r"
  "r \<in> set ms \<Longrightarrow> \<exists>i. ref_position ms r = Some i"
  using position_of_Some [of "\<lambda>m. m = r" ms] position_of_None_iff [of "\<lambda>m. m = r" ms]
  by (auto simp: ref_position_def)

lemma dependency_edges_iff:
  "(i, j) \<in> set (dependency_edges ms ds) \<longleftrightarrow>
     (\<exists>d \<in> set ds. ref_position ms (dp_source d) = Some i \<and> ref_position ms (dp_target d) = Some j)"
  by (auto simp: dependency_edges_def set_map_filter split: option.splits)

lemma dependency_edges_range: "set (dependency_edges ms ds) \<subseteq> {..<length ms} \<times> {..<length ms}"
  using ref_position_facts(1) by (auto simp: dependency_edges_iff)

section \<open>Cycles of executions\<close>

text \<open>
  A relation between things that each stand for a member, every pair of which is a listed
  dependency. A cycle of it runs through one cyclic component.
\<close>

lemma trancl_edges_reach:
  assumes "\<And>x y. (x, y) \<in> R \<Longrightarrow> (f x, f y) \<in> set es"
  shows "(x, y) \<in> R\<^sup>+ \<Longrightarrow> reach es (f x) (f y)"
  by (induction rule: trancl_induct) (auto dest: assms intro: rtrancl_into_rtrancl)

lemma rank_acyclic:
  assumes "\<And>x y. (x, y) \<in> R \<Longrightarrow> (y, x) \<in> R\<^sup>* \<Longrightarrow> (f x :: 'a::order) < f y"
  shows "acyclic R"
proof (rule acyclicI, rule allI, rule notI)
  fix x assume x: "(x, x) \<in> R\<^sup>+"
  have "f x < f y" if "(x, y) \<in> R\<^sup>+" "(y, x) \<in> R\<^sup>*" for y
    using that
  proof (induction rule: trancl_induct)
    case (base y)
    then show ?case using assms by blast
  next
    case (step y z)
    have zx: "(y, x) \<in> R\<^sup>*" using step.hyps(2) step.prems by (rule converse_rtrancl_into_rtrancl)
    have "(z, y) \<in> R\<^sup>*" using step.prems step.hyps(1) by (meson rtrancl_trans trancl_into_rtrancl)
    then have "f y < f z" using assms step.hyps(2) by blast
    then show ?case using step.IH [OF zx] by simp
  qed
  from this [OF x] show False by simp
qed

lemma cyclic_component_members:
  assumes "ms' \<in> set (cyclic_components ms ds)"
  shows "\<exists>c \<in> set (strongly_connected_components (length ms) (dependency_edges ms ds)). ms' = map ((!) ms) c"
  using assms by (auto simp: cyclic_components_def Let_def)

lemma cycle_in_cyclic_component:
  assumes "d \<in> set ds" "ref_position ms (dp_source d) = Some i" "ref_position ms (dp_target d) = Some j"
    and "reach (dependency_edges ms ds) j i"
  shows "\<exists>ms' \<in> set (cyclic_components ms ds). dp_source d \<in> set ms' \<and> dp_target d \<in> set ms'"
proof -
  let ?es = "dependency_edges ms ds"
  have e: "(i, j) \<in> set ?es" using assms(1-3) by (auto simp: dependency_edges_iff)
  obtain c where c: "c \<in> set (strongly_connected_components (length ms) ?es)" "i \<in> set c" "j \<in> set c"
    "length c > 1 \<or> i = j"
    using tarjan.edge_on_cycle_in_component [OF dependency_edges_range e assms(4)] by blast
  have "map ((!) ms) c \<in> set (cyclic_components ms ds)"
    using c e by (force simp: cyclic_components_def Let_def)
  moreover have "ms ! i = dp_source d" "ms ! j = dp_target d"
    using ref_position_facts(1) assms(2,3) by auto
  ultimately show ?thesis using c(2,3) by (intro bexI [of _ "map ((!) ms) c"]) force+
qed

lemma no_unconstrained_cycle:
  assumes "unconstrained_cycles ix closure ds = []"
    and "ms' \<in> set (cyclic_components (map (\<lambda>i. tt_reference (ci_templates ix ! i)) closure) ds)"
    and "d \<in> set ds" "dp_source d \<in> set ms'" "dp_target d \<in> set ms'"
  shows "constrained d"
proof -
  have "unconstrained_in ds ms' = []"
    using assms(1,2) by (auto simp: unconstrained_cycles_def map_filter_def filter_empty_conv split: if_splits)
  then show ?thesis using assms(3-5) by (auto simp: unconstrained_in_def filter_empty_conv constrained_def)
qed

section \<open>Properties\<close>

text \<open>
  C1. \<open>strongly_connected_components\<close> is correct: for every graph on \<open>0..<n\<close> it returns exactly
  the classes of mutual reachability of its nodes, each once, each in ascending order, and the
  list itself in ascending order.
\<close>

theorem components_correct:
  assumes "set es \<subseteq> {..<n} \<times> {..<n}"
  shows "set ` set (strongly_connected_components n es)
      = (\<lambda>v. {w. (v, w) \<in> (set es)\<^sup>* \<and> (w, v) \<in> (set es)\<^sup>*}) ` {..<n}
    \<and> sorted (strongly_connected_components n es) \<and> distinct (strongly_connected_components n es)
    \<and> (\<forall>c \<in> set (strongly_connected_components n es). sorted c \<and> distinct c)"
proof -
  have "set ` set (strongly_connected_components n es)
      = (\<lambda>v. {w. (v, w) \<in> (set es)\<^sup>* \<and> (w, v) \<in> (set es)\<^sup>*}) ` {..<n}"
    using components_are_sccs(1) [OF assms] by (intro set_eqI) (auto simp: image_iff)
  then show ?thesis using components_are_sccs(2-4) [OF assms] by blast
qed

theorem components_correct_witness:
  "set ` set (strongly_connected_components 4 [(0, 1), (1, 2), (2, 1), (2, 3)]) = {{0}, {1, 2}, {3}}
   \<and> sorted (strongly_connected_components 4 [(0, 1), (1, 2), (2, 1), (2, 3)])"
proof -
  have "strongly_connected_components 4 [(0, 1), (1, 2), (2, 1), (2, 3)] = [[0], [1, 2], [3]]"
    by code_simp
  moreover have "sorted (strongly_connected_components 4 [(0, 1), (1, 2), (2, 1), (2, 3)])"
    using components_correct [of "[(0, 1), (1, 2), (2, 1), (2, 3)]" 4] by auto
  ultimately show ?thesis by auto
qed

text \<open>
  Every cycle the analysis refuses is one: each dependency it reports as unconstrained has
  no evidence, is one of the dependencies it was given, and lies on a cycle of them.
\<close>

theorem reported_cycles_are_cycles:
  assumes "c \<in> set (unconstrained_cycles ix closure ds)" "d \<in> set (uc_unconstrained c)"
  shows "d \<in> set ds \<and> dp_evidence d = EvNone
    \<and> (dp_target d, dp_source d) \<in> {(dp_source e, dp_target e) | e. e \<in> set ds}\<^sup>*"
proof -
  let ?ms = "map (\<lambda>i. tt_reference (ci_templates ix ! i)) closure"
  let ?es = "dependency_edges ?ms ds"
  let ?R = "{(dp_source e, dp_target e) | e. e \<in> set ds}"
  obtain ms' where ms': "ms' \<in> set (cyclic_components ?ms ds)" "d \<in> set (unconstrained_in ds ms')"
    using assms by (auto simp: unconstrained_cycles_def set_map_filter split: if_splits)
  obtain k where k: "k \<in> set (strongly_connected_components (length ?ms) ?es)" "ms' = map ((!) ?ms) k"
    using cyclic_component_members [OF ms'(1)] by blast
  obtain i j where ij: "i \<in> set k" "j \<in> set k" "dp_source d = ?ms ! i" "dp_target d = ?ms ! j"
    using ms'(2) k(2) by (auto simp: unconstrained_in_def)
  have "reach ?es j i"
    using tarjan.component_edge_on_cycle [OF dependency_edges_range k(1) ij(2,1)] .
  then have "(?ms ! j, ?ms ! i) \<in> ?R\<^sup>*"
  proof (induction rule: rtrancl_induct)
    case (step y z)
    obtain e where "e \<in> set ds" "dp_source e = ?ms ! y" "dp_target e = ?ms ! z"
      using step.hyps(2) by (auto simp: dependency_edges_iff dest!: ref_position_facts(1))
    then have "(?ms ! y, ?ms ! z) \<in> ?R" by force
    with step.IH show ?case by (rule rtrancl_into_rtrancl)
  qed simp
  then show ?thesis
    using ms'(2) ij by (auto simp: unconstrained_in_def)
qed

end
