(* ===== verification/Analysis_Serializability.thy ===== *)
theory Analysis_Serializability
  imports Analysis_Cycles
begin

text \<open>
  The serializability prover (\<open>analyzer/verification/transaction_serializability.rs\<close>): the
  isolation-closure route, the conflict-graph route, the obstacles of a refusal and the check
  of every declared requirement. The section on histories states what a proven requirement
  means for executions and shows it.
\<close>

section \<open>Verdicts\<close>

datatype proof_scope = L0Only | RuntimeDependent

datatype serializability_proof =
    SpIsolationClosure tx_ref value_ref "tx_ref list"
  | SpConflictGraph tx_ref value_ref "tx_ref list" "dependency list"

fun serializability_scope :: "serializability_proof \<Rightarrow> proof_scope" where
  "serializability_scope (SpIsolationClosure _ _ _) = L0Only"
| "serializability_scope (SpConflictGraph _ _ _ _) = L0Only"

fun proof_root :: "serializability_proof \<Rightarrow> tx_ref" where
  "proof_root (SpIsolationClosure r _ _) = r"
| "proof_root (SpConflictGraph r _ _ _) = r"

fun proof_closure :: "serializability_proof \<Rightarrow> tx_ref list" where
  "proof_closure (SpIsolationClosure _ _ c) = c"
| "proof_closure (SpConflictGraph _ _ c _) = c"

record isolation_fact =
  iso_transaction :: tx_ref
  iso_isolation :: isolation

datatype serializability_obstacle =
    ObNotIndexed id id
  | ObWeakerIsolation "isolation_fact list"
  | ObUnconstrainedCycle "tx_ref list"
  | ObUnprotectedReadWrite dependency
  | ObUnconstrainedDependency dependency

datatype serializability_verdict =
    SerProven serializability_proof proof_scope
  | SerUnproven "serializability_obstacle list"

record serializability_check =
  sk_operation :: id
  sk_transaction :: id
  sk_location :: step_location
  sk_requirement :: nat
  sk_key :: value_ref
  sk_verdict :: serializability_verdict
  sk_artifacts :: "commit_artifact list"

section \<open>The prover\<close>

definition weaker_isolation :: "conflict_index \<Rightarrow> nat list \<Rightarrow> isolation_fact list" where
  "weaker_isolation ix closure =
     map (\<lambda>t. \<lparr>iso_transaction = tt_reference t, iso_isolation = isolation_of t\<rparr>)
       (filter (\<lambda>t. isolation_of t \<noteq> IsoSerializable) (map ((!) (ci_templates ix)) closure))"

definition dependency_obstacle :: "dependency \<Rightarrow> serializability_obstacle" where
  "dependency_obstacle d =
     (case dp_kind d of
        DkAntiDependency \<Rightarrow> ObUnprotectedReadWrite d
      | DkWriteRead \<Rightarrow> ObUnconstrainedDependency d
      | DkWriteWrite \<Rightarrow> ObUnconstrainedDependency d)"

definition cycle_obstacles :: "unconstrained_cycle \<Rightarrow> serializability_obstacle list" where
  "cycle_obstacles c = ObUnconstrainedCycle (uc_members c) # map dependency_obstacle (uc_unconstrained c)"

definition prove_serializable ::
    "conflict_index \<Rightarrow> nat \<Rightarrow> value_ref \<Rightarrow> serializability_obstacle list + serializability_proof" where
  "prove_serializable ix root key =
     (let closure = conflict_closure ix root;
          refs = map (\<lambda>i. tt_reference (ci_templates ix ! i)) closure;
          root_ref = tt_reference (ci_templates ix ! root);
          weaker = weaker_isolation ix closure
      in if weaker = [] then Inr (SpIsolationClosure root_ref key refs)
         else (let ds = dependencies ix closure;
                   cycles = unconstrained_cycles ix closure ds
               in if cycles = [] then Inr (SpConflictGraph root_ref key refs ds)
                  else Inl (ObWeakerIsolation weaker # concat (map cycle_obstacles cycles))))"

definition check_serializability :: "model \<Rightarrow> serializability_check list" where
  "check_serializability m =
     (let ix = build_index m
      in concat (map (\<lambda>(position, t).
           map (\<lambda>(requirement, declared).
               \<lparr>sk_operation = xr_operation (tt_reference t),
                sk_transaction = xr_transaction (tt_reference t),
                sk_location = xr_location (tt_reference t),
                sk_requirement = requirement, sk_key = sr_key declared,
                sk_verdict = (case prove_serializable ix position (sr_key declared) of
                    Inr p \<Rightarrow> SerProven p (serializability_scope p)
                  | Inl obs \<Rightarrow> SerUnproven obs),
                sk_artifacts = tt_artifacts t\<rparr>)
             (List.enumerate 0 (tr_serializability (tx_requirements (tt_transaction t)))))
           (List.enumerate 0 (ci_templates ix))))"

section \<open>Histories\<close>

text \<open>
  A committed history over executions of type \<open>'e\<close>: each runs a template (\<open>tmpl\<close>) under its own
  values (\<open>env\<close>); \<open>(e, k, a, b, f)\<close> says that \<open>f\<close> depends on \<open>e\<close> by a dependency of kind \<open>k\<close>
  between the access \<open>a\<close> of \<open>e\<close> and \<open>b\<close> of \<open>f\<close>, which touch one cell.
\<close>

type_synonym 'e history = "('e \<times> dependency_kind \<times> tx_access \<times> tx_access \<times> 'e) set"

definition genuine_dependency ::
    "conflict_index \<Rightarrow> ('e \<Rightarrow> nat) \<Rightarrow> ('e \<Rightarrow> value_ref \<Rightarrow> literal)
       \<Rightarrow> 'e \<Rightarrow> dependency_kind \<Rightarrow> tx_access \<Rightarrow> tx_access \<Rightarrow> 'e \<Rightarrow> bool" where
  "genuine_dependency ix tmpl env e k a b f \<longleftrightarrow>
     tmpl e < length (ci_templates ix) \<and> tmpl f < length (ci_templates ix)
     \<and> a \<in> set (tt_accesses (ci_templates ix ! tmpl e))
     \<and> b \<in> set (tt_accesses (ci_templates ix ! tmpl f))
     \<and> kind_applies k (acc_mode a) (acc_mode b)
     \<and> (\<exists>obj inst p. touches (env e) a obj inst p \<and> touches (env f) b obj inst p)"

text \<open>
  What the declared mechanisms promise of the commits, with \<open>point\<close> the place of an execution
  in the commit order (for a read-only observation, the instant it reads): a dependency with
  evidence, and one between two serializable transactions, runs forwards.
\<close>

definition respects_evidence ::
    "conflict_index \<Rightarrow> ('e \<Rightarrow> nat) \<Rightarrow> ('e \<Rightarrow> 'p::linorder) \<Rightarrow> 'e history \<Rightarrow> bool" where
  "respects_evidence ix tmpl point H \<longleftrightarrow>
     (\<forall>(e, k, a, b, f) \<in> H.
        (fst (evidence_for ix k (ci_templates ix ! tmpl e) a (ci_templates ix ! tmpl f) b) \<noteq> EvNone
         \<or> isolation_of (ci_templates ix ! tmpl e) = IsoSerializable
           \<and> isolation_of (ci_templates ix ! tmpl f) = IsoSerializable)
        \<longrightarrow> point e < point f)"

text \<open>The serialization graph of the executions of a closure.\<close>

definition serialization_graph :: "('e \<Rightarrow> nat) \<Rightarrow> nat list \<Rightarrow> 'e history \<Rightarrow> ('e \<times> 'e) set" where
  "serialization_graph tmpl closure H =
     {(e, f). (\<exists>k a b. (e, k, a, b, f) \<in> H) \<and> (tmpl e \<in> set closure \<or> tmpl f \<in> set closure)}"

lemma respects_evidenceD:
  assumes "respects_evidence ix tmpl point H" "(e, k, a, b, f) \<in> H"
    and "fst (evidence_for ix k (ci_templates ix ! tmpl e) a (ci_templates ix ! tmpl f) b) \<noteq> EvNone
         \<or> isolation_of (ci_templates ix ! tmpl e) = IsoSerializable
           \<and> isolation_of (ci_templates ix ! tmpl f) = IsoSerializable"
  shows "point e < point f"
  using assms(1) [unfolded respects_evidence_def, THEN bspec, OF assms(2)] assms(3) by simp

lemma kind_applies_writes: "kind_applies k x y \<Longrightarrow> mode_writes x \<or> mode_writes y"
  by (cases k) auto

lemma genuine_conflict:
  assumes "genuine_dependency ix tmpl env e k a b f"
  shows "\<exists>ol. access_conflict ix a b = Some ol"
proof (rule ccontr)
  assume "\<nexists>ol. access_conflict ix a b = Some ol"
  then have none: "access_conflict ix a b = None" by simp
  obtain obj inst p where t: "touches (env e) a obj inst p" "touches (env f) b obj inst p"
    using assms by (auto simp: genuine_dependency_def)
  have "mode_writes (acc_mode a) \<or> mode_writes (acc_mode b)"
    using assms kind_applies_writes by (auto simp: genuine_dependency_def)
  then show False
    using none t no_conflict_disjoint by blast
qed

lemma closure_absorbs:
  assumes "root < length (ci_templates ix)" "genuine_dependency ix tmpl env e k a b f"
    and "tmpl e \<in> set (conflict_closure ix root) \<or> tmpl f \<in> set (conflict_closure ix root)"
  shows "tmpl e \<in> set (conflict_closure ix root) \<and> tmpl f \<in> set (conflict_closure ix root)"
proof -
  obtain ol where ol: "access_conflict ix a b = Some ol" using genuine_conflict [OF assms(2)] by blast
  have lt: "tmpl e < length (ci_templates ix)" "tmpl f < length (ci_templates ix)"
    using assms(2) by (auto simp: genuine_dependency_def)
  have "templates_conflict ix (tmpl e) (tmpl f)"
    unfolding templates_conflict_def using assms(2) ol by (force simp: genuine_dependency_def)
  then have "potential_conflict ix (tmpl e) (tmpl f)" "potential_conflict ix (tmpl f) (tmpl e)"
    using lt templates_conflict_sym [of ix "tmpl e" "tmpl f"] by (auto simp: potential_conflict_def edge_to_def)
  then show ?thesis
    using assms(3) unfolding set_conflict_closure
    by (auto intro: rtranclp.rtrancl_into_rtrancl)
qed

lemma genuine_listed:
  assumes "genuine_dependency ix tmpl env e k a b f"
    and "tmpl e \<in> set closure" "tmpl f \<in> set closure"
  shows "\<exists>d \<in> set (dependencies ix closure).
    dp_source d = tt_reference (ci_templates ix ! tmpl e)
    \<and> dp_target d = tt_reference (ci_templates ix ! tmpl f)
    \<and> dp_evidence d = fst (evidence_for ix k (ci_templates ix ! tmpl e) a (ci_templates ix ! tmpl f) b)"
proof -
  obtain ol where ol: "access_conflict ix a b = Some ol" using genuine_conflict [OF assms(1)] by blast
  have "dependency_of ix k (tmpl e) a (tmpl f) b ol \<in> set (pair_dependencies ix (tmpl e) (tmpl f) a b)"
    using assms(1) ol by (auto simp: genuine_dependency_def set_pair_dependencies)
  then have "dependency_of ix k (tmpl e) a (tmpl f) b ol \<in> set (dependencies ix closure)"
    using assms unfolding dependencies_def genuine_dependency_def by force
  then show ?thesis by (intro bexI) simp_all
qed

lemma weaker_isolation_empty:
  "weaker_isolation ix closure = [] \<longleftrightarrow> (\<forall>i \<in> set closure. isolation_of (ci_templates ix ! i) = IsoSerializable)"
  by (auto simp: weaker_isolation_def filter_empty_conv)

lemma prove_serializable_cases:
  assumes "prove_serializable ix root key = Inr p"
  shows "weaker_isolation ix (conflict_closure ix root) = []
    \<or> unconstrained_cycles ix (conflict_closure ix root) (dependencies ix (conflict_closure ix root)) = []"
  using assms by (auto simp: prove_serializable_def Let_def split: if_splits)

text \<open>The graph route: a dependency on a cycle lies in a cyclic component, so it has evidence.\<close>

lemma graph_route_orders:
  assumes cycles: "unconstrained_cycles ix closure (dependencies ix closure) = []"
    and gen: "\<forall>(e, k, a, b, f) \<in> H. genuine_dependency ix tmpl env e k a b f"
    and closed: "\<forall>(e, k, a, b, f) \<in> H. tmpl e \<in> set closure \<or> tmpl f \<in> set closure
                   \<longrightarrow> tmpl e \<in> set closure \<and> tmpl f \<in> set closure"
    and ev: "respects_evidence ix tmpl point H"
    and xy: "(x, y) \<in> serialization_graph tmpl closure H"
    and yx: "(y, x) \<in> (serialization_graph tmpl closure H)\<^sup>*"
  shows "point x < point y"
proof -
  let ?ms = "map (\<lambda>i. tt_reference (ci_templates ix ! i)) closure"
  let ?ds = "dependencies ix closure"
  let ?es = "dependency_edges ?ms ?ds"
  let ?pos = "\<lambda>e. the (ref_position ?ms (tt_reference (ci_templates ix ! tmpl e)))"
  have inside: "genuine_dependency ix tmpl env e k a b f \<and> tmpl e \<in> set closure \<and> tmpl f \<in> set closure"
    if "(e, k, a, b, f) \<in> H" "tmpl e \<in> set closure \<or> tmpl f \<in> set closure" for e k a b f
    using gen closed that by fast
  have pos: "ref_position ?ms (tt_reference (ci_templates ix ! tmpl e)) = Some (?pos e)"
    if "tmpl e \<in> set closure" for e
  proof -
    have "tt_reference (ci_templates ix ! tmpl e) \<in> set ?ms" using that by simp
    from ref_position_facts(2) [OF this] show ?thesis by auto
  qed
  have edge: "(?pos e, ?pos f) \<in> set ?es" if ef: "(e, f) \<in> serialization_graph tmpl closure H" for e f
  proof -
    obtain k a b where h: "(e, k, a, b, f) \<in> H" "tmpl e \<in> set closure \<or> tmpl f \<in> set closure"
      using ef by (auto simp: serialization_graph_def)
    have i: "genuine_dependency ix tmpl env e k a b f" "tmpl e \<in> set closure" "tmpl f \<in> set closure"
      using inside [OF h] by auto
    obtain d where "d \<in> set ?ds" "dp_source d = tt_reference (ci_templates ix ! tmpl e)"
      "dp_target d = tt_reference (ci_templates ix ! tmpl f)"
      using genuine_listed [OF i] by blast
    then show ?thesis using pos i by (auto simp: dependency_edges_iff intro!: bexI [of _ d])
  qed
  obtain k a b where h: "(x, k, a, b, y) \<in> H" "tmpl x \<in> set closure \<or> tmpl y \<in> set closure"
    using xy by (auto simp: serialization_graph_def)
  have i: "genuine_dependency ix tmpl env x k a b y" "tmpl x \<in> set closure" "tmpl y \<in> set closure"
    using inside [OF h] by auto
  obtain d where d: "d \<in> set ?ds" "dp_source d = tt_reference (ci_templates ix ! tmpl x)"
    "dp_target d = tt_reference (ci_templates ix ! tmpl y)"
    "dp_evidence d = fst (evidence_for ix k (ci_templates ix ! tmpl x) a (ci_templates ix ! tmpl y) b)"
    using genuine_listed [OF i] by blast
  have "reach ?es (?pos y) (?pos x)"
    using yx
  proof (induction rule: rtrancl_induct)
    case (step u w)
    show ?case using step.IH edge [OF step.hyps(2)] by (rule rtrancl_into_rtrancl)
  qed simp
  then obtain ms' where ms': "ms' \<in> set (cyclic_components ?ms ?ds)" "dp_source d \<in> set ms'" "dp_target d \<in> set ms'"
    using cycle_in_cyclic_component [OF d(1), of ?ms "?pos x" "?pos y"] pos i d(2,3) by auto
  have "constrained d" using no_unconstrained_cycle [OF cycles ms'(1) d(1) ms'(2,3)] .
  then show ?thesis
    using respects_evidenceD [OF ev h(1)] d(4) by (simp add: constrained_def)
qed

section \<open>Properties\<close>

text \<open>
  C1. Serializability proofs are sound. When the prover accepts a requirement of the template
  \<open>root\<close>, then in every committed history whose dependencies are real (two accesses of the two
  templates touching one cell, at least one writing) and whose declared mechanisms order what
  they are credited for, the executions of the conflict closure have an acyclic serialization
  graph, and no dependency leads out of the closure: the history is equivalent to a serial one.
\<close>

theorem proven_serializable_sound:
  assumes "root < length (ci_templates ix)" "prove_serializable ix root key = Inr p"
    and "\<forall>(e, k, a, b, f) \<in> H. genuine_dependency ix tmpl env e k a b f"
    and "respects_evidence ix tmpl point H"
  shows "acyclic (serialization_graph tmpl (conflict_closure ix root) H)
    \<and> (\<forall>(e, f) \<in> serialization_graph tmpl (conflict_closure ix root) H.
         tmpl e \<in> set (conflict_closure ix root) \<and> tmpl f \<in> set (conflict_closure ix root))"
proof -
  let ?cl = "conflict_closure ix root"
  let ?R = "serialization_graph tmpl ?cl H"
  have closed: "\<forall>(e, k, a, b, f) \<in> H. tmpl e \<in> set ?cl \<or> tmpl f \<in> set ?cl \<longrightarrow> tmpl e \<in> set ?cl \<and> tmpl f \<in> set ?cl"
  proof clarify
    fix e k a b f
    assume h: "(e, k, a, b, f) \<in> H" "tmpl e \<in> set ?cl \<or> tmpl f \<in> set ?cl"
    have "genuine_dependency ix tmpl env e k a b f" using assms(3) h(1) by fast
    from closure_absorbs [OF assms(1) this h(2)]
    show "tmpl e \<in> set ?cl \<and> tmpl f \<in> set ?cl" .
  qed
  have "acyclic ?R"
  proof (cases "weaker_isolation ix ?cl = []")
    case True
    have "point x < point y" if xy: "(x, y) \<in> ?R" for x y
    proof -
      obtain k a b where h: "(x, k, a, b, y) \<in> H" "tmpl x \<in> set ?cl \<or> tmpl y \<in> set ?cl"
        using xy by (auto simp: serialization_graph_def)
      then have "tmpl x \<in> set ?cl" "tmpl y \<in> set ?cl" using closed by fast+
      then have "isolation_of (ci_templates ix ! tmpl x) = IsoSerializable"
        "isolation_of (ci_templates ix ! tmpl y) = IsoSerializable"
        using True by (auto simp: weaker_isolation_empty)
      then show ?thesis using respects_evidenceD [OF assms(4) h(1)] by simp
    qed
    then show ?thesis by (rule rank_acyclic)
  next
    case False
    then have "unconstrained_cycles ix ?cl (dependencies ix ?cl) = []"
      using prove_serializable_cases [OF assms(2)] by simp
    from graph_route_orders [OF this assms(3) closed assms(4)]
    show ?thesis by (rule rank_acyclic)
  qed
  moreover have "\<forall>(e, f) \<in> ?R. tmpl e \<in> set ?cl \<and> tmpl f \<in> set ?cl"
    using closed unfolding serialization_graph_def by fast
  ultimately show ?thesis by blast
qed

section \<open>Witnesses\<close>

abbreviation sample_key :: value_ref where
  "sample_key \<equiv> ValueRef (VsInput (Id ''in'')) (FieldPath [''id''])"

definition sample_proof :: serializability_proof where
  "sample_proof = projr (prove_serializable order_index 0 sample_key)"

lemma sample_proven: "prove_serializable order_index 0 sample_key = Inr sample_proof"
proof -
  have "\<not> isl (prove_serializable order_index 0 sample_key)" by code_simp
  then show ?thesis by (simp add: sample_proof_def)
qed

text \<open>Execution 1 reads what execution 0 wrote, and execution 2 overwrites what it read.\<close>

definition sample_template :: "nat \<Rightarrow> nat" where
  "sample_template e = (if e = 1 then 0 else 1)"

definition sample_history :: "nat history" where
  "sample_history =
     {(0, DkWriteRead, tt_accesses writer_template ! 0, tt_accesses reader_template ! 0, 1),
      (1, DkAntiDependency, tt_accesses reader_template ! 0, tt_accesses writer_template ! 0, 2)}"

lemma sample_length: "length (ci_templates order_index) = 2"
  by code_simp

lemma sample_accesses:
  "tt_accesses reader_template ! 0 \<in> set (tt_accesses (ci_templates order_index ! 0))"
  "tt_accesses writer_template ! 0 \<in> set (tt_accesses (ci_templates order_index ! 1))"
proof -
  have "0 < length (tt_accesses reader_template)" "0 < length (tt_accesses writer_template)"
    by code_simp+
  then show "tt_accesses reader_template ! 0 \<in> set (tt_accesses (ci_templates order_index ! 0))"
    "tt_accesses writer_template ! 0 \<in> set (tt_accesses (ci_templates order_index ! 1))"
    by (metis nth_mem reader_template_def, metis nth_mem writer_template_def)
qed

lemma sample_modes:
  "acc_mode (tt_accesses reader_template ! 0) = AmRead"
  "acc_mode (tt_accesses writer_template ! 0) = AmUpdate"
  by code_simp+

lemma sample_touches:
  "touches (\<lambda>r. LInt 7) (tt_accesses reader_template ! 0) (Id ''Order'') (\<lambda>f. LInt 7) (FieldPath [''total''])"
  "touches (\<lambda>r. LInt 7) (tt_accesses writer_template ! 0) (Id ''Order'') (\<lambda>f. LInt 7) (FieldPath [''total''])"
  by code_simp+

lemma sample_genuine:
  "\<forall>(e, k, a, b, f) \<in> sample_history. genuine_dependency order_index sample_template (\<lambda>e r. LInt 7) e k a b f"
  using sample_accesses sample_touches
  by (auto simp: sample_history_def genuine_dependency_def sample_template_def sample_length sample_modes)

lemma sample_respects_evidence: "respects_evidence order_index sample_template (\<lambda>e. e) sample_history"
  by (auto simp: respects_evidence_def sample_history_def)

theorem proven_serializable_sound_witness:
  "acyclic (serialization_graph sample_template (conflict_closure order_index 0) sample_history)
   \<and> serialization_graph sample_template (conflict_closure order_index 0) sample_history = {(0, 1), (1, 2)}"
proof
  show "acyclic (serialization_graph sample_template (conflict_closure order_index 0) sample_history)"
    using proven_serializable_sound [OF _ sample_proven sample_genuine sample_respects_evidence] sample_length
    by simp
  have "0 \<in> set (conflict_closure order_index 0)" by code_simp
  then show "serialization_graph sample_template (conflict_closure order_index 0) sample_history = {(0, 1), (1, 2)}"
    by (auto simp: serialization_graph_def sample_history_def sample_template_def)
qed

text \<open>The lost update: one transaction that reads and overwrites under read committed.\<close>

definition lost_update_index :: conflict_index where
  "lost_update_index = build_index (order_model\<lparr>md_operations := [(Id ''pay'', sample_operation\<lparr>op_program :=
     Block [OsTransaction (sample_tx ''lost'' IsoReadCommitted
       [TsRead \<lparr>rd_bind = Id ''seen'', rd_target = order_selector, rd_fields = FsAll\<rparr>,
        TsUpdate \<lparr>up_target = order_selector, up_fields = [FieldPath [''total'']], up_values = DUnspecified\<rparr>]) None]\<rparr>)]\<rparr>)"

theorem reported_cycles_are_cycles_witness:
  "\<exists>d. dp_evidence d = EvNone \<and> dp_kind d = DkAntiDependency
     \<and> d \<in> set (dependencies lost_update_index [0])"
proof -
  let ?cs = "unconstrained_cycles lost_update_index [0] (dependencies lost_update_index [0])"
  have "?cs \<noteq> []" "uc_unconstrained (hd ?cs) \<noteq> []" "dp_kind (hd (uc_unconstrained (hd ?cs))) = DkAntiDependency"
    by code_simp+
  then show ?thesis
    using reported_cycles_are_cycles [of "hd ?cs" lost_update_index "[0]" "dependencies lost_update_index [0]"
        "hd (uc_unconstrained (hd ?cs))"]
    by (intro exI [of _ "hd (uc_unconstrained (hd ?cs))"]) auto
qed

end
