(* ===== verification/Analysis_Ordering.thy ===== *)
theory Analysis_Ordering
  imports Analysis_Serializability
begin

text \<open>
  The ordering prover (\<open>analyzer/verification/transaction_ordering.rs\<close>) with the value identity
  and managed-field queries it makes of the conflict index (\<open>same_value\<close>,
  \<open>key_identifies_domain\<close>, \<open>uncontrolled_managed_writers\<close>): the requirement's position must be
  persisted by a cursor or a fence of an instance the key identifies, nothing else may write
  the field, and the closure must be serializable.
\<close>

section \<open>Value identity within an operation\<close>

definition output_schema :: "operation \<Rightarrow> id \<Rightarrow> id list option" where
  "output_schema op out =
     find_map (\<lambda>(loc, tx). find_map (\<lambda>s. case s of
         TsEstablishTransactionOutput e \<Rightarrow> if eo_bind e = out then Some [eo_schema e] else None
       | _ \<Rightarrow> None) (tx_steps tx)) (transactions (op_program op))"

fun input_schemas :: "model \<Rightarrow> op_input \<Rightarrow> id list option" where
  "input_schemas m (InRequest r) = Some [ri_schema r]"
| "input_schemas m (InSubscription s) =
     (case si_messages s of
        MsOnly ids \<Rightarrow> Some ids
      | MsAll \<Rightarrow> map_option tp_messages (bm_get (md_topics m) (si_topic s)))"
| "input_schemas m (InOutbox i) = map_option (\<lambda>(_, ob). ob_messages ob) (model_outbox m (oi_outbox i))"

fun value_schemas :: "conflict_index \<Rightarrow> operation \<Rightarrow> value_source \<Rightarrow> id list option" where
  "value_schemas ix op (VsInput i) = Option.bind (bm_get (op_inputs op) i) (input_schemas (ci_model ix))"
| "value_schemas ix op (VsTransactionOutput out) = output_schema op out"
| "value_schemas ix op (VsStateMachineSubject mc) =
     Option.bind (bm_get (ci_states ix) mc) (\<lambda>(obj, _).
       map_option (\<lambda>d. [do_schema d]) (bm_get (ci_objects ix) obj))"
| "value_schemas ix op _ = None"

definition same_value :: "conflict_index \<Rightarrow> operation \<Rightarrow> value_ref \<Rightarrow> value_ref \<Rightarrow> bool" where
  "same_value ix op a b =
     (if vr_source a \<noteq> vr_source b then False
      else if vr_path a = vr_path b then True
      else case value_schemas ix op (vr_source a) of
        None \<Rightarrow> False
      | Some ss \<Rightarrow> ss \<noteq> [] \<and> (\<forall>s \<in> set ss.
          canonical_value_path (ci_model ix) s (vr_path a) \<noteq> None
          \<and> canonical_value_path (ci_model ix) s (vr_path a) = canonical_value_path (ci_model ix) s (vr_path b)))"

text \<open>The loop over the identity fields of \<open>key_identifies_domain\<close>.\<close>

fun key_loop ::
    "conflict_index \<Rightarrow> operation \<Rightarrow> value_ref \<Rightarrow> (field_path \<times> selector_value) list \<Rightarrow> field_path list
       \<Rightarrow> bool \<Rightarrow> bool" where
  "key_loop ix op key ps [] keyed = keyed"
| "key_loop ix op key ps (f # fs) keyed =
     (case find (\<lambda>p. fst p = f) ps of
        None \<Rightarrow> False
      | Some (_, SvLiteral _) \<Rightarrow> key_loop ix op key ps fs keyed
      | Some (_, SvValue r) \<Rightarrow>
          if same_value ix op r key then key_loop ix op key ps fs True else False)"

definition key_identifies_domain ::
    "conflict_index \<Rightarrow> operation \<Rightarrow> object_selector \<Rightarrow> value_ref \<Rightarrow> bool" where
  "key_identifies_domain ix op sel key =
     (case obj_identity ix (os_object sel) of
        None \<Rightarrow> False
      | Some fs \<Rightarrow> fs \<noteq> [] \<and> key_loop ix op key (pins (os_predicate sel)) fs False)"

section \<open>Managed fields\<close>

fun writes_field :: "field_path \<Rightarrow> access_fields \<Rightarrow> bool" where
  "writes_field f (AfOnly fs) \<longleftrightarrow> (\<exists>w \<in> set fs. starts_with w f \<or> starts_with f w)"
| "writes_field f _ \<longleftrightarrow> True"

definition upsert_touches :: "transaction \<Rightarrow> nat \<Rightarrow> field_path \<Rightarrow> bool" where
  "upsert_touches tx step f =
     (case tx_steps tx ! step of
        TsUpsert u \<Rightarrow> writes_field f (AfOnly (us_update_fields u)) | _ \<Rightarrow> True)"

definition uncontrolled ::
    "tx_template \<Rightarrow> field_path \<Rightarrow> cursor_advance_rule option \<Rightarrow> tx_access \<Rightarrow> bool" where
  "uncontrolled t f rule a =
     (case acc_mode a of
        AmUpdate \<Rightarrow> writes_field f (acc_fields a)
      | AmCompareWrite \<Rightarrow> writes_field f (acc_fields a)
      | AmUpsertReadWrite \<Rightarrow> upsert_touches (tt_transaction t) (acc_step a) f
      | AmCursorReadWrite \<Rightarrow> acc_field a = Some f \<and> acc_rule a \<noteq> rule
      | AmFenceReadWrite \<Rightarrow> acc_field a = Some f \<and> rule \<noteq> None
      | _ \<Rightarrow> False)"

definition uncontrolled_managed_writers ::
    "conflict_index \<Rightarrow> id \<Rightarrow> field_path \<Rightarrow> cursor_advance_rule option \<Rightarrow> (tx_ref \<times> nat) list" where
  "uncontrolled_managed_writers ix obj f rule =
     concat (map (\<lambda>t. map (\<lambda>a. (tt_reference t, acc_step a))
         (filter (\<lambda>a. acc_object a = obj \<and> uncontrolled t f rule a) (tt_accesses t)))
       (ci_templates ix))"

section \<open>The prover\<close>

datatype ordering_proof =
    OpCursor value_ref value_ref managed_field cursor_advance_rule nat serializability_proof
  | OpFence value_ref value_ref managed_field nat serializability_proof

datatype ordering_obstacle =
    OoNotIndexed id id
  | OoMissingSerializability "serializability_obstacle list"
  | OoMissingCursorOrFence
  | OoPositionMismatch nat value_ref
  | OoKeyDomainMismatch nat id
  | OoUncontrolledWriter tx_ref nat managed_field

datatype ordering_route =
    RtCursor nat object_selector field_path cursor_advance_rule
  | RtFence nat object_selector field_path

text \<open>The route loop: it stops at the first guard whose incoming value is the position.\<close>

fun route_loop ::
    "conflict_index \<Rightarrow> operation \<Rightarrow> value_ref \<Rightarrow> (nat \<times> tx_step) list \<Rightarrow> ordering_obstacle list
       \<Rightarrow> ordering_route option \<times> ordering_obstacle list" where
  "route_loop ix op pos [] mis = (None, mis)"
| "route_loop ix op pos ((step, TsAdvanceCursor s) # ss) mis =
     (if same_value ix op (ac_incoming s) pos
      then (Some (RtCursor step (ac_target s) (ac_field s) (ac_rule s)), mis)
      else route_loop ix op pos ss (mis @ [OoPositionMismatch step (ac_incoming s)]))"
| "route_loop ix op pos ((step, TsFence s) # ss) mis =
     (if same_value ix op (fe_token s) pos
      then (Some (RtFence step (fe_target s) (fe_field s)), mis)
      else route_loop ix op pos ss (mis @ [OoPositionMismatch step (fe_token s)]))"
| "route_loop ix op pos (_ # ss) mis = route_loop ix op pos ss mis"

definition guard_obstacles ::
    "conflict_index \<Rightarrow> operation \<Rightarrow> value_ref \<Rightarrow> nat \<Rightarrow> object_selector \<Rightarrow> field_path
       \<Rightarrow> cursor_advance_rule option \<Rightarrow> ordering_obstacle list" where
  "guard_obstacles ix op key step target f rule =
     (if key_identifies_domain ix op target key then [] else [OoKeyDomainMismatch step (os_object target)])
     @ map (\<lambda>(t, s). OoUncontrolledWriter t s \<lparr>mf_object = os_object target, mf_field = f\<rparr>)
         (uncontrolled_managed_writers ix (os_object target) f rule)"

fun route_obstacles ::
    "conflict_index \<Rightarrow> operation \<Rightarrow> value_ref \<Rightarrow> ordering_route option \<times> ordering_obstacle list
       \<Rightarrow> ordering_obstacle list" where
  "route_obstacles ix op key (Some (RtCursor step target f rule), mis) =
     guard_obstacles ix op key step target f (Some rule)"
| "route_obstacles ix op key (Some (RtFence step target f), mis) =
     guard_obstacles ix op key step target f None"
| "route_obstacles ix op key (None, mis) = (if mis = [] then [OoMissingCursorOrFence] else mis)"

fun ordering_proof_of ::
    "ordering_requirement \<Rightarrow> ordering_route \<Rightarrow> serializability_proof \<Rightarrow> ordering_proof" where
  "ordering_proof_of r (RtCursor step target f rule) p =
     OpCursor (or_key r) (or_position r) \<lparr>mf_object = os_object target, mf_field = f\<rparr> rule step p"
| "ordering_proof_of r (RtFence step target f) p =
     OpFence (or_key r) (or_position r) \<lparr>mf_object = os_object target, mf_field = f\<rparr> step p"

definition prove_ordering ::
    "conflict_index \<Rightarrow> nat \<Rightarrow> ordering_requirement \<Rightarrow> ordering_obstacle list + ordering_proof" where
  "prove_ordering ix position r =
     (let t = ci_templates ix ! position; ref = tt_reference t
      in case bm_get (md_operations (ci_model ix)) (xr_operation ref) of
           None \<Rightarrow> Inl [OoNotIndexed (xr_operation ref) (xr_transaction ref)]
         | Some op \<Rightarrow>
             (let route = route_loop ix op (or_position r) (List.enumerate 0 (tx_steps (tt_transaction t))) [];
                  obstacles = route_obstacles ix op (or_key r) route
              in case prove_serializable ix position (or_key r) of
                   Inl nested \<Rightarrow> Inl (obstacles @ [OoMissingSerializability nested])
                 | Inr p \<Rightarrow>
                     if obstacles \<noteq> [] then Inl obstacles
                     else Inr (ordering_proof_of r (the (fst route)) p)))"

datatype ordering_verdict =
    OrdProven ordering_proof proof_scope
  | OrdUnproven "ordering_obstacle list"

record ordering_check =
  ok_operation :: id
  ok_transaction :: id
  ok_location :: step_location
  ok_requirement :: nat
  ok_key :: value_ref
  ok_position :: value_ref
  ok_verdict :: ordering_verdict
  ok_artifacts :: "commit_artifact list"

definition check_ordering :: "model \<Rightarrow> ordering_check list" where
  "check_ordering m =
     (let ix = build_index m
      in concat (map (\<lambda>(position, t).
           map (\<lambda>(requirement, declared).
               \<lparr>ok_operation = xr_operation (tt_reference t),
                ok_transaction = xr_transaction (tt_reference t),
                ok_location = xr_location (tt_reference t),
                ok_requirement = requirement, ok_key = or_key declared, ok_position = or_position declared,
                ok_verdict = (case prove_ordering ix position declared of
                    Inr p \<Rightarrow> OrdProven p L0Only | Inl obs \<Rightarrow> OrdUnproven obs),
                ok_artifacts = tt_artifacts t\<rparr>)
             (List.enumerate 0 (tr_ordering (tx_requirements (tt_transaction t)))))
           (List.enumerate 0 (ci_templates ix))))"

section \<open>Lemmas\<close>

lemma route_loop_sound:
  "route_loop ix op pos ss mis = (Some route, mis') \<Longrightarrow>
     (\<exists>step s. (step, TsAdvanceCursor s) \<in> set ss \<and> same_value ix op (ac_incoming s) pos
        \<and> route = RtCursor step (ac_target s) (ac_field s) (ac_rule s))
     \<or> (\<exists>step s. (step, TsFence s) \<in> set ss \<and> same_value ix op (fe_token s) pos
        \<and> route = RtFence step (fe_target s) (fe_field s))"
  by (induction ix op pos ss mis rule: route_loop.induct) (auto split: if_splits)

lemma key_loop_sound:
  assumes "\<forall>r. same_value ix op r key \<longrightarrow> env r = env key \<and> env' r = env' key"
    and "\<forall>(f, v) \<in> set ps. inst f = selector_literal env v"
    and "\<forall>(f, v) \<in> set ps. inst' f = selector_literal env' v"
  shows "key_loop ix op key ps fs keyed \<Longrightarrow>
    (env key = env' key \<longrightarrow> (\<forall>f \<in> set fs. inst f = inst' f))
    \<and> ((\<forall>f \<in> set fs. inst f = inst' f) \<longrightarrow> keyed \<or> env key = env' key)"
proof (induction fs arbitrary: keyed)
  case (Cons f fs)
  obtain v where v: "(f, v) \<in> set ps" "find (\<lambda>p. fst p = f) ps = Some (f, v)"
    using Cons.prems by (auto dest: find_SomeD split: option.splits)
  have inst: "inst f = selector_literal env v" "inst' f = selector_literal env' v"
    using assms(2,3) v(1) by auto
  show ?case
  proof (cases v)
    case (SvLiteral l)
    then show ?thesis using Cons v inst by auto
  next
    case (SvValue r)
    then have "same_value ix op r key" "key_loop ix op key ps fs True"
      using Cons.prems v by (auto split: if_splits)
    then show ?thesis
      using Cons.IH [of True] assms(1) inst SvValue by auto
  qed
qed simp

lemma guard_obstacles_empty:
  "guard_obstacles ix op key step target f rule = [] \<longleftrightarrow>
     key_identifies_domain ix op target key
     \<and> (\<forall>t \<in> set (ci_templates ix). \<forall>a \<in> set (tt_accesses t).
          acc_object a = os_object target \<longrightarrow> \<not> uncontrolled t f rule a)"
  by (auto simp: guard_obstacles_def uncontrolled_managed_writers_def filter_empty_conv)

lemma prove_ordering_Inr:
  assumes "prove_ordering ix position r = Inr p"
  shows "\<exists>op route mis ser. bm_get (md_operations (ci_model ix)) (xr_operation (tt_reference (ci_templates ix ! position))) = Some op
    \<and> route_loop ix op (or_position r)
        (List.enumerate 0 (tx_steps (tt_transaction (ci_templates ix ! position)))) [] = (Some route, mis)
    \<and> route_obstacles ix op (or_key r) (Some route, mis) = []
    \<and> prove_serializable ix position (or_key r) = Inr ser \<and> p = ordering_proof_of r route ser"
proof -
  let ?t = "ci_templates ix ! position"
  obtain op where op: "bm_get (md_operations (ci_model ix)) (xr_operation (tt_reference ?t)) = Some op"
    using assms by (auto simp: prove_ordering_def Let_def split: option.splits)
  obtain route mis where r: "route_loop ix op (or_position r) (List.enumerate 0 (tx_steps (tt_transaction ?t))) [] = (route, mis)"
    by force
  obtain ser where ser: "prove_serializable ix position (or_key r) = Inr ser"
    using assms op by (auto simp: prove_ordering_def Let_def split: sum.splits)
  have obs: "route_obstacles ix op (or_key r) (route, mis) = []"
    using assms op r ser by (auto simp: prove_ordering_def Let_def split: if_splits)
  then obtain rt where "route = Some rt" by (cases route) (auto split: if_splits)
  then show ?thesis using assms op r ser obs by (auto simp: prove_ordering_def Let_def)
qed

lemma enumerate_step: "(i, s) \<in> set (List.enumerate 0 xs) \<longleftrightarrow> i < length xs \<and> xs ! i = s"
  by (auto simp: in_set_enumerate_eq)

section \<open>Commits of a cursor's field\<close>

text \<open>
  A write of the managed field of one live instance: the access that performs it and the value
  before and after. A cursor advance commits only when its rule admits the new position
  (\<open>CursorAdvanceRule\<close>).
\<close>

record field_write =
  fw_template :: tx_template
  fw_access :: tx_access
  fw_old :: int
  fw_new :: int

fun rule_admits :: "cursor_advance_rule \<Rightarrow> int \<Rightarrow> int \<Rightarrow> bool" where
  "rule_admits Successor s p \<longleftrightarrow> p = s + 1"
| "rule_admits MonotonicAfter s p \<longleftrightarrow> p > s"

definition writes_managed :: "field_path \<Rightarrow> tx_template \<Rightarrow> tx_access \<Rightarrow> bool" where
  "writes_managed f t a \<longleftrightarrow>
     (case acc_mode a of
        AmUpdate \<Rightarrow> writes_field f (acc_fields a)
      | AmCompareWrite \<Rightarrow> writes_field f (acc_fields a)
      | AmUpsertReadWrite \<Rightarrow> upsert_touches (tt_transaction t) (acc_step a) f
      | AmCursorReadWrite \<Rightarrow> acc_field a = Some f
      | AmFenceReadWrite \<Rightarrow> acc_field a = Some f
      | _ \<Rightarrow> False)"

fun field_history :: "conflict_index \<Rightarrow> id \<Rightarrow> field_path \<Rightarrow> int \<Rightarrow> field_write list \<Rightarrow> bool" where
  "field_history ix obj f s [] = True"
| "field_history ix obj f s (w # ws) \<longleftrightarrow>
     fw_template w \<in> set (ci_templates ix) \<and> fw_access w \<in> set (tt_accesses (fw_template w))
     \<and> acc_object (fw_access w) = obj \<and> writes_managed f (fw_template w) (fw_access w)
     \<and> fw_old w = s
     \<and> (acc_mode (fw_access w) = AmCursorReadWrite \<longrightarrow>
          (\<exists>rule. acc_rule (fw_access w) = Some rule \<and> rule_admits rule (fw_old w) (fw_new w)))
     \<and> field_history ix obj f (fw_new w) ws"

lemma controlled_write_is_advance:
  "writes_managed f t a \<Longrightarrow> \<not> uncontrolled t f (Some rule) a \<Longrightarrow>
     acc_mode a = AmCursorReadWrite \<and> acc_rule a = Some rule"
  by (cases "acc_mode a") (auto simp: writes_managed_def uncontrolled_def)

lemma rule_admits_less: "rule_admits rule s p \<Longrightarrow> s < p"
  by (cases rule) auto

lemma controlled_history:
  assumes "\<forall>t \<in> set (ci_templates ix). \<forall>a \<in> set (tt_accesses t).
             acc_object a = obj \<longrightarrow> \<not> uncontrolled t f (Some rule) a"
  shows "field_history ix obj f s ws \<Longrightarrow>
    sorted_wrt (<) (s # map fw_new ws)
    \<and> (\<forall>w \<in> set ws. acc_mode (fw_access w) = AmCursorReadWrite \<and> rule_admits rule (fw_old w) (fw_new w))"
proof (induction ws arbitrary: s)
  case (Cons w ws)
  have "acc_mode (fw_access w) = AmCursorReadWrite" "acc_rule (fw_access w) = Some rule"
    using controlled_write_is_advance [of f "fw_template w" "fw_access w" rule] Cons.prems assms by auto
  moreover from this have "rule_admits rule (fw_old w) (fw_new w)" using Cons.prems by auto
  moreover have "s < fw_new w" using calculation(3) rule_admits_less Cons.prems by auto
  ultimately show ?case using Cons.IH [of "fw_new w"] Cons.prems by force
qed simp

lemma ordering_cursor_controlled:
  assumes "prove_ordering ix position r = Inr (OpCursor k pos mf rule step ser)"
  shows "\<forall>t \<in> set (ci_templates ix). \<forall>a \<in> set (tt_accesses t).
      acc_object a = mf_object mf \<longrightarrow> \<not> uncontrolled t (mf_field mf) (Some rule) a"
proof -
  obtain op route mis ser' where o: "route_obstacles ix op (or_key r) (Some route, mis) = []"
    "OpCursor k pos mf rule step ser = ordering_proof_of r route ser'"
    using prove_ordering_Inr [OF assms] by blast
  then show ?thesis by (cases route) (auto simp: guard_obstacles_empty)
qed

section \<open>Properties\<close>


text \<open>
  The requirement key and the guarded instance determine each other: for two executions
  that give canonically equal references equal values, equal keys select instances that agree
  on the whole identity, and instances that agree on it are selected under equal keys only.
\<close>

theorem key_domain_sound:
  assumes "key_identifies_domain ix op sel key" "obj_identity ix (os_object sel) = Some fs"
    and "\<forall>r. same_value ix op r key \<longrightarrow> env r = env key \<and> env' r = env' key"
    and "holds env inst (os_predicate sel)" "holds env' inst' (os_predicate sel)"
  shows "env key = env' key \<longleftrightarrow> (\<forall>f \<in> set fs. inst f = inst' f)"
proof -
  have "key_loop ix op key (pins (os_predicate sel)) fs False"
    using assms(1,2) by (simp add: key_identifies_domain_def)
  from key_loop_sound [OF assms(3) _ _ this] show ?thesis
    using assms(4,5) unfolding holds_iff_pins by blast
qed

text \<open>
  A proof of an ordering requirement names a real guard: the step it cites is a cursor
  advance (under the rule it cites) or a fence whose incoming value is the requirement's
  position, over an instance the key identifies, and the closure is proven serializable.
\<close>

theorem proven_ordering_guard:
  assumes "prove_ordering ix position r = Inr p"
  shows "\<exists>op ser. prove_serializable ix position (or_key r) = Inr ser
    \<and> (case p of
         OpCursor k pos mf rule step ser' \<Rightarrow>
           ser' = ser \<and> k = or_key r \<and> pos = or_position r
           \<and> step < length (tx_steps (tt_transaction (ci_templates ix ! position)))
           \<and> (\<exists>s. tx_steps (tt_transaction (ci_templates ix ! position)) ! step = TsAdvanceCursor s
                \<and> same_value ix op (ac_incoming s) pos \<and> ac_rule s = rule
                \<and> mf = \<lparr>mf_object = os_object (ac_target s), mf_field = ac_field s\<rparr>
                \<and> key_identifies_domain ix op (ac_target s) k)
       | OpFence k pos mf step ser' \<Rightarrow>
           ser' = ser \<and> k = or_key r \<and> pos = or_position r
           \<and> step < length (tx_steps (tt_transaction (ci_templates ix ! position)))
           \<and> (\<exists>s. tx_steps (tt_transaction (ci_templates ix ! position)) ! step = TsFence s
                \<and> same_value ix op (fe_token s) pos
                \<and> mf = \<lparr>mf_object = os_object (fe_target s), mf_field = fe_field s\<rparr>
                \<and> key_identifies_domain ix op (fe_target s) k))"
proof -
  obtain op route mis ser where o:
    "route_loop ix op (or_position r) (List.enumerate 0 (tx_steps (tt_transaction (ci_templates ix ! position)))) [] = (Some route, mis)"
    "route_obstacles ix op (or_key r) (Some route, mis) = []"
    "prove_serializable ix position (or_key r) = Inr ser" "p = ordering_proof_of r route ser"
    using prove_ordering_Inr [OF assms] by blast
  show ?thesis
    using route_loop_sound [OF o(1)] o(2-4)
    by (intro exI [of _ op] exI [of _ ser]) (auto simp: enumerate_step guard_obstacles_empty)
qed

section \<open>Witnesses\<close>

definition position_object :: object_selector where
  "position_object = \<lparr>os_object = Id ''Cursor'',
     os_predicate = PEq (FieldPath [''id'']) (SvValue sample_key)\<rparr>"

definition position_value :: value_ref where
  "position_value = ValueRef (VsInput (Id ''in'')) (FieldPath [''seq''])"

definition cursor_model :: "operation_step list \<Rightarrow> model" where
  "cursor_model extra = order_model\<lparr>
     md_data_models := [(Id ''dm'', \<lparr>dm_objects = [(Id ''Cursor'', \<lparr>do_schema = Id ''Order'',
         do_identity = [FieldPath [''id'']], do_version = None\<rparr>)], dm_outboxes = []\<rparr>)],
     md_operations := [(Id ''pay'', sample_operation\<lparr>op_program := Block
       (OsTransaction (sample_tx ''advance'' IsoSerializable
          [TsAdvanceCursor \<lparr>ac_target = position_object, ac_field = FieldPath [''at''],
             ac_incoming = position_value, ac_rule = MonotonicAfter, ac_compare = []\<rparr>]) None # extra)\<rparr>)]\<rparr>"

definition cursor_index :: conflict_index where
  "cursor_index = build_index (cursor_model [])"

definition cursor_requirement :: ordering_requirement where
  "cursor_requirement = \<lparr>or_key = sample_key, or_position = position_value\<rparr>"

definition cursor_field :: managed_field where
  "cursor_field = \<lparr>mf_object = Id ''Cursor'', mf_field = FieldPath [''at'']\<rparr>"

definition cursor_proof :: "conflict_index \<Rightarrow> ordering_proof" where
  "cursor_proof ix = OpCursor sample_key position_value cursor_field MonotonicAfter 0
     (projr (prove_serializable ix 0 sample_key))"

lemma cursor_proven: "prove_ordering cursor_index 0 cursor_requirement = Inr (cursor_proof cursor_index)"
  by code_simp

definition advance_write :: "int \<Rightarrow> int \<Rightarrow> field_write" where
  "advance_write s p = \<lparr>fw_template = ci_templates cursor_index ! 0,
     fw_access = tt_accesses (ci_templates cursor_index ! 0) ! 0, fw_old = s, fw_new = p\<rparr>"


theorem key_domain_sound_witness:
  "(LInt 1 = LInt (2 :: int)) = (\<forall>f \<in> set [FieldPath [''id'']]. LInt 1 = LInt 2)"
proof -
  have k: "key_identifies_domain cursor_index sample_operation position_object sample_key"
    "obj_identity cursor_index (os_object position_object) = Some [FieldPath [''id'']]"
    by code_simp+
  have h: "holds (\<lambda>r. LInt i) (\<lambda>f. LInt i) (os_predicate position_object)" for i
    by (simp add: position_object_def)
  show ?thesis
    using key_domain_sound [OF k _ h [of 1] h [of 2]] by simp
qed

theorem proven_ordering_guard_witness:
  "\<exists>s. tx_steps (tt_transaction (ci_templates cursor_index ! 0)) ! 0 = TsAdvanceCursor s
     \<and> ac_rule s = MonotonicAfter \<and> ac_field s = FieldPath [''at'']"
  using proven_ordering_guard [OF cursor_proven]
  by (auto simp: cursor_proof_def cursor_field_def)

text \<open>
  C1. The cursor route does not ask whether the guarded instance can be deleted. A model in
  which one transaction deletes the cursor's instance and another inserts it again is still
  proven ordered, although a new instance starts at a position of its own: positions 5 and 3
  can then commit in that order. (The version route does ask, through \<open>deleter\<close>.)
\<close>

definition reset_index :: conflict_index where
  "reset_index = build_index (cursor_model
     [OsTransaction (sample_tx ''remove'' IsoSerializable [TsDelete \<lparr>de_target = position_object\<rparr>]) None,
      OsTransaction (sample_tx ''create'' IsoSerializable
        [TsInsert \<lparr>in_object = Id ''Cursor'', in_values = DUnspecified\<rparr>]) None])"


end
