(* ===== verification/Design_Symbols.thy ===== *)
theory Design_Symbols
  imports Spec_Model "HOL-Library.Word"
begin

text \<open>
  Semantic symbols of the design engine: fingerprints (\<open>design/fingerprint.rs\<close>), symbol keys
  with their kind, owner and order (\<open>design/symbol.rs\<close>), and symbol versions.

  A \<open>SemanticHash\<close> is a list of bytes, each an \<open>8 word\<close>; \<open>hash_wf\<close> says that there are 32 of
  them. How content is hashed (\<open>serde_json\<close> and \<open>blake3\<close>) is not part of this repository and
  is a parameter of the theories that need it.
\<close>

section \<open>Fingerprints\<close>

datatype semantic_hash = SemanticHash (hash_bytes: "8 word list")

definition hash_wf :: "semantic_hash \<Rightarrow> bool" where
  "hash_wf h \<longleftrightarrow> length (hash_bytes h) = 32"

text \<open>The digits of \<open>{:02x}\<close>.\<close>

definition lower_hex_digit :: "nat \<Rightarrow> char" where
  "lower_hex_digit n = char_at (if n < 10 then 48 + n else 87 + n)"

definition hex_pair :: "8 word \<Rightarrow> string" where
  "hex_pair b = [lower_hex_digit (unat b div 16), lower_hex_digit (unat b mod 16)]"

definition to_hex :: "semantic_hash \<Rightarrow> string" where
  "to_hex h = concat (map hex_pair (hash_bytes h))"

text \<open>
  \<open>from_hex\<close>. A pair of bytes is read by \<open>str::from_utf8\<close> and \<open>u8::from_str_radix(_, 16)\<close>; the
  latter accepts a leading \<open>+\<close>.
\<close>

datatype hash_error = WrongLength nat | InvalidHex | NotAHexByte string

fun read_pairs :: "string \<Rightarrow> hash_error + 8 word list" where
  "read_pairs (a # b # rest) =
     (if \<not> utf8_valid [byte_of a, byte_of b] then Inl InvalidHex
      else case from_hex2 (byte_of a) (byte_of b) of
        None \<Rightarrow> Inl (NotAHexByte [a, b])
      | Some x \<Rightarrow> (case read_pairs rest of Inl e \<Rightarrow> Inl e | Inr xs \<Rightarrow> Inr (of_nat x # xs)))"
| "read_pairs _ = Inr []"

definition from_hex :: "string \<Rightarrow> hash_error + semantic_hash" where
  "from_hex s =
     (let text = trim s
      in if length text \<noteq> 64 then Inl (WrongLength (length text))
         else case read_pairs text of Inl e \<Rightarrow> Inl e | Inr bs \<Rightarrow> Inr (SemanticHash bs))"

text \<open>\<open>Display\<close>: the first six bytes and an ellipsis (U+2026, three bytes of UTF-8).\<close>

definition show_hash :: "semantic_hash \<Rightarrow> string" where
  "show_hash h = concat (map hex_pair (take 6 (hash_bytes h))) @ map char_at [226, 128, 166]"

section \<open>Symbol keys\<close>

datatype requirement_family =
    RfTransactionSerializability | RfTransactionOrdering | RfIdempotency | RfResultReplay
  | RfRecoverability

fun family_is_transactional :: "requirement_family \<Rightarrow> bool" where
  "family_is_transactional RfTransactionSerializability = True"
| "family_is_transactional RfTransactionOrdering = True"
| "family_is_transactional _ = False"

fun show_family :: "requirement_family \<Rightarrow> string" where
  "show_family RfTransactionSerializability = ''transaction_serializability''"
| "show_family RfTransactionOrdering = ''transaction_ordering''"
| "show_family RfIdempotency = ''idempotency''"
| "show_family RfResultReplay = ''result_replay''"
| "show_family RfRecoverability = ''recoverability''"

datatype obligation_id = ObligationId (obligation_text: string)

datatype (plugins only: code) symbol_key =
    KService id
  | KSchema id
  | KDataModel id
  | KDataObject id id
  | KOutbox id id
  | KTopic id
  | KStateMachine id
  | KTransition id id
  | KOperation id
  | KOperationInterface id
  | KOperationProgram id
  | KOperationRequirements id
  | KInput id id
  | KTransaction id id
  | KEffectSite id id
  | KBinding id id
  | KRequirement id requirement_family semantic_hash nat
  | KTopicRuntime id
  | KSubscriptionRuntime id id
  | KOutboxRuntime id id
  | KExecutionPool id
  | KRouter id
  | KStorageLayout id
  | KOperationSummary id
  | KPromptObligation obligation_id

datatype (plugins only: code) symbol_kind =
    SyService | SySchema | SyDataModel | SyDataObject | SyOutbox | SyTopic | SyStateMachine
  | SyTransition | SyOperation | SyOperationInterface | SyOperationProgram
  | SyOperationRequirements | SyTopicRuntime | SySubscriptionRuntime | SyOutboxRuntime
  | SyExecutionPool | SyRouter | SyStorageLayout | SyInput | SyTransaction | SyEffectSite
  | SyBinding | SyRequirement | SyOperationSummary | SyPromptObligation

fun symbol_kind_of :: "symbol_key \<Rightarrow> symbol_kind" where
  "symbol_kind_of (KService _) = SyService"
| "symbol_kind_of (KSchema _) = SySchema"
| "symbol_kind_of (KDataModel _) = SyDataModel"
| "symbol_kind_of (KDataObject _ _) = SyDataObject"
| "symbol_kind_of (KOutbox _ _) = SyOutbox"
| "symbol_kind_of (KTopic _) = SyTopic"
| "symbol_kind_of (KStateMachine _) = SyStateMachine"
| "symbol_kind_of (KTransition _ _) = SyTransition"
| "symbol_kind_of (KOperation _) = SyOperation"
| "symbol_kind_of (KOperationInterface _) = SyOperationInterface"
| "symbol_kind_of (KOperationProgram _) = SyOperationProgram"
| "symbol_kind_of (KOperationRequirements _) = SyOperationRequirements"
| "symbol_kind_of (KTopicRuntime _) = SyTopicRuntime"
| "symbol_kind_of (KSubscriptionRuntime _ _) = SySubscriptionRuntime"
| "symbol_kind_of (KOutboxRuntime _ _) = SyOutboxRuntime"
| "symbol_kind_of (KExecutionPool _) = SyExecutionPool"
| "symbol_kind_of (KRouter _) = SyRouter"
| "symbol_kind_of (KStorageLayout _) = SyStorageLayout"
| "symbol_kind_of (KInput _ _) = SyInput"
| "symbol_kind_of (KTransaction _ _) = SyTransaction"
| "symbol_kind_of (KEffectSite _ _) = SyEffectSite"
| "symbol_kind_of (KBinding _ _) = SyBinding"
| "symbol_kind_of (KRequirement _ _ _ _) = SyRequirement"
| "symbol_kind_of (KOperationSummary _) = SyOperationSummary"
| "symbol_kind_of (KPromptObligation _) = SyPromptObligation"

datatype symbol_owner = OwnerShared | OwnerOperation id

fun symbol_owner_of :: "symbol_key \<Rightarrow> symbol_owner" where
  "symbol_owner_of (KOperation i) = OwnerOperation i"
| "symbol_owner_of (KOperationInterface i) = OwnerOperation i"
| "symbol_owner_of (KOperationProgram i) = OwnerOperation i"
| "symbol_owner_of (KOperationRequirements i) = OwnerOperation i"
| "symbol_owner_of (KOperationSummary i) = OwnerOperation i"
| "symbol_owner_of (KInput opn _) = OwnerOperation opn"
| "symbol_owner_of (KTransaction opn _) = OwnerOperation opn"
| "symbol_owner_of (KEffectSite opn _) = OwnerOperation opn"
| "symbol_owner_of (KBinding opn _) = OwnerOperation opn"
| "symbol_owner_of (KRequirement opn _ _ _) = OwnerOperation opn"
| "symbol_owner_of _ = OwnerShared"

fun symbol_operation :: "symbol_key \<Rightarrow> id option" where
  "symbol_operation (KOperation i) = Some i"
| "symbol_operation (KOperationInterface i) = Some i"
| "symbol_operation (KOperationProgram i) = Some i"
| "symbol_operation (KOperationRequirements i) = Some i"
| "symbol_operation (KOperationSummary i) = Some i"
| "symbol_operation (KInput opn _) = Some opn"
| "symbol_operation (KTransaction opn _) = Some opn"
| "symbol_operation (KEffectSite opn _) = Some opn"
| "symbol_operation (KBinding opn _) = Some opn"
| "symbol_operation (KRequirement opn _ _ _) = Some opn"
| "symbol_operation _ = None"

text \<open>\<open>SymbolVersion\<close>.\<close>

datatype symbol_version = SymbolVersion (version_number: nat)

definition version_first :: symbol_version where
  "version_first = SymbolVersion 1"

definition version_next :: "symbol_version \<Rightarrow> symbol_version" where
  "version_next v = SymbolVersion (version_number v + 1)"

section \<open>The order of keys\<close>

text \<open>
  The derived order compares the constructors in the order they are declared and then the
  fields from left to right; a string is compared by its bytes. \<open>key_code\<close> spells a key as the
  list of what is compared.
\<close>

definition text_code :: "string \<Rightarrow> nat list" where
  "text_code s = map byte_of s"

definition id_code :: "id \<Rightarrow> nat list" where
  "id_code i = text_code (id_text i)"

fun family_rank :: "requirement_family \<Rightarrow> nat" where
  "family_rank RfTransactionSerializability = 0"
| "family_rank RfTransactionOrdering = 1"
| "family_rank RfIdempotency = 2"
| "family_rank RfResultReplay = 3"
| "family_rank RfRecoverability = 4"

fun key_code :: "symbol_key \<Rightarrow> nat list list" where
  "key_code (KService i) = [[0], id_code i]"
| "key_code (KSchema i) = [[1], id_code i]"
| "key_code (KDataModel i) = [[2], id_code i]"
| "key_code (KDataObject m i) = [[3], id_code m, id_code i]"
| "key_code (KOutbox m i) = [[4], id_code m, id_code i]"
| "key_code (KTopic i) = [[5], id_code i]"
| "key_code (KStateMachine i) = [[6], id_code i]"
| "key_code (KTransition m i) = [[7], id_code m, id_code i]"
| "key_code (KOperation i) = [[8], id_code i]"
| "key_code (KOperationInterface i) = [[9], id_code i]"
| "key_code (KOperationProgram i) = [[10], id_code i]"
| "key_code (KOperationRequirements i) = [[11], id_code i]"
| "key_code (KInput opn i) = [[12], id_code opn, id_code i]"
| "key_code (KTransaction opn i) = [[13], id_code opn, id_code i]"
| "key_code (KEffectSite opn i) = [[14], id_code opn, id_code i]"
| "key_code (KBinding opn i) = [[15], id_code opn, id_code i]"
| "key_code (KRequirement opn f h n) =
     [[16], id_code opn, [family_rank f], map unat (hash_bytes h), [n]]"
| "key_code (KTopicRuntime i) = [[17], id_code i]"
| "key_code (KSubscriptionRuntime opn i) = [[18], id_code opn, id_code i]"
| "key_code (KOutboxRuntime opn i) = [[19], id_code opn, id_code i]"
| "key_code (KExecutionPool i) = [[20], id_code i]"
| "key_code (KRouter i) = [[21], id_code i]"
| "key_code (KStorageLayout i) = [[22], id_code i]"
| "key_code (KOperationSummary i) = [[23], id_code i]"
| "key_code (KPromptObligation i) = [[24], text_code (obligation_text i)]"

lemma text_code_inject [simp]: "text_code s = text_code t \<longleftrightarrow> s = t"
  by (auto simp: text_code_def list_eq_iff_nth_eq)

lemma id_code_inject [simp]: "id_code i = id_code j \<longleftrightarrow> i = j"
  by (simp add: id_code_def id.expand) (metis id.expand)

lemma obligation_text_inject [simp]: "obligation_text i = obligation_text j \<longleftrightarrow> i = j"
  by (metis obligation_id.expand)

lemma family_rank_inject [simp]: "family_rank f = family_rank g \<longleftrightarrow> f = g"
  by (cases f; cases g; simp)

lemma hash_code_inject [simp]: "map unat (hash_bytes h) = map unat (hash_bytes g) \<longleftrightarrow> h = g"
  by (metis inj_map_eq_map injI semantic_hash.expand unsigned_word_eqI)

lemma key_code_inject [simp]: "key_code k = key_code l \<longleftrightarrow> k = l"
  by (cases k; cases l; simp)

instantiation symbol_key :: linorder
begin

definition less_eq_symbol_key :: "symbol_key \<Rightarrow> symbol_key \<Rightarrow> bool" where
  "less_eq_symbol_key k l \<longleftrightarrow> key_code k \<le> key_code l"

definition less_symbol_key :: "symbol_key \<Rightarrow> symbol_key \<Rightarrow> bool" where
  "less_symbol_key k l \<longleftrightarrow> key_code k < key_code l"

instance
proof
  fix k l m :: symbol_key
  show "k < l \<longleftrightarrow> k \<le> l \<and> \<not> l \<le> k"
    by (simp add: less_eq_symbol_key_def less_symbol_key_def less_le_not_le)
  show "k \<le> k" by (simp add: less_eq_symbol_key_def)
  show "k \<le> l \<Longrightarrow> l \<le> m \<Longrightarrow> k \<le> m" by (simp add: less_eq_symbol_key_def)
  show "k \<le> l \<Longrightarrow> l \<le> k \<Longrightarrow> k = l"
    by (simp add: less_eq_symbol_key_def flip: key_code_inject)
  show "k \<le> l \<or> l \<le> k" by (auto simp: less_eq_symbol_key_def)
qed

end

instantiation obligation_id :: linorder
begin

definition less_eq_obligation_id :: "obligation_id \<Rightarrow> obligation_id \<Rightarrow> bool" where
  "less_eq_obligation_id a b \<longleftrightarrow> obligation_text a \<le> obligation_text b"

definition less_obligation_id :: "obligation_id \<Rightarrow> obligation_id \<Rightarrow> bool" where
  "less_obligation_id a b \<longleftrightarrow> obligation_text a < obligation_text b"

instance
  by standard (auto simp: less_eq_obligation_id_def less_obligation_id_def less_le_not_le
      obligation_id.expand)

end

section \<open>Spelling keys\<close>

fun show_nat :: "nat \<Rightarrow> string" where
  "show_nat n =
     (if n < 10 then [char_at (48 + n)] else show_nat (n div 10) @ [char_at (48 + n mod 10)])"

definition show_one :: "string \<Rightarrow> string \<Rightarrow> string" where
  "show_one name i = name @ ''('' @ i @ '')''"

definition show_two :: "string \<Rightarrow> id \<Rightarrow> id \<Rightarrow> string" where
  "show_two name i j = name @ ''('' @ id_text i @ ''/'' @ id_text j @ '')''"

fun show_symbol :: "symbol_key \<Rightarrow> string" where
  "show_symbol (KService i) = show_one ''service'' (id_text i)"
| "show_symbol (KSchema i) = show_one ''schema'' (id_text i)"
| "show_symbol (KDataModel i) = show_one ''data_model'' (id_text i)"
| "show_symbol (KDataObject m i) = show_two ''data_object'' m i"
| "show_symbol (KOutbox m i) = show_two ''outbox'' m i"
| "show_symbol (KTopic i) = show_one ''topic'' (id_text i)"
| "show_symbol (KStateMachine i) = show_one ''state_machine'' (id_text i)"
| "show_symbol (KTransition m i) = show_two ''transition'' m i"
| "show_symbol (KOperation i) = show_one ''operation'' (id_text i)"
| "show_symbol (KOperationInterface i) = show_one ''operation_interface'' (id_text i)"
| "show_symbol (KOperationProgram i) = show_one ''operation_program'' (id_text i)"
| "show_symbol (KOperationRequirements i) = show_one ''operation_requirements'' (id_text i)"
| "show_symbol (KTopicRuntime i) = show_one ''topic_runtime'' (id_text i)"
| "show_symbol (KSubscriptionRuntime opn i) = show_two ''subscription_runtime'' opn i"
| "show_symbol (KOutboxRuntime opn i) = show_two ''outbox_runtime'' opn i"
| "show_symbol (KExecutionPool i) = show_one ''execution_pool'' (id_text i)"
| "show_symbol (KRouter i) = show_one ''router'' (id_text i)"
| "show_symbol (KStorageLayout i) = show_one ''storage_layout'' (id_text i)"
| "show_symbol (KInput opn i) = show_two ''input'' opn i"
| "show_symbol (KTransaction opn i) = show_two ''transaction'' opn i"
| "show_symbol (KEffectSite opn i) = show_two ''effect_site'' opn i"
| "show_symbol (KBinding opn i) = show_two ''binding'' opn i"
| "show_symbol (KRequirement opn f h n) =
     ''requirement('' @ id_text opn @ ''/'' @ show_family f @ ''/'' @ show_hash h @ ''#''
     @ show_nat n @ '')''"
| "show_symbol (KOperationSummary i) = show_one ''operation_summary'' (id_text i)"
| "show_symbol (KPromptObligation i) = show_one ''prompt_obligation'' (obligation_text i)"

declare show_nat.simps [simp del]

section \<open>Facts\<close>

text \<open>Whoever owns a key is the operation it belongs to.\<close>

lemma owner_operation:
  "symbol_owner_of k = (case symbol_operation k of None \<Rightarrow> OwnerShared | Some i \<Rightarrow> OwnerOperation i)"
  by (cases k) simp_all

lemma hex_pair_chars:
  "b < 16 \<Longrightarrow> hex_value (byte_of (lower_hex_digit b)) = Some b"
  "b < 16 \<Longrightarrow> \<not> ascii_space (lower_hex_digit b)"
  "b < 16 \<Longrightarrow> byte_of (lower_hex_digit b) < 128"
  "b < 16 \<Longrightarrow> byte_of (lower_hex_digit b) \<noteq> 43"
  by (auto simp: hex_value_def lower_hex_digit_def ascii_space_def)


lemma read_hex_pair:
  "read_pairs (hex_pair b @ rest)
     = (case read_pairs rest of Inl e \<Rightarrow> Inl e | Inr xs \<Rightarrow> Inr (b # xs))"
proof -
  have lt: "unat b div 16 < 16" "unat b mod 16 < 16"
    using unsigned_less [of b, where ?'a = nat] by auto
  then have "from_hex2 (byte_of (lower_hex_digit (unat b div 16))) (byte_of (lower_hex_digit (unat b mod 16)))
      = Some (unat b)"
    by (simp add: from_hex2_def hex_pair_chars)
  moreover have "utf8_valid [byte_of (lower_hex_digit (unat b div 16)), byte_of (lower_hex_digit (unat b mod 16))]"
    using lt by (simp add: hex_pair_chars)
  moreover have "of_nat (unat b) = b" by (metis of_nat_unat ucast_id)
  ultimately show ?thesis by (simp add: hex_pair_def del: utf8_valid.simps split: sum.split)
qed

lemma read_to_hex: "read_pairs (concat (map hex_pair bs)) = Inr bs"
proof (induction bs)
  case (Cons b bs)
  then show ?case using read_hex_pair [of b "concat (map hex_pair bs)"] by simp
qed simp

lemma to_hex_chars: "c \<in> set (to_hex h) \<Longrightarrow> \<not> ascii_space c"
proof -
  assume "c \<in> set (to_hex h)"
  then obtain b where "c = lower_hex_digit (unat (b :: 8 word) div 16) \<or> c = lower_hex_digit (unat b mod 16)"
    by (auto simp: to_hex_def hex_pair_def)
  moreover have "unat b div 16 < 16" "unat b mod 16 < 16"
    using unsigned_less [of b, where ?'a = nat] by auto
  ultimately show ?thesis using hex_pair_chars(2) by blast
qed

lemma trim_unspaced: "(\<And>c. c \<in> set s \<Longrightarrow> \<not> ascii_space c) \<Longrightarrow> trim s = s"
proof -
  assume no: "\<And>c. c \<in> set s \<Longrightarrow> \<not> ascii_space c"
  have drop: "dropWhile ascii_space t = t" if t: "set t \<subseteq> set s" for t
    using t no by (cases t) auto
  have "dropWhile ascii_space s = s" "dropWhile ascii_space (rev s) = rev s"
    by (rule drop; simp)+
  then show ?thesis by (simp add: trim_def)
qed

lemma length_to_hex: "length (to_hex h) = 2 * length (hash_bytes h)"
proof -
  have "length (concat (map hex_pair bs)) = 2 * length bs" for bs
    by (induction bs) (simp_all add: hex_pair_def)
  then show ?thesis by (simp add: to_hex_def)
qed

section \<open>Properties\<close>

text \<open>
  The hexadecimal form of a fingerprint reads back to the fingerprint.
\<close>

theorem fingerprint_round_trip:
  assumes "hash_wf h"
  shows "from_hex (to_hex h) = Inr h"
proof -
  have "trim (to_hex h) = to_hex h" using trim_unspaced to_hex_chars by blast
  moreover have "length (to_hex h) = 64" using assms by (simp add: length_to_hex hash_wf_def)
  ultimately show ?thesis
    by (simp add: from_hex_def to_hex_def read_to_hex)
qed

theorem fingerprint_round_trip_witness:
  "from_hex (to_hex (SemanticHash (replicate 32 (171 :: 8 word)))) = Inr (SemanticHash (replicate 32 171))"
  by (rule fingerprint_round_trip) (simp add: hash_wf_def)

text \<open>
  Reading a fingerprint also accepts texts that no fingerprint is written as: a pair may be
  a plus sign and one digit.
\<close>

theorem signed_fingerprint_accepted:
  "from_hex (concat (replicate 32 ''+f'')) = Inr (SemanticHash (replicate 32 15))
     \<and> to_hex (SemanticHash (replicate 32 15)) = concat (replicate 32 ''0f'')"
  by code_simp

end
