(* ===== verification/Design_Sketch.thy ===== *)
theory Design_Sketch
  imports Spec_Model
begin

text \<open>
  The sketch of an operation (\<open>design/sketch.rs\<close>): what its author writes with the interface,
  as typed business actions. Only the data is modelled here, with the accessors of value lists
  and declared errors; the compilation of a sketch into a program is not.

  A \<open>serde_json::Value\<close> is a \<open>json\<close>; the text of a number that is no integer is kept as it is.
\<close>

datatype json =
    JNull
  | JBool bool
  | JInt int
  | JNumber string
  | JString string
  | JArray "json list"
  | JObject "(string \<times> json) list"

datatype sketch_values = SvList "string list" | SvFields "(string, string) bmap"

definition values_default :: sketch_values where
  "values_default = SvList []"

fun values_refs :: "sketch_values \<Rightarrow> string list" where
  "values_refs (SvList vs) = vs"
| "values_refs (SvFields fs) = bm_values fs"

fun values_is_empty :: "sketch_values \<Rightarrow> bool" where
  "values_is_empty (SvList vs) = (vs = [])"
| "values_is_empty (SvFields fs) = (fs = [])"

fun values_fields :: "sketch_values \<Rightarrow> string bset option" where
  "values_fields (SvList _) = None"
| "values_fields (SvFields fs) = Some (bm_keys fs)"

text \<open>\<open>Values::check\<close>: \<open>None\<close> is success, \<open>Some f\<close> the first field the target lacks.\<close>

definition values_check :: "sketch_values \<Rightarrow> string bset \<Rightarrow> string option" where
  "values_check v target =
     (case values_fields v of
        None \<Rightarrow> None
      | Some fs \<Rightarrow> find (\<lambda>f. f \<notin> set target) fs)"

record lock_order_term =
  lt_field :: string
  lt_direction :: ordering_direction

datatype call_error = CeSchema id | CeDeclared id error_disposition

fun call_error_declared :: "call_error \<Rightarrow> error_result_type" where
  "call_error_declared (CeSchema s) = \<lparr>er_schema = s, er_disposition = EdUnspecified\<rparr>"
| "call_error_declared (CeDeclared s d) = \<lparr>er_schema = s, er_disposition = d\<rparr>"

record call_result =
  cl_ok :: id
  cl_errors :: "(id, call_error) bmap"

datatype sketch_condition =
    ScEquals "json list"
  | ScPresent string
  | ScNot sketch_condition
  | ScAll "sketch_condition list"
  | ScAny "sketch_condition list"
  | ScUnspecified string

text \<open>
  The fields of each action stand in the order of the source: \<open>SkFind alias record by all lock
  lock_order isolation\<close>, \<open>SkUpdate record set from\<close>, \<open>SkCreate record from isolation\<close>,
  \<open>SkUpsert record by from set update_from isolation\<close>, \<open>SkTransition record transition otherwise
  already_ok effects_from\<close>, \<open>SkAdvance record field to rule otherwise\<close>, \<open>SkEnqueue outbox schema
  from key\<close>, \<open>SkPublish topic schema from detached durable key\<close>, \<open>SkCall name alias identity
  duplicates result_replay result from on_ok on_error durable detached\<close>, \<open>SkDelete record\<close>,
  \<open>SkFence record field token otherwise\<close>, \<open>SkRequest operation input alias retry from on_ok
  on_error durable detached key\<close>, \<open>SkAnswer of on_ok on_error\<close>, \<open>SkWhen if then otherwise\<close>,
  \<open>SkReject error from\<close>, \<open>SkAbandon\<close>, \<open>SkParallel steps\<close>, \<open>SkRace steps alias on_ok on_error\<close>,
  \<open>SkStart step\<close>.
\<close>

datatype (plugins only: code size) sketch_step =
    SkFind string id "(string, json) bmap" bool "lock_mode option" "lock_order_term list"
      "isolation option"
  | SkUpdate string "string list" sketch_values
  | SkCreate id sketch_values "isolation option"
  | SkUpsert id "(string, json) bmap" sketch_values "string list" sketch_values "isolation option"
  | SkTransition string id "id option" bool "string list option"
  | SkAdvance string string string "cursor_advance_rule option" "id option"
  | SkEnqueue id id sketch_values "string list option"
  | SkPublish id id sketch_values bool bool "string list option"
  | SkCall string "string option" "string list option" external_idempotency external_result_replay
      "call_result option" sketch_values "sketch_step list" "(id \<times> sketch_step list) list" bool bool
  | SkDelete string
  | SkFence string string string "id option"
  | SkRequest id "id option" "string option" retry_semantics sketch_values "sketch_step list"
      "(id \<times> sketch_step list) list" bool bool "string list option"
  | SkAnswer string "sketch_step list" "(id \<times> sketch_step list) list"
  | SkWhen sketch_condition "sketch_step list" "sketch_step list"
  | SkReject id sketch_values
  | SkAbandon
  | SkParallel "sketch_step list"
  | SkRace "sketch_step list" "string option" "sketch_step list" "(id \<times> sketch_step list) list"
  | SkStart sketch_step

record operation_sketch =
  sk_steps :: "sketch_step list"
  sk_returns :: "string list option"
  sk_isolation :: "isolation option"
  sk_commit_key :: "string list option"
  sk_returns_for :: "id option"
  sk_on_rejected :: "sketch_step list"

lemma values_check_sound:
  "values_check v target = None \<longleftrightarrow> (\<forall>fs. values_fields v = Some fs \<longrightarrow> set fs \<subseteq> set target)"
  by (auto simp: values_check_def find_None_iff split: option.splits)

end
