(* ===== verification/Design_Workspace.thy ===== *)
theory Design_Workspace
  imports Design_Symbols Design_Sketch
begin

text \<open>
  The authoring workspace (\<open>design/workspace.rs\<close>): operation drafts with their stage, prompt
  obligations and requirement proposals, the run's adoption policy, and the two ways between a
  workspace and a model, \<open>assemble_model\<close> and \<open>from_model\<close>.
\<close>

section \<open>Operation drafts\<close>

datatype draft_stage = DsPlanned | DsProgramProposed | DsRequirementsProposed | DsReadyForAssembly

record interface_draft =
  if_service :: id
  if_description :: "string option"
  if_inputs :: "(id, op_input) bmap"
  if_sketch :: "operation_sketch option"

record draft_operation =
  dr_service :: id
  dr_description :: "string option"
  dr_inputs :: "(id, op_input) bmap"
  dr_sketch :: "operation_sketch option"
  dr_program :: "operation_block option"
  dr_requirements :: operation_requirements
  dr_stage :: draft_stage

definition draft_from_operation :: "operation \<Rightarrow> draft_operation" where
  "draft_from_operation p =
     \<lparr>dr_service = op_service p, dr_description = op_description p, dr_inputs = op_inputs p,
      dr_sketch = None, dr_program = Some (op_program p), dr_requirements = op_requirements p,
      dr_stage = DsReadyForAssembly\<rparr>"

definition planned :: "interface_draft \<Rightarrow> draft_operation" where
  "planned i =
     \<lparr>dr_service = if_service i, dr_description = if_description i, dr_inputs = if_inputs i,
      dr_sketch = if_sketch i, dr_program = None, dr_requirements = default_requirements,
      dr_stage = DsPlanned\<rparr>"

definition draft_interface :: "draft_operation \<Rightarrow> interface_draft" where
  "draft_interface d =
     \<lparr>if_service = dr_service d, if_description = dr_description d, if_inputs = dr_inputs d,
      if_sketch = dr_sketch d\<rparr>"

definition tx_requirements_is_empty :: "tx_requirements \<Rightarrow> bool" where
  "tx_requirements_is_empty r \<longleftrightarrow> tr_serializability r = [] \<and> tr_ordering r = []"

definition has_requirements :: "draft_operation \<Rightarrow> bool" where
  "has_requirements d \<longleftrightarrow>
     (case dr_program d of
        None \<Rightarrow> False
      | Some p \<Rightarrow> \<exists>(loc, t) \<in> set (transactions p). \<not> tx_requirements_is_empty (tx_requirements t))
     \<or> \<not> (oq_idempotency (dr_requirements d) = [] \<and> oq_recoverability (dr_requirements d) = [])"

definition recompute_stage :: "draft_operation \<Rightarrow> draft_operation" where
  "recompute_stage d =
     (if dr_stage d = DsReadyForAssembly then d
      else d\<lparr>dr_stage := (if dr_program d = None then DsPlanned
                         else if has_requirements d then DsRequirementsProposed
                         else DsProgramProposed)\<rparr>)"

definition assemblable :: "draft_operation \<Rightarrow> bool" where
  "assemblable d \<longleftrightarrow> dr_program d \<noteq> None"

section \<open>Obligations and proposals\<close>

record requirement_ref =
  rf_operation :: id
  rf_family :: requirement_family
  rf_transaction :: "id option"
  rf_index :: nat

datatype obligation_status =
    ObUnmapped
  | ObMapped "requirement_ref list"
  | ObUnsupported string
  | ObWaived

record prompt_obligation =
  po_source_span :: "string option"
  po_intent :: string
  po_targets :: "id list"
  po_status :: obligation_status

datatype proposed_requirement =
    PrSerializability id serializability_requirement
  | PrOrdering id ordering_requirement
  | PrIdempotency idempotency_requirement
  | PrRecoverability recoverability_requirement

fun proposed_family :: "proposed_requirement \<Rightarrow> requirement_family" where
  "proposed_family (PrSerializability _ _) = RfTransactionSerializability"
| "proposed_family (PrOrdering _ _) = RfTransactionOrdering"
| "proposed_family (PrIdempotency _) = RfIdempotency"
| "proposed_family (PrRecoverability _) = RfRecoverability"

fun proposed_transaction :: "proposed_requirement \<Rightarrow> id option" where
  "proposed_transaction (PrSerializability t _) = Some t"
| "proposed_transaction (PrOrdering t _) = Some t"
| "proposed_transaction (PrIdempotency _) = None"
| "proposed_transaction (PrRecoverability _) = None"

type_synonym evidence_ref = string

datatype requirement_origin =
    RoExplicitPrompt obligation_id
  | RoStronglyImplied string "evidence_ref list"
  | RoRecommended string "evidence_ref list"

datatype proposal_status =
    PsProposed
  | PsAdopted requirement_ref
  | PsAdvisory
  | PsDuplicate requirement_ref

record requirement_proposal =
  rp_operation :: id
  rp_requirement :: proposed_requirement
  rp_origin :: requirement_origin
  rp_status :: proposal_status

section \<open>Run metadata\<close>

record run_policy =
  pl_strict_requirements :: bool
  pl_adopt_recommended :: bool

definition default_policy :: run_policy where
  "default_policy = \<lparr>pl_strict_requirements = True, pl_adopt_recommended = False\<rparr>"

record run_metadata =
  rm_run :: string
  rm_policy :: run_policy

definition run_metadata_new :: "string \<Rightarrow> run_metadata" where
  "run_metadata_new r = \<lparr>rm_run = r, rm_policy = default_policy\<rparr>"

section \<open>The workspace\<close>

record workspace =
  ws_revision :: revision
  ws_services :: "(id, service) bmap"
  ws_schemas :: "(id, schema) bmap"
  ws_data_models :: "(id, data_model) bmap"
  ws_topics :: "(id, topic) bmap"
  ws_state_machines :: "(id, state_machine) bmap"
  ws_operations :: "(id, draft_operation) bmap"
  ws_runtime :: runtime_model
  ws_obligations :: "(obligation_id, prompt_obligation) bmap"
  ws_proposals :: "requirement_proposal list"
  ws_run_meta :: run_metadata

definition workspace_empty :: "run_metadata \<Rightarrow> workspace" where
  "workspace_empty meta =
     \<lparr>ws_revision = 0, ws_services = [], ws_schemas = [], ws_data_models = [], ws_topics = [],
      ws_state_machines = [], ws_operations = [], ws_runtime = runtime_default,
      ws_obligations = [], ws_proposals = [], ws_run_meta = meta\<rparr>"

datatype assembly_gap = MissingProgram id

text \<open>
  The loop of \<open>assemble_model\<close>: every draft with a program becomes an operation, every other one
  a gap.
\<close>

definition assembled_operation :: "draft_operation \<Rightarrow> operation_block \<Rightarrow> operation" where
  "assembled_operation d p =
     \<lparr>op_service = dr_service d, op_description = dr_description d, op_inputs = dr_inputs d,
      op_program = p, op_requirements = dr_requirements d\<rparr>"

fun assemble_operations ::
    "(id, draft_operation) bmap \<Rightarrow> assembly_gap list \<times> (id, operation) bmap" where
  "assemble_operations [] = ([], [])"
| "assemble_operations ((i, d) # ds) =
     (let (gaps, ops) = assemble_operations ds
      in case dr_program d of
           Some p \<Rightarrow> (gaps, (i, assembled_operation d p) # ops)
         | None \<Rightarrow> (MissingProgram i # gaps, ops))"

definition assembled_runtime :: "runtime_model \<Rightarrow> runtime_model option" where
  "assembled_runtime r = (if runtime_is_empty r then None else Some r)"

definition assemble_model :: "workspace \<Rightarrow> assembly_gap list + model" where
  "assemble_model w =
     (let (gaps, ops) = assemble_operations (ws_operations w)
      in if gaps \<noteq> [] then Inl gaps
         else Inr \<lparr>md_dsl = dsl_version, md_revision = ws_revision w, md_services = ws_services w,
           md_schemas = ws_schemas w, md_data_models = ws_data_models w, md_topics = ws_topics w,
           md_state_machines = ws_state_machines w, md_operations = ops,
           md_runtime = assembled_runtime (ws_runtime w)\<rparr>)"

definition from_model :: "model \<Rightarrow> run_metadata \<Rightarrow> workspace" where
  "from_model m meta =
     \<lparr>ws_revision = md_revision m, ws_services = md_services m, ws_schemas = md_schemas m,
      ws_data_models = md_data_models m, ws_topics = md_topics m,
      ws_state_machines = md_state_machines m,
      ws_operations = map (\<lambda>(i, p). (i, draft_from_operation p)) (md_operations m),
      ws_runtime = get_or runtime_default (md_runtime m),
      ws_obligations = [], ws_proposals = [], ws_run_meta = meta\<rparr>"

section \<open>Facts\<close>

lemma recompute_stage_fields [simp]:
  "dr_service (recompute_stage d) = dr_service d"
  "dr_description (recompute_stage d) = dr_description d"
  "dr_inputs (recompute_stage d) = dr_inputs d"
  "dr_sketch (recompute_stage d) = dr_sketch d"
  "dr_program (recompute_stage d) = dr_program d"
  "dr_requirements (recompute_stage d) = dr_requirements d"
  "draft_interface (recompute_stage d) = draft_interface d"
  by (simp_all add: recompute_stage_def draft_interface_def)

lemma has_requirements_recompute [simp]: "has_requirements (recompute_stage d) = has_requirements d"
  by (simp add: has_requirements_def)

lemma recompute_stage_idem [simp]: "recompute_stage (recompute_stage d) = recompute_stage d"
proof (cases "dr_stage d = DsReadyForAssembly")
  case False
  then have "dr_stage (recompute_stage d) = (if dr_program d = None then DsPlanned
      else if has_requirements d then DsRequirementsProposed else DsProgramProposed)"
    by (simp add: recompute_stage_def)
  then show ?thesis by (simp add: recompute_stage_def has_requirements_def)
qed (simp add: recompute_stage_def)

lemma assemble_gaps:
  "fst (assemble_operations ds) = map (MissingProgram \<circ> fst) (filter (\<lambda>(i, d). dr_program d = None) ds)"
  by (induction ds rule: assemble_operations.induct)
     (auto simp: case_prod_unfold Let_def split: option.splits)

lemma assemble_from_operations:
  "assemble_operations (map (\<lambda>(i, p). (i, draft_from_operation p)) ops) = ([], ops)"
  by (induction ops)
     (auto simp: draft_from_operation_def assembled_operation_def)

lemma assemble_operations_get:
  assumes "fst (assemble_operations ds) = []"
  shows "bm_keys (snd (assemble_operations ds)) = bm_keys ds
    \<and> bm_get (snd (assemble_operations ds)) i
        = Option.bind (bm_get ds i) (\<lambda>d. map_option (assembled_operation d) (dr_program d))"
  using assms
  by (induction ds rule: assemble_operations.induct)
     (auto simp: case_prod_unfold Let_def split: option.splits)

section \<open>Properties\<close>

text \<open>
  A model survives its stay in a workspace: assembling the workspace made of a model gives
  the model back, at this program's DSL version and with an empty runtime dropped.
\<close>

theorem assemble_from_model:
  "assemble_model (from_model m meta)
     = Inr (m\<lparr>md_dsl := dsl_version,
              md_runtime := (case md_runtime m of None \<Rightarrow> None | Some r \<Rightarrow> assembled_runtime r)\<rparr>)"
proof -
  have "assemble_operations (map (\<lambda>(i, p). (i, draft_from_operation p)) (md_operations m))
      = ([], md_operations m)"
    by (rule assemble_from_operations)
  moreover have "assembled_runtime runtime_default = None"
    by (simp add: assembled_runtime_def runtime_is_empty_def runtime_default_def)
  ultimately show ?thesis
    by (simp add: assemble_model_def from_model_def split: option.split)
qed

text \<open>
  Assembly succeeds exactly when every draft has a program. A failure names every draft
  without one, in the order of the map; a success carries each draft's service, inputs, program
  and requirements and changes nothing shared.
\<close>

theorem assembly_exact:
  "(case assemble_model w of
      Inl gaps \<Rightarrow> gaps = map MissingProgram (bm_keys (filter (\<lambda>(i, d). \<not> assemblable d) (ws_operations w)))
                  \<and> gaps \<noteq> []
    | Inr m \<Rightarrow> list_all (\<lambda>(i, d). assemblable d) (ws_operations w)
        \<and> bm_keys (md_operations m) = bm_keys (ws_operations w)
        \<and> (\<forall>i. bm_get (md_operations m) i
              = Option.bind (bm_get (ws_operations w) i) (\<lambda>d. map_option (assembled_operation d) (dr_program d)))
        \<and> md_schemas m = ws_schemas w \<and> md_data_models m = ws_data_models w
        \<and> md_topics m = ws_topics w \<and> md_state_machines m = ws_state_machines w
        \<and> md_services m = ws_services w \<and> md_revision m = ws_revision w
        \<and> md_runtime m = assembled_runtime (ws_runtime w))"
proof (cases "fst (assemble_operations (ws_operations w)) = []")
  case False
  have "filter (\<lambda>(i, d). dr_program d = None) (ws_operations w)
      = filter (\<lambda>(i, d). \<not> assemblable d) (ws_operations w)"
    by (rule filter_cong) (auto simp: assemblable_def)
  then have "fst (assemble_operations (ws_operations w))
      = map MissingProgram (bm_keys (filter (\<lambda>(i, d). \<not> assemblable d) (ws_operations w)))"
    by (simp add: assemble_gaps)
  with False show ?thesis by (simp add: assemble_model_def case_prod_unfold Let_def)
next
  case True
  then have "list_all (\<lambda>(i, d). assemblable d) (ws_operations w)"
    by (auto simp: assemble_gaps filter_empty_conv assemblable_def list_all_iff)
  with True assemble_operations_get [OF True] show ?thesis
    by (simp add: assemble_model_def case_prod_unfold Let_def)
qed

end
