(* ===== verification/Design_Patch.thy ===== *)
theory Design_Patch
  imports Design_Workspace
begin

text \<open>
  Patches (\<open>design/patch.rs\<close>): the mutations a commit is made of, the symbol each is addressed
  to, the symbols it may change, and the external symbols it references; and the write scopes
  that authorize them (\<open>design/task.rs\<close>).
\<close>

section \<open>Mutations\<close>

record requirement_submission =
  rs_requirement :: proposed_requirement
  rs_origin :: requirement_origin

datatype (plugins only: code) mutation =
    PutService id service
  | PutSchema id schema
  | PutDataModel id data_model
  | PutTopic id topic
  | PutStateMachine id state_machine
  | PutOperationInterface id interface_draft
  | ReplaceOperationProgram id operation_block
  | ReplaceOperationRequirements id operation_requirements
  | PutTopicRuntime id topic_runtime
  | PutSubscriptionRuntime id id subscription_runtime
  | PutOutboxRuntime id id outbox_runtime
  | PutExecutionPool id execution_pool
  | PutRouter id router
  | PutStorageLayout id storage_layout
  | ProposeRequirements id "requirement_submission list"
  | PutPromptObligation obligation_id prompt_obligation
  | DeleteTopLevel symbol_key

type_synonym spec_patch = "mutation list"

fun write_target :: "mutation \<Rightarrow> symbol_key" where
  "write_target (PutService i _) = KService i"
| "write_target (PutSchema i _) = KSchema i"
| "write_target (PutDataModel i _) = KDataModel i"
| "write_target (PutTopic i _) = KTopic i"
| "write_target (PutStateMachine i _) = KStateMachine i"
| "write_target (PutOperationInterface opn _) = KOperationInterface opn"
| "write_target (ReplaceOperationProgram opn _) = KOperationProgram opn"
| "write_target (ReplaceOperationRequirements opn _) = KOperationRequirements opn"
| "write_target (PutTopicRuntime t _) = KTopicRuntime t"
| "write_target (PutSubscriptionRuntime opn i _) = KSubscriptionRuntime opn i"
| "write_target (PutOutboxRuntime opn i _) = KOutboxRuntime opn i"
| "write_target (PutExecutionPool i _) = KExecutionPool i"
| "write_target (PutRouter i _) = KRouter i"
| "write_target (PutStorageLayout i _) = KStorageLayout i"
| "write_target (ProposeRequirements opn _) = KOperationRequirements opn"
| "write_target (PutPromptObligation i _) = KPromptObligation i"
| "write_target (DeleteTopLevel k) = k"

fun conflict_footprint :: "mutation \<Rightarrow> symbol_key list" where
  "conflict_footprint (ProposeRequirements opn ps) =
     KOperationRequirements opn
     # (if \<exists>p \<in> set ps. proposed_transaction (rs_requirement p) \<noteq> None
        then [KOperationProgram opn] else [])"
| "conflict_footprint m = [write_target m]"

fun mutation_operation :: "mutation \<Rightarrow> id option" where
  "mutation_operation (PutOperationInterface opn _) = Some opn"
| "mutation_operation (ReplaceOperationProgram opn _) = Some opn"
| "mutation_operation (ReplaceOperationRequirements opn _) = Some opn"
| "mutation_operation (ProposeRequirements opn _) = Some opn"
| "mutation_operation _ = None"

definition write_targets :: "spec_patch \<Rightarrow> symbol_key list" where
  "write_targets p = bs_collect (concat (map conflict_footprint p))"

section \<open>External references\<close>

fun type_refs :: "type_ref \<Rightarrow> id list" where
  "type_refs (TScalar _) = []"
| "type_refs (TSchema i) = [i]"
| "type_refs (TList t) = type_refs t"

definition result_refs :: "result_type \<Rightarrow> symbol_key list" where
  "result_refs r = KSchema (rt_ok r) # map (\<lambda>c. KSchema (er_schema c)) (bm_values (rt_errors r))"

fun input_refs :: "op_input \<Rightarrow> symbol_key list" where
  "input_refs (InRequest r) = KSchema (ri_schema r) # result_refs (ri_result r)"
| "input_refs (InSubscription s) =
     KTopic (si_topic s) # (case si_messages s of MsAll \<Rightarrow> [] | MsOnly ss \<Rightarrow> map KSchema ss)"
| "input_refs (InOutbox _) = []"

fun effect_refs :: "effect \<Rightarrow> symbol_key list" where
  "effect_refs (EfPublication p) = [KTopic (pe_topic p), KSchema (pe_schema p)]"
| "effect_refs (EfRequest r) = [KOperationInterface (rq_operation (re_target r)), KSchema (re_schema r)]"
| "effect_refs (EfExternal x) = (case xe_result x of None \<Rightarrow> [] | Some r \<Rightarrow> result_refs r)"
| "effect_refs (EfOutboxWrite w) = [KSchema (ow_schema w)]"

definition object_refs :: "id option \<Rightarrow> id \<Rightarrow> symbol_key list" where
  "object_refs dm obj = (case dm of None \<Rightarrow> [] | Some m \<Rightarrow> [KDataObject m obj])"

fun tx_step_refs :: "id option \<Rightarrow> tx_step \<Rightarrow> symbol_key list" where
  "tx_step_refs dm (TsRead s) = object_refs dm (os_object (rd_target s))"
| "tx_step_refs dm (TsAdvanceCursor s) = object_refs dm (os_object (ac_target s))"
| "tx_step_refs dm (TsFence s) = object_refs dm (os_object (fe_target s))"
| "tx_step_refs dm (TsUpdate s) = object_refs dm (os_object (up_target s))"
| "tx_step_refs dm (TsCompareAndSet s) = object_refs dm (os_object (cas_target s))"
| "tx_step_refs dm (TsUpsert s) = object_refs dm (os_object (us_target s))"
| "tx_step_refs dm (TsInsert s) = object_refs dm (in_object s)"
| "tx_step_refs dm (TsDelete s) = object_refs dm (os_object (de_target s))"
| "tx_step_refs dm (TsLock s) = object_refs dm (os_object (lk_target s))"
| "tx_step_refs dm (TsTransition s) =
     KStateMachine (st_machine s) # KTransition (st_machine s) (st_transition s)
     # object_refs dm (os_object (st_subject s))"
| "tx_step_refs dm (TsEstablishEffectIntent s) = effect_refs (ei_effect s)"
| "tx_step_refs dm (TsEstablishTransactionOutput s) = [KSchema (eo_schema s)]"
| "tx_step_refs dm (TsWriteOutbox s) = [KSchema (ow_schema (wo_effect s))]"

fun step_refs :: "operation_step \<Rightarrow> symbol_key list" where
  "step_refs (OsTransaction t _) =
     concat (map (tx_step_refs (tx_data_model t)) (tx_steps t))
     @ (case tx_data_model t of None \<Rightarrow> [] | Some dm \<Rightarrow> [KDataModel dm])"
| "step_refs (OsExecuteEffect s) = effect_refs (xf_effect s)"
| "step_refs (OsExecuteEffectAsync s) = effect_refs (xa_effect s)"
| "step_refs _ = []"

definition program_refs :: "id \<Rightarrow> operation_block \<Rightarrow> symbol_key list" where
  "program_refs opn p =
     filter (\<lambda>k. symbol_operation k \<noteq> Some opn)
       (concat (map (\<lambda>(loc, s). step_refs s) (steps_with_locations p)))"

definition grouping_refs :: "grouping_key option \<Rightarrow> symbol_key list" where
  "grouping_refs g = (case g of None \<Rightarrow> [] | Some k \<Rightarrow> map KSchema (bm_keys k))"

fun side_effect_refs :: "transition_side_effect \<Rightarrow> symbol_key list" where
  "side_effect_refs (TsePublication p) = [KTopic (pe_topic p), KSchema (pe_schema p)]"
| "side_effect_refs (TseRequest r) =
     [KOperationInterface (rq_operation (re_target r)), KSchema (re_schema r)]"

definition transition_refs :: "transition \<Rightarrow> symbol_key list" where
  "transition_refs t =
     concat (map side_effect_refs (bm_values (tn_side_effects t)))
     @ map (\<lambda>e. KSchema (ow_schema (te_write e))) (bm_values (tn_effects t))"

text \<open>\<open>collect_references\<close>.\<close>

fun mutation_refs :: "mutation \<Rightarrow> symbol_key list" where
  "mutation_refs (PutSchema i (SchCanonical c)) =
     concat (map (\<lambda>f. map KSchema (type_refs (f_ty f))) (bm_values (cs_fields c)))"
| "mutation_refs (PutSchema i (SchFragment f)) = [KSchema (sf_source f)]"
| "mutation_refs (PutDataModel i m) =
     map (\<lambda>ob. KSchema (do_schema ob)) (bm_values (dm_objects m))
     @ concat (map (\<lambda>ob. map KSchema (ob_messages ob)) (bm_values (dm_outboxes m)))"
| "mutation_refs (PutTopic i t) = map KSchema (tp_messages t)"
| "mutation_refs (PutStateMachine i m) = concat (map transition_refs (bm_values (sm_transitions m)))"
| "mutation_refs (PutOperationInterface opn v) =
     concat (map input_refs (bm_values (if_inputs v))) @ [KService (if_service v)]"
| "mutation_refs (ReplaceOperationProgram opn p) = program_refs opn p"
| "mutation_refs (PutTopicRuntime t v) = KTopic t # grouping_refs (tpr_grouping v)"
| "mutation_refs (PutSubscriptionRuntime opn i v) =
     grouping_refs (sbr_grouping v)
     @ [KOperationInterface opn, KExecutionPool (sd_pool (sbr_dispatch v))]"
| "mutation_refs (PutOutboxRuntime opn i v) =
     (case obr_partitioning v of OpNone \<Rightarrow> [] | OpKeyed k \<Rightarrow> map KSchema (bm_keys k))
     @ [KOperationInterface opn, KExecutionPool (od_pool (obr_dispatch v))]"
| "mutation_refs (PutRouter i v) =
     [KOperationInterface (ir_operation (rt_boundary v)), KExecutionPool (rt_pool v)]"
| "mutation_refs (PutStorageLayout i v) =
     [KDataModel (or_data_model (sl_object v)),
      KDataObject (or_data_model (sl_object v)) (or_object (sl_object v))]"
| "mutation_refs _ = []"

fun written_here :: "symbol_key \<Rightarrow> symbol_key \<Rightarrow> bool" where
  "written_here target reference \<longleftrightarrow>
     target = reference
     \<or> (case (target, reference) of
          (KOperationInterface created, KOperation referenced) \<Rightarrow> created = referenced
        | _ \<Rightarrow> False)"

definition external_references :: "spec_patch \<Rightarrow> symbol_key list" where
  "external_references p =
     bs_collect (filter (\<lambda>r. \<not> (\<exists>t \<in> set (write_targets p). written_here t r))
       (concat (map mutation_refs p)))"

section \<open>Write scopes\<close>

datatype write_grant =
    GrantAll
  | GrantSharedSkeleton
  | GrantTopLevelSymbol symbol_key
  | GrantOperation id
  | GrantOperationProgram id
  | GrantOperationRequirements id
  | GrantOperationInterface id
  | GrantRuntimeTopology

type_synonym write_scope = "write_grant list"

fun skeleton_mutation :: "mutation \<Rightarrow> bool" where
  "skeleton_mutation (PutService _ _) = True"
| "skeleton_mutation (PutSchema _ _) = True"
| "skeleton_mutation (PutDataModel _ _) = True"
| "skeleton_mutation (PutTopic _ _) = True"
| "skeleton_mutation (PutStateMachine _ _) = True"
| "skeleton_mutation (PutOperationInterface _ _) = True"
| "skeleton_mutation (PutPromptObligation _ _) = True"
| "skeleton_mutation _ = False"

fun topology_mutation :: "mutation \<Rightarrow> bool" where
  "topology_mutation (PutTopicRuntime _ _) = True"
| "topology_mutation (PutSubscriptionRuntime _ _ _) = True"
| "topology_mutation (PutOutboxRuntime _ _ _) = True"
| "topology_mutation (PutExecutionPool _ _) = True"
| "topology_mutation (PutRouter _ _) = True"
| "topology_mutation (PutStorageLayout _ _) = True"
| "topology_mutation _ = False"

fun grant_covers :: "write_grant \<Rightarrow> mutation \<Rightarrow> bool" where
  "grant_covers GrantAll m = True"
| "grant_covers GrantSharedSkeleton m = skeleton_mutation m"
| "grant_covers GrantRuntimeTopology m = topology_mutation m"
| "grant_covers (GrantTopLevelSymbol k) (DeleteTopLevel t) = (k = t)"
| "grant_covers (GrantTopLevelSymbol k) m = (write_target m = k)"
| "grant_covers (GrantOperation opn) m = (mutation_operation m = Some opn)"
| "grant_covers (GrantOperationProgram opn) (ReplaceOperationProgram t _) = (opn = t)"
| "grant_covers (GrantOperationProgram opn) m = False"
| "grant_covers (GrantOperationRequirements opn) (ReplaceOperationRequirements t _) = (opn = t)"
| "grant_covers (GrantOperationRequirements opn) (ProposeRequirements t _) = (opn = t)"
| "grant_covers (GrantOperationRequirements opn) m = False"
| "grant_covers (GrantOperationInterface opn) (PutOperationInterface t _) = (opn = t)"
| "grant_covers (GrantOperationInterface opn) m = False"

definition scope_authorizes :: "write_scope \<Rightarrow> mutation \<Rightarrow> bool" where
  "scope_authorizes sc m \<longleftrightarrow> (\<exists>g \<in> set sc. grant_covers g m)"

definition scope_violation :: "write_scope \<Rightarrow> mutation \<Rightarrow> symbol_key option" where
  "scope_violation sc m = (if scope_authorizes sc m then None else Some (write_target m))"

definition scope_none :: write_scope where "scope_none = []"

definition scope_shared_skeleton :: write_scope where
  "scope_shared_skeleton = [GrantSharedSkeleton]"

definition scope_runtime_topology :: write_scope where
  "scope_runtime_topology = [GrantRuntimeTopology]"

definition scope_operation_synthesis :: "id \<Rightarrow> write_scope" where
  "scope_operation_synthesis opn = [GrantOperationProgram opn]"

definition scope_requirement_discovery :: "id \<Rightarrow> write_scope" where
  "scope_requirement_discovery opn = [GrantOperationRequirements opn]"

definition scope_requirement_repair :: "id \<Rightarrow> write_scope" where
  "scope_requirement_repair opn = [GrantOperationProgram opn]"

section \<open>Facts\<close>

lemma write_target_in_footprint: "write_target m \<in> set (conflict_footprint m)"
  by (cases m) simp_all

lemma set_write_targets: "set (write_targets p) = (\<Union>m \<in> set p. set (conflict_footprint m))"
  by (simp add: write_targets_def)

lemma grant_operation_mutations:
  "grant_covers (GrantOperation opn) m \<longleftrightarrow>
     (case m of PutOperationInterface t _ \<Rightarrow> opn = t | ReplaceOperationProgram t _ \<Rightarrow> opn = t
      | ReplaceOperationRequirements t _ \<Rightarrow> opn = t | ProposeRequirements t _ \<Rightarrow> opn = t
      | _ \<Rightarrow> False)"
  by (cases m) auto

end
