(* ===== verification/Design_Content.thy ===== *)
theory Design_Content
  imports Design_Patch
begin

text \<open>
  What the design engine fingerprints, and the data of the semantic graph: edges and index
  entries (\<open>design/graph.rs\<close>), graph queries and their rows (\<open>design/graph_query.rs\<close>), symbol
  searches and tracked queries (\<open>design/read_set.rs\<close>).

  \<open>SemanticHash::of\<close> hashes the JSON of its argument. The JSON writer and the hash function are
  not part of this repository: both are arguments of the model. \<open>content\<close> has one constructor
  per type of argument \<open>SemanticHash::of\<close> is called with, so a hash is a function
  \<open>content \<Rightarrow> semantic_hash\<close> about which nothing is assumed unless a lemma says so.
\<close>

section \<open>Graph data\<close>

datatype (plugins only: code) edge_kind =
    EkContains | EkReferences | EkCallsOperation | EkPublishesTopic | EkConsumesTopic
  | EkWritesOutbox | EkConsumesOutbox | EkReadsObject | EkWritesObject | EkAppliesStateMachine
  | EkAppliesTransition | EkProducesBinding | EkUsesBinding | EkValueDependsOn | EkTriggeredBy
  | EkPropagatesIdempotencyKey | EkRequirementTargets | EkContractDependsOn | EkProofDependsOn

datatype effect_ref = ErOperation id id | ErTransition id id id

record call_edge =
  ce_caller :: id
  ce_target :: id
  ce_target_input :: id
  ce_site :: effect_ref

record publisher_ref =
  pb_site :: effect_ref
  pb_schema :: id

record consumer_ref =
  cn_operation :: id
  cn_input :: id

record transaction_ref =
  tf_operation :: id
  tf_transaction :: id

datatype field_access = FaAll | FaFields "field_path list"

text \<open>\<open>FieldAccess::touches\<close>: paths overlap when one is a prefix of the other.\<close>

definition path_overlaps :: "field_path \<Rightarrow> field_path \<Rightarrow> bool" where
  "path_overlaps a f =
     (let shorter = min (length (components a)) (length (components f))
      in take shorter (components a) = take shorter (components f))"

fun access_touches :: "field_access \<Rightarrow> field_path \<Rightarrow> bool" where
  "access_touches FaAll f = True"
| "access_touches (FaFields fs) f = (\<exists>a \<in> set fs. path_overlaps a f)"

record object_access =
  oa_transaction :: transaction_ref
  oa_access :: field_access

section \<open>Queries\<close>

datatype (plugins only: code) graph_query =
    GqCallers id
  | GqCallees id
  | GqReaders id id "field_path option"
  | GqWriters id id "field_path option"
  | GqPublishers id
  | GqConsumers id
  | GqTransitionUsers id id
  | GqReferencesTo symbol_key
  | GqImpactedBy symbol_key nat
  | GqNeighborhood id nat
  | GqProvenanceRoots id id

text \<open>
  \<open>ProvenanceRoot\<close>. The text of an \<open>Unspecified\<close> root is kept as what it is formatted from.
\<close>

datatype (plugins only: code) unspecified_at =
    UaNoProgram id
  | UaUnresolvedBinding id
  | UaUnresolvedIntent id
  | UaIntentAtEffect id
  | UaTransitionIntent id
  | UaTransactionOutput id
  | UaUnresolvedRead id
  | UaValuesOfEffect id
  | UaUnresolvedEffect id
  | UaUnresolvedResult id

datatype provenance_root =
    PvInput id field_path
  | PvStateMachineSubject id field_path
  | PvObjectRead id id field_path
  | PvEffectResult id "result_variant option" field_path
  | PvUnspecified unspecified_at

datatype (plugins only: code) query_row =
    QrCall call_edge
  | QrAccess object_access
  | QrPublisher publisher_ref
  | QrConsumer consumer_ref
  | QrTransitionUse transaction_ref
  | QrReference symbol_key edge_kind
  | QrImpacted symbol_key nat
  | QrNeighbor symbol_key nat
  | QrRoot provenance_root

record search_spec =
  ss_kind :: "symbol_kind option"
  ss_prefix :: "string option"
  ss_service :: "id option"
  ss_targets :: "id option"

datatype tracked_query = TqGraph graph_query | TqSearch search_spec

section \<open>Fingerprinted content\<close>

datatype (plugins only: code) content =
    CtService service
  | CtSchema schema
  | CtDataModel data_model
  | CtDataObject data_object
  | CtOutbox outbox
  | CtTopic topic
  | CtStateMachine state_machine
  | CtTransition transition
  | CtObligation prompt_obligation
  | CtTopicRuntime topic_runtime
  | CtSubscriptionRuntime subscription_runtime
  | CtExecutionPool execution_pool
  | CtRouter router
  | CtStorageLayout storage_layout
  | CtDraft draft_operation
  | CtInterface interface_draft
  | CtInput op_input
  | CtProgram "operation_block option"
  | CtTransaction transaction
  | CtEffectSite id effect
  | CtOutboxWriteSite id id outbox_write_effect
  | CtEffectIntent establish_effect_intent
  | CtTransactionOutput establish_transaction_output
  | CtTransitionIntent id id id transition_effect_intent
  | CtEffectResult execute_effect
  | CtIntentResult execute_effect_intent
  | CtJoinResult async_join
  | CtRaceResult race_step
  | CtRequirements operation_requirements
  | CtSerializability serializability_requirement
  | CtOrdering ordering_requirement
  | CtIdempotency idempotency_requirement
  | CtRecoverability recoverability_requirement
  | CtTrackedQuery tracked_query
  | CtQueryRows "query_row list"
  | CtSearchRows "symbol_key list"

type_synonym content_hash = "content \<Rightarrow> semantic_hash"

lemma path_overlaps_iff:
  "path_overlaps a f \<longleftrightarrow>
     prefix (components a) (components f)
     \<or> prefix (components f) (components a)"
proof (cases "length (components a) \<le> length (components f)")
  case True
  then have "path_overlaps a f \<longleftrightarrow> components a = take (length (components a)) (components f)"
    by (simp add: path_overlaps_def)
  also have "\<dots> \<longleftrightarrow> prefix (components a) (components f)"
    by (metis append_eq_conv_conj prefix_def take_is_prefix)
  finally show ?thesis
    using True by (metis prefix_length_le prefix_length_prefix prefix_order.refl)
next
  case False
  then have "path_overlaps a f \<longleftrightarrow> take (length (components f)) (components a) = components f"
    by (simp add: path_overlaps_def)
  also have "\<dots> \<longleftrightarrow> prefix (components f) (components a)"
    by (metis append_eq_conv_conj prefix_def take_is_prefix)
  finally show ?thesis
    using False by (metis nat_le_linear prefix_length_le)
qed

end
