(* ===== verification/Spec_Sites.thy ===== *)
theory Spec_Sites
  imports Spec_Model
begin

text \<open>
  The effects a program declares in its steps (\<open>effect_declarations\<close>, \<open>outbox_write_declarations\<close>
  of \<open>spec/operation/program.rs\<close>), in program order.
\<close>

definition program_steps :: "operation_block \<Rightarrow> operation_step list" where
  "program_steps p = map snd (steps_with_locations p)"

fun step_effect_declarations :: "operation_step \<Rightarrow> (id \<times> effect) list" where
  "step_effect_declarations (OsExecuteEffect s) = [(xf_effect_id s, xf_effect s)]"
| "step_effect_declarations (OsExecuteEffectAsync s) = [(xa_effect_id s, xa_effect s)]"
| "step_effect_declarations (OsTransaction t _) =
     List.map_filter (\<lambda>s. case s of
        TsEstablishEffectIntent e \<Rightarrow> Some (ei_effect_id e, ei_effect e) | _ \<Rightarrow> None) (tx_steps t)"
| "step_effect_declarations _ = []"

definition effect_declarations :: "operation_block \<Rightarrow> (id \<times> effect) list" where
  "effect_declarations p = concat (map step_effect_declarations (program_steps p))"

definition outbox_write_declarations :: "operation_block \<Rightarrow> (id \<times> write_outbox_effect) list" where
  "outbox_write_declarations p =
     concat (map (\<lambda>(loc, t). List.map_filter (\<lambda>s. case s of
        TsWriteOutbox w \<Rightarrow> Some (tx_id t, w) | _ \<Rightarrow> None) (tx_steps t)) (transactions p))"

end
