(* ===== verification/Design_Graph.thy ===== *)
theory Design_Graph
  imports Design_Content Spec_Sites
begin

text \<open>
  The semantic graph of a workspace (\<open>design/graph.rs\<close>, \<open>design/graph_build.rs\<close>).

  The builder first creates the nodes: \<open>shared_nodes\<close>, \<open>runtime_nodes\<close> and \<open>operation_nodes\<close>
  list the pairs of key and fingerprint in the order of the \<open>add_node\<close> calls, and \<open>add_node\<close>
  keeps the first of a key. It then links them: an \<open>edge_request\<close> is one call of \<open>link\<close>, named
  by the keys of both ends. \<open>link\<close> drops an edge whose target has no node; its source is looked
  up with \<open>node_ids[\<dots>]\<close>, which would panic, so \<open>sources_present\<close> is proved of every request.
  The indexes are multimaps: lists of pairs, one pair per \<open>entry(k).or_default().push(v)\<close>.
\<close>

section \<open>Nodes\<close>

record symbol_node =
  sn_key :: symbol_key
  sn_version :: symbol_version
  sn_fingerprint :: semantic_hash
  sn_kind :: symbol_kind
  sn_owner :: symbol_owner

text \<open>\<open>add_node\<close>: the node list and the id map of the builder.\<close>

type_synonym node_table = "symbol_node list \<times> (symbol_key \<times> nat) list"

definition add_node :: "symbol_key \<times> semantic_hash \<Rightarrow> node_table \<Rightarrow> node_table" where
  "add_node kf tab =
     (case map_of (snd tab) (fst kf) of
        Some _ \<Rightarrow> tab
      | None \<Rightarrow>
          (fst tab @ [\<lparr>sn_key = fst kf, sn_version = version_first, sn_fingerprint = snd kf,
                      sn_kind = symbol_kind_of (fst kf), sn_owner = symbol_owner_of (fst kf)\<rparr>],
           (fst kf, length (fst tab)) # snd tab))"

definition shared_nodes :: "content_hash \<Rightarrow> workspace \<Rightarrow> (symbol_key \<times> semantic_hash) list" where
  "shared_nodes h w =
     map (\<lambda>(i, v). (KService i, h (CtService v))) (ws_services w)
     @ map (\<lambda>(i, v). (KSchema i, h (CtSchema v))) (ws_schemas w)
     @ concat (map (\<lambda>(i, dm).
          (KDataModel i, h (CtDataModel dm))
          # map (\<lambda>(j, v). (KDataObject i j, h (CtDataObject v))) (dm_objects dm)
          @ map (\<lambda>(j, v). (KOutbox i j, h (CtOutbox v))) (dm_outboxes dm)) (ws_data_models w))
     @ map (\<lambda>(i, v). (KTopic i, h (CtTopic v))) (ws_topics w)
     @ concat (map (\<lambda>(i, m).
          (KStateMachine i, h (CtStateMachine m))
          # map (\<lambda>(j, v). (KTransition i j, h (CtTransition v))) (sm_transitions m))
        (ws_state_machines w))
     @ map (\<lambda>(i, v). (KPromptObligation i, h (CtObligation v))) (ws_obligations w)"

definition runtime_nodes :: "content_hash \<Rightarrow> runtime_model \<Rightarrow> (symbol_key \<times> semantic_hash) list" where
  "runtime_nodes h r =
     map (\<lambda>(i, v). (KTopicRuntime i, h (CtTopicRuntime v))) (rm_topics r)
     @ concat (map (\<lambda>(opn, ins).
          map (\<lambda>(i, v). (KSubscriptionRuntime opn i, h (CtSubscriptionRuntime v))) ins)
        (rm_subscriptions r))
     @ map (\<lambda>(i, v). (KExecutionPool i, h (CtExecutionPool v))) (rm_pools r)
     @ map (\<lambda>(i, v). (KRouter i, h (CtRouter v))) (rm_routers r)
     @ map (\<lambda>(i, v). (KStorageLayout i, h (CtStorageLayout v))) (rm_layouts r)"

section \<open>What a program declares\<close>

datatype site_contract = SiteEffect effect | SiteOutboxWrite id outbox_write_effect

datatype handle_launch = LaunchDirect id | LaunchIntent id

datatype binding_producer =
    ByEffectExecution id | ByIntentExecution id | ByEstablishedIntent id | ByTransactionOutput id
  | ByTransitionIntent id

fun launch_producer :: "handle_launch \<Rightarrow> binding_producer" where
  "launch_producer (LaunchDirect e) = ByEffectExecution e"
| "launch_producer (LaunchIntent i) = ByIntentExecution i"

record binding_fact =
  bf_binding :: id
  bf_content :: content
  bf_producer :: binding_producer

text \<open>The first loop: handles to launches, a later launch of a handle replacing an earlier one.\<close>

fun step_launches :: "operation_step \<Rightarrow> (id \<times> handle_launch) list" where
  "step_launches (OsExecuteEffectAsync s) = [(xa_handle s, LaunchDirect (xa_effect_id s))]"
| "step_launches (OsExecuteEffectIntentAsync s) = [(xia_handle s, LaunchIntent (xia_intent s))]"
| "step_launches _ = []"

definition handle_launches :: "operation_block \<Rightarrow> id \<Rightarrow> handle_launch option" where
  "handle_launches p = map_of (rev (concat (map step_launches (program_steps p))))"

fun tx_step_sites :: "id \<Rightarrow> tx_step \<Rightarrow> (id \<times> site_contract) list" where
  "tx_step_sites t (TsEstablishEffectIntent s) = [(ei_effect_id s, SiteEffect (ei_effect s))]"
| "tx_step_sites t (TsWriteOutbox s) = [(wo_effect_id s, SiteOutboxWrite t (wo_effect s))]"
| "tx_step_sites t _ = []"

fun tx_step_bindings :: "id \<Rightarrow> tx_step \<Rightarrow> binding_fact list" where
  "tx_step_bindings t (TsEstablishEffectIntent s) =
     [\<lparr>bf_binding = ei_bind s, bf_content = CtEffectIntent s,
       bf_producer = ByEstablishedIntent (ei_effect_id s)\<rparr>]"
| "tx_step_bindings t (TsEstablishTransactionOutput s) =
     [\<lparr>bf_binding = eo_bind s, bf_content = CtTransactionOutput s,
       bf_producer = ByTransactionOutput t\<rparr>]"
| "tx_step_bindings t (TsTransition s) =
     map (\<lambda>(e, i). \<lparr>bf_binding = ti_bind i,
            bf_content = CtTransitionIntent (st_machine s) (st_transition s) e i,
            bf_producer = ByTransitionIntent t\<rparr>) (st_effect_intents s)"
| "tx_step_bindings t _ = []"

fun step_sites :: "operation_step \<Rightarrow> (id \<times> site_contract) list" where
  "step_sites (OsTransaction t _) = concat (map (tx_step_sites (tx_id t)) (tx_steps t))"
| "step_sites (OsExecuteEffect s) = [(xf_effect_id s, SiteEffect (xf_effect s))]"
| "step_sites (OsExecuteEffectAsync s) = [(xa_effect_id s, SiteEffect (xa_effect s))]"
| "step_sites _ = []"

definition optional_binding ::
    "id option \<Rightarrow> content \<Rightarrow> binding_producer option \<Rightarrow> binding_fact list" where
  "optional_binding b c p =
     (case (b, p) of
        (Some b, Some p) \<Rightarrow> [\<lparr>bf_binding = b, bf_content = c, bf_producer = p\<rparr>]
      | _ \<Rightarrow> [])"

fun step_bindings :: "(id \<Rightarrow> handle_launch option) \<Rightarrow> operation_step \<Rightarrow> binding_fact list" where
  "step_bindings launch (OsTransaction t _) = concat (map (tx_step_bindings (tx_id t)) (tx_steps t))"
| "step_bindings launch (OsExecuteEffect s) =
     optional_binding (xf_bind s) (CtEffectResult s) (Some (ByEffectExecution (xf_effect_id s)))"
| "step_bindings launch (OsExecuteEffectIntent s) =
     optional_binding (xi_bind s) (CtIntentResult s) (Some (ByIntentExecution (xi_intent s)))"
| "step_bindings launch (OsJoinAll js) =
     concat (map (\<lambda>j. optional_binding (aj_bind j) (CtJoinResult j)
                       (map_option launch_producer (launch (aj_handle j)))) js)"
| "step_bindings launch (OsRace r) =
     optional_binding (rc_bind r) (CtRaceResult r)
       (map_option launch_producer (find_map launch (rc_handles r)))"
| "step_bindings launch _ = []"

fun step_intent_uses :: "operation_step \<Rightarrow> id list" where
  "step_intent_uses (OsExecuteEffectIntent s) = [xi_intent s]"
| "step_intent_uses (OsExecuteEffectIntentAsync s) = [xia_intent s]"
| "step_intent_uses _ = []"

record operation_facts =
  of_transactions :: "transaction list"
  of_sites :: "(id \<times> site_contract) list"
  of_bindings :: "binding_fact list"
  of_intent_uses :: "id list"

definition collect_operation :: "draft_operation \<Rightarrow> operation_facts" where
  "collect_operation d =
     (case dr_program d of
        None \<Rightarrow> \<lparr>of_transactions = [], of_sites = [], of_bindings = [], of_intent_uses = []\<rparr>
      | Some p \<Rightarrow>
          \<lparr>of_transactions = map snd (transactions p),
           of_sites = concat (map step_sites (program_steps p)),
           of_bindings = concat (map (step_bindings (handle_launches p)) (program_steps p)),
           of_intent_uses = concat (map step_intent_uses (program_steps p))\<rparr>)"

text \<open>\<open>requirement_entries\<close>: every requirement, counted among those with its family and hash.\<close>

type_synonym requirement_entry = "requirement_family \<times> semantic_hash \<times> nat \<times> value_ref list"

definition transaction_entries ::
    "content_hash \<Rightarrow> transaction \<Rightarrow> (requirement_family \<times> semantic_hash \<times> value_ref list) list" where
  "transaction_entries h t =
     map (\<lambda>r. (RfTransactionSerializability, h (CtSerializability r), [sr_key r]))
       (tr_serializability (tx_requirements t))
     @ map (\<lambda>r. (RfTransactionOrdering, h (CtOrdering r), [or_key r, or_position r]))
       (tr_ordering (tx_requirements t))"

definition declared_entries ::
    "content_hash \<Rightarrow> draft_operation \<Rightarrow> (requirement_family \<times> semantic_hash \<times> value_ref list) list" where
  "declared_entries h d =
     (case dr_program d of
        None \<Rightarrow> []
      | Some p \<Rightarrow> concat (map (\<lambda>(loc, t). transaction_entries h t) (transactions p)))
     @ map (\<lambda>r. (RfIdempotency, h (CtIdempotency r), ik_components (ir_key r)))
         (oq_idempotency (dr_requirements d))
     @ map (\<lambda>r. (RfRecoverability, h (CtRecoverability r), ik_components (rr_key r)))
         (oq_recoverability (dr_requirements d))"

fun number_entries ::
    "(requirement_family \<times> semantic_hash) list
       \<Rightarrow> (requirement_family \<times> semantic_hash \<times> value_ref list) list \<Rightarrow> requirement_entry list" where
  "number_entries seen [] = []"
| "number_entries seen ((f, fp, roots) # es) =
     (f, fp, count_list seen (f, fp), roots) # number_entries ((f, fp) # seen) es"

definition requirement_entries :: "content_hash \<Rightarrow> draft_operation \<Rightarrow> requirement_entry list" where
  "requirement_entries h d = number_entries [] (declared_entries h d)"

definition site_content :: "id \<Rightarrow> site_contract \<Rightarrow> content" where
  "site_content e s =
     (case s of SiteEffect f \<Rightarrow> CtEffectSite e f | SiteOutboxWrite t w \<Rightarrow> CtOutboxWriteSite e t w)"

definition operation_nodes ::
    "content_hash \<Rightarrow> id \<Rightarrow> draft_operation \<Rightarrow> (symbol_key \<times> semantic_hash) list" where
  "operation_nodes h opn d =
     (let facts = collect_operation d
      in (KOperation opn, h (CtDraft d))
         # (KOperationInterface opn, h (CtInterface (draft_interface d)))
         # map (\<lambda>(i, v). (KInput opn i, h (CtInput v))) (dr_inputs d)
         @ (KOperationProgram opn, h (CtProgram (dr_program d)))
         # map (\<lambda>t. (KTransaction opn (tx_id t), h (CtTransaction t))) (of_transactions facts)
         @ map (\<lambda>(e, s). (KEffectSite opn e, h (site_content e s))) (of_sites facts)
         @ map (\<lambda>b. (KBinding opn (bf_binding b), h (bf_content b))) (of_bindings facts)
         @ (KOperationRequirements opn, h (CtRequirements (dr_requirements d)))
         # map (\<lambda>(f, fp, n, roots). (KRequirement opn f fp n, fp)) (requirement_entries h d))"

definition node_requests :: "content_hash \<Rightarrow> workspace \<Rightarrow> (symbol_key \<times> semantic_hash) list" where
  "node_requests h w =
     shared_nodes h w @ runtime_nodes h (ws_runtime w)
     @ concat (map (\<lambda>(opn, d). operation_nodes h opn d) (ws_operations w))"

definition build_nodes :: "content_hash \<Rightarrow> workspace \<Rightarrow> node_table" where
  "build_nodes h w = fold add_node (node_requests h w) ([], [])"

section \<open>Edges\<close>

type_synonym edge_request = "symbol_key \<times> edge_kind \<times> symbol_key"

fun schema_references :: "symbol_key \<Rightarrow> schema \<Rightarrow> edge_request list" where
  "schema_references from (SchCanonical c) =
     concat (map (\<lambda>f. map (\<lambda>i. (from, EkReferences, KSchema i)) (type_refs (f_ty f)))
       (bm_values (cs_fields c)))"
| "schema_references from (SchFragment f) = [(from, EkReferences, KSchema (sf_source f))]"

definition data_model_edges :: "id \<Rightarrow> data_model \<Rightarrow> edge_request list" where
  "data_model_edges i dm =
     concat (map (\<lambda>(j, ob). [(KDataModel i, EkContains, KDataObject i j),
                              (KDataObject i j, EkReferences, KSchema (do_schema ob))]) (dm_objects dm))
     @ concat (map (\<lambda>(j, ob). (KDataModel i, EkContains, KOutbox i j)
          # map (\<lambda>s. (KOutbox i j, EkReferences, KSchema s)) (ob_messages ob)) (dm_outboxes dm))"

definition object_locations :: "workspace \<Rightarrow> id \<Rightarrow> symbol_key list" where
  "object_locations w obj =
     map (\<lambda>(i, dm). KDataObject i obj) (filter (\<lambda>(i, dm). bm_contains (dm_objects dm) obj) (ws_data_models w))"

definition propagation_edge ::
    "symbol_key \<Rightarrow> key_propagation list \<Rightarrow> symbol_key \<Rightarrow> edge_request list" where
  "propagation_edge from ps target =
     (if ps = [] then [] else [(from, EkPropagatesIdempotencyKey, target)])"

fun side_effect_edges :: "symbol_key \<Rightarrow> transition_side_effect \<Rightarrow> edge_request list" where
  "side_effect_edges from (TsePublication p) =
     [(from, EkPublishesTopic, KTopic (pe_topic p)), (from, EkReferences, KSchema (pe_schema p))]
     @ propagation_edge from (pe_propagation p) (KTopic (pe_topic p))"
| "side_effect_edges from (TseRequest r) =
     [(from, EkCallsOperation, KOperation (rq_operation (re_target r))),
      (from, EkReferences, KSchema (re_schema r))]
     @ propagation_edge from (re_propagation r) (KOperation (rq_operation (re_target r)))"

definition machine_edges :: "workspace \<Rightarrow> id \<Rightarrow> state_machine \<Rightarrow> edge_request list" where
  "machine_edges w i m =
     map (\<lambda>l. (KStateMachine i, EkReferences, l)) (object_locations w (ms_object (sm_subject m)))
     @ concat (map (\<lambda>(j, t). (KStateMachine i, EkContains, KTransition i j)
          # concat (map (side_effect_edges (KTransition i j)) (bm_values (tn_side_effects t))))
        (sm_transitions m))"

definition grouping_edges :: "symbol_key \<Rightarrow> grouping_key option \<Rightarrow> edge_request list" where
  "grouping_edges from g =
     (case g of None \<Rightarrow> [] | Some k \<Rightarrow> map (\<lambda>s. (from, EkReferences, KSchema s)) (bm_keys k))"

definition runtime_edges :: "runtime_model \<Rightarrow> edge_request list" where
  "runtime_edges r =
     concat (map (\<lambda>(t, v). (KTopicRuntime t, EkReferences, KTopic t)
          # grouping_edges (KTopicRuntime t) (tpr_grouping v)) (rm_topics r))
     @ concat (map (\<lambda>(opn, ins). concat (map (\<lambda>(i, v).
          [(KSubscriptionRuntime opn i, EkReferences, KInput opn i),
           (KSubscriptionRuntime opn i, EkReferences, KExecutionPool (sd_pool (sbr_dispatch v)))]
          @ grouping_edges (KSubscriptionRuntime opn i) (sbr_grouping v)) ins)) (rm_subscriptions r))
     @ concat (map (\<lambda>(i, v).
          [(KRouter i, EkReferences, KInput (ir_operation (rt_boundary v)) (ir_input (rt_boundary v))),
           (KRouter i, EkReferences, KExecutionPool (rt_pool v))]) (rm_routers r))
     @ map (\<lambda>(i, v). (KStorageLayout i, EkReferences,
          KDataObject (or_data_model (sl_object v)) (or_object (sl_object v)))) (rm_layouts r)"

definition shared_edges :: "workspace \<Rightarrow> edge_request list" where
  "shared_edges w =
     concat (map (\<lambda>(i, s). schema_references (KSchema i) s) (ws_schemas w))
     @ concat (map (\<lambda>(i, dm). data_model_edges i dm) (ws_data_models w))
     @ concat (map (\<lambda>(i, t). map (\<lambda>m. (KTopic i, EkReferences, KSchema m)) (tp_messages t)) (ws_topics w))
     @ concat (map (\<lambda>(i, m). machine_edges w i m) (ws_state_machines w))
     @ runtime_edges (ws_runtime w)"

definition outbox_key :: "workspace \<Rightarrow> id \<Rightarrow> symbol_key option" where
  "outbox_key w ox =
     find_map (\<lambda>(i, dm). if bm_contains (dm_outboxes dm) ox then Some (KOutbox i ox) else None)
       (ws_data_models w)"

definition contract_edges :: "id \<Rightarrow> id list \<Rightarrow> edge_request list" where
  "contract_edges opn ss = map (\<lambda>s. (KOperationInterface opn, EkContractDependsOn, KSchema s)) ss"

definition result_schemas :: "result_type \<Rightarrow> id list" where
  "result_schemas r = rt_ok r # map er_schema (bm_values (rt_errors r))"

definition selected_messages :: "workspace \<Rightarrow> subscription_input \<Rightarrow> id list" where
  "selected_messages w s =
     (case si_messages s of
        MsOnly ss \<Rightarrow> ss
      | MsAll \<Rightarrow> (case bm_get (ws_topics w) (si_topic s) of None \<Rightarrow> [] | Some t \<Rightarrow> tp_messages t))"

fun interface_input_edges :: "workspace \<Rightarrow> id \<Rightarrow> id \<Rightarrow> op_input \<Rightarrow> edge_request list" where
  "interface_input_edges w opn i (InRequest r) =
     contract_edges opn (ri_schema r # result_schemas (ri_result r))"
| "interface_input_edges w opn i (InSubscription s) =
     [(KInput opn i, EkConsumesTopic, KTopic (si_topic s)),
      (KOperation opn, EkTriggeredBy, KTopic (si_topic s))]
     @ contract_edges opn (selected_messages w s)"
| "interface_input_edges w opn i (InOutbox b) =
     (case outbox_key w (oi_outbox b) of
        None \<Rightarrow> []
      | Some k \<Rightarrow> [(KInput opn i, EkConsumesOutbox, k), (KOperation opn, EkTriggeredBy, k)]
          @ contract_edges opn
              (case find_map (\<lambda>dm. bm_get (dm_outboxes dm) (oi_outbox b)) (bm_values (ws_data_models w)) of
                 None \<Rightarrow> [] | Some ob \<Rightarrow> ob_messages ob))"

definition interface_edges :: "workspace \<Rightarrow> id \<Rightarrow> draft_operation \<Rightarrow> edge_request list" where
  "interface_edges w opn d =
     concat (map (\<lambda>(i, v). (KOperationInterface opn, EkContains, KInput opn i)
       # interface_input_edges w opn i v) (dr_inputs d))"

definition access_edge ::
    "symbol_key \<Rightarrow> id option \<Rightarrow> id \<Rightarrow> edge_kind \<Rightarrow> edge_request list" where
  "access_edge from dm obj k =
     (case dm of None \<Rightarrow> [] | Some m \<Rightarrow> [(from, k, KDataObject m obj)])"

text \<open>
  The object accesses of a step: the comparisons of a guarded mutation as a read, then the
  access of the step itself.
\<close>

definition compared_access :: "tx_step \<Rightarrow> (id \<times> edge_kind \<times> field_access) list" where
  "compared_access s =
     (case step_object s of
        None \<Rightarrow> []
      | Some obj \<Rightarrow> if step_compare s = [] then []
          else [(obj, EkReadsObject, FaFields (map cc_field (step_compare s)))])"

fun own_access :: "workspace \<Rightarrow> tx_step \<Rightarrow> (id \<times> edge_kind \<times> field_access) list" where
  "own_access w (TsRead s) =
     [(os_object (rd_target s), EkReadsObject,
       case rd_fields s of FsAll \<Rightarrow> FaAll | FsOnly fs \<Rightarrow> FaFields fs)]"
| "own_access w (TsUpdate s) = [(os_object (up_target s), EkWritesObject, FaFields (up_fields s))]"
| "own_access w (TsCompareAndSet s) = [(os_object (cas_target s), EkWritesObject, FaFields (cas_fields s))]"
| "own_access w (TsUpsert s) = [(os_object (us_target s), EkWritesObject, FaAll)]"
| "own_access w (TsInsert s) = [(in_object s, EkWritesObject, FaAll)]"
| "own_access w (TsDelete s) = [(os_object (de_target s), EkWritesObject, FaAll)]"
| "own_access w (TsTransition s) =
     [(os_object (st_subject s), EkWritesObject,
       case bm_get (ws_state_machines w) (st_machine s) of
         Some m \<Rightarrow> FaFields [ms_state (sm_subject m)] | None \<Rightarrow> FaAll)]"
| "own_access w (TsAdvanceCursor s) = [(os_object (ac_target s), EkWritesObject, FaFields [ac_field s])]"
| "own_access w (TsFence s) = [(os_object (fe_target s), EkWritesObject, FaFields [fe_field s])]"
| "own_access w _ = []"

definition step_accesses :: "workspace \<Rightarrow> tx_step \<Rightarrow> (id \<times> edge_kind \<times> field_access) list" where
  "step_accesses w s = compared_access s @ own_access w s"

fun application_edges :: "symbol_key \<Rightarrow> tx_step \<Rightarrow> edge_request list" where
  "application_edges from (TsTransition s) =
     [(from, EkAppliesStateMachine, KStateMachine (st_machine s)),
      (from, EkAppliesTransition, KTransition (st_machine s) (st_transition s))]"
| "application_edges from _ = []"

definition transaction_edges :: "workspace \<Rightarrow> id \<Rightarrow> transaction \<Rightarrow> edge_request list" where
  "transaction_edges w opn t =
     concat (map (\<lambda>s. application_edges (KTransaction opn (tx_id t)) s
         @ concat (map (\<lambda>(obj, k, a). access_edge (KTransaction opn (tx_id t)) (tx_data_model t) obj k)
             (step_accesses w s))) (tx_steps t))"

fun site_edges :: "workspace \<Rightarrow> symbol_key \<Rightarrow> site_contract \<Rightarrow> edge_request list" where
  "site_edges w from (SiteOutboxWrite t ow) =
     (case outbox_key w (ow_outbox ow) of
        None \<Rightarrow> []
      | Some k \<Rightarrow> (from, EkWritesOutbox, k) # propagation_edge from (ow_propagation ow) k)
     @ [(from, EkReferences, KSchema (ow_schema ow))]"
| "site_edges w from (SiteEffect (EfPublication p)) =
     [(from, EkPublishesTopic, KTopic (pe_topic p)), (from, EkReferences, KSchema (pe_schema p))]
     @ propagation_edge from (pe_propagation p) (KTopic (pe_topic p))"
| "site_edges w from (SiteEffect (EfRequest r)) =
     [(from, EkCallsOperation, KOperation (rq_operation (re_target r))),
      (from, EkReferences, KSchema (re_schema r))]
     @ propagation_edge from (re_propagation r) (KOperation (rq_operation (re_target r)))"
| "site_edges w from (SiteEffect (EfExternal x)) =
     (case xe_result x of None \<Rightarrow> []
      | Some r \<Rightarrow> map (\<lambda>s. (from, EkReferences, KSchema s)) (result_schemas r))"
| "site_edges w from (SiteEffect (EfOutboxWrite ow)) =
     (case outbox_key w (ow_outbox ow) of None \<Rightarrow> [] | Some k \<Rightarrow> [(from, EkWritesOutbox, k)])
     @ [(from, EkReferences, KSchema (ow_schema ow))]"

fun producer_key :: "id \<Rightarrow> binding_fact list \<Rightarrow> binding_producer \<Rightarrow> symbol_key option" where
  "producer_key opn bs (ByEffectExecution e) = Some (KEffectSite opn e)"
| "producer_key opn bs (ByEstablishedIntent e) = Some (KEffectSite opn e)"
| "producer_key opn bs (ByTransactionOutput t) = Some (KTransaction opn t)"
| "producer_key opn bs (ByTransitionIntent t) = Some (KTransaction opn t)"
| "producer_key opn bs (ByIntentExecution i) =
     (case find (\<lambda>b. bf_binding b = i) bs of
        None \<Rightarrow> None
      | Some b \<Rightarrow> (case bf_producer b of
            ByEstablishedIntent e \<Rightarrow> Some (KEffectSite opn e)
          | ByTransitionIntent t \<Rightarrow> Some (KTransaction opn t)
          | _ \<Rightarrow> None))"

text \<open>\<open>add_program_edges\<close>; the edges from a producer are apart, its lookup may fail.\<close>

definition program_edges :: "workspace \<Rightarrow> id \<Rightarrow> operation_facts \<Rightarrow> edge_request list" where
  "program_edges w opn facts =
     concat (map (\<lambda>t. (KOperationProgram opn, EkContains, KTransaction opn (tx_id t))
         # transaction_edges w opn t) (of_transactions facts))
     @ concat (map (\<lambda>(e, s). (KOperationProgram opn, EkContains, KEffectSite opn e)
         # site_edges w (KEffectSite opn e) s) (of_sites facts))
     @ map (\<lambda>b. (KOperationProgram opn, EkContains, KBinding opn (bf_binding b))) (of_bindings facts)
     @ map (\<lambda>i. (KOperationProgram opn, EkUsesBinding, KBinding opn i)) (of_intent_uses facts)"

definition produces_edges :: "id \<Rightarrow> operation_facts \<Rightarrow> edge_request list" where
  "produces_edges opn facts =
     List.map_filter (\<lambda>b. map_option (\<lambda>k. (k, EkProducesBinding, KBinding opn (bf_binding b)))
        (producer_key opn (of_bindings facts) (bf_producer b))) (of_bindings facts)"

definition requirement_edges :: "content_hash \<Rightarrow> id \<Rightarrow> draft_operation \<Rightarrow> edge_request list" where
  "requirement_edges h opn d =
     concat (map (\<lambda>(f, fp, n, roots).
         [(KOperationRequirements opn, EkContains, KRequirement opn f fp n),
          (KRequirement opn f fp n, EkRequirementTargets, KOperation opn)]
         @ List.map_filter (\<lambda>r. case vr_source r of
              VsInput i \<Rightarrow> Some (KRequirement opn f fp n, EkReferences, KInput opn i)
            | _ \<Rightarrow> None) roots)
       (requirement_entries h d))"

definition operation_edges :: "content_hash \<Rightarrow> workspace \<Rightarrow> id \<Rightarrow> draft_operation \<Rightarrow> edge_request list" where
  "operation_edges h w opn d =
     map (\<lambda>k. (KOperation opn, EkContains, k))
       [KOperationInterface opn, KOperationProgram opn, KOperationRequirements opn]
     @ interface_edges w opn d
     @ program_edges w opn (collect_operation d)
     @ requirement_edges h opn d"

text \<open>The requests whose source the builder looks up with \<open>node_ids[\<dots>]\<close>.\<close>

definition edge_requests :: "content_hash \<Rightarrow> workspace \<Rightarrow> edge_request list" where
  "edge_requests h w =
     shared_edges w @ concat (map (\<lambda>(opn, d). operation_edges h w opn d) (ws_operations w))"

text \<open>The requests whose source may be missing and whose target is looked up.\<close>

definition producer_requests :: "workspace \<Rightarrow> edge_request list" where
  "producer_requests w =
     concat (map (\<lambda>(opn, d). produces_edges opn (collect_operation d)) (ws_operations w))"

definition resolve_edge ::
    "(symbol_key \<times> nat) list \<Rightarrow> edge_request \<Rightarrow> (nat \<times> edge_kind \<times> nat) option" where
  "resolve_edge ids r =
     (case r of (from, k, to) \<Rightarrow>
        (case (map_of ids from, map_of ids to) of
           (Some a, Some b) \<Rightarrow> Some (a, k, b)
         | _ \<Rightarrow> None))"

section \<open>Indexes\<close>

record graph_indexes =
  gi_callers :: "(id \<times> call_edge) list"
  gi_callees :: "(id \<times> call_edge) list"
  gi_readers :: "((id \<times> id) \<times> object_access) list"
  gi_writers :: "((id \<times> id) \<times> object_access) list"
  gi_publishers :: "(id \<times> publisher_ref) list"
  gi_consumers :: "(id \<times> consumer_ref) list"
  gi_transition_users :: "((id \<times> id) \<times> transaction_ref) list"

definition transaction_accesses ::
    "workspace \<Rightarrow> id \<Rightarrow> edge_kind \<Rightarrow> transaction \<Rightarrow> ((id \<times> id) \<times> object_access) list" where
  "transaction_accesses w opn kind t =
     (case tx_data_model t of
        None \<Rightarrow> []
      | Some dm \<Rightarrow>
          map (\<lambda>(obj, k, a). ((dm, obj),
              \<lparr>oa_transaction = \<lparr>tf_operation = opn, tf_transaction = tx_id t\<rparr>, oa_access = a\<rparr>))
            (filter (\<lambda>(obj, k, a). k = kind) (concat (map (step_accesses w) (tx_steps t)))))"

definition object_index :: "workspace \<Rightarrow> edge_kind \<Rightarrow> ((id \<times> id) \<times> object_access) list" where
  "object_index w kind =
     concat (map (\<lambda>(opn, d). concat (map (transaction_accesses w opn kind)
       (of_transactions (collect_operation d)))) (ws_operations w))"

fun site_calls :: "id \<Rightarrow> id \<Rightarrow> site_contract \<Rightarrow> call_edge list" where
  "site_calls opn e (SiteEffect (EfRequest r)) =
     [\<lparr>ce_caller = opn, ce_target = rq_operation (re_target r),
       ce_target_input = rq_input (re_target r), ce_site = ErOperation opn e\<rparr>]"
| "site_calls opn e _ = []"

definition calls :: "workspace \<Rightarrow> call_edge list" where
  "calls w =
     concat (map (\<lambda>(opn, d). concat (map (\<lambda>(e, s). site_calls opn e s)
       (of_sites (collect_operation d)))) (ws_operations w))"

fun site_publishers :: "effect_ref \<Rightarrow> site_contract \<Rightarrow> (id \<times> publisher_ref) list" where
  "site_publishers r (SiteOutboxWrite t ow) =
     [(ow_outbox ow, \<lparr>pb_site = r, pb_schema = ow_schema ow\<rparr>)]"
| "site_publishers r (SiteEffect (EfPublication p)) =
     [(pe_topic p, \<lparr>pb_site = r, pb_schema = pe_schema p\<rparr>)]"
| "site_publishers r _ = []"

fun side_effect_publishers :: "effect_ref \<Rightarrow> transition_side_effect \<Rightarrow> (id \<times> publisher_ref) list" where
  "side_effect_publishers r (TsePublication p) =
     [(pe_topic p, \<lparr>pb_site = r, pb_schema = pe_schema p\<rparr>)]"
| "side_effect_publishers r (TseRequest _) = []"

definition publisher_index :: "workspace \<Rightarrow> (id \<times> publisher_ref) list" where
  "publisher_index w =
     concat (map (\<lambda>(i, m). concat (map (\<lambda>(j, t). concat (map (\<lambda>(e, s).
          side_effect_publishers (ErTransition i j e) s) (tn_side_effects t))) (sm_transitions m)))
        (ws_state_machines w))
     @ concat (map (\<lambda>(opn, d). concat (map (\<lambda>(e, s). site_publishers (ErOperation opn e) s)
          (of_sites (collect_operation d)))) (ws_operations w))"

fun input_consumers :: "workspace \<Rightarrow> id \<Rightarrow> id \<Rightarrow> op_input \<Rightarrow> (id \<times> consumer_ref) list" where
  "input_consumers w opn i (InRequest _) = []"
| "input_consumers w opn i (InSubscription s) = [(si_topic s, \<lparr>cn_operation = opn, cn_input = i\<rparr>)]"
| "input_consumers w opn i (InOutbox b) =
     (case outbox_key w (oi_outbox b) of
        None \<Rightarrow> [] | Some _ \<Rightarrow> [(oi_outbox b, \<lparr>cn_operation = opn, cn_input = i\<rparr>)])"

definition consumer_index :: "workspace \<Rightarrow> (id \<times> consumer_ref) list" where
  "consumer_index w =
     concat (map (\<lambda>(opn, d). concat (map (\<lambda>(i, v). input_consumers w opn i v) (dr_inputs d)))
       (ws_operations w))"

fun step_transition_use :: "tx_step \<Rightarrow> (id \<times> id) option" where
  "step_transition_use (TsTransition s) = Some (st_machine s, st_transition s)"
| "step_transition_use _ = None"

definition transition_user_index :: "workspace \<Rightarrow> ((id \<times> id) \<times> transaction_ref) list" where
  "transition_user_index w =
     concat (map (\<lambda>(opn, d). concat (map (\<lambda>t. map (\<lambda>k. (k,
          \<lparr>tf_operation = opn, tf_transaction = tx_id t\<rparr>))
          (List.map_filter step_transition_use (tx_steps t))) (of_transactions (collect_operation d))))
       (ws_operations w))"

definition build_indexes :: "workspace \<Rightarrow> graph_indexes" where
  "build_indexes w =
     \<lparr>gi_callers = map (\<lambda>c. (ce_target c, c)) (calls w),
      gi_callees = map (\<lambda>c. (ce_caller c, c)) (calls w),
      gi_readers = object_index w EkReadsObject,
      gi_writers = object_index w EkWritesObject,
      gi_publishers = publisher_index w,
      gi_consumers = consumer_index w,
      gi_transition_users = transition_user_index w\<rparr>"

text \<open>
  The entries of one key, sorted and without duplicates as \<open>finish\<close> leaves them. The derived
  orders compare field by field; the codes spell what is compared.
\<close>

fun site_code :: "effect_ref \<Rightarrow> nat list list" where
  "site_code (ErOperation opn e) = [[0], id_code opn, id_code e]"
| "site_code (ErTransition m t e) = [[1], id_code m, id_code t, id_code e]"

definition call_code :: "call_edge \<Rightarrow> nat list list" where
  "call_code c = [id_code (ce_caller c), id_code (ce_target c), id_code (ce_target_input c)]
     @ site_code (ce_site c)"

definition publisher_code :: "publisher_ref \<Rightarrow> nat list list" where
  "publisher_code p = site_code (pb_site p) @ [id_code (pb_schema p)]"

definition consumer_code :: "consumer_ref \<Rightarrow> nat list list" where
  "consumer_code c = [id_code (cn_operation c), id_code (cn_input c)]"

definition transaction_ref_code :: "transaction_ref \<Rightarrow> nat list list" where
  "transaction_ref_code t = [id_code (tf_operation t), id_code (tf_transaction t)]"

fun field_access_code :: "field_access \<Rightarrow> nat list list list" where
  "field_access_code FaAll = []"
| "field_access_code (FaFields fs) = [] # map (\<lambda>f. map text_code (components f)) fs"

definition access_code :: "object_access \<Rightarrow> nat list list list" where
  "access_code a = transaction_ref_code (oa_transaction a) # field_access_code (oa_access a)"

definition index_entries :: "('v \<Rightarrow> 'c::linorder) \<Rightarrow> ('k \<times> 'v) list \<Rightarrow> 'k \<Rightarrow> 'v list" where
  "index_entries code ix k = remdups_adj (sort_key code (map snd (filter (\<lambda>e. fst e = k) ix)))"

section \<open>The graph\<close>

record symbol_graph =
  sg_revision :: revision
  sg_nodes :: "symbol_node list"
  sg_node_ids :: "(symbol_key \<times> nat) list"
  sg_outgoing :: "(edge_kind \<times> nat) list list"
  sg_incoming :: "(edge_kind \<times> nat) list list"
  sg_indexes :: graph_indexes

definition graph_node_id :: "symbol_graph \<Rightarrow> symbol_key \<Rightarrow> nat option" where
  "graph_node_id g k = map_of (sg_node_ids g) k"

definition graph_node :: "symbol_graph \<Rightarrow> symbol_key \<Rightarrow> symbol_node option" where
  "graph_node g k = map_option ((!) (sg_nodes g)) (graph_node_id g k)"

definition graph_fingerprint :: "symbol_graph \<Rightarrow> symbol_key \<Rightarrow> semantic_hash option" where
  "graph_fingerprint g k = map_option sn_fingerprint (graph_node g k)"

definition carried_version :: "symbol_graph \<Rightarrow> symbol_node \<Rightarrow> symbol_version" where
  "carried_version previous n =
     (case graph_node previous (sn_key n) of
        None \<Rightarrow> sn_version n
      | Some before \<Rightarrow> if sn_fingerprint before = sn_fingerprint n then sn_version before
                       else version_next (sn_version before))"

definition carry_versions :: "symbol_graph option \<Rightarrow> symbol_node list \<Rightarrow> symbol_node list" where
  "carry_versions previous ns =
     (case previous of None \<Rightarrow> ns
      | Some g \<Rightarrow> map (\<lambda>n. n\<lparr>sn_version := carried_version g n\<rparr>) ns)"

fun edge_rank :: "edge_kind \<Rightarrow> nat" where
  "edge_rank EkContains = 0"
| "edge_rank EkReferences = 1"
| "edge_rank EkCallsOperation = 2"
| "edge_rank EkPublishesTopic = 3"
| "edge_rank EkConsumesTopic = 4"
| "edge_rank EkWritesOutbox = 5"
| "edge_rank EkConsumesOutbox = 6"
| "edge_rank EkReadsObject = 7"
| "edge_rank EkWritesObject = 8"
| "edge_rank EkAppliesStateMachine = 9"
| "edge_rank EkAppliesTransition = 10"
| "edge_rank EkProducesBinding = 11"
| "edge_rank EkUsesBinding = 12"
| "edge_rank EkValueDependsOn = 13"
| "edge_rank EkTriggeredBy = 14"
| "edge_rank EkPropagatesIdempotencyKey = 15"
| "edge_rank EkRequirementTargets = 16"
| "edge_rank EkContractDependsOn = 17"
| "edge_rank EkProofDependsOn = 18"

definition sort_edges :: "(nat \<times> edge_kind \<times> nat) list \<Rightarrow> (nat \<times> edge_kind \<times> nat) list" where
  "sort_edges es = remdups_adj (sort_key (\<lambda>(a, k, b). [a, edge_rank k, b]) es)"

definition outgoing_edges ::
    "nat \<Rightarrow> (nat \<times> edge_kind \<times> nat) list \<Rightarrow> (edge_kind \<times> nat) list list" where
  "outgoing_edges n es = map (\<lambda>i. map snd (filter (\<lambda>e. fst e = i) es)) [0..<n]"

definition incoming_edges ::
    "nat \<Rightarrow> (nat \<times> edge_kind \<times> nat) list \<Rightarrow> (edge_kind \<times> nat) list list" where
  "incoming_edges n es =
     map (\<lambda>i. sort_key (\<lambda>(k, a). [edge_rank k, a])
            (map (\<lambda>(a, k, b). (k, a)) (filter (\<lambda>(a, k, b). b = i) es))) [0..<n]"

definition build_edges :: "content_hash \<Rightarrow> workspace \<Rightarrow> (nat \<times> edge_kind \<times> nat) list" where
  "build_edges h w =
     sort_edges (List.map_filter (resolve_edge (snd (build_nodes h w)))
       (edge_requests h w @ producer_requests w))"

definition build_graph :: "content_hash \<Rightarrow> workspace \<Rightarrow> symbol_graph option \<Rightarrow> symbol_graph" where
  "build_graph h w previous =
     (let (nodes, ids) = build_nodes h w;
          es = build_edges h w
      in \<lparr>sg_revision = ws_revision w, sg_nodes = carry_versions previous nodes, sg_node_ids = ids,
          sg_outgoing = outgoing_edges (length nodes) es,
          sg_incoming = incoming_edges (length nodes) es,
          sg_indexes = build_indexes w\<rparr>)"

definition outgoing_of :: "symbol_graph \<Rightarrow> nat \<Rightarrow> (edge_kind \<times> nat) list" where
  "outgoing_of g i = (if i < length (sg_outgoing g) then sg_outgoing g ! i else [])"

definition incoming_of :: "symbol_graph \<Rightarrow> nat \<Rightarrow> (edge_kind \<times> nat) list" where
  "incoming_of g i = (if i < length (sg_incoming g) then sg_incoming g ! i else [])"

end
