(* ===== verification/Design_Snapshot.thy ===== *)
theory Design_Snapshot
  imports Design_Graph
begin

text \<open>
  Facts about the semantic graph and its snapshots (\<open>design/snapshot.rs\<close>): the node table is a
  map from keys to fingerprints, the fingerprint of a symbol is the hash of its content,
  versions follow fingerprints, the builder never looks up a missing node, and what
  \<open>changed_symbols\<close> (\<open>design/engine.rs\<close>) reports. The contract of versioned snapshots is the
  locale \<open>versioned\<close>.
\<close>

section \<open>The node table\<close>

definition table_ok :: "node_table \<Rightarrow> bool" where
  "table_ok tab \<longleftrightarrow>
     (\<forall>k i. map_of (snd tab) k = Some i \<longleftrightarrow> i < length (fst tab) \<and> sn_key (fst tab ! i) = k)"

definition table_lookup :: "node_table \<Rightarrow> symbol_key \<Rightarrow> symbol_node option" where
  "table_lookup tab k = map_option ((!) (fst tab)) (map_of (snd tab) k)"

lemma table_ok_empty [simp]: "table_ok ([], [])"
  by (simp add: table_ok_def)

lemma table_ok_key: "table_ok tab \<Longrightarrow> map_of (snd tab) k = Some i \<Longrightarrow> i < length (fst tab) \<and> sn_key (fst tab ! i) = k"
  by (simp add: table_ok_def)

lemma add_node_ok: "table_ok tab \<Longrightarrow> table_ok (add_node kf tab)"
proof -
  assume ok: "table_ok tab"
  show ?thesis
  proof (cases "map_of (snd tab) (fst kf)")
    case None
    have free: "i < length (fst tab) \<Longrightarrow> sn_key (fst tab ! i) \<noteq> fst kf" for i
      using ok None unfolding table_ok_def by (metis option.distinct(1))
    show ?thesis
      using ok None free unfolding table_ok_def add_node_def
      by (auto simp: nth_append less_Suc_eq)
  next
    case (Some i)
    then show ?thesis using ok by (simp add: add_node_def)
  qed
qed

lemma add_node_lookup:
  assumes "table_ok tab"
  shows "table_lookup (add_node kf tab) k
     = (case table_lookup tab k of
          Some n \<Rightarrow> Some n
        | None \<Rightarrow> if k = fst kf
            then Some \<lparr>sn_key = fst kf, sn_version = version_first, sn_fingerprint = snd kf,
                  sn_kind = symbol_kind_of (fst kf), sn_owner = symbol_owner_of (fst kf)\<rparr>
            else None)"
proof (cases "map_of (snd tab) (fst kf)")
  case None
  show ?thesis
  proof (cases "map_of (snd tab) k")
    case (Some i)
    with None have "k \<noteq> fst kf" by auto
    moreover have "i < length (fst tab)" using table_ok_key [OF assms Some] by blast
    ultimately show ?thesis
      using None Some by (simp add: add_node_def table_lookup_def nth_append)
  qed (use None in \<open>simp add: add_node_def table_lookup_def nth_append\<close>)
next
  case (Some i)
  then show ?thesis
    by (simp add: add_node_def table_lookup_def split: option.split)
qed

definition fresh_node :: "symbol_key \<Rightarrow> semantic_hash \<Rightarrow> symbol_node" where
  "fresh_node k fp =
     \<lparr>sn_key = k, sn_version = version_first, sn_fingerprint = fp,
      sn_kind = symbol_kind_of k, sn_owner = symbol_owner_of k\<rparr>"

lemma fold_add_node:
  "table_ok tab \<Longrightarrow> table_ok (fold add_node rs tab)
     \<and> table_lookup (fold add_node rs tab) k
        = (case table_lookup tab k of Some n \<Rightarrow> Some n
           | None \<Rightarrow> map_option (fresh_node k) (map_of rs k))"
proof (induction rs arbitrary: tab)
  case Nil
  then show ?case by (simp split: option.split)
next
  case (Cons r rs)
  have ok: "table_ok (add_node r tab)" using Cons.prems by (rule add_node_ok)
  have "table_ok (fold add_node (r # rs) tab)" using Cons.IH [OF ok] by simp
  moreover have "table_lookup (fold add_node (r # rs) tab) k
      = (case table_lookup (add_node r tab) k of Some n \<Rightarrow> Some n
         | None \<Rightarrow> map_option (fresh_node k) (map_of rs k))"
    using Cons.IH [OF ok] by simp
  moreover have "map_of (r # rs) k = (if k = fst r then Some (snd r) else map_of rs k)"
    by (cases r) simp
  ultimately show ?case
    by (cases "table_lookup tab k") (simp_all add: add_node_lookup [OF Cons.prems] fresh_node_def)
qed

lemma build_nodes_ok: "table_ok (build_nodes h w)"
  by (simp add: build_nodes_def fold_add_node)

lemma build_nodes_lookup:
  "table_lookup (build_nodes h w) k = map_option (fresh_node k) (map_of (node_requests h w) k)"
  by (simp add: build_nodes_def fold_add_node) (simp add: table_lookup_def)

lemma table_ok_distinct: "table_ok tab \<Longrightarrow> distinct (map sn_key (fst tab))"
  unfolding table_ok_def distinct_conv_nth
  by (metis length_map nth_map option.inject)

lemma build_nodes_nth:
  assumes "i < length (fst (build_nodes h w))"
  shows "\<exists>fp. fst (build_nodes h w) ! i = fresh_node (sn_key (fst (build_nodes h w) ! i)) fp
    \<and> map_of (node_requests h w) (sn_key (fst (build_nodes h w) ! i)) = Some fp"
proof -
  let ?n = "fst (build_nodes h w) ! i"
  have "map_of (snd (build_nodes h w)) (sn_key ?n) = Some i"
    using build_nodes_ok assms by (simp add: table_ok_def)
  then have "table_lookup (build_nodes h w) (sn_key ?n) = Some ?n" by (simp add: table_lookup_def)
  then show ?thesis by (auto simp: build_nodes_lookup)
qed

section \<open>Graphs\<close>

lemma length_carry [simp]: "length (carry_versions p ns) = length ns"
  by (simp add: carry_versions_def split: option.split)

lemma carry_nth:
  "i < length ns \<Longrightarrow> sn_key (carry_versions p ns ! i) = sn_key (ns ! i)
     \<and> sn_fingerprint (carry_versions p ns ! i) = sn_fingerprint (ns ! i)
     \<and> sn_kind (carry_versions p ns ! i) = sn_kind (ns ! i)
     \<and> sn_owner (carry_versions p ns ! i) = sn_owner (ns ! i)
     \<and> sn_version (carry_versions p ns ! i)
         = (case p of None \<Rightarrow> sn_version (ns ! i) | Some g \<Rightarrow> carried_version g (ns ! i))"
  by (simp add: carry_versions_def split: option.split)

lemma map_keys_carry [simp]: "map sn_key (carry_versions p ns) = map sn_key ns"
  by (rule nth_equalityI) (simp_all add: carry_nth)

lemma build_graph_simps [simp]:
  "sg_revision (build_graph h w p) = ws_revision w"
  "sg_nodes (build_graph h w p) = carry_versions p (fst (build_nodes h w))"
  "sg_node_ids (build_graph h w p) = snd (build_nodes h w)"
  "sg_indexes (build_graph h w p) = build_indexes w"
  "sg_outgoing (build_graph h w p) = outgoing_edges (length (fst (build_nodes h w))) (build_edges h w)"
  "sg_incoming (build_graph h w p) = incoming_edges (length (fst (build_nodes h w))) (build_edges h w)"
  by (simp_all add: build_graph_def case_prod_unfold Let_def)

lemma build_graph_node:
  "graph_node (build_graph h w p) k
     = map_option (\<lambda>fp. (fresh_node k fp)\<lparr>sn_version :=
          (case p of None \<Rightarrow> version_first | Some g \<Rightarrow> carried_version g (fresh_node k fp))\<rparr>)
        (map_of (node_requests h w) k)"
proof (cases "map_of (snd (build_nodes h w)) k")
  case None
  then have "map_of (node_requests h w) k = None"
    using build_nodes_lookup [of h w k] by (simp add: table_lookup_def)
  with None show ?thesis by (simp add: graph_node_def graph_node_id_def)
next
  case (Some i)
  have i: "i < length (fst (build_nodes h w))"
    using table_ok_key [OF build_nodes_ok Some] by blast
  obtain fp where fp: "map_of (node_requests h w) k = Some fp" "fst (build_nodes h w) ! i = fresh_node k fp"
    using build_nodes_lookup [of h w k] Some
    by (cases "map_of (node_requests h w) k") (simp_all add: table_lookup_def)
  have "carry_versions p (fst (build_nodes h w)) ! i
      = (fresh_node k fp)\<lparr>sn_version :=
          (case p of None \<Rightarrow> version_first | Some g \<Rightarrow> carried_version g (fresh_node k fp))\<rparr>"
    using i fp(2) by (simp add: carry_versions_def fresh_node_def split: option.split)
  with Some fp(1) show ?thesis by (simp add: graph_node_def graph_node_id_def)
qed

lemma build_graph_fingerprint:
  "graph_fingerprint (build_graph h w p) k = map_of (node_requests h w) k"
  by (cases "map_of (node_requests h w) k")
     (simp_all add: graph_fingerprint_def build_graph_node fresh_node_def)

lemma build_graph_keys:
  "k \<in> sn_key ` set (sg_nodes (build_graph h w p)) \<longleftrightarrow> graph_node (build_graph h w p) k \<noteq> None"
proof -
  have "sn_key ` set (sg_nodes (build_graph h w p)) = sn_key ` set (fst (build_nodes h w))"
    by (simp flip: set_map)
  moreover have "k \<in> sn_key ` set (fst (build_nodes h w)) \<longleftrightarrow> map_of (snd (build_nodes h w)) k \<noteq> None"
  proof
    assume "k \<in> sn_key ` set (fst (build_nodes h w))"
    then obtain i where "i < length (fst (build_nodes h w))" "sn_key (fst (build_nodes h w) ! i) = k"
      by (auto simp: in_set_conv_nth)
    then have "map_of (snd (build_nodes h w)) k = Some i"
      using build_nodes_ok [of h w] by (simp add: table_ok_def)
    then show "map_of (snd (build_nodes h w)) k \<noteq> None" by simp
  next
    assume "map_of (snd (build_nodes h w)) k \<noteq> None"
    then obtain i where "map_of (snd (build_nodes h w)) k = Some i" by blast
    from table_ok_key [OF build_nodes_ok this] show "k \<in> sn_key ` set (fst (build_nodes h w))"
      by (metis image_eqI nth_mem)
  qed
  ultimately show ?thesis by (simp add: graph_node_def graph_node_id_def)
qed

section \<open>Fingerprints are hashes of content\<close>

lemma map_of_keyed:
  assumes "\<And>i j. K i = K j \<longleftrightarrow> i = j"
  shows "map_of (map (\<lambda>(i, v). (K i, c v)) xs) (K j) = map_option c (map_of xs j)"
  by (induction xs) (auto simp: assms)

lemma map_of_other_key:
  "(\<And>i. k \<noteq> K i) \<Longrightarrow> map_of (map (\<lambda>(i, v). (K i, c i v)) xs) k = None"
  by (induction xs) (auto simp: split_paired_all)

lemma map_of_image_other: "(\<And>x. k \<noteq> K x) \<Longrightarrow> map_of (map (\<lambda>x. (K x, c x)) xs) k = None"
  by (induction xs) simp_all

lemmas keyed_simps =
  map_of_keyed [of KService, simplified] map_of_keyed [of KSchema, simplified]
  map_of_keyed [of "KDataObject m" for m, simplified] map_of_keyed [of "KOutbox m" for m, simplified]
  map_of_keyed [of KTopic, simplified] map_of_keyed [of "KTransition m" for m, simplified]
  map_of_keyed [of KPromptObligation, simplified] map_of_keyed [of KTopicRuntime, simplified]
  map_of_keyed [of "KSubscriptionRuntime m" for m, simplified]
  map_of_keyed [of KExecutionPool, simplified] map_of_keyed [of KRouter, simplified]
  map_of_keyed [of KStorageLayout, simplified] map_of_keyed [of "KInput m" for m, simplified]

lemma map_of_concat_none:
  "(\<And>x. x \<in> set xs \<Longrightarrow> map_of (f x) k = None) \<Longrightarrow> map_of (concat (map f xs)) k = None"
  by (induction xs) (simp_all add: map_add_def)

lemma map_of_concat_keyed:
  assumes "distinct (map fst xs)"
    and "\<And>i v. i \<noteq> j \<Longrightarrow> map_of (f (i, v)) k = None"
  shows "map_of (concat (map f xs)) k = Option.bind (map_of xs j) (\<lambda>v. map_of (f (j, v)) k)"
  using assms(1)
proof (induction xs)
  case (Cons x xs)
  obtain i v where x: "x = (i, v)" by force
  show ?case
  proof (cases "i = j")
    case True
    with Cons.prems x have "map_of xs j = None" by (auto simp: map_of_eq_None_iff)
    with Cons x True show ?thesis by (simp add: map_add_def split: option.split)
  next
    case False
    with Cons x assms(2) show ?thesis by (simp add: map_add_def split: option.split)
  qed
qed simp

text \<open>A workspace's outer maps are well formed.\<close>

definition workspace_wf :: "workspace \<Rightarrow> bool" where
  "workspace_wf w \<longleftrightarrow>
     bm_wf (ws_services w) \<and> bm_wf (ws_schemas w) \<and> bm_wf (ws_data_models w) \<and> bm_wf (ws_topics w)
     \<and> bm_wf (ws_state_machines w) \<and> bm_wf (ws_operations w) \<and> bm_wf (ws_obligations w)
     \<and> bm_wf (rm_topics (ws_runtime w)) \<and> bm_wf (rm_subscriptions (ws_runtime w))
     \<and> bm_wf (rm_outboxes (ws_runtime w)) \<and> bm_wf (rm_pools (ws_runtime w))
     \<and> bm_wf (rm_routers (ws_runtime w)) \<and> bm_wf (rm_layouts (ws_runtime w))"

text \<open>
  The content a key names, read off the workspace. Several declarations of one id in a draft
  are one symbol, the first. An outbox runtime has no node.
\<close>

fun shared_content :: "workspace \<Rightarrow> symbol_key \<Rightarrow> content option" where
  "shared_content w (KService i) = map_option CtService (bm_get (ws_services w) i)"
| "shared_content w (KSchema i) = map_option CtSchema (bm_get (ws_schemas w) i)"
| "shared_content w (KDataModel i) = map_option CtDataModel (bm_get (ws_data_models w) i)"
| "shared_content w (KDataObject m i) =
     Option.bind (bm_get (ws_data_models w) m) (\<lambda>dm. map_option CtDataObject (bm_get (dm_objects dm) i))"
| "shared_content w (KOutbox m i) =
     Option.bind (bm_get (ws_data_models w) m) (\<lambda>dm. map_option CtOutbox (bm_get (dm_outboxes dm) i))"
| "shared_content w (KTopic i) = map_option CtTopic (bm_get (ws_topics w) i)"
| "shared_content w (KStateMachine i) = map_option CtStateMachine (bm_get (ws_state_machines w) i)"
| "shared_content w (KTransition m i) =
     Option.bind (bm_get (ws_state_machines w) m) (\<lambda>sm. map_option CtTransition (bm_get (sm_transitions sm) i))"
| "shared_content w (KPromptObligation i) = map_option CtObligation (bm_get (ws_obligations w) i)"
| "shared_content w _ = None"

fun runtime_content :: "runtime_model \<Rightarrow> symbol_key \<Rightarrow> content option" where
  "runtime_content r (KTopicRuntime i) = map_option CtTopicRuntime (bm_get (rm_topics r) i)"
| "runtime_content r (KSubscriptionRuntime opn i) =
     Option.bind (bm_get (rm_subscriptions r) opn) (\<lambda>ins. map_option CtSubscriptionRuntime (bm_get ins i))"
| "runtime_content r (KExecutionPool i) = map_option CtExecutionPool (bm_get (rm_pools r) i)"
| "runtime_content r (KRouter i) = map_option CtRouter (bm_get (rm_routers r) i)"
| "runtime_content r (KStorageLayout i) = map_option CtStorageLayout (bm_get (rm_layouts r) i)"
| "runtime_content r _ = None"

fun draft_content :: "draft_operation \<Rightarrow> symbol_key \<Rightarrow> content option" where
  "draft_content d (KOperation _) = Some (CtDraft d)"
| "draft_content d (KOperationInterface _) = Some (CtInterface (draft_interface d))"
| "draft_content d (KOperationProgram _) = Some (CtProgram (dr_program d))"
| "draft_content d (KOperationRequirements _) = Some (CtRequirements (dr_requirements d))"
| "draft_content d (KInput _ i) = map_option CtInput (bm_get (dr_inputs d) i)"
| "draft_content d (KTransaction _ t) =
     map_option CtTransaction (find (\<lambda>u. tx_id u = t) (of_transactions (collect_operation d)))"
| "draft_content d (KEffectSite _ e) =
     map_option (site_content e) (map_of (of_sites (collect_operation d)) e)"
| "draft_content d (KBinding _ b) =
     map_option bf_content (find (\<lambda>f. bf_binding f = b) (of_bindings (collect_operation d)))"
| "draft_content d _ = None"

lemmas segment_simps = map_of_append map_add_def map_of_other_key map_of_image_other

definition data_model_nodes :: "content_hash \<Rightarrow> id \<times> data_model \<Rightarrow> (symbol_key \<times> semantic_hash) list" where
  "data_model_nodes h = (\<lambda>(i, dm). (KDataModel i, h (CtDataModel dm))
     # map (\<lambda>(j, v). (KDataObject i j, h (CtDataObject v))) (dm_objects dm)
     @ map (\<lambda>(j, v). (KOutbox i j, h (CtOutbox v))) (dm_outboxes dm))"

definition machine_nodes :: "content_hash \<Rightarrow> id \<times> state_machine \<Rightarrow> (symbol_key \<times> semantic_hash) list" where
  "machine_nodes h = (\<lambda>(i, m). (KStateMachine i, h (CtStateMachine m))
     # map (\<lambda>(j, v). (KTransition i j, h (CtTransition v))) (sm_transitions m))"

lemma data_model_nodes_lookup:
  "map_of (data_model_nodes h (i, dm)) (KDataModel j) = (if i = j then Some (h (CtDataModel dm)) else None)"
  "map_of (data_model_nodes h (i, dm)) (KDataObject j l)
     = (if i = j then map_option (\<lambda>v. h (CtDataObject v)) (bm_get (dm_objects dm) l) else None)"
  "map_of (data_model_nodes h (i, dm)) (KOutbox j l)
     = (if i = j then map_option (\<lambda>v. h (CtOutbox v)) (bm_get (dm_outboxes dm) l) else None)"
  by (auto simp: data_model_nodes_def segment_simps keyed_simps split: option.split)

lemma machine_nodes_lookup:
  "map_of (machine_nodes h (i, m)) (KStateMachine j) = (if i = j then Some (h (CtStateMachine m)) else None)"
  "map_of (machine_nodes h (i, m)) (KTransition j l)
     = (if i = j then map_option (\<lambda>v. h (CtTransition v)) (bm_get (sm_transitions m) l) else None)"
  by (auto simp: machine_nodes_def segment_simps keyed_simps)

lemma bind_map_option: "Option.bind x (\<lambda>v. map_option f (g v)) = map_option f (Option.bind x g)"
  by (cases x) simp_all

lemma data_models_lookup:
  assumes "distinct (map fst dms)"
  shows "map_of (concat (map (data_model_nodes h) dms)) (KDataModel i)
          = map_option (\<lambda>dm. h (CtDataModel dm)) (map_of dms i)"
    and "map_of (concat (map (data_model_nodes h) dms)) (KDataObject i j)
          = Option.bind (map_of dms i) (\<lambda>dm. map_option (\<lambda>v. h (CtDataObject v)) (bm_get (dm_objects dm) j))"
    and "map_of (concat (map (data_model_nodes h) dms)) (KOutbox i j)
          = Option.bind (map_of dms i) (\<lambda>dm. map_option (\<lambda>v. h (CtOutbox v)) (bm_get (dm_outboxes dm) j))"
  by (subst map_of_concat_keyed [OF assms, where j = i];
      cases "map_of dms i"; simp add: data_model_nodes_lookup)+

lemma machines_lookup:
  assumes "distinct (map fst sms)"
  shows "map_of (concat (map (machine_nodes h) sms)) (KStateMachine i)
          = map_option (\<lambda>m. h (CtStateMachine m)) (map_of sms i)"
    and "map_of (concat (map (machine_nodes h) sms)) (KTransition i j)
          = Option.bind (map_of sms i) (\<lambda>m. map_option (\<lambda>v. h (CtTransition v)) (bm_get (sm_transitions m) j))"
  by (subst map_of_concat_keyed [OF assms, where j = i];
      cases "map_of sms i"; simp add: machine_nodes_lookup)+

lemma data_models_other:
  "(\<And>i. k \<noteq> KDataModel i) \<Longrightarrow> (\<And>i j. k \<noteq> KDataObject i j) \<Longrightarrow> (\<And>i j. k \<noteq> KOutbox i j) \<Longrightarrow>
     map_of (concat (map (data_model_nodes h) dms)) k = None"
  by (rule map_of_concat_none) (auto simp: data_model_nodes_def segment_simps)

lemma machines_other:
  "(\<And>i. k \<noteq> KStateMachine i) \<Longrightarrow> (\<And>i j. k \<noteq> KTransition i j) \<Longrightarrow>
     map_of (concat (map (machine_nodes h) sms)) k = None"
  by (rule map_of_concat_none) (auto simp: machine_nodes_def segment_simps)

lemma shared_nodes_segments:
  "shared_nodes h w =
     map (\<lambda>(i, v). (KService i, h (CtService v))) (ws_services w)
     @ map (\<lambda>(i, v). (KSchema i, h (CtSchema v))) (ws_schemas w)
     @ concat (map (data_model_nodes h) (ws_data_models w))
     @ map (\<lambda>(i, v). (KTopic i, h (CtTopic v))) (ws_topics w)
     @ concat (map (machine_nodes h) (ws_state_machines w))
     @ map (\<lambda>(i, v). (KPromptObligation i, h (CtObligation v))) (ws_obligations w)"
  by (simp add: shared_nodes_def data_model_nodes_def machine_nodes_def)

lemma shared_nodes_lookup:
  assumes "workspace_wf w"
  shows "map_of (shared_nodes h w) k = map_option h (shared_content w k)"
proof -
  have "distinct (map fst (ws_data_models w))" "distinct (map fst (ws_state_machines w))"
    using assms by (auto simp: workspace_wf_def dest: bm_wf_distinct)
  note lk = data_models_lookup [OF this(1)] machines_lookup [OF this(2)]
  show ?thesis
    unfolding shared_nodes_segments
    by (cases k)
       (simp_all add: segment_simps keyed_simps lk data_models_other machines_other option.map_comp
          comp_def flip: bind_map_option split: option.split)
qed

lemma subscriptions_lookup:
  assumes "distinct (map fst subs)"
  shows "map_of (concat (map (\<lambda>(opn, ins).
            map (\<lambda>(i, v). (KSubscriptionRuntime opn i, h (CtSubscriptionRuntime v))) ins) subs))
          (KSubscriptionRuntime opn i)
        = Option.bind (map_of subs opn) (\<lambda>ins. map_option (\<lambda>v. h (CtSubscriptionRuntime v)) (bm_get ins i))"
  by (subst map_of_concat_keyed [OF assms, where j = opn];
      cases "map_of subs opn"; simp add: segment_simps keyed_simps)

lemma subscriptions_other:
  "(\<And>i j. k \<noteq> KSubscriptionRuntime i j) \<Longrightarrow>
     map_of (concat (map (\<lambda>(opn, ins).
        map (\<lambda>(i, v). (KSubscriptionRuntime opn i, h (CtSubscriptionRuntime v))) ins) subs)) k = None"
  by (rule map_of_concat_none) (auto simp: segment_simps)

lemma runtime_nodes_lookup:
  assumes "bm_wf (rm_subscriptions r)"
  shows "map_of (runtime_nodes h r) k = map_option h (runtime_content r k)"
proof -
  have "distinct (map fst (rm_subscriptions r))" using assms by (rule bm_wf_distinct)
  note lk = subscriptions_lookup [OF this]
  show ?thesis
    unfolding runtime_nodes_def
    by (cases k)
       (simp_all add: segment_simps keyed_simps lk subscriptions_other option.map_comp
          comp_def flip: bind_map_option split: option.split)
qed

text \<open>The nodes of one operation.\<close>

lemma map_of_find_key:
  "map_of (map (\<lambda>x. (K (f x), c x)) xs) k = map_option c (find (\<lambda>x. K (f x) = k) xs)"
  by (induction xs) auto

lemma operation_nodes_other:
  assumes "symbol_operation k \<noteq> Some opn \<or> (\<exists>i. k = KOperationSummary i)"
  shows "map_of (operation_nodes h opn d) k = None"
proof -
  have "k' \<noteq> k" if "k' \<in> fst ` set (operation_nodes h opn d)" for k'
    using that assms by (auto simp: operation_nodes_def Let_def)
  then show ?thesis by (auto simp: map_of_eq_None_iff)
qed

lemma number_entries_occurrences:
  "(\<exists>roots. (f, fp, n, roots) \<in> set (number_entries seen es))
     \<longleftrightarrow> count_list seen (f, fp) \<le> n
         \<and> n < count_list seen (f, fp) + count_list (map (\<lambda>(f, fp, roots). (f, fp)) es) (f, fp)"
proof (induction seen es rule: number_entries.induct)
  case (2 seen g gp roots es)
  show ?case
  proof (cases "(g, gp) = (f, fp)")
    case True
    then show ?thesis using "2.IH" by auto
  next
    case False
    then have "count_list ((g, gp) # seen) (f, fp) = count_list seen (f, fp)" by auto
    with False show ?thesis using "2.IH" by auto
  qed
qed simp

definition requirement_listed ::
    "content_hash \<Rightarrow> draft_operation \<Rightarrow> requirement_family \<Rightarrow> semantic_hash \<Rightarrow> nat \<Rightarrow> bool" where
  "requirement_listed h d f fp n \<longleftrightarrow>
     n < count_list (map (\<lambda>(f, fp, roots). (f, fp)) (declared_entries h d)) (f, fp)"

lemma requirement_entries_listed:
  "(\<exists>roots. (f, fp, n, roots) \<in> set (requirement_entries h d)) \<longleftrightarrow> requirement_listed h d f fp n"
  by (simp add: requirement_entries_def number_entries_occurrences requirement_listed_def)

lemma requirement_nodes_lookup:
  "map_of (map (\<lambda>(f, fp, n, roots). (KRequirement opn f fp n, fp)) es) (KRequirement opn f fp n)
     = (if \<exists>roots. (f, fp, n, roots) \<in> set es then Some fp else None)"
  by (induction es) auto

lemma requirement_nodes_other:
  "(\<And>f fp n. k \<noteq> KRequirement opn f fp n) \<Longrightarrow>
     map_of (map (\<lambda>(f, fp, n, roots). (KRequirement opn f fp n, fp)) es) k = None"
  by (induction es) (simp_all add: case_prod_unfold)

lemma site_nodes_lookup:
  "map_of (map (\<lambda>(e, s). (KEffectSite opn e, h (site_content e s))) xs) (KEffectSite opn e)
     = map_option (\<lambda>s. h (site_content e s)) (map_of xs e)"
  by (induction xs) auto

lemma named_nodes_lookup:
  "map_of (map (\<lambda>t. (KTransaction opn (tx_id t), ct t)) ts) (KTransaction opn i)
     = map_option ct (find (\<lambda>t. tx_id t = i) ts)"
  "map_of (map (\<lambda>b. (KBinding opn (bf_binding b), cb b)) bs) (KBinding opn i)
     = map_option cb (find (\<lambda>b. bf_binding b = i) bs)"
  by (induction ts, simp_all) (induction bs, simp_all)

definition operation_fingerprint ::
    "content_hash \<Rightarrow> draft_operation \<Rightarrow> symbol_key \<Rightarrow> semantic_hash option" where
  "operation_fingerprint h d k =
     (case k of
        KRequirement _ f fp n \<Rightarrow> if requirement_listed h d f fp n then Some fp else None
      | _ \<Rightarrow> map_option h (draft_content d k))"

lemma operation_nodes_lookup:
  assumes "symbol_operation k = Some opn"
  shows "map_of (operation_nodes h opn d) k = operation_fingerprint h d k"
  unfolding operation_nodes_def operation_fingerprint_def Let_def
  using assms
  by (cases k)
     (simp_all add: segment_simps keyed_simps named_nodes_lookup site_nodes_lookup option.map_comp
        requirement_nodes_lookup requirement_nodes_other requirement_entries_listed comp_def
        split: option.split)

definition symbol_content :: "workspace \<Rightarrow> symbol_key \<Rightarrow> content option" where
  "symbol_content w k =
     (case symbol_operation k of
        None \<Rightarrow> (case shared_content w k of Some c \<Rightarrow> Some c | None \<Rightarrow> runtime_content (ws_runtime w) k)
      | Some opn \<Rightarrow> Option.bind (bm_get (ws_operations w) opn) (\<lambda>d. draft_content d k))"

definition symbol_fingerprint :: "content_hash \<Rightarrow> workspace \<Rightarrow> symbol_key \<Rightarrow> semantic_hash option" where
  "symbol_fingerprint h w k =
     (case k of
        KRequirement opn f fp n \<Rightarrow>
          Option.bind (bm_get (ws_operations w) opn)
            (\<lambda>d. if requirement_listed h d f fp n then Some fp else None)
      | _ \<Rightarrow> map_option h (symbol_content w k))"

lemma operations_lookup:
  assumes "distinct (map fst ds)"
  shows "map_of (concat (map (\<lambda>(opn, d). operation_nodes h opn d) ds)) k
     = Option.bind (symbol_operation k) (\<lambda>opn. Option.bind (map_of ds opn) (\<lambda>d. operation_fingerprint h d k))"
proof (cases "symbol_operation k")
  case None
  then show ?thesis
    by (auto intro!: map_of_concat_none simp: operation_nodes_other)
next
  case (Some opn)
  have "map_of (concat (map (\<lambda>(opn, d). operation_nodes h opn d) ds)) k
      = Option.bind (map_of ds opn) (\<lambda>d. map_of (operation_nodes h opn d) k)"
    by (subst map_of_concat_keyed [OF assms, where j = opn]) (simp_all add: operation_nodes_other Some)
  with Some show ?thesis by (simp add: operation_nodes_lookup)
qed

lemma shared_runtime_disjoint:
  "symbol_operation k \<noteq> None \<Longrightarrow> shared_content w k = None \<and> runtime_content r k = None"
  by (cases k) simp_all

lemma node_requests_fingerprint:
  assumes "workspace_wf w"
  shows "map_of (node_requests h w) k = symbol_fingerprint h w k"
proof -
  have d: "distinct (map fst (ws_operations w))" "bm_wf (rm_subscriptions (ws_runtime w))"
    using assms by (auto simp: workspace_wf_def dest: bm_wf_distinct)
  note lk = shared_nodes_lookup [OF assms] runtime_nodes_lookup [OF d(2)] operations_lookup [OF d(1)]
  show ?thesis
  proof (cases "symbol_operation k")
    case None
    then have "symbol_fingerprint h w k = map_option h (symbol_content w k)"
      by (cases k) (simp_all add: symbol_fingerprint_def)
    with None show ?thesis
      by (simp add: node_requests_def map_of_append map_add_def lk symbol_content_def split: option.split)
  next
    case (Some opn)
    have "symbol_fingerprint h w k = Option.bind (bm_get (ws_operations w) opn) (\<lambda>d. operation_fingerprint h d k)"
      using Some
      by (cases k; cases "bm_get (ws_operations w) opn")
         (simp_all add: symbol_fingerprint_def symbol_content_def operation_fingerprint_def)
    with Some shared_runtime_disjoint [of k] show ?thesis
      by (simp add: node_requests_def map_of_append map_add_def lk split: option.split)
  qed
qed

section \<open>The builder finds every node it looks up\<close>

definition from_in :: "symbol_key set \<Rightarrow> edge_request list \<Rightarrow> bool" where
  "from_in S es \<longleftrightarrow> (\<forall>e \<in> set es. fst e \<in> S)"

lemma from_in_simps [simp]:
  "from_in S []"
  "from_in S (e # es) \<longleftrightarrow> fst e \<in> S \<and> from_in S es"
  "from_in S (es @ fs) \<longleftrightarrow> from_in S es \<and> from_in S fs"
  "from_in S (concat ess) \<longleftrightarrow> (\<forall>es \<in> set ess. from_in S es)"
  by (auto simp: from_in_def)

lemma from_in_map [simp]: "from_in S (map f xs) \<longleftrightarrow> (\<forall>x \<in> set xs. fst (f x) \<in> S)"
  by (simp add: from_in_def)

lemma from_in_mono: "from_in S es \<Longrightarrow> S \<subseteq> T \<Longrightarrow> from_in T es"
  by (auto simp: from_in_def)

lemma simple_sources:
  assumes "k \<in> S"
  shows "from_in S (schema_references k s)"
    and "from_in S (propagation_edge k ps target)"
    and "from_in S (side_effect_edges k e)"
    and "from_in S (grouping_edges k g)"
    and "from_in S (access_edge k dm obj kind)"
    and "from_in S (application_edges k st)"
    and "from_in S (site_edges w k c)"
proof -
  show "from_in S (schema_references k s)" using assms by (cases s) simp_all
  have pr: "from_in S (propagation_edge k qs tg)" for qs tg
    using assms by (simp add: propagation_edge_def)
  then show "from_in S (propagation_edge k ps target)" .
  show "from_in S (side_effect_edges k e)" using assms pr by (cases e) simp_all
  show "from_in S (grouping_edges k g)" using assms by (cases g) (simp_all add: grouping_edges_def)
  show "from_in S (access_edge k dm obj kind)" using assms by (cases dm) (simp_all add: access_edge_def)
  show "from_in S (application_edges k st)" using assms by (cases st) simp_all
  show "from_in S (site_edges w k c)"
    using assms pr by (cases "(w, k, c)" rule: site_edges.cases) (auto split: option.splits)
qed

lemma contract_sources: "KOperationInterface opn \<in> S \<Longrightarrow> from_in S (contract_edges opn ss)"
  by (simp add: contract_edges_def)

lemma interface_input_sources:
  "KOperationInterface opn \<in> S \<Longrightarrow> KInput opn i \<in> S \<Longrightarrow> KOperation opn \<in> S \<Longrightarrow>
     from_in S (interface_input_edges w opn i v)"
  by (cases v) (simp_all add: contract_sources split: option.split)

lemma transaction_sources:
  "KTransaction opn (tx_id t) \<in> S \<Longrightarrow> from_in S (transaction_edges w opn t)"
  by (auto simp: transaction_edges_def simple_sources)

lemma data_model_sources:
  "fst ` set (data_model_nodes h (i, dm)) \<subseteq> S \<Longrightarrow> from_in S (data_model_edges i dm)"
  by (auto simp: data_model_edges_def data_model_nodes_def image_Un image_image case_prod_unfold)

lemma machine_sources:
  "fst ` set (machine_nodes h (i, m)) \<subseteq> S \<Longrightarrow> from_in S (machine_edges w i m)"
  by (auto simp: machine_edges_def machine_nodes_def image_Un image_image case_prod_unfold simple_sources)

lemma runtime_sources:
  "fst ` set (runtime_nodes h r) \<subseteq> S \<Longrightarrow> from_in S (runtime_edges r)"
proof -
  assume sub: "fst ` set (runtime_nodes h r) \<subseteq> S"
  have "KSubscriptionRuntime opn i \<in> S" if "(opn, ins) \<in> set (rm_subscriptions r)" "(i, v) \<in> set ins" for opn ins i v
  proof -
    have "(KSubscriptionRuntime opn i, h (CtSubscriptionRuntime v)) \<in> set (runtime_nodes h r)"
      using that by (auto simp: runtime_nodes_def intro!: bexI [of _ "(opn, ins)"])
    with sub show ?thesis by force
  qed
  with sub show ?thesis
    by (auto simp: runtime_edges_def runtime_nodes_def image_Un image_image case_prod_unfold simple_sources)
qed

lemma shared_node_keys:
  "(i, v) \<in> set (ws_schemas w) \<Longrightarrow> KSchema i \<in> fst ` set (shared_nodes h w)"
  "(i, t) \<in> set (ws_topics w) \<Longrightarrow> KTopic i \<in> fst ` set (shared_nodes h w)"
  by (force simp: shared_nodes_segments)+

lemma segment_keys:
  "x \<in> set (ws_data_models w) \<Longrightarrow> fst ` set (data_model_nodes h x) \<subseteq> fst ` set (shared_nodes h w)"
  "y \<in> set (ws_state_machines w) \<Longrightarrow> fst ` set (machine_nodes h y) \<subseteq> fst ` set (shared_nodes h w)"
  by (auto simp: shared_nodes_segments image_Un image_UN)

lemma shared_sources:
  "fst ` set (shared_nodes h w) \<union> fst ` set (runtime_nodes h (ws_runtime w)) \<subseteq> S \<Longrightarrow> from_in S (shared_edges w)"
proof -
  assume sub: "fst ` set (shared_nodes h w) \<union> fst ` set (runtime_nodes h (ws_runtime w)) \<subseteq> S"
  have dm: "from_in S (data_model_edges i dm)" if "(i, dm) \<in> set (ws_data_models w)" for i dm
    using data_model_sources segment_keys(1) [OF that] sub by blast
  have sm: "from_in S (machine_edges w i m)" if "(i, m) \<in> set (ws_state_machines w)" for i m
    using machine_sources segment_keys(2) [OF that] sub by blast
  have rt: "from_in S (runtime_edges (ws_runtime w))"
    using runtime_sources sub by blast
  have sc: "KSchema i \<in> S" if "(i, v) \<in> set (ws_schemas w)" for i v
    using shared_node_keys(1) [OF that] sub by blast
  have tp: "KTopic i \<in> S" if "(i, t) \<in> set (ws_topics w)" for i t
    using shared_node_keys(2) [OF that] sub by blast
  show ?thesis
    unfolding shared_edges_def from_in_simps
  proof (intro conjI ballI)
    show "from_in S es" if "es \<in> set (map (\<lambda>(i, s). schema_references (KSchema i) s) (ws_schemas w))" for es
      using that sc by (auto intro: simple_sources(1))
    show "from_in S es" if "es \<in> set (map (\<lambda>(i, dm). data_model_edges i dm) (ws_data_models w))" for es
      using that dm by auto
    show "from_in S es"
      if "es \<in> set (map (\<lambda>(i, t). map (\<lambda>m. (KTopic i, EkReferences, KSchema m)) (tp_messages t)) (ws_topics w))" for es
      using that tp by auto
    show "from_in S es" if "es \<in> set (map (\<lambda>(i, m). machine_edges w i m) (ws_state_machines w))" for es
      using that sm by auto
  qed (rule rt)
qed

lemma operation_key_list:
  "map fst (operation_nodes h opn d) =
     KOperation opn # KOperationInterface opn # map (KInput opn \<circ> fst) (dr_inputs d)
     @ KOperationProgram opn # map (KTransaction opn \<circ> tx_id) (of_transactions (collect_operation d))
     @ map (KEffectSite opn \<circ> fst) (of_sites (collect_operation d))
     @ map (KBinding opn \<circ> bf_binding) (of_bindings (collect_operation d))
     @ KOperationRequirements opn # map (\<lambda>(f, fp, n, roots). KRequirement opn f fp n) (requirement_entries h d)"
  by (simp add: operation_nodes_def Let_def comp_def case_prod_unfold)

lemma operation_node_keys:
  assumes "fst ` set (operation_nodes h opn d) \<subseteq> S"
  shows "KOperation opn \<in> S" "KOperationInterface opn \<in> S" "KOperationProgram opn \<in> S"
    "KOperationRequirements opn \<in> S"
    "(i, v) \<in> set (dr_inputs d) \<Longrightarrow> KInput opn i \<in> S"
    "t \<in> set (of_transactions (collect_operation d)) \<Longrightarrow> KTransaction opn (tx_id t) \<in> S"
    "(e, s) \<in> set (of_sites (collect_operation d)) \<Longrightarrow> KEffectSite opn e \<in> S"
    "b \<in> set (of_bindings (collect_operation d)) \<Longrightarrow> KBinding opn (bf_binding b) \<in> S"
    "(f, fp, n, roots) \<in> set (requirement_entries h d) \<Longrightarrow> KRequirement opn f fp n \<in> S"
proof -
  have sub: "set (map fst (operation_nodes h opn d)) \<subseteq> S" using assms by simp
  note sub = sub [unfolded operation_key_list, simplified]
  show "KOperation opn \<in> S" "KOperationInterface opn \<in> S" "KOperationProgram opn \<in> S"
    "KOperationRequirements opn \<in> S"
    "(i, v) \<in> set (dr_inputs d) \<Longrightarrow> KInput opn i \<in> S"
    "t \<in> set (of_transactions (collect_operation d)) \<Longrightarrow> KTransaction opn (tx_id t) \<in> S"
    "(e, s) \<in> set (of_sites (collect_operation d)) \<Longrightarrow> KEffectSite opn e \<in> S"
    "b \<in> set (of_bindings (collect_operation d)) \<Longrightarrow> KBinding opn (bf_binding b) \<in> S"
    "(f, fp, n, roots) \<in> set (requirement_entries h d) \<Longrightarrow> KRequirement opn f fp n \<in> S"
    using sub by (fastforce simp: image_subset_iff)+
qed

lemma operation_sources:
  assumes "fst ` set (operation_nodes h opn d) \<subseteq> S"
  shows "from_in S (operation_edges h w opn d)"
proof -
  note keys = operation_node_keys [OF assms]
  have "from_in S (interface_edges w opn d)"
    using keys(1,2,5) by (auto simp: interface_edges_def intro!: interface_input_sources)
  moreover have "from_in S (program_edges w opn (collect_operation d))"
    using keys(3,6,7) by (auto simp: program_edges_def intro!: transaction_sources simple_sources)
  moreover have "from_in S (requirement_edges h opn d)"
    using keys(4,9)
    by (auto simp: requirement_edges_def from_in_def set_map_filter split: value_source.split_asm)
  ultimately show ?thesis using keys(1) by (simp add: operation_edges_def)
qed

lemma operation_node_requests:
  assumes "(opn, d) \<in> set (ws_operations w)"
  shows "fst ` set (operation_nodes h opn d) \<subseteq> fst ` set (node_requests h w)"
proof -
  have "set (operation_nodes h opn d) \<subseteq> set (node_requests h w)"
    unfolding node_requests_def set_append set_concat set_map
    using assms by (intro le_supI2) (rule SUP_upper2 [of "operation_nodes h opn d"], auto intro: rev_image_eqI)
  then show ?thesis by (rule image_mono)
qed

lemma sources_present: "from_in (fst ` set (node_requests h w)) (edge_requests h w)"
proof -
  let ?S = "fst ` set (node_requests h w)"
  have "from_in ?S (shared_edges w)"
    by (rule shared_sources) (auto simp: node_requests_def)
  moreover have "from_in ?S (operation_edges h w opn d)" if "(opn, d) \<in> set (ws_operations w)" for opn d
    by (rule operation_sources) (rule operation_node_requests [OF that])
  ultimately show ?thesis by (auto simp: edge_requests_def)
qed

lemma producer_targets_present:
  "(a, k, b) \<in> set (producer_requests w) \<Longrightarrow> b \<in> fst ` set (node_requests h w)"
proof -
  assume "(a, k, b) \<in> set (producer_requests w)"
  then obtain opn d where d: "(opn, d) \<in> set (ws_operations w)"
    "(a, k, b) \<in> set (produces_edges opn (collect_operation d))"
    by (auto simp: producer_requests_def)
  then obtain f where "f \<in> set (of_bindings (collect_operation d))" "b = KBinding opn (bf_binding f)"
    by (auto simp: produces_edges_def set_map_filter)
  then show ?thesis using operation_node_keys(8) [OF operation_node_requests [OF d(1)]] by blast
qed

section \<open>Versioned snapshots\<close>

text \<open>\<open>WorkspaceSnapshot\<close> and its \<open>build\<close>.\<close>

record snapshot =
  sp_revision :: revision
  sp_workspace :: workspace
  sp_graph :: symbol_graph

definition build_snapshot :: "content_hash \<Rightarrow> workspace \<Rightarrow> symbol_graph option \<Rightarrow> snapshot" where
  "build_snapshot h w previous =
     \<lparr>sp_revision = ws_revision w, sp_workspace = w, sp_graph = build_graph h w previous\<rparr>"

definition snapshot_fingerprint :: "snapshot \<Rightarrow> symbol_key \<Rightarrow> semantic_hash option" where
  "snapshot_fingerprint s k = graph_fingerprint (sp_graph s) k"

definition snapshot_version :: "snapshot \<Rightarrow> symbol_key \<Rightarrow> symbol_version option" where
  "snapshot_version s k = map_option sn_version (graph_node (sp_graph s) k)"

text \<open>\<open>changed_symbols\<close> of the engine.\<close>

definition changed_symbols :: "snapshot \<Rightarrow> snapshot \<Rightarrow> symbol_key list" where
  "changed_symbols before after =
     bs_collect
       (map sn_key (filter (\<lambda>n. graph_fingerprint (sp_graph before) (sn_key n) \<noteq> Some (sn_fingerprint n))
          (sg_nodes (sp_graph after)))
        @ map sn_key (filter (\<lambda>n. graph_node (sp_graph after) (sn_key n) = None)
          (sg_nodes (sp_graph before))))"

text \<open>
  The contract the engine relies on. A snapshot gives each symbol it has a fingerprint and a
  version; building a successor keeps the version of an unchanged symbol, advances that of a
  changed one and starts a new one; and the changed symbols are those whose fingerprint differs.
\<close>

locale versioned =
  fixes valid :: "'s \<Rightarrow> bool"
    and fingerprint :: "'s \<Rightarrow> symbol_key \<Rightarrow> semantic_hash option"
    and version :: "'s \<Rightarrow> symbol_key \<Rightarrow> symbol_version option"
    and successor :: "'s \<Rightarrow> 'w \<Rightarrow> 's"
    and changed :: "'s \<Rightarrow> 's \<Rightarrow> symbol_key list"
  assumes valid_successor: "valid s \<Longrightarrow> valid (successor s w)"
    and has_version: "valid s \<Longrightarrow> version s k = None \<longleftrightarrow> fingerprint s k = None"
    and version_kept: "valid s \<Longrightarrow> fingerprint (successor s w) k = fingerprint s k \<Longrightarrow>
          version (successor s w) k = version s k"
    and version_advanced: "valid s \<Longrightarrow> fingerprint (successor s w) k = Some fp \<Longrightarrow>
          fingerprint s k = Some fp' \<Longrightarrow> fp \<noteq> fp' \<Longrightarrow>
          version (successor s w) k = map_option version_next (version s k)"
    and version_fresh: "valid s \<Longrightarrow> fingerprint (successor s w) k \<noteq> None \<Longrightarrow> fingerprint s k = None \<Longrightarrow>
          version (successor s w) k = Some version_first"
    and changed_exact: "valid s \<Longrightarrow> valid t \<Longrightarrow> k \<in> set (changed s t) \<longleftrightarrow> fingerprint s k \<noteq> fingerprint t k"
begin

lemma changed_version:
  assumes "valid s" "k \<in> set (changed s (successor s w))"
  shows "version (successor s w) k
    = (if fingerprint (successor s w) k = None then None
       else case version s k of None \<Rightarrow> Some version_first | Some v \<Rightarrow> Some (version_next v))"
proof (cases "fingerprint (successor s w) k")
  case None
  then show ?thesis using has_version [OF valid_successor [OF assms(1)]] by simp
next
  case (Some fp)
  have ne: "fingerprint s k \<noteq> Some fp"
    using changed_exact [OF assms(1) valid_successor [OF assms(1)]] assms(2) Some by auto
  show ?thesis
  proof (cases "fingerprint s k")
    case None
    then have "version s k = None" using has_version [OF assms(1)] by simp
    moreover have "version (successor s w) k = Some version_first"
      by (rule version_fresh [OF assms(1)]) (simp_all add: None Some)
    ultimately show ?thesis using Some by simp
  next
    case (Some fp')
    with ne \<open>fingerprint (successor s w) k = Some fp\<close>
    have "version (successor s w) k = map_option version_next (version s k)"
      using version_advanced [OF assms(1)] by blast
    moreover have "version s k \<noteq> None" using has_version [OF assms(1)] Some by simp
    ultimately show ?thesis using \<open>fingerprint (successor s w) k = Some fp\<close> by auto
  qed
qed

lemma unchanged_version:
  assumes "valid s" "k \<notin> set (changed s (successor s w))"
  shows "version (successor s w) k = version s k"
  using version_kept [OF assms(1)] changed_exact [OF assms(1) valid_successor [OF assms(1)]] assms(2) by metis

end

section \<open>The contract holds of built snapshots\<close>

lemma built_member:
  assumes "n \<in> set (sg_nodes (build_graph h w p))"
  shows "graph_node (build_graph h w p) (sn_key n) = Some n"
proof -
  obtain i where i: "i < length (fst (build_nodes h w))" "n = carry_versions p (fst (build_nodes h w)) ! i"
    using assms by (auto simp: in_set_conv_nth)
  then have "sn_key n = sn_key (fst (build_nodes h w) ! i)" by (simp add: carry_nth)
  then have "map_of (snd (build_nodes h w)) (sn_key n) = Some i"
    using build_nodes_ok [of h w] i(1) by (simp add: table_ok_def)
  with i(2) show ?thesis by (simp add: graph_node_def graph_node_id_def)
qed

definition built_with :: "content_hash \<Rightarrow> snapshot \<Rightarrow> bool" where
  "built_with h s \<longleftrightarrow> (\<exists>w p. s = build_snapshot h w p)"

lemma build_snapshot_simps [simp]:
  "sp_revision (build_snapshot h w p) = ws_revision w"
  "sp_workspace (build_snapshot h w p) = w"
  "sp_graph (build_snapshot h w p) = build_graph h w p"
  by (simp_all add: build_snapshot_def)

lemma changed_symbols_exact:
  assumes "built_with h s" "built_with h t"
  shows "k \<in> set (changed_symbols s t) \<longleftrightarrow> snapshot_fingerprint s k \<noteq> snapshot_fingerprint t k"
proof -
  have node: "graph_node (sp_graph u) (sn_key n) = Some n" if "built_with h u" "n \<in> set (sg_nodes (sp_graph u))" for u n
    using that built_member by (auto simp: built_with_def)
  have keys: "k \<in> sn_key ` set (sg_nodes (sp_graph u)) \<longleftrightarrow> graph_node (sp_graph u) k \<noteq> None" if "built_with h u" for u
  proof -
    obtain w p where u: "u = build_snapshot h w p" using \<open>built_with h u\<close> by (auto simp: built_with_def)
    show ?thesis unfolding u build_snapshot_simps by (rule build_graph_keys)
  qed
  show ?thesis
  proof (cases "graph_node (sp_graph t) k")
    case None
    then have "k \<notin> sn_key ` set (sg_nodes (sp_graph t))" using keys [OF assms(2)] by simp
    with None keys [OF assms(1)] show ?thesis
      by (auto simp: changed_symbols_def snapshot_fingerprint_def graph_fingerprint_def)
  next
    case (Some n)
    then have n: "n \<in> set (sg_nodes (sp_graph t))" "sn_key n = k"
      using keys [OF assms(2)] node [OF assms(2)] by (auto dest: sym)
    have uniq: "m = n" if "m \<in> set (sg_nodes (sp_graph t))" "sn_key m = k" for m
      using node [OF assms(2) that(1)] that(2) Some by simp
    have "k \<in> set (changed_symbols s t) \<longleftrightarrow> graph_fingerprint (sp_graph s) k \<noteq> Some (sn_fingerprint n)"
    proof
      assume "k \<in> set (changed_symbols s t)"
      then consider m :: symbol_node where "m \<in> set (sg_nodes (sp_graph t))" "sn_key m = k"
          "graph_fingerprint (sp_graph s) (sn_key m) \<noteq> Some (sn_fingerprint m)"
        | m :: symbol_node where "sn_key m = k" "graph_node (sp_graph t) (sn_key m) = None"
        unfolding changed_symbols_def set_bs_collect set_append set_map set_filter by blast
      then show "graph_fingerprint (sp_graph s) k \<noteq> Some (sn_fingerprint n)"
      proof cases
        case 1
        then show ?thesis using uniq [of m] by simp
      qed (simp add: Some)
    next
      assume "graph_fingerprint (sp_graph s) k \<noteq> Some (sn_fingerprint n)"
      with n show "k \<in> set (changed_symbols s t)"
        unfolding changed_symbols_def set_bs_collect set_append set_map set_filter by blast
    qed
    with Some show ?thesis by (simp add: snapshot_fingerprint_def graph_fingerprint_def)
  qed
qed

lemma successor_version:
  "snapshot_version (build_snapshot h w (Some g)) k =
     map_option (\<lambda>fp. case graph_node g k of
         None \<Rightarrow> version_first
       | Some n \<Rightarrow> if sn_fingerprint n = fp then sn_version n else version_next (sn_version n))
       (snapshot_fingerprint (build_snapshot h w (Some g)) k)"
  by (cases "map_of (node_requests h w) k")
     (simp_all add: snapshot_version_def snapshot_fingerprint_def build_graph_fingerprint
        build_graph_node carried_version_def fresh_node_def split: option.split)

interpretation snap: versioned "built_with h" snapshot_fingerprint snapshot_version
    "\<lambda>s w. build_snapshot h w (Some (sp_graph s))" changed_symbols for h
proof unfold_locales
  show "built_with h (build_snapshot h w (Some (sp_graph s)))" for s w
    by (auto simp: built_with_def)
  show "snapshot_version s k = None \<longleftrightarrow> snapshot_fingerprint s k = None" for s k
    by (simp add: snapshot_version_def snapshot_fingerprint_def graph_fingerprint_def)
  show "snapshot_version (build_snapshot h w (Some (sp_graph s))) k = snapshot_version s k"
    if "snapshot_fingerprint (build_snapshot h w (Some (sp_graph s))) k = snapshot_fingerprint s k" for s w k
    unfolding successor_version that
    by (cases "graph_node (sp_graph s) k")
       (simp_all add: snapshot_fingerprint_def snapshot_version_def graph_fingerprint_def)
  show "snapshot_version (build_snapshot h w (Some (sp_graph s))) k = map_option version_next (snapshot_version s k)"
    if "snapshot_fingerprint (build_snapshot h w (Some (sp_graph s))) k = Some fp"
      "snapshot_fingerprint s k = Some fp'" "fp \<noteq> fp'" for s w k fp fp'
    unfolding successor_version using that
    by (auto simp: snapshot_fingerprint_def snapshot_version_def graph_fingerprint_def)
  show "snapshot_version (build_snapshot h w (Some (sp_graph s))) k = Some version_first"
    if "snapshot_fingerprint (build_snapshot h w (Some (sp_graph s))) k \<noteq> None"
      "snapshot_fingerprint s k = None" for s w k
    unfolding successor_version using that
    by (auto simp: snapshot_fingerprint_def graph_fingerprint_def)
qed (rule changed_symbols_exact)

section \<open>Properties of snapshots\<close>

text \<open>
  A snapshot's graph answers with exactly the content of its workspace: the fingerprint of a
  symbol is the hash of the declaration its key names, of the first such declaration in a draft
  that repeats an id, and absent when the workspace has none. The maps of the workspace are
  assumed ordered, which every commit keeps.
\<close>

theorem fingerprint_is_content_hash:
  assumes "workspace_wf w"
  shows "snapshot_fingerprint (build_snapshot h w p) k = symbol_fingerprint h w k"
  by (simp add: snapshot_fingerprint_def build_graph_fingerprint node_requests_fingerprint [OF assms])

theorem fingerprint_is_content_hash_witness:
  "snapshot_fingerprint (build_snapshot (\<lambda>c. case c of CtService s \<Rightarrow> SemanticHash (replicate 8 1) | _ \<Rightarrow> SemanticHash [])
       ((workspace_empty (run_metadata_new ''run''))\<lparr>ws_services := [(Id ''api'', \<lparr>sv_kind = SkBackend\<rparr>)]\<rparr>) None) (KService (Id ''api''))
     = Some (SemanticHash (replicate 8 1))"
  by (subst fingerprint_is_content_hash)
     (simp_all add: workspace_wf_def workspace_empty_def runtime_default_def symbol_fingerprint_def symbol_content_def)


text \<open>
  C30. Versions count changes. In the successor of a snapshot a symbol with the same fingerprint
  keeps its version, one with another fingerprint has the next, one that is new has the first,
  and one that is gone has none.
\<close>

theorem successor_versions:
  "built_with h s \<Longrightarrow>
     snapshot_version (build_snapshot h w (Some (sp_graph s))) k =
       (if snapshot_fingerprint (build_snapshot h w (Some (sp_graph s))) k = None then None
        else if snapshot_fingerprint s k = None then Some version_first
        else if snapshot_fingerprint (build_snapshot h w (Some (sp_graph s))) k = snapshot_fingerprint s k
          then snapshot_version s k
        else map_option version_next (snapshot_version s k))"
  using snap.version_kept [of h s w k] snap.version_advanced [of h s w k] snap.version_fresh [of h s w k]
    snap.has_version [of h "build_snapshot h w (Some (sp_graph s))" k] snap.valid_successor [of h s w]
  by auto

theorem successor_versions_witness:
  "let h = \<lambda>c. case c of CtService s \<Rightarrow> SemanticHash (if sv_kind s = SkJob then [1] else []) | _ \<Rightarrow> SemanticHash [];
       w = (\<lambda>k. (workspace_empty (run_metadata_new ''run''))\<lparr>ws_services := [(Id ''api'', \<lparr>sv_kind = k\<rparr>)]\<rparr>);
       s = build_snapshot h (w SkBackend) None
   in snapshot_version (build_snapshot h (w SkJob) (Some (sp_graph s))) (KService (Id ''api''))
        = Some (version_next version_first)"
  unfolding Let_def
  by (subst successor_versions)
     (auto simp: built_with_def snapshot_fingerprint_def snapshot_version_def build_graph_fingerprint
        build_graph_node node_requests_fingerprint workspace_wf_def workspace_empty_def fresh_node_def
        runtime_default_def symbol_fingerprint_def symbol_content_def)

text \<open>
  The symbols a commit reports as changed are exactly those whose fingerprint differs between
  the two revisions, absence included, each once and in key order.
\<close>

theorem changed_symbols_are_the_differences:
  "bs_wf (changed_symbols (build_snapshot h w p) (build_snapshot h w' p'))
   \<and> set (changed_symbols (build_snapshot h w p) (build_snapshot h w' p'))
      = {k. snapshot_fingerprint (build_snapshot h w p) k \<noteq> snapshot_fingerprint (build_snapshot h w' p') k}"
proof
  show "bs_wf (changed_symbols (build_snapshot h w p) (build_snapshot h w' p'))"
    by (simp add: changed_symbols_def)
  have "built_with h (build_snapshot h w p)" "built_with h (build_snapshot h w' p')"
    by (auto simp: built_with_def)
  then show "set (changed_symbols (build_snapshot h w p) (build_snapshot h w' p'))
      = {k. snapshot_fingerprint (build_snapshot h w p) k \<noteq> snapshot_fingerprint (build_snapshot h w' p') k}"
    using snap.changed_exact by blast
qed

end
