(* ===== verification/Design_Query.thy ===== *)
theory Design_Query
  imports Design_Snapshot
begin

text \<open>
  Graph queries and symbol searches (\<open>design/graph_query.rs\<close>, \<open>design/read_set.rs\<close>).

  \<open>run_query\<close> answers a query from the indexes, the adjacency lists or the programs of the
  workspace and puts the rows in canonical order. The order is that of the rows' JSON, which a
  library writes: it is the argument \<open>render\<close>. \<open>bfs\<close> is the loop of \<open>traverse\<close>, \<open>walk\<close> the
  provenance walker; its recursion happens only after a step's own work, so the pending work
  is a list. Both terminate by a measure, no fuel is needed.
\<close>

section \<open>Traversal\<close>

datatype direction = Incoming | Both

definition neighbors :: "symbol_graph \<Rightarrow> direction \<Rightarrow> nat \<Rightarrow> nat list" where
  "neighbors g dir n =
     (case dir of
        Incoming \<Rightarrow> map snd (incoming_of g n)
      | Both \<Rightarrow> map snd (incoming_of g n) @ map snd (outgoing_of g n))"

text \<open>\<open>distances[\<dots>]\<close>: every queued node has a distance (\<open>bfs_ok\<close>), so the default is never read.\<close>

definition distance_of :: "(nat \<times> nat) list \<Rightarrow> nat \<Rightarrow> nat" where
  "distance_of ds n = get_or 0 (map_of ds n)"

text \<open>The inner loop: new neighbours get a distance and are queued.\<close>

fun discover :: "nat \<Rightarrow> nat list \<Rightarrow> (nat \<times> nat) list \<Rightarrow> (nat \<times> nat) list \<times> nat list" where
  "discover d [] ds = (ds, [])"
| "discover d (m # ms) ds =
     (case map_of ds m of
        Some _ \<Rightarrow> discover d ms ds
      | None \<Rightarrow> (let (ds', new) = discover d ms ((m, d + 1) # ds) in (ds', m # new)))"

definition edge_targets :: "symbol_graph \<Rightarrow> nat set" where
  "edge_targets g = snd ` (set (concat (sg_incoming g)) \<union> set (concat (sg_outgoing g)))"

lemma finite_edge_targets [simp]: "finite (edge_targets g)"
  by (simp add: edge_targets_def)

lemma incoming_targets: "set (map snd (incoming_of g n)) \<subseteq> edge_targets g"
  unfolding edge_targets_def set_map
  by (intro image_mono) (auto simp: incoming_of_def dest: nth_mem)

lemma outgoing_targets: "set (map snd (outgoing_of g n)) \<subseteq> edge_targets g"
  unfolding edge_targets_def set_map
  by (intro image_mono) (auto simp: outgoing_of_def dest: nth_mem)

lemma neighbors_targets: "set (neighbors g dir n) \<subseteq> edge_targets g"
  using incoming_targets [of g n] outgoing_targets [of g n]
  by (simp add: neighbors_def split: direction.split)

lemma discover_dom:
  "fst ` set (fst (discover d ms ds)) = fst ` set ds \<union> set ms"
proof (induction d ms ds rule: discover.induct)
  case (2 d m ms ds)
  show ?case
  proof (cases "map_of ds m")
    case None
    with 2 show ?thesis by (simp add: case_prod_unfold Let_def)
  next
    case (Some x)
    then have "m \<in> fst ` set ds" by (metis domI dom_map_of_conv_image_fst)
    with Some 2 show ?thesis by auto
  qed
qed simp

lemma discover_count:
  assumes "finite u" "set ms \<subseteq> u"
  shows "card (u - fst ` set (fst (discover d ms ds))) + length (snd (discover d ms ds)) = card (u - fst ` set ds)"
  using assms(2)
proof (induction d ms ds rule: discover.induct)
  case (2 d m ms ds)
  show ?case
  proof (cases "map_of ds m")
    case None
    then have m: "m \<in> u - fst ` set ds" using 2 by (simp add: map_of_eq_None_iff)
    have "u - fst ` set ((m, d + 1) # ds) = u - fst ` set ds - {m}" by auto
    moreover have "card (u - fst ` set ds) = Suc (card (u - fst ` set ds - {m}))"
      by (rule card.remove [OF _ m]) (simp add: assms(1))
    ultimately show ?thesis using None 2 by (simp add: case_prod_unfold Let_def)
  next
    case (Some x)
    with 2 show ?thesis by simp
  qed
qed simp

text \<open>The loop over the frontier.\<close>

function (sequential) bfs :: "symbol_graph \<Rightarrow> direction \<Rightarrow> nat \<Rightarrow> (nat \<times> nat) list \<Rightarrow> nat list \<Rightarrow> (nat \<times> nat) list" where
  "bfs g dir depth ds [] = ds"
| "bfs g dir depth ds (n # q) =
     (if distance_of ds n \<ge> depth then bfs g dir depth ds q
      else bfs g dir depth (fst (discover (distance_of ds n) (neighbors g dir n) ds))
             (q @ snd (discover (distance_of ds n) (neighbors g dir n) ds)))"
  by pat_completeness auto
termination
proof (relation "measure (\<lambda>(g, dir, depth, ds, q). card (edge_targets g - fst ` set ds) + length q)")
  fix g dir depth ds n q
  show "((g, dir, depth, fst (discover (distance_of ds n) (neighbors g dir n) ds),
          q @ snd (discover (distance_of ds n) (neighbors g dir n) ds)), g, dir, depth, ds, n # q)
      \<in> measure (\<lambda>(g, dir, depth, ds, q). card (edge_targets g - fst ` set ds) + length q)"
    using discover_count [OF finite_edge_targets neighbors_targets, of g "distance_of ds n" dir n ds]
    by simp
qed simp_all

definition traverse_nodes :: "symbol_graph \<Rightarrow> symbol_key \<Rightarrow> nat \<Rightarrow> direction \<Rightarrow> (nat \<times> nat) list" where
  "traverse_nodes g start depth dir =
     (case graph_node_id g start of
        None \<Rightarrow> []
      | Some s \<Rightarrow> filter (\<lambda>(n, d). n \<noteq> s) (bfs g dir depth [(s, 0)] [s]))"

definition traverse :: "symbol_graph \<Rightarrow> symbol_key \<Rightarrow> nat \<Rightarrow> direction \<Rightarrow> (symbol_key \<times> nat) list" where
  "traverse g start depth dir =
     map (\<lambda>(n, d). (sn_key (sg_nodes g ! n), d)) (traverse_nodes g start depth dir)"

section \<open>Provenance\<close>

datatype (plugins only: code) binding_site =
    BsEffectResult id
  | BsIntentResult id
  | BsIntent id derivation transaction
  | BsTransitionIntent id derivation transaction
  | BsOutput derivation transaction

record effect_values =
  ev_values :: derivation
  ev_transaction :: "transaction option"

fun handle_site :: "handle_launch \<Rightarrow> binding_site" where
  "handle_site (LaunchDirect e) = BsEffectResult e"
| "handle_site (LaunchIntent i) = BsIntentResult i"

fun tx_step_index :: "transaction \<Rightarrow> tx_step \<Rightarrow> (id \<times> binding_site) list" where
  "tx_step_index t (TsEstablishEffectIntent s) = [(ei_bind s, BsIntent (ei_effect_id s) (ei_values s) t)]"
| "tx_step_index t (TsEstablishTransactionOutput s) = [(eo_bind s, BsOutput (eo_values s) t)]"
| "tx_step_index t (TsTransition s) =
     map (\<lambda>(e, i). (ti_bind i, BsTransitionIntent e (ti_values i) t)) (st_effect_intents s)"
| "tx_step_index t _ = []"

fun tx_step_effects :: "transaction \<Rightarrow> tx_step \<Rightarrow> (id \<times> effect_values) list" where
  "tx_step_effects t (TsEstablishEffectIntent s) =
     [(ei_effect_id s, \<lparr>ev_values = ei_values s, ev_transaction = Some t\<rparr>)]"
| "tx_step_effects t _ = []"

definition optional_site :: "id option \<Rightarrow> binding_site option \<Rightarrow> (id \<times> binding_site) list" where
  "optional_site b s = (case (b, s) of (Some b, Some s) \<Rightarrow> [(b, s)] | _ \<Rightarrow> [])"

fun step_index :: "(id \<Rightarrow> handle_launch option) \<Rightarrow> operation_step \<Rightarrow> (id \<times> binding_site) list" where
  "step_index launch (OsTransaction t _) = concat (map (tx_step_index t) (tx_steps t))"
| "step_index launch (OsExecuteEffect s) = optional_site (xf_bind s) (Some (BsEffectResult (xf_effect_id s)))"
| "step_index launch (OsExecuteEffectIntent s) = optional_site (xi_bind s) (Some (BsIntentResult (xi_intent s)))"
| "step_index launch (OsJoinAll js) =
     concat (map (\<lambda>j. optional_site (aj_bind j) (map_option handle_site (launch (aj_handle j)))) js)"
| "step_index launch (OsRace r) =
     optional_site (rc_bind r) (map_option handle_site (find_map launch (rc_handles r)))"
| "step_index launch _ = []"

fun step_effects :: "operation_step \<Rightarrow> (id \<times> effect_values) list" where
  "step_effects (OsTransaction t _) = concat (map (tx_step_effects t) (tx_steps t))"
| "step_effects (OsExecuteEffect s) = [(xf_effect_id s, \<lparr>ev_values = xf_values s, ev_transaction = None\<rparr>)]"
| "step_effects (OsExecuteEffectAsync s) = [(xa_effect_id s, \<lparr>ev_values = xa_values s, ev_transaction = None\<rparr>)]"
| "step_effects _ = []"

text \<open>\<open>index_program\<close>: both maps, a later insertion of a key replacing an earlier one.\<close>

type_synonym program_index = "(id \<times> binding_site) list \<times> (id \<times> effect_values) list"

definition index_program :: "operation_block \<Rightarrow> program_index" where
  "index_program p =
     (rev (concat (map (step_index (handle_launches p)) (program_steps p))),
      rev (concat (map step_effects (program_steps p))))"

datatype work = WorkBinding id field_path | WorkRef value_ref "transaction option"

datatype mark = MarkBinding id | MarkEffect id

text \<open>\<open>derivation\<close>: the roots it pushes at once and the references it goes on with.\<close>

definition derivation_work ::
    "derivation \<Rightarrow> transaction option \<Rightarrow> unspecified_at \<Rightarrow> provenance_root list \<times> work list" where
  "derivation_work v t at =
     (case v of
        DUnspecified \<Rightarrow> ([PvUnspecified at], [])
      | Deterministic from \<Rightarrow> ([], map (\<lambda>r. WorkRef r t) from))"

text \<open>The effect whose result an intent's execution observes.\<close>

definition intent_effect :: "program_index \<Rightarrow> id \<Rightarrow> id option" where
  "intent_effect ix i =
     (case map_of (fst ix) i of
        Some (BsIntent e _ _) \<Rightarrow> Some e
      | Some (BsTransitionIntent e _ _) \<Rightarrow> Some e
      | _ \<Rightarrow> None)"

definition binding_work :: "program_index \<Rightarrow> id \<Rightarrow> field_path \<Rightarrow> provenance_root list \<times> work list" where
  "binding_work ix b path =
     (case map_of (fst ix) b of
        None \<Rightarrow> ([PvUnspecified (UaUnresolvedBinding b)], [])
      | Some (BsEffectResult e) \<Rightarrow> ([PvEffectResult e None path], [])
      | Some (BsIntentResult i) \<Rightarrow>
          ([case intent_effect ix i of
              Some e \<Rightarrow> PvEffectResult e None path
            | None \<Rightarrow> PvUnspecified (UaUnresolvedIntent i)], [])
      | Some (BsIntent e v t) \<Rightarrow> derivation_work v (Some t) (UaIntentAtEffect e)
      | Some (BsTransitionIntent e v t) \<Rightarrow> derivation_work v (Some t) (UaTransitionIntent e)
      | Some (BsOutput v t) \<Rightarrow> derivation_work v (Some t) (UaTransactionOutput (tx_id t)))"

definition effect_work :: "program_index \<Rightarrow> id \<Rightarrow> provenance_root list \<times> work list" where
  "effect_work ix e =
     (case map_of (snd ix) e of
        Some s \<Rightarrow> derivation_work (ev_values s) (ev_transaction s) (UaValuesOfEffect e)
      | None \<Rightarrow> ([PvUnspecified (UaUnresolvedEffect e)], []))"

fun step_read :: "id \<Rightarrow> tx_step \<Rightarrow> id option" where
  "step_read b (TsRead s) = (if rd_bind s = b then Some (os_object (rd_target s)) else None)"
| "step_read b _ = None"

definition read_root :: "transaction option \<Rightarrow> id \<Rightarrow> field_path \<Rightarrow> provenance_root" where
  "read_root t b path =
     (case Option.bind t (\<lambda>t. map_option (Pair (tx_id t)) (find_map (step_read b) (tx_steps t))) of
        Some (tx, obj) \<Rightarrow> PvObjectRead tx obj path
      | None \<Rightarrow> PvUnspecified (UaUnresolvedRead b))"

definition result_root :: "program_index \<Rightarrow> id \<Rightarrow> field_path \<Rightarrow> result_variant \<Rightarrow> provenance_root" where
  "result_root ix b path v =
     (case (case map_of (fst ix) b of
              Some (BsEffectResult e) \<Rightarrow> Some e
            | Some (BsIntentResult i) \<Rightarrow> intent_effect ix i
            | _ \<Rightarrow> None) of
        Some e \<Rightarrow> PvEffectResult e (Some v) path
      | None \<Rightarrow> PvUnspecified (UaUnresolvedResult b))"

text \<open>What a reference leads to: a root of its own, or a mark to visit once.\<close>

fun ref_work :: "program_index \<Rightarrow> value_ref \<Rightarrow> transaction option \<Rightarrow> provenance_root option" where
  "ref_work ix (ValueRef (VsInput i) path) t = Some (PvInput i path)"
| "ref_work ix (ValueRef (VsStateMachineSubject m) path) t = Some (PvStateMachineSubject m path)"
| "ref_work ix (ValueRef (VsTransactionRead b) path) t = Some (read_root t b path)"
| "ref_work ix (ValueRef (VsEffectResultOk b) path) t = Some (result_root ix b path VariantOk)"
| "ref_work ix (ValueRef (VsEffectResultErr b) path) t = Some (result_root ix b path VariantErr)"
| "ref_work ix (ValueRef (VsTransactionOutput b) path) t = None"
| "ref_work ix (ValueRef (VsEffect e) path) t = None"

fun work_mark :: "work \<Rightarrow> mark option" where
  "work_mark (WorkBinding b path) = Some (MarkBinding b)"
| "work_mark (WorkRef (ValueRef (VsTransactionOutput b) path) t) = Some (MarkBinding b)"
| "work_mark (WorkRef (ValueRef (VsEffect e) path) t) = Some (MarkEffect e)"
| "work_mark (WorkRef _ t) = None"

fun expand :: "program_index \<Rightarrow> work \<Rightarrow> provenance_root list \<times> work list" where
  "expand ix (WorkBinding b path) = binding_work ix b path"
| "expand ix (WorkRef (ValueRef (VsTransactionOutput b) path) t) = binding_work ix b path"
| "expand ix (WorkRef (ValueRef (VsEffect e) path) t) = effect_work ix e"
| "expand ix (WorkRef r t) = (case ref_work ix r t of Some root \<Rightarrow> ([root], []) | None \<Rightarrow> ([], []))"

definition known_marks :: "program_index \<Rightarrow> mark set" where
  "known_marks ix = MarkBinding ` fst ` set (fst ix) \<union> MarkEffect ` fst ` set (snd ix)"

lemma finite_known_marks [simp]: "finite (known_marks ix)"
  by (simp add: known_marks_def)

lemma expand_known:
  assumes "snd (expand ix x) \<noteq> []"
  shows "\<exists>m. work_mark x = Some m \<and> m \<in> known_marks ix"
proof -
  have b: "MarkBinding b \<in> known_marks ix" if "snd (binding_work ix b path) \<noteq> []" for b path
  proof -
    have "map_of (fst ix) b \<noteq> None"
    proof
      assume "map_of (fst ix) b = None"
      with that show False by (simp add: binding_work_def)
    qed
    then show ?thesis by (simp add: known_marks_def map_of_eq_None_iff)
  qed
  have e: "MarkEffect e \<in> known_marks ix" if "snd (effect_work ix e) \<noteq> []" for e
  proof -
    have "map_of (snd ix) e \<noteq> None"
    proof
      assume "map_of (snd ix) e = None"
      with that show False by (simp add: effect_work_def)
    qed
    then show ?thesis by (simp add: known_marks_def map_of_eq_None_iff)
  qed
  from assms b e show ?thesis
    by (cases "(ix, x)" rule: expand.cases) auto
qed

text \<open>The walk.\<close>

function (sequential) walk :: "program_index \<Rightarrow> mark set \<Rightarrow> work list \<Rightarrow> provenance_root list" where
  "walk ix seen [] = []"
| "walk ix seen (x # xs) =
     (case work_mark x of
        Some m \<Rightarrow> if m \<in> seen then walk ix seen xs
                 else fst (expand ix x) @ walk ix (insert m seen) (snd (expand ix x) @ xs)
      | None \<Rightarrow> fst (expand ix x) @ walk ix seen xs)"
  by pat_completeness auto
termination
proof (relation "measures [\<lambda>(ix, seen, xs). card (known_marks ix - seen), \<lambda>(ix, seen, xs). length xs]")
  fix ix seen x xs m
  assume m: "work_mark x = Some m" "m \<notin> seen"
  show "((ix, insert m seen, snd (expand ix x) @ xs), ix, seen, x # xs)
      \<in> measures [\<lambda>(ix, seen, xs). card (known_marks ix - seen), \<lambda>(ix, seen, xs). length xs]"
  proof (cases "m \<in> known_marks ix")
    case True
    then have "known_marks ix - insert m seen \<subset> known_marks ix - seen" using m(2) by blast
    then show ?thesis by (simp add: psubset_card_mono)
  next
    case False
    then have "snd (expand ix x) = []" using expand_known [of ix x] m(1) by force
    moreover have "known_marks ix - insert m seen = known_marks ix - seen" using False by blast
    ultimately show ?thesis by simp
  qed
qed simp_all

definition provenance_roots :: "workspace \<Rightarrow> id \<Rightarrow> id \<Rightarrow> provenance_root list" where
  "provenance_roots w opn b =
     (case Option.bind (bm_get (ws_operations w) opn) dr_program of
        None \<Rightarrow> [PvUnspecified (UaNoProgram opn)]
      | Some p \<Rightarrow> walk (index_program p) {} [WorkBinding b (FieldPath [])])"

section \<open>Running a query\<close>

record query_result =
  qr_query :: graph_query
  qr_rows :: "query_row list"
  qr_fingerprint :: semantic_hash

type_synonym row_writer = "query_row \<Rightarrow> string"

definition canonicalize_rows :: "row_writer \<Rightarrow> query_row list \<Rightarrow> query_row list" where
  "canonicalize_rows render rows = remdups_adj (sort_key render rows)"

definition object_accesses ::
    "((id \<times> id) \<times> object_access) list \<Rightarrow> id \<Rightarrow> id \<Rightarrow> field_path option \<Rightarrow> query_row list" where
  "object_accesses ix dm obj field =
     map QrAccess
       (filter (\<lambda>a. case field of Some f \<Rightarrow> access_touches (oa_access a) f | None \<Rightarrow> True)
         (index_entries access_code ix (dm, obj)))"

fun query_rows :: "workspace \<Rightarrow> symbol_graph \<Rightarrow> graph_query \<Rightarrow> query_row list" where
  "query_rows w g (GqCallers opn) = map QrCall (index_entries call_code (gi_callers (sg_indexes g)) opn)"
| "query_rows w g (GqCallees opn) = map QrCall (index_entries call_code (gi_callees (sg_indexes g)) opn)"
| "query_rows w g (GqReaders dm obj f) = object_accesses (gi_readers (sg_indexes g)) dm obj f"
| "query_rows w g (GqWriters dm obj f) = object_accesses (gi_writers (sg_indexes g)) dm obj f"
| "query_rows w g (GqPublishers t) =
     map QrPublisher (index_entries publisher_code (gi_publishers (sg_indexes g)) t)"
| "query_rows w g (GqConsumers t) =
     map QrConsumer (index_entries consumer_code (gi_consumers (sg_indexes g)) t)"
| "query_rows w g (GqTransitionUsers m t) =
     map QrTransitionUse (index_entries transaction_ref_code (gi_transition_users (sg_indexes g)) (m, t))"
| "query_rows w g (GqReferencesTo k) =
     (case graph_node_id g k of
        None \<Rightarrow> []
      | Some n \<Rightarrow> map (\<lambda>(kind, a). QrReference (sn_key (sg_nodes g ! a)) kind) (incoming_of g n))"
| "query_rows w g (GqImpactedBy k depth) =
     map (\<lambda>(s, d). QrImpacted s d) (traverse g k depth Incoming)"
| "query_rows w g (GqNeighborhood opn depth) =
     map (\<lambda>(s, d). QrNeighbor s d) (traverse g (KOperation opn) depth Both)"
| "query_rows w g (GqProvenanceRoots opn b) = map QrRoot (provenance_roots w opn b)"

definition run_query ::
    "content_hash \<Rightarrow> row_writer \<Rightarrow> workspace \<Rightarrow> symbol_graph \<Rightarrow> graph_query \<Rightarrow> query_result" where
  "run_query h render w g q =
     (let rows = canonicalize_rows render (query_rows w g q)
      in \<lparr>qr_query = q, qr_rows = rows, qr_fingerprint = h (CtQueryRows rows)\<rparr>)"

section \<open>Symbol search\<close>

definition search_matches :: "workspace \<Rightarrow> search_spec \<Rightarrow> symbol_node \<Rightarrow> bool" where
  "search_matches w s n \<longleftrightarrow>
     (case ss_kind s of Some k \<Rightarrow> sn_kind n = k | None \<Rightarrow> True)
     \<and> (case ss_prefix s of Some p \<Rightarrow> sublist p (show_symbol (sn_key n)) | None \<Rightarrow> True)
     \<and> (case ss_service s of
          None \<Rightarrow> True
        | Some sv \<Rightarrow>
            (case symbol_operation (sn_key n) of
               Some opn \<Rightarrow> (case bm_get (ws_operations w) opn of
                   Some d \<Rightarrow> dr_service d = sv | None \<Rightarrow> False)
             | None \<Rightarrow> sn_key n = KService sv))
     \<and> (case ss_targets s of
          None \<Rightarrow> True
        | Some opn \<Rightarrow>
            (case sn_key n of
               KPromptObligation i \<Rightarrow> (case bm_get (ws_obligations w) i of
                   Some ob \<Rightarrow> opn \<in> set (po_targets ob) | None \<Rightarrow> False)
             | _ \<Rightarrow> False))"

definition run_search :: "workspace \<Rightarrow> symbol_graph \<Rightarrow> search_spec \<Rightarrow> symbol_key list" where
  "run_search w g s = sort (map sn_key (filter (search_matches w s) (sg_nodes g)))"

definition search_fingerprint :: "content_hash \<Rightarrow> symbol_key list \<Rightarrow> semantic_hash" where
  "search_fingerprint h ks = h (CtSearchRows ks)"

section \<open>Traversal finds the distances\<close>

definition steps :: "symbol_graph \<Rightarrow> direction \<Rightarrow> (nat \<times> nat) set" where
  "steps g dir = {(n, m). m \<in> set (neighbors g dir n)}"

definition at_distance :: "('a \<times> 'a) set \<Rightarrow> 'a \<Rightarrow> nat \<Rightarrow> 'a \<Rightarrow> bool" where
  "at_distance R s d n \<longleftrightarrow> (s, n) \<in> R ^^ d \<and> (\<forall>j < d. (s, n) \<notin> R ^^ j)"

lemma path_escape:
  assumes "(s, m) \<in> R ^^ k" "s \<in> A" "m \<notin> A"
  shows "\<exists>j p q. j < k \<and> (s, p) \<in> R ^^ j \<and> p \<in> A \<and> (p, q) \<in> R \<and> q \<notin> A"
  using assms(1,3)
proof (induction k arbitrary: m)
  case 0
  with assms(2) show ?case by simp
next
  case (Suc k)
  then obtain p where p: "(s, p) \<in> R ^^ k" "(p, m) \<in> R" by auto
  show ?case
  proof (cases "p \<in> A")
    case True
    with p Suc.prems(2) show ?thesis by blast
  next
    case False
    from Suc.IH [OF p(1) this] show ?thesis by (meson less_SucI)
  qed
qed

text \<open>
  The invariant of the loop: the recorded distances are the real ones, a node that has left the
  queue below the depth has all its neighbours recorded, and the queue ascends by at most one.
\<close>

definition bfs_ok :: "symbol_graph \<Rightarrow> direction \<Rightarrow> nat \<Rightarrow> nat \<Rightarrow> (nat \<times> nat) list \<Rightarrow> nat list \<Rightarrow> bool" where
  "bfs_ok g dir depth s ds q \<longleftrightarrow>
     map_of ds s = Some 0
     \<and> (\<forall>n d. map_of ds n = Some d \<longrightarrow> d \<le> depth \<and> at_distance (steps g dir) s d n)
     \<and> set q \<subseteq> dom (map_of ds)
     \<and> (\<forall>n d. map_of ds n = Some d \<longrightarrow> n \<notin> set q \<longrightarrow> d < depth \<longrightarrow> set (neighbors g dir n) \<subseteq> dom (map_of ds))
     \<and> sorted (map (distance_of ds) q)
     \<and> (\<forall>n \<in> set q. distance_of ds n \<le> Suc (distance_of ds (hd q)))"

lemma discover_map_of:
  "map_of (fst (discover d ms ds)) n
     = (case map_of ds n of Some e \<Rightarrow> Some e | None \<Rightarrow> if n \<in> set ms then Some (d + 1) else None)"
proof (induction d ms ds rule: discover.induct)
  case (2 d m ms ds)
  then show ?case
    by (cases "map_of ds m") (auto simp: case_prod_unfold Let_def split: option.split)
qed (simp split: option.split)

lemma discover_new:
  "set (snd (discover d ms ds)) = set ms - dom (map_of ds)"
proof (induction d ms ds rule: discover.induct)
  case (2 d m ms ds)
  then show ?case
    by (cases "map_of ds m") (auto simp: case_prod_unfold Let_def split: if_splits)
qed simp

lemma distance_of_Some [simp]: "map_of ds n = Some d \<Longrightarrow> distance_of ds n = d"
  by (simp add: distance_of_def)

lemma bfs_okD:
  assumes "bfs_ok g dir depth s ds q"
  shows "map_of ds s = Some 0"
    and "map_of ds n = Some d \<Longrightarrow> d \<le> depth"
    and "map_of ds n = Some d \<Longrightarrow> at_distance (steps g dir) s d n"
    and "n \<in> set q \<Longrightarrow> \<exists>d. map_of ds n = Some d"
    and "map_of ds n = Some d \<Longrightarrow> n \<notin> set q \<Longrightarrow> d < depth \<Longrightarrow> m \<in> set (neighbors g dir n) \<Longrightarrow> map_of ds m \<noteq> None"
    and "sorted (map (distance_of ds) q)"
    and "n \<in> set q \<Longrightarrow> distance_of ds n \<le> Suc (distance_of ds (hd q))"
  using assms unfolding bfs_ok_def by blast+

lemma bfs_ok_unrecorded:
  assumes "bfs_ok g dir depth s ds (n # q)" "distance_of ds n < depth" "map_of ds m = None"
  shows "(s, m) \<in> steps g dir ^^ k \<Longrightarrow> distance_of ds n < k"
proof (rule ccontr)
  assume path: "(s, m) \<in> steps g dir ^^ k" and "\<not> distance_of ds n < k"
  note ok = bfs_okD [OF assms(1)]
  have "s \<in> dom (map_of ds)" "m \<notin> dom (map_of ds)" using ok(1) assms(3) by auto
  from path_escape [OF path this] obtain j p r where
    j: "j < k" "(s, p) \<in> steps g dir ^^ j" "p \<in> dom (map_of ds)" "(p, r) \<in> steps g dir" "r \<notin> dom (map_of ds)"
    by blast
  obtain d where d: "map_of ds p = Some d" using j(3) by blast
  have "d \<le> j" using ok(3) [OF d] j(2) unfolding at_distance_def by (meson not_less)
  then have lt: "d < distance_of ds n" using j(1) \<open>\<not> distance_of ds n < k\<close> by simp
  show False
  proof (cases "p \<in> set (n # q)")
    case True
    then have "distance_of ds n \<le> distance_of ds p" using ok(6) by auto
    with d lt show False by simp
  next
    case False
    have "d < depth" using lt assms(2) by simp
    from ok(5) [OF d False this, of r] j(4,5) show False by (simp add: steps_def domIff)
  qed
qed

lemma bfs_ok_skip:
  assumes ok: "bfs_ok g dir depth s ds (n # q)" and deep: "depth \<le> distance_of ds n"
  shows "bfs_ok g dir depth s ds q"
proof -
  note okd = bfs_okD [OF ok]
  have flat: "distance_of ds m = depth" if mq: "m \<in> set q" for m
  proof -
    obtain d where d: "map_of ds m = Some d" using okd(4) [of m] mq by auto
    have "distance_of ds n \<le> distance_of ds m" using okd(6) mq by simp
    with d deep okd(2) [OF d] show ?thesis by simp
  qed
  have processed: "map_of ds k \<noteq> None"
    if "map_of ds m = Some d" "m \<notin> set q" "d < depth" "k \<in> set (neighbors g dir m)" for m d k
  proof -
    have "m \<noteq> n" using that(1,3) deep by auto
    with that okd(5) [of m d k] show ?thesis by simp
  qed
  have near: "distance_of ds m \<le> Suc (distance_of ds (hd q))" if "m \<in> set q" for m
  proof -
    have "hd q \<in> set q" using that by (cases q) auto
    with flat that show ?thesis by simp
  qed
  have "set q \<subseteq> dom (map_of ds)" using okd(4) by auto
  moreover have "sorted (map (distance_of ds) q)" using okd(6) by simp
  ultimately show ?thesis
    unfolding bfs_ok_def using okd(1,2,3) processed near by (intro conjI allI impI ballI subsetI) (simp_all add: domIff subset_iff)
qed

lemma bfs_ok_expand:
  assumes ok: "bfs_ok g dir depth s ds (n # q)" and below: "distance_of ds n < depth"
  defines "ds' \<equiv> fst (discover (distance_of ds n) (neighbors g dir n) ds)"
    and "q' \<equiv> q @ snd (discover (distance_of ds n) (neighbors g dir n) ds)"
  shows "bfs_ok g dir depth s ds' q'"
proof -
  note okd = bfs_okD [OF ok]
  obtain c where c: "map_of ds n = Some c" using okd(4) [of n] by auto
  have m': "map_of ds' m = (case map_of ds m of Some e \<Rightarrow> Some e
      | None \<Rightarrow> if m \<in> set (neighbors g dir n) then Some (Suc c) else None)" for m
    using c by (simp add: ds'_def discover_map_of split: option.split)
  have q': "set q' = set q \<union> (set (neighbors g dir n) - dom (map_of ds))"
    by (simp add: q'_def discover_new)
  have c_depth: "c < depth" using below c by simp
  have new: "at_distance (steps g dir) s (Suc c) m" if "map_of ds m = None" "m \<in> set (neighbors g dir n)" for m
  proof -
    have "(s, n) \<in> steps g dir ^^ c" using okd(3) [OF c] by (simp add: at_distance_def)
    then have "(s, m) \<in> steps g dir ^^ Suc c" using that(2) by (auto simp: steps_def)
    moreover have "(s, m) \<notin> steps g dir ^^ j" if "j < Suc c" for j
      using bfs_ok_unrecorded [OF ok below \<open>map_of ds m = None\<close>, of j] that c by auto
    ultimately show ?thesis by (simp add: at_distance_def)
  qed
  have known: "distance_of ds' m = distance_of ds m" if "m \<in> set q" for m
    using okd(4) [of m] that m' [of m] by (auto simp: distance_of_def)
  have fresh: "distance_of ds' m = Suc c" if "m \<in> set (neighbors g dir n) - dom (map_of ds)" for m
    using that m' [of m] by (auto simp: distance_of_def domIff)
  have range: "c \<le> distance_of ds m \<and> distance_of ds m \<le> Suc c" if "m \<in> set q" for m
    using okd(6) okd(7) [of m] that c by auto
  have srt: "sorted (map (distance_of ds') q')"
  proof -
    have same: "map (distance_of ds') q = map (distance_of ds) q"
      by (rule map_cong) (simp_all add: known)
    have "sorted (map (distance_of ds') q)" unfolding same using okd(6) by simp
    moreover have "map (distance_of ds') (snd (discover (distance_of ds n) (neighbors g dir n) ds))
        = map (\<lambda>_. Suc c) (snd (discover (distance_of ds n) (neighbors g dir n) ds))"
      by (rule map_cong) (simp_all add: fresh discover_new)
    ultimately show ?thesis
      unfolding q'_def map_append sorted_append using range known by (auto simp: map_replicate_const)
  qed
  have near: "distance_of ds' m \<le> Suc (distance_of ds' (hd q'))" if "m \<in> set q'" for m
  proof -
    have all: "c \<le> distance_of ds' k \<and> distance_of ds' k \<le> Suc c" if "k \<in> set q'" for k
    proof (cases "k \<in> set q")
      case True
      then show ?thesis using known [of k] range [of k] by simp
    next
      case False
      then show ?thesis using fresh [of k] that q' by simp
    qed
    have "hd q' \<in> set q'" using that by (cases q') auto
    with all [of m] all [of "hd q'"] that show ?thesis by linarith
  qed
  have processed: "map_of ds' k \<noteq> None"
    if "map_of ds' m = Some d" "m \<notin> set q'" "d < depth" "k \<in> set (neighbors g dir m)" for m d k
  proof -
    have md: "map_of ds m = Some d" "m \<notin> set q"
      using that(1,2) m' [of m] q' by (auto split: option.splits if_splits)
    show ?thesis
    proof (cases "m = n")
      case True
      then show ?thesis using that(4) m' [of k] by (auto split: option.split)
    next
      case False
      then have "map_of ds k \<noteq> None" using okd(5) [of m d k] md that by simp
      then show ?thesis using m' [of k] by auto
    qed
  qed
  have recorded: "d \<le> depth \<and> at_distance (steps g dir) s d m" if "map_of ds' m = Some d" for m d
    using that m' [of m] okd(2,3) [of m] new [of m] c_depth by (auto split: option.splits if_splits)
  have "map_of ds' s = Some 0" using okd(1) m' [of s] by simp
  moreover have "set q' \<subseteq> dom (map_of ds')"
  proof
    fix m assume "m \<in> set q'"
    then show "m \<in> dom (map_of ds')" using q' m' [of m] okd(4) [of m] by (auto simp: domIff split: option.splits)
  qed
  ultimately show ?thesis
    unfolding bfs_ok_def using recorded srt near processed by (auto simp: domIff subset_iff)
qed

lemma bfs_ok_result:
  "bfs_ok g dir depth s ds q \<Longrightarrow> bfs_ok g dir depth s (bfs g dir depth ds q) []"
  by (induction g dir depth ds q rule: bfs.induct) (simp_all add: bfs_ok_skip bfs_ok_expand)

lemma bfs_ok_start: "bfs_ok g dir depth s [(s, 0)] [s]"
  by (auto simp: bfs_ok_def at_distance_def distance_of_def)

lemma bfs_distances:
  "map_of (bfs g dir depth [(s, 0)] [s]) n = Some d \<longleftrightarrow> d \<le> depth \<and> at_distance (steps g dir) s d n"
proof -
  let ?ds = "bfs g dir depth [(s, 0)] [s]"
  note okd = bfs_okD [OF bfs_ok_result [OF bfs_ok_start, of g dir depth s]]
  show ?thesis
  proof
    assume "map_of ?ds n = Some d"
    with okd(2,3) show "d \<le> depth \<and> at_distance (steps g dir) s d n" by blast
  next
    assume d: "d \<le> depth \<and> at_distance (steps g dir) s d n"
    then have path: "(s, n) \<in> steps g dir ^^ d" by (simp add: at_distance_def)
    have "n \<in> dom (map_of ?ds)"
    proof (rule ccontr)
      assume n: "n \<notin> dom (map_of ?ds)"
      have "s \<in> dom (map_of ?ds)" using okd(1) by blast
      from path_escape [OF path this n] obtain j p r where
        j: "j < d" "(s, p) \<in> steps g dir ^^ j" "p \<in> dom (map_of ?ds)" "(p, r) \<in> steps g dir" "r \<notin> dom (map_of ?ds)"
        by blast
      obtain e where e: "map_of ?ds p = Some e" using j(3) by blast
      have "e \<le> j" using okd(3) [OF e] j(2) unfolding at_distance_def by (meson not_less)
      then have "e < depth" using j(1) d by simp
      from okd(5) [OF e _ this, of r] j(4,5) show False by (simp add: steps_def domIff)
    qed
    then obtain e where e: "map_of ?ds n = Some e" by blast
    have "e = d"
      using okd(3) [OF e] d unfolding at_distance_def by (meson linorder_neqE_nat)
    with e show "map_of ?ds n = Some d" by simp
  qed
qed

lemma bfs_keys_distinct:
  "distinct (map fst ds) \<Longrightarrow> distinct (map fst (bfs g dir depth ds q))"
proof (induction g dir depth ds q rule: bfs.induct)
  case (2 g dir depth ds n q)
  have "distinct (map fst (fst (discover d ms es)))" if "distinct (map fst es)" for d ms es
    using that
  proof (induction d ms es rule: discover.induct)
    case (2 d m ms es)
    then show ?case
      by (auto simp: case_prod_unfold Let_def map_of_eq_None_iff split: option.split)
  qed simp
  with 2 show ?case by simp
qed simp

text \<open>
  C1. Traversal answers with the distances: a node is reported with \<open>d\<close> exactly when \<open>d\<close> is at
  most the depth asked for and the length of a shortest path to it; the start is left out and no
  node is reported twice.
\<close>

theorem traverse_exact:
  "distinct (map fst (traverse_nodes g start depth dir))
   \<and> ((n, d) \<in> set (traverse_nodes g start depth dir)
       \<longleftrightarrow> d \<le> depth \<and> (\<exists>s. graph_node_id g start = Some s \<and> n \<noteq> s \<and> at_distance (steps g dir) s d n))"
proof (cases "graph_node_id g start")
  case None
  then show ?thesis by (simp add: traverse_nodes_def)
next
  case (Some s)
  have d: "distinct (map fst (bfs g dir depth [(s, 0)] [s]))"
    by (rule bfs_keys_distinct) simp
  have "(n, d) \<in> set (bfs g dir depth [(s, 0)] [s]) \<longleftrightarrow> d \<le> depth \<and> at_distance (steps g dir) s d n"
    using map_of_eq_Some_iff [OF d] bfs_distances [of g dir depth s n d] by simp
  with Some d show ?thesis
    by (auto simp: traverse_nodes_def distinct_map_filter)
qed


section \<open>Canonical rows\<close>

lemma sorted_key_filter: "sorted (map f xs) \<Longrightarrow> inj_on f (set xs) \<Longrightarrow> distinct (remdups_adj xs)"
proof (induction xs rule: remdups_adj.induct)
  case (3 x y xs)
  show ?case
  proof (cases "x = y")
    case True
    with 3 show ?thesis by simp
  next
    case False
    have "f x < f y" using 3(3,4) False by (auto simp: order_le_less inj_on_def)
    then have "x \<notin> set (y # xs)" using 3(3) by auto
    with False 3 show ?thesis by (simp add: inj_on_def)
  qed
qed simp_all

lemma sorted_remdups_adj_key: "sorted (map f xs) \<Longrightarrow> sorted (map f (remdups_adj xs))"
  by (induction xs rule: remdups_adj.induct) auto

lemma set_canonicalize [simp]: "set (canonicalize_rows render rows) = set rows"
  by (simp add: canonicalize_rows_def)

lemma canonicalize_strict:
  assumes "inj_on render (set rows)"
  shows "sorted_wrt (<) (map render (canonicalize_rows render rows))"
proof -
  have "sorted (map render (canonicalize_rows render rows))"
    by (simp add: canonicalize_rows_def sorted_remdups_adj_key)
  moreover have "distinct (canonicalize_rows render rows)"
    unfolding canonicalize_rows_def
    by (rule sorted_key_filter [of render]) (simp_all add: assms)
  ultimately show ?thesis
    using assms by (simp add: strict_sorted_iff distinct_map)
qed

lemma canonical_rows_unique:
  assumes "inj_on render (set rows)" "set rows = set rows'"
  shows "canonicalize_rows render rows = canonicalize_rows render rows'"
proof -
  have "map render (canonicalize_rows render rows) = map render (canonicalize_rows render rows')"
    by (rule strict_sorted_equal [OF canonicalize_strict canonicalize_strict]) (use assms in simp_all)
  then show ?thesis by (rule map_inj_on) (use assms in simp)
qed

text \<open>
  Equal answers have equal fingerprints: where the writer of rows tells the rows found apart,
  the rows of a query in canonical order, and so the fingerprint the commit gate compares, depend
  only on which rows the query found, not on the order or number in which it found them.
\<close>

theorem equal_answers_hash_equally:
  assumes "inj_on render (set (query_rows w g q))" "set (query_rows w g q) = set (query_rows w' g' q)"
  shows "run_query h render w g q = run_query h render w' g' q"
  using canonical_rows_unique [OF assms] by (simp add: run_query_def)

definition rows_render :: row_writer where
  "rows_render r = (case r of QrReference k e \<Rightarrow> show_symbol k | _ \<Rightarrow> [])"

definition rows_graph :: "(edge_kind \<times> nat) list \<Rightarrow> symbol_graph" where
  "rows_graph es =
     (let ks = [KTopic (Id ''t''), KService (Id ''s''), KSchema (Id ''c'')]
      in \<lparr>sg_revision = 0,
          sg_nodes = map (\<lambda>k. fresh_node k (SemanticHash [])) ks,
          sg_node_ids = zip ks [0, 1, 2], sg_outgoing = [[], [], []], sg_incoming = [es, [], []],
          sg_indexes = \<lparr>gi_callers = [], gi_callees = [], gi_readers = [], gi_writers = [],
            gi_publishers = [], gi_consumers = [], gi_transition_users = []\<rparr>\<rparr>)"

theorem equal_answers_hash_equally_witness:
  "\<forall>w h. query_rows w (rows_graph [(EkReferences, 1), (EkReadsObject, 2)]) (GqReferencesTo (KTopic (Id ''t'')))
     \<noteq> query_rows w (rows_graph [(EkReadsObject, 2), (EkReferences, 1)]) (GqReferencesTo (KTopic (Id ''t'')))
   \<and> run_query h rows_render w (rows_graph [(EkReferences, 1), (EkReadsObject, 2)]) (GqReferencesTo (KTopic (Id ''t'')))
     = run_query h rows_render w (rows_graph [(EkReadsObject, 2), (EkReferences, 1)]) (GqReferencesTo (KTopic (Id ''t'')))"
  proof (intro allI)
  fix w h
  let ?g = "rows_graph [(EkReferences, 1), (EkReadsObject, 2)]" and ?g' = "rows_graph [(EkReadsObject, 2), (EkReferences, 1)]"
  let ?q = "GqReferencesTo (KTopic (Id ''t''))"
  have rows: "query_rows w ?g ?q = [QrReference (KService (Id ''s'')) EkReferences, QrReference (KSchema (Id ''c'')) EkReadsObject]"
    "query_rows w ?g' ?q = [QrReference (KSchema (Id ''c'')) EkReadsObject, QrReference (KService (Id ''s'')) EkReferences]"
    by (simp_all add: rows_graph_def Let_def fresh_node_def graph_node_id_def incoming_of_def)
  have "inj_on rows_render (set (query_rows w ?g ?q))"
    unfolding rows by (simp add: rows_render_def show_one_def)
  moreover have "set (query_rows w ?g ?q) = set (query_rows w ?g' ?q)"
    unfolding rows by auto
  ultimately have "run_query h rows_render w ?g ?q = run_query h rows_render w ?g' ?q"
    by (rule equal_answers_hash_equally)
  with rows show "query_rows w ?g ?q \<noteq> query_rows w ?g' ?q \<and> run_query h rows_render w ?g ?q = run_query h rows_render w ?g' ?q"
    by simp
qed

section \<open>Roots are reached\<close>

text \<open>What the walk may visit: what a visited item expands to.\<close>

inductive reached :: "program_index \<Rightarrow> work \<Rightarrow> work \<Rightarrow> bool" for ix start where
  reached_start: "reached ix start start"
| reached_step: "reached ix start x \<Longrightarrow> y \<in> set (snd (expand ix x)) \<Longrightarrow> reached ix start y"

lemma walk_sound:
  "(\<And>x. x \<in> set xs \<Longrightarrow> reached ix start x) \<Longrightarrow> r \<in> set (walk ix seen xs) \<Longrightarrow>
     \<exists>x. reached ix start x \<and> r \<in> set (fst (expand ix x))"
proof (induction ix seen xs rule: walk.induct)
  case (2 ix seen x xs)
  have x: "reached ix start x" using 2(4) by simp
  have next_ok: "reached ix start y" if "y \<in> set (snd (expand ix x) @ xs)" for y
    using that x 2(4) by (auto intro: reached_step)
  show ?case
  proof (cases "work_mark x")
    case None
    with 2 x show ?thesis by auto
  next
    case (Some m)
    show ?thesis
    proof (cases "m \<in> seen")
      case True
      with 2(2) [OF Some True] 2(4,5) Some show ?thesis by auto
    next
      case False
      then have "r \<in> set (fst (expand ix x)) \<or> r \<in> set (walk ix (insert m seen) (snd (expand ix x) @ xs))"
        using 2(5) Some by auto
      then show ?thesis using 2(3) [OF Some False next_ok] x by blast
    qed
  qed
qed simp

text \<open>Items that visit one mark differ in their path and transaction only.\<close>

lemma same_mark_expand:
  "work_mark x = Some (MarkEffect e) \<Longrightarrow> work_mark y = Some (MarkEffect e) \<Longrightarrow> expand ix x = expand ix y"
  by (cases "(ix, x)" rule: expand.cases; cases "(ix, y)" rule: expand.cases) auto

definition strip_path :: "provenance_root \<Rightarrow> provenance_root" where
  "strip_path r = (case r of PvEffectResult e v p \<Rightarrow> PvEffectResult e v (FieldPath []) | _ \<Rightarrow> r)"

lemma same_mark_binding:
  assumes "work_mark x = Some m" "work_mark y = Some m"
  shows "snd (expand ix x) = snd (expand ix y)
    \<and> map strip_path (fst (expand ix x)) = map strip_path (fst (expand ix y))"
proof -
  have "snd (binding_work ix b p) = snd (binding_work ix b p')
      \<and> map strip_path (fst (binding_work ix b p)) = map strip_path (fst (binding_work ix b p'))" for b p p'
    by (cases "map_of (fst ix) b")
       (auto simp: binding_work_def strip_path_def split: binding_site.split option.split)
  with assms show ?thesis
    by (cases "(ix, x)" rule: expand.cases; cases "(ix, y)" rule: expand.cases) auto
qed

lemma expand_unmarked: "work_mark x = None \<Longrightarrow> snd (expand ix x) = []"
  by (cases "(ix, x)" rule: expand.cases) (auto split: option.split)

text \<open>An item is settled when its mark has been visited, or its own root reported.\<close>

definition settled :: "program_index \<Rightarrow> mark set \<Rightarrow> provenance_root set \<Rightarrow> work \<Rightarrow> bool" where
  "settled ix ms rs x \<longleftrightarrow>
     (case work_mark x of Some m \<Rightarrow> m \<in> ms | None \<Rightarrow> set (fst (expand ix x)) \<subseteq> rs)"

lemma settled_mono: "settled ix ms rs x \<Longrightarrow> ms \<subseteq> ms' \<Longrightarrow> rs \<subseteq> rs' \<Longrightarrow> settled ix ms' rs' x"
  by (auto simp: settled_def split: option.splits)

definition visited_well :: "program_index \<Rightarrow> mark set \<Rightarrow> provenance_root set \<Rightarrow> mark \<Rightarrow> bool" where
  "visited_well ix ms rs m \<longleftrightarrow>
     (\<exists>x. work_mark x = Some m \<and> set (fst (expand ix x)) \<subseteq> rs
        \<and> (\<forall>y \<in> set (snd (expand ix x)). settled ix ms rs y))"

lemma visited_well_mono: "visited_well ix ms rs m \<Longrightarrow> rs \<subseteq> rs' \<Longrightarrow> visited_well ix ms rs' m"
  unfolding visited_well_def using settled_mono [of ix ms rs _ ms rs'] by blast

lemma walk_complete:
  "\<exists>ms. seen \<subseteq> ms \<and> (\<forall>x \<in> set xs. settled ix ms (set (walk ix seen xs)) x)
      \<and> (\<forall>m \<in> ms - seen. visited_well ix ms (set (walk ix seen xs)) m)"
proof (induction ix seen xs rule: walk.induct)
  case (1 ix seen)
  show ?case by (intro exI [of _ seen]) simp
next
  case (2 ix seen x xs)
  show ?case
  proof (cases "work_mark x")
    case None
    let ?rs = "set (walk ix seen (x # xs))"
    have rs: "set (walk ix seen xs) \<subseteq> ?rs" "set (fst (expand ix x)) \<subseteq> ?rs" using None by auto
    obtain ms where ms: "seen \<subseteq> ms" "\<forall>x \<in> set xs. settled ix ms (set (walk ix seen xs)) x"
      "\<forall>m \<in> ms - seen. visited_well ix ms (set (walk ix seen xs)) m"
      using 2(1) [OF None] by blast
    have "settled ix ms ?rs x" using None rs(2) by (simp add: settled_def)
    moreover have "\<forall>y \<in> set xs. settled ix ms ?rs y"
      using ms(2) settled_mono [OF _ subset_refl rs(1)] by blast
    moreover have "\<forall>m \<in> ms - seen. visited_well ix ms ?rs m"
      using ms(3) visited_well_mono [OF _ rs(1)] by blast
    ultimately show ?thesis using ms(1) by (intro exI [of _ ms]) simp
  next
    case (Some m)
    show ?thesis
    proof (cases "m \<in> seen")
      case True
      obtain ms where ms: "seen \<subseteq> ms" "\<forall>x \<in> set xs. settled ix ms (set (walk ix seen xs)) x"
        "\<forall>m \<in> ms - seen. visited_well ix ms (set (walk ix seen xs)) m"
        using 2(2) [OF Some True] by blast
      have same: "walk ix seen (x # xs) = walk ix seen xs" using Some True by simp
      have "settled ix ms (set (walk ix seen xs)) x" using Some True ms(1) by (auto simp: settled_def)
      with ms show ?thesis unfolding same by (intro exI [of _ ms]) simp
    next
      case False
      let ?more = "walk ix (insert m seen) (snd (expand ix x) @ xs)"
      let ?rs = "set (walk ix seen (x # xs))"
      have rs: "set ?more \<subseteq> ?rs" "set (fst (expand ix x)) \<subseteq> ?rs" using Some False by auto
      obtain ms where ms: "insert m seen \<subseteq> ms" "\<forall>y \<in> set (snd (expand ix x) @ xs). settled ix ms (set ?more) y"
        "\<forall>n \<in> ms - insert m seen. visited_well ix ms (set ?more) n"
        using 2(3) [OF Some False] by blast
      have all: "\<forall>y \<in> set (snd (expand ix x) @ xs). settled ix ms ?rs y"
        using ms(2) settled_mono [OF _ subset_refl rs(1)] by blast
      have "settled ix ms ?rs x" using Some ms(1) by (simp add: settled_def)
      moreover have "visited_well ix ms ?rs m"
        unfolding visited_well_def using Some rs(2) all by (intro exI [of _ x]) simp
      moreover have "\<forall>n \<in> ms - insert m seen. visited_well ix ms ?rs n"
        using ms(3) visited_well_mono [OF _ rs(1)] by blast
      ultimately show ?thesis using ms(1) all by (intro exI [of _ ms]) auto
    qed
  qed
qed

lemma walk_covers:
  assumes "reached ix start x"
  shows "strip_path ` set (fst (expand ix x)) \<subseteq> strip_path ` set (walk ix {} [start])"
proof -
  let ?rs = "set (walk ix {} [start])"
  obtain ms where ms: "settled ix ms ?rs start" "\<And>m. m \<in> ms \<Longrightarrow> visited_well ix ms ?rs m"
    using walk_complete [of "{}" "[start]" ix] by auto
  have "settled ix ms ?rs x"
    using assms
  proof (induction rule: reached.induct)
    case (reached_step x y)
    have "work_mark x \<noteq> None" using reached_step(2) expand_unmarked [of x ix] by (metis empty_iff list.set(1))
    then obtain m where m: "work_mark x = Some m" by blast
    with reached_step(3) have "m \<in> ms" by (simp add: settled_def)
    from ms(2) [OF this] obtain z where z: "work_mark z = Some m"
      "\<forall>y \<in> set (snd (expand ix z)). settled ix ms ?rs y"
      unfolding visited_well_def by blast
    have "snd (expand ix x) = snd (expand ix z)" using same_mark_binding [OF m z(1)] by blast
    with z(2) reached_step(2) show ?case by simp
  qed (rule ms(1))
  then show ?thesis
  proof (cases "work_mark x")
    case None
    with \<open>settled ix ms ?rs x\<close> show ?thesis by (auto simp: settled_def)
  next
    case (Some m)
    with \<open>settled ix ms ?rs x\<close> have "m \<in> ms" by (simp add: settled_def)
    from ms(2) [OF this] obtain z where z: "work_mark z = Some m" "set (fst (expand ix z)) \<subseteq> ?rs"
      unfolding visited_well_def by blast
    have "set (map strip_path (fst (expand ix x))) = set (map strip_path (fst (expand ix z)))"
      using same_mark_binding [OF Some z(1)] by simp
    with z(2) show ?thesis by auto
  qed
qed

text \<open>
  C37. The provenance of a binding is what its derivations lead to: every root reported is named
  by an item reached from the binding, and every root such an item names is reported, up to the
  path of an effect result that was reached under two paths.
\<close>

theorem provenance_exact:
  "set (walk ix {} [start]) \<subseteq> {r. \<exists>x. reached ix start x \<and> r \<in> set (fst (expand ix x))}
   \<and> strip_path ` set (walk ix {} [start])
       = strip_path ` {r. \<exists>x. reached ix start x \<and> r \<in> set (fst (expand ix x))}"
proof -
  have "\<exists>x. reached ix start x \<and> r \<in> set (fst (expand ix x))" if "r \<in> set (walk ix {} [start])" for r
    by (rule walk_sound [OF _ that]) (auto intro: reached_start)
  then show ?thesis using walk_covers [of ix start] by blast
qed

end
