(* ===== verification/Design_Check.thy ===== *)
theory Design_Check
  imports Design_Query
begin

text \<open>
  The draft checks of the commit gate (\<open>check_patch\<close> and the functions it calls in
  \<open>design/commit.rs\<close>): every reference a mutation makes must resolve in the candidate workspace,
  and the ids a program declares must be unique.

  A diagnostic has a subject and a message; a \<open>message\<close> keeps what the text is formatted from.
  Two calls leave this file: the validator's \<open>program_local_diagnostics\<close> and the sketch compiler.
  Both are arguments, the record \<open>gate\<close>.
\<close>

section \<open>Diagnostics\<close>

datatype (plugins only: code) ref_context =
    RcObject id id
  | RcTopic id
  | RcField string id
  | RcFragment id
  | RcTransition id id
  | RcInput id id
  | RcEffect id id
  | RcOutput id id
  | RcOutboxWrite id id

datatype boundary_kind = BkRequest | BkSubscription | BkOutbox

datatype id_label = LbTransaction | LbEffect | LbBinding | LbHandle

datatype (plugins only: code) message =
    MgSchema ref_context id
  | MgTopic ref_context id
  | MgTarget ref_context id
  | MgTargetInput ref_context id id
  | MgPlanFirst id
  | MgNotTopLevel symbol_key
  | MgMissing symbol_key
  | MgNoObligation obligation_id
  | MgNoTransaction requirement_family id id
  | MgService id id
  | MgInitialState id
  | MgSubjectObject id
  | MgState id id
  | MgAdmitsUnknown id id id id
  | MgAdmitsForeign id id id id id id id
  | MgAdmitsSchema id id id id
  | MgSubscribes id id id
  | MgNotCarried id id id id
  | MgConsumesUnknown id id id
  | MgSecondConsumer id id id id id
  | MgEffectOutbox id id id
  | MgRequirementInput id id id
  | MgTxDataModel id id id
  | MgTxObject id id id id
  | MgTxMachine id id id
  | MgTxTransition id id id id
  | MgTxIntents id id id "id list" "id list"
  | MgTxAdmissions id id id "id list" "id list"
  | MgWriteUnknown id id id
  | MgWriteForeign id id id id id "id option"
  | MgWriteSchema id id id id
  | MgStepInput step_location id id
  | MgReturnInput step_location id id
  | MgDuplicate id_label id id
  | MgNoInput id id
  | MgNotKind id id boundary_kind
  | MgPool id
  | MgTopicHasTransport id
  | MgTopicUndeclared id
  | MgWithinGroup
  | MgSubscriptionHasTransport id id id
  | MgPartitionKey
  | MgDataObject id id
  | MgKeyedInput id id
  | MgProgram string
  | MgSketch id string
  | MgNoInputs id
  | MgUnconsumed id id
  | MgNotPersisted string
  | MgDiskUnreadable string

record diagnostic =
  dd_subject :: "symbol_key option"
  dd_message :: message

abbreviation diagnose :: "symbol_key \<Rightarrow> message \<Rightarrow> diagnostic" where
  "diagnose k m \<equiv> \<lparr>dd_subject = Some k, dd_message = m\<rparr>"

abbreviation complain :: "bool \<Rightarrow> symbol_key \<Rightarrow> message \<Rightarrow> diagnostic list" where
  "complain b k m \<equiv> (if b then [diagnose k m] else [])"

section \<open>References\<close>

definition require_schema :: "workspace \<Rightarrow> ref_context \<Rightarrow> id \<Rightarrow> diagnostic list" where
  "require_schema w c s = complain (\<not> bm_contains (ws_schemas w) s) (KSchema s) (MgSchema c s)"

definition require_topic :: "workspace \<Rightarrow> ref_context \<Rightarrow> id \<Rightarrow> diagnostic list" where
  "require_topic w c t = complain (\<not> bm_contains (ws_topics w) t) (KTopic t) (MgTopic c t)"

definition require_request_target :: "workspace \<Rightarrow> ref_context \<Rightarrow> id \<Rightarrow> id \<Rightarrow> diagnostic list" where
  "require_request_target w c opn i =
     (case bm_get (ws_operations w) opn of
        None \<Rightarrow> [diagnose (KOperation opn) (MgTarget c opn)]
      | Some d \<Rightarrow> complain (\<not> bm_contains (dr_inputs d) i) (KInput opn i) (MgTargetInput c opn i))"

definition require_result :: "workspace \<Rightarrow> ref_context \<Rightarrow> result_type \<Rightarrow> diagnostic list" where
  "require_result w c r = concat (map (require_schema w c) (result_schemas r))"

section \<open>Shared declarations\<close>

fun check_schema :: "workspace \<Rightarrow> id \<Rightarrow> schema \<Rightarrow> diagnostic list" where
  "check_schema w i (SchCanonical c) =
     concat (map (\<lambda>(f, decl). concat (map (require_schema w (RcField f i)) (type_refs (f_ty decl))))
       (cs_fields c))"
| "check_schema w i (SchFragment f) = require_schema w (RcFragment i) (sf_source f)"

definition check_data_model :: "workspace \<Rightarrow> id \<Rightarrow> data_model \<Rightarrow> diagnostic list" where
  "check_data_model w i dm =
     concat (map (\<lambda>(j, ob). require_schema w (RcObject j i) (do_schema ob)) (dm_objects dm))"

definition check_topic :: "workspace \<Rightarrow> id \<Rightarrow> topic \<Rightarrow> diagnostic list" where
  "check_topic w i t = concat (map (require_schema w (RcTopic i)) (tp_messages t))"

fun check_side_effect :: "workspace \<Rightarrow> id \<Rightarrow> id \<Rightarrow> transition_side_effect \<Rightarrow> diagnostic list" where
  "check_side_effect w m t (TsePublication p) =
     require_topic w (RcTransition t m) (pe_topic p) @ require_schema w (RcTransition t m) (pe_schema p)"
| "check_side_effect w m t (TseRequest r) =
     require_request_target w (RcTransition t m) (rq_operation (re_target r)) (rq_input (re_target r))
     @ require_schema w (RcTransition t m) (re_schema r)"

text \<open>The data model that owns the subject, where some data model declares it.\<close>

definition subject_owner :: "workspace \<Rightarrow> id \<Rightarrow> id option" where
  "subject_owner w obj =
     map_option fst (find (\<lambda>(i, dm). bm_contains (dm_objects dm) obj) (ws_data_models w))"

definition check_admission :: "workspace \<Rightarrow> id \<Rightarrow> id \<Rightarrow> id \<Rightarrow> id \<Rightarrow> outbox_write_effect \<Rightarrow> diagnostic list" where
  "check_admission w m obj t e wr =
     require_schema w (RcTransition t m) (ow_schema wr)
     @ (case find_outbox (ws_data_models w) (ow_outbox wr) of
          None \<Rightarrow> [diagnose (KTransition m t) (MgAdmitsUnknown t m e (ow_outbox wr))]
        | Some (owner, ob) \<Rightarrow>
            (case subject_owner w obj of
               None \<Rightarrow> []
             | Some sub \<Rightarrow>
                 complain (sub \<noteq> owner) (KTransition m t)
                   (MgAdmitsForeign t m e (ow_outbox wr) owner obj sub))
            @ complain (ow_schema wr \<notin> set (ob_messages ob)) (KSchema (ow_schema wr))
                (MgAdmitsSchema t m (ow_schema wr) (ow_outbox wr)))"

definition check_transition :: "workspace \<Rightarrow> id \<Rightarrow> state_machine \<Rightarrow> id \<Rightarrow> transition \<Rightarrow> diagnostic list" where
  "check_transition w i m t tn =
     concat (map (\<lambda>s. complain (s \<notin> set (sm_states m)) (KTransition i t) (MgState t s)) (tn_from tn @ [tn_to tn]))
     @ concat (map (check_side_effect w i t) (bm_values (tn_side_effects tn)))
     @ concat (map (\<lambda>(e, ef). check_admission w i (ms_object (sm_subject m)) t e (te_write ef)) (tn_effects tn))"

definition check_state_machine :: "workspace \<Rightarrow> id \<Rightarrow> state_machine \<Rightarrow> diagnostic list" where
  "check_state_machine w i m =
     complain (sm_initial m \<notin> set (sm_states m)) (KStateMachine i) (MgInitialState (sm_initial m))
     @ complain (\<not> (\<exists>dm \<in> set (bm_values (ws_data_models w)). bm_contains (dm_objects dm) (ms_object (sm_subject m))))
         (KStateMachine i) (MgSubjectObject (ms_object (sm_subject m)))
     @ concat (map (\<lambda>(t, tn). check_transition w i m t tn) (sm_transitions m))"

section \<open>Interfaces\<close>

fun consumes :: "id \<Rightarrow> op_input \<Rightarrow> bool" where
  "consumes ox (InOutbox b) = (oi_outbox b = ox)"
| "consumes ox _ = False"

definition other_consumers :: "workspace \<Rightarrow> id \<Rightarrow> id \<Rightarrow> id \<Rightarrow> (id \<times> id) list" where
  "other_consumers w opn i ox =
     concat (map (\<lambda>(other, d). map (\<lambda>(j, v). (other, j))
         (filter (\<lambda>(j, v). (other, j) \<noteq> (opn, i) \<and> consumes ox v) (dr_inputs d)))
       (ws_operations w))"

fun check_input :: "workspace \<Rightarrow> id \<Rightarrow> id \<Rightarrow> op_input \<Rightarrow> diagnostic list" where
  "check_input w opn i (InRequest r) =
     require_schema w (RcInput i opn) (ri_schema r) @ require_result w (RcInput i opn) (ri_result r)"
| "check_input w opn i (InSubscription s) =
     (case bm_get (ws_topics w) (si_topic s) of
        None \<Rightarrow> [diagnose (KTopic (si_topic s)) (MgSubscribes i opn (si_topic s))]
      | Some t \<Rightarrow>
          (case si_messages s of
             MsAll \<Rightarrow> []
           | MsOnly ss \<Rightarrow> concat (map (\<lambda>sc. complain (sc \<notin> set (tp_messages t)) (KSchema sc)
               (MgNotCarried i opn sc (si_topic s))) ss)))"
| "check_input w opn i (InOutbox b) =
     complain (find_outbox (ws_data_models w) (oi_outbox b) = None) (KDataModel (oi_outbox b))
       (MgConsumesUnknown i opn (oi_outbox b))
     @ map (\<lambda>(other, j). diagnose (KOperationInterface other)
         (MgSecondConsumer i opn (oi_outbox b) j other)) (other_consumers w opn i (oi_outbox b))"

text \<open>
  What the gate calls: the validator's local diagnostics of one operation of a model, and the
  sketch compiler, which answers with an error or nothing.
\<close>

record settled =
  se_refusal :: "id option"
  se_cursor_rule :: "cursor_advance_rule option"

record gate =
  gt_local_diagnostics :: "model \<Rightarrow> id \<Rightarrow> string list"
  gt_compile_sketch :: "workspace \<Rightarrow> id \<Rightarrow> draft_operation \<Rightarrow> settled \<Rightarrow> string option"

fun first_error :: "op_input \<Rightarrow> id option" where
  "first_error (InRequest r) = (case rt_errors (ri_result r) of [] \<Rightarrow> None | (e, _) # _ \<Rightarrow> Some e)"
| "first_error _ = None"

definition check_sketch :: "gate \<Rightarrow> workspace \<Rightarrow> id \<Rightarrow> diagnostic list" where
  "check_sketch g w opn =
     (case bm_get (ws_operations w) opn of
        None \<Rightarrow> []
      | Some d \<Rightarrow>
          if dr_sketch d = None then []
          else (case gt_compile_sketch g w opn d
                   \<lparr>se_refusal = find_map first_error (bm_values (dr_inputs d)),
                    se_cursor_rule = Some MonotonicAfter\<rparr> of
                  None \<Rightarrow> []
                | Some e \<Rightarrow> [diagnose (KOperationInterface opn) (MgSketch opn e)]))"

definition check_interface :: "gate \<Rightarrow> workspace \<Rightarrow> id \<Rightarrow> interface_draft \<Rightarrow> diagnostic list" where
  "check_interface g w opn v =
     complain (\<not> bm_contains (ws_services w) (if_service v)) (KService (if_service v))
       (MgService opn (if_service v))
     @ concat (map (\<lambda>(i, inp). check_input w opn i inp) (if_inputs v))
     @ check_sketch g w opn"

section \<open>Programs\<close>

fun check_effect :: "workspace \<Rightarrow> id \<Rightarrow> id \<Rightarrow> effect \<Rightarrow> diagnostic list" where
  "check_effect w opn e (EfPublication p) =
     require_topic w (RcEffect e opn) (pe_topic p) @ require_schema w (RcEffect e opn) (pe_schema p)"
| "check_effect w opn e (EfRequest r) =
     require_request_target w (RcEffect e opn) (rq_operation (re_target r)) (rq_input (re_target r))
     @ require_schema w (RcEffect e opn) (re_schema r)"
| "check_effect w opn e (EfExternal x) =
     (case xe_result x of None \<Rightarrow> [] | Some r \<Rightarrow> require_result w (RcEffect e opn) r)"
| "check_effect w opn e (EfOutboxWrite wr) =
     complain (find_outbox (ws_data_models w) (ow_outbox wr) = None) (KDataModel (ow_outbox wr))
       (MgEffectOutbox e opn (ow_outbox wr))
     @ require_schema w (RcEffect e opn) (ow_schema wr)"

text \<open>Roots that read an input the operation does not declare, each reported by \<open>mk\<close>.\<close>

definition undeclared_inputs :: "draft_operation \<Rightarrow> value_ref list \<Rightarrow> id list" where
  "undeclared_inputs d roots =
     List.map_filter (\<lambda>r. case vr_source r of
        VsInput i \<Rightarrow> if bm_contains (dr_inputs d) i then None else Some i
      | _ \<Rightarrow> None) roots"

definition tx_requirement_roots :: "transaction \<Rightarrow> value_ref list" where
  "tx_requirement_roots t =
     map sr_key (tr_serializability (tx_requirements t))
     @ concat (map (\<lambda>r. [or_key r, or_position r]) (tr_ordering (tx_requirements t)))"

definition check_tx_objects :: "workspace \<Rightarrow> id \<Rightarrow> transaction \<Rightarrow> diagnostic list" where
  "check_tx_objects w opn t =
     (case tx_data_model t of
        None \<Rightarrow> []
      | Some m \<Rightarrow>
          (case bm_get (ws_data_models w) m of
             None \<Rightarrow> [diagnose (KDataModel m) (MgTxDataModel (tx_id t) opn m)]
           | Some dm \<Rightarrow>
               concat (map (\<lambda>s. case step_object s of
                   None \<Rightarrow> []
                 | Some ob \<Rightarrow> complain (\<not> bm_contains (dm_objects dm) ob) (KDataObject m ob)
                     (MgTxObject (tx_id t) opn ob m)) (tx_steps t))))"

definition check_application :: "workspace \<Rightarrow> id \<Rightarrow> id \<Rightarrow> state_transition \<Rightarrow> diagnostic list" where
  "check_application w opn tx s =
     (case bm_get (ws_state_machines w) (st_machine s) of
        None \<Rightarrow> [diagnose (KStateMachine (st_machine s)) (MgTxMachine tx opn (st_machine s))]
      | Some m \<Rightarrow>
          (case bm_get (sm_transitions m) (st_transition s) of
             None \<Rightarrow> [diagnose (KTransition (st_machine s) (st_transition s))
                        (MgTxTransition tx opn (st_transition s) (st_machine s))]
           | Some tn \<Rightarrow>
               complain (bm_keys (tn_side_effects tn) \<noteq> bm_keys (st_effect_intents s))
                 (KTransition (st_machine s) (st_transition s))
                 (MgTxIntents tx opn (st_transition s) (bm_keys (st_effect_intents s)) (bm_keys (tn_side_effects tn)))
               @ complain (bm_keys (tn_effects tn) \<noteq> bm_keys (st_effects s))
                   (KTransition (st_machine s) (st_transition s))
                   (MgTxAdmissions tx opn (st_transition s) (bm_keys (st_effects s)) (bm_keys (tn_effects tn)))))"

definition check_write :: "workspace \<Rightarrow> id \<Rightarrow> transaction \<Rightarrow> write_outbox_effect \<Rightarrow> diagnostic list" where
  "check_write w opn t s =
     require_schema w (RcOutboxWrite (wo_effect_id s) opn) (ow_schema (wo_effect s))
     @ (case find_outbox (ws_data_models w) (ow_outbox (wo_effect s)) of
          None \<Rightarrow> [diagnose (KDataModel (ow_outbox (wo_effect s)))
                     (MgWriteUnknown (wo_effect_id s) opn (ow_outbox (wo_effect s)))]
        | Some (owner, ob) \<Rightarrow>
            complain (tx_data_model t \<noteq> Some owner) (KDataModel owner)
              (MgWriteForeign (wo_effect_id s) opn (ow_outbox (wo_effect s)) owner (tx_id t) (tx_data_model t))
            @ complain (ow_schema (wo_effect s) \<notin> set (ob_messages ob)) (KSchema (ow_schema (wo_effect s)))
                (MgWriteSchema (wo_effect_id s) opn (ow_schema (wo_effect s)) (ow_outbox (wo_effect s))))"

fun check_tx_step :: "workspace \<Rightarrow> id \<Rightarrow> transaction \<Rightarrow> tx_step \<Rightarrow> diagnostic list" where
  "check_tx_step w opn t (TsTransition s) = check_application w opn (tx_id t) s"
| "check_tx_step w opn t (TsEstablishEffectIntent s) = check_effect w opn (ei_effect_id s) (ei_effect s)"
| "check_tx_step w opn t (TsEstablishTransactionOutput s) =
     require_schema w (RcOutput (eo_bind s) opn) (eo_schema s)"
| "check_tx_step w opn t (TsWriteOutbox s) = check_write w opn t s"
| "check_tx_step w opn t _ = []"

definition report_inputs :: "id \<Rightarrow> draft_operation \<Rightarrow> step_location \<Rightarrow> value_ref list \<Rightarrow> diagnostic list" where
  "report_inputs opn d loc roots =
     map (\<lambda>i. diagnose (KInput opn i) (MgStepInput loc opn i)) (undeclared_inputs d roots)"

definition check_transaction ::
    "workspace \<Rightarrow> id \<Rightarrow> draft_operation \<Rightarrow> step_location \<Rightarrow> transaction \<Rightarrow> diagnostic list" where
  "check_transaction w opn d loc t =
     map (\<lambda>i. diagnose (KInput opn i) (MgRequirementInput (tx_id t) opn i))
       (undeclared_inputs d (tx_requirement_roots t))
     @ check_tx_objects w opn t
     @ concat (map (\<lambda>s. check_tx_step w opn t s @ report_inputs opn d loc (step_roots s)) (tx_steps t))"

fun check_step ::
    "workspace \<Rightarrow> id \<Rightarrow> draft_operation \<Rightarrow> step_location \<Rightarrow> operation_step \<Rightarrow> diagnostic list" where
  "check_step w opn d loc (OsTransaction t _) = check_transaction w opn d loc t"
| "check_step w opn d loc (OsExecuteEffect s) =
     check_effect w opn (xf_effect_id s) (xf_effect s)
     @ report_inputs opn d loc (derivation_roots (xf_values s) @ effect_roots (xf_effect s))"
| "check_step w opn d loc (OsExecuteEffectAsync s) =
     check_effect w opn (xa_effect_id s) (xa_effect s)
     @ report_inputs opn d loc (derivation_roots (xa_values s) @ effect_roots (xa_effect s))"
| "check_step w opn d loc (OsReturn s) =
     complain (\<not> bm_contains (dr_inputs d) (ret_request s)) (KInput opn (ret_request s))
       (MgReturnInput loc opn (ret_request s))
     @ report_inputs opn d loc (derivation_roots (outcome_values (ret_outcome s)))"
| "check_step w opn d loc (OsBranch c _ _) = report_inputs opn d loc (condition_roots c)"
| "check_step w opn d loc _ = []"

text \<open>The ids a program declares, in the order the loop collects them.\<close>

fun declared_transactions :: "operation_step \<Rightarrow> id list" where
  "declared_transactions (OsTransaction t _) = [tx_id t]"
| "declared_transactions _ = []"

fun tx_step_effect_ids :: "tx_step \<Rightarrow> id list" where
  "tx_step_effect_ids (TsEstablishEffectIntent s) = [ei_effect_id s]"
| "tx_step_effect_ids (TsWriteOutbox s) = [wo_effect_id s]"
| "tx_step_effect_ids _ = []"

fun declared_effects :: "operation_step \<Rightarrow> id list" where
  "declared_effects (OsTransaction t _) = concat (map tx_step_effect_ids (tx_steps t))"
| "declared_effects (OsExecuteEffect s) = [xf_effect_id s]"
| "declared_effects (OsExecuteEffectAsync s) = [xa_effect_id s]"
| "declared_effects _ = []"

text \<open>The intents of a transition count only where the machine declares the transition.\<close>

fun tx_step_binding_ids :: "workspace \<Rightarrow> tx_step \<Rightarrow> id list" where
  "tx_step_binding_ids w (TsTransition s) =
     (case Option.bind (bm_get (ws_state_machines w) (st_machine s))
             (\<lambda>m. bm_get (sm_transitions m) (st_transition s)) of
        None \<Rightarrow> [] | Some _ \<Rightarrow> map ti_bind (bm_values (st_effect_intents s)))"
| "tx_step_binding_ids w (TsEstablishEffectIntent s) = [ei_bind s]"
| "tx_step_binding_ids w (TsEstablishTransactionOutput s) = [eo_bind s]"
| "tx_step_binding_ids w _ = []"

definition optional_id :: "id option \<Rightarrow> id list" where
  "optional_id b = (case b of None \<Rightarrow> [] | Some i \<Rightarrow> [i])"

fun declared_bindings :: "workspace \<Rightarrow> operation_step \<Rightarrow> id list" where
  "declared_bindings w (OsTransaction t _) = concat (map (tx_step_binding_ids w) (tx_steps t))"
| "declared_bindings w (OsExecuteEffect s) = optional_id (xf_bind s)"
| "declared_bindings w (OsExecuteEffectIntent s) = optional_id (xi_bind s)"
| "declared_bindings w (OsJoinAll js) = concat (map (\<lambda>j. optional_id (aj_bind j)) js)"
| "declared_bindings w (OsRace r) = optional_id (rc_bind r)"
| "declared_bindings w _ = []"

fun declared_handles :: "operation_step \<Rightarrow> id list" where
  "declared_handles (OsExecuteEffectAsync s) = [xa_handle s]"
| "declared_handles (OsExecuteEffectIntentAsync s) = [xia_handle s]"
| "declared_handles _ = []"

fun repeated_ids :: "id list \<Rightarrow> id list \<Rightarrow> id list" where
  "repeated_ids seen [] = []"
| "repeated_ids seen (i # is) =
     (if i \<in> set seen then i # repeated_ids seen is else repeated_ids (i # seen) is)"

definition check_unique :: "id \<Rightarrow> id_label \<Rightarrow> id list \<Rightarrow> diagnostic list" where
  "check_unique opn l is = map (\<lambda>i. diagnose (KOperation opn) (MgDuplicate l i opn)) (repeated_ids [] is)"

definition check_program :: "workspace \<Rightarrow> id \<Rightarrow> operation_block \<Rightarrow> diagnostic list" where
  "check_program w opn p =
     (case bm_get (ws_operations w) opn of
        None \<Rightarrow> []
      | Some d \<Rightarrow>
          concat (map (\<lambda>(loc, s). check_step w opn d loc s) (steps_with_locations p))
          @ check_unique opn LbTransaction (concat (map declared_transactions (program_steps p)))
          @ check_unique opn LbEffect (concat (map declared_effects (program_steps p)))
          @ check_unique opn LbBinding (concat (map (declared_bindings w) (program_steps p)))
          @ check_unique opn LbHandle (concat (map declared_handles (program_steps p))))"

section \<open>Runtime declarations\<close>

fun boundary_matches :: "boundary_kind \<Rightarrow> op_input \<Rightarrow> bool" where
  "boundary_matches BkRequest (InRequest _) = True"
| "boundary_matches BkSubscription (InSubscription _) = True"
| "boundary_matches BkOutbox (InOutbox _) = True"
| "boundary_matches _ _ = False"

definition check_boundary :: "workspace \<Rightarrow> symbol_key \<Rightarrow> id \<Rightarrow> id \<Rightarrow> boundary_kind \<Rightarrow> diagnostic list" where
  "check_boundary w subject opn i k =
     (case bm_get (ws_operations w) opn of
        None \<Rightarrow> [diagnose subject (MgPlanFirst opn)]
      | Some d \<Rightarrow>
          (case bm_get (dr_inputs d) i of
             None \<Rightarrow> [diagnose subject (MgNoInput opn i)]
           | Some v \<Rightarrow> complain (\<not> boundary_matches k v) subject (MgNotKind i opn k)))"

definition check_pool :: "workspace \<Rightarrow> symbol_key \<Rightarrow> id \<Rightarrow> diagnostic list" where
  "check_pool w subject p = complain (\<not> bm_contains (rm_pools (ws_runtime w)) p) subject (MgPool p)"

definition check_router :: "workspace \<Rightarrow> id \<Rightarrow> router \<Rightarrow> diagnostic list" where
  "check_router w i v =
     check_boundary w (KRouter i) (ir_operation (rt_boundary v)) (ir_input (rt_boundary v)) BkRequest
     @ check_pool w (KRouter i) (rt_pool v)"

abbreviation subscription_transport :: "subscription_runtime \<Rightarrow> bool" where
  "subscription_transport v \<equiv> declares_transport (sbr_grouping v) (sbr_ordering v)"

abbreviation topic_transport :: "topic_runtime \<Rightarrow> bool" where
  "topic_transport v \<equiv> declares_transport (tpr_grouping v) (tpr_ordering v)"

text \<open>The topic an operation's input subscribes to.\<close>

definition subscribed_topic :: "workspace \<Rightarrow> id \<Rightarrow> id \<Rightarrow> id option" where
  "subscribed_topic w opn i =
     (case Option.bind (bm_get (ws_operations w) opn) (\<lambda>d. bm_get (dr_inputs d) i) of
        Some (InSubscription s) \<Rightarrow> Some (si_topic s)
      | _ \<Rightarrow> None)"

definition check_subscription_runtime :: "workspace \<Rightarrow> id \<Rightarrow> id \<Rightarrow> subscription_runtime \<Rightarrow> diagnostic list" where
  "check_subscription_runtime w opn i v =
     check_boundary w (KSubscriptionRuntime opn i) opn i BkSubscription
     @ check_pool w (KSubscriptionRuntime opn i) (sd_pool (sbr_dispatch v))
     @ (if \<not> subscription_transport v then []
        else (case subscribed_topic w opn i of
                None \<Rightarrow> []
              | Some t \<Rightarrow>
                  complain (case bm_get (rm_topics (ws_runtime w)) t of
                       None \<Rightarrow> False | Some tr \<Rightarrow> topic_transport tr)
                    (KSubscriptionRuntime opn i) (MgTopicHasTransport t)))"

definition check_topic_runtime :: "workspace \<Rightarrow> id \<Rightarrow> topic_runtime \<Rightarrow> diagnostic list" where
  "check_topic_runtime w t v =
     (if \<not> bm_contains (ws_topics w) t then [diagnose (KTopicRuntime t) (MgTopicUndeclared t)]
      else
        complain (tpr_ordering v = Some OrdWithinGroup \<and> tpr_grouping v = None) (KTopicRuntime t) MgWithinGroup
        @ (if \<not> topic_transport v then []
           else concat (map (\<lambda>(opn, ins). concat (map (\<lambda>(i, r).
                  complain (subscription_transport r \<and> subscribed_topic w opn i = Some t)
                    (KTopicRuntime t) (MgSubscriptionHasTransport i opn t)) ins))
                (rm_subscriptions (ws_runtime w)))))"

definition check_storage_layout :: "workspace \<Rightarrow> id \<Rightarrow> storage_layout \<Rightarrow> diagnostic list" where
  "check_storage_layout w i v =
     complain (sl_partition_key v = []) (KStorageLayout i) MgPartitionKey
     @ complain (\<not> (case bm_get (ws_data_models w) (or_data_model (sl_object v)) of
            None \<Rightarrow> False | Some dm \<Rightarrow> bm_contains (dm_objects dm) (or_object (sl_object v))))
         (KStorageLayout i) (MgDataObject (or_data_model (sl_object v)) (or_object (sl_object v)))"

definition check_outbox_runtime :: "workspace \<Rightarrow> id \<Rightarrow> id \<Rightarrow> outbox_runtime \<Rightarrow> diagnostic list" where
  "check_outbox_runtime w opn i v =
     check_boundary w (KOutboxRuntime opn i) opn i BkOutbox
     @ check_pool w (KOutboxRuntime opn i) (od_pool (obr_dispatch v))"

section \<open>Requirements\<close>

text \<open>\<open>input_roots\<close> (\<open>patch.rs\<close>): the inputs among roots, in order.\<close>

definition input_roots :: "value_ref list \<Rightarrow> id list" where
  "input_roots roots =
     List.map_filter (\<lambda>r. case vr_source r of VsInput i \<Rightarrow> Some i | _ \<Rightarrow> None) roots"

definition requirement_roots :: "draft_operation \<Rightarrow> value_ref list" where
  "requirement_roots d =
     concat (map (\<lambda>r. ik_components (ir_key r)) (oq_idempotency (dr_requirements d)))
     @ concat (map (\<lambda>r. ik_components (rr_key r)) (oq_recoverability (dr_requirements d)))
     @ (case dr_program d of
          None \<Rightarrow> []
        | Some p \<Rightarrow> concat (map (\<lambda>(loc, t). tx_requirement_roots t) (transactions p)))"

definition check_requirement_roots :: "workspace \<Rightarrow> id \<Rightarrow> diagnostic list" where
  "check_requirement_roots w opn =
     (case bm_get (ws_operations w) opn of
        None \<Rightarrow> []
      | Some d \<Rightarrow>
          map (\<lambda>i. diagnose (KInput opn i) (MgKeyedInput opn i))
            (filter (\<lambda>i. \<not> bm_contains (dr_inputs d) i) (input_roots (requirement_roots d))))"

section \<open>The gate\<close>

fun check_mutation :: "gate \<Rightarrow> workspace \<Rightarrow> mutation \<Rightarrow> diagnostic list" where
  "check_mutation g w (PutSchema i v) = check_schema w i v"
| "check_mutation g w (PutDataModel i v) = check_data_model w i v"
| "check_mutation g w (PutTopic i v) = check_topic w i v"
| "check_mutation g w (PutStateMachine i v) = check_state_machine w i v"
| "check_mutation g w (PutOperationInterface opn v) = check_interface g w opn v"
| "check_mutation g w (ReplaceOperationProgram opn p) = check_program w opn p"
| "check_mutation g w (ReplaceOperationRequirements opn _) = check_requirement_roots w opn"
| "check_mutation g w (ProposeRequirements opn _) = check_requirement_roots w opn"
| "check_mutation g w (PutRouter i v) = check_router w i v"
| "check_mutation g w (PutSubscriptionRuntime opn i v) = check_subscription_runtime w opn i v"
| "check_mutation g w (PutOutboxRuntime opn i v) = check_outbox_runtime w opn i v"
| "check_mutation g w (PutTopicRuntime t v) = check_topic_runtime w t v"
| "check_mutation g w (PutStorageLayout i v) = check_storage_layout w i v"
| "check_mutation g w _ = []"

definition probe_model :: "workspace \<Rightarrow> id \<Rightarrow> model option" where
  "probe_model w opn =
     Option.bind (bm_get (ws_operations w) opn) (\<lambda>d.
     map_option (\<lambda>p.
       \<lparr>md_dsl = dsl_version, md_revision = ws_revision w, md_services = ws_services w,
        md_schemas = ws_schemas w, md_data_models = ws_data_models w, md_topics = ws_topics w,
        md_state_machines = ws_state_machines w,
        md_operations = [(opn, \<lparr>op_service = dr_service d, op_description = dr_description d,
           op_inputs = dr_inputs d, op_program = p, op_requirements = dr_requirements d\<rparr>)],
        md_runtime = assembled_runtime (ws_runtime w)\<rparr>) (dr_program d))"

fun written_program :: "mutation \<Rightarrow> id option" where
  "written_program (ReplaceOperationProgram opn _) = Some opn"
| "written_program _ = None"

definition check_probe :: "gate \<Rightarrow> workspace \<Rightarrow> id \<Rightarrow> diagnostic list" where
  "check_probe g w opn =
     (case probe_model w opn of
        None \<Rightarrow> []
      | Some m \<Rightarrow> map (\<lambda>t. diagnose (KOperationProgram opn) (MgProgram t)) (gt_local_diagnostics g m opn))"

definition check_patch :: "gate \<Rightarrow> workspace \<Rightarrow> spec_patch \<Rightarrow> diagnostic list" where
  "check_patch g w p =
     concat (map (check_mutation g w) p)
     @ concat (map (check_probe g w) (bs_collect (List.map_filter written_program p)))"

end
