(* ===== verification/Design_Task.thy ===== *)
theory Design_Task
  imports Design_Check
begin

text \<open>
  Tasks and what they observe: lifecycle, capability tokens, read sets, the reasons a read set is
  stale, and the requests and refusals of the commit gate (\<open>design/task.rs\<close>, \<open>design/auth.rs\<close>,
  \<open>design/read_set.rs\<close>, \<open>design/invalidation.rs\<close>, \<open>design/events.rs\<close>, the types of
  \<open>design/commit.rs\<close>).

  Ids are UUIDs, 128-bit words. A hash map that the code iterates only after sorting its keys is a
  \<open>bmap\<close>; the token map, which is only looked up, is a function. A random token or id is an
  argument of the operation that draws it.
\<close>

section \<open>Tasks\<close>

type_synonym uuid = "128 word"

datatype task_id = TaskId (task_uuid: uuid)

instantiation task_id :: linorder
begin

definition less_eq_task_id :: "task_id \<Rightarrow> task_id \<Rightarrow> bool" where
  "less_eq_task_id a b \<longleftrightarrow> task_uuid a \<le> task_uuid b"

definition less_task_id :: "task_id \<Rightarrow> task_id \<Rightarrow> bool" where
  "less_task_id a b \<longleftrightarrow> task_uuid a < task_uuid b"

instance
  by standard (auto simp: less_eq_task_id_def less_task_id_def task_id.expand)

end

datatype task_kind =
    TkDecompose | TkTopologySynthesis | TkOperationSynthesis | TkRequirementDiscovery
  | TkRequirementRepair | TkSharedDependencyRepair | TkDependencyReview

datatype task_state =
    TaskPlanned | TaskRunning | TaskInvalidated | TaskCommitting | TaskCommitted
  | TaskDependencyRequested | TaskUnresolved | TaskFailed | TaskCancelled | TaskCompleted

fun is_active :: "task_state \<Rightarrow> bool" where
  "is_active TaskRunning = True"
| "is_active TaskCommitting = True"
| "is_active _ = False"

datatype completion_gate = SinglePatch | Interactive | Session

record prompt_evidence =
  pe_source :: evidence_ref
  pe_excerpt :: string

record task_budget =
  bg_max_wall_time_secs :: "64 word option"
  bg_max_tokens :: "64 word option"
  bg_max_usd_cents :: "64 word option"

definition budget_default :: task_budget where
  "budget_default = \<lparr>bg_max_wall_time_secs = None, bg_max_tokens = None, bg_max_usd_cents = None\<rparr>"

record task_spec =
  tk_id :: task_id
  tk_kind :: task_kind
  tk_objective :: string
  tk_snapshot_revision :: revision
  tk_write_scope :: write_scope
  tk_prompt_evidence :: "prompt_evidence list"
  tk_budget :: task_budget
  tk_completion_gate :: completion_gate

datatype dependency_resolution = ResolutionApplied | ResolutionDeclined

record dependency_request =
  dq_id :: uuid
  dq_task :: task_id
  dq_target :: symbol_key
  dq_requested_change :: string
  dq_reason :: string
  dq_evidence :: "evidence_ref list"
  dq_resolution :: "dependency_resolution option"

section \<open>Tokens\<close>

text \<open>\<open>TaskToken::generate\<close>: the 32 random bytes in hex.\<close>

definition token_text :: "8 word list \<Rightarrow> string" where
  "token_text bytes = concat (map hex_pair bytes)"

type_synonym token_map = "string \<Rightarrow> task_id option"

definition token_issue :: "string \<Rightarrow> task_id \<Rightarrow> token_map \<Rightarrow> token_map" where
  "token_issue token t m = m(token \<mapsto> t)"

definition token_repoint :: "string \<Rightarrow> task_id \<Rightarrow> token_map \<Rightarrow> token_map" where
  "token_repoint token t m = m(token \<mapsto> t)"

definition token_revoke :: "task_id \<Rightarrow> token_map \<Rightarrow> token_map" where
  "token_revoke t m = (\<lambda>s. if m s = Some t then None else m s)"

section \<open>Read sets\<close>

instantiation semantic_hash :: linorder
begin

definition less_eq_semantic_hash :: "semantic_hash \<Rightarrow> semantic_hash \<Rightarrow> bool" where
  "less_eq_semantic_hash a b \<longleftrightarrow> hash_bytes a \<le> hash_bytes b"

definition less_semantic_hash :: "semantic_hash \<Rightarrow> semantic_hash \<Rightarrow> bool" where
  "less_semantic_hash a b \<longleftrightarrow> hash_bytes a < hash_bytes b"

instance
  by standard (auto simp: less_eq_semantic_hash_def less_semantic_hash_def less_le_not_le semantic_hash.expand)

end

record symbol_observation =
  so_version :: symbol_version
  so_fingerprint :: semantic_hash

record query_observation =
  qo_query :: tracked_query
  qo_fingerprint :: semantic_hash

record summary_observation =
  su_hash :: semantic_hash

record read_set =
  rs_symbols :: "(symbol_key, symbol_observation) bmap"
  rs_queries :: "(semantic_hash, query_observation) bmap"
  rs_summaries :: "(id, summary_observation) bmap"

definition read_set_empty :: read_set where
  "read_set_empty = \<lparr>rs_symbols = [], rs_queries = [], rs_summaries = []\<rparr>"

definition query_key :: "content_hash \<Rightarrow> tracked_query \<Rightarrow> semantic_hash" where
  "query_key h q = h (CtTrackedQuery q)"

definition record_symbol :: "symbol_key \<Rightarrow> symbol_observation \<Rightarrow> read_set \<Rightarrow> read_set" where
  "record_symbol k ob rs = rs\<lparr>rs_symbols := bm_insert k ob (rs_symbols rs)\<rparr>"

definition record_query :: "content_hash \<Rightarrow> query_observation \<Rightarrow> read_set \<Rightarrow> read_set" where
  "record_query h ob rs = rs\<lparr>rs_queries := bm_insert (query_key h (qo_query ob)) ob (rs_queries rs)\<rparr>"

definition record_summary :: "id \<Rightarrow> summary_observation \<Rightarrow> read_set \<Rightarrow> read_set" where
  "record_summary opn ob rs = rs\<lparr>rs_summaries := bm_insert opn ob (rs_summaries rs)\<rparr>"

definition symbols_ordered :: "read_set \<Rightarrow> (symbol_key \<times> symbol_observation) list" where
  "symbols_ordered rs = rs_symbols rs"

definition queries_ordered :: "read_set \<Rightarrow> query_observation list" where
  "queries_ordered rs = bm_values (rs_queries rs)"

text \<open>Rerunning a tracked query on a snapshot.\<close>

definition tracked_fingerprint ::
    "content_hash \<Rightarrow> row_writer \<Rightarrow> snapshot \<Rightarrow> tracked_query \<Rightarrow> semantic_hash" where
  "tracked_fingerprint h render s q =
     (case q of
        TqGraph q \<Rightarrow> qr_fingerprint (run_query h render (sp_workspace s) (sp_graph s) q)
      | TqSearch p \<Rightarrow> search_fingerprint h (run_search (sp_workspace s) (sp_graph s) p))"

section \<open>Staleness\<close>

datatype (plugins only: code) invalidation_cause =
    IcChangedSymbol symbol_key
  | IcRemovedSymbol symbol_key
  | IcChangedQuery graph_query
  | IcChangedSearch search_spec
  | IcEngineRestart

definition stale_symbol ::
    "symbol_key list \<Rightarrow> snapshot \<Rightarrow> symbol_key \<times> symbol_observation \<Rightarrow> invalidation_cause option" where
  "stale_symbol changed head e =
     (if fst e \<notin> set changed then None
      else case snapshot_fingerprint head (fst e) of
        None \<Rightarrow> Some (IcRemovedSymbol (fst e))
      | Some current \<Rightarrow> if current \<noteq> so_fingerprint (snd e) then Some (IcChangedSymbol (fst e)) else None)"

definition stale_query ::
    "content_hash \<Rightarrow> row_writer \<Rightarrow> snapshot \<Rightarrow> query_observation \<Rightarrow> invalidation_cause option" where
  "stale_query h render head ob =
     (if tracked_fingerprint h render head (qo_query ob) = qo_fingerprint ob then None
      else Some (case qo_query ob of TqGraph q \<Rightarrow> IcChangedQuery q | TqSearch p \<Rightarrow> IcChangedSearch p))"

definition stale_causes ::
    "content_hash \<Rightarrow> row_writer \<Rightarrow> read_set \<Rightarrow> symbol_key list \<Rightarrow> snapshot \<Rightarrow> invalidation_cause list" where
  "stale_causes h render rs changed head =
     List.map_filter (stale_symbol changed head) (symbols_ordered rs)
     @ List.map_filter (stale_query h render head) (queries_ordered rs)"

section \<open>Submissions\<close>

record commit_request =
  cr_task :: task_id
  cr_patch_id :: uuid
  cr_base_revision :: revision
  cr_patch :: spec_patch
  cr_client_nonce :: uuid

record commit_receipt =
  ct_revision :: revision
  ct_replayed :: bool

datatype (plugins only: code) commit_rejection =
    CrTaskUnknown
  | CrTaskNotRunning task_state
  | CrTaskInvalidated
  | CrBaseRevisionMismatch revision revision
  | CrReadConflict symbol_key semantic_hash "semantic_hash option"
  | CrWriteConflict symbol_key
  | CrPhantomConflict graph_query
  | CrSearchConflict
  | CrUnobservedDependency symbol_key
  | CrWriteScopeViolation symbol_key
  | CrDraftValidationFailed "diagnostic list"

fun is_stale_context :: "commit_rejection \<Rightarrow> bool" where
  "is_stale_context CrTaskInvalidated = True"
| "is_stale_context (CrBaseRevisionMismatch _ _) = True"
| "is_stale_context (CrReadConflict _ _ _) = True"
| "is_stale_context (CrWriteConflict _) = True"
| "is_stale_context (CrPhantomConflict _) = True"
| "is_stale_context CrSearchConflict = True"
| "is_stale_context _ = False"

fun rejection_causes :: "commit_rejection \<Rightarrow> invalidation_cause list" where
  "rejection_causes (CrReadConflict k observed current) =
     (case current of Some _ \<Rightarrow> [IcChangedSymbol k] | None \<Rightarrow> [IcRemovedSymbol k])"
| "rejection_causes (CrWriteConflict k) = [IcChangedSymbol k]"
| "rejection_causes (CrPhantomConflict q) = [IcChangedQuery q]"
| "rejection_causes _ = []"

text \<open>What the replacement of an invalidated task inherits, and the events the engine emits.\<close>

record invalidation_note =
  in_causes :: "invalidation_cause list"
  in_rejected_patch :: "spec_patch option"

datatype (plugins only: code) engine_event =
    EvHeadPublished revision
  | EvTaskCommitted task_id revision
  | EvTaskInvalidated task_id revision "invalidation_cause list"
  | EvTaskStateChanged task_id task_state
  | EvDependencyRequested dependency_request
  | EvAnalysisReady revision

section \<open>What a stale read set is\<close>

lemma map_filter_Nil_iff: "List.map_filter f xs = [] \<longleftrightarrow> (\<forall>x \<in> set xs. f x = None)"
  by (induction xs) (auto simp: List.map_filter_simps split: option.split)

lemma stale_symbol_None_iff:
  "stale_symbol changed head (k, ob) = None
     \<longleftrightarrow> (k \<in> set changed \<longrightarrow> snapshot_fingerprint head k = Some (so_fingerprint ob))"
  by (auto simp: stale_symbol_def split: option.split)

lemma stale_query_None_iff:
  "stale_query h render head ob = None \<longleftrightarrow> tracked_fingerprint h render head (qo_query ob) = qo_fingerprint ob"
  by (simp add: stale_query_def)

lemma stale_causes_Nil_iff:
  "stale_causes h render rs changed head = []
     \<longleftrightarrow> (\<forall>(k, ob) \<in> set (rs_symbols rs). k \<in> set changed \<longrightarrow> snapshot_fingerprint head k = Some (so_fingerprint ob))
       \<and> (\<forall>ob \<in> snd ` set (rs_queries rs). tracked_fingerprint h render head (qo_query ob) = qo_fingerprint ob)"
  by (auto simp: stale_causes_def map_filter_Nil_iff symbols_ordered_def queries_ordered_def
      stale_symbol_None_iff stale_query_None_iff)

lemma record_simps [simp]:
  "rs_symbols (record_symbol k ob rs) = bm_insert k ob (rs_symbols rs)"
  "rs_queries (record_symbol k ob rs) = rs_queries rs"
  "rs_symbols (record_query h qb rs) = rs_symbols rs"
  "rs_queries (record_query h qb rs) = bm_insert (query_key h (qo_query qb)) qb (rs_queries rs)"
  "rs_symbols (record_summary opn sb rs) = rs_symbols rs"
  "rs_queries (record_summary opn sb rs) = rs_queries rs"
  "rs_symbols read_set_empty = []" "rs_queries read_set_empty = []"
  by (simp_all add: record_symbol_def record_query_def record_summary_def read_set_empty_def)

lemma token_simps [simp]:
  "token_issue s t m s' = (if s' = s then Some t else m s')"
  "token_repoint s t m s' = (if s' = s then Some t else m s')"
  "token_revoke t m s' = Some u \<longleftrightarrow> m s' = Some u \<and> u \<noteq> t"
  by (auto simp: token_issue_def token_repoint_def token_revoke_def)

end
