(* ===== verification/Design_Render.thy ===== *)
theory Design_Render
  imports Design_Task
begin

text \<open>
  What the engine delivers to a task: the rendering of a symbol (\<open>render_symbol\<close>), the runtime
  symbols an operation rests on (\<open>runtime_inputs_of\<close>), the shared slice of an operation
  (\<open>slice_shared_symbols\<close>) and the surface of the topology author (\<open>topology_symbols\<close>), all of
  \<open>design/engine.rs\<close>.

  The code renders to JSON; the model keeps the value that is serialized.
\<close>

section \<open>Rendering a symbol\<close>

text \<open>
  The fields the engine reads of an operation's proof summary (\<open>design/summary.rs\<close>); what the
  analysis derived it from is not its concern.
\<close>

record operation_summary =
  sy_operation :: id
  sy_summary_hash :: semantic_hash

datatype (plugins only: code) rendering =
    RnContent content
  | RnEffect effect
  | RnOutboxWrite write_outbox_effect
  | RnOutboxRuntime outbox_runtime
  | RnBinding id id
  | RnSummary operation_summary

text \<open>\<open>pick\<close>: the entry of a list with a fingerprint, counted among its equals.\<close>

fun pick :: "content_hash \<Rightarrow> semantic_hash \<Rightarrow> nat \<Rightarrow> nat \<Rightarrow> content list \<Rightarrow> content option" where
  "pick h fp occ seen [] = None"
| "pick h fp occ seen (c # cs) =
     (if h c = fp then if seen = occ then Some c else pick h fp occ (seen + 1) cs
      else pick h fp occ seen cs)"

definition program_requirements ::
    "(tx_requirements \<Rightarrow> content list) \<Rightarrow> operation_block option \<Rightarrow> content list" where
  "program_requirements f p =
     (case p of None \<Rightarrow> []
      | Some p \<Rightarrow> concat (map (\<lambda>(loc, t). f (tx_requirements t)) (transactions p)))"

fun requirement_contents :: "draft_operation \<Rightarrow> requirement_family \<Rightarrow> content list" where
  "requirement_contents d RfTransactionSerializability =
     program_requirements (\<lambda>r. map CtSerializability (tr_serializability r)) (dr_program d)"
| "requirement_contents d RfTransactionOrdering =
     program_requirements (\<lambda>r. map CtOrdering (tr_ordering r)) (dr_program d)"
| "requirement_contents d RfIdempotency = map CtIdempotency (oq_idempotency (dr_requirements d))"
| "requirement_contents d RfResultReplay = map CtIdempotency (oq_idempotency (dr_requirements d))"
| "requirement_contents d RfRecoverability = map CtRecoverability (oq_recoverability (dr_requirements d))"

definition requirement_content ::
    "content_hash \<Rightarrow> draft_operation \<Rightarrow> requirement_family \<Rightarrow> semantic_hash \<Rightarrow> nat \<Rightarrow> content option" where
  "requirement_content h d f fp occ = pick h fp occ 0 (requirement_contents d f)"

definition render_site :: "operation_block \<Rightarrow> id \<Rightarrow> rendering option" where
  "render_site p e =
     (case map_of (effect_declarations p) e of
        Some f \<Rightarrow> Some (RnEffect f)
      | None \<Rightarrow> map_option RnOutboxWrite
          (find (\<lambda>w. wo_effect_id w = e) (map snd (outbox_write_declarations p))))"

fun render_symbol :: "content_hash \<Rightarrow> workspace \<Rightarrow> symbol_key \<Rightarrow> rendering option" where
  "render_symbol h w (KService i) = map_option (RnContent \<circ> CtService) (bm_get (ws_services w) i)"
| "render_symbol h w (KSchema i) = map_option (RnContent \<circ> CtSchema) (bm_get (ws_schemas w) i)"
| "render_symbol h w (KDataModel i) = map_option (RnContent \<circ> CtDataModel) (bm_get (ws_data_models w) i)"
| "render_symbol h w (KDataObject m i) =
     Option.bind (bm_get (ws_data_models w) m)
       (\<lambda>dm. map_option (RnContent \<circ> CtDataObject) (bm_get (dm_objects dm) i))"
| "render_symbol h w (KOutbox m i) =
     Option.bind (bm_get (ws_data_models w) m)
       (\<lambda>dm. map_option (RnContent \<circ> CtOutbox) (bm_get (dm_outboxes dm) i))"
| "render_symbol h w (KTopic i) = map_option (RnContent \<circ> CtTopic) (bm_get (ws_topics w) i)"
| "render_symbol h w (KStateMachine i) =
     map_option (RnContent \<circ> CtStateMachine) (bm_get (ws_state_machines w) i)"
| "render_symbol h w (KTransition m i) =
     Option.bind (bm_get (ws_state_machines w) m)
       (\<lambda>sm. map_option (RnContent \<circ> CtTransition) (bm_get (sm_transitions sm) i))"
| "render_symbol h w (KOperation i) = map_option (RnContent \<circ> CtDraft) (bm_get (ws_operations w) i)"
| "render_symbol h w (KOperationInterface i) =
     map_option (RnContent \<circ> CtInterface \<circ> draft_interface) (bm_get (ws_operations w) i)"
| "render_symbol h w (KOperationProgram i) =
     map_option (RnContent \<circ> CtProgram \<circ> dr_program) (bm_get (ws_operations w) i)"
| "render_symbol h w (KOperationRequirements i) =
     map_option (RnContent \<circ> CtRequirements \<circ> dr_requirements) (bm_get (ws_operations w) i)"
| "render_symbol h w (KTopicRuntime i) =
     map_option (RnContent \<circ> CtTopicRuntime) (bm_get (rm_topics (ws_runtime w)) i)"
| "render_symbol h w (KSubscriptionRuntime opn i) =
     Option.bind (bm_get (rm_subscriptions (ws_runtime w)) opn)
       (\<lambda>ins. map_option (RnContent \<circ> CtSubscriptionRuntime) (bm_get ins i))"
| "render_symbol h w (KOutboxRuntime opn i) =
     Option.bind (bm_get (rm_outboxes (ws_runtime w)) opn)
       (\<lambda>ins. map_option RnOutboxRuntime (bm_get ins i))"
| "render_symbol h w (KExecutionPool i) =
     map_option (RnContent \<circ> CtExecutionPool) (bm_get (rm_pools (ws_runtime w)) i)"
| "render_symbol h w (KRouter i) = map_option (RnContent \<circ> CtRouter) (bm_get (rm_routers (ws_runtime w)) i)"
| "render_symbol h w (KStorageLayout i) =
     map_option (RnContent \<circ> CtStorageLayout) (bm_get (rm_layouts (ws_runtime w)) i)"
| "render_symbol h w (KInput opn i) =
     Option.bind (bm_get (ws_operations w) opn)
       (\<lambda>d. map_option (RnContent \<circ> CtInput) (bm_get (dr_inputs d) i))"
| "render_symbol h w (KTransaction opn t) =
     Option.bind (bm_get (ws_operations w) opn)
       (\<lambda>d. Option.bind (dr_program d) (\<lambda>p. map_option (RnContent \<circ> CtTransaction) (find_transaction p t)))"
| "render_symbol h w (KEffectSite opn e) =
     Option.bind (bm_get (ws_operations w) opn) (\<lambda>d. Option.bind (dr_program d) (\<lambda>p. render_site p e))"
| "render_symbol h w (KBinding opn b) = Some (RnBinding opn b)"
| "render_symbol h w (KRequirement opn f fp occ) =
     Option.bind (bm_get (ws_operations w) opn)
       (\<lambda>d. map_option RnContent (requirement_content h d f fp occ))"
| "render_symbol h w (KOperationSummary _) = None"
| "render_symbol h w (KPromptObligation i) =
     map_option (RnContent \<circ> CtObligation) (bm_get (ws_obligations w) i)"

section \<open>What an operation rests on\<close>

definition input_runtime_keys :: "workspace \<Rightarrow> id \<Rightarrow> id \<times> op_input \<Rightarrow> symbol_key list" where
  "input_runtime_keys w opn e =
     (case e of
        (i, InSubscription s) \<Rightarrow>
          KSubscriptionRuntime opn i # KTopicRuntime (si_topic s)
          # (case Option.bind (bm_get (rm_subscriptions (ws_runtime w)) opn) (\<lambda>ins. bm_get ins i) of
               Some r \<Rightarrow> [KExecutionPool (sd_pool (sbr_dispatch r))] | None \<Rightarrow> [])
      | (i, InOutbox _) \<Rightarrow>
          KOutboxRuntime opn i
          # (case Option.bind (bm_get (rm_outboxes (ws_runtime w)) opn) (\<lambda>ins. bm_get ins i) of
               Some r \<Rightarrow> [KExecutionPool (od_pool (obr_dispatch r))] | None \<Rightarrow> [])
      | (i, InRequest _) \<Rightarrow>
          concat (map (\<lambda>(ri, r).
              if ir_operation (rt_boundary r) = opn \<and> ir_input (rt_boundary r) = i
              then [KRouter ri, KExecutionPool (rt_pool r)] else [])
            (rm_routers (ws_runtime w))))"

definition runtime_inputs_of :: "workspace \<Rightarrow> id \<Rightarrow> symbol_key list" where
  "runtime_inputs_of w opn =
     (case bm_get (ws_operations w) opn of
        None \<Rightarrow> []
      | Some d \<Rightarrow> concat (map (input_runtime_keys w opn) (dr_inputs d)))"

fun shared_target :: "symbol_key \<Rightarrow> symbol_key list" where
  "shared_target (KSchema i) = [KSchema i]"
| "shared_target (KTopic i) = [KTopic i]"
| "shared_target (KStateMachine i) = [KStateMachine i]"
| "shared_target (KTransition m i) = [KTransition m i]"
| "shared_target (KDataObject m i) = [KDataObject m i, KDataModel m]"
| "shared_target (KOutbox m i) = [KOutbox m i, KDataModel m]"
| "shared_target _ = []"

definition slice_shared_symbols :: "snapshot \<Rightarrow> id \<Rightarrow> symbol_key list" where
  "slice_shared_symbols s opn =
     bs_collect
       ((case bm_get (ws_operations (sp_workspace s)) opn of Some d \<Rightarrow> [KService (dr_service d)] | None \<Rightarrow> [])
        @ concat (map (\<lambda>(i, n).
            if sn_owner n = OwnerOperation opn
            then concat (map (\<lambda>(kind, b). shared_target (sn_key (sg_nodes (sp_graph s) ! b)))
              (outgoing_of (sp_graph s) i))
            else [])
          (enumerate 0 (sg_nodes (sp_graph s))))
        @ runtime_inputs_of (sp_workspace s) opn)"

definition topology_symbols :: "workspace \<Rightarrow> symbol_key list" where
  "topology_symbols w =
     bs_collect
       (concat (map (\<lambda>t. [KTopic t, KTopicRuntime t]) (bm_keys (ws_topics w)))
        @ concat (map (\<lambda>(m, dm). map (KOutbox m) (bm_keys (dm_outboxes dm))) (ws_data_models w))
        @ concat (map (\<lambda>opn. KOperationInterface opn # runtime_inputs_of w opn) (bm_keys (ws_operations w)))
        @ map KExecutionPool (bm_keys (rm_pools (ws_runtime w)))
        @ map KRouter (bm_keys (rm_routers (ws_runtime w)))
        @ map KStorageLayout (bm_keys (rm_layouts (ws_runtime w))))"

section \<open>Every symbol of the graph can be read\<close>

lemma pick_None_iff:
  "seen \<le> occ \<Longrightarrow> pick h fp occ seen cs = None \<longleftrightarrow> seen + count_list (map h cs) fp \<le> occ"
  by (induction h fp occ seen cs rule: pick.induct) auto

lemma count_list_family:
  "count_list (map (\<lambda>(f, fp, roots). (f, fp)) es) (f, fp)
     = count_list (map (\<lambda>e. fst (snd e)) (filter (\<lambda>e. fst e = f) es)) fp"
  by (induction es) auto

lemma map_concat_eq: "map g (concat xss) = concat (map (map g) xss)"
  by (induction xss) simp_all

lemma requirement_contents_hashes:
  assumes "f \<noteq> RfResultReplay"
  shows "map h (requirement_contents d f) = map (\<lambda>e. fst (snd e)) (filter (\<lambda>e. fst e = f) (declared_entries h d))"
proof (cases "dr_program d")
  case None
  with assms show ?thesis
    by (cases f) (simp_all add: declared_entries_def program_requirements_def comp_def)
next
  case (Some p)
  with assms show ?thesis
    by (cases f)
       (simp_all add: declared_entries_def program_requirements_def transaction_entries_def comp_def
          map_concat_eq filter_concat case_prod_unfold)
qed

lemma listed_requirement_rendered:
  assumes "requirement_listed h d f fp n"
  shows "requirement_content h d f fp n \<noteq> None"
proof (cases "f = RfResultReplay")
  case True
  have "filter (\<lambda>e. fst e = RfResultReplay) (declared_entries h d) = []"
    by (auto simp: declared_entries_def transaction_entries_def filter_empty_conv split: option.split)
  with assms True show ?thesis by (simp add: requirement_listed_def count_list_family)
next
  case False
  have "n < count_list (map h (requirement_contents d f)) fp"
    using assms unfolding requirement_listed_def count_list_family requirement_contents_hashes [OF False] .
  then show ?thesis by (simp add: requirement_content_def pick_None_iff)
qed

lemma transaction_step_listed:
  "OsTransaction t r \<in> set (program_steps p) \<Longrightarrow> \<exists>loc. (loc, t) \<in> set (transactions p)"
proof -
  assume "OsTransaction t r \<in> set (program_steps p)"
  then obtain loc where "(loc, OsTransaction t r) \<in> set (steps_with_locations p)"
    by (auto simp: program_steps_def)
  then have "(loc, t, r) \<in> set (executions p)"
    unfolding executions_def set_map_filter by force
  then show ?thesis unfolding transactions_def by force
qed

lemma outbox_write_listed:
  assumes "(loc, t) \<in> set (transactions p)" "TsWriteOutbox w \<in> set (tx_steps t)"
  shows "(tx_id t, w) \<in> set (outbox_write_declarations p)"
proof -
  have "(tx_id t, w) \<in> set (List.map_filter (\<lambda>s. case s of
      TsWriteOutbox w \<Rightarrow> Some (tx_id t, w) | _ \<Rightarrow> None) (tx_steps t))"
    unfolding set_map_filter using assms(2) by (intro CollectI bexI [of _ "TsWriteOutbox w"]) simp_all
  with assms(1) show ?thesis
    unfolding outbox_write_declarations_def set_concat set_map by (intro UN_I [OF imageI [OF assms(1)]]) simp
qed

lemma declared_site_rendered:
  assumes "s \<in> set (program_steps p)" "(e, c) \<in> set (step_sites s)"
  shows "render_site p e \<noteq> None"
proof -
  have effect: "render_site p e \<noteq> None" if "(e, f) \<in> set (step_effect_declarations s)" for f
  proof -
    have "(e, f) \<in> set (effect_declarations p)" using that assms(1) by (auto simp: effect_declarations_def)
    then obtain f' where "map_of (effect_declarations p) e = Some f'" using weak_map_of_SomeI by fast
    then show ?thesis by (simp add: render_site_def)
  qed
  show ?thesis
    using assms(2)
  proof (cases s)
    case (OsTransaction t r)
    then obtain u where u: "u \<in> set (tx_steps t)" "(e, c) \<in> set (tx_step_sites (tx_id t) u)"
      using assms(2) by auto
    show ?thesis
    proof (cases u)
      case (TsEstablishEffectIntent i)
      with u have "(e, ei_effect i) \<in> set (step_effect_declarations s)"
        unfolding OsTransaction step_effect_declarations.simps set_map_filter by force
      then show ?thesis by (rule effect)
    next
      case (TsWriteOutbox w)
      obtain loc where "(loc, t) \<in> set (transactions p)"
        using transaction_step_listed assms(1) OsTransaction by blast
      then have "(tx_id t, w) \<in> set (outbox_write_declarations p)"
        using outbox_write_listed u(1) TsWriteOutbox by blast
      then have "w \<in> set (map snd (outbox_write_declarations p))" unfolding set_map by (rule image_eqI [rotated]) simp
      moreover have "wo_effect_id w = e" using u(2) TsWriteOutbox by simp
      ultimately have "find (\<lambda>w. wo_effect_id w = e) (map snd (outbox_write_declarations p)) \<noteq> None"
        unfolding find_None_iff by blast
      then show ?thesis by (simp add: render_site_def split: option.split)
    qed (use u(2) in simp_all)
  qed (use effect in \<open>auto simp del: not_None_eq\<close>)
qed

lemma find_transaction_find: "find_transaction p t = find (\<lambda>u. tx_id u = t) (map snd (transactions p))"
proof -
  have "find_map (\<lambda>(loc, u). if tx_id u = t then Some u else None) xs = find (\<lambda>u. tx_id u = t) (map snd xs)"
    for xs :: "(step_location \<times> transaction) list"
    by (induction xs) auto
  then show ?thesis by (simp add: find_transaction_def)
qed

lemma workspace_fingerprint_rendered:
  assumes "symbol_fingerprint h w k \<noteq> None"
  shows "render_symbol h w k \<noteq> None"
proof (cases k)
  case (KTransaction opn t)
  with assms KTransaction show ?thesis
    by (auto simp: symbol_fingerprint_def symbol_content_def collect_operation_def find_transaction_find split: bind_splits option.splits)
next
  case (KEffectSite opn e)
  have "\<exists>y. render_site p e = Some y" if m: "map_of (concat (map step_sites (program_steps p))) e = Some c" for p c
  proof -
    obtain s where "s \<in> set (program_steps p)" "(e, c) \<in> set (step_sites s)"
      using map_of_SomeD [OF m] by auto
    then have "render_site p e \<noteq> None" by (rule declared_site_rendered)
    then show ?thesis by simp
  qed
  with assms KEffectSite show ?thesis
    by (auto simp: symbol_fingerprint_def symbol_content_def collect_operation_def split: bind_splits option.splits)
next
  case (KRequirement opn f fp n)
  with assms show ?thesis
    using listed_requirement_rendered
    by (auto simp: symbol_fingerprint_def split: if_splits bind_splits)
qed (use assms in \<open>auto simp: symbol_fingerprint_def symbol_content_def split: bind_splits option.splits\<close>)

text \<open>
  Every symbol of a snapshot can be read: whatever symbol the graph has, rendering finds its
  content, for each kind of symbol, each place a program declares one, and each repeated
  requirement. No read of an existing symbol fails and no context bundle drops one.
\<close>

theorem symbols_are_readable:
  assumes "workspace_wf w" "snapshot_fingerprint (build_snapshot h w p) k \<noteq> None"
  shows "render_symbol h w k \<noteq> None"
  using assms workspace_fingerprint_rendered
  by (simp add: snapshot_fingerprint_def build_graph_fingerprint node_requests_fingerprint)

theorem symbols_are_readable_witness:
  "render_symbol (\<lambda>c. SemanticHash [])
     ((workspace_empty (run_metadata_new ''run''))\<lparr>ws_services := [(Id ''api'', \<lparr>sv_kind = SkBackend\<rparr>)]\<rparr>) (KService (Id ''api'')) \<noteq> None"
  by (rule symbols_are_readable [where p = None])
     (simp_all add: snapshot_fingerprint_def build_graph_fingerprint node_requests_fingerprint symbol_fingerprint_def
        symbol_content_def workspace_wf_def workspace_empty_def runtime_default_def)

end
