(* ===== verification/Design_Engine.thy ===== *)
theory Design_Engine
  imports Design_Render
begin

text \<open>
  The engine's state and the operations of a task (\<open>design/engine.rs\<close>): creation of tasks and
  sessions, the reads with what they record, the outcomes a supervisor reports, and dependency
  requests. The commit protocol is in \<open>Design_Protocol\<close>.

  What comes from outside an operation is an argument of it: a fresh id, a fresh token, the
  outcome of a store write (\<open>None\<close>: it succeeded) and the state of the background analysis of
  each revision. An operation returns its result with the engine after it; events are appended to
  the engine's list.
\<close>

section \<open>State\<close>

type_synonym outcome = "string option"

datatype engine_error =
    EeUnknownTask
  | EeTaskInactive task_state
  | EeUnknownSymbol symbol_key
  | EeUnknownOperation id
  | EeAnalysisNotReady revision
  | EeUnknownRequirementFamily string "string list"
  | EeStore string
  | EeShutdown

record task_entry =
  te_spec :: task_spec
  te_snapshot :: snapshot
  te_state :: task_state
  te_read_set :: read_set
  te_token :: string
  te_invalidation :: "invalidation_note option"

definition interactive :: "task_entry \<Rightarrow> bool" where
  "interactive en \<longleftrightarrow>
     (case tk_completion_gate (te_spec en) of Interactive \<Rightarrow> True | Session \<Rightarrow> True | SinglePatch \<Rightarrow> False)"

record engine =
  en_head :: snapshot
  en_tasks :: "(task_id, task_entry) bmap"
  en_tokens :: token_map
  en_nonces :: "task_id \<times> uuid \<Rightarrow> revision option"
  en_requests :: "(uuid, dependency_request) bmap"
  en_events :: "engine_event list"

definition emit :: "engine_event \<Rightarrow> engine \<Rightarrow> engine" where
  "emit ev e = e\<lparr>en_events := en_events e @ [ev]\<rparr>"

definition put_entry :: "task_id \<Rightarrow> task_entry \<Rightarrow> engine \<Rightarrow> engine" where
  "put_entry t en e = e\<lparr>en_tasks := bm_insert t en (en_tasks e)\<rparr>"

definition change_entry :: "task_id \<Rightarrow> (task_entry \<Rightarrow> task_entry) \<Rightarrow> engine \<Rightarrow> engine" where
  "change_entry t f e = (case bm_get (en_tasks e) t of Some en \<Rightarrow> put_entry t (f en) e | None \<Rightarrow> e)"

section \<open>Creating tasks\<close>

record create_task_params =
  cp_kind :: task_kind
  cp_objective :: string
  cp_write_scope :: write_scope
  cp_prompt_evidence :: "prompt_evidence list"
  cp_budget :: task_budget

record task_handle =
  th_id :: task_id
  th_token :: string
  th_snapshot_revision :: revision

definition new_entry :: "task_spec \<Rightarrow> snapshot \<Rightarrow> string \<Rightarrow> task_entry" where
  "new_entry spec s token =
     \<lparr>te_spec = spec\<lparr>tk_snapshot_revision := sp_revision s\<rparr>, te_snapshot = s, te_state = TaskRunning,
      te_read_set = read_set_empty, te_token = token, te_invalidation = None\<rparr>"

definition install_task ::
    "outcome \<Rightarrow> task_spec \<Rightarrow> string \<Rightarrow> engine \<Rightarrow> (engine_error + task_handle) \<times> engine" where
  "install_task stored spec token e =
     (case stored of
        Some err \<Rightarrow> (Inl (EeStore err), e)
      | None \<Rightarrow>
          (Inr \<lparr>th_id = tk_id spec, th_token = token, th_snapshot_revision = sp_revision (en_head e)\<rparr>,
           emit (EvTaskStateChanged (tk_id spec) TaskRunning)
             (put_entry (tk_id spec) (new_entry spec (en_head e) token) e)))"

definition create_task_with_gate ::
    "task_id \<Rightarrow> string \<Rightarrow> outcome \<Rightarrow> create_task_params \<Rightarrow> completion_gate \<Rightarrow> engine
       \<Rightarrow> (engine_error + task_handle) \<times> engine" where
  "create_task_with_gate fresh token stored p gt e =
     install_task stored
       \<lparr>tk_id = fresh, tk_kind = cp_kind p, tk_objective = cp_objective p,
        tk_snapshot_revision = sp_revision (en_head e), tk_write_scope = cp_write_scope p,
        tk_prompt_evidence = cp_prompt_evidence p, tk_budget = cp_budget p, tk_completion_gate = gt\<rparr>
       token (e\<lparr>en_tokens := token_issue token fresh (en_tokens e)\<rparr>)"

definition create_task ::
    "task_id \<Rightarrow> string \<Rightarrow> outcome \<Rightarrow> create_task_params \<Rightarrow> engine \<Rightarrow> (engine_error + task_handle) \<times> engine" where
  "create_task fresh token stored p e = create_task_with_gate fresh token stored p SinglePatch e"

definition create_interactive_task ::
    "task_id \<Rightarrow> string \<Rightarrow> outcome \<Rightarrow> create_task_params \<Rightarrow> engine \<Rightarrow> (engine_error + task_handle) \<times> engine" where
  "create_interactive_task fresh token stored p e = create_task_with_gate fresh token stored p Interactive e"

definition create_session ::
    "task_id \<Rightarrow> string \<Rightarrow> outcome \<Rightarrow> write_scope \<Rightarrow> string \<Rightarrow> engine \<Rightarrow> (engine_error + task_handle) \<times> engine" where
  "create_session fresh token stored scope objective e =
     install_task stored
       \<lparr>tk_id = fresh, tk_kind = TkDecompose, tk_objective = objective,
        tk_snapshot_revision = sp_revision (en_head e), tk_write_scope = scope,
        tk_prompt_evidence = [], tk_budget = budget_default, tk_completion_gate = Session\<rparr>
       token (e\<lparr>en_tokens := token_issue token fresh (en_tokens e)\<rparr>)"

text \<open>Rolling an interactive session forward; a failed store write is only logged.\<close>

definition spawn_interactive_successor ::
    "task_id \<Rightarrow> outcome \<Rightarrow> task_spec \<Rightarrow> string \<Rightarrow> engine \<Rightarrow> engine" where
  "spawn_interactive_successor fresh stored predecessor token e =
     (case install_task stored (predecessor\<lparr>tk_id := fresh, tk_snapshot_revision := 0\<rparr>) token e of
        (Inl err, e') \<Rightarrow> e'
      | (Inr handle, e') \<Rightarrow> e'\<lparr>en_tokens := token_repoint token (th_id handle) (en_tokens e')\<rparr>)"

section \<open>Looking a task up\<close>

definition find_entry :: "engine \<Rightarrow> task_id \<Rightarrow> engine_error + task_entry" where
  "find_entry e t = (case bm_get (en_tasks e) t of None \<Rightarrow> Inl EeUnknownTask | Some en \<Rightarrow> Inr en)"

definition active_entry :: "engine \<Rightarrow> task_id \<Rightarrow> engine_error + task_entry" where
  "active_entry e t =
     (case find_entry e t of
        Inl err \<Rightarrow> Inl err
      | Inr en \<Rightarrow> if is_active (te_state en) then Inr en else Inl (EeTaskInactive (te_state en)))"

definition task_snapshot :: "engine \<Rightarrow> task_id \<Rightarrow> engine_error + snapshot" where
  "task_snapshot e t = (case active_entry e t of Inl err \<Rightarrow> Inl err | Inr en \<Rightarrow> Inr (te_snapshot en))"

definition task_status :: "engine \<Rightarrow> task_id \<Rightarrow> engine_error + task_state" where
  "task_status e t = (case find_entry e t of Inl err \<Rightarrow> Inl err | Inr en \<Rightarrow> Inr (te_state en))"

record task_context =
  tc_spec :: task_spec
  tc_state :: task_state

definition task_context :: "engine \<Rightarrow> task_id \<Rightarrow> engine_error + task_context" where
  "task_context e t =
     (case find_entry e t of Inl err \<Rightarrow> Inl err | Inr en \<Rightarrow> Inr \<lparr>tc_spec = te_spec en, tc_state = te_state en\<rparr>)"

definition list_tasks :: "engine \<Rightarrow> task_context list" where
  "list_tasks e = map (\<lambda>(t, en). \<lparr>tc_spec = te_spec en, tc_state = te_state en\<rparr>) (en_tasks e)"

definition is_session :: "engine \<Rightarrow> task_id \<Rightarrow> bool" where
  "is_session e t =
     (case find_entry e t of Inl err \<Rightarrow> False | Inr en \<Rightarrow> tk_completion_gate (te_spec en) = Session)"

definition invalidation_note_of :: "engine \<Rightarrow> task_id \<Rightarrow> invalidation_note option" where
  "invalidation_note_of e t = (case find_entry e t of Inl err \<Rightarrow> None | Inr en \<Rightarrow> te_invalidation en)"

definition resolve_token :: "engine \<Rightarrow> string \<Rightarrow> task_id option" where
  "resolve_token e token = en_tokens e token"

definition head_symbol_version :: "engine \<Rightarrow> symbol_key \<Rightarrow> symbol_version option" where
  "head_symbol_version e k = snapshot_version (en_head e) k"

text \<open>Moving the session of a task to the head. The caller holds the writer lock.\<close>

definition refresh_session :: "task_id \<Rightarrow> outcome \<Rightarrow> task_id \<Rightarrow> engine \<Rightarrow> (engine_error + unit) \<times> engine" where
  "refresh_session fresh stored t e =
     (case find_entry e t of
        Inl err \<Rightarrow> (Inl err, e)
      | Inr en \<Rightarrow>
          if \<not> interactive en \<or> tk_snapshot_revision (te_spec en) = sp_revision (en_head e)
             \<or> te_state en \<noteq> TaskRunning
          then (Inr (), e)
          else (Inr (), spawn_interactive_successor fresh stored (te_spec en) (te_token en)
                 (change_entry t (\<lambda>en. en\<lparr>te_state := TaskInvalidated\<rparr>) e)))"

section \<open>Analysis, as the engine reads it\<close>

datatype obligation_property =
    PropTransactionSerializability | PropTransactionOrdering | PropIdempotency | PropRecoverability
  | PropResultReplay | PropCustom string

datatype obligation_subject =
    SubjOperation id "nat option"
  | SubjTransaction id id "nat option"
  | SubjObject id id
  | SubjStateMachine id "id option"
  | SubjTopic id

datatype proof_status = ObProven | ObDisproven | ObUnknown

record obligation =
  ob_id :: string
  ob_property :: obligation_property
  ob_subject :: obligation_subject
  ob_status :: proof_status

record analysis_diagnostic =
  ad_subject :: "string option"
  ad_message :: string
  ad_runtime :: bool

record analysis_snapshot =
  an_all_proven :: bool
  an_obligations :: "obligation list"
  an_notes :: "string list"
  an_summaries :: "(id, operation_summary) bmap"

datatype analysis_state =
    AnPending
  | AnNotAssemblable "assembly_gap list"
  | AnValidating
  | AnValidationFailed "analysis_diagnostic list"
  | AnVerifying
  | AnReady analysis_snapshot

type_synonym analysis_hub = "revision \<Rightarrow> analysis_state"

section \<open>Reads\<close>

record symbol_view =
  vw_key :: symbol_key
  vw_kind :: symbol_kind
  vw_version :: symbol_version
  vw_content :: rendering

definition observation_of :: "symbol_node \<Rightarrow> symbol_observation" where
  "observation_of n = \<lparr>so_version = sn_version n, so_fingerprint = sn_fingerprint n\<rparr>"

text \<open>Recording a symbol the snapshot has, and a list of them.\<close>

definition observe :: "snapshot \<Rightarrow> symbol_key \<Rightarrow> read_set \<Rightarrow> read_set" where
  "observe s k rs =
     (case graph_node (sp_graph s) k of None \<Rightarrow> rs | Some n \<Rightarrow> record_symbol k (observation_of n) rs)"

definition observe_all :: "snapshot \<Rightarrow> symbol_key list \<Rightarrow> read_set \<Rightarrow> read_set" where
  "observe_all s ks rs = fold (observe s) ks rs"

definition record_reads :: "task_id \<Rightarrow> (read_set \<Rightarrow> read_set) \<Rightarrow> engine \<Rightarrow> engine" where
  "record_reads t f e = change_entry t (\<lambda>en. en\<lparr>te_read_set := f (te_read_set en)\<rparr>) e"

datatype operation_read_mode = ModeInterface | ModeProgram | ModeRequirements | ModeProofSummary | ModeFull

record operation_view =
  ov_operation :: id
  ov_mode :: operation_read_mode
  ov_content :: rendering

fun observed_keys :: "id \<Rightarrow> operation_read_mode \<Rightarrow> symbol_key list" where
  "observed_keys opn ModeInterface = [KOperationInterface opn]"
| "observed_keys opn ModeProgram = [KOperationProgram opn]"
| "observed_keys opn ModeRequirements = [KOperationRequirements opn]"
| "observed_keys opn _ = [KOperationInterface opn, KOperationProgram opn, KOperationRequirements opn]"

text \<open>
  The content of one slice. Only the proof summary depends on the analysis; it is also recorded.
\<close>

definition ready_analysis :: "analysis_hub \<Rightarrow> revision \<Rightarrow> analysis_snapshot option" where
  "ready_analysis hub r = (case hub r of AnReady a \<Rightarrow> Some a | _ \<Rightarrow> None)"

definition slice_content ::
    "analysis_hub \<Rightarrow> revision \<Rightarrow> id \<Rightarrow> draft_operation \<Rightarrow> operation_read_mode \<Rightarrow> engine_error + rendering" where
  "slice_content hub r opn d mode =
     (case mode of
        ModeInterface \<Rightarrow> Inr (RnContent (CtInterface (draft_interface d)))
      | ModeProgram \<Rightarrow> Inr (RnContent (CtProgram (dr_program d)))
      | ModeRequirements \<Rightarrow> Inr (RnContent (CtRequirements (dr_requirements d)))
      | ModeFull \<Rightarrow> Inr (RnContent (CtDraft d))
      | ModeProofSummary \<Rightarrow>
          (case ready_analysis hub r of
             None \<Rightarrow> Inl (EeAnalysisNotReady r)
           | Some a \<Rightarrow>
               (case bm_get (an_summaries a) opn of
                  None \<Rightarrow> Inl (EeUnknownOperation opn)
                | Some sy \<Rightarrow> Inr (RnSummary sy))))"

fun record_slice_summary :: "id \<Rightarrow> rendering \<Rightarrow> read_set \<Rightarrow> read_set" where
  "record_slice_summary opn (RnSummary sy) rs = record_summary opn \<lparr>su_hash = sy_summary_hash sy\<rparr> rs"
| "record_slice_summary opn _ rs = rs"

definition read_operation ::
    "analysis_hub \<Rightarrow> task_id \<Rightarrow> id \<Rightarrow> operation_read_mode \<Rightarrow> engine \<Rightarrow> (engine_error + operation_view) \<times> engine" where
  "read_operation hub t opn mode e =
     (case active_entry e t of
        Inl err \<Rightarrow> (Inl err, e)
      | Inr en \<Rightarrow>
          (case bm_get (ws_operations (sp_workspace (te_snapshot en))) opn of
             None \<Rightarrow> (Inl (EeUnknownOperation opn), e)
           | Some d \<Rightarrow>
               (case slice_content hub (sp_revision (te_snapshot en)) opn d mode of
                  Inl err \<Rightarrow> (Inl err, e)
                | Inr c \<Rightarrow>
                    (Inr \<lparr>ov_operation = opn, ov_mode = mode, ov_content = c\<rparr>,
                     record_reads t (\<lambda>rs. observe_all (te_snapshot en) (observed_keys opn mode)
                       (record_slice_summary opn c rs)) e))))"

definition read_node ::
    "content_hash \<Rightarrow> task_id \<Rightarrow> symbol_key \<Rightarrow> engine \<Rightarrow> (engine_error + symbol_view) \<times> engine" where
  "read_node h t k e =
     (case active_entry e t of
        Inl err \<Rightarrow> (Inl err, e)
      | Inr en \<Rightarrow>
          (case (graph_node (sp_graph (te_snapshot en)) k, render_symbol h (sp_workspace (te_snapshot en)) k) of
             (Some n, Some c) \<Rightarrow>
               (Inr \<lparr>vw_key = k, vw_kind = sn_kind n, vw_version = sn_version n, vw_content = c\<rparr>,
                record_reads t (record_symbol k (observation_of n)) e)
           | _ \<Rightarrow> (Inl (EeUnknownSymbol k), e)))"

definition read_symbol ::
    "content_hash \<Rightarrow> analysis_hub \<Rightarrow> task_id \<Rightarrow> symbol_key \<Rightarrow> engine \<Rightarrow> (engine_error + symbol_view) \<times> engine" where
  "read_symbol h hub t k e =
     (case k of
        KOperationSummary opn \<Rightarrow>
          (case active_entry e t of
             Inl err \<Rightarrow> (Inl err, e)
           | Inr en \<Rightarrow>
               (case read_operation hub t opn ModeProofSummary e of
                  (Inl err, e') \<Rightarrow> (Inl err, e')
                | (Inr view, e') \<Rightarrow>
                    (Inr \<lparr>vw_key = k, vw_kind = SyOperationSummary,
                          vw_version = SymbolVersion (sp_revision (te_snapshot en)), vw_content = ov_content view\<rparr>,
                     e')))
      | _ \<Rightarrow> read_node h t k e)"

definition graph_query ::
    "content_hash \<Rightarrow> row_writer \<Rightarrow> task_id \<Rightarrow> graph_query \<Rightarrow> engine \<Rightarrow> (engine_error + query_result) \<times> engine" where
  "graph_query h render t q e =
     (case active_entry e t of
        Inl err \<Rightarrow> (Inl err, e)
      | Inr en \<Rightarrow>
          (let r = run_query h render (sp_workspace (te_snapshot en)) (sp_graph (te_snapshot en)) q
           in (Inr r, record_reads t (record_query h \<lparr>qo_query = TqGraph q, qo_fingerprint = qr_fingerprint r\<rparr>) e)))"

definition search_symbols ::
    "content_hash \<Rightarrow> task_id \<Rightarrow> search_spec \<Rightarrow> engine \<Rightarrow> (engine_error + symbol_key list) \<times> engine" where
  "search_symbols h t p e =
     (case active_entry e t of
        Inl err \<Rightarrow> (Inl err, e)
      | Inr en \<Rightarrow>
          (let rows = run_search (sp_workspace (te_snapshot en)) (sp_graph (te_snapshot en)) p
           in (Inr rows, record_reads t
                 (record_query h \<lparr>qo_query = TqSearch p, qo_fingerprint = search_fingerprint h rows\<rparr>) e)))"

text \<open>\<open>record_operation_inputs\<close>: what the summary of an operation is derived from.\<close>

definition operation_inputs :: "snapshot \<Rightarrow> id \<Rightarrow> symbol_key list" where
  "operation_inputs s opn =
     [KOperationInterface opn, KOperationProgram opn, KOperationRequirements opn]
     @ runtime_inputs_of (sp_workspace s) opn"

definition record_operation_inputs :: "snapshot \<Rightarrow> id \<Rightarrow> read_set \<Rightarrow> read_set" where
  "record_operation_inputs s opn rs = observe_all s (operation_inputs s opn) rs"

definition record_summary_observation ::
    "task_id \<Rightarrow> id \<Rightarrow> summary_observation \<Rightarrow> engine \<Rightarrow> (engine_error + unit) \<times> engine" where
  "record_summary_observation t opn ob e =
     (case active_entry e t of
        Inl err \<Rightarrow> (Inl err, e)
      | Inr en \<Rightarrow> (Inr (), record_reads t (record_summary opn ob) e))"

section \<open>Reports, bundles and candidates\<close>

definition requirement_families :: "string list" where
  "requirement_families =
     [''transaction_serializability'', ''transaction_ordering'', ''idempotency'', ''result_replay'', ''recoverability'']"

fun property_matches :: "obligation_property \<Rightarrow> string \<Rightarrow> bool" where
  "property_matches PropTransactionSerializability f \<longleftrightarrow> f = ''transaction_serializability''"
| "property_matches PropTransactionOrdering f \<longleftrightarrow> f = ''transaction_ordering''"
| "property_matches PropIdempotency f \<longleftrightarrow> f = ''idempotency''"
| "property_matches PropResultReplay f \<longleftrightarrow> f = ''result_replay''"
| "property_matches PropRecoverability f \<longleftrightarrow> f = ''recoverability''"
| "property_matches (PropCustom name) f \<longleftrightarrow> name = f"

definition family_declared :: "analysis_state \<Rightarrow> string \<Rightarrow> bool" where
  "family_declared st f \<longleftrightarrow>
     f \<in> set requirement_families
     \<or> (case st of AnReady a \<Rightarrow> PropCustom f \<in> ob_property ` set (an_obligations a) | _ \<Rightarrow> False)"

fun concerns :: "id option \<Rightarrow> obligation_subject \<Rightarrow> bool" where
  "concerns None _ = True"
| "concerns (Some opn) (SubjOperation s _) = (opn = s)"
| "concerns (Some opn) (SubjTransaction s _ _) = (opn = s)"
| "concerns (Some opn) _ = False"

datatype requirement_report =
    RpUnfinished revision analysis_state
  | RpNotAssemblable revision "assembly_gap list"
  | RpValidationFailed revision "analysis_diagnostic list"
  | RpReady revision bool nat "obligation list" "string list"

definition selected_obligations :: "analysis_snapshot \<Rightarrow> id option \<Rightarrow> string option \<Rightarrow> obligation list" where
  "selected_obligations a opn f =
     filter (\<lambda>ob. case f of None \<Rightarrow> True | Some f \<Rightarrow> property_matches (ob_property ob) f)
       (filter (\<lambda>ob. concerns opn (ob_subject ob)) (an_obligations a))"

definition ready_report :: "revision \<Rightarrow> analysis_snapshot \<Rightarrow> id option \<Rightarrow> string option \<Rightarrow> bool \<Rightarrow> requirement_report" where
  "ready_report r a opn f include_proven =
     (let obs = selected_obligations a opn f
      in RpReady r (an_all_proven a) (length (filter (\<lambda>ob. ob_status ob = ObProven) obs))
           (filter (\<lambda>ob. include_proven \<or> ob_status ob \<noteq> ObProven) obs) (an_notes a))"

definition record_reported ::
    "snapshot \<Rightarrow> analysis_snapshot \<Rightarrow> id \<Rightarrow> read_set \<Rightarrow> read_set" where
  "record_reported s a opn rs =
     (let rs = record_operation_inputs s opn rs
      in case bm_get (an_summaries a) opn of
           None \<Rightarrow> rs | Some sy \<Rightarrow> record_summary opn \<lparr>su_hash = sy_summary_hash sy\<rparr> rs)"

definition report_state ::
    "task_id \<Rightarrow> snapshot \<Rightarrow> analysis_state \<Rightarrow> id option \<Rightarrow> string option \<Rightarrow> bool \<Rightarrow> engine
       \<Rightarrow> (engine_error + requirement_report) \<times> engine" where
  "report_state t s st opn family include_proven e =
     (case st of
        AnNotAssemblable gaps \<Rightarrow> (Inr (RpNotAssemblable (sp_revision s) gaps), e)
      | AnValidationFailed ds \<Rightarrow> (Inr (RpValidationFailed (sp_revision s) ds), e)
      | AnReady a \<Rightarrow>
          (let report = Inr (ready_report (sp_revision s) a opn family include_proven)
           in case opn of
                None \<Rightarrow> (report, e)
              | Some i \<Rightarrow>
                  if bm_contains (ws_operations (sp_workspace s)) i
                  then (report, record_reads t (record_reported s a i) e)
                  else (Inl (EeUnknownOperation i), e))
      | _ \<Rightarrow> (Inr (RpUnfinished (sp_revision s) st), e))"

definition requirement_report ::
    "analysis_hub \<Rightarrow> task_id \<Rightarrow> id option \<Rightarrow> string option \<Rightarrow> bool \<Rightarrow> engine
       \<Rightarrow> (engine_error + requirement_report) \<times> engine" where
  "requirement_report hub t opn family include_proven e =
     (case active_entry e t of
        Inl err \<Rightarrow> (Inl err, e)
      | Inr en \<Rightarrow>
          (let s = te_snapshot en; r = sp_revision s; st = hub r
           in case family of
                Some f \<Rightarrow>
                  if \<not> family_declared st f then (Inl (EeUnknownRequirementFamily f requirement_families), e)
                  else report_state t s st opn family include_proven e
              | None \<Rightarrow> report_state t s st opn family include_proven e))"

text \<open>A requirement under repair: family, inline transaction, index.\<close>

type_synonym bundle_requirement = "requirement_family \<times> id option \<times> nat"

record bundle_spec =
  bs_operation :: "id option"
  bs_requirements :: "bundle_requirement list"
  bs_include :: "symbol_key list"
  bs_peers :: "(id \<times> bundle_requirement list) list"

record context_bundle =
  cb_task :: task_id
  cb_revision :: revision
  cb_operation :: "draft_operation option"
  cb_peer_operations :: "draft_operation list"
  cb_shared_symbols :: "symbol_view list"
  cb_dependency_summaries :: "operation_summary list"
  cb_prompt_evidence :: "prompt_evidence list"
  cb_analyzer_evidence :: "obligation list"

definition obligation_name :: "id \<Rightarrow> bundle_requirement \<Rightarrow> string" where
  "obligation_name opn r =
     (case r of (family, transaction, index) \<Rightarrow>
        ''oblig.'' @ id_text opn @ ''.''
        @ (case transaction of None \<Rightarrow> [] | Some t \<Rightarrow> id_text t @ ''.'')
        @ show_family family @ ''.'' @ show_nat index)"

text \<open>What one pass over the focus adds; the read set is recorded as it goes.\<close>

record bundle_state =
  ba_shared :: "symbol_key list"
  ba_summaries :: "operation_summary list"
  ba_operation :: "draft_operation option"
  ba_peers :: "draft_operation list"
  ba_evidence :: "obligation list"
  ba_reads :: read_set

definition bundle_callee ::
    "analysis_snapshot option \<Rightarrow> snapshot \<Rightarrow> id \<Rightarrow> bundle_state \<Rightarrow> bundle_state" where
  "bundle_callee ready s target b =
     (if target \<in> sy_operation ` set (ba_summaries b) then b
      else case Option.bind ready (\<lambda>a. bm_get (an_summaries a) target) of
        Some sy \<Rightarrow>
          b\<lparr>ba_reads := record_summary target \<lparr>su_hash = sy_summary_hash sy\<rparr>
               (record_operation_inputs s target (ba_reads b)),
            ba_summaries := ba_summaries b @ [sy]\<rparr>
      | None \<Rightarrow> b\<lparr>ba_shared := KOperationInterface target # ba_shared b\<rparr>)"

definition callees_of :: "snapshot \<Rightarrow> id \<Rightarrow> id list" where
  "callees_of s opn = map ce_target (index_entries call_code (gi_callees (sg_indexes (sp_graph s))) opn)"

definition bundle_focus ::
    "analysis_snapshot option \<Rightarrow> snapshot \<Rightarrow> id \<times> bundle_requirement list \<times> bool \<Rightarrow> bundle_state
       \<Rightarrow> engine_error option \<times> bundle_state" where
  "bundle_focus ready s item b =
     (case item of (opn, requirements, primary) \<Rightarrow>
        case bm_get (ws_operations (sp_workspace s)) opn of
          None \<Rightarrow> (Some (EeUnknownOperation opn), b)
        | Some d \<Rightarrow>
            (let b = (if primary then b\<lparr>ba_operation := Some d\<rparr> else b\<lparr>ba_peers := ba_peers b @ [d]\<rparr>);
                 b = b\<lparr>ba_reads := record_operation_inputs s opn (ba_reads b),
                       ba_shared := slice_shared_symbols s opn @ ba_shared b\<rparr>;
                 b = fold (bundle_callee ready s) (callees_of s opn) b;
                 found = (case ready of None \<Rightarrow> []
                          | Some a \<Rightarrow> List.map_filter
                              (\<lambda>r. find (\<lambda>ob. ob_id ob = obligation_name opn r) (an_obligations a)) requirements)
             in (None, b\<lparr>ba_evidence := ba_evidence b @ found\<rparr>)))"

fun bundle_loop ::
    "analysis_snapshot option \<Rightarrow> snapshot \<Rightarrow> (id \<times> bundle_requirement list \<times> bool) list \<Rightarrow> bundle_state
       \<Rightarrow> engine_error option \<times> bundle_state" where
  "bundle_loop ready s [] b = (None, b)"
| "bundle_loop ready s (item # items) b =
     (case bundle_focus ready s item b of
        (Some err, b') \<Rightarrow> (Some err, b')
      | (None, b') \<Rightarrow> bundle_loop ready s items b')"

definition shared_view :: "content_hash \<Rightarrow> snapshot \<Rightarrow> symbol_key \<Rightarrow> symbol_view option" where
  "shared_view h s k =
     (case (graph_node (sp_graph s) k, render_symbol h (sp_workspace s) k) of
        (Some n, Some c) \<Rightarrow> Some \<lparr>vw_key = k, vw_kind = sn_kind n, vw_version = sn_version n, vw_content = c\<rparr>
      | _ \<Rightarrow> None)"

definition bundle_items :: "bundle_spec \<Rightarrow> (id \<times> bundle_requirement list \<times> bool) list" where
  "bundle_items spec =
     (case bs_operation spec of None \<Rightarrow> [] | Some opn \<Rightarrow> [(opn, bs_requirements spec, True)])
     @ map (\<lambda>(opn, rs). (opn, rs, False)) (bs_peers spec)"

definition context_bundle ::
    "content_hash \<Rightarrow> analysis_hub \<Rightarrow> task_id \<Rightarrow> bundle_spec \<Rightarrow> engine \<Rightarrow> (engine_error + context_bundle) \<times> engine" where
  "context_bundle h hub t spec e =
     (case active_entry e t of
        Inl err \<Rightarrow> (Inl err, e)
      | Inr en \<Rightarrow>
          (let s = te_snapshot en in
           case bundle_loop (ready_analysis hub (sp_revision s)) s (bundle_items spec)
             \<lparr>ba_shared = bs_include spec, ba_summaries = [], ba_operation = None, ba_peers = [],
              ba_evidence = [], ba_reads = te_read_set en\<rparr> of
             (Some err, b) \<Rightarrow> (Inl err, record_reads t (\<lambda>_. ba_reads b) e)
           | (None, b) \<Rightarrow>
               (let views = List.map_filter (shared_view h s) (bs_collect (ba_shared b))
                in (Inr \<lparr>cb_task = t, cb_revision = sp_revision s, cb_operation = ba_operation b,
                         cb_peer_operations = ba_peers b, cb_shared_symbols = views,
                         cb_dependency_summaries = ba_summaries b,
                         cb_prompt_evidence = tk_prompt_evidence (te_spec en),
                         cb_analyzer_evidence = ba_evidence b\<rparr>,
                    record_reads t (\<lambda>_. observe_all s (map vw_key views) (ba_reads b)) e))))"

text \<open>
  A candidate patch is judged by the analysis pipeline, an argument here: it returns the verdict
  with the operations and objects its proofs depend on, which are then recorded.
\<close>

record judged_footprint =
  jf_operations :: "id list"
  jf_objects :: "(id \<times> id) list"

datatype 'v candidate_verdict = CvScopeViolation symbol_key | CvJudged 'v

definition record_rerun ::
    "content_hash \<Rightarrow> row_writer \<Rightarrow> snapshot \<Rightarrow> graph_query \<Rightarrow> read_set \<Rightarrow> read_set" where
  "record_rerun h render s q rs =
     record_query h \<lparr>qo_query = TqGraph q, qo_fingerprint = tracked_fingerprint h render s (TqGraph q)\<rparr> rs"

definition record_judged ::
    "content_hash \<Rightarrow> row_writer \<Rightarrow> snapshot \<Rightarrow> spec_patch \<Rightarrow> judged_footprint \<Rightarrow> read_set \<Rightarrow> read_set" where
  "record_judged h render s p jf rs =
     (let rs = fold (\<lambda>opn. if bm_contains (ws_operations (sp_workspace s)) opn
                          then record_operation_inputs s opn else id) (jf_operations jf) rs;
          rs = fold (\<lambda>(dm, obj). record_rerun h render s (GqWriters dm obj None)
                                   \<circ> record_rerun h render s (GqReaders dm obj None)) (jf_objects jf) rs
      in observe_all s (external_references p) rs)"

definition evaluate_candidate ::
    "content_hash \<Rightarrow> row_writer \<Rightarrow> (workspace \<Rightarrow> spec_patch \<Rightarrow> (id \<times> id) list \<Rightarrow> 'v \<times> judged_footprint)
       \<Rightarrow> task_id \<Rightarrow> spec_patch \<Rightarrow> (id \<times> id) list \<Rightarrow> engine
       \<Rightarrow> (engine_error + 'v candidate_verdict) \<times> engine" where
  "evaluate_candidate h render judge t p roots e =
     (case active_entry e t of
        Inl err \<Rightarrow> (Inl err, e)
      | Inr en \<Rightarrow>
          (case find_map (scope_violation (tk_write_scope (te_spec en))) p of
             Some k \<Rightarrow> (Inr (CvScopeViolation k), e)
           | None \<Rightarrow>
               (case judge (sp_workspace (te_snapshot en)) p roots of
                  (v, jf) \<Rightarrow> (Inr (CvJudged v), record_reads t (record_judged h render (te_snapshot en) p jf) e))))"

section \<open>Dependency requests\<close>

definition record_dependency_request ::
    "outcome \<Rightarrow> dependency_request \<Rightarrow> engine \<Rightarrow> engine_error option \<times> engine" where
  "record_dependency_request saved r e =
     (case saved of
        Some err \<Rightarrow> (Some (EeStore err), e)
      | None \<Rightarrow> (None, e\<lparr>en_requests := bm_insert (dq_id r) r (en_requests e)\<rparr>))"

definition file_dependency_request ::
    "uuid \<Rightarrow> outcome \<Rightarrow> task_id \<Rightarrow> symbol_key \<Rightarrow> string \<Rightarrow> string \<Rightarrow> evidence_ref list \<Rightarrow> engine
       \<Rightarrow> (engine_error + uuid) \<times> engine" where
  "file_dependency_request fresh saved t target change reason evidence e =
     (case active_entry e t of
        Inl err \<Rightarrow> (Inl err, e)
      | Inr en \<Rightarrow>
          (let r = \<lparr>dq_id = fresh, dq_task = tk_id (te_spec en), dq_target = target, dq_requested_change = change,
                    dq_reason = reason, dq_evidence = evidence, dq_resolution = None\<rparr>
           in case record_dependency_request saved r e of
                (Some err, e') \<Rightarrow> (Inl err, e')
              | (None, e') \<Rightarrow> (Inr fresh, emit (EvDependencyRequested r) e')))"

definition open_dependency_requests :: "engine \<Rightarrow> dependency_request list" where
  "open_dependency_requests e = filter (\<lambda>r. dq_resolution r = None) (bm_values (en_requests e))"

definition resolve_dependency_request ::
    "outcome \<Rightarrow> uuid \<Rightarrow> dependency_resolution \<Rightarrow> engine \<Rightarrow> engine_error option \<times> engine" where
  "resolve_dependency_request saved i resolution e =
     (case bm_get (en_requests e) i of
        None \<Rightarrow> (None, e)
      | Some r \<Rightarrow>
          if dq_resolution r \<noteq> None then (None, e)
          else record_dependency_request saved (r\<lparr>dq_resolution := Some resolution\<rparr>) e)"

section \<open>Outcomes\<close>

definition finish_task :: "outcome \<Rightarrow> task_id \<Rightarrow> task_state \<Rightarrow> engine \<Rightarrow> engine_error option \<times> engine" where
  "finish_task stored t st e =
     (case find_entry e t of
        Inl err \<Rightarrow> (Some err, e)
      | Inr en \<Rightarrow>
          if \<not> is_active (te_state en) \<and> te_state en \<noteq> TaskCommitted
          then (Some (EeTaskInactive (te_state en)), e)
          else
            (let e = change_entry t (\<lambda>en. en\<lparr>te_state := st\<rparr>) e;
                 e = e\<lparr>en_tokens := token_revoke t (en_tokens e)\<rparr>
             in case stored of
                  Some err \<Rightarrow> (Some (EeStore err), e)
                | None \<Rightarrow> (None, emit (EvTaskStateChanged t st) e)))"

definition cancel_task :: "outcome \<Rightarrow> task_id \<Rightarrow> engine \<Rightarrow> engine_error option \<times> engine" where
  "cancel_task stored t e = finish_task stored t TaskCancelled e"

definition fail_task :: "outcome \<Rightarrow> task_id \<Rightarrow> engine \<Rightarrow> engine_error option \<times> engine" where
  "fail_task stored t e = finish_task stored t TaskFailed e"

text \<open>The outcomes the debug assertion of \<open>conclude_task\<close> admits.\<close>

definition concluding :: "task_state \<Rightarrow> bool" where
  "concluding st \<longleftrightarrow> st \<in> {TaskDependencyRequested, TaskUnresolved, TaskCompleted}"

definition conclude_task :: "outcome \<Rightarrow> task_id \<Rightarrow> task_state \<Rightarrow> engine \<Rightarrow> engine_error option \<times> engine" where
  "conclude_task stored t st e = finish_task stored t st e"

end
