(* ===== verification/Design_Commit.thy ===== *)
theory Design_Commit
  imports Design_Check
begin

text \<open>
  Applying a patch (\<open>apply_patch\<close>, \<open>apply_mutation\<close>, \<open>apply_proposals\<close>, \<open>skeleton_diagnostics\<close> in
  \<open>design/commit.rs\<close>): each mutation's effect on the workspace, the adoption of requirement
  proposals under the run's policy, and the shapes of requests, receipts and rejections.
\<close>

section \<open>Applying mutations\<close>

type_synonym applied = "workspace \<times> diagnostic list"

definition put_interface :: "interface_draft \<Rightarrow> draft_operation option \<Rightarrow> draft_operation" where
  "put_interface v old =
     (case old of
        Some d \<Rightarrow> recompute_stage (d\<lparr>dr_service := if_service v, dr_description := if_description v,
                                   dr_inputs := if_inputs v, dr_sketch := if_sketch v\<rparr>)
      | None \<Rightarrow> planned v)"

text \<open>\<open>operations.get_mut(id)\<close> followed by a change of the draft, or the diagnostic.\<close>

definition change_draft :: "workspace \<Rightarrow> id \<Rightarrow> (draft_operation \<Rightarrow> draft_operation) \<Rightarrow> applied" where
  "change_draft w opn f =
     (case bm_get (ws_operations w) opn of
        Some d \<Rightarrow> (w\<lparr>ws_operations := bm_insert opn (f d) (ws_operations w)\<rparr>, [])
      | None \<Rightarrow> (w, [diagnose (KOperation opn) (MgPlanFirst opn)]))"

definition insert_nested ::
    "id \<Rightarrow> id \<Rightarrow> 'v \<Rightarrow> (id, (id, 'v) bmap) bmap \<Rightarrow> (id, (id, 'v) bmap) bmap" where
  "insert_nested opn i v m = bm_insert opn (bm_insert i v (get_or [] (bm_get m opn))) m"

definition remove_nested :: "id \<Rightarrow> id \<Rightarrow> (id, (id, 'v) bmap) bmap \<Rightarrow> (id, (id, 'v) bmap) bmap" where
  "remove_nested opn i m =
     filter (\<lambda>(opn, ins). ins \<noteq> [])
       (case bm_get m opn of None \<Rightarrow> m | Some ins \<Rightarrow> bm_insert opn (bm_remove i ins) m)"

definition contains_nested :: "id \<Rightarrow> id \<Rightarrow> (id, (id, 'v) bmap) bmap \<Rightarrow> bool" where
  "contains_nested opn i m = (case bm_get m opn of None \<Rightarrow> False | Some ins \<Rightarrow> bm_contains ins i)"

abbreviation change_runtime :: "(runtime_model \<Rightarrow> runtime_model) \<Rightarrow> workspace \<Rightarrow> workspace" where
  "change_runtime f w \<equiv> w\<lparr>ws_runtime := f (ws_runtime w)\<rparr>"

text \<open>The declaration \<open>DeleteTopLevel\<close> removes, and whether it was there; \<open>None\<close> when no top-level symbol.\<close>

fun delete_symbol :: "workspace \<Rightarrow> symbol_key \<Rightarrow> (workspace \<times> bool) option" where
  "delete_symbol w (KService i) =
     Some (w\<lparr>ws_services := bm_remove i (ws_services w)\<rparr>, bm_contains (ws_services w) i)"
| "delete_symbol w (KSchema i) =
     Some (w\<lparr>ws_schemas := bm_remove i (ws_schemas w)\<rparr>, bm_contains (ws_schemas w) i)"
| "delete_symbol w (KDataModel i) =
     Some (w\<lparr>ws_data_models := bm_remove i (ws_data_models w)\<rparr>, bm_contains (ws_data_models w) i)"
| "delete_symbol w (KTopic i) =
     Some (w\<lparr>ws_topics := bm_remove i (ws_topics w)\<rparr>, bm_contains (ws_topics w) i)"
| "delete_symbol w (KStateMachine i) =
     Some (w\<lparr>ws_state_machines := bm_remove i (ws_state_machines w)\<rparr>, bm_contains (ws_state_machines w) i)"
| "delete_symbol w (KOperation i) =
     Some (w\<lparr>ws_operations := bm_remove i (ws_operations w)\<rparr>, bm_contains (ws_operations w) i)"
| "delete_symbol w (KTopicRuntime i) =
     Some (change_runtime (\<lambda>r. r\<lparr>rm_topics := bm_remove i (rm_topics r)\<rparr>) w,
           bm_contains (rm_topics (ws_runtime w)) i)"
| "delete_symbol w (KSubscriptionRuntime opn i) =
     Some (change_runtime (\<lambda>r. r\<lparr>rm_subscriptions := remove_nested opn i (rm_subscriptions r)\<rparr>) w,
           contains_nested opn i (rm_subscriptions (ws_runtime w)))"
| "delete_symbol w (KOutboxRuntime opn i) =
     Some (change_runtime (\<lambda>r. r\<lparr>rm_outboxes := remove_nested opn i (rm_outboxes r)\<rparr>) w,
           contains_nested opn i (rm_outboxes (ws_runtime w)))"
| "delete_symbol w (KExecutionPool i) =
     Some (change_runtime (\<lambda>r. r\<lparr>rm_pools := bm_remove i (rm_pools r)\<rparr>) w,
           bm_contains (rm_pools (ws_runtime w)) i)"
| "delete_symbol w (KRouter i) =
     Some (change_runtime (\<lambda>r. r\<lparr>rm_routers := bm_remove i (rm_routers r)\<rparr>) w,
           bm_contains (rm_routers (ws_runtime w)) i)"
| "delete_symbol w (KStorageLayout i) =
     Some (change_runtime (\<lambda>r. r\<lparr>rm_layouts := bm_remove i (rm_layouts r)\<rparr>) w,
           bm_contains (rm_layouts (ws_runtime w)) i)"
| "delete_symbol w (KPromptObligation i) =
     Some (w\<lparr>ws_obligations := bm_remove i (ws_obligations w)\<rparr>, bm_contains (ws_obligations w) i)"
| "delete_symbol w _ = None"

definition apply_delete :: "workspace \<Rightarrow> symbol_key \<Rightarrow> applied" where
  "apply_delete w k =
     (case delete_symbol w k of
        None \<Rightarrow> (w, [diagnose k (MgNotTopLevel k)])
      | Some (w', removed) \<Rightarrow> (w', complain (\<not> removed) k (MgMissing k)))"

section \<open>Requirement proposals\<close>

definition requirement_fingerprint :: "content_hash \<Rightarrow> proposed_requirement \<Rightarrow> semantic_hash" where
  "requirement_fingerprint h r =
     (case r of
        PrSerializability _ q \<Rightarrow> h (CtSerializability q)
      | PrOrdering _ q \<Rightarrow> h (CtOrdering q)
      | PrIdempotency q \<Rightarrow> h (CtIdempotency q)
      | PrRecoverability q \<Rightarrow> h (CtRecoverability q))"

definition draft_transaction :: "draft_operation \<Rightarrow> id \<Rightarrow> transaction option" where
  "draft_transaction d t = Option.bind (dr_program d) (\<lambda>p. find_transaction p t)"

fun declared_fingerprints :: "content_hash \<Rightarrow> draft_operation \<Rightarrow> proposed_requirement \<Rightarrow> semantic_hash list" where
  "declared_fingerprints h d (PrSerializability t _) =
     (case draft_transaction d t of
        None \<Rightarrow> [] | Some tx \<Rightarrow> map (\<lambda>q. h (CtSerializability q)) (tr_serializability (tx_requirements tx)))"
| "declared_fingerprints h d (PrOrdering t _) =
     (case draft_transaction d t of
        None \<Rightarrow> [] | Some tx \<Rightarrow> map (\<lambda>q. h (CtOrdering q)) (tr_ordering (tx_requirements tx)))"
| "declared_fingerprints h d (PrIdempotency _) =
     map (\<lambda>q. h (CtIdempotency q)) (oq_idempotency (dr_requirements d))"
| "declared_fingerprints h d (PrRecoverability _) =
     map (\<lambda>q. h (CtRecoverability q)) (oq_recoverability (dr_requirements d))"

definition add_serializability :: "serializability_requirement \<Rightarrow> transaction \<Rightarrow> transaction" where
  "add_serializability q t =
     t\<lparr>tx_requirements := (tx_requirements t)
        \<lparr>tr_serializability := tr_serializability (tx_requirements t) @ [q]\<rparr>\<rparr>"

definition add_ordering :: "ordering_requirement \<Rightarrow> transaction \<Rightarrow> transaction" where
  "add_ordering q t =
     t\<lparr>tx_requirements := (tx_requirements t)\<lparr>tr_ordering := tr_ordering (tx_requirements t) @ [q]\<rparr>\<rparr>"

definition change_transaction ::
    "draft_operation \<Rightarrow> id \<Rightarrow> (transaction \<Rightarrow> transaction) \<Rightarrow> (transaction \<Rightarrow> nat)
       \<Rightarrow> (draft_operation \<times> nat) option" where
  "change_transaction d t f index =
     Option.bind (dr_program d) (\<lambda>p.
     Option.bind (find_transaction p t) (\<lambda>tx.
     map_option (\<lambda>p'. (d\<lparr>dr_program := Some p'\<rparr>, index tx)) (update_block t f p)))"

text \<open>
  \<open>adopt_requirement\<close>: the draft with the requirement at the end of its list and its index
  there. \<open>None\<close> is the panic of a transaction that is not declared.
\<close>

fun adopt_requirement :: "draft_operation \<Rightarrow> proposed_requirement \<Rightarrow> (draft_operation \<times> nat) option" where
  "adopt_requirement d (PrSerializability t q) =
     change_transaction d t (add_serializability q) (\<lambda>tx. length (tr_serializability (tx_requirements tx)))"
| "adopt_requirement d (PrOrdering t q) =
     change_transaction d t (add_ordering q) (\<lambda>tx. length (tr_ordering (tx_requirements tx)))"
| "adopt_requirement d (PrIdempotency q) =
     Some (d\<lparr>dr_requirements := (dr_requirements d)
               \<lparr>oq_idempotency := oq_idempotency (dr_requirements d) @ [q]\<rparr>\<rparr>,
           length (oq_idempotency (dr_requirements d)))"
| "adopt_requirement d (PrRecoverability q) =
     Some (d\<lparr>dr_requirements := (dr_requirements d)
               \<lparr>oq_recoverability := oq_recoverability (dr_requirements d) @ [q]\<rparr>\<rparr>,
           length (oq_recoverability (dr_requirements d)))"

definition add_reference :: "requirement_ref \<Rightarrow> obligation_status \<Rightarrow> obligation_status" where
  "add_reference r s =
     (case s of
        ObUnmapped \<Rightarrow> ObMapped [r]
      | ObMapped rs \<Rightarrow> ObMapped (if r \<in> set rs then rs else rs @ [r])
      | _ \<Rightarrow> s)"

definition map_obligation :: "workspace \<Rightarrow> obligation_id \<Rightarrow> requirement_ref \<Rightarrow> workspace" where
  "map_obligation w i r =
     (case bm_get (ws_obligations w) i of
        None \<Rightarrow> w
      | Some ob \<Rightarrow> w\<lparr>ws_obligations := bm_insert i (ob\<lparr>po_status := add_reference r (po_status ob)\<rparr>)
                        (ws_obligations w)\<rparr>)"

definition adopts :: "run_policy \<Rightarrow> requirement_origin \<Rightarrow> bool" where
  "adopts pol og =
     (case og of
        RoExplicitPrompt _ \<Rightarrow> True
      | RoStronglyImplied _ _ \<Rightarrow> pl_strict_requirements pol
      | RoRecommended _ _ \<Rightarrow> pl_adopt_recommended pol)"

fun status_reference :: "proposal_status \<Rightarrow> requirement_ref option" where
  "status_reference (PsAdopted r) = Some r"
| "status_reference (PsDuplicate r) = Some r"
| "status_reference _ = None"

text \<open>What a submission becomes: the changed draft and the status recorded for it.\<close>

definition judge_submission ::
    "content_hash \<Rightarrow> run_policy \<Rightarrow> id \<Rightarrow> draft_operation \<Rightarrow> requirement_submission
       \<Rightarrow> draft_operation \<times> proposal_status" where
  "judge_submission h pol opn d s =
     (let r = rs_requirement s;
          mk = (\<lambda>i. \<lparr>rf_operation = opn, rf_family = proposed_family r,
                   rf_transaction = proposed_transaction r, rf_index = i\<rparr>)
      in case position_of (\<lambda>fp. fp = requirement_fingerprint h r) (declared_fingerprints h d r) of
           Some i \<Rightarrow> (d, PsDuplicate (mk i))
         | None \<Rightarrow>
             if adopts pol (rs_origin s)
             then (case adopt_requirement d r of
                     Some (d', i) \<Rightarrow> (d', PsAdopted (mk i))
                   | None \<Rightarrow> (d, PsProposed))
             else (d, PsAdvisory))"

fun origin_obligation :: "requirement_origin \<Rightarrow> obligation_id option" where
  "origin_obligation (RoExplicitPrompt i) = Some i"
| "origin_obligation _ = None"

definition discharge :: "workspace \<Rightarrow> requirement_submission \<Rightarrow> proposal_status \<Rightarrow> workspace" where
  "discharge w s st =
     (case (origin_obligation (rs_origin s), status_reference st) of
        (Some i, Some r) \<Rightarrow> map_obligation w i r
      | _ \<Rightarrow> w)"

definition missing_obligation :: "workspace \<Rightarrow> requirement_submission \<Rightarrow> obligation_id option" where
  "missing_obligation w s =
     (case origin_obligation (rs_origin s) of
        None \<Rightarrow> None
      | Some i \<Rightarrow> if bm_contains (ws_obligations w) i then None else Some i)"

definition missing_transaction :: "draft_operation \<Rightarrow> proposed_requirement \<Rightarrow> id option" where
  "missing_transaction d r =
     (case proposed_transaction r of
        None \<Rightarrow> None
      | Some t \<Rightarrow> if draft_transaction d t = None then Some t else None)"

definition apply_submission :: "content_hash \<Rightarrow> id \<Rightarrow> requirement_submission \<Rightarrow> workspace \<Rightarrow> applied" where
  "apply_submission h opn s w =
     (case missing_obligation w s of
        Some i \<Rightarrow> (w, [diagnose (KPromptObligation i) (MgNoObligation i)])
      | None \<Rightarrow>
          (case bm_get (ws_operations w) opn of
             None \<Rightarrow> (w, [])
           | Some d \<Rightarrow>
               (case missing_transaction d (rs_requirement s) of
                  Some t \<Rightarrow> (w, [diagnose (KOperationRequirements opn)
                                 (MgNoTransaction (proposed_family (rs_requirement s)) opn t)])
                | None \<Rightarrow>
                    (let (d', st) = judge_submission h (rm_policy (ws_run_meta w)) opn d s;
                         w' = discharge (w\<lparr>ws_operations := bm_insert opn d' (ws_operations w)\<rparr>) s st
                     in (w'\<lparr>ws_proposals := ws_proposals w'
                            @ [\<lparr>rp_operation = opn, rp_requirement = rs_requirement s,
                                rp_origin = rs_origin s, rp_status = st\<rparr>]\<rparr>, [])))))"

fun apply_submissions ::
    "content_hash \<Rightarrow> id \<Rightarrow> requirement_submission list \<Rightarrow> workspace \<Rightarrow> applied" where
  "apply_submissions h opn [] w = (w, [])"
| "apply_submissions h opn (s # ss) w =
     (let (w1, ds1) = apply_submission h opn s w;
          (w2, ds2) = apply_submissions h opn ss w1
      in (w2, ds1 @ ds2))"

definition recompute_draft :: "id \<Rightarrow> workspace \<Rightarrow> workspace" where
  "recompute_draft opn w =
     (case bm_get (ws_operations w) opn of
        None \<Rightarrow> w
      | Some d \<Rightarrow> w\<lparr>ws_operations := bm_insert opn (recompute_stage d) (ws_operations w)\<rparr>)"

definition apply_proposals :: "content_hash \<Rightarrow> workspace \<Rightarrow> id \<Rightarrow> requirement_submission list \<Rightarrow> applied" where
  "apply_proposals h w opn ss =
     (if \<not> bm_contains (ws_operations w) opn
      then (w, [diagnose (KOperation opn) (MgPlanFirst opn)])
      else (let (w', ds) = apply_submissions h opn ss w in (recompute_draft opn w', ds)))"

section \<open>Patches\<close>

fun apply_mutation :: "content_hash \<Rightarrow> workspace \<Rightarrow> mutation \<Rightarrow> applied" where
  "apply_mutation h w (PutService i v) = (w\<lparr>ws_services := bm_insert i v (ws_services w)\<rparr>, [])"
| "apply_mutation h w (PutSchema i v) = (w\<lparr>ws_schemas := bm_insert i v (ws_schemas w)\<rparr>, [])"
| "apply_mutation h w (PutDataModel i v) = (w\<lparr>ws_data_models := bm_insert i v (ws_data_models w)\<rparr>, [])"
| "apply_mutation h w (PutTopic i v) = (w\<lparr>ws_topics := bm_insert i v (ws_topics w)\<rparr>, [])"
| "apply_mutation h w (PutStateMachine i v) =
     (w\<lparr>ws_state_machines := bm_insert i v (ws_state_machines w)\<rparr>, [])"
| "apply_mutation h w (PutOperationInterface opn v) =
     (w\<lparr>ws_operations := bm_insert opn (put_interface v (bm_get (ws_operations w) opn)) (ws_operations w)\<rparr>, [])"
| "apply_mutation h w (ReplaceOperationProgram opn p) =
     change_draft w opn (\<lambda>d. recompute_stage (d\<lparr>dr_program := Some p\<rparr>))"
| "apply_mutation h w (ReplaceOperationRequirements opn r) =
     change_draft w opn (\<lambda>d. recompute_stage (d\<lparr>dr_requirements := r\<rparr>))"
| "apply_mutation h w (PutTopicRuntime t v) =
     (change_runtime (\<lambda>r. r\<lparr>rm_topics := bm_insert t v (rm_topics r)\<rparr>) w, [])"
| "apply_mutation h w (PutSubscriptionRuntime opn i v) =
     (change_runtime (\<lambda>r. r\<lparr>rm_subscriptions := insert_nested opn i v (rm_subscriptions r)\<rparr>) w, [])"
| "apply_mutation h w (PutOutboxRuntime opn i v) =
     (change_runtime (\<lambda>r. r\<lparr>rm_outboxes := insert_nested opn i v (rm_outboxes r)\<rparr>) w, [])"
| "apply_mutation h w (PutExecutionPool i v) =
     (change_runtime (\<lambda>r. r\<lparr>rm_pools := bm_insert i v (rm_pools r)\<rparr>) w, [])"
| "apply_mutation h w (PutRouter i v) =
     (change_runtime (\<lambda>r. r\<lparr>rm_routers := bm_insert i v (rm_routers r)\<rparr>) w, [])"
| "apply_mutation h w (PutStorageLayout i v) =
     (change_runtime (\<lambda>r. r\<lparr>rm_layouts := bm_insert i v (rm_layouts r)\<rparr>) w, [])"
| "apply_mutation h w (ProposeRequirements opn ss) = apply_proposals h w opn ss"
| "apply_mutation h w (PutPromptObligation i v) =
     (w\<lparr>ws_obligations := bm_insert i v (ws_obligations w)\<rparr>, [])"
| "apply_mutation h w (DeleteTopLevel k) = apply_delete w k"

fun apply_mutations :: "content_hash \<Rightarrow> workspace \<Rightarrow> spec_patch \<Rightarrow> applied" where
  "apply_mutations h w [] = (w, [])"
| "apply_mutations h w (m # ms) =
     (let (w1, ds1) = apply_mutation h w m;
          (w2, ds2) = apply_mutations h w1 ms
      in (w2, ds1 @ ds2))"

definition apply_patch :: "content_hash \<Rightarrow> gate \<Rightarrow> workspace \<Rightarrow> spec_patch \<Rightarrow> applied" where
  "apply_patch h g w p =
     (let (w', ds) = apply_mutations h w p
      in (w', if ds = [] then check_patch g w' p else ds))"

section \<open>The skeleton\<close>

definition skeleton_mutations :: "workspace \<Rightarrow> spec_patch" where
  "skeleton_mutations w =
     map (\<lambda>(i, v). PutSchema i v) (ws_schemas w)
     @ map (\<lambda>(i, v). PutDataModel i v) (ws_data_models w)
     @ map (\<lambda>(i, v). PutTopic i v) (ws_topics w)
     @ map (\<lambda>(i, v). PutStateMachine i v) (ws_state_machines w)
     @ map (\<lambda>(i, d). PutOperationInterface i (draft_interface d)) (ws_operations w)
     @ map (\<lambda>(t, v). PutTopicRuntime t v) (rm_topics (ws_runtime w))
     @ map (\<lambda>(i, v). PutExecutionPool i v) (rm_pools (ws_runtime w))
     @ concat (map (\<lambda>(opn, ins). map (\<lambda>(i, v). PutSubscriptionRuntime opn i v) ins)
         (rm_subscriptions (ws_runtime w)))
     @ concat (map (\<lambda>(opn, ins). map (\<lambda>(i, v). PutOutboxRuntime opn i v) ins)
         (rm_outboxes (ws_runtime w)))
     @ map (\<lambda>(i, v). PutRouter i v) (rm_routers (ws_runtime w))
     @ map (\<lambda>(i, v). PutStorageLayout i v) (rm_layouts (ws_runtime w))"

definition consumed :: "workspace \<Rightarrow> id \<Rightarrow> bool" where
  "consumed w ox \<longleftrightarrow>
     (\<exists>d \<in> set (bm_values (ws_operations w)). \<exists>v \<in> set (bm_values (dr_inputs d)). consumes ox v)"

definition skeleton_diagnostics :: "gate \<Rightarrow> workspace \<Rightarrow> diagnostic list" where
  "skeleton_diagnostics g w =
     check_patch g w (skeleton_mutations w)
     @ concat (map (\<lambda>(opn, d). complain (dr_inputs d = []) (KOperationInterface opn) (MgNoInputs opn))
         (ws_operations w))
     @ concat (map (\<lambda>(i, dm). concat (map (\<lambda>ox. complain (\<not> consumed w ox) (KOutbox i ox) (MgUnconsumed i ox))
         (bm_keys (dm_outboxes dm)))) (ws_data_models w))"

end
