(* ===== verification/Design_Footprint.thy ===== *)
theory Design_Footprint
  imports Design_Commit
begin

text \<open>
  What applying a patch keeps and what it may change.

  Every mutation keeps the maps of the workspace ordered. Adoption never hits the panic of an
  undeclared transaction and puts the requirement where its reference says. And the conflict
  footprint of a mutation (\<open>conflict_footprint\<close>, \<open>design/patch.rs\<close>) bounds the symbols whose
  fingerprint it changes: \<open>governing\<close> lists, for a symbol, the write targets it is part of.
\<close>

section \<open>Order of the maps\<close>

lemma bm_wf_filter: "bm_wf m \<Longrightarrow> bm_wf (filter p m)"
  by (induction m) auto

lemma bm_wf_insert_nested [simp]: "bm_wf m \<Longrightarrow> bm_wf (insert_nested opn i v m)"
  by (simp add: insert_nested_def)

lemma bm_wf_remove_nested [simp]: "bm_wf m \<Longrightarrow> bm_wf (remove_nested opn i m)"
  by (auto simp: remove_nested_def intro: bm_wf_filter split: option.split)

lemma workspace_wf_change_draft: "workspace_wf w \<Longrightarrow> workspace_wf (fst (change_draft w opn f))"
  by (simp add: change_draft_def workspace_wf_def split: option.split)

lemma workspace_wf_discharge: "workspace_wf w \<Longrightarrow> workspace_wf (discharge w s st)"
  by (simp add: discharge_def map_obligation_def workspace_wf_def split: option.split)

lemma workspace_wf_insert_draft:
  "workspace_wf w \<Longrightarrow> workspace_wf (w\<lparr>ws_operations := bm_insert opn d (ws_operations w)\<rparr>)"
  by (simp add: workspace_wf_def)

lemma workspace_wf_proposals [simp]: "workspace_wf (w\<lparr>ws_proposals := ps\<rparr>) = workspace_wf w"
  by (simp add: workspace_wf_def)

lemma workspace_wf_submission: "workspace_wf w \<Longrightarrow> workspace_wf (fst (apply_submission h opn s w))"
  by (simp add: apply_submission_def Let_def case_prod_unfold workspace_wf_discharge
        workspace_wf_insert_draft split: option.split)

lemma workspace_wf_submissions: "workspace_wf w \<Longrightarrow> workspace_wf (fst (apply_submissions h opn ss w))"
  by (induction ss arbitrary: w) (simp_all add: case_prod_unfold Let_def workspace_wf_submission)

lemma workspace_wf_proposals_applied: "workspace_wf w \<Longrightarrow> workspace_wf (fst (apply_proposals h w opn ss))"
  by (simp add: apply_proposals_def case_prod_unfold Let_def recompute_draft_def workspace_wf_submissions
        workspace_wf_insert_draft split: option.split)

lemma workspace_wf_delete: "workspace_wf w \<Longrightarrow> workspace_wf (fst (apply_delete w k))"
  by (cases "(w, k)" rule: delete_symbol.cases) (simp_all add: apply_delete_def workspace_wf_def)

lemma workspace_wf_mutation: "workspace_wf w \<Longrightarrow> workspace_wf (fst (apply_mutation h w m))"
  by (cases m)
     (simp_all add: workspace_wf_change_draft workspace_wf_proposals_applied workspace_wf_delete
        workspace_wf_insert_draft, simp_all add: workspace_wf_def)

lemma workspace_wf_mutations: "workspace_wf w \<Longrightarrow> workspace_wf (fst (apply_mutations h w p))"
  by (induction p arbitrary: w) (simp_all add: case_prod_unfold Let_def workspace_wf_mutation)

lemma fst_apply_patch [simp]: "fst (apply_patch h g w p) = fst (apply_mutations h w p)"
  by (simp add: apply_patch_def case_prod_unfold Let_def)

section \<open>Adoption\<close>

lemma find_transaction_update_first:
  "map_of (map (\<lambda>e. (tx_id (snd e), snd e)) (update_first i f xs)) i
     = map_option f (map_of (map (\<lambda>e. (tx_id (snd e), snd e)) xs) i)"
  if "\<And>t. tx_id (f t) = tx_id t"
  using that by (induction i f xs rule: update_first.induct) auto

lemma find_transaction_map_of:
  "find_transaction p i = map_of (map (\<lambda>e. (tx_id (snd e), snd e)) (transactions p)) i"
proof -
  have "find_map (\<lambda>(loc, t). if tx_id t = i then Some t else None) xs
      = map_of (map (\<lambda>e. (tx_id (snd e), snd e)) xs) i" for xs :: "(step_location \<times> transaction) list"
    by (induction xs) auto
  then show ?thesis by (simp add: find_transaction_def)
qed

lemma transactions_update:
  "update_block i f p = Some p' \<Longrightarrow> transactions p' = update_first i f (transactions p)"
  using update_collect(1) [of i f p p' "[]" None]
  by (simp add: transactions_txs steps_with_locations_def)

lemma change_transaction_Some:
  assumes "draft_transaction d t = Some tx" "\<And>u. tx_id (f u) = tx_id u"
  obtains p p' where "dr_program d = Some p" "update_block t f p = Some p'"
    "change_transaction d t f index = Some (d\<lparr>dr_program := Some p'\<rparr>, index tx)"
    "draft_transaction (d\<lparr>dr_program := Some p'\<rparr>) t = Some (f tx)"
proof -
  obtain p where p: "dr_program d = Some p" "find_transaction p t = Some tx"
    using assms(1) by (auto simp: draft_transaction_def bind_eq_Some_conv)
  then obtain p' where p': "update_block t f p = Some p'"
    using update_block_iff [of t f p] by auto
  have "find_transaction p' t = Some (f tx)"
    using p(2) find_transaction_update_first [OF assms(2), of t "transactions p"]
    by (simp add: find_transaction_map_of transactions_update [OF p'])
  then show ?thesis
    using p p' by (intro that [of p p']) (simp_all add: change_transaction_def draft_transaction_def)
qed

lemma add_requirement_id [simp]:
  "tx_id (add_serializability q t) = tx_id t" "tx_id (add_ordering r t) = tx_id t"
  by (simp_all add: add_serializability_def add_ordering_def)

text \<open>The list a requirement of the family is declared in.\<close>

lemma adopt_requirement_declares:
  assumes "missing_transaction d r = None"
  shows "\<exists>d' i. adopt_requirement d r = Some (d', i)
     \<and> i = length (declared_fingerprints h d r)
     \<and> declared_fingerprints h d' r = declared_fingerprints h d r @ [requirement_fingerprint h r]"
proof (cases r)
  case (PrSerializability t q)
  then obtain tx where tx: "draft_transaction d t = Some tx"
    using assms by (auto simp: missing_transaction_def split: if_splits)
  obtain p p' where "change_transaction d t (add_serializability q)
      (\<lambda>tx. length (tr_serializability (tx_requirements tx))) =
        Some (d\<lparr>dr_program := Some p'\<rparr>, length (tr_serializability (tx_requirements tx)))"
    "draft_transaction (d\<lparr>dr_program := Some p'\<rparr>) t = Some (add_serializability q tx)"
    by (rule change_transaction_Some [OF tx, where f = "add_serializability q"
        and index = "\<lambda>tx. length (tr_serializability (tx_requirements tx))"])
       (rule add_requirement_id, blast)
  with PrSerializability tx show ?thesis
    by (simp add: add_serializability_def requirement_fingerprint_def)
next
  case (PrOrdering t q)
  then obtain tx where tx: "draft_transaction d t = Some tx"
    using assms by (auto simp: missing_transaction_def split: if_splits)
  obtain p p' where "change_transaction d t (add_ordering q)
      (\<lambda>tx. length (tr_ordering (tx_requirements tx))) =
        Some (d\<lparr>dr_program := Some p'\<rparr>, length (tr_ordering (tx_requirements tx)))"
    "draft_transaction (d\<lparr>dr_program := Some p'\<rparr>) t = Some (add_ordering q tx)"
    by (rule change_transaction_Some [OF tx, where f = "add_ordering q"
        and index = "\<lambda>tx. length (tr_ordering (tx_requirements tx))"])
       (rule add_requirement_id, blast)
  with PrOrdering tx show ?thesis
    by (simp add: add_ordering_def requirement_fingerprint_def)
next
  case (PrIdempotency q)
  then show ?thesis by (simp add: requirement_fingerprint_def)
next
  case (PrRecoverability q)
  then show ?thesis by (simp add: requirement_fingerprint_def)
qed

section \<open>Parts of a draft\<close>

datatype draft_part = PartInterface | PartProgram | PartRequirements

text \<open>The part of the draft an operation's symbol is read from; the operation itself has no single one.\<close>

fun governed_part :: "symbol_key \<Rightarrow> draft_part option" where
  "governed_part (KOperationInterface _) = Some PartInterface"
| "governed_part (KInput _ _) = Some PartInterface"
| "governed_part (KOperationProgram _) = Some PartProgram"
| "governed_part (KTransaction _ _) = Some PartProgram"
| "governed_part (KEffectSite _ _) = Some PartProgram"
| "governed_part (KBinding _ _) = Some PartProgram"
| "governed_part (KOperationRequirements _) = Some PartRequirements"
| "governed_part (KRequirement _ f _ _) = Some (if family_is_transactional f then PartProgram else PartRequirements)"
| "governed_part _ = None"

fun same_part :: "draft_part \<Rightarrow> draft_operation \<Rightarrow> draft_operation \<Rightarrow> bool" where
  "same_part PartInterface d d' \<longleftrightarrow> draft_interface d = draft_interface d'"
| "same_part PartProgram d d' \<longleftrightarrow> dr_program d = dr_program d'"
| "same_part PartRequirements d d' \<longleftrightarrow> dr_requirements d = dr_requirements d'"

definition entry_count ::
    "content_hash \<Rightarrow> draft_operation \<Rightarrow> requirement_family \<Rightarrow> semantic_hash \<Rightarrow> nat" where
  "entry_count h d f fp = count_list (map (\<lambda>(f, fp, roots). (f, fp)) (declared_entries h d)) (f, fp)"

lemma count_list_map_other:
  "(\<And>x. x \<in> set xs \<Longrightarrow> f x \<noteq> y) \<Longrightarrow> count_list (map f xs) y = 0"
  by (induction xs) auto

lemma entry_count_program:
  assumes "family_is_transactional f" "dr_program d = dr_program d'"
  shows "entry_count h d f fp = entry_count h d' f fp"
  using assms
  by (cases f) (simp_all add: entry_count_def declared_entries_def count_list_map_other comp_def)

lemma transaction_entries_families:
  "(f, fp, roots) \<in> set (transaction_entries h t) \<Longrightarrow> family_is_transactional f"
  by (auto simp: transaction_entries_def)

lemma entry_count_requirements:
  assumes "\<not> family_is_transactional f" "dr_requirements d = dr_requirements d'"
  shows "entry_count h d f fp = entry_count h d' f fp"
proof -
  have "count_list (map (\<lambda>(f, fp, roots). (f, fp))
      (case p of None \<Rightarrow> [] | Some q \<Rightarrow> concat (map (\<lambda>(loc, t). transaction_entries h t) (transactions q)))) (f, fp) = 0" for p
    using assms(1) transaction_entries_families
    by (intro count_list_map_other) (fastforce split: option.splits)
  then show ?thesis using assms(2) by (simp add: entry_count_def declared_entries_def)
qed

lemma operation_fingerprint_part:
  assumes "governed_part k = Some pt" "same_part pt d d'"
  shows "operation_fingerprint h d k = operation_fingerprint h d' k"
proof (cases k)
  case (KRequirement opn f fp n)
  then have "entry_count h d f fp = entry_count h d' f fp"
    using assms entry_count_program [of f d d'] entry_count_requirements [of f d d']
    by (auto split: if_splits)
  with KRequirement show ?thesis
    by (simp add: operation_fingerprint_def requirement_listed_def entry_count_def)
next
  case (KInput opn i)
  with assms show ?thesis by (auto simp: operation_fingerprint_def draft_interface_def)
qed (use assms in \<open>auto simp: operation_fingerprint_def collect_operation_def\<close>)

lemma symbol_fingerprint_operation:
  assumes "symbol_operation k = Some opn"
  shows "symbol_fingerprint h w k = Option.bind (bm_get (ws_operations w) opn) (\<lambda>d. operation_fingerprint h d k)"
  using assms
  by (cases k; cases "bm_get (ws_operations w) opn")
     (simp_all add: symbol_fingerprint_def symbol_content_def operation_fingerprint_def)

lemma symbol_fingerprint_shared:
  assumes "symbol_operation k = None"
  shows "symbol_fingerprint h w k = map_option h
    (case shared_content w k of Some c \<Rightarrow> Some c | None \<Rightarrow> runtime_content (ws_runtime w) k)"
  using assms by (cases k) (simp_all add: symbol_fingerprint_def symbol_content_def split: option.split)

text \<open>A symbol of an undeclared operation has no fingerprint; of a planned one, only the fixed parts have.\<close>

lemma planned_fingerprint:
  "governed_part k \<noteq> Some PartInterface \<Longrightarrow> operation_fingerprint h (planned v) k \<noteq> None \<Longrightarrow>
     \<exists>opn. k = KOperation opn \<or> k = KOperationProgram opn \<or> k = KOperationRequirements opn"
  by (cases k)
     (auto simp: operation_fingerprint_def planned_def collect_operation_def requirement_listed_def
        declared_entries_def default_requirements_def)

section \<open>Changes to one draft\<close>

text \<open>Two workspaces that differ at most in some parts of one draft, and in some obligations.\<close>

definition same_outside ::
    "id \<Rightarrow> draft_part set \<Rightarrow> obligation_id set \<Rightarrow> workspace \<Rightarrow> workspace \<Rightarrow> bool" where
  "same_outside opn pts obs w w' \<longleftrightarrow>
     ws_services w' = ws_services w \<and> ws_schemas w' = ws_schemas w \<and> ws_data_models w' = ws_data_models w
     \<and> ws_topics w' = ws_topics w \<and> ws_state_machines w' = ws_state_machines w \<and> ws_runtime w' = ws_runtime w
     \<and> (\<forall>i. i \<notin> obs \<longrightarrow> bm_get (ws_obligations w') i = bm_get (ws_obligations w) i)
     \<and> (\<forall>other. other \<noteq> opn \<longrightarrow> bm_get (ws_operations w') other = bm_get (ws_operations w) other)
     \<and> (case bm_get (ws_operations w) opn of
          None \<Rightarrow> bm_get (ws_operations w') opn = None
        | Some d \<Rightarrow> \<exists>d'. bm_get (ws_operations w') opn = Some d' \<and> (\<forall>pt. pt \<notin> pts \<longrightarrow> same_part pt d d'))"

lemma same_part_refl [simp]: "same_part pt d d"
  by (cases pt) simp_all

lemma same_part_trans: "same_part pt d d' \<Longrightarrow> same_part pt d' d'' \<Longrightarrow> same_part pt d d''"
  by (cases pt) simp_all

lemma same_outside_refl [simp]: "same_outside opn pts obs w w"
  by (simp add: same_outside_def split: option.split)

lemma same_outside_trans:
  assumes "same_outside opn pts obs w w'" "same_outside opn pts obs w' w''"
  shows "same_outside opn pts obs w w''"
proof (cases "bm_get (ws_operations w) opn")
  case None
  with assms show ?thesis by (simp add: same_outside_def)
next
  case (Some d)
  then obtain d' where d': "bm_get (ws_operations w') opn = Some d'" "\<And>pt. pt \<notin> pts \<Longrightarrow> same_part pt d d'"
    using assms(1) by (auto simp: same_outside_def)
  obtain d'' where "bm_get (ws_operations w'') opn = Some d''" "\<And>pt. pt \<notin> pts \<Longrightarrow> same_part pt d' d''"
    using assms(2) d'(1) by (auto simp: same_outside_def)
  with Some d' same_part_trans [of _ d d' d''] assms show ?thesis
    by (simp add: same_outside_def)
qed

lemma same_outside_draft:
  assumes "bm_get (ws_operations w) opn = Some d" "\<And>pt. pt \<notin> pts \<Longrightarrow> same_part pt d d'"
  shows "same_outside opn pts obs w (w\<lparr>ws_operations := bm_insert opn d' (ws_operations w)\<rparr>)"
  using assms by (simp add: same_outside_def)

lemma same_outside_obligation:
  "i \<in> obs \<Longrightarrow> same_outside opn pts obs w (map_obligation w i r)"
  by (auto simp: map_obligation_def same_outside_def split: option.split)

lemma same_outside_proposals [simp]:
  "same_outside opn pts obs w (w'\<lparr>ws_proposals := ps\<rparr>) = same_outside opn pts obs w w'"
  by (simp add: same_outside_def split: option.split)

lemma same_outside_fingerprint:
  assumes "same_outside opn pts obs w w'" "symbol_fingerprint h w' k \<noteq> symbol_fingerprint h w k"
  shows "(\<exists>i \<in> obs. k = KPromptObligation i)
    \<or> symbol_operation k = Some opn \<and> (k = KOperation opn \<or> (\<exists>pt \<in> pts. governed_part k = Some pt))"
proof (cases "symbol_operation k")
  case None
  have same: "shared_content w' k = shared_content w k" if "\<And>i. k = KPromptObligation i \<Longrightarrow> i \<notin> obs"
    using assms(1) that by (cases k) (simp_all add: same_outside_def)
  have "ws_runtime w' = ws_runtime w" using assms(1) by (simp add: same_outside_def)
  then have "shared_content w' k \<noteq> shared_content w k"
    using assms(2) unfolding symbol_fingerprint_shared [OF None] by metis
  with same show ?thesis by blast
next
  case (Some other)
  note fp = symbol_fingerprint_operation [OF Some]
  have "other = opn"
    using assms fp [of h w] fp [of h w'] by (auto simp: same_outside_def)
  obtain d d' where d: "bm_get (ws_operations w) opn = Some d" "bm_get (ws_operations w') opn = Some d'"
    "\<And>pt. pt \<notin> pts \<Longrightarrow> same_part pt d d'"
    using assms fp [of h w] fp [of h w'] \<open>other = opn\<close>
    by (auto simp: same_outside_def split: option.splits)
  have ne: "operation_fingerprint h d' k \<noteq> operation_fingerprint h d k"
    using assms(2) fp [of h w] fp [of h w'] d \<open>other = opn\<close> by simp
  show ?thesis
  proof (cases "governed_part k")
    case None
    have "k = KOperation opn"
      using None Some \<open>other = opn\<close> ne by (cases k) (auto simp: operation_fingerprint_def)
    with Some \<open>other = opn\<close> show ?thesis by simp
  next
    case (Some pt)
    then have "pt \<in> pts" using operation_fingerprint_part [OF Some, of d d' h] d(3) [of pt] ne by auto
    with Some \<open>symbol_operation k = Some other\<close> \<open>other = opn\<close> show ?thesis by blast
  qed
qed

section \<open>The footprint bounds the change\<close>

definition part_target :: "id \<Rightarrow> draft_part \<Rightarrow> symbol_key" where
  "part_target opn pt =
     (case pt of
        PartInterface \<Rightarrow> KOperationInterface opn
      | PartProgram \<Rightarrow> KOperationProgram opn
      | PartRequirements \<Rightarrow> KOperationRequirements opn)"

text \<open>
  The write targets a symbol is part of. Planning a new operation gives it an empty program and
  empty requirements, so these two are also governed by the interface.
\<close>

fun governing :: "symbol_key \<Rightarrow> symbol_key list" where
  "governing (KDataObject m i) = [KDataModel m]"
| "governing (KOutbox m i) = [KDataModel m]"
| "governing (KTransition m i) = [KStateMachine m]"
| "governing (KOperation opn) =
     [KOperation opn, KOperationInterface opn, KOperationProgram opn, KOperationRequirements opn]"
| "governing (KOperationProgram opn) = [KOperation opn, KOperationInterface opn, KOperationProgram opn]"
| "governing (KOperationRequirements opn) =
     [KOperation opn, KOperationInterface opn, KOperationRequirements opn]"
| "governing k =
     (case (symbol_operation k, governed_part k) of
        (Some opn, Some pt) \<Rightarrow> [KOperation opn, part_target opn pt]
      | _ \<Rightarrow> [k])"

lemma governing_part:
  "symbol_operation k = Some opn \<Longrightarrow> governed_part k = Some pt \<Longrightarrow> part_target opn pt \<in> set (governing k)"
  by (cases k) (auto simp: part_target_def)

lemma governing_operation:
  "symbol_operation k = Some opn \<Longrightarrow> k = KOperation opn \<or> governed_part k \<noteq> None \<Longrightarrow>
     KOperation opn \<in> set (governing k)"
  by (cases k) auto

lemma governing_whole: "part_target opn pt \<in> set (governing (KOperation opn))"
  by (cases pt) (simp_all add: part_target_def)

definition proposed_obligations :: "mutation \<Rightarrow> obligation_id list" where
  "proposed_obligations m =
     (case m of
        ProposeRequirements opn ss \<Rightarrow> List.map_filter (\<lambda>s. origin_obligation (rs_origin s)) ss
      | _ \<Rightarrow> [])"

definition within_footprint :: "mutation \<Rightarrow> symbol_key \<Rightarrow> bool" where
  "within_footprint m k \<longleftrightarrow>
     list_ex (\<lambda>t. t \<in> set (conflict_footprint m)) (governing k)
     \<or> list_ex (\<lambda>i. k = KPromptObligation i) (proposed_obligations m)"

lemma within_parts:
  assumes "same_outside opn pts obs w w'" "symbol_fingerprint h w' k \<noteq> symbol_fingerprint h w k"
    and "\<And>pt. pt \<in> pts \<Longrightarrow> part_target opn pt \<in> set (conflict_footprint m)" "pts \<noteq> {}"
    and "\<And>i. i \<in> obs \<Longrightarrow> i \<in> set (proposed_obligations m)"
  shows "within_footprint m k"
  using same_outside_fingerprint [OF assms(1,2)]
proof
  assume "\<exists>i \<in> obs. k = KPromptObligation i"
  with assms(5) show ?thesis by (auto simp: within_footprint_def list_ex_iff)
next
  assume k: "symbol_operation k = Some opn \<and> (k = KOperation opn \<or> (\<exists>pt \<in> pts. governed_part k = Some pt))"
  obtain pt where "pt \<in> pts" "part_target opn pt \<in> set (governing k)"
  proof (cases "k = KOperation opn")
    case True
    with assms(4) that show ?thesis using governing_whole by blast
  next
    case False
    with k that show ?thesis using governing_part by blast
  qed
  with assms(3) show ?thesis by (auto simp: within_footprint_def list_ex_iff)
qed

lemma recompute_parts [simp]: "same_part pt d (recompute_stage d') = same_part pt d d'"
  by (cases pt) (simp_all add: recompute_stage_def draft_interface_def)

lemma change_draft_outside:
  assumes "\<And>d pt. pt \<notin> pts \<Longrightarrow> same_part pt d (f d)"
  shows "same_outside opn pts obs w (fst (change_draft w opn f))"
  using assms by (cases "bm_get (ws_operations w) opn") (simp_all add: change_draft_def same_outside_draft)

lemma adopt_requirement_parts:
  assumes "adopt_requirement d r = Some (d', i)"
  shows "same_part PartInterface d d'"
    and "proposed_transaction r = None \<Longrightarrow> same_part PartProgram d d'"
    and "proposed_transaction r \<noteq> None \<Longrightarrow> same_part PartRequirements d d'"
  using assms
  by (cases r; auto simp: change_transaction_def draft_interface_def bind_eq_Some_conv)+

lemma judge_submission_parts:
  "same_part PartInterface d (fst (judge_submission h pol opn d s))"
  "proposed_transaction (rs_requirement s) = None \<Longrightarrow> same_part PartProgram d (fst (judge_submission h pol opn d s))"
  using adopt_requirement_parts [of d "rs_requirement s"]
  by (auto simp: judge_submission_def Let_def split: option.split)

definition proposal_parts :: "requirement_submission list \<Rightarrow> draft_part set" where
  "proposal_parts ss =
     insert PartRequirements
       (if \<exists>s \<in> set ss. proposed_transaction (rs_requirement s) \<noteq> None then {PartProgram} else {})"

lemma apply_submission_outside:
  assumes "s \<in> set ss"
  shows "same_outside opn (proposal_parts ss)
    (set (List.map_filter (\<lambda>s. origin_obligation (rs_origin s)) ss)) w (fst (apply_submission h opn s w))"
    (is "same_outside opn ?pts ?obs w _")
proof (cases "missing_obligation w s = None \<and> (\<exists>d. bm_get (ws_operations w) opn = Some d
      \<and> missing_transaction d (rs_requirement s) = None)")
  case False
  then show ?thesis by (auto simp: apply_submission_def split: option.split)
next
  case True
  then obtain d where d: "missing_obligation w s = None" "bm_get (ws_operations w) opn = Some d"
    "missing_transaction d (rs_requirement s) = None" by blast
  let ?j = "judge_submission h (rm_policy (ws_run_meta w)) opn d s"
  have same: "same_part pt d (fst ?j)" if "pt \<notin> ?pts" for pt
    using that assms judge_submission_parts [where d = d and h = h and pol = "rm_policy (ws_run_meta w)" and opn = opn and s = s]
    by (cases pt) (auto simp: proposal_parts_def split: if_splits)
  have step: "same_outside opn ?pts ?obs w' (discharge w' s st)" for w' st
  proof (cases "origin_obligation (rs_origin s)")
    case (Some i)
    then have "i \<in> ?obs" using assms by (auto simp: set_map_filter)
    with Some show ?thesis by (simp add: discharge_def same_outside_obligation split: option.split)
  qed (simp add: discharge_def)
  have "same_outside opn ?pts ?obs w (discharge (w\<lparr>ws_operations := bm_insert opn (fst ?j) (ws_operations w)\<rparr>) s (snd ?j))"
    by (rule same_outside_trans [OF same_outside_draft [OF d(2) same] step])
  with d show ?thesis by (simp add: apply_submission_def case_prod_unfold Let_def)
qed

lemma apply_submissions_outside:
  assumes "set ss \<subseteq> set all"
  shows "same_outside opn (proposal_parts all)
    (set (List.map_filter (\<lambda>s. origin_obligation (rs_origin s)) all)) w (fst (apply_submissions h opn ss w))"
  using assms
proof (induction ss arbitrary: w)
  case (Cons s ss)
  then show ?case
    using same_outside_trans [OF apply_submission_outside [of s all opn w h]] by (simp add: case_prod_unfold Let_def)
qed simp

lemma apply_proposals_outside:
  "same_outside opn (proposal_parts ss)
    (set (List.map_filter (\<lambda>s. origin_obligation (rs_origin s)) ss)) w (fst (apply_proposals h w opn ss))"
proof -
  have "same_outside opn pts obs w' (recompute_draft opn w')" for pts obs w'
    by (cases "bm_get (ws_operations w') opn") (simp_all add: recompute_draft_def same_outside_draft)
  from same_outside_trans [OF apply_submissions_outside [of ss ss] this] show ?thesis
    by (simp add: apply_proposals_def case_prod_unfold Let_def)
qed

text \<open>Mutations of shared declarations and of the runtime.\<close>

lemma operations_same_fingerprint:
  "ws_operations w' = ws_operations w \<Longrightarrow> symbol_operation k \<noteq> None \<Longrightarrow>
     symbol_fingerprint h w' k = symbol_fingerprint h w k"
  by (cases "symbol_operation k") (simp_all add: symbol_fingerprint_operation)

lemma nested_get [simp]:
  "Option.bind (bm_get (insert_nested opn i v m) other) (\<lambda>ins. bm_get ins j)
     = (if other = opn \<and> j = i then Some v else Option.bind (bm_get m other) (\<lambda>ins. bm_get ins j))"
  by (auto simp: insert_nested_def get_or_def split: option.splits bind_splits)

lemma filter_nonempty_get:
  "bm_wf m \<Longrightarrow> Option.bind (bm_get (filter (\<lambda>(opn, ins). ins \<noteq> []) m) k) (\<lambda>ins. bm_get ins j)
     = Option.bind (bm_get m k) (\<lambda>ins. bm_get ins j)"
proof (induction m)
  case (Cons e m)
  obtain a b where e: "e = (a, b)" by force
  have "bm_get m a = None" using Cons.prems e bm_wf_min [of a b m] by simp
  then have "bm_get (filter (\<lambda>(opn, ins). ins \<noteq> []) m) a = None"
    by (auto simp: map_of_eq_None_iff)
  with Cons e show ?case by (cases b) auto
qed simp

lemma nested_removed [simp]:
  "bm_wf m \<Longrightarrow> Option.bind (bm_get (remove_nested opn i m) other) (\<lambda>ins. bm_get ins j)
     = (if other = opn \<and> j = i then None else Option.bind (bm_get m other) (\<lambda>ins. bm_get ins j))"
  by (cases "bm_get m opn") (auto simp: remove_nested_def filter_nonempty_get split: bind_splits)

lemma runtime_content_nested:
  "runtime_content r (KSubscriptionRuntime opn i)
     = map_option CtSubscriptionRuntime (Option.bind (bm_get (rm_subscriptions r) opn) (\<lambda>ins. bm_get ins i))"
  by (simp add: bind_map_option)

lemma same_content_fingerprint:
  "symbol_operation k = None \<Longrightarrow> shared_content w' k = shared_content w k \<Longrightarrow>
     runtime_content (ws_runtime w') k = runtime_content (ws_runtime w) k \<Longrightarrow>
     symbol_fingerprint h w' k = symbol_fingerprint h w k"
  by (metis symbol_fingerprint_shared)

lemma shared_mutation_footprint:
  assumes "ws_operations w' = ws_operations w" "symbol_fingerprint h w' k \<noteq> symbol_fingerprint h w k"
    and "symbol_operation k = None \<Longrightarrow> \<not> within_footprint m k \<Longrightarrow>
      shared_content w' k = shared_content w k \<and> runtime_content (ws_runtime w') k = runtime_content (ws_runtime w) k"
  shows "within_footprint m k"
proof (rule ccontr)
  assume not: "\<not> within_footprint m k"
  show False
  proof (cases "symbol_operation k")
    case None
    with assms(2,3) not same_content_fingerprint show False by blast
  next
    case (Some opn)
    with operations_same_fingerprint [OF assms(1)] assms(2) show False by auto
  qed
qed

text \<open>A shared symbol's content is read from the declarations that govern it.\<close>

lemma content_cong:
  assumes "symbol_operation k = None"
    and "\<And>i. KService i \<in> set (governing k) \<Longrightarrow> bm_get (ws_services w') i = bm_get (ws_services w) i"
    and "\<And>i. KSchema i \<in> set (governing k) \<Longrightarrow> bm_get (ws_schemas w') i = bm_get (ws_schemas w) i"
    and "\<And>i. KDataModel i \<in> set (governing k) \<Longrightarrow> bm_get (ws_data_models w') i = bm_get (ws_data_models w) i"
    and "\<And>i. KTopic i \<in> set (governing k) \<Longrightarrow> bm_get (ws_topics w') i = bm_get (ws_topics w) i"
    and "\<And>i. KStateMachine i \<in> set (governing k) \<Longrightarrow>
          bm_get (ws_state_machines w') i = bm_get (ws_state_machines w) i"
    and "\<And>i. KPromptObligation i \<in> set (governing k) \<Longrightarrow>
          bm_get (ws_obligations w') i = bm_get (ws_obligations w) i"
    and "\<And>i. KTopicRuntime i \<in> set (governing k) \<Longrightarrow>
          bm_get (rm_topics (ws_runtime w')) i = bm_get (rm_topics (ws_runtime w)) i"
    and "\<And>opn i. KSubscriptionRuntime opn i \<in> set (governing k) \<Longrightarrow>
          Option.bind (bm_get (rm_subscriptions (ws_runtime w')) opn) (\<lambda>ins. bm_get ins i)
            = Option.bind (bm_get (rm_subscriptions (ws_runtime w)) opn) (\<lambda>ins. bm_get ins i)"
    and "\<And>i. KExecutionPool i \<in> set (governing k) \<Longrightarrow>
          bm_get (rm_pools (ws_runtime w')) i = bm_get (rm_pools (ws_runtime w)) i"
    and "\<And>i. KRouter i \<in> set (governing k) \<Longrightarrow>
          bm_get (rm_routers (ws_runtime w')) i = bm_get (rm_routers (ws_runtime w)) i"
    and "\<And>i. KStorageLayout i \<in> set (governing k) \<Longrightarrow>
          bm_get (rm_layouts (ws_runtime w')) i = bm_get (rm_layouts (ws_runtime w)) i"
  shows "shared_content w' k = shared_content w k
    \<and> runtime_content (ws_runtime w') k = runtime_content (ws_runtime w) k"
  using assms
  by (cases k) (simp_all add: runtime_content_nested del: runtime_content.simps(2))

lemma summary_fingerprint [simp]: "symbol_fingerprint h w (KOperationSummary opn) = None"
  by (simp add: symbol_fingerprint_def symbol_content_def split: option.split)

lemma interface_footprint:
  assumes "symbol_fingerprint h (fst (apply_mutation h w (PutOperationInterface opn v))) k \<noteq> symbol_fingerprint h w k"
  shows "within_footprint (PutOperationInterface opn v) k"
proof (cases "bm_get (ws_operations w) opn")
  case (Some d)
  have "same_outside opn {PartInterface} {} w
      (w\<lparr>ws_operations := bm_insert opn (put_interface v (Some d)) (ws_operations w)\<rparr>)"
  proof (rule same_outside_draft [OF Some])
    show "same_part pt d (put_interface v (Some d))" if "pt \<notin> {PartInterface}" for pt
      using that by (cases pt) (simp_all add: put_interface_def)
  qed
  from within_parts [OF this, of h k "PutOperationInterface opn v"] assms Some show ?thesis
    by (simp add: part_target_def)
next
  case None
  let ?w' = "fst (apply_mutation h w (PutOperationInterface opn v))"
  have ops: "bm_get (ws_operations ?w') other = (if other = opn then Some (planned v) else bm_get (ws_operations w) other)" for other
    using None by (simp add: put_interface_def)
  have k: "symbol_operation k = Some opn"
  proof (rule ccontr)
    assume no: "symbol_operation k \<noteq> Some opn"
    show False
    proof (cases "symbol_operation k")
      case None
      have "shared_content ?w' k = shared_content w k" by (cases k) simp_all
      with assms same_content_fingerprint [OF None, of ?w' w h] show False by simp
    next
      case (Some other)
      with no assms ops show False by (simp add: symbol_fingerprint_operation)
    qed
  qed
  have fp: "operation_fingerprint h (planned v) k \<noteq> None"
    using assms None by (simp add: symbol_fingerprint_operation [OF k] put_interface_def)
  have "KOperationInterface opn \<in> set (governing k)"
  proof (cases "governed_part k = Some PartInterface")
    case True
    with governing_part [OF k True] show ?thesis by (simp add: part_target_def)
  next
    case False
    with planned_fingerprint [OF False fp] k show ?thesis by auto
  qed
  then show ?thesis by (auto simp: within_footprint_def list_ex_iff)
qed

lemma apply_delete_get:
  "bm_get (ws_services (fst (apply_delete w t))) i = (if t = KService i then None else bm_get (ws_services w) i)"
  "bm_get (ws_schemas (fst (apply_delete w t))) i = (if t = KSchema i then None else bm_get (ws_schemas w) i)"
  "bm_get (ws_data_models (fst (apply_delete w t))) i
     = (if t = KDataModel i then None else bm_get (ws_data_models w) i)"
  "bm_get (ws_topics (fst (apply_delete w t))) i = (if t = KTopic i then None else bm_get (ws_topics w) i)"
  "bm_get (ws_state_machines (fst (apply_delete w t))) i
     = (if t = KStateMachine i then None else bm_get (ws_state_machines w) i)"
  "bm_get (ws_obligations (fst (apply_delete w t))) ob
     = (if t = KPromptObligation ob then None else bm_get (ws_obligations w) ob)"
  "bm_get (rm_topics (ws_runtime (fst (apply_delete w t)))) i
     = (if t = KTopicRuntime i then None else bm_get (rm_topics (ws_runtime w)) i)"
  "bm_get (rm_pools (ws_runtime (fst (apply_delete w t)))) i
     = (if t = KExecutionPool i then None else bm_get (rm_pools (ws_runtime w)) i)"
  "bm_get (rm_routers (ws_runtime (fst (apply_delete w t)))) i
     = (if t = KRouter i then None else bm_get (rm_routers (ws_runtime w)) i)"
  "bm_get (rm_layouts (ws_runtime (fst (apply_delete w t)))) i
     = (if t = KStorageLayout i then None else bm_get (rm_layouts (ws_runtime w)) i)"
  by (cases t; simp add: apply_delete_def)+

lemma apply_delete_get_nested:
  assumes "bm_wf (rm_subscriptions (ws_runtime w))"
  shows "Option.bind (bm_get (rm_subscriptions (ws_runtime (fst (apply_delete w t)))) opn) (\<lambda>ins. bm_get ins i)
     = (if t = KSubscriptionRuntime opn i then None
        else Option.bind (bm_get (rm_subscriptions (ws_runtime w)) opn) (\<lambda>ins. bm_get ins i))"
  using assms by (cases t) (auto simp: apply_delete_def)

lemma delete_footprint:
  assumes "workspace_wf w" "symbol_fingerprint h (fst (apply_delete w t)) k \<noteq> symbol_fingerprint h w k"
  shows "within_footprint (DeleteTopLevel t) k"
proof (cases "\<exists>opn. t = KOperation opn")
  case True
  then obtain opn where t: "t = KOperation opn" by blast
  have ops: "bm_get (ws_operations (fst (apply_delete w t))) other
      = (if other = opn then None else bm_get (ws_operations w) other)" for other
    by (simp add: t apply_delete_def)
  show ?thesis
  proof (cases "symbol_operation k")
    case None
    have "shared_content (fst (apply_delete w t)) k = shared_content w k
        \<and> runtime_content (ws_runtime (fst (apply_delete w t))) k = runtime_content (ws_runtime w) k"
      by (intro content_cong [OF None]) (simp_all add: t apply_delete_def)
    with assms(2) same_content_fingerprint [OF None, of "fst (apply_delete w t)" w h] show ?thesis by blast
  next
    case (Some other)
    have "other = opn"
    proof (rule ccontr)
      assume "other \<noteq> opn"
      with assms(2) show False by (simp add: symbol_fingerprint_operation [OF Some] ops)
    qed
    have "k = KOperation opn \<or> governed_part k \<noteq> None"
      using assms(2) Some \<open>other = opn\<close> by (cases k) auto
    with governing_operation [of k opn] Some \<open>other = opn\<close> t show ?thesis
      by (auto simp: within_footprint_def list_ex_iff)
  qed
next
  case False
  have wf: "bm_wf (rm_subscriptions (ws_runtime w))" using assms(1) by (simp add: workspace_wf_def)
  show ?thesis
  proof (rule shared_mutation_footprint [OF _ assms(2)])
    show "ws_operations (fst (apply_delete w t)) = ws_operations w"
      using False by (cases t) (simp_all add: apply_delete_def)
    assume "symbol_operation k = None" "\<not> within_footprint (DeleteTopLevel t) k"
    then have "t \<notin> set (governing k)" by (auto simp: within_footprint_def list_ex_iff)
    then show "shared_content (fst (apply_delete w t)) k = shared_content w k
        \<and> runtime_content (ws_runtime (fst (apply_delete w t))) k = runtime_content (ws_runtime w) k"
      by (intro content_cong [OF \<open>symbol_operation k = None\<close>])
         (auto simp: apply_delete_get apply_delete_get_nested [OF wf])
  qed
qed

lemma put_footprint:
  assumes "ws_operations (fst (apply_mutation h w m)) = ws_operations w"
    and "symbol_fingerprint h (fst (apply_mutation h w m)) k \<noteq> symbol_fingerprint h w k"
    and "\<nexists>t. m = DeleteTopLevel t" "\<nexists>opn ss. m = ProposeRequirements opn ss"
  shows "within_footprint m k"
proof (rule shared_mutation_footprint [OF assms(1,2)])
  assume k: "symbol_operation k = None" and "\<not> within_footprint m k"
  then have nt: "write_target m \<notin> set (governing k)"
    using assms(4) write_target_in_footprint [of m] by (auto simp: within_footprint_def list_ex_iff)
  show "shared_content (fst (apply_mutation h w m)) k = shared_content w k
      \<and> runtime_content (ws_runtime (fst (apply_mutation h w m))) k = runtime_content (ws_runtime w) k"
    using nt assms(3,4)
    by (intro content_cong [OF k]; cases m) (auto simp: change_draft_def split: option.split)
qed

lemma mutation_within_footprint:
  assumes "workspace_wf w"
    and "symbol_fingerprint h (fst (apply_mutation h w m)) k \<noteq> symbol_fingerprint h w k"
  shows "within_footprint m k"
proof (cases m)
  case (PutOperationInterface opn v)
  with assms(2) interface_footprint show ?thesis by blast
next
  case (ReplaceOperationProgram opn p)
  have "same_outside opn {PartProgram} {} w (fst (apply_mutation h w m))"
    unfolding ReplaceOperationProgram apply_mutation.simps
    by (rule change_draft_outside) (case_tac pt; simp add: draft_interface_def)
  from within_parts [OF this assms(2)] show ?thesis
    by (simp add: ReplaceOperationProgram part_target_def)
next
  case (ReplaceOperationRequirements opn r)
  have "same_outside opn {PartRequirements} {} w (fst (apply_mutation h w m))"
    unfolding ReplaceOperationRequirements apply_mutation.simps
    by (rule change_draft_outside) (case_tac pt; simp add: draft_interface_def)
  from within_parts [OF this assms(2)] show ?thesis
    by (simp add: ReplaceOperationRequirements part_target_def)
next
  case (ProposeRequirements opn ss)
  have "same_outside opn (proposal_parts ss)
      (set (List.map_filter (\<lambda>s. origin_obligation (rs_origin s)) ss)) w (fst (apply_mutation h w m))"
    unfolding ProposeRequirements apply_mutation.simps by (rule apply_proposals_outside)
  then show ?thesis
    by (rule within_parts [OF _ assms(2)])
       (auto simp: ProposeRequirements proposal_parts_def part_target_def proposed_obligations_def split: if_splits)
next
  case (DeleteTopLevel t)
  with assms delete_footprint show ?thesis by simp
qed (use put_footprint [OF _ assms(2)] in simp_all)

lemma patch_within_footprint:
  assumes "workspace_wf w"
    and "symbol_fingerprint h (fst (apply_mutations h w p)) k \<noteq> symbol_fingerprint h w k"
  shows "\<exists>m \<in> set p. within_footprint m k"
  using assms
proof (induction p arbitrary: w)
  case (Cons m p)
  let ?w1 = "fst (apply_mutation h w m)"
  show ?case
  proof (cases "symbol_fingerprint h ?w1 k = symbol_fingerprint h w k")
    case True
    then have "symbol_fingerprint h (fst (apply_mutations h ?w1 p)) k \<noteq> symbol_fingerprint h ?w1 k"
      using Cons.prems(2) by (simp add: case_prod_unfold Let_def)
    with Cons.IH [OF workspace_wf_mutation [OF Cons.prems(1)]] show ?thesis by auto
  next
    case False
    with mutation_within_footprint [OF Cons.prems(1)] show ?thesis by auto
  qed
qed simp

section \<open>Properties\<close>



text \<open>
  Every patch keeps the maps of the workspace ordered.
\<close>

theorem patches_keep_order:
  "workspace_wf w \<Longrightarrow> workspace_wf (fst (apply_patch h g w p))"
  by (simp add: workspace_wf_mutations)

theorem patches_keep_order_witness:
  "workspace_wf (fst (apply_patch (\<lambda>c. SemanticHash [])
      \<lparr>gt_local_diagnostics = \<lambda>m i. [], gt_compile_sketch = \<lambda>w i d s. None\<rparr>
      (workspace_empty (run_metadata_new ''run''))
      [PutTopic (Id ''b'') \<lparr>tp_messages = [], tp_identity = MiUnspecified\<rparr>, PutTopic (Id ''a'') \<lparr>tp_messages = [], tp_identity = MiUnspecified\<rparr>, DeleteTopLevel (KTopic (Id ''b''))]))"
  by (rule patches_keep_order) (simp add: workspace_wf_def workspace_empty_def runtime_default_def)

text \<open>
  C25. A proposal that may be judged never hits the panic of a missing transaction, an explicit
  prompt always ends adopted or as a duplicate, and the reference recorded then names a place in
  the declared list that holds the very requirement proposed.
\<close>

theorem adoption_in_place:
  assumes "missing_transaction d (rs_requirement s) = None"
  shows "case judge_submission h pol opn d s of (d', st) \<Rightarrow>
    st \<noteq> PsProposed
    \<and> (origin_obligation (rs_origin s) \<noteq> None \<longrightarrow> status_reference st \<noteq> None)
    \<and> (case status_reference st of
         None \<Rightarrow> d' = d
       | Some r \<Rightarrow> rf_index r < length (declared_fingerprints h d' (rs_requirement s))
           \<and> declared_fingerprints h d' (rs_requirement s) ! rf_index r = requirement_fingerprint h (rs_requirement s))"
proof (cases "position_of (\<lambda>fp. fp = requirement_fingerprint h (rs_requirement s))
    (declared_fingerprints h d (rs_requirement s))")
  case (Some i)
  with position_of_Some [OF Some] show ?thesis by (simp add: judge_submission_def Let_def)
next
  case None
  obtain d' i where ad: "adopt_requirement d (rs_requirement s) = Some (d', i)"
    "i = length (declared_fingerprints h d (rs_requirement s))"
    "declared_fingerprints h d' (rs_requirement s)
      = declared_fingerprints h d (rs_requirement s) @ [requirement_fingerprint h (rs_requirement s)]"
    using adopt_requirement_declares [OF assms, of h] by blast
  have "adopts pol (rs_origin s)" if "origin_obligation (rs_origin s) \<noteq> None"
    using that by (cases "rs_origin s") (simp_all add: adopts_def)
  with None ad show ?thesis
    by (cases "origin_obligation (rs_origin s)") (auto simp: judge_submission_def Let_def)
qed

theorem adoption_in_place_witness:
  "case judge_submission (\<lambda>c. SemanticHash []) default_policy (Id ''op'')
       (planned \<lparr>if_service = Id ''api'', if_description = None, if_inputs = [], if_sketch = None\<rparr>)
       \<lparr>rs_requirement = PrIdempotency \<lparr>ir_key = \<lparr>ik_components = []\<rparr>, ir_result = RrUnspecified\<rparr>,
        rs_origin = RoExplicitPrompt (ObligationId ''o'')\<rparr> of (d', st) \<Rightarrow>
     st = PsAdopted \<lparr>rf_operation = Id ''op'', rf_family = RfIdempotency, rf_transaction = None, rf_index = 0\<rparr>"
  using adoption_in_place [of "planned \<lparr>if_service = Id ''api'', if_description = None, if_inputs = [], if_sketch = None\<rparr>"
      "\<lparr>rs_requirement = PrIdempotency \<lparr>ir_key = \<lparr>ik_components = []\<rparr>, ir_result = RrUnspecified\<rparr>,
        rs_origin = RoExplicitPrompt (ObligationId ''o'')\<rparr>" "\<lambda>c. SemanticHash []" default_policy "Id ''op''"]
  by (simp add: judge_submission_def missing_transaction_def planned_def default_requirements_def
        requirement_fingerprint_def adopts_def)

text \<open>
  The exception is real: adopting an explicit proposal maps the prompt obligation it names,
  which changes the obligation's fingerprint, and no write target of the patch governs it.
\<close>

theorem proposal_changes_an_obligation:
  "let h = (\<lambda>c. case c of CtObligation ob \<Rightarrow> SemanticHash (if po_status ob = ObUnmapped then [] else [1])
                | _ \<Rightarrow> SemanticHash []);
       w = (workspace_empty (run_metadata_new ''run''))
         \<lparr>ws_operations := [(Id ''op'', planned \<lparr>if_service = Id ''api'', if_description = None,
            if_inputs = [], if_sketch = None\<rparr>)],
          ws_obligations := [(ObligationId ''o'', \<lparr>po_source_span = None, po_intent = ''once'',
            po_targets = [Id ''op''], po_status = ObUnmapped\<rparr>)]\<rparr>;
       p = [ProposeRequirements (Id ''op'')
         [\<lparr>rs_requirement = PrIdempotency \<lparr>ir_key = \<lparr>ik_components = []\<rparr>, ir_result = RrUnspecified\<rparr>,
           rs_origin = RoExplicitPrompt (ObligationId ''o'')\<rparr>]];
       k = KPromptObligation (ObligationId ''o'');
       g = \<lparr>gt_local_diagnostics = \<lambda>m i. [], gt_compile_sketch = \<lambda>w i d s. None\<rparr>
   in snd (apply_patch h g w p) = []
      \<and> symbol_fingerprint h (fst (apply_patch h g w p)) k \<noteq> symbol_fingerprint h w k
      \<and> \<not> list_ex (\<lambda>t. t \<in> set (write_targets p)) (governing k)"
  by (simp add: Let_def apply_patch_def apply_proposals_def apply_submission_def missing_obligation_def
        bm_contains_def missing_transaction_def judge_submission_def planned_def default_requirements_def
        requirement_fingerprint_def adopts_def discharge_def map_obligation_def add_reference_def
        recompute_draft_def workspace_empty_def symbol_fingerprint_def symbol_content_def
        check_patch_def check_requirement_roots_def requirement_roots_def recompute_stage_def
        input_roots_def write_targets_def bs_collect_def)

end
