(* ===== verification/Design_Protocol.thy ===== *)
theory Design_Protocol
  imports Design_Engine Design_Footprint
begin

text \<open>
  The commit protocol of \<open>design/engine.rs\<close>: \<open>process_commit\<close> with its three parts, the sweep that
  invalidates tasks, the adoption of outside changes, the sequencer's handling of one submission,
  and start and recovery.

  \<open>process_commit\<close> is one function of the commit worker, but other threads may run between its
  first part, which marks the task as committing, and its last, which settles the outcome; so each
  part is a definition of its own and \<open>process_commit\<close> is their composition.
\<close>

section \<open>Opening a submission\<close>

definition attach_patch :: "spec_patch \<Rightarrow> task_entry \<Rightarrow> task_entry" where
  "attach_patch p en =
     (case te_invalidation en of
        None \<Rightarrow> en\<lparr>te_invalidation := Some \<lparr>in_causes = [], in_rejected_patch = Some p\<rparr>\<rparr>
      | Some note \<Rightarrow>
          if in_rejected_patch note = None
          then en\<lparr>te_invalidation := Some (note\<lparr>in_rejected_patch := Some p\<rparr>)\<rparr> else en)"

text \<open>The result is the reply when there is nothing to judge.\<close>

definition open_commit ::
    "commit_request \<Rightarrow> engine \<Rightarrow> (commit_rejection + commit_receipt) option \<times> engine" where
  "open_commit rq e =
     (case bm_get (en_tasks e) (cr_task rq) of
        None \<Rightarrow> (Some (Inl CrTaskUnknown), e)
      | Some en \<Rightarrow>
          (case en_nonces e (cr_task rq, cr_client_nonce rq) of
             Some r \<Rightarrow> (Some (Inr \<lparr>ct_revision = r, ct_replayed = True\<rparr>), e)
           | None \<Rightarrow>
               (case te_state en of
                  TaskRunning \<Rightarrow> (None, put_entry (cr_task rq) (en\<lparr>te_state := TaskCommitting\<rparr>) e)
                | TaskInvalidated \<Rightarrow>
                    (Some (Inl CrTaskInvalidated), put_entry (cr_task rq) (attach_patch (cr_patch rq) en) e)
                | st \<Rightarrow> (Some (Inl (CrTaskNotRunning st)), e))))"

section \<open>Judging it\<close>

definition read_conflict :: "snapshot \<Rightarrow> symbol_key \<times> symbol_observation \<Rightarrow> commit_rejection option" where
  "read_conflict head ob =
     (if snapshot_fingerprint head (fst ob) = Some (so_fingerprint (snd ob)) then None
      else Some (CrReadConflict (fst ob) (so_fingerprint (snd ob)) (snapshot_fingerprint head (fst ob))))"

definition query_conflict ::
    "content_hash \<Rightarrow> row_writer \<Rightarrow> snapshot \<Rightarrow> query_observation \<Rightarrow> commit_rejection option" where
  "query_conflict h render head ob =
     (if tracked_fingerprint h render head (qo_query ob) = qo_fingerprint ob then None
      else Some (case qo_query ob of TqGraph q \<Rightarrow> CrPhantomConflict q | TqSearch p \<Rightarrow> CrSearchConflict))"

definition write_conflict :: "snapshot \<Rightarrow> snapshot \<Rightarrow> symbol_key \<Rightarrow> commit_rejection option" where
  "write_conflict pinned head k =
     (if snapshot_fingerprint pinned k = snapshot_fingerprint head k then None else Some (CrWriteConflict k))"

text \<open>Steps 3 to 7 of the protocol.\<close>

definition judge_context ::
    "content_hash \<Rightarrow> row_writer \<Rightarrow> snapshot \<Rightarrow> task_entry \<Rightarrow> commit_request \<Rightarrow> commit_rejection option" where
  "judge_context h render head en rq =
     (if cr_base_revision rq \<noteq> tk_snapshot_revision (te_spec en)
      then Some (CrBaseRevisionMismatch (tk_snapshot_revision (te_spec en)) (cr_base_revision rq))
      else case find_map (scope_violation (tk_write_scope (te_spec en))) (cr_patch rq) of
        Some k \<Rightarrow> Some (CrWriteScopeViolation k)
      | None \<Rightarrow>
          (case find_map (read_conflict head) (symbols_ordered (te_read_set en)) of
             Some r \<Rightarrow> Some r
           | None \<Rightarrow>
               (case find_map (query_conflict h render head) (queries_ordered (te_read_set en)) of
                  Some r \<Rightarrow> Some r
                | None \<Rightarrow> find_map (write_conflict (te_snapshot en) head) (write_targets (cr_patch rq)))))"

text \<open>Steps 8 and 9: a reference to an operation is covered by its interface.\<close>

definition reference_observed :: "read_set \<Rightarrow> symbol_key \<Rightarrow> bool" where
  "reference_observed rs k \<longleftrightarrow>
     bm_contains (rs_symbols rs) k
     \<or> (case k of KOperation opn \<Rightarrow> bm_contains (rs_symbols rs) (KOperationInterface opn) | _ \<Rightarrow> False)"

definition judge_references :: "read_set \<Rightarrow> spec_patch \<Rightarrow> commit_rejection option" where
  "judge_references rs p =
     map_option CrUnobservedDependency (find (\<lambda>k. \<not> reference_observed rs k) (external_references p))"

text \<open>Steps 10 to 12: the candidate revision.\<close>

definition candidate_workspace :: "snapshot \<Rightarrow> workspace" where
  "candidate_workspace head = (sp_workspace head)\<lparr>ws_revision := sp_revision head + 1\<rparr>"

definition candidate ::
    "content_hash \<Rightarrow> gate \<Rightarrow> snapshot \<Rightarrow> spec_patch \<Rightarrow> commit_rejection + snapshot" where
  "candidate h g head p =
     (case apply_patch h g (candidate_workspace head) p of
        (w, ds) \<Rightarrow> if ds \<noteq> [] then Inl (CrDraftValidationFailed ds)
                   else Inr (build_snapshot h w (Some (sp_graph head))))"

section \<open>Publishing\<close>

definition invalidate_task ::
    "content_hash \<Rightarrow> row_writer \<Rightarrow> task_id option \<Rightarrow> symbol_key list \<Rightarrow> snapshot \<Rightarrow> task_id \<Rightarrow> engine \<Rightarrow> engine" where
  "invalidate_task h render committing changed head t e =
     (case bm_get (en_tasks e) t of
        None \<Rightarrow> e
      | Some en \<Rightarrow>
          if committing = Some t \<or> interactive en \<or> te_state en \<noteq> TaskRunning then e
          else
            (let causes = stale_causes h render (te_read_set en) changed head
             in if causes = [] then e
                else emit (EvTaskInvalidated t (sp_revision head) causes)
                  (put_entry t (en\<lparr>te_state := TaskInvalidated,
                     te_invalidation := Some \<lparr>in_causes = causes, in_rejected_patch = None\<rparr>\<rparr>) e)))"

definition invalidate_stale_tasks ::
    "content_hash \<Rightarrow> row_writer \<Rightarrow> task_id option \<Rightarrow> symbol_key list \<Rightarrow> snapshot \<Rightarrow> engine \<Rightarrow> engine" where
  "invalidate_stale_tasks h render committing changed head e =
     fold (invalidate_task h render committing changed head) (bm_keys (en_tasks e)) e"

definition publish_head ::
    "content_hash \<Rightarrow> row_writer \<Rightarrow> task_id option \<Rightarrow> snapshot \<Rightarrow> engine \<Rightarrow> engine" where
  "publish_head h render committing s e =
     invalidate_stale_tasks h render committing (changed_symbols (en_head e) s) s
       (emit (EvHeadPublished (sp_revision s)) (e\<lparr>en_head := s\<rparr>))"

text \<open>Steps 13 to 17.\<close>

definition publish_commit ::
    "content_hash \<Rightarrow> row_writer \<Rightarrow> commit_request \<Rightarrow> snapshot \<Rightarrow> engine \<Rightarrow> engine" where
  "publish_commit h render rq s e =
     publish_head h render (Some (cr_task rq)) s
       (e\<lparr>en_nonces := (en_nonces e)((cr_task rq, cr_client_nonce rq) \<mapsto> sp_revision s)\<rparr>)"

definition commit_candidate ::
    "content_hash \<Rightarrow> row_writer \<Rightarrow> gate \<Rightarrow> outcome \<Rightarrow> commit_request \<Rightarrow> read_set \<Rightarrow> engine
       \<Rightarrow> (commit_rejection + commit_receipt) \<times> engine" where
  "commit_candidate h render g persisted rq rs e =
     (case judge_references rs (cr_patch rq) of
        Some r \<Rightarrow> (Inl r, e)
      | None \<Rightarrow>
          (case candidate h g (en_head e) (cr_patch rq) of
             Inl r \<Rightarrow> (Inl r, e)
           | Inr s \<Rightarrow>
               (case persisted of
                  Some err \<Rightarrow>
                    (Inl (CrDraftValidationFailed [\<lparr>dd_subject = None, dd_message = MgNotPersisted err\<rparr>]), e)
                | None \<Rightarrow> (Inr \<lparr>ct_revision = sp_revision s, ct_replayed = False\<rparr>, publish_commit h render rq s e))))"

definition validate_and_commit ::
    "content_hash \<Rightarrow> row_writer \<Rightarrow> gate \<Rightarrow> outcome \<Rightarrow> commit_request \<Rightarrow> task_entry \<Rightarrow> engine
       \<Rightarrow> (commit_rejection + commit_receipt) \<times> engine" where
  "validate_and_commit h render g persisted rq en e =
     (case judge_context h render (en_head e) en rq of
        Some r \<Rightarrow> (Inl r, e)
      | None \<Rightarrow> commit_candidate h render g persisted rq (te_read_set en) e)"

section \<open>Settling it\<close>

definition settle_commit ::
    "task_id \<Rightarrow> outcome \<Rightarrow> commit_request \<Rightarrow> commit_rejection + commit_receipt \<Rightarrow> engine \<Rightarrow> engine" where
  "settle_commit fresh stored rq result e =
     (case bm_get (en_tasks e) (cr_task rq) of
        None \<Rightarrow> e
      | Some en \<Rightarrow>
          (case result of
             Inr receipt \<Rightarrow>
               (let e = emit (EvTaskCommitted (cr_task rq) (ct_revision receipt))
                          (put_entry (cr_task rq) (en\<lparr>te_state := TaskCommitted\<rparr>) e)
                in if interactive en then spawn_interactive_successor fresh stored (te_spec en) (te_token en) e else e)
           | Inl r \<Rightarrow>
               if is_stale_context r \<and> \<not> interactive en
               then emit (EvTaskInvalidated (cr_task rq) (sp_revision (en_head e)) (rejection_causes r))
                 (put_entry (cr_task rq) (en\<lparr>te_state := TaskInvalidated,
                    te_invalidation := Some \<lparr>in_causes = rejection_causes r, in_rejected_patch = Some (cr_patch rq)\<rparr>\<rparr>) e)
               else put_entry (cr_task rq) (en\<lparr>te_state := TaskRunning\<rparr>) e))"

record commit_world =
  cw_persisted :: outcome
  cw_successor :: task_id
  cw_stored :: outcome

definition process_commit ::
    "content_hash \<Rightarrow> row_writer \<Rightarrow> gate \<Rightarrow> commit_world \<Rightarrow> commit_request \<Rightarrow> engine
       \<Rightarrow> (commit_rejection + commit_receipt) \<times> engine" where
  "process_commit h render g cw rq e =
     (case open_commit rq e of
        (Some reply, e1) \<Rightarrow> (reply, e1)
      | (None, e1) \<Rightarrow>
          (case bm_get (en_tasks e1) (cr_task rq) of
             None \<Rightarrow> (Inl CrTaskUnknown, e1)
           | Some en \<Rightarrow>
               (case validate_and_commit h render g (cw_persisted cw) rq en e1 of
                  (result, e2) \<Rightarrow> (result, settle_commit (cw_successor cw) (cw_stored cw) rq result e2))))"

section \<open>Outside changes\<close>

definition move_session :: "(task_id \<Rightarrow> task_id \<times> outcome) \<Rightarrow> task_id \<Rightarrow> engine \<Rightarrow> engine" where
  "move_session fresh t e =
     (case bm_get (en_tasks e) t of
        None \<Rightarrow> e
      | Some en \<Rightarrow>
          (case fresh t of (successor, stored) \<Rightarrow>
             spawn_interactive_successor successor stored (te_spec en) (te_token en)
               (put_entry t (en\<lparr>te_state := TaskInvalidated\<rparr>) e)))"

definition live_sessions :: "engine \<Rightarrow> task_id list" where
  "live_sessions e = map fst (filter (\<lambda>(t, en). interactive en \<and> te_state en = TaskRunning) (en_tasks e))"

definition move_interactive_sessions :: "(task_id \<Rightarrow> task_id \<times> outcome) \<Rightarrow> engine \<Rightarrow> engine" where
  "move_interactive_sessions fresh e = fold (move_session fresh) (live_sessions e) e"

text \<open>
  What the files say: they do not load, nothing changed, or they hold another workspace; and
  whether the store recorded the adoption.
\<close>

record disk_world =
  dw_change :: "string + workspace option"
  dw_recorded :: outcome
  dw_successors :: "task_id \<Rightarrow> task_id \<times> outcome"

definition adopt_disk_change ::
    "content_hash \<Rightarrow> row_writer \<Rightarrow> disk_world \<Rightarrow> engine \<Rightarrow> (engine_error + revision option) \<times> engine" where
  "adopt_disk_change h render dw e =
     (case dw_change dw of
        Inl err \<Rightarrow> (Inl (EeStore err), e)
      | Inr None \<Rightarrow> (Inr None, e)
      | Inr (Some w) \<Rightarrow>
          (let s = build_snapshot h (w\<lparr>ws_revision := sp_revision (en_head e) + 1\<rparr>) (Some (sp_graph (en_head e)))
           in case dw_recorded dw of
                Some err \<Rightarrow> (Inl (EeStore err), e)
              | None \<Rightarrow>
                  (Inr (Some (sp_revision s)),
                   move_interactive_sessions (dw_successors dw) (publish_head h render None s e))))"

fun store_error :: "engine_error \<Rightarrow> string" where
  "store_error (EeStore err) = err"
| "store_error _ = []"

definition handle_submission ::
    "content_hash \<Rightarrow> row_writer \<Rightarrow> gate \<Rightarrow> disk_world \<Rightarrow> commit_world \<Rightarrow> commit_request \<Rightarrow> engine
       \<Rightarrow> (commit_rejection + commit_receipt) \<times> engine" where
  "handle_submission h render g dw cw rq e =
     (case adopt_disk_change h render dw e of
        (Inl err, e') \<Rightarrow>
          (Inl (CrDraftValidationFailed [\<lparr>dd_subject = None, dd_message = MgDiskUnreadable (store_error err)\<rparr>]), e')
      | (Inr _, e') \<Rightarrow> process_commit h render g cw rq e')"

section \<open>Start and recovery\<close>

definition recovered_state :: "task_state \<Rightarrow> task_state" where
  "recovered_state st = (if is_active st \<or> st = TaskPlanned then TaskInvalidated else st)"

fun recover_tasks :: "(task_id \<Rightarrow> outcome) \<Rightarrow> (task_spec \<times> task_state) list \<Rightarrow> engine \<Rightarrow> engine_error + engine" where
  "recover_tasks updated [] e = Inr e"
| "recover_tasks updated ((spec, st) # rs) e =
     (case (if recovered_state st \<noteq> st then updated (tk_id spec) else None) of
        Some err \<Rightarrow> Inl (EeStore err)
      | None \<Rightarrow>
          recover_tasks updated rs
            (put_entry (tk_id spec)
              \<lparr>te_spec = spec, te_snapshot = en_head e, te_state = recovered_state st,
               te_read_set = read_set_empty, te_token = [], te_invalidation = None\<rparr> e))"

definition start_engine ::
    "content_hash \<Rightarrow> (task_id \<Rightarrow> outcome) \<Rightarrow> dependency_request list \<Rightarrow> (task_spec \<times> task_state) list \<Rightarrow> workspace
       \<Rightarrow> engine_error + engine" where
  "start_engine h updated requests records w =
     recover_tasks updated records
       \<lparr>en_head = build_snapshot h w None, en_tasks = [], en_tokens = (\<lambda>_. None), en_nonces = (\<lambda>_. None),
        en_requests = fold (\<lambda>r. bm_insert (dq_id r) r) requests [], en_events = []\<rparr>"

end
