(* ===== verification/Design_Occ.thy ===== *)
theory Design_Occ
  imports Design_Protocol
begin

text \<open>
  What the engine guarantees. The commit worker and the tasks run concurrently: a step is one
  operation of a task or its supervisor, or one part of the worker's handling of a submission.
  The invariants of the reachable states give the guarantees of optimistic concurrency control.
\<close>

section \<open>Read sets agree with the pinned snapshot\<close>

definition pinned :: "content_hash \<Rightarrow> row_writer \<Rightarrow> snapshot \<Rightarrow> read_set \<Rightarrow> bool" where
  "pinned h render s rs \<longleftrightarrow>
     (\<forall>(k, ob) \<in> set (rs_symbols rs).
        snapshot_fingerprint s k = Some (so_fingerprint ob) \<and> snapshot_version s k = Some (so_version ob))
     \<and> (\<forall>ob \<in> snd ` set (rs_queries rs). tracked_fingerprint h render s (qo_query ob) = qo_fingerprint ob)"

definition keeps_pinned :: "content_hash \<Rightarrow> row_writer \<Rightarrow> snapshot \<Rightarrow> (read_set \<Rightarrow> read_set) \<Rightarrow> bool" where
  "keeps_pinned h render s f \<longleftrightarrow> (\<forall>rs. pinned h render s rs \<longrightarrow> pinned h render s (f rs))"

lemma bm_insert_subset: "set (bm_insert k v m) \<subseteq> insert (k, v) (set m)"
  by (induction k v m rule: bm_insert.induct) auto

lemma pinned_symbol:
  assumes "pinned h render s rs" "graph_node (sp_graph s) k = Some n"
  shows "pinned h render s (record_symbol k (observation_of n) rs)"
proof -
  have "snapshot_fingerprint s k = Some (so_fingerprint (observation_of n))"
    "snapshot_version s k = Some (so_version (observation_of n))"
    using assms(2) by (simp_all add: snapshot_fingerprint_def graph_fingerprint_def snapshot_version_def observation_of_def)
  with assms(1) bm_insert_subset [of k "observation_of n" "rs_symbols rs"] show ?thesis
    unfolding pinned_def record_simps by blast
qed

lemma pinned_query:
  assumes "pinned h render s rs" "tracked_fingerprint h render s (qo_query ob) = qo_fingerprint ob"
  shows "pinned h render s (record_query h ob rs)"
  using assms bm_insert_subset [of "query_key h (qo_query ob)" ob "rs_queries rs"]
  unfolding pinned_def record_simps by fastforce

lemma pinned_empty: "pinned h render s read_set_empty"
  by (simp add: pinned_def)

named_theorems pinned_intros \<open>recordings that keep a read set pinned\<close>

lemma keeps_pinned_id [pinned_intros]: "keeps_pinned h render s (\<lambda>rs. rs)"
  by (simp add: keeps_pinned_def)

lemma keeps_pinned_comp:
  "keeps_pinned h render s f \<Longrightarrow> keeps_pinned h render s g \<Longrightarrow> keeps_pinned h render s (\<lambda>rs. f (g rs))"
  by (simp add: keeps_pinned_def)

lemma keeps_pinned_fold:
  "(\<And>x. x \<in> set xs \<Longrightarrow> keeps_pinned h render s (f x)) \<Longrightarrow> keeps_pinned h render s (fold f xs)"
proof (induction xs)
  case (Cons x xs)
  then have "keeps_pinned h render s (fold f xs)" "keeps_pinned h render s (f x)" by simp_all
  from keeps_pinned_comp [OF this] show ?case by (simp add: comp_def)
qed (simp add: keeps_pinned_def)

lemma keeps_pinned_observe [pinned_intros]: "keeps_pinned h render s (observe s k)"
  by (auto simp: keeps_pinned_def observe_def pinned_symbol split: option.split)

lemma keeps_pinned_observe_all [pinned_intros]: "keeps_pinned h render s (observe_all s ks)"
  unfolding observe_all_def by (rule keeps_pinned_fold) (rule keeps_pinned_observe)

lemma keeps_pinned_operation [pinned_intros]: "keeps_pinned h render s (record_operation_inputs s opn)"
  unfolding record_operation_inputs_def by (rule keeps_pinned_observe_all)

lemma keeps_pinned_summary [pinned_intros]: "keeps_pinned h render s (record_summary opn ob)"
  by (simp add: keeps_pinned_def pinned_def)

lemma keeps_pinned_rerun [pinned_intros]: "keeps_pinned h render s (record_rerun h render s q)"
  by (simp add: keeps_pinned_def record_rerun_def pinned_query)

lemma keeps_pinned_slice [pinned_intros]: "keeps_pinned h render s (record_slice_summary opn c)"
  by (cases c) (simp_all add: keeps_pinned_def pinned_def)

section \<open>Reads only record\<close>

text \<open>
  What any read does to the engine: nothing, or it extends the read set of one active task with
  facts of the task's own snapshot.
\<close>

definition only_reads :: "content_hash \<Rightarrow> row_writer \<Rightarrow> task_id \<Rightarrow> engine \<Rightarrow> engine \<Rightarrow> bool" where
  "only_reads h render t e e' \<longleftrightarrow>
     e' = e
     \<or> (\<exists>en rs. active_entry e t = Inr en \<and> e' = put_entry t (en\<lparr>te_read_set := rs\<rparr>) e
          \<and> (pinned h render (te_snapshot en) (te_read_set en) \<longrightarrow> pinned h render (te_snapshot en) rs))"

lemma only_reads_same [simp]: "only_reads h render t e e"
  by (simp add: only_reads_def)

lemma active_entryD: "active_entry e t = Inr en \<Longrightarrow> bm_get (en_tasks e) t = Some en \<and> is_active (te_state en)"
  by (auto simp: active_entry_def find_entry_def split: option.splits if_splits)

lemma record_reads_active:
  "active_entry e t = Inr en \<Longrightarrow> record_reads t f e = put_entry t (en\<lparr>te_read_set := f (te_read_set en)\<rparr>) e"
  by (auto simp: record_reads_def change_entry_def dest: active_entryD)

lemma only_reads_record:
  "active_entry e t = Inr en \<Longrightarrow> keeps_pinned h render (te_snapshot en) f \<Longrightarrow> only_reads h render t e (record_reads t f e)"
  by (auto simp: only_reads_def record_reads_active keeps_pinned_def)

lemma read_operation_only_reads: "only_reads h render t e (snd (read_operation hub t opn mode e))"
  by (auto simp: read_operation_def split: sum.split option.split
      intro!: only_reads_record keeps_pinned_comp [OF keeps_pinned_observe_all keeps_pinned_slice])

lemma read_node_only_reads: "only_reads h render t e (snd (read_node h t k e))"
  by (auto simp: read_node_def keeps_pinned_def pinned_symbol split: sum.split option.split intro!: only_reads_record)

lemma read_symbol_only_reads: "only_reads h render t e (snd (read_symbol h hub t k e))"
proof (cases k)
  case (KOperationSummary opn)
  then show ?thesis
    using read_operation_only_reads [of h render t e hub opn ModeProofSummary]
    by (auto simp: read_symbol_def split: sum.split prod.split)
qed (simp_all add: read_symbol_def read_node_only_reads)

lemma graph_query_only_reads: "only_reads h render t e (snd (graph_query h render t q e))"
  by (auto simp: graph_query_def Let_def keeps_pinned_def tracked_fingerprint_def
      split: sum.split intro!: only_reads_record pinned_query)

lemma search_only_reads: "only_reads h render t e (snd (search_symbols h t p e))"
  by (auto simp: search_symbols_def Let_def keeps_pinned_def tracked_fingerprint_def
      split: sum.split intro!: only_reads_record pinned_query)

lemma summary_only_reads: "only_reads h render t e (snd (record_summary_observation t opn ob e))"
  by (auto simp: record_summary_observation_def keeps_pinned_summary split: sum.split intro!: only_reads_record)

lemma report_only_reads: "only_reads h render t e (snd (requirement_report hub t opn family incl e))"
proof -
  have state: "only_reads h render t e (snd (report_state t (te_snapshot en) st opn family incl e))"
    if "active_entry e t = Inr en" for en st
  proof -
    have "keeps_pinned h render s (record_reported s a i)" for s a i
      unfolding record_reported_def Let_def
      by (cases "bm_get (an_summaries a) i") (simp_all add: keeps_pinned_operation keeps_pinned_comp keeps_pinned_summary)
    then show ?thesis
      using that by (auto simp: report_state_def Let_def split: analysis_state.split option.split intro!: only_reads_record)
  qed
  then show ?thesis
    by (auto simp: requirement_report_def Let_def split: sum.split option.split)
qed

lemma bundle_callee_pinned:
  "pinned h render s (ba_reads b) \<Longrightarrow> pinned h render s (ba_reads (bundle_callee ready s target b))"
  using keeps_pinned_operation [of h render s target] keeps_pinned_summary [of h render s target]
  by (auto simp: bundle_callee_def keeps_pinned_def split: option.split)

lemma bundle_callees_pinned:
  "pinned h render s (ba_reads b) \<Longrightarrow> pinned h render s (ba_reads (fold (bundle_callee ready s) ts b))"
  by (induction ts arbitrary: b) (simp_all add: bundle_callee_pinned)

lemma bundle_focus_pinned:
  assumes "pinned h render s (ba_reads b)"
  shows "pinned h render s (ba_reads (snd (bundle_focus ready s item b)))"
proof -
  have "pinned h render s (record_operation_inputs s opn (ba_reads b))" for opn
    using assms keeps_pinned_operation [of h render s opn] by (simp add: keeps_pinned_def)
  with assms show ?thesis
    by (cases item) (simp add: bundle_focus_def Let_def bundle_callees_pinned split: option.split)
qed

lemma bundle_loop_pinned:
  "pinned h render s (ba_reads b) \<Longrightarrow> pinned h render s (ba_reads (snd (bundle_loop ready s items b)))"
proof (induction items arbitrary: b)
  case (Cons item items)
  then show ?case
    using bundle_focus_pinned [OF Cons.prems, of ready item]
    by (cases "bundle_focus ready s item b") (simp split: option.split)
qed simp

lemma context_bundle_only_reads: "only_reads h render t e (snd (context_bundle h hub t spec e))"
proof (cases "active_entry e t")
  case (Inr en)
  let ?s = "te_snapshot en"
  let ?r = "bundle_loop (ready_analysis hub (sp_revision ?s)) ?s (bundle_items spec)
      \<lparr>ba_shared = bs_include spec, ba_summaries = [], ba_operation = None, ba_peers = [],
       ba_evidence = [], ba_reads = te_read_set en\<rparr>"
  have p: "pinned h render ?s (ba_reads (snd ?r))" if "pinned h render ?s (te_read_set en)"
    by (rule bundle_loop_pinned) (simp add: that)
  have q: "pinned h render ?s (observe_all ?s ks (ba_reads (snd ?r)))" if "pinned h render ?s (te_read_set en)" for ks
    using p [OF that] keeps_pinned_observe_all [of h render ?s ks] by (simp add: keeps_pinned_def)
  show ?thesis
  proof (cases ?r)
    case (Pair err b)
    with Inr p q show ?thesis
      by (cases err) (auto simp: context_bundle_def Let_def only_reads_def record_reads_active)
  qed
qed (simp add: context_bundle_def)

lemma candidate_only_reads: "only_reads h render t e (snd (evaluate_candidate h render judge t p roots e))"
proof -
  have "keeps_pinned h render s (record_judged h render s p jf)" for s jf
  proof -
    have "keeps_pinned h render s (fold (\<lambda>opn. if bm_contains (ws_operations (sp_workspace s)) opn
        then record_operation_inputs s opn else id) (jf_operations jf))"
      by (rule keeps_pinned_fold) (auto simp: keeps_pinned_operation keeps_pinned_id id_def)
    moreover have "keeps_pinned h render s (fold (\<lambda>(dm, obj). record_rerun h render s (GqWriters dm obj None)
        \<circ> record_rerun h render s (GqReaders dm obj None)) (jf_objects jf))"
      by (rule keeps_pinned_fold)
         (auto simp: comp_def intro!: keeps_pinned_comp [OF keeps_pinned_rerun keeps_pinned_rerun])
    ultimately show ?thesis
      using keeps_pinned_observe_all [of h render s "external_references p"]
      by (simp add: keeps_pinned_def record_judged_def Let_def)
  qed
  then show ?thesis
    by (auto simp: evaluate_candidate_def split: sum.split option.split prod.split intro!: only_reads_record)
qed

end
