(* ===== verification/Design_Steps.thy ===== *)
theory Design_Steps
  imports Design_Occ
begin

text \<open>
  The engine as a system of concurrent steps, and the abstract protocol it implements.

  \<open>engine_step\<close> has one rule per operation and per part of the worker's handling of a submission,
  so that operations of tasks may fall between the parts, as they do in the code: the worker's
  parts run one after the other under the writer lock, the tasks' operations take no such lock.
  \<open>protocol_step\<close> is the protocol without tokens, events and stores: the head, the tasks, the
  nonces and the phase of the worker. Each engine step is a sequence of protocol steps.

  Ids and tokens are drawn at random in the code; a rule that draws one requires it to be new.
\<close>

section \<open>Concurrent steps of the engine\<close>

text \<open>
  The worker is idle, has opened a submission, has found its context valid, or has the result to
  settle. \<open>Checked\<close> also remembers the task as it was judged, which only the proofs use.
\<close>

datatype phase =
    Idle
  | Judging commit_request
  | Checked commit_request task_entry
  | Settling commit_request "commit_rejection + commit_receipt"

definition finishing :: "task_state \<Rightarrow> bool" where
  "finishing st \<longleftrightarrow> st = TaskCancelled \<or> st = TaskFailed \<or> concluding st"

inductive task_step ::
    "content_hash \<Rightarrow> row_writer \<Rightarrow> engine \<Rightarrow> engine \<Rightarrow> bool" for h render where
  step_create:
    "bm_get (en_tasks e) fresh = None \<Longrightarrow> en_tokens e token = None \<Longrightarrow>
       task_step h render e (snd (create_task_with_gate fresh token stored p gt e))"
| step_session:
    "bm_get (en_tasks e) fresh = None \<Longrightarrow> en_tokens e token = None \<Longrightarrow>
       task_step h render e (snd (create_session fresh token stored scope objective e))"
| step_read_symbol: "task_step h render e (snd (read_symbol h hub t k e))"
| step_read_operation: "task_step h render e (snd (read_operation hub t opn mode e))"
| step_query: "task_step h render e (snd (graph_query h render t q e))"
| step_search: "task_step h render e (snd (search_symbols h t p e))"
| step_report: "task_step h render e (snd (requirement_report hub t opn family incl e))"
| step_bundle: "task_step h render e (snd (context_bundle h hub t spec e))"
| step_candidate: "task_step h render e (snd (evaluate_candidate h render
     (judge :: workspace \<Rightarrow> spec_patch \<Rightarrow> (id \<times> id) list \<Rightarrow> unit \<times> judged_footprint) t p roots e))"
| step_summary: "task_step h render e (snd (record_summary_observation t opn ob e))"
| step_file: "task_step h render e (snd (file_dependency_request fresh saved t k change reason evidence e))"
| step_resolve: "task_step h render e (snd (resolve_dependency_request saved i resolution e))"
| step_finish: "finishing st \<Longrightarrow> task_step h render e (snd (finish_task stored t st e))"

definition fresh_successors :: "(task_id \<Rightarrow> task_id \<times> outcome) \<Rightarrow> engine \<Rightarrow> bool" where
  "fresh_successors fresh e \<longleftrightarrow>
     inj_on (\<lambda>t. fst (fresh t)) (dom (bm_get (en_tasks e)))
     \<and> (\<forall>t \<in> dom (bm_get (en_tasks e)). bm_get (en_tasks e) (fst (fresh t)) = None)"

definition disk_ordered :: "disk_world \<Rightarrow> bool" where
  "disk_ordered dw \<longleftrightarrow> (case dw_change dw of Inr (Some w) \<Rightarrow> workspace_wf w | _ \<Rightarrow> True)"

inductive engine_step ::
    "content_hash \<Rightarrow> row_writer \<Rightarrow> gate \<Rightarrow> engine \<times> phase \<Rightarrow> engine \<times> phase \<Rightarrow> bool"
  for h render g where
  step_task: "task_step h render e e' \<Longrightarrow> engine_step h render g (e, ph) (e', ph)"
| step_refresh:
    "bm_get (en_tasks e) fresh = None \<Longrightarrow>
       engine_step h render g (e, Idle) (snd (refresh_session fresh stored t e), Idle)"
| step_adopt:
    "disk_ordered dw \<Longrightarrow> fresh_successors (dw_successors dw) e \<Longrightarrow>
       engine_step h render g (e, Idle) (snd (adopt_disk_change h render dw e), Idle)"
| step_reply: "open_commit rq e = (Some reply, e') \<Longrightarrow> engine_step h render g (e, Idle) (e', Idle)"
| step_open: "open_commit rq e = (None, e') \<Longrightarrow> engine_step h render g (e, Idle) (e', Judging rq)"
| step_refuse:
    "bm_get (en_tasks e) (cr_task rq) = Some en \<Longrightarrow> judge_context h render (en_head e) en rq = Some r \<Longrightarrow>
       engine_step h render g (e, Judging rq) (e, Settling rq (Inl r))"
| step_check:
    "bm_get (en_tasks e) (cr_task rq) = Some en \<Longrightarrow> judge_context h render (en_head e) en rq = None \<Longrightarrow>
       engine_step h render g (e, Judging rq) (e, Checked rq en)"
| step_commit:
    "bm_get (en_tasks e) (cr_task rq) = Some en \<Longrightarrow>
       commit_candidate h render g persisted rq (te_read_set en) e = (result, e') \<Longrightarrow>
       engine_step h render g (e, Checked rq en0) (e', Settling rq result)"
| step_settle:
    "bm_get (en_tasks e) fresh = None \<Longrightarrow>
       engine_step h render g (e, Settling rq result) (settle_commit fresh stored rq result e, Idle)"

inductive reachable :: "content_hash \<Rightarrow> row_writer \<Rightarrow> gate \<Rightarrow> engine \<times> phase \<Rightarrow> bool" for h render g where
  reachable_start:
    "workspace_wf w \<Longrightarrow> start_engine h updated requests records w = Inr e \<Longrightarrow> reachable h render g (e, Idle)"
| reachable_step: "reachable h render g s \<Longrightarrow> engine_step h render g s s' \<Longrightarrow> reachable h render g s'"

section \<open>The abstract protocol\<close>

record protocol =
  pr_head :: snapshot
  pr_tasks :: "task_id \<Rightarrow> task_entry option"
  pr_nonces :: "task_id \<times> uuid \<Rightarrow> revision option"
  pr_phase :: phase

definition abstraction :: "engine \<times> phase \<Rightarrow> protocol" where
  "abstraction s =
     \<lparr>pr_head = en_head (fst s), pr_tasks = bm_get (en_tasks (fst s)), pr_nonces = en_nonces (fst s),
      pr_phase = snd s\<rparr>"

text \<open>What the sweep after a new head makes of one task.\<close>

definition swept ::
    "content_hash \<Rightarrow> row_writer \<Rightarrow> task_id option \<Rightarrow> symbol_key list \<Rightarrow> snapshot \<Rightarrow> task_id \<Rightarrow> task_entry \<Rightarrow> task_entry" where
  "swept h render committing changed head t en =
     (let causes = stale_causes h render (te_read_set en) changed head
      in if committing = Some t \<or> interactive en \<or> te_state en \<noteq> TaskRunning \<or> causes = [] then en
         else en\<lparr>te_state := TaskInvalidated,
                 te_invalidation := Some \<lparr>in_causes = causes, in_rejected_patch = None\<rparr>\<rparr>)"

definition with_head ::
    "content_hash \<Rightarrow> row_writer \<Rightarrow> task_id option \<Rightarrow> snapshot \<Rightarrow> protocol \<Rightarrow> protocol" where
  "with_head h render committing s p =
     p\<lparr>pr_head := s,
       pr_tasks := \<lambda>t. map_option (swept h render committing (changed_symbols (pr_head p) s) s t) (pr_tasks p t)\<rparr>"

definition set_task :: "task_id \<Rightarrow> task_entry \<Rightarrow> protocol \<Rightarrow> protocol" where
  "set_task t en p = p\<lparr>pr_tasks := (pr_tasks p)(t \<mapsto> en)\<rparr>"

text \<open>The entry of the committing task once the result is settled.\<close>

definition settled_entry :: "commit_request \<Rightarrow> commit_rejection + commit_receipt \<Rightarrow> task_entry \<Rightarrow> task_entry" where
  "settled_entry rq result en =
     (case result of
        Inr receipt \<Rightarrow> en\<lparr>te_state := TaskCommitted\<rparr>
      | Inl r \<Rightarrow>
          if is_stale_context r \<and> \<not> interactive en
          then en\<lparr>te_state := TaskInvalidated,
                  te_invalidation := Some \<lparr>in_causes = rejection_causes r, in_rejected_patch = Some (cr_patch rq)\<rparr>\<rparr>
          else en\<lparr>te_state := TaskRunning\<rparr>)"

inductive protocol_step :: "content_hash \<Rightarrow> row_writer \<Rightarrow> gate \<Rightarrow> protocol \<Rightarrow> protocol \<Rightarrow> bool" for h render g where
  pr_new:
    "pr_tasks p t = None \<Longrightarrow> tk_id spec = t \<Longrightarrow>
       protocol_step h render g p (set_task t (new_entry spec (pr_head p) token) p)"
| pr_read:
    "pr_tasks p t = Some en \<Longrightarrow> is_active (te_state en) \<Longrightarrow>
       (pinned h render (te_snapshot en) (te_read_set en) \<Longrightarrow> pinned h render (te_snapshot en) rs) \<Longrightarrow>
       protocol_step h render g p (set_task t (en\<lparr>te_read_set := rs\<rparr>) p)"
| pr_finish:
    "pr_tasks p t = Some en \<Longrightarrow> is_active (te_state en) \<or> te_state en = TaskCommitted \<Longrightarrow> finishing st \<Longrightarrow>
       protocol_step h render g p (set_task t (en\<lparr>te_state := st\<rparr>) p)"
| pr_retire:
    "pr_phase p = Idle \<Longrightarrow> pr_tasks p t = Some en \<Longrightarrow> interactive en \<Longrightarrow> te_state en = TaskRunning \<Longrightarrow>
       protocol_step h render g p (set_task t (en\<lparr>te_state := TaskInvalidated\<rparr>) p)"
| pr_adopt:
    "pr_phase p = Idle \<Longrightarrow> workspace_wf w \<Longrightarrow>
       s = build_snapshot h (w\<lparr>ws_revision := sp_revision (pr_head p) + 1\<rparr>) (Some (sp_graph (pr_head p))) \<Longrightarrow>
       protocol_step h render g p (with_head h render None s p)"
| pr_attach:
    "pr_phase p = Idle \<Longrightarrow> pr_tasks p t = Some en \<Longrightarrow> te_state en = TaskInvalidated \<Longrightarrow>
       protocol_step h render g p (set_task t (attach_patch patch en) p)"
| pr_open:
    "pr_phase p = Idle \<Longrightarrow> pr_tasks p (cr_task rq) = Some en \<Longrightarrow> te_state en = TaskRunning \<Longrightarrow>
       pr_nonces p (cr_task rq, cr_client_nonce rq) = None \<Longrightarrow>
       protocol_step h render g p ((set_task (cr_task rq) (en\<lparr>te_state := TaskCommitting\<rparr>) p)\<lparr>pr_phase := Judging rq\<rparr>)"
| pr_refuse:
    "pr_phase p = Judging rq \<Longrightarrow> protocol_step h render g p (p\<lparr>pr_phase := Settling rq (Inl r)\<rparr>)"
| pr_check:
    "pr_phase p = Judging rq \<Longrightarrow> pr_tasks p (cr_task rq) = Some en \<Longrightarrow>
       judge_context h render (pr_head p) en rq = None \<Longrightarrow>
       protocol_step h render g p (p\<lparr>pr_phase := Checked rq en\<rparr>)"
| pr_reject:
    "pr_phase p = Checked rq en \<Longrightarrow> protocol_step h render g p (p\<lparr>pr_phase := Settling rq (Inl r)\<rparr>)"
| pr_commit:
    "pr_phase p = Checked rq en0 \<Longrightarrow> pr_tasks p (cr_task rq) = Some en \<Longrightarrow>
       judge_references (te_read_set en) (cr_patch rq) = None \<Longrightarrow>
       candidate h g (pr_head p) (cr_patch rq) = Inr s \<Longrightarrow>
       protocol_step h render g p
         ((with_head h render (Some (cr_task rq)) s p)
            \<lparr>pr_nonces := (pr_nonces p)((cr_task rq, cr_client_nonce rq) \<mapsto> sp_revision s),
             pr_phase := Settling rq (Inr \<lparr>ct_revision = sp_revision s, ct_replayed = False\<rparr>)\<rparr>)"
| pr_settle:
    "pr_phase p = Settling rq result \<Longrightarrow> pr_tasks p (cr_task rq) = Some en \<Longrightarrow>
       protocol_step h render g p ((set_task (cr_task rq) (settled_entry rq result en) p)\<lparr>pr_phase := Idle\<rparr>)"

abbreviation protocol_steps :: "content_hash \<Rightarrow> row_writer \<Rightarrow> gate \<Rightarrow> protocol \<Rightarrow> protocol \<Rightarrow> bool" where
  "protocol_steps h render g \<equiv> (protocol_step h render g)\<^sup>*\<^sup>*"

section \<open>The engine implements the protocol\<close>

lemma engine_simps [simp]:
  "en_head (emit ev e) = en_head e" "en_tasks (emit ev e) = en_tasks e" "en_nonces (emit ev e) = en_nonces e"
  "en_tokens (emit ev e) = en_tokens e"
  "en_head (put_entry t en e) = en_head e" "en_nonces (put_entry t en e) = en_nonces e"
  "en_tokens (put_entry t en e) = en_tokens e"
  "en_tasks (put_entry t en e) = bm_insert t en (en_tasks e)"
  by (simp_all add: emit_def put_entry_def)

lemma bm_get_insert_fun: "bm_get (bm_insert k v m) = (bm_get m)(k \<mapsto> v)"
  by (rule ext) simp

lemma abstraction_simps [simp]:
  "pr_head (abstraction (e, ph)) = en_head e" "pr_tasks (abstraction (e, ph)) = bm_get (en_tasks e)"
  "pr_nonces (abstraction (e, ph)) = en_nonces e" "pr_phase (abstraction (e, ph)) = ph"
  by (simp_all add: abstraction_def)

text \<open>Tokens, events and requests are invisible.\<close>

lemma abstraction_cong:
  "en_head e = en_head e' \<Longrightarrow> bm_get (en_tasks e) = bm_get (en_tasks e') \<Longrightarrow> en_nonces e = en_nonces e' \<Longrightarrow>
     abstraction (e, ph) = abstraction (e', ph)"
  by (simp add: abstraction_def)

lemma abstraction_put [simp]: "abstraction (put_entry t en e, ph) = set_task t en (abstraction (e, ph))"
  by (simp add: abstraction_def set_task_def bm_get_insert_fun)

lemma abstraction_emit [simp]: "abstraction (emit ev e, ph) = abstraction (e, ph)"
  by (rule abstraction_cong) simp_all

lemma abstraction_fields [simp]:
  "abstraction (e\<lparr>en_tokens := x\<rparr>, ph) = abstraction (e, ph)"
  "abstraction (e\<lparr>en_requests := y\<rparr>, ph) = abstraction (e, ph)"
  by (rule abstraction_cong; simp)+

lemma abstraction_none_step: "protocol_steps h render g p p"
  by simp

text \<open>The sweep, task by task.\<close>

lemma swept_idem [simp]:
  "swept h render c ch s t (swept h render c ch s t en) = swept h render c ch s t en"
  by (simp add: swept_def Let_def)

lemma invalidate_task_frame [simp]:
  "en_head (invalidate_task h render c ch s t e) = en_head e"
  "en_nonces (invalidate_task h render c ch s t e) = en_nonces e"
  "en_tokens (invalidate_task h render c ch s t e) = en_tokens e"
  by (simp_all add: invalidate_task_def Let_def split: option.split)

lemma invalidate_task_lookup:
  "bm_get (en_tasks (invalidate_task h render c ch s t e))
     = (bm_get (en_tasks e))(t := map_option (swept h render c ch s t) (bm_get (en_tasks e) t))"
  by (cases "bm_get (en_tasks e) t") (auto simp: invalidate_task_def swept_def Let_def fun_eq_iff)

lemma invalidate_tasks_lookup:
  "bm_get (en_tasks (fold (invalidate_task h render c ch s) ts e)) t
     = (if t \<in> set ts then map_option (swept h render c ch s t) (bm_get (en_tasks e) t) else bm_get (en_tasks e) t)"
  by (induction ts arbitrary: e) (auto simp: invalidate_task_lookup option.map_comp comp_def)

lemma invalidate_tasks_frame [simp]:
  "en_head (fold (invalidate_task h render c ch s) ts e) = en_head e"
  "en_nonces (fold (invalidate_task h render c ch s) ts e) = en_nonces e"
  "en_tokens (fold (invalidate_task h render c ch s) ts e) = en_tokens e"
  by (induction ts arbitrary: e) simp_all

lemma sweep_lookup:
  "bm_get (en_tasks (invalidate_stale_tasks h render c ch s e)) t
     = map_option (swept h render c ch s t) (bm_get (en_tasks e) t)"
proof (cases "t \<in> set (bm_keys (en_tasks e))")
  case False
  then have "bm_get (en_tasks e) t = None" by (simp add: map_of_eq_None_iff)
  then show ?thesis by (simp add: invalidate_stale_tasks_def invalidate_tasks_lookup)
qed (simp add: invalidate_stale_tasks_def invalidate_tasks_lookup)

lemma sweep_frame [simp]:
  "en_head (invalidate_stale_tasks h render c ch s e) = en_head e"
  "en_nonces (invalidate_stale_tasks h render c ch s e) = en_nonces e"
  "en_tokens (invalidate_stale_tasks h render c ch s e) = en_tokens e"
  by (simp_all add: invalidate_stale_tasks_def)

lemma publish_head_frame [simp]:
  "en_head (publish_head h render c s e) = s"
  "en_nonces (publish_head h render c s e) = en_nonces e"
  "en_tokens (publish_head h render c s e) = en_tokens e"
  by (simp_all add: publish_head_def)

lemma publish_head_lookup:
  "bm_get (en_tasks (publish_head h render c s e)) t
     = map_option (swept h render c (changed_symbols (en_head e) s) s t) (bm_get (en_tasks e) t)"
  by (simp add: publish_head_def sweep_lookup)

lemma abstraction_publish [simp]:
  "abstraction (publish_head h render c s e, ph) = with_head h render c s (abstraction (e, ph))"
  by (simp add: abstraction_def with_head_def publish_head_lookup fun_eq_iff)

text \<open>Installing a task and its successor.\<close>

lemma install_simulated:
  assumes "bm_get (en_tasks e) (tk_id spec) = None"
  shows "protocol_steps h render g (abstraction (e, ph)) (abstraction (snd (install_task stored spec token e), ph))"
proof (cases stored)
  case None
  have "protocol_step h render g (abstraction (e, ph))
      (set_task (tk_id spec) (new_entry spec (pr_head (abstraction (e, ph))) token) (abstraction (e, ph)))"
    by (rule pr_new) (simp_all add: assms)
  with None show ?thesis by (simp add: install_task_def r_into_rtranclp)
qed (simp add: install_task_def)

lemma spawn_simulated:
  assumes "bm_get (en_tasks e) fresh = None"
  shows "protocol_steps h render g (abstraction (e, ph))
    (abstraction (spawn_interactive_successor fresh stored spec token e, ph))"
  using install_simulated [of e "spec\<lparr>tk_id := fresh, tk_snapshot_revision := 0\<rparr>" h render g ph stored token] assms
  by (auto simp: spawn_interactive_successor_def split: prod.split sum.split)

lemma create_simulated:
  assumes "bm_get (en_tasks e) fresh = None"
  shows "protocol_steps h render g (abstraction (e, ph))
      (abstraction (snd (create_task_with_gate fresh token stored p gt e), ph))"
    and "protocol_steps h render g (abstraction (e, ph))
      (abstraction (snd (create_session fresh token stored scope objective e), ph))"
  unfolding create_task_with_gate_def create_session_def
  using assms
  by (subst abstraction_fields(1) [symmetric, where x = "token_issue token fresh (en_tokens e)"],
      intro install_simulated, simp)+

lemma only_reads_simulated:
  assumes "only_reads h render t e e'"
  shows "protocol_steps h render g (abstraction (e, ph)) (abstraction (e', ph))"
proof -
  have "protocol_step h render g (abstraction (e, ph)) (abstraction (e', ph))" if "e' \<noteq> e"
  proof -
    obtain en rs where en: "active_entry e t = Inr en" "e' = put_entry t (en\<lparr>te_read_set := rs\<rparr>) e"
      "pinned h render (te_snapshot en) (te_read_set en) \<longrightarrow> pinned h render (te_snapshot en) rs"
      using assms \<open>e' \<noteq> e\<close> by (auto simp: only_reads_def)
    from active_entryD [OF en(1)] en(3) show ?thesis
      unfolding en(2) abstraction_put by (intro pr_read) simp_all
  qed
  then show ?thesis by (cases "e' = e") auto
qed

lemma finish_simulated:
  assumes "finishing st"
  shows "protocol_steps h render g (abstraction (e, ph)) (abstraction (snd (finish_task stored t st e), ph))"
proof (cases "bm_get (en_tasks e) t")
  case (Some en)
  show ?thesis
  proof (cases "is_active (te_state en) \<or> te_state en = TaskCommitted")
    case True
    have "protocol_step h render g (abstraction (e, ph)) (set_task t (en\<lparr>te_state := st\<rparr>) (abstraction (e, ph)))"
      by (rule pr_finish) (use Some True assms in simp_all)
    moreover have "abstraction (snd (finish_task stored t st e), ph)
        = set_task t (en\<lparr>te_state := st\<rparr>) (abstraction (e, ph))"
      using Some True by (auto simp: finish_task_def find_entry_def change_entry_def Let_def split: option.split)
    ultimately show ?thesis by (simp add: r_into_rtranclp)
  qed (use Some in \<open>simp add: finish_task_def find_entry_def\<close>)
qed (simp add: finish_task_def find_entry_def)

lemma task_step_simulated:
  assumes "task_step h render e e'"
  shows "protocol_steps h render g (abstraction (e, ph)) (abstraction (e', ph))"
  using assms
proof cases
  case step_create
  then show ?thesis by (simp add: create_simulated)
next
  case step_session
  then show ?thesis by (simp add: create_simulated)
next
  case (step_finish st stored t)
  then show ?thesis by (simp add: finish_simulated)
next
  case (step_file fresh saved t k change reason evidence)
  then show ?thesis
    by (auto simp: file_dependency_request_def record_dependency_request_def Let_def split: sum.split option.split)
next
  case (step_resolve saved i resolution)
  then show ?thesis
    by (auto simp: resolve_dependency_request_def record_dependency_request_def split: option.split)
qed (simp_all add: only_reads_simulated [OF read_symbol_only_reads] only_reads_simulated [OF read_operation_only_reads]
    only_reads_simulated [OF graph_query_only_reads] only_reads_simulated [OF search_only_reads]
    only_reads_simulated [OF report_only_reads] only_reads_simulated [OF context_bundle_only_reads]
    only_reads_simulated [OF candidate_only_reads] only_reads_simulated [OF summary_only_reads])

end
