(* ===== verification/Design_Invariants.thy ===== *)
theory Design_Invariants
  imports Design_Steps
begin

text \<open>
  The invariants of the protocol, kept by every protocol step, and the simulation of the worker's
  steps, which needs them.
\<close>

section \<open>A patch keeps the revision\<close>

lemma revision_discharge [simp]: "ws_revision (discharge w s st) = ws_revision w"
  by (simp add: discharge_def map_obligation_def split: option.split)

lemma revision_change_draft [simp]: "ws_revision (fst (change_draft w opn f)) = ws_revision w"
  by (simp add: change_draft_def split: option.split)

lemma revision_submission [simp]: "ws_revision (fst (apply_submission h opn s w)) = ws_revision w"
  by (simp add: apply_submission_def Let_def case_prod_unfold split: option.split)

lemma revision_submissions [simp]: "ws_revision (fst (apply_submissions h opn ss w)) = ws_revision w"
  by (induction ss arbitrary: w) (simp_all add: case_prod_unfold Let_def)

lemma revision_proposals [simp]: "ws_revision (fst (apply_proposals h w opn ss)) = ws_revision w"
  by (simp add: apply_proposals_def case_prod_unfold Let_def recompute_draft_def split: option.split)

lemma revision_delete [simp]: "ws_revision (fst (apply_delete w k)) = ws_revision w"
  by (cases "(w, k)" rule: delete_symbol.cases) (simp_all add: apply_delete_def)

lemma revision_mutation [simp]: "ws_revision (fst (apply_mutation h w m)) = ws_revision w"
  by (cases m) simp_all

lemma revision_mutations [simp]: "ws_revision (fst (apply_mutations h w p)) = ws_revision w"
  by (induction p arbitrary: w) (simp_all add: case_prod_unfold Let_def)

definition snapshot_ok :: "content_hash \<Rightarrow> snapshot \<Rightarrow> bool" where
  "snapshot_ok h s \<longleftrightarrow> built_with h s \<and> workspace_wf (sp_workspace s)"

lemma candidateD:
  assumes "candidate h g s p = Inr s'"
  shows "s' = build_snapshot h (fst (apply_patch h g (candidate_workspace s) p)) (Some (sp_graph s))"
    and "snd (apply_patch h g (candidate_workspace s) p) = []"
    and "sp_revision s' = sp_revision s + 1"
    and "workspace_wf (sp_workspace s) \<Longrightarrow> snapshot_ok h s'"
proof -
  obtain w ds where ap: "apply_patch h g (candidate_workspace s) p = (w, ds)" by force
  with assms have ds: "ds = []" and s': "s' = build_snapshot h w (Some (sp_graph s))"
    by (auto simp: candidate_def split: if_splits)
  have w: "w = fst (apply_mutations h (candidate_workspace s) p)" using fst_apply_patch ap by (metis fst_conv)
  show "s' = build_snapshot h (fst (apply_patch h g (candidate_workspace s) p)) (Some (sp_graph s))"
    "snd (apply_patch h g (candidate_workspace s) p) = []"
    using ap ds s' by simp_all
  show "sp_revision s' = sp_revision s + 1"
    by (simp add: s' w candidate_workspace_def)
  show "snapshot_ok h s'" if "workspace_wf (sp_workspace s)"
  proof -
    have "workspace_wf (candidate_workspace s)" using that by (simp add: candidate_workspace_def workspace_wf_def)
    then have "workspace_wf w" unfolding w by (rule workspace_wf_mutations)
    then show ?thesis by (auto simp: snapshot_ok_def s' built_with_def)
  qed
qed

section \<open>The invariants\<close>

fun phase_request :: "phase \<Rightarrow> commit_request option" where
  "phase_request Idle = None"
| "phase_request (Judging rq) = Some rq"
| "phase_request (Checked rq en) = Some rq"
| "phase_request (Settling rq result) = Some rq"

definition entry_ok :: "content_hash \<Rightarrow> row_writer \<Rightarrow> protocol \<Rightarrow> task_id \<Rightarrow> task_entry \<Rightarrow> bool" where
  "entry_ok h render p t en \<longleftrightarrow>
     snapshot_ok h (te_snapshot en) \<and> pinned h render (te_snapshot en) (te_read_set en)
     \<and> tk_id (te_spec en) = t
     \<and> sp_revision (te_snapshot en) \<le> sp_revision (pr_head p)
     \<and> (sp_revision (te_snapshot en) = sp_revision (pr_head p) \<longrightarrow> te_snapshot en = pr_head p)
     \<and> (is_active (te_state en) \<longrightarrow> tk_snapshot_revision (te_spec en) = sp_revision (te_snapshot en))
     \<and> (te_state en = TaskCommitting \<longrightarrow> map_option cr_task (phase_request (pr_phase p)) = Some t)"

definition request_ok :: "protocol \<Rightarrow> commit_request \<Rightarrow> bool" where
  "request_ok p rq \<longleftrightarrow>
     (\<exists>en. pr_tasks p (cr_task rq) = Some en \<and> te_state en \<noteq> TaskInvalidated \<and> te_state en \<noteq> TaskRunning
        \<and> tk_snapshot_revision (te_spec en) = sp_revision (te_snapshot en))"

definition phase_ok :: "content_hash \<Rightarrow> row_writer \<Rightarrow> protocol \<Rightarrow> bool" where
  "phase_ok h render p \<longleftrightarrow>
     (case pr_phase p of
        Idle \<Rightarrow> True
      | Judging rq \<Rightarrow> request_ok p rq \<and> pr_nonces p (cr_task rq, cr_client_nonce rq) = None
      | Checked rq en0 \<Rightarrow>
          request_ok p rq \<and> pr_nonces p (cr_task rq, cr_client_nonce rq) = None
          \<and> judge_context h render (pr_head p) en0 rq = None
          \<and> pinned h render (te_snapshot en0) (te_read_set en0)
          \<and> map_option te_snapshot (pr_tasks p (cr_task rq)) = Some (te_snapshot en0)
          \<and> map_option te_spec (pr_tasks p (cr_task rq)) = Some (te_spec en0)
      | Settling rq result \<Rightarrow>
          request_ok p rq
          \<and> (case result of
               Inl r \<Rightarrow> True
             | Inr receipt \<Rightarrow> pr_nonces p (cr_task rq, cr_client_nonce rq) = Some (ct_revision receipt)))"

definition protocol_ok :: "content_hash \<Rightarrow> row_writer \<Rightarrow> protocol \<Rightarrow> bool" where
  "protocol_ok h render p \<longleftrightarrow>
     snapshot_ok h (pr_head p)
     \<and> (\<forall>t en. pr_tasks p t = Some en \<longrightarrow> entry_ok h render p t en)
     \<and> (\<forall>x r. pr_nonces p x = Some r \<longrightarrow> r \<le> sp_revision (pr_head p))
     \<and> phase_ok h render p"

lemma protocol_okD:
  assumes "protocol_ok h render p"
  shows "snapshot_ok h (pr_head p)" and "pr_tasks p t = Some en \<Longrightarrow> entry_ok h render p t en"
    and "pr_nonces p x = Some r \<Longrightarrow> r \<le> sp_revision (pr_head p)" and "phase_ok h render p"
  using assms unfolding protocol_ok_def by blast+

lemma set_task_simps [simp]:
  "pr_head (set_task t en p) = pr_head p" "pr_nonces (set_task t en p) = pr_nonces p"
  "pr_phase (set_task t en p) = pr_phase p" "pr_tasks (set_task t en p) = (pr_tasks p)(t \<mapsto> en)"
  by (simp_all add: set_task_def)

lemma with_head_simps [simp]:
  "pr_head (with_head h render c s p) = s" "pr_nonces (with_head h render c s p) = pr_nonces p"
  "pr_phase (with_head h render c s p) = pr_phase p"
  "pr_tasks (with_head h render c s p) t
     = map_option (swept h render c (changed_symbols (pr_head p) s) s t) (pr_tasks p t)"
  by (simp_all add: with_head_def)

lemma entry_ok_cong:
  "pr_head p = pr_head p' \<Longrightarrow> pr_phase p = pr_phase p' \<Longrightarrow> entry_ok h render p t en = entry_ok h render p' t en"
  by (simp add: entry_ok_def)

text \<open>Replacing the entry of one task, the worker's phase unchanged.\<close>

lemma set_task_ok:
  assumes ok: "protocol_ok h render p" and en': "entry_ok h render p t en'"
    and own: "\<And>rq. phase_request (pr_phase p) = Some rq \<Longrightarrow> cr_task rq = t \<Longrightarrow>
      \<exists>en. pr_tasks p t = Some en \<and> te_spec en' = te_spec en \<and> te_snapshot en' = te_snapshot en
        \<and> te_state en' \<noteq> TaskInvalidated \<and> te_state en' \<noteq> TaskRunning"
  shows "protocol_ok h render (set_task t en' p)"
proof -
  have entries: "entry_ok h render (set_task t en' p) u en" if "pr_tasks (set_task t en' p) u = Some en" for u en
  proof -
    have "entry_ok h render p u en"
      using that en' protocol_okD(2) [OF ok] by (auto split: if_splits)
    then show ?thesis by (simp add: entry_ok_def)
  qed
  have req: "request_ok (set_task t en' p) rq"
    "map_option te_snapshot (pr_tasks (set_task t en' p) (cr_task rq)) = map_option te_snapshot (pr_tasks p (cr_task rq))"
    "map_option te_spec (pr_tasks (set_task t en' p) (cr_task rq)) = map_option te_spec (pr_tasks p (cr_task rq))"
    if "phase_request (pr_phase p) = Some rq" "request_ok p rq" for rq
    using that own [OF that(1)] by (cases "cr_task rq = t"; force simp: request_ok_def)+
  have "phase_ok h render (set_task t en' p)"
    using protocol_okD(4) [OF ok] req by (cases "pr_phase p") (simp_all add: phase_ok_def split: sum.splits)
  with entries protocol_okD(1,3) [OF ok] show ?thesis unfolding protocol_ok_def by simp
qed

lemma new_entry_ok:
  "snapshot_ok h (pr_head p) \<Longrightarrow> tk_id spec = t \<Longrightarrow> entry_ok h render p t (new_entry spec (pr_head p) token)"
  by (simp add: entry_ok_def new_entry_def pinned_empty)

lemma entry_ok_state:
  "entry_ok h render p t en \<Longrightarrow> \<not> is_active st \<Longrightarrow> entry_ok h render p t (en\<lparr>te_state := st\<rparr>)"
  by (cases st) (auto simp: entry_ok_def)

lemma entry_ok_invalidation: "entry_ok h render p t (en\<lparr>te_invalidation := n\<rparr>) = entry_ok h render p t en"
  by (simp add: entry_ok_def)

lemma attach_patch_simps [simp]:
  "te_state (attach_patch q en) = te_state en" "te_spec (attach_patch q en) = te_spec en"
  "te_snapshot (attach_patch q en) = te_snapshot en" "te_read_set (attach_patch q en) = te_read_set en"
  "te_token (attach_patch q en) = te_token en"
  by (simp_all add: attach_patch_def split: option.split)

lemma finishing_inactive: "finishing st \<Longrightarrow> \<not> is_active st \<and> st \<noteq> TaskInvalidated \<and> st \<noteq> TaskRunning"
  by (auto simp: finishing_def concluding_def)

lemma swept_simps [simp]:
  "te_spec (swept h render c ch s t en) = te_spec en" "te_snapshot (swept h render c ch s t en) = te_snapshot en"
  "te_read_set (swept h render c ch s t en) = te_read_set en" "te_token (swept h render c ch s t en) = te_token en"
  by (simp_all add: swept_def Let_def)

lemma swept_state:
  "te_state (swept h render c ch s t en) = te_state en
   \<or> te_state en = TaskRunning \<and> te_state (swept h render c ch s t en) = TaskInvalidated"
  by (simp add: swept_def Let_def)

lemma swept_ok:
  assumes "entry_ok h render p t en" "sp_revision s = sp_revision (pr_head p) + 1" "pr_head q = s" "pr_phase q = pr_phase p"
  shows "entry_ok h render q t (swept h render c ch s t en)"
  using assms swept_state [of h render c ch s t en] by (auto simp: entry_ok_def)

section \<open>Every protocol step keeps them\<close>

lemma protocol_step_ok:
  assumes "protocol_step h render g p p'" "protocol_ok h render p"
  shows "protocol_ok h render p'"
  using assms
proof (induction rule: protocol_step.induct)
  case (pr_new p t spec token)
  have "phase_request (pr_phase p) = Some rq \<Longrightarrow> cr_task rq \<noteq> t" for rq
    using protocol_okD(4) [OF pr_new.prems] pr_new(1)
    by (cases "pr_phase p") (auto simp: phase_ok_def request_ok_def)
  then show ?case
    using pr_new protocol_okD(1) [OF pr_new.prems] by (intro set_task_ok new_entry_ok) auto
next
  case (pr_read p t en rs)
  have own: "te_state en \<noteq> TaskInvalidated \<and> te_state en \<noteq> TaskRunning"
    if "phase_request (pr_phase p) = Some rq" "cr_task rq = t" for rq
    using protocol_okD(4) [OF pr_read.prems] pr_read(1) that
    by (cases "pr_phase p") (auto simp: phase_ok_def request_ok_def)
  have "entry_ok h render p t (en\<lparr>te_read_set := rs\<rparr>)"
    using protocol_okD(2) [OF pr_read.prems pr_read(1)] pr_read(3) by (simp add: entry_ok_def)
  then show ?case
    using pr_read(1) own by (intro set_task_ok [OF pr_read.prems]) auto
next
  case (pr_finish p t en st)
  have "entry_ok h render p t (en\<lparr>te_state := st\<rparr>)"
    using entry_ok_state [OF protocol_okD(2) [OF pr_finish.prems pr_finish(1)]] finishing_inactive [OF pr_finish(3)] by simp
  then show ?case
    using pr_finish(1) finishing_inactive [OF pr_finish(3)] by (intro set_task_ok [OF pr_finish.prems]) auto
next
  case (pr_retire p t en)
  have "entry_ok h render p t (en\<lparr>te_state := TaskInvalidated\<rparr>)"
    using entry_ok_state [OF protocol_okD(2) [OF pr_retire.prems pr_retire(2)]] by simp
  then show ?case using pr_retire(1) by (intro set_task_ok [OF pr_retire.prems]) auto
next
  case (pr_attach p t en patch)
  have "entry_ok h render p t (attach_patch patch en)"
    using protocol_okD(2) [OF pr_attach.prems pr_attach(2)] by (simp add: entry_ok_def)
  then show ?case using pr_attach(1) by (intro set_task_ok [OF pr_attach.prems]) auto
next
  case (pr_adopt p w s)
  note okd = protocol_okD [OF pr_adopt.prems]
  have rev: "sp_revision s = sp_revision (pr_head p) + 1" and ok: "snapshot_ok h s"
    using pr_adopt(2,3) by (auto simp: snapshot_ok_def built_with_def workspace_wf_def)
  have "entry_ok h render (with_head h render None s p) t en" if tk: "pr_tasks (with_head h render None s p) t = Some en" for t en
  proof -
    obtain en0 where "pr_tasks p t = Some en0" "en = swept h render None (changed_symbols (pr_head p) s) s t en0"
      using tk by auto
    then show ?thesis using swept_ok [OF okd(2) rev] by simp
  qed
  moreover have "r \<le> sp_revision s" if "pr_nonces p x = Some r" for x r
    using okd(3) [OF that] rev by simp
  ultimately show ?case using ok pr_adopt(1) by (simp add: protocol_ok_def phase_ok_def)
next
  case (pr_open p rq en)
  note okd = protocol_okD [OF pr_open.prems]
  let ?p = "(set_task (cr_task rq) (en\<lparr>te_state := TaskCommitting\<rparr>) p)\<lparr>pr_phase := Judging rq\<rparr>"
  have en: "entry_ok h render p (cr_task rq) en" by (rule okd(2)) (rule pr_open(2))
  have "entry_ok h render ?p t en'" if tk: "pr_tasks ?p t = Some en'" for t en'
  proof (cases "t = cr_task rq")
    case True
    with tk en pr_open(3) show ?thesis by (auto simp: entry_ok_def)
  next
    case False
    then have "entry_ok h render p t en'" using tk okd(2) by simp
    then show ?thesis using pr_open(1) by (auto simp: entry_ok_def)
  qed
  moreover have "phase_ok h render ?p"
    using en pr_open(3,4) by (simp add: phase_ok_def request_ok_def entry_ok_def)
  ultimately show ?case using okd(1,3) by (simp add: protocol_ok_def)
next
  case (pr_refuse p rq r)
  then show ?case by (auto simp: protocol_ok_def phase_ok_def request_ok_def entry_ok_def)
next
  case (pr_check p rq en)
  then show ?case by (auto simp: protocol_ok_def phase_ok_def request_ok_def entry_ok_def)
next
  case (pr_reject p rq en r)
  then show ?case by (auto simp: protocol_ok_def phase_ok_def request_ok_def entry_ok_def)
next
  case (pr_commit p rq en0 en s)
  note okd = protocol_okD [OF pr_commit.prems]
  let ?ch = "changed_symbols (pr_head p) s"
  let ?p = "(with_head h render (Some (cr_task rq)) s p)
      \<lparr>pr_nonces := (pr_nonces p)((cr_task rq, cr_client_nonce rq) \<mapsto> sp_revision s),
       pr_phase := Settling rq (Inr \<lparr>ct_revision = sp_revision s, ct_replayed = False\<rparr>)\<rparr>"
  have rev: "sp_revision s = sp_revision (pr_head p) + 1" by (rule candidateD(3) [OF pr_commit(4)])
  have ok: "snapshot_ok h s" using candidateD(4) [OF pr_commit(4)] okd(1) by (simp add: snapshot_ok_def)
  have "entry_ok h render ?p t en'" if tk: "pr_tasks ?p t = Some en'" for t en'
  proof -
    obtain en1 where "pr_tasks p t = Some en1" and en1: "en' = swept h render (Some (cr_task rq)) ?ch s t en1"
      using tk by auto
    then have "entry_ok h render p t en1" by (intro okd(2))
    from swept_ok [OF this rev, of "with_head h render (Some (cr_task rq)) s p" "Some (cr_task rq)" ?ch] show ?thesis
      using pr_commit(1) en1 by (simp add: entry_ok_def)
  qed
  moreover have "r \<le> sp_revision s" if "pr_nonces ?p x = Some r" for x r
    using that okd(3) [of x r] rev by (auto split: if_splits)
  moreover have "phase_ok h render ?p"
    using okd(4) pr_commit(1) by (auto simp: phase_ok_def request_ok_def swept_def Let_def)
  ultimately show ?case using ok by (simp add: protocol_ok_def)
next
  case (pr_settle p rq result en)
  note okd = protocol_okD [OF pr_settle.prems]
  let ?p = "(set_task (cr_task rq) (settled_entry rq result en) p)\<lparr>pr_phase := Idle\<rparr>"
  have "entry_ok h render ?p t en'" if tk: "pr_tasks ?p t = Some en'" for t en'
  proof (cases "t = cr_task rq")
    case True
    moreover have "entry_ok h render p (cr_task rq) en" by (rule okd(2)) (rule pr_settle(2))
    moreover have "tk_snapshot_revision (te_spec en) = sp_revision (te_snapshot en)"
      using okd(4) pr_settle(1,2) by (auto simp: phase_ok_def request_ok_def)
    ultimately show ?thesis
      using tk by (auto simp: entry_ok_def settled_entry_def split: sum.splits if_splits)
  next
    case False
    then have "entry_ok h render p t en'" using tk okd(2) by simp
    then show ?thesis using pr_settle(1) False by (auto simp: entry_ok_def)
  qed
  then show ?case using okd(1,3) by (simp add: protocol_ok_def phase_ok_def)
qed

lemma protocol_steps_ok:
  "protocol_steps h render g p p' \<Longrightarrow> protocol_ok h render p \<Longrightarrow> protocol_ok h render p'"
  by (induction rule: rtranclp_induct) (auto intro: protocol_step_ok)

end
