(* ===== verification/Design_Simulation.thy ===== *)
theory Design_Simulation
  imports Design_Invariants
begin

text \<open>
  The worker's steps as protocol steps, and so the engine as a refinement of the protocol: every
  reachable state of the engine abstracts to a state of the protocol that satisfies its invariants.
\<close>

section \<open>The table of tasks stays ordered\<close>

lemma tasks_wf_put [simp]: "bm_wf (en_tasks e) \<Longrightarrow> bm_wf (en_tasks (put_entry t en e))"
  by simp

lemma tasks_wf_install: "bm_wf (en_tasks e) \<Longrightarrow> bm_wf (en_tasks (snd (install_task stored spec token e)))"
  by (simp add: install_task_def split: option.split)

lemma tasks_wf_spawn:
  "bm_wf (en_tasks e) \<Longrightarrow> bm_wf (en_tasks (spawn_interactive_successor fresh stored spec token e))"
  using tasks_wf_install [of e stored "spec\<lparr>tk_id := fresh, tk_snapshot_revision := 0\<rparr>" token]
  by (auto simp: spawn_interactive_successor_def split: prod.split sum.split)

lemma tasks_wf_change: "bm_wf (en_tasks e) \<Longrightarrow> bm_wf (en_tasks (change_entry t f e))"
  by (simp add: change_entry_def split: option.split)

lemma tasks_wf_reads: "only_reads h render t e e' \<Longrightarrow> bm_wf (en_tasks e) \<Longrightarrow> bm_wf (en_tasks e')"
  by (auto simp: only_reads_def)

lemma tasks_wf_create:
  "bm_wf (en_tasks e) \<Longrightarrow> bm_wf (en_tasks (snd (create_task_with_gate fresh token stored p gt e)))"
  "bm_wf (en_tasks e) \<Longrightarrow> bm_wf (en_tasks (snd (create_session fresh token stored scope objective e)))"
  by (simp_all add: create_task_with_gate_def create_session_def tasks_wf_install)

lemma tasks_wf_finish: "bm_wf (en_tasks e) \<Longrightarrow> bm_wf (en_tasks (snd (finish_task stored t st e)))"
  by (simp add: finish_task_def find_entry_def Let_def tasks_wf_change split: option.split)

lemma tasks_wf_task_step: "task_step h render e e' \<Longrightarrow> bm_wf (en_tasks e) \<Longrightarrow> bm_wf (en_tasks e')"
proof (induction rule: task_step.induct)
  case (step_file e fresh saved t k change reason evidence)
  then show ?case
    by (auto simp: file_dependency_request_def record_dependency_request_def Let_def split: sum.split option.split)
next
  case (step_resolve e saved i resolution)
  then show ?case
    by (auto simp: resolve_dependency_request_def record_dependency_request_def split: option.split)
qed (simp_all add: tasks_wf_create tasks_wf_finish tasks_wf_reads [OF read_symbol_only_reads]
    tasks_wf_reads [OF read_operation_only_reads] tasks_wf_reads [OF graph_query_only_reads]
    tasks_wf_reads [OF search_only_reads] tasks_wf_reads [OF report_only_reads]
    tasks_wf_reads [OF context_bundle_only_reads] tasks_wf_reads [OF candidate_only_reads]
    tasks_wf_reads [OF summary_only_reads])

lemma tasks_wf_sweep: "bm_wf (en_tasks e) \<Longrightarrow> bm_wf (en_tasks (fold (invalidate_task h render c ch s) ts e))"
  by (induction ts arbitrary: e) (simp_all add: invalidate_task_def Let_def split: option.split)

lemma tasks_wf_publish: "bm_wf (en_tasks e) \<Longrightarrow> bm_wf (en_tasks (publish_head h render c s e))"
  by (simp add: publish_head_def invalidate_stale_tasks_def tasks_wf_sweep)

lemma tasks_wf_move: "bm_wf (en_tasks e) \<Longrightarrow> bm_wf (en_tasks (fold (move_session fresh) ts e))"
  by (induction ts arbitrary: e) (simp_all add: move_session_def tasks_wf_spawn split: option.split prod.split)

lemma tasks_wf_engine_step:
  "engine_step h render g (e, ph) (e', ph') \<Longrightarrow> bm_wf (en_tasks e) \<Longrightarrow> bm_wf (en_tasks e')"
proof (induction "(e, ph)" "(e', ph')" arbitrary: rule: engine_step.induct)
  case step_task
  then show ?case by (simp add: tasks_wf_task_step)
next
  case (step_refresh fresh stored t)
  then show ?case by (auto simp: refresh_session_def tasks_wf_spawn tasks_wf_change split: sum.split)
next
  case (step_adopt dw)
  then show ?case
    by (auto simp: adopt_disk_change_def Let_def move_interactive_sessions_def tasks_wf_move tasks_wf_publish
        split: sum.split option.split)
next
  case (step_reply rq reply)
  then show ?case by (auto simp: open_commit_def split: option.splits task_state.splits)
next
  case (step_open rq)
  then show ?case by (auto simp: open_commit_def split: option.splits task_state.splits)
next
  case (step_commit rq en persisted result en0)
  then show ?case
    by (auto simp: commit_candidate_def publish_commit_def tasks_wf_publish split: option.splits sum.splits)
next
  case (step_settle fresh rq result stored)
  then show ?case
    by (auto simp: settle_commit_def Let_def tasks_wf_spawn split: option.split sum.split)
qed simp_all

section \<open>The worker's steps are simulated\<close>

lemma retire_simulated:
  assumes "bm_get (en_tasks e) t = Some en" "interactive en" "te_state en = TaskRunning" "bm_get (en_tasks e) fresh = None"
  shows "protocol_steps h render g (abstraction (e, Idle))
    (abstraction (spawn_interactive_successor fresh stored (te_spec en) (te_token en)
       (put_entry t (en\<lparr>te_state := TaskInvalidated\<rparr>) e), Idle))"
proof -
  have "protocol_step h render g (abstraction (e, Idle)) (abstraction (put_entry t (en\<lparr>te_state := TaskInvalidated\<rparr>) e, Idle))"
    unfolding abstraction_put by (rule pr_retire) (simp_all add: assms)
  moreover have "bm_get (en_tasks (put_entry t (en\<lparr>te_state := TaskInvalidated\<rparr>) e)) fresh = None"
    using assms(1,4) by auto
  from spawn_simulated [OF this] have "protocol_steps h render g
      (abstraction (put_entry t (en\<lparr>te_state := TaskInvalidated\<rparr>) e, Idle))
      (abstraction (spawn_interactive_successor fresh stored (te_spec en) (te_token en)
         (put_entry t (en\<lparr>te_state := TaskInvalidated\<rparr>) e), Idle))" .
  ultimately show ?thesis by (rule converse_rtranclp_into_rtranclp)
qed

lemma refresh_simulated:
  assumes "bm_get (en_tasks e) fresh = None"
  shows "protocol_steps h render g (abstraction (e, Idle)) (abstraction (snd (refresh_session fresh stored t e), Idle))"
proof (cases "bm_get (en_tasks e) t")
  case (Some en)
  then show ?thesis
    using retire_simulated [OF Some _ _ assms]
    by (auto simp: refresh_session_def find_entry_def change_entry_def)
qed (simp add: refresh_session_def find_entry_def)

lemma spawn_lookup:
  "u \<noteq> fresh \<Longrightarrow>
     bm_get (en_tasks (spawn_interactive_successor fresh stored spec token e)) u = bm_get (en_tasks e) u"
  by (auto simp: spawn_interactive_successor_def install_task_def split: option.splits)

lemma move_sessions_simulated:
  assumes "distinct ts"
    and "\<And>t. t \<in> set ts \<Longrightarrow> \<exists>en. bm_get (en_tasks e) t = Some en \<and> interactive en \<and> te_state en = TaskRunning"
    and "inj_on (\<lambda>t. fst (fresh t)) (set ts)" "\<And>t. t \<in> set ts \<Longrightarrow> bm_get (en_tasks e) (fst (fresh t)) = None"
  shows "protocol_steps h render g (abstraction (e, Idle)) (abstraction (fold (move_session fresh) ts e, Idle))"
  using assms
proof (induction ts arbitrary: e)
  case (Cons t ts)
  obtain en where en: "bm_get (en_tasks e) t = Some en" "interactive en" "te_state en = TaskRunning"
    using Cons.prems(2) [of t] by auto
  obtain i stored where fresh: "fresh t = (i, stored)" by force
  have i: "bm_get (en_tasks e) i = None" using Cons.prems(4) [of t] fresh by simp
  let ?e = "spawn_interactive_successor i stored (te_spec en) (te_token en) (put_entry t (en\<lparr>te_state := TaskInvalidated\<rparr>) e)"
  have move: "move_session fresh t e = ?e" by (simp add: move_session_def en(1) fresh)
  have other: "bm_get (en_tasks ?e) u = bm_get (en_tasks e) u" if "u \<noteq> i" "u \<noteq> t" for u
    using that by (simp add: spawn_lookup)
  have "protocol_steps h render g (abstraction (?e, Idle)) (abstraction (fold (move_session fresh) ts ?e, Idle))"
  proof (rule Cons.IH)
    show "\<exists>en. bm_get (en_tasks ?e) u = Some en \<and> interactive en \<and> te_state en = TaskRunning" if u: "u \<in> set ts" for u
    proof -
      have "u \<noteq> i" using Cons.prems(2) [of u] i u by auto
      moreover have "u \<noteq> t" using Cons.prems(1) u by auto
      ultimately show ?thesis using other [of u] Cons.prems(2) [of u] u by simp
    qed
    show "bm_get (en_tasks ?e) (fst (fresh u)) = None" if u: "u \<in> set ts" for u
    proof -
      have "fst (fresh u) \<noteq> i"
      proof
        assume "fst (fresh u) = i"
        with fresh have "fst (fresh u) = fst (fresh t)" by simp
        with Cons.prems(3) u have "u = t" by (auto simp: inj_on_def)
        with Cons.prems(1) u show False by simp
      qed
      moreover have "fst (fresh u) \<noteq> t" using Cons.prems(4) [of u] en(1) u by auto
      ultimately show ?thesis using other Cons.prems(4) [of u] u by simp
    qed
  qed (use Cons.prems(1,3) in \<open>auto simp: inj_on_def\<close>)
  with retire_simulated [OF en i, of h render g stored] show ?case
    by (simp add: move)
qed simp

lemma live_sessions_publish:
  assumes "bm_wf (en_tasks e)"
  shows "distinct (live_sessions (publish_head h render None s e))"
    and "t \<in> set (live_sessions (publish_head h render None s e)) \<Longrightarrow>
      \<exists>en. bm_get (en_tasks (publish_head h render None s e)) t = Some en \<and> interactive en \<and> te_state en = TaskRunning"
proof -
  have wf: "bm_wf (en_tasks (publish_head h render None s e))" by (rule tasks_wf_publish) (rule assms)
  show "distinct (live_sessions (publish_head h render None s e))"
    unfolding live_sessions_def by (rule distinct_map_filter) (rule bm_wf_distinct [OF wf])
  show "\<exists>en. bm_get (en_tasks (publish_head h render None s e)) t = Some en \<and> interactive en \<and> te_state en = TaskRunning"
    if "t \<in> set (live_sessions (publish_head h render None s e))"
    using that bm_wf_get_iff [OF wf] by (auto simp: live_sessions_def)
qed

lemma adopt_simulated:
  assumes "bm_wf (en_tasks e)" "disk_ordered dw" "fresh_successors (dw_successors dw) e"
  shows "protocol_steps h render g (abstraction (e, Idle)) (abstraction (snd (adopt_disk_change h render dw e), Idle))"
proof (cases "\<exists>w. dw_change dw = Inr (Some w) \<and> dw_recorded dw = None")
  case False
  then show ?thesis by (auto simp: adopt_disk_change_def Let_def split: sum.split option.split)
next
  case True
  then obtain w where w: "dw_change dw = Inr (Some w)" "dw_recorded dw = None" by blast
  let ?s = "build_snapshot h (w\<lparr>ws_revision := sp_revision (en_head e) + 1\<rparr>) (Some (sp_graph (en_head e)))"
  let ?e = "publish_head h render None ?s e"
  have dom: "t \<in> dom (bm_get (en_tasks e)) \<longleftrightarrow> t \<in> dom (bm_get (en_tasks ?e))" for t
    by (simp add: publish_head_lookup domIff)
  have "protocol_step h render g (abstraction (e, Idle)) (abstraction (?e, Idle))"
    unfolding abstraction_publish
    by (rule pr_adopt [where w = w]) (use assms(2) w in \<open>simp_all add: disk_ordered_def\<close>)
  moreover have "protocol_steps h render g (abstraction (?e, Idle))
      (abstraction (fold (move_session (dw_successors dw)) (live_sessions ?e) ?e, Idle))"
  proof (rule move_sessions_simulated)
    note live = live_sessions_publish [OF assms(1), where h = h and render = render and s = ?s]
    show "distinct (live_sessions ?e)" by (rule live(1))
    show "\<exists>en. bm_get (en_tasks ?e) t = Some en \<and> interactive en \<and> te_state en = TaskRunning"
      if "t \<in> set (live_sessions ?e)" for t by (rule live(2)) (rule that)
    have sub: "set (live_sessions ?e) \<subseteq> dom (bm_get (en_tasks e))"
      using live(2) dom by blast
    show "inj_on (\<lambda>t. fst (dw_successors dw t)) (set (live_sessions ?e))"
      using assms(3) sub inj_on_subset unfolding fresh_successors_def by blast
    show "bm_get (en_tasks ?e) (fst (dw_successors dw t)) = None" if "t \<in> set (live_sessions ?e)" for t
      using assms(3) sub that by (auto simp: fresh_successors_def publish_head_lookup)
  qed
  ultimately show ?thesis
    using w by (simp add: adopt_disk_change_def Let_def move_interactive_sessions_def)
qed

lemma abstraction_phase: "(abstraction (e, ph))\<lparr>pr_phase := ph'\<rparr> = abstraction (e, ph')"
  by (simp add: abstraction_def)

lemma commit_simulated:
  assumes "bm_get (en_tasks e) (cr_task rq) = Some en"
    "commit_candidate h render g persisted rq (te_read_set en) e = (result, e')"
  shows "protocol_steps h render g (abstraction (e, Checked rq en0)) (abstraction (e', Settling rq result))"
proof -
  consider r where "result = Inl r" "e' = e"
    | s where "judge_references (te_read_set en) (cr_patch rq) = None" "candidate h g (en_head e) (cr_patch rq) = Inr s"
        "result = Inr \<lparr>ct_revision = sp_revision s, ct_replayed = False\<rparr>" "e' = publish_commit h render rq s e"
    using assms(2) by (auto simp: commit_candidate_def split: option.splits sum.splits)
  then have "protocol_step h render g (abstraction (e, Checked rq en0)) (abstraction (e', Settling rq result))"
  proof cases
    case 1
    then show ?thesis using pr_reject [of "abstraction (e, Checked rq en0)"] by (simp add: abstraction_phase)
  next
    case 2
    have "abstraction (e', Settling rq result)
        = (with_head h render (Some (cr_task rq)) s (abstraction (e, Checked rq en0)))
            \<lparr>pr_nonces := (pr_nonces (abstraction (e, Checked rq en0)))((cr_task rq, cr_client_nonce rq) \<mapsto> sp_revision s),
             pr_phase := Settling rq (Inr \<lparr>ct_revision = sp_revision s, ct_replayed = False\<rparr>)\<rparr>"
      using 2(3,4)
      by (simp add: publish_commit_def) (simp add: abstraction_def with_head_def)
    then show ?thesis
      using pr_commit [of "abstraction (e, Checked rq en0)" rq en0 en h g s] 2(1,2) assms(1) by simp
  qed
  then show ?thesis by (rule r_into_rtranclp)
qed

lemma settle_simulated:
  assumes "bm_get (en_tasks e) (cr_task rq) = Some en" "bm_get (en_tasks e) fresh = None"
  shows "protocol_steps h render g (abstraction (e, Settling rq result))
    (abstraction (settle_commit fresh stored rq result e, Idle))"
proof -
  let ?e = "put_entry (cr_task rq) (settled_entry rq result en) e"
  have "protocol_step h render g (abstraction (e, Settling rq result)) (abstraction (?e, Idle))"
    using pr_settle [of "abstraction (e, Settling rq result)" rq result en] assms(1)
    by (simp add: abstraction_phase set_task_def) (simp add: abstraction_def set_task_def)
  moreover have "protocol_steps h render g (abstraction (?e, Idle)) (abstraction (settle_commit fresh stored rq result e, Idle))"
  proof (cases result)
    case (Inl r)
    with assms(1) show ?thesis by (simp add: settle_commit_def settled_entry_def)
  next
    case (Inr receipt)
    let ?e1 = "emit (EvTaskCommitted (cr_task rq) (ct_revision receipt)) ?e"
    have "bm_get (en_tasks ?e1) fresh = None" using assms by auto
    from spawn_simulated [OF this, of h render g Idle stored "te_spec en" "te_token en"] show ?thesis
      using Inr assms(1) by (simp add: settle_commit_def settled_entry_def Let_def)
  qed
  ultimately show ?thesis by (rule converse_rtranclp_into_rtranclp)
qed

lemma open_simulated:
  assumes "open_commit rq e = (reply, e')"
  shows "protocol_steps h render g (abstraction (e, Idle))
    (abstraction (e', case reply of None \<Rightarrow> Judging rq | Some r \<Rightarrow> Idle))"
proof -
  consider "e' = e" "reply \<noteq> None"
    | en where "bm_get (en_tasks e) (cr_task rq) = Some en" "te_state en = TaskRunning" "reply = None"
        "en_nonces e (cr_task rq, cr_client_nonce rq) = None"
        "e' = put_entry (cr_task rq) (en\<lparr>te_state := TaskCommitting\<rparr>) e"
    | en where "bm_get (en_tasks e) (cr_task rq) = Some en" "te_state en = TaskInvalidated" "reply \<noteq> None"
        "e' = put_entry (cr_task rq) (attach_patch (cr_patch rq) en) e"
    using assms by (auto simp: open_commit_def split: option.splits task_state.splits)
  then show ?thesis
  proof cases
    case 1
    then show ?thesis by (auto split: option.split)
  next
    case 2
    have "protocol_step h render g (abstraction (e, Idle)) (abstraction (e', Judging rq))"
      using pr_open [of "abstraction (e, Idle)" rq en] 2(1,2,4)
      unfolding 2(5) by (simp add: abstraction_phase set_task_def) (simp add: abstraction_def set_task_def)
    with 2(3) show ?thesis by (simp add: r_into_rtranclp)
  next
    case 3
    have "protocol_step h render g (abstraction (e, Idle)) (abstraction (e', Idle))"
      unfolding 3(4) abstraction_put by (rule pr_attach) (simp_all add: 3)
    with 3(3) show ?thesis by (auto split: option.split)
  qed
qed

lemma engine_step_simulated:
  assumes "engine_step h render g s s'" "bm_wf (en_tasks (fst s))" "protocol_ok h render (abstraction s)"
  shows "protocol_steps h render g (abstraction s) (abstraction s')"
  using assms
proof (induction rule: engine_step.induct)
  case (step_task e e' ph)
  then show ?case by (simp add: task_step_simulated)
next
  case (step_refresh e fresh stored t)
  then show ?case by (simp add: refresh_simulated)
next
  case (step_adopt dw e)
  then show ?case by (simp add: adopt_simulated)
next
  case (step_reply rq e reply e')
  from open_simulated [OF step_reply(1), of h render g] show ?case by simp
next
  case (step_open rq e e')
  from open_simulated [OF step_open(1), of h render g] show ?case by simp
next
  case (step_refuse e rq en r)
  have "protocol_step h render g (abstraction (e, Judging rq)) (abstraction (e, Settling rq (Inl r)))"
    using pr_refuse [of "abstraction (e, Judging rq)" rq] by (simp add: abstraction_phase)
  then show ?case by (rule r_into_rtranclp)
next
  case (step_check e rq en)
  have "protocol_step h render g (abstraction (e, Judging rq)) (abstraction (e, Checked rq en))"
    using pr_check [of "abstraction (e, Judging rq)" rq en] step_check by (simp add: abstraction_phase)
  then show ?case by (rule r_into_rtranclp)
next
  case (step_commit e rq en persisted result e' en0)
  then show ?case by (simp add: commit_simulated)
next
  case (step_settle e fresh rq result stored)
  then obtain en where "bm_get (en_tasks e) (cr_task rq) = Some en"
    using protocol_okD(4) [of h render "abstraction (e, Settling rq result)"] by (auto simp: phase_ok_def request_ok_def)
  from settle_simulated [OF this step_settle(1)] show ?case .
qed

section \<open>Reachable states\<close>

lemma recover_tasks_ok:
  assumes "recover_tasks updated rs e = Inr e'" "bm_wf (en_tasks e)" "protocol_ok h render (abstraction (e, Idle))"
  shows "bm_wf (en_tasks e') \<and> protocol_ok h render (abstraction (e', Idle))"
  using assms
proof (induction updated rs e rule: recover_tasks.induct)
  case (2 updated spec st rs e)
  let ?en = "\<lparr>te_spec = spec, te_snapshot = en_head e, te_state = recovered_state st,
      te_read_set = read_set_empty, te_token = [], te_invalidation = None\<rparr>"
  have "entry_ok h render (abstraction (e, Idle)) (tk_id spec) ?en"
    using protocol_okD(1) [OF 2(4)] by (cases st) (simp_all add: entry_ok_def pinned_empty recovered_state_def)
  then have "protocol_ok h render (abstraction (put_entry (tk_id spec) ?en e, Idle))"
    unfolding abstraction_put by (intro set_task_ok [OF 2(4)]) simp_all
  with 2 show ?case by (auto split: option.splits)
qed simp

lemma reachable_ok:
  "reachable h render g s \<Longrightarrow> bm_wf (en_tasks (fst s)) \<and> protocol_ok h render (abstraction s)"
proof (induction rule: reachable.induct)
  case (reachable_start w updated requests records e)
  have "snapshot_ok h (build_snapshot h w None)"
    using reachable_start(1) by (auto simp: snapshot_ok_def built_with_def)
  then have "protocol_ok h render (abstraction (\<lparr>en_head = build_snapshot h w None, en_tasks = [], en_tokens = (\<lambda>_. None),
      en_nonces = (\<lambda>_. None), en_requests = fold (\<lambda>r. bm_insert (dq_id r) r) requests [], en_events = []\<rparr>, Idle))"
    by (simp add: protocol_ok_def phase_ok_def)
  with recover_tasks_ok [OF reachable_start(2) [unfolded start_engine_def]] show ?case by simp
next
  case (reachable_step s s')
  then show ?case
    using engine_step_simulated [of h render g s s'] protocol_steps_ok
      tasks_wf_engine_step [of h render g "fst s" "snd s" "fst s'" "snd s'"] by auto
qed

end
