(* ===== verification/Design_Gate.thy ===== *)
theory Design_Gate
  imports Design_Footprint
begin

text \<open>
  What a patch without diagnostics guarantees: the ids of a written program are unique, the
  references the gate checks resolve in the candidate, and the transport scope of topics and
  subscriptions stays exclusive under the mutations that are checked for it. The gaps of the last
  two are shown by examples.
\<close>

named_theorems accepted \<open>a check without diagnostics\<close>

lemma complain_empty [accepted]: "complain b k m = [] \<longleftrightarrow> \<not> b"
  by simp

lemma concat_map_empty [accepted]: "concat (map f xs) = [] \<longleftrightarrow> (\<forall>x \<in> set xs. f x = [])"
  by auto

lemma check_patch_mutation:
  "check_patch g w p = [] \<Longrightarrow> m \<in> set p \<Longrightarrow> check_mutation g w m = []"
  by (simp add: check_patch_def)

section \<open>Unique ids\<close>

lemma repeated_ids_empty [accepted]:
  "repeated_ids seen is = [] \<longleftrightarrow> distinct is \<and> set is \<inter> set seen = {}"
  by (induction seen "is" rule: repeated_ids.induct) auto

lemma check_unique_empty [accepted]: "check_unique opn l is = [] \<longleftrightarrow> distinct is"
  by (simp add: check_unique_def accepted)

section \<open>Resolved references\<close>

definition resolved :: "workspace \<Rightarrow> symbol_key \<Rightarrow> bool" where
  "resolved w k \<longleftrightarrow> symbol_content w k \<noteq> None"

lemma resolved_simps [simp]:
  "resolved w (KService i) \<longleftrightarrow> bm_contains (ws_services w) i"
  "resolved w (KSchema i) \<longleftrightarrow> bm_contains (ws_schemas w) i"
  "resolved w (KTopic i) \<longleftrightarrow> bm_contains (ws_topics w) i"
  "resolved w (KDataModel i) \<longleftrightarrow> bm_contains (ws_data_models w) i"
  "resolved w (KStateMachine i) \<longleftrightarrow> bm_contains (ws_state_machines w) i"
  "resolved w (KOperationInterface i) \<longleftrightarrow> bm_contains (ws_operations w) i"
  "resolved w (KExecutionPool i) \<longleftrightarrow> bm_contains (rm_pools (ws_runtime w)) i"
  "resolved w (KDataObject m i) \<longleftrightarrow> (\<exists>dm. bm_get (ws_data_models w) m = Some dm \<and> bm_contains (dm_objects dm) i)"
  "resolved w (KTransition m i) \<longleftrightarrow> (\<exists>sm. bm_get (ws_state_machines w) m = Some sm \<and> bm_contains (sm_transitions sm) i)"
  by (auto simp: resolved_def symbol_content_def bm_contains_def bind_eq_Some_conv split: option.splits)

lemma require_schema_empty [accepted]: "require_schema w c s = [] \<longleftrightarrow> bm_contains (ws_schemas w) s"
  by (simp add: require_schema_def)

lemma require_topic_empty [accepted]: "require_topic w c t = [] \<longleftrightarrow> bm_contains (ws_topics w) t"
  by (simp add: require_topic_def)

lemma require_target_empty [accepted]:
  "require_request_target w c opn i = [] \<longleftrightarrow>
     (\<exists>d. bm_get (ws_operations w) opn = Some d \<and> bm_contains (dr_inputs d) i)"
  by (simp add: require_request_target_def split: option.split)

lemma require_result_empty:
  "require_result w c r = [] \<Longrightarrow> k \<in> set (result_refs r) \<Longrightarrow> resolved w k"
  by (auto simp: require_result_def result_refs_def result_schemas_def accepted)

lemma check_effect_resolves:
  "check_effect w opn e ef = [] \<Longrightarrow> k \<in> set (effect_refs ef) \<Longrightarrow> resolved w k"
  by (cases ef) (auto simp: accepted bm_contains_def dest: require_result_empty split: option.splits)

lemma check_objects_resolves:
  assumes "check_tx_objects w opn t = []" "s \<in> set (tx_steps t)" "step_object s = Some ob"
    "k \<in> set (object_refs (tx_data_model t) ob)"
  shows "resolved w k"
  using assms by (auto simp: check_tx_objects_def object_refs_def accepted split: option.splits)

lemma tx_step_refs_cases:
  "k \<in> set (tx_step_refs dm s) \<Longrightarrow>
     (\<exists>ob. step_object s = Some ob \<and> k \<in> set (object_refs dm ob))
     \<or> (case s of
          TsTransition st \<Rightarrow> k = KStateMachine (st_machine st) \<or> k = KTransition (st_machine st) (st_transition st)
        | TsEstablishEffectIntent e \<Rightarrow> k \<in> set (effect_refs (ei_effect e))
        | TsEstablishTransactionOutput e \<Rightarrow> k = KSchema (eo_schema e)
        | TsWriteOutbox e \<Rightarrow> k = KSchema (ow_schema (wo_effect e))
        | _ \<Rightarrow> False)"
  by (cases s) auto

lemma check_tx_step_resolves:
  assumes "check_tx_objects w opn t = []" "s \<in> set (tx_steps t)" "check_tx_step w opn t s = []"
    "k \<in> set (tx_step_refs (tx_data_model t) s)"
  shows "resolved w k"
  using tx_step_refs_cases [OF assms(4)]
proof
  assume "\<exists>ob. step_object s = Some ob \<and> k \<in> set (object_refs (tx_data_model t) ob)"
  with check_objects_resolves [OF assms(1,2)] show ?thesis by blast
next
  assume k: "case s of
          TsTransition st \<Rightarrow> k = KStateMachine (st_machine st) \<or> k = KTransition (st_machine st) (st_transition st)
        | TsEstablishEffectIntent e \<Rightarrow> k \<in> set (effect_refs (ei_effect e))
        | TsEstablishTransactionOutput e \<Rightarrow> k = KSchema (eo_schema e)
        | TsWriteOutbox e \<Rightarrow> k = KSchema (ow_schema (wo_effect e))
        | _ \<Rightarrow> False"
  show ?thesis
  proof (cases s)
    case (TsTransition st)
    with k assms(3) show ?thesis
      by (auto simp: check_application_def bm_contains_def split: option.splits)
  qed (use k assms(3) check_effect_resolves in \<open>auto simp: check_write_def accepted\<close>)
qed

lemma check_transaction_resolves:
  assumes "check_transaction w opn d loc t = []" "k \<in> set (step_refs (OsTransaction t r))"
  shows "resolved w k"
proof -
  have objects: "check_tx_objects w opn t = []"
    and tx_steps: "\<And>s. s \<in> set (tx_steps t) \<Longrightarrow> check_tx_step w opn t s = []"
    using assms(1) by (auto simp: check_transaction_def accepted)
  from assms(2) consider s where "s \<in> set (tx_steps t)" "k \<in> set (tx_step_refs (tx_data_model t) s)"
    | dm where "tx_data_model t = Some dm" "k = KDataModel dm"
    by (cases "tx_data_model t") auto
  then show ?thesis
  proof cases
    case 1
    with check_tx_step_resolves [OF objects] tx_steps show ?thesis by blast
  next
    case 2
    with objects show ?thesis by (auto simp: check_tx_objects_def bm_contains_def split: option.splits)
  qed
qed

lemma check_step_resolves:
  "check_step w opn d loc s = [] \<Longrightarrow> k \<in> set (step_refs s) \<Longrightarrow> resolved w k"
  using check_transaction_resolves check_effect_resolves
  by (cases s) auto

lemma check_program_resolves:
  assumes "check_program w opn p = []" "bm_contains (ws_operations w) opn" "k \<in> set (program_refs opn p)"
  shows "resolved w k"
proof -
  obtain d where d: "bm_get (ws_operations w) opn = Some d" using assms(2) by (auto simp: bm_contains_def)
  obtain loc s where s: "(loc, s) \<in> set (steps_with_locations p)" "k \<in> set (step_refs s)"
    using assms(3) by (auto simp: program_refs_def)
  have "check_step w opn d loc s = []"
    using assms(1) s(1) by (auto simp: check_program_def d accepted)
  with s(2) show ?thesis by (rule check_step_resolves [rotated])
qed

lemma check_side_effect_resolves:
  "check_side_effect w m t e = [] \<Longrightarrow> k \<in> set (side_effect_refs e) \<Longrightarrow> resolved w k"
  by (cases e) (auto simp: accepted bm_contains_def)

lemma check_transition_resolves:
  assumes "check_transition w i m t tn = []" "k \<in> set (transition_refs tn)"
  shows "resolved w k"
  using assms check_side_effect_resolves
  by (fastforce simp: check_transition_def transition_refs_def check_admission_def accepted)

text \<open>
  The references of a mutation the gate looks up: those of \<open>mutation_refs\<close> but for the messages
  an outbox admits, the messages a subscription selects and the schemas of grouping and partition
  keys.
\<close>

fun checked_input_refs :: "op_input \<Rightarrow> symbol_key list" where
  "checked_input_refs (InSubscription s) = [KTopic (si_topic s)]"
| "checked_input_refs v = input_refs v"

fun checked_refs :: "workspace \<Rightarrow> mutation \<Rightarrow> symbol_key list" where
  "checked_refs w (PutDataModel i m) = map (\<lambda>ob. KSchema (do_schema ob)) (bm_values (dm_objects m))"
| "checked_refs w (PutOperationInterface opn v) =
     concat (map checked_input_refs (bm_values (if_inputs v))) @ [KService (if_service v)]"
| "checked_refs w (ReplaceOperationProgram opn p) =
     (if bm_contains (ws_operations w) opn then program_refs opn p else [])"
| "checked_refs w (PutTopicRuntime t v) = [KTopic t]"
| "checked_refs w (PutSubscriptionRuntime opn i v) = [KOperationInterface opn, KExecutionPool (sd_pool (sbr_dispatch v))]"
| "checked_refs w (PutOutboxRuntime opn i v) = [KOperationInterface opn, KExecutionPool (od_pool (obr_dispatch v))]"
| "checked_refs w m = mutation_refs m"

lemma checked_refs_are_refs: "set (checked_refs w m) \<subseteq> set (mutation_refs m)"
proof -
  have "set (checked_input_refs v) \<subseteq> set (input_refs v)" for v
    by (cases v) auto
  then show ?thesis by (cases m) auto
qed

lemma check_input_resolves:
  "check_input w opn i v = [] \<Longrightarrow> k \<in> set (checked_input_refs v) \<Longrightarrow> resolved w k"
  by (cases v) (auto simp: accepted bm_contains_def dest: require_result_empty split: option.splits)

lemma check_boundary_resolves:
  "check_boundary w sub opn i b = [] \<Longrightarrow> bm_contains (ws_operations w) opn"
  by (auto simp: check_boundary_def bm_contains_def split: option.splits)

lemma check_mutation_resolves:
  assumes "check_mutation g w m = []" "k \<in> set (checked_refs w m)"
  shows "resolved w k"
proof (cases m)
  case (PutSchema i v)
  with assms show ?thesis by (cases v) (auto simp: accepted case_prod_unfold)
next
  case (PutDataModel i v)
  with assms show ?thesis by (auto simp: check_data_model_def accepted case_prod_unfold)
next
  case (PutTopic i v)
  with assms show ?thesis by (auto simp: check_topic_def accepted)
next
  case (PutStateMachine i v)
  with assms check_transition_resolves show ?thesis
    by (fastforce simp: check_state_machine_def accepted case_prod_unfold)
next
  case (PutOperationInterface opn v)
  with assms check_input_resolves show ?thesis
    by (fastforce simp: check_interface_def accepted case_prod_unfold)
next
  case (ReplaceOperationProgram opn p)
  with assms check_program_resolves show ?thesis by (auto split: if_splits)
next
  case (PutRouter i v)
  with assms show ?thesis
    by (auto simp: check_router_def check_pool_def accepted dest: check_boundary_resolves)
next
  case (PutSubscriptionRuntime opn i v)
  with assms show ?thesis
    by (auto simp: check_subscription_runtime_def check_pool_def accepted dest: check_boundary_resolves)
next
  case (PutOutboxRuntime opn i v)
  with assms show ?thesis
    by (auto simp: check_outbox_runtime_def check_pool_def accepted dest: check_boundary_resolves)
next
  case (PutTopicRuntime t v)
  with assms show ?thesis by (auto simp: check_topic_runtime_def split: if_splits)
next
  case (PutStorageLayout i v)
  with assms show ?thesis
    by (auto simp: check_storage_layout_def bm_contains_def accepted split: option.splits)
qed (use assms in simp_all)

section \<open>The transport scope\<close>

text \<open>A topic and a subscription of it never both declare transport semantics.\<close>

definition subscription_runtime_of :: "workspace \<Rightarrow> id \<Rightarrow> id \<Rightarrow> subscription_runtime option" where
  "subscription_runtime_of w opn i =
     Option.bind (bm_get (rm_subscriptions (ws_runtime w)) opn) (\<lambda>ins. bm_get ins i)"

definition topic_declares :: "workspace \<Rightarrow> id \<Rightarrow> bool" where
  "topic_declares w t =
     (case bm_get (rm_topics (ws_runtime w)) t of None \<Rightarrow> False | Some v \<Rightarrow> topic_transport v)"

definition scope_exclusive :: "workspace \<Rightarrow> bool" where
  "scope_exclusive w \<longleftrightarrow>
     (\<forall>opn i v t. subscription_runtime_of w opn i = Some v \<longrightarrow> subscription_transport v \<longrightarrow>
        subscribed_topic w opn i = Some t \<longrightarrow> \<not> topic_declares w t)"

text \<open>Where the runtime entries of an applied patch come from.\<close>

lemma mutation_subscription:
  assumes "workspace_wf w" "subscription_runtime_of (fst (apply_mutation h w m)) opn i = Some v"
  shows "subscription_runtime_of w opn i = Some v \<or> m = PutSubscriptionRuntime opn i v"
proof -
  have wf: "bm_wf (rm_subscriptions (ws_runtime w))" using assms(1) by (simp add: workspace_wf_def)
  have ap: "ws_runtime (fst (apply_proposals h w other ss)) = ws_runtime w" for other ss
    using apply_proposals_outside [of other ss w h] by (simp add: same_outside_def)
  show ?thesis
    using assms(2) wf
    by (cases m)
       (auto simp: subscription_runtime_of_def change_draft_def ap apply_delete_get_nested
          split: option.splits if_splits)
qed

lemma mutation_topic_runtime:
  assumes "bm_get (rm_topics (ws_runtime (fst (apply_mutation h w m)))) t = Some v"
  shows "bm_get (rm_topics (ws_runtime w)) t = Some v \<or> m = PutTopicRuntime t v"
proof -
  have ap: "ws_runtime (fst (apply_proposals h w other ss)) = ws_runtime w" for other ss
    using apply_proposals_outside [of other ss w h] by (simp add: same_outside_def)
  show ?thesis
    using assms
    by (cases m) (auto simp: change_draft_def ap apply_delete_get split: option.splits if_splits)
qed

text \<open>Without a new interface, an input keeps the topic it subscribes to.\<close>

definition keeps_interfaces :: "mutation \<Rightarrow> bool" where
  "keeps_interfaces m = (case m of PutOperationInterface _ _ \<Rightarrow> False | _ \<Rightarrow> True)"

lemma same_outside_topic:
  assumes "same_outside opn pts obs w w'" "PartInterface \<notin> pts" "subscribed_topic w' other i = Some t"
  shows "subscribed_topic w other i = Some t"
proof (cases "other = opn")
  case False
  with assms show ?thesis by (simp add: same_outside_def subscribed_topic_def)
next
  case True
  show ?thesis
  proof (cases "bm_get (ws_operations w) opn")
    case None
    with assms True show ?thesis by (simp add: same_outside_def subscribed_topic_def)
  next
    case (Some d)
    with assms(1,2) obtain d' where d': "bm_get (ws_operations w') opn = Some d'" "same_part PartInterface d d'"
      by (auto simp: same_outside_def)
    then have "dr_inputs d' = dr_inputs d" by (simp add: draft_interface_def)
    with assms(3) True Some d' show ?thesis by (simp add: subscribed_topic_def)
  qed
qed

lemma same_operations_topic:
  "ws_operations w' = ws_operations w \<Longrightarrow> subscribed_topic w' opn i = subscribed_topic w opn i"
  by (simp add: subscribed_topic_def)

lemma mutation_subscribed_topic:
  assumes "keeps_interfaces m" "subscribed_topic (fst (apply_mutation h w m)) opn i = Some t"
  shows "subscribed_topic w opn i = Some t"
proof (cases m)
  case (ReplaceOperationProgram other p)
  have "same_outside other {PartProgram} {} w (fst (apply_mutation h w m))"
    unfolding ReplaceOperationProgram apply_mutation.simps
    by (rule change_draft_outside) (case_tac pt; simp add: draft_interface_def)
  from same_outside_topic [OF this _ assms(2)] show ?thesis by simp
next
  case (ReplaceOperationRequirements other r)
  have "same_outside other {PartRequirements} {} w (fst (apply_mutation h w m))"
    unfolding ReplaceOperationRequirements apply_mutation.simps
    by (rule change_draft_outside) (case_tac pt; simp add: draft_interface_def)
  from same_outside_topic [OF this _ assms(2)] show ?thesis by simp
next
  case (ProposeRequirements other ss)
  with same_outside_topic [OF apply_proposals_outside [of other ss w h], of opn i t] assms(2) show ?thesis
    by (simp add: proposal_parts_def)
next
  case (DeleteTopLevel k)
  show ?thesis
  proof (cases "\<exists>other. k = KOperation other")
    case True
    with DeleteTopLevel assms(2) show ?thesis
      by (auto simp: apply_delete_def subscribed_topic_def split: if_splits)
  next
    case False
    have "ws_operations (fst (apply_delete w k)) = ws_operations w"
      using False by (cases k) (simp_all add: apply_delete_def)
    with DeleteTopLevel assms(2) same_operations_topic [OF this] show ?thesis by simp
  qed
qed (use assms same_operations_topic [of "fst (apply_mutation h w m)" w] in \<open>simp_all add: keeps_interfaces_def\<close>)

lemma patch_origins:
  assumes "workspace_wf w" "\<forall>m \<in> set p. keeps_interfaces m"
  shows "subscription_runtime_of (fst (apply_mutations h w p)) opn i = Some v \<Longrightarrow>
      subscription_runtime_of w opn i = Some v \<or> PutSubscriptionRuntime opn i v \<in> set p"
    and "bm_get (rm_topics (ws_runtime (fst (apply_mutations h w p)))) t = Some r \<Longrightarrow>
      bm_get (rm_topics (ws_runtime w)) t = Some r \<or> PutTopicRuntime t r \<in> set p"
    and "subscribed_topic (fst (apply_mutations h w p)) opn i = Some t \<Longrightarrow> subscribed_topic w opn i = Some t"
proof -
  have "(subscription_runtime_of (fst (apply_mutations h w p)) opn i = Some v \<longrightarrow>
      subscription_runtime_of w opn i = Some v \<or> PutSubscriptionRuntime opn i v \<in> set p)
    \<and> (bm_get (rm_topics (ws_runtime (fst (apply_mutations h w p)))) t = Some r \<longrightarrow>
      bm_get (rm_topics (ws_runtime w)) t = Some r \<or> PutTopicRuntime t r \<in> set p)
    \<and> (subscribed_topic (fst (apply_mutations h w p)) opn i = Some t \<longrightarrow> subscribed_topic w opn i = Some t)"
    using assms
  proof (induction p arbitrary: w)
    case (Cons m p)
    note wf' = workspace_wf_mutation [OF Cons.prems(1), of h m]
    have keeps: "keeps_interfaces m" "\<forall>m \<in> set p. keeps_interfaces m" using Cons.prems(2) by simp_all
    from Cons.IH [OF wf' keeps(2)] mutation_subscription [OF Cons.prems(1), of h m opn i v]
      mutation_topic_runtime [of h w m t r] mutation_subscribed_topic [OF keeps(1), of h w opn i t]
    show ?case by (auto simp: case_prod_unfold Let_def)
  qed simp
  then show "subscription_runtime_of (fst (apply_mutations h w p)) opn i = Some v \<Longrightarrow>
      subscription_runtime_of w opn i = Some v \<or> PutSubscriptionRuntime opn i v \<in> set p"
    and "bm_get (rm_topics (ws_runtime (fst (apply_mutations h w p)))) t = Some r \<Longrightarrow>
      bm_get (rm_topics (ws_runtime w)) t = Some r \<or> PutTopicRuntime t r \<in> set p"
    and "subscribed_topic (fst (apply_mutations h w p)) opn i = Some t \<Longrightarrow> subscribed_topic w opn i = Some t"
    by blast+
qed

lemma accepted_patch:
  assumes "snd (apply_patch h g w p) = []"
  shows "snd (apply_mutations h w p) = []" "check_patch g (fst (apply_patch h g w p)) p = []"
  using assms by (auto simp: apply_patch_def case_prod_unfold Let_def split: if_splits)

lemma checked_subscription_scope:
  assumes "check_subscription_runtime w opn i v = []" "subscription_transport v" "subscribed_topic w opn i = Some t"
  shows "\<not> topic_declares w t"
  using assms by (auto simp: check_subscription_runtime_def topic_declares_def split: option.splits if_splits)

lemma checked_topic_scope:
  assumes "check_topic_runtime w t r = []" "topic_transport r"
    "subscription_runtime_of w opn i = Some v" "subscription_transport v"
  shows "subscribed_topic w opn i \<noteq> Some t"
proof -
  obtain ins where "(opn, ins) \<in> set (rm_subscriptions (ws_runtime w))" "(i, v) \<in> set ins"
    using assms(3) by (auto simp: subscription_runtime_of_def bind_eq_Some_conv dest!: map_of_SomeD)
  moreover have "\<forall>(opn, ins) \<in> set (rm_subscriptions (ws_runtime w)). \<forall>(i, r) \<in> set ins.
      \<not> (subscription_transport r \<and> subscribed_topic w opn i = Some t)"
    using assms(1,2) by (auto simp: check_topic_runtime_def accepted case_prod_unfold split: if_splits)
  ultimately show ?thesis using assms(4) by blast
qed

section \<open>Properties\<close>





text \<open>
  Transport semantics stay declared at one scope: if no topic shares them with a subscription
  of it, an accepted patch that plans no interface keeps it so.
\<close>

theorem transport_scope_kept:
  assumes "workspace_wf w" "scope_exclusive w" "list_all keeps_interfaces p" "snd (apply_patch h g w p) = []"
  shows "scope_exclusive (fst (apply_patch h g w p))"
  unfolding scope_exclusive_def
proof (intro allI impI notI)
  let ?w' = "fst (apply_patch h g w p)"
  have keeps: "\<forall>m \<in> set p. keeps_interfaces m" using assms(3) by (simp add: list_all_iff)
  note origins = patch_origins [OF assms(1) keeps, of h]
  note checked = check_patch_mutation [OF accepted_patch(2) [OF assms(4)]]
  fix opn i v t
  assume v: "subscription_runtime_of ?w' opn i = Some v" "subscription_transport v"
    and t: "subscribed_topic ?w' opn i = Some t" "topic_declares ?w' t"
  obtain r where r: "bm_get (rm_topics (ws_runtime ?w')) t = Some r" "topic_transport r"
    using t(2) by (auto simp: topic_declares_def split: option.splits)
  show False
  proof (cases "PutSubscriptionRuntime opn i v \<in> set p")
    case True
    from checked [OF this] v(2) t show False using checked_subscription_scope by fastforce
  next
    case old_v: False
    show False
    proof (cases "PutTopicRuntime t r \<in> set p")
      case True
      from checked [OF this] v t(1) r(2) show False using checked_topic_scope by fastforce
    next
      case False
      have "subscription_runtime_of w opn i = Some v" using origins(1) [of opn i v] v(1) old_v by simp
      moreover have "topic_declares w t" using origins(2) [of t r] r False by (simp add: topic_declares_def)
      moreover have "subscribed_topic w opn i = Some t" using origins(3) [of opn i t] t(1) by simp
      ultimately show False using assms(2) v(2) unfolding scope_exclusive_def by blast
    qed
  qed
qed

text \<open>A workspace with two topics, the second with transport semantics, and a subscription.\<close>

definition orders_subscription :: "id \<Rightarrow> interface_draft" where
  "orders_subscription t =
     \<lparr>if_service = Id ''api'', if_description = None,
      if_inputs = [(Id ''in'', InSubscription \<lparr>si_topic = t, si_messages = MsAll, si_acknowledge_on_success = None\<rparr>)],
      if_sketch = None\<rparr>"

definition two_topics :: workspace where
  "two_topics = (workspace_empty (run_metadata_new ''run''))
     \<lparr>ws_services := [(Id ''api'', \<lparr>sv_kind = SkBackend\<rparr>)],
      ws_topics := [(Id ''a'', \<lparr>tp_messages = [], tp_identity = MiUnspecified\<rparr>),
                    (Id ''b'', \<lparr>tp_messages = [], tp_identity = MiUnspecified\<rparr>)],
      ws_operations := [(Id ''op'', planned (orders_subscription (Id ''a'')))],
      ws_runtime := runtime_default
        \<lparr>rm_topics := [(Id ''b'', \<lparr>tpr_grouping = None, tpr_ordering = Some OrdGlobal\<rparr>)],
         rm_pools := [(Id ''pool'', \<lparr>ep_concurrency = McUnbounded\<rparr>)]\<rparr>\<rparr>"

abbreviation ordered_subscription :: subscription_runtime where
  "ordered_subscription \<equiv> \<lparr>sbr_delivery = DlUnspecified, sbr_grouping = None, sbr_ordering = Some OrdGlobal,
     sbr_dispatch = \<lparr>sd_pool = Id ''pool'', sd_routing = None\<rparr>\<rparr>"

abbreviation open_gate :: gate where
  "open_gate \<equiv> \<lparr>gt_local_diagnostics = \<lambda>m i. [], gt_compile_sketch = \<lambda>w i d s. None\<rparr>"

lemma two_topics_facts: "workspace_wf two_topics" "scope_exclusive two_topics"
  by (simp_all add: two_topics_def workspace_empty_def runtime_default_def workspace_wf_def less_id_def
        scope_exclusive_def subscription_runtime_of_def)

theorem transport_scope_kept_witness:
  "scope_exclusive (fst (apply_patch (\<lambda>c. SemanticHash []) open_gate two_topics
     [PutSubscriptionRuntime (Id ''op'') (Id ''in'') ordered_subscription]))"
  by (rule transport_scope_kept [OF two_topics_facts])
     (simp_all add: keeps_interfaces_def apply_patch_def check_patch_def check_subscription_runtime_def
        check_boundary_def check_pool_def two_topics_def workspace_empty_def runtime_default_def
        orders_subscription_def planned_def subscribed_topic_def bm_contains_def Let_def)

text \<open>
  Planning an interface is not checked for it: with a subscription that declares its own
  transport semantics, an accepted patch may move the subscription to a topic that declares them
  too, after which both scopes do.
\<close>

theorem interface_breaks_transport_scope:
  "let h = (\<lambda>c. SemanticHash []);
       w = two_topics\<lparr>ws_runtime := (ws_runtime two_topics)
             \<lparr>rm_subscriptions := [(Id ''op'', [(Id ''in'', ordered_subscription)])]\<rparr>\<rparr>;
       p = [PutOperationInterface (Id ''op'') (orders_subscription (Id ''b''))]
   in scope_exclusive w \<and> snd (apply_patch h open_gate w p) = []
      \<and> \<not> scope_exclusive (fst (apply_patch h open_gate w p))"
proof -
  let ?h = "\<lambda>c. SemanticHash []"
  let ?w = "two_topics\<lparr>ws_runtime := (ws_runtime two_topics)
             \<lparr>rm_subscriptions := [(Id ''op'', [(Id ''in'', ordered_subscription)])]\<rparr>\<rparr>"
  let ?p = "[PutOperationInterface (Id ''op'') (orders_subscription (Id ''b''))]"
  have "scope_exclusive ?w"
    by (auto simp: scope_exclusive_def subscription_runtime_of_def subscribed_topic_def topic_declares_def
        two_topics_def workspace_empty_def runtime_default_def orders_subscription_def planned_def
        bind_eq_Some_conv split: if_splits)
  moreover have "snd (apply_patch ?h open_gate ?w ?p) = []"
    by (simp add: apply_patch_def check_patch_def check_interface_def check_sketch_def put_interface_def
        recompute_stage_def two_topics_def workspace_empty_def orders_subscription_def planned_def
        bm_contains_def Let_def)
  moreover have "\<not> scope_exclusive (fst (apply_patch ?h open_gate ?w ?p))"
  proof
    assume "scope_exclusive (fst (apply_patch ?h open_gate ?w ?p))"
    moreover have "subscription_runtime_of (fst (apply_patch ?h open_gate ?w ?p)) (Id ''op'') (Id ''in'')
        = Some ordered_subscription"
      "subscribed_topic (fst (apply_patch ?h open_gate ?w ?p)) (Id ''op'') (Id ''in'') = Some (Id ''b'')"
      "topic_declares (fst (apply_patch ?h open_gate ?w ?p)) (Id ''b'')"
    by (simp_all add: subscription_runtime_of_def subscribed_topic_def topic_declares_def put_interface_def
        recompute_stage_def two_topics_def workspace_empty_def runtime_default_def orders_subscription_def
        planned_def declares_transport_def)
    moreover have "subscription_transport ordered_subscription" by (simp add: declares_transport_def)
    ultimately show False unfolding scope_exclusive_def by blast
  qed
  ultimately show ?thesis unfolding Let_def by blast
qed

text \<open>
  The messages an outbox admits are references of the patch that the gate does not look up:
  a data model whose outbox admits an undeclared schema is accepted.
\<close>

theorem undeclared_message_accepted:
  "let w = workspace_empty (run_metadata_new ''run'');
       m = PutDataModel (Id ''db'') \<lparr>dm_objects = [],
             dm_outboxes = [(Id ''events'', \<lparr>ob_messages = [Id ''Missing''], ob_identity = MiUnspecified\<rparr>)]\<rparr>
   in snd (apply_patch (\<lambda>c. SemanticHash []) open_gate w [m]) = []
      \<and> mutation_refs m = [KSchema (Id ''Missing'')]
      \<and> symbol_content (fst (apply_patch (\<lambda>c. SemanticHash []) open_gate w [m])) (KSchema (Id ''Missing'')) = None"
  by (simp add: apply_patch_def check_patch_def check_data_model_def workspace_empty_def symbol_content_def
        runtime_default_def)

end
