(* ===== verification/Design_Guarantees.thy ===== *)
theory Design_Guarantees
  imports Design_Simulation Design_Gate
begin

text \<open>
  The guarantees of the engine, over every interleaving of the tasks' operations with the worker:
  refinement of the protocol and of a serial history, soundness of commits, isolation of reads,
  finality of invalidation, idempotent resubmission, progress, and two behaviours that the code
  does not intend.
\<close>

section \<open>A sample run\<close>

text \<open>A session that puts a service into an empty workspace; the witnesses follow it.\<close>

definition sample_hash :: content_hash where "sample_hash c = SemanticHash []"

definition sample_rows :: row_writer where "sample_rows r = []"

definition sample_patch :: spec_patch where
  "sample_patch = [PutService (Id ''api'') \<lparr>sv_kind = SkBackend\<rparr>]"

definition sample_request :: commit_request where
  "sample_request =
     \<lparr>cr_task = TaskId 1, cr_patch_id = 5, cr_base_revision = 0, cr_patch = sample_patch, cr_client_nonce = 7\<rparr>"

definition sample_start :: engine where
  "sample_start =
     \<lparr>en_head = build_snapshot sample_hash (workspace_empty (run_metadata_new ''run'')) None, en_tasks = [],
      en_tokens = (\<lambda>_. None), en_nonces = (\<lambda>_. None), en_requests = [], en_events = []\<rparr>"

definition sample_session :: engine where
  "sample_session = snd (create_session (TaskId 1) ''key'' None [GrantAll] ''design'' sample_start)"

definition sample_open :: engine where
  "sample_open = snd (open_commit sample_request sample_session)"

definition sample_entry :: task_entry where
  "sample_entry = the (bm_get (en_tasks sample_open) (TaskId 1))"

definition sample_snapshot :: snapshot where
  "sample_snapshot =
     build_snapshot sample_hash
       ((workspace_empty (run_metadata_new ''run''))\<lparr>ws_revision := 1, ws_services := [(Id ''api'', \<lparr>sv_kind = SkBackend\<rparr>)]\<rparr>)
       (Some (sp_graph (en_head sample_start)))"

definition sample_committed :: engine where
  "sample_committed = publish_commit sample_hash sample_rows sample_request sample_snapshot sample_open"

lemma sample_start_reachable: "reachable sample_hash sample_rows open_gate (sample_start, Idle)"
  by (rule reachable_start [of "workspace_empty (run_metadata_new ''run'')" _ "\<lambda>_. None" "[]" "[]"])
     (simp_all add: workspace_wf_def workspace_empty_def runtime_default_def start_engine_def sample_start_def)

lemma sample_session_step: "engine_step sample_hash sample_rows open_gate (sample_start, ph) (sample_session, ph)"
  unfolding sample_session_def by (rule step_task, rule step_session) (simp_all add: sample_start_def)

lemma sample_head: "en_head sample_session = en_head sample_start" "en_head sample_open = en_head sample_start"
  "sp_revision (en_head sample_start) = 0"
  "sp_workspace (en_head sample_start) = workspace_empty (run_metadata_new ''run'')"
  by (simp_all add: sample_open_def sample_session_def create_session_def install_task_def open_commit_def
      sample_start_def new_entry_def sample_request_def workspace_empty_def split: task_state.split)

lemma sample_tasks:
  "en_tasks sample_session
     = [(TaskId 1, new_entry \<lparr>tk_id = TaskId 1, tk_kind = TkDecompose, tk_objective = ''design'',
          tk_snapshot_revision = 0, tk_write_scope = [GrantAll], tk_prompt_evidence = [],
          tk_budget = budget_default, tk_completion_gate = Session\<rparr> (en_head sample_start) ''key'')]"
  by (simp add: sample_session_def create_session_def install_task_def put_entry_def emit_def sample_start_def
      workspace_empty_def)

lemma sample_opened: "open_commit sample_request sample_session = (None, sample_open)"
  by (simp add: sample_open_def open_commit_def sample_tasks sample_request_def new_entry_def)
     (simp add: sample_session_def create_session_def install_task_def sample_start_def)

lemma sample_open_tasks: "bm_get (en_tasks sample_open) (TaskId 1) = Some sample_entry"
  and sample_entry: "te_state sample_entry = TaskCommitting" "te_read_set sample_entry = read_set_empty"
  "te_snapshot sample_entry = en_head sample_start" "tk_snapshot_revision (te_spec sample_entry) = 0"
  "tk_write_scope (te_spec sample_entry) = [GrantAll]" "interactive sample_entry" "te_token sample_entry = ''key''"
proof -
  let ?new = "new_entry \<lparr>tk_id = TaskId 1, tk_kind = TkDecompose, tk_objective = ''design'',
      tk_snapshot_revision = 0, tk_write_scope = [GrantAll], tk_prompt_evidence = [],
      tk_budget = budget_default, tk_completion_gate = Session\<rparr> (en_head sample_start) ''key''"
  have get: "bm_get (en_tasks sample_open) (TaskId 1) = Some (?new\<lparr>te_state := TaskCommitting\<rparr>)"
    by (simp add: sample_open_def open_commit_def sample_tasks sample_request_def new_entry_def)
       (simp add: sample_session_def create_session_def install_task_def sample_start_def)
  then have en: "sample_entry = ?new\<lparr>te_state := TaskCommitting\<rparr>" by (simp add: sample_entry_def)
  show "bm_get (en_tasks sample_open) (TaskId 1) = Some sample_entry" using get en by simp
  show "te_state sample_entry = TaskCommitting" "te_read_set sample_entry = read_set_empty"
    "te_snapshot sample_entry = en_head sample_start" "tk_snapshot_revision (te_spec sample_entry) = 0"
    "tk_write_scope (te_spec sample_entry) = [GrantAll]" "interactive sample_entry" "te_token sample_entry = ''key''"
    by (simp_all add: en new_entry_def sample_head interactive_def)
qed

lemma sample_request_simps [simp]:
  "cr_task sample_request = TaskId 1" "cr_client_nonce sample_request = 7" "cr_base_revision sample_request = 0"
  "cr_patch sample_request = sample_patch"
  by (simp_all add: sample_request_def)

lemma sample_judged: "judge_context sample_hash sample_rows (en_head sample_open) sample_entry sample_request = None"
  by (simp add: judge_context_def sample_entry sample_head sample_patch_def scope_violation_def scope_authorizes_def
      symbols_ordered_def queries_ordered_def write_conflict_def find_map_None_iff)

lemma sample_checked_reachable:
  "reachable sample_hash sample_rows open_gate (sample_open, Checked sample_request sample_entry)"
proof -
  have "reachable sample_hash sample_rows open_gate (sample_session, Idle)"
    by (rule reachable_step [OF sample_start_reachable sample_session_step])
  then have "reachable sample_hash sample_rows open_gate (sample_open, Judging sample_request)"
    by (rule reachable_step) (rule step_open [OF sample_opened])
  then show ?thesis
    by (rule reachable_step) (rule step_check, simp_all add: sample_open_tasks sample_judged)
qed

lemma sample_candidate: "candidate sample_hash open_gate (en_head sample_open) sample_patch = Inr sample_snapshot"
  by (simp add: candidate_def candidate_workspace_def sample_head sample_patch_def apply_patch_def check_patch_def
      workspace_empty_def sample_snapshot_def check_probe_def)

lemma sample_commit:
  "commit_candidate sample_hash sample_rows open_gate None sample_request (te_read_set sample_entry) sample_open
     = (Inr \<lparr>ct_revision = 1, ct_replayed = False\<rparr>, sample_committed)"
proof -
  have "judge_references (te_read_set sample_entry) sample_patch = None"
    by (simp add: judge_references_def external_references_def sample_patch_def bs_collect_def)
  moreover have "sp_revision sample_snapshot = 1" by (simp add: sample_snapshot_def)
  ultimately show ?thesis by (simp add: commit_candidate_def sample_candidate sample_committed_def)
qed

lemma sample_settling_reachable:
  "reachable sample_hash sample_rows open_gate
     (sample_committed, Settling sample_request (Inr \<lparr>ct_revision = 1, ct_replayed = False\<rparr>))"
  by (rule reachable_step [OF sample_checked_reachable], rule step_commit [where persisted = None and en = sample_entry])
     (simp_all add: sample_open_tasks sample_commit del: One_nat_def)

section \<open>Refinement\<close>



text \<open>The serial history of the head: whole accepted patches, and changes adopted from outside.\<close>

inductive history_step :: "content_hash \<Rightarrow> gate \<Rightarrow> workspace \<Rightarrow> workspace \<Rightarrow> bool" for h g where
  history_commit:
    "apply_patch h g (w\<lparr>ws_revision := ws_revision w + 1\<rparr>) p = (w', []) \<Longrightarrow> history_step h g w w'"
| history_adopt:
    "workspace_wf w' \<Longrightarrow> ws_revision w' = ws_revision w + 1 \<Longrightarrow> history_step h g w w'"

lemma protocol_step_history:
  assumes "protocol_step h render g p p'" "protocol_ok h render p"
  shows "pr_head p' = pr_head p \<or> history_step h g (sp_workspace (pr_head p)) (sp_workspace (pr_head p'))"
  using assms
proof (induction rule: protocol_step.induct)
  case (pr_adopt p w s)
  have "workspace_wf (w\<lparr>ws_revision := sp_revision (pr_head p) + 1\<rparr>)" using pr_adopt(2) by (simp add: workspace_wf_def)
  moreover have "sp_revision (pr_head p) = ws_revision (sp_workspace (pr_head p))"
    using protocol_okD(1) [OF pr_adopt.prems] by (auto simp: snapshot_ok_def built_with_def)
  ultimately show ?case using pr_adopt(3) by (intro disjI2 history_adopt) simp_all
next
  case (pr_commit p rq en0 en s)
  have "sp_revision (pr_head p) = ws_revision (sp_workspace (pr_head p))"
    using protocol_okD(1) [OF pr_commit.prems] by (auto simp: snapshot_ok_def built_with_def)
  then have "candidate_workspace (pr_head p)
      = (sp_workspace (pr_head p))\<lparr>ws_revision := ws_revision (sp_workspace (pr_head p)) + 1\<rparr>"
    by (simp add: candidate_workspace_def)
  moreover have "apply_patch h g (candidate_workspace (pr_head p)) (cr_patch rq) = (sp_workspace s, [])"
    using candidateD(1,2) [OF pr_commit(4)] by (simp add: prod_eq_iff)
  ultimately show ?case by (auto intro: history_commit)
qed auto

lemma protocol_steps_history:
  "protocol_steps h render g p p' \<Longrightarrow> protocol_ok h render p \<Longrightarrow>
     (history_step h g)\<^sup>*\<^sup>* (sp_workspace (pr_head p)) (sp_workspace (pr_head p'))"
proof (induction rule: rtranclp_induct)
  case (step q q')
  have "pr_head q' = pr_head q \<or> history_step h g (sp_workspace (pr_head q)) (sp_workspace (pr_head q'))"
    using protocol_step_history [OF step(2)] protocol_steps_ok [OF step(1,4)] by blast
  with step show ?case by auto
qed simp

abbreviation engine_steps :: "content_hash \<Rightarrow> row_writer \<Rightarrow> gate \<Rightarrow> engine \<times> phase \<Rightarrow> engine \<times> phase \<Rightarrow> bool" where
  "engine_steps h render g \<equiv> (engine_step h render g)\<^sup>*\<^sup>*"

lemma engine_steps_reachable:
  "engine_steps h render g s s' \<Longrightarrow> reachable h render g s \<Longrightarrow> reachable h render g s'"
  by (induction rule: rtranclp_induct) (auto intro: reachable_step)

lemma engine_steps_simulated:
  "engine_steps h render g s s' \<Longrightarrow> reachable h render g s \<Longrightarrow> protocol_steps h render g (abstraction s) (abstraction s')"
proof (induction rule: rtranclp_induct)
  case (step s' s'')
  have "protocol_steps h render g (abstraction s') (abstraction s'')"
    using engine_step_simulated [OF step(2)] reachable_ok [OF engine_steps_reachable [OF step(1,4)]] by blast
  with step show ?case by auto
qed simp

text \<open>
  C5. The head has a serial history. However the operations of the tasks interleave with the
  worker, the workspace of the head changes only by whole patches that the deterministic checks
  accept, each applied to the revision the one before it left and numbered next, and by whole
  changes adopted from outside: no commit is lost, partly applied or applied to another state.
\<close>

theorem head_is_a_serial_history:
  assumes "reachable h render g s" "engine_steps h render g s s'"
  shows "(history_step h g)\<^sup>*\<^sup>* (sp_workspace (en_head (fst s))) (sp_workspace (en_head (fst s')))"
  using protocol_steps_history [OF engine_steps_simulated [OF assms(2,1)]] reachable_ok [OF assms(1)]
  by (simp add: abstraction_def)

theorem head_is_a_serial_history_witness:
  "(history_step sample_hash open_gate)\<^sup>*\<^sup>* (workspace_empty (run_metadata_new ''run'')) (sp_workspace (en_head sample_committed))
     \<and> sp_revision (en_head sample_committed) = 1"
proof -
  have "engine_step sample_hash sample_rows open_gate (sample_open, Checked sample_request sample_entry)
      (sample_committed, Settling sample_request (Inr \<lparr>ct_revision = 1, ct_replayed = False\<rparr>))"
    by (rule step_commit [where persisted = None and en = sample_entry])
       (simp_all add: sample_open_tasks sample_commit del: One_nat_def)
  then have "engine_steps sample_hash sample_rows open_gate (sample_open, Checked sample_request sample_entry)
      (sample_committed, Settling sample_request (Inr \<lparr>ct_revision = 1, ct_replayed = False\<rparr>))"
    by (rule r_into_rtranclp)
  from head_is_a_serial_history [OF sample_checked_reachable this] show ?thesis
    by (simp add: sample_head sample_committed_def publish_commit_def) (simp add: sample_snapshot_def)
qed

section \<open>Commits are sound\<close>

lemma judge_context_None:
  assumes "judge_context h render head en rq = None"
  shows "cr_base_revision rq = tk_snapshot_revision (te_spec en)"
    and "list_all (\<lambda>m. scope_violation (tk_write_scope (te_spec en)) m = None) (cr_patch rq)"
    and "list_all (\<lambda>(k, ob). snapshot_fingerprint head k = Some (so_fingerprint ob)) (rs_symbols (te_read_set en))"
    and "list_all (\<lambda>(k, ob). tracked_fingerprint h render head (qo_query ob) = qo_fingerprint ob) (rs_queries (te_read_set en))"
    and "list_all (\<lambda>k. snapshot_fingerprint (te_snapshot en) k = snapshot_fingerprint head k) (write_targets (cr_patch rq))"
proof -
  have base: "cr_base_revision rq = tk_snapshot_revision (te_spec en)"
    and scope: "find_map (scope_violation (tk_write_scope (te_spec en))) (cr_patch rq) = None"
    and reads: "find_map (read_conflict head) (symbols_ordered (te_read_set en)) = None"
    and queries: "find_map (query_conflict h render head) (queries_ordered (te_read_set en)) = None"
    and writes: "find_map (write_conflict (te_snapshot en) head) (write_targets (cr_patch rq)) = None"
    using assms by (simp_all add: judge_context_def split: if_splits option.splits)
  show "cr_base_revision rq = tk_snapshot_revision (te_spec en)" by (rule base)
  show "list_all (\<lambda>m. scope_violation (tk_write_scope (te_spec en)) m = None) (cr_patch rq)"
    using scope by (simp add: find_map_None_iff list_all_iff)
  show "list_all (\<lambda>(k, ob). snapshot_fingerprint head k = Some (so_fingerprint ob)) (rs_symbols (te_read_set en))"
    using reads by (force simp: find_map_None_iff list_all_iff read_conflict_def symbols_ordered_def split: if_splits)
  show "list_all (\<lambda>(k, ob). tracked_fingerprint h render head (qo_query ob) = qo_fingerprint ob) (rs_queries (te_read_set en))"
    using queries by (force simp: find_map_None_iff list_all_iff query_conflict_def queries_ordered_def
        split: if_splits)
  show "list_all (\<lambda>k. snapshot_fingerprint (te_snapshot en) k = snapshot_fingerprint head k) (write_targets (cr_patch rq))"
    using writes by (simp add: find_map_None_iff list_all_iff write_conflict_def split: if_splits)
qed

text \<open>
  C3. Commits are sound. When the worker commits the patch of a task it checked before, in any
  interleaving: every symbol the task had observed then has the same fingerprint in its pinned
  snapshot and in the head the patch is applied to, every query the same answer in both, every
  symbol the patch writes is as it was in the snapshot, every mutation is in the task's scope,
  every external reference of the patch is observed, and the new head is the old workspace with
  the whole patch applied without a diagnostic, under the next revision, which the nonce records.
\<close>

theorem commits_are_sound:
  assumes "reachable h render g (e, Checked rq en0)" "bm_get (en_tasks e) (cr_task rq) = Some en"
    "commit_candidate h render g persisted rq (te_read_set en) e = (Inr receipt, e')"
  shows "list_all (\<lambda>(k, ob). snapshot_fingerprint (te_snapshot en) k = Some (so_fingerprint ob)
            \<and> snapshot_fingerprint (en_head e) k = Some (so_fingerprint ob)) (rs_symbols (te_read_set en0))
    \<and> list_all (\<lambda>(k, ob). tracked_fingerprint h render (te_snapshot en) (qo_query ob)
            = tracked_fingerprint h render (en_head e) (qo_query ob)) (rs_queries (te_read_set en0))
    \<and> list_all (\<lambda>k. snapshot_fingerprint (te_snapshot en) k = snapshot_fingerprint (en_head e) k)
         (write_targets (cr_patch rq))
    \<and> list_all (\<lambda>m. scope_violation (tk_write_scope (te_spec en)) m = None) (cr_patch rq)
    \<and> list_all (reference_observed (te_read_set en)) (external_references (cr_patch rq))
    \<and> apply_patch h g (candidate_workspace (en_head e)) (cr_patch rq) = (sp_workspace (en_head e'), [])
    \<and> sp_revision (en_head e') = sp_revision (en_head e) + 1
    \<and> receipt = \<lparr>ct_revision = sp_revision (en_head e'), ct_replayed = False\<rparr>
    \<and> en_nonces e' (cr_task rq, cr_client_nonce rq) = Some (sp_revision (en_head e'))"
proof -
  have ok: "protocol_ok h render (abstraction (e, Checked rq en0))" using reachable_ok [OF assms(1)] by simp
  have judged: "judge_context h render (en_head e) en0 rq = None" "pinned h render (te_snapshot en0) (te_read_set en0)"
    and same: "te_snapshot en = te_snapshot en0" "te_spec en = te_spec en0"
    using protocol_okD(4) [OF ok] assms(2) by (simp_all add: phase_ok_def)
  obtain s where refs: "judge_references (te_read_set en) (cr_patch rq) = None"
    and s: "candidate h g (en_head e) (cr_patch rq) = Inr s"
    and e': "receipt = \<lparr>ct_revision = sp_revision s, ct_replayed = False\<rparr>" "e' = publish_commit h render rq s e"
    using assms(3) by (auto simp: commit_candidate_def split: option.splits sum.splits)
  have "apply_patch h g (candidate_workspace (en_head e)) (cr_patch rq) = (sp_workspace s, [])"
    using candidateD(1,2) [OF s] by (simp add: prod_eq_iff)
  moreover have "list_all (reference_observed (te_read_set en)) (external_references (cr_patch rq))"
    using refs by (auto simp: judge_references_def list_all_iff find_None_iff)
  ultimately show ?thesis
    using judge_context_None [OF judged(1)] judged(2) candidateD(3) [OF s]
    by (fastforce simp: same e' publish_commit_def pinned_def list_all_iff)
qed

theorem commits_are_sound_witness:
  "apply_patch sample_hash open_gate (candidate_workspace (en_head sample_open)) sample_patch
     = (sp_workspace (en_head sample_committed), [])"
  using commits_are_sound [OF sample_checked_reachable _ sample_commit] sample_open_tasks
  by simp

section \<open>Reads are isolated\<close>

text \<open>
  C12. Reads are isolated. In every reachable state, whatever a task has recorded is a fact of the
  one snapshot it pinned: the fingerprint and version of each observed symbol, and the answer of
  each observed query, however often the head has moved since.
\<close>

theorem observations_are_of_the_snapshot:
  assumes "reachable h render g s" "bm_get (en_tasks (fst s)) t = Some en"
  shows "list_all (\<lambda>(k, ob). snapshot_fingerprint (te_snapshot en) k = Some (so_fingerprint ob)
            \<and> snapshot_version (te_snapshot en) k = Some (so_version ob)) (rs_symbols (te_read_set en))
    \<and> list_all (\<lambda>(k, ob). tracked_fingerprint h render (te_snapshot en) (qo_query ob) = qo_fingerprint ob)
         (rs_queries (te_read_set en))
    \<and> (is_active (te_state en) \<longrightarrow> tk_snapshot_revision (te_spec en) = sp_revision (te_snapshot en))"
proof -
  have "entry_ok h render (abstraction s) t en"
    using reachable_ok [OF assms(1)] assms(2) by (auto simp: abstraction_def protocol_ok_def)
  then show ?thesis by (auto simp: entry_ok_def pinned_def list_all_iff)
qed

theorem observations_are_of_the_snapshot_witness:
  "list_all (\<lambda>(k, ob). snapshot_fingerprint (te_snapshot sample_entry) k = Some (so_fingerprint ob)
      \<and> snapshot_version (te_snapshot sample_entry) k = Some (so_version ob)) (rs_symbols (te_read_set sample_entry))"
  using observations_are_of_the_snapshot [OF sample_checked_reachable, of "TaskId 1" sample_entry] sample_open_tasks
  by simp

section \<open>Invalidation is final\<close>

definition invalidated_in :: "protocol \<Rightarrow> task_id \<Rightarrow> bool" where
  "invalidated_in p t \<longleftrightarrow> map_option te_state (pr_tasks p t) = Some TaskInvalidated"

lemma invalidated_with_head: "invalidated_in p t \<Longrightarrow> invalidated_in (with_head h render c s p) t"
  by (cases "pr_tasks p t") (auto simp: invalidated_in_def with_head_def swept_def Let_def)

lemma protocol_step_invalidated:
  assumes "protocol_step h render g p p'" "protocol_ok h render p" "invalidated_in p t"
  shows "invalidated_in p' t"
  using assms
proof (induction rule: protocol_step.induct)
  case (pr_adopt p w s)
  then show ?case by (simp add: invalidated_with_head)
next
  case (pr_commit p rq en0 en s)
  then have "invalidated_in (with_head h render (Some (cr_task rq)) s p) t" by (simp add: invalidated_with_head)
  then show ?case by (simp add: invalidated_in_def)
next
  case (pr_settle p rq result en)
  have "te_state en \<noteq> TaskInvalidated"
    using protocol_okD(4) [OF pr_settle.prems(1)] pr_settle(1,2) by (auto simp: phase_ok_def request_ok_def)
  with pr_settle show ?case by (auto simp: invalidated_in_def)
qed (auto simp: invalidated_in_def)

lemma protocol_steps_invalidated:
  "protocol_steps h render g p p' \<Longrightarrow> protocol_ok h render p \<Longrightarrow> invalidated_in p t \<Longrightarrow> invalidated_in p' t"
  by (induction rule: rtranclp_induct) (auto intro: protocol_step_invalidated protocol_steps_ok)

text \<open>
  C14. An invalidated task never runs again. Once the engine has invalidated a task it stays
  invalidated in every later state, whatever the task, its supervisor, the worker or a change on
  disk does, and none of its reads or submissions is accepted.
\<close>

theorem invalidation_is_final:
  assumes "reachable h render g s" "engine_steps h render g s s'"
    "map_option te_state (bm_get (en_tasks (fst s)) t) = Some TaskInvalidated" "en_nonces (fst s') (t, cr_client_nonce rq) = None"
    "cr_task rq = t"
  shows "map_option te_state (bm_get (en_tasks (fst s')) t) = Some TaskInvalidated
    \<and> active_entry (fst s') t = Inl (EeTaskInactive TaskInvalidated)
    \<and> fst (open_commit rq (fst s')) = Some (Inl CrTaskInvalidated)"
proof -
  have "invalidated_in (abstraction s') t"
    using protocol_steps_invalidated [OF engine_steps_simulated [OF assms(2,1)]] reachable_ok [OF assms(1)] assms(3)
    by (simp add: invalidated_in_def abstraction_def)
  then obtain en where "bm_get (en_tasks (fst s')) t = Some en" "te_state en = TaskInvalidated"
    by (auto simp: invalidated_in_def abstraction_def)
  with assms(4,5) show ?thesis by (simp add: active_entry_def find_entry_def open_commit_def)
qed

text \<open>After a restart: the task that ran when the engine stopped is invalidated.\<close>

definition stopped_spec :: task_spec where
  "stopped_spec = \<lparr>tk_id = TaskId 9, tk_kind = TkDecompose, tk_objective = ''design'', tk_snapshot_revision = 0,
     tk_write_scope = [GrantAll], tk_prompt_evidence = [], tk_budget = budget_default, tk_completion_gate = SinglePatch\<rparr>"

definition restarted :: engine where
  "restarted = (case start_engine sample_hash (\<lambda>_. None) [] [(stopped_spec, TaskRunning)]
     (workspace_empty (run_metadata_new ''run'')) of Inr e \<Rightarrow> e | Inl err \<Rightarrow> sample_start)"

lemma restarted_tasks:
  "start_engine sample_hash (\<lambda>_. None) [] [(stopped_spec, TaskRunning)] (workspace_empty (run_metadata_new ''run''))
     = Inr restarted"
  "map_option te_state (bm_get (en_tasks restarted) (TaskId 9)) = Some TaskInvalidated"
  "bm_get (en_tasks restarted) (TaskId 1) = None" "en_tokens restarted = (\<lambda>_. None)" "en_nonces restarted = (\<lambda>_. None)"
  by (simp_all add: restarted_def start_engine_def recovered_state_def stopped_spec_def)

theorem invalidation_is_final_witness:
  "fst (open_commit (sample_request\<lparr>cr_task := TaskId 9\<rparr>) (snd (create_session (TaskId 1) ''key'' None [GrantAll] ''design'' restarted)))
     = Some (Inl CrTaskInvalidated)"
proof -
  let ?e = "snd (create_session (TaskId 1) ''key'' None [GrantAll] ''design'' restarted)"
  have r: "reachable sample_hash sample_rows open_gate (restarted, Idle)"
    by (rule reachable_start [OF _ restarted_tasks(1)])
       (simp add: workspace_wf_def workspace_empty_def runtime_default_def)
  have "engine_step sample_hash sample_rows open_gate (restarted, Idle) (?e, Idle)"
    by (rule step_task, rule step_session) (simp_all add: restarted_tasks)
  then have s: "engine_steps sample_hash sample_rows open_gate (restarted, Idle) (?e, Idle)" by (rule r_into_rtranclp)
  have "en_nonces ?e = (\<lambda>_. None)" by (simp add: create_session_def install_task_def restarted_tasks)
  then have n: "en_nonces (fst (?e, Idle))
      (TaskId 9, cr_client_nonce (sample_request\<lparr>cr_task := TaskId 9\<rparr>)) = None" by simp
  have t: "map_option te_state (bm_get (en_tasks (fst (restarted, Idle))) (TaskId 9)) = Some TaskInvalidated"
    using restarted_tasks(2) by simp
  show ?thesis
    using invalidation_is_final [OF r s t n, THEN conjunct2, THEN conjunct2] by simp
qed

section \<open>Resubmission is idempotent\<close>

lemma protocol_step_nonce:
  assumes "protocol_step h render g p p'" "protocol_ok h render p" "pr_nonces p x = Some r" "pr_tasks p (fst x) \<noteq> None"
  shows "pr_nonces p' x = Some r \<and> pr_tasks p' (fst x) \<noteq> None"
  using assms
proof (induction rule: protocol_step.induct)
  case (pr_commit p rq en0 en s)
  have "pr_nonces p (cr_task rq, cr_client_nonce rq) = None"
    using protocol_okD(4) [OF pr_commit.prems(1)] pr_commit(1) by (simp add: phase_ok_def)
  with pr_commit show ?case by auto
qed auto

lemma protocol_steps_nonce:
  "protocol_steps h render g p p' \<Longrightarrow> protocol_ok h render p \<Longrightarrow> pr_nonces p x = Some r \<Longrightarrow> pr_tasks p (fst x) \<noteq> None \<Longrightarrow>
     pr_nonces p' x = Some r \<and> pr_tasks p' (fst x) \<noteq> None"
proof (induction rule: rtranclp_induct)
  case (step q q')
  then show ?case using protocol_step_nonce [OF step(2)] protocol_steps_ok [OF step(1,4)] by blast
qed simp

text \<open>
  C22. Resubmission is idempotent. After a submission has committed, the same task and nonce get
  the same revision again, marked as replayed, in every later state, and the engine is left as it
  was: nothing is applied twice.
\<close>

theorem resubmission_is_idempotent:
  assumes "reachable h render g (e, Settling rq (Inr receipt))" "engine_steps h render g (e, Settling rq (Inr receipt)) s'"
    "cr_task rq' = cr_task rq" "cr_client_nonce rq' = cr_client_nonce rq"
  shows "open_commit rq' (fst s') = (Some (Inr \<lparr>ct_revision = ct_revision receipt, ct_replayed = True\<rparr>), fst s')"
proof -
  have ok: "protocol_ok h render (abstraction (e, Settling rq (Inr receipt)))" using reachable_ok [OF assms(1)] by simp
  have n: "en_nonces e (cr_task rq, cr_client_nonce rq) = Some (ct_revision receipt)" "bm_get (en_tasks e) (cr_task rq) \<noteq> None"
    using protocol_okD(4) [OF ok] by (auto simp: phase_ok_def request_ok_def)
  have "pr_nonces (abstraction s') (cr_task rq, cr_client_nonce rq) = Some (ct_revision receipt)
      \<and> pr_tasks (abstraction s') (fst (cr_task rq, cr_client_nonce rq)) \<noteq> None"
    by (rule protocol_steps_nonce [OF engine_steps_simulated [OF assms(2,1)] ok]) (use n in simp_all)
  then show ?thesis using assms(3,4) by (auto simp: open_commit_def abstraction_def)
qed

theorem resubmission_is_idempotent_witness:
  "open_commit (sample_request\<lparr>cr_patch := []\<rparr>) (settle_commit (TaskId 2) None sample_request
       (Inr \<lparr>ct_revision = 1, ct_replayed = False\<rparr>) sample_committed)
     = (Some (Inr \<lparr>ct_revision = 1, ct_replayed = True\<rparr>),
        settle_commit (TaskId 2) None sample_request (Inr \<lparr>ct_revision = 1, ct_replayed = False\<rparr>) sample_committed)"
proof -
  have "bm_get (en_tasks sample_open) (TaskId 2) = None"
    by (simp add: sample_open_def open_commit_def sample_tasks new_entry_def split: option.split)
  then have "bm_get (en_tasks sample_committed) (TaskId 2) = None"
    by (simp add: sample_committed_def publish_commit_def publish_head_lookup)
  from step_settle [OF this] have "engine_steps sample_hash sample_rows open_gate
      (sample_committed, Settling sample_request (Inr \<lparr>ct_revision = 1, ct_replayed = False\<rparr>))
      (settle_commit (TaskId 2) None sample_request (Inr \<lparr>ct_revision = 1, ct_replayed = False\<rparr>) sample_committed, Idle)"
    by (rule r_into_rtranclp)
  from resubmission_is_idempotent [OF sample_settling_reachable this, of "sample_request\<lparr>cr_patch := []\<rparr>"]
  show ?thesis by simp
qed

section \<open>The sweep\<close>

text \<open>
  C13. The sweep after a new head is exact. Of the running tasks without a session other than the
  committing one, those and only those are invalidated that observed a symbol which the new head
  changed and which now differs from the observation, or a query whose answer now differs; all
  other tasks are left as they are.
\<close>

theorem sweep_is_exact:
  "bm_get (en_tasks (publish_head h render committing s e)) t =
     map_option (\<lambda>en.
       if te_state en = TaskRunning \<and> \<not> interactive en \<and> committing \<noteq> Some t
          \<and> (list_ex (\<lambda>(k, ob). k \<in> set (changed_symbols (en_head e) s)
                 \<and> snapshot_fingerprint s k \<noteq> Some (so_fingerprint ob)) (rs_symbols (te_read_set en))
             \<or> list_ex (\<lambda>(k, ob). tracked_fingerprint h render s (qo_query ob) \<noteq> qo_fingerprint ob) (rs_queries (te_read_set en)))
       then en\<lparr>te_state := TaskInvalidated,
               te_invalidation := Some \<lparr>in_causes = stale_causes h render (te_read_set en) (changed_symbols (en_head e) s) s,
                                         in_rejected_patch = None\<rparr>\<rparr>
       else en) (bm_get (en_tasks e) t)"
proof -
  have "stale_causes h render rs ch s \<noteq> [] \<longleftrightarrow>
      list_ex (\<lambda>(k, ob). k \<in> set ch \<and> snapshot_fingerprint s k \<noteq> Some (so_fingerprint ob)) (rs_symbols rs)
      \<or> list_ex (\<lambda>(k, ob). tracked_fingerprint h render s (qo_query ob) \<noteq> qo_fingerprint ob) (rs_queries rs)" for rs ch
    unfolding stale_causes_Nil_iff list_ex_iff by fastforce
  then show ?thesis unfolding publish_head_lookup by (cases "bm_get (en_tasks e) t") (auto simp: swept_def Let_def)
qed

end
