(* ===== verification/Design_Progress.thy ===== *)
theory Design_Progress
  imports Design_Guarantees
begin

text \<open>
  Finality of invalidation at work, progress of a valid submission, and two behaviours of the
  engine that its own comments do not intend: a cancellation that the worker overwrites and a
  kind of symbol whose writes never conflict.
\<close>

section \<open>A valid submission commits\<close>

lemma judge_context_NoneI:
  assumes "cr_base_revision rq = tk_snapshot_revision (te_spec en)"
    and "list_all (\<lambda>m. scope_violation (tk_write_scope (te_spec en)) m = None) (cr_patch rq)"
    and "list_all (\<lambda>(k, ob). snapshot_fingerprint head k = Some (so_fingerprint ob)) (rs_symbols (te_read_set en))"
    and "list_all (\<lambda>(k, ob). tracked_fingerprint h render head (qo_query ob) = qo_fingerprint ob) (rs_queries (te_read_set en))"
    and "list_all (\<lambda>k. snapshot_fingerprint (te_snapshot en) k = snapshot_fingerprint head k) (write_targets (cr_patch rq))"
  shows "judge_context h render head en rq = None"
proof -
  have "find_map (scope_violation (tk_write_scope (te_spec en))) (cr_patch rq) = None"
    using assms(2) by (simp add: find_map_None_iff list_all_iff)
  moreover have "find_map (read_conflict head) (symbols_ordered (te_read_set en)) = None"
    using assms(3) by (auto simp: find_map_None_iff list_all_iff read_conflict_def symbols_ordered_def)
  moreover have "find_map (query_conflict h render head) (queries_ordered (te_read_set en)) = None"
    using assms(4) by (auto simp: find_map_None_iff list_all_iff query_conflict_def queries_ordered_def)
  moreover have "find_map (write_conflict (te_snapshot en) head) (write_targets (cr_patch rq)) = None"
    using assms(5) by (simp add: find_map_None_iff list_all_iff write_conflict_def)
  ultimately show ?thesis using assms(1) by (simp add: judge_context_def)
qed

text \<open>
  C6. A valid submission commits. In a reachable state with an idle worker, a running task whose
  observations and write targets are in the head as they are in its snapshot, with a patch in its
  scope, with every external reference observed, and without a diagnostic, is never refused:
  processing it publishes the next revision and leaves the task committed; an interactive session
  goes on, its token resolving to a running successor pinned at the new head.
\<close>

theorem valid_submission_commits:
  assumes "reachable h render g (e, Idle)" "bm_get (en_tasks e) (cr_task rq) = Some en" "te_state en = TaskRunning"
    "en_nonces e (cr_task rq, cr_client_nonce rq) = None" "cr_base_revision rq = sp_revision (te_snapshot en)"
    "list_all (\<lambda>m. scope_violation (tk_write_scope (te_spec en)) m = None) (cr_patch rq)"
    "list_all (\<lambda>(k, ob). snapshot_fingerprint (en_head e) k = snapshot_fingerprint (te_snapshot en) k) (rs_symbols (te_read_set en))"
    "list_all (\<lambda>(k, ob). tracked_fingerprint h render (en_head e) (qo_query ob)
        = tracked_fingerprint h render (te_snapshot en) (qo_query ob)) (rs_queries (te_read_set en))"
    "list_all (\<lambda>k. snapshot_fingerprint (te_snapshot en) k = snapshot_fingerprint (en_head e) k) (write_targets (cr_patch rq))"
    "list_all (reference_observed (te_read_set en)) (external_references (cr_patch rq))"
    "snd (apply_patch h g (candidate_workspace (en_head e)) (cr_patch rq)) = []"
    "cw_persisted cw = None" "cw_stored cw = None" "bm_get (en_tasks e) (cw_successor cw) = None"
  shows "fst (process_commit h render g cw rq e)
      = Inr \<lparr>ct_revision = sp_revision (en_head e) + 1, ct_replayed = False\<rparr>
    \<and> (case snd (process_commit h render g cw rq e) of e' \<Rightarrow>
         sp_revision (en_head e') = sp_revision (en_head e) + 1
         \<and> map_option te_state (bm_get (en_tasks e') (cr_task rq)) = Some TaskCommitted
         \<and> (if interactive en
            then en_tokens e' (te_token en) = Some (cw_successor cw)
              \<and> bm_get (en_tasks e') (cw_successor cw)
                  = Some (new_entry ((te_spec en)\<lparr>tk_id := cw_successor cw\<rparr>) (en_head e') (te_token en))
            else True))"
proof -
  let ?en = "en\<lparr>te_state := TaskCommitting\<rparr>"
  let ?e1 = "put_entry (cr_task rq) ?en e"
  have "entry_ok h render (abstraction (e, Idle)) (cr_task rq) en"
    using reachable_ok [OF assms(1)] assms(2) by (auto simp: protocol_ok_def)
  then have pinned: "pinned h render (te_snapshot en) (te_read_set en)"
    and rev: "tk_snapshot_revision (te_spec en) = sp_revision (te_snapshot en)"
    using assms(3) by (auto simp: entry_ok_def)
  have opened: "open_commit rq e = (None, ?e1)" using assms(2,3,4) by (simp add: open_commit_def)
  have reads: "list_all (\<lambda>(k, ob). snapshot_fingerprint (en_head e) k = Some (so_fingerprint ob)) (rs_symbols (te_read_set en))"
    using assms(7) pinned by (fastforce simp: pinned_def list_all_iff)
  have queries: "list_all (\<lambda>(k, ob). tracked_fingerprint h render (en_head e) (qo_query ob) = qo_fingerprint ob) (rs_queries (te_read_set en))"
    using assms(8) pinned by (fastforce simp: pinned_def list_all_iff)
  have judged: "judge_context h render (en_head ?e1) ?en rq = None"
    by (rule judge_context_NoneI) (use assms(5,6,9) rev reads queries in simp_all)
  have refs: "judge_references (te_read_set ?en) (cr_patch rq) = None"
    using assms(10) by (auto simp: judge_references_def list_all_iff find_None_iff)
  obtain s where s: "candidate h g (en_head ?e1) (cr_patch rq) = Inr s"
    using assms(11) by (simp add: candidate_def case_prod_beta)
  have srev: "sp_revision s = sp_revision (en_head e) + 1" using candidateD(3) [OF s] by simp
  let ?e2 = "publish_commit h render rq s ?e1"
  have committed: "validate_and_commit h render g (cw_persisted cw) rq ?en ?e1
      = (Inr \<lparr>ct_revision = sp_revision s, ct_replayed = False\<rparr>, ?e2)"
    by (simp only: validate_and_commit_def judged refs commit_candidate_def s assms(12) option.case sum.case)
  have ne: "cw_successor cw \<noteq> cr_task rq" using assms(2,14) by auto
  have task: "bm_get (en_tasks ?e2) (cr_task rq) = Some ?en"
    by (simp add: publish_commit_def publish_head_lookup swept_def)
  have free: "bm_get (en_tasks ?e2) (cw_successor cw) = None"
    using ne assms(14) by (simp add: publish_commit_def publish_head_lookup)
  have head: "en_head ?e2 = s" by (simp add: publish_commit_def)
  have get: "bm_get (en_tasks ?e1) (cr_task rq) = Some ?en" by simp
  have result: "process_commit h render g cw rq e
      = (Inr \<lparr>ct_revision = sp_revision s, ct_replayed = False\<rparr>,
         settle_commit (cw_successor cw) None rq (Inr \<lparr>ct_revision = sp_revision s, ct_replayed = False\<rparr>) ?e2)"
    by (simp only: process_commit_def opened committed get assms(13) prod.case option.case)
  show ?thesis
    unfolding result
    using ne by (simp add: settle_commit_def task head srev spawn_interactive_successor_def install_task_def Let_def
        interactive_def new_entry_def token_revoke_def)
qed

lemma sample_session_nonces: "en_nonces sample_session = (\<lambda>_. None)"
  by (simp add: sample_session_def create_session_def install_task_def sample_start_def)

theorem valid_submission_commits_witness:
  "fst (process_commit sample_hash sample_rows open_gate \<lparr>cw_persisted = None, cw_successor = TaskId 2, cw_stored = None\<rparr>
     sample_request sample_session) = Inr \<lparr>ct_revision = 1, ct_replayed = False\<rparr>"
proof -
  have r: "reachable sample_hash sample_rows open_gate (sample_session, Idle)"
    by (rule reachable_step [OF sample_start_reachable sample_session_step])
  have p: "snd (apply_patch sample_hash open_gate (candidate_workspace (en_head sample_start)) sample_patch) = []"
    by (simp add: candidate_workspace_def sample_head sample_patch_def apply_patch_def check_patch_def
        workspace_empty_def check_probe_def)
  show ?thesis
    by (subst valid_submission_commits [where en = "the (bm_get (en_tasks sample_session) (TaskId 1))",
        OF r, THEN conjunct1])
       (simp_all add: sample_tasks new_entry_def sample_head p [unfolded sample_patch_def] sample_session_nonces
          scope_violation_def scope_authorizes_def sample_patch_def external_references_def bs_collect_def list.pred_True del: One_nat_def)
qed

lemma sample_second_free: "bm_get (en_tasks sample_open) (TaskId 2) = None"
  by (simp add: sample_open_def open_commit_def sample_tasks new_entry_def split: option.split)

section \<open>A cancellation the worker overwrites\<close>

text \<open>
  C39. A cancellation during a commit is lost. Cancelling a task whose submission is being judged
  reports success and revokes its token; when the worker then settles the submission, the task is
  committed, or running again after a fixable rejection, and a cancelled interactive session is
  replaced by a running successor to which its revoked token resolves again.
\<close>

theorem cancel_while_committing_is_lost:
  assumes "bm_get (en_tasks e) (cr_task rq) = Some en" "te_state en = TaskCommitting" "interactive en"
    "cancel_task None (cr_task rq) e = (reply, e1)" "bm_get (en_tasks e) fresh = None"
  shows "reply = None
    \<and> map_option te_state (bm_get (en_tasks e1) (cr_task rq)) = Some TaskCancelled
    \<and> en_tokens e1 (te_token en) \<noteq> Some (cr_task rq)
    \<and> map_option te_state (bm_get (en_tasks (settle_commit fresh None rq (Inl r) e1)) (cr_task rq)) = Some TaskRunning
    \<and> (case settle_commit fresh None rq (Inr receipt) e1 of e2 \<Rightarrow>
         map_option te_state (bm_get (en_tasks e2) (cr_task rq)) = Some TaskCommitted
         \<and> en_tokens e2 (te_token en) = Some fresh
         \<and> map_option te_state (bm_get (en_tasks e2) fresh) = Some TaskRunning)"
proof -
  have ne: "fresh \<noteq> cr_task rq" using assms(1,5) by auto
  have e1: "reply = None" "e1 = emit (EvTaskStateChanged (cr_task rq) TaskCancelled)
      ((put_entry (cr_task rq) (en\<lparr>te_state := TaskCancelled\<rparr>) e)
         \<lparr>en_tokens := token_revoke (cr_task rq) (en_tokens (put_entry (cr_task rq) (en\<lparr>te_state := TaskCancelled\<rparr>) e))\<rparr>)"
    using assms(1,2,4) by (auto simp: cancel_task_def finish_task_def find_entry_def change_entry_def Let_def)
  show ?thesis
    using ne assms(3) by (simp add: e1 settle_commit_def spawn_interactive_successor_def install_task_def Let_def
        interactive_def new_entry_def token_revoke_def)
qed

theorem cancel_while_committing_is_lost_witness:
  "en_tokens (settle_commit (TaskId 2) None sample_request (Inr \<lparr>ct_revision = 1, ct_replayed = False\<rparr>)
     (snd (cancel_task None (TaskId 1) sample_open))) ''key'' = Some (TaskId 2)"
  using cancel_while_committing_is_lost [where rq = sample_request and e = sample_open and en = sample_entry
      and fresh = "TaskId 2" and reply = "fst (cancel_task None (TaskId 1) sample_open)"
      and ?e1.0 = "snd (cancel_task None (TaskId 1) sample_open)" and receipt = "\<lparr>ct_revision = 1, ct_replayed = False\<rparr>"]
  by (simp add: sample_open_tasks sample_entry sample_second_free)

section \<open>Writes that never conflict\<close>

text \<open>
  C40. Writes of outbox runtimes never conflict. An outbox runtime has no node in the semantic
  graph, so in every reachable state a task may replace it whatever the head has made of it since
  the task's snapshot: the write is no conflict, the change is not among the changed symbols that
  invalidate readers, and the symbol cannot be read.
\<close>

theorem outbox_runtime_never_conflicts:
  assumes "reachable h render g s" "bm_get (en_tasks (fst s)) t = Some en"
  shows "write_conflict (te_snapshot en) (en_head (fst s)) (KOutboxRuntime opn i) = None
    \<and> KOutboxRuntime opn i \<notin> set (changed_symbols (te_snapshot en) (en_head (fst s)))
    \<and> (is_active (te_state en) \<longrightarrow>
         read_symbol h hub t (KOutboxRuntime opn i) (fst s) = (Inl (EeUnknownSymbol (KOutboxRuntime opn i)), fst s))"
proof -
  have ok: "protocol_ok h render (abstraction s)" using reachable_ok [OF assms(1)] by simp
  have b: "snapshot_ok h (en_head (fst s))" "snapshot_ok h (te_snapshot en)"
    using protocol_okD(1,2) [OF ok] assms(2) by (auto simp: abstraction_def entry_ok_def)
  have none: "snapshot_fingerprint u (KOutboxRuntime opn i) = None" if "snapshot_ok h u" for u
    using \<open>snapshot_ok h u\<close>
    by (auto simp: snapshot_ok_def built_with_def snapshot_fingerprint_def build_graph_fingerprint
        node_requests_fingerprint symbol_fingerprint_def symbol_content_def)
  have "graph_node (sp_graph (te_snapshot en)) (KOutboxRuntime opn i) = None"
    using none [OF b(2)] by (simp add: snapshot_fingerprint_def graph_fingerprint_def)
  then show ?thesis
    using changed_symbols_exact [of h "te_snapshot en" "en_head (fst s)"] none [OF b(1)] none [OF b(2)] b assms(2)
    by (auto simp: write_conflict_def snapshot_ok_def read_symbol_def read_node_def active_entry_def find_entry_def)
qed

theorem outbox_runtime_never_conflicts_witness:
  "write_conflict (te_snapshot sample_entry) (en_head sample_open) (KOutboxRuntime (Id ''a'') (Id ''b'')) = None"
  using outbox_runtime_never_conflicts [OF sample_checked_reachable, of "TaskId 1" sample_entry "Id ''a''" "Id ''b''"]
  by (simp add: sample_open_tasks)

end
