(* ===== verification/Validate_Errors.thy ===== *)
theory Validate_Errors
  imports Spec_Model
begin

text \<open>
  The vocabulary of model validation: kinds of references (\<open>analyzer/validation/reference.rs\<close>),
  declarations of ids (\<open>id_declaration.rs\<close>) and the validation errors (\<open>error.rs\<close>), each
  constructor with the fields of the source in their order. The error enum of the source is one
  enum of ninety variants; here its variants are grouped by subject. A \<open>usize\<close> is a \<open>nat\<close>.
\<close>

datatype (plugins only: code) reference_kind =
    RkService
  | RkSchema
  | RkDataModel
  | RkDataObject
  | RkOutbox
  | RkTopic
  | RkStateMachine
  | RkState
  | RkTransition
  | RkOperation
  | RkInput
  | RkEffect
  | RkEffectIntent
  | RkTransactionOutput
  | RkTransaction
  | RkTransactionRead
  | RkEffectResult
  | RkAsyncHandle
  | RkExecutionPool
  | RkRouter
  | RkStorageLayout

record id_declaration =
  id_kind :: reference_kind
  id_owner :: "id option"

datatype input_kind = IkRequest | IkSubscription | IkOutbox

fun input_kind_of :: "op_input \<Rightarrow> input_kind" where
  "input_kind_of (InRequest r) = IkRequest"
| "input_kind_of (InSubscription s) = IkSubscription"
| "input_kind_of (InOutbox b) = IkOutbox"

datatype transaction_requirement_family = TfSerializability | TfOrdering

datatype entry_unavailability =
    EuTransactionRead id
  | EuArtifactNotAvailable id
  | EuResultNotBound id
  | EuResultPayloadOutOfScope id

datatype managed_role = MrVersion | MrCursor cursor_advance_rule | MrFence

datatype version_field_defect = VdUnresolved | VdOptional | VdNotInt string | VdIdentityField

datatype managed_field_defect =
    MdUnresolved
  | MdOptional
  | MdNotOrderedScalar string
  | MdNotInt string
  | MdValueTypeMismatch string string

datatype program_use =
    PuTransaction id
  | PuEffect id
  | PuEffectIntent id
  | PuJoinAll
  | PuRace
  | PuMatch
  | PuCondition
  | PuReturn id

datatype (plugins only: code) reference_error =
    VeDuplicateId id id_declaration id_declaration
  | VeUnknownReference id id reference_kind
  | VeInvalidReferenceKind id id reference_kind reference_kind
  | VeInvalidReferenceOwner id id id "id option"
  | VeInvalidFieldPath id id field_path
  | VeValueSourceHasNoSchema id id
  | VeValueSourceOutOfScope id id id
  | VeFragmentCycle "id list"
  | VeInvalidInputKind id id input_kind input_kind

datatype (plugins only: code) message_error =
    VeSubscriptionMessageNotOnTopic id id id
  | VePublicationEffectMessageNotOnTopic id id id
  | VeMessageIdentitySchemaNotOnTopic id id
  | VeEmptyMessageIdentity id id
  | VeMessageIdentityArityMismatch id id nat nat
  | VeEmptyRequestIdentity id
  | VeOutboxWithoutConsumer id
  | VeOutboxMultipleConsumers id id id id id
  | VeOutboxMessageIdentitySchemaNotAdmitted id id
  | VeEmptyOutboxMessageIdentity id id
  | VeOutboxMessageIdentityArityMismatch id id nat nat

datatype (plugins only: code) placement_error =
    VeUnknownTransitionOutbox id id id id
  | VeInvalidTransitionOutboxSchema id id id id id
  | VeTransitionOutboxOutsideDataModel id id id id id
  | VeInvalidTransitionOutboxDerivation id id "id list" "id list"
  | VeTransitionEffectIntentsMismatch id id "id list" "id list"
  | VeExternalIdempotencyRequiresIdentity id
  | VeExternalReplayStabilityRequiresIdentity id
  | VeExternalResultReplayWithoutResult id
  | VeOutboxWriteMessageNotAdmitted id id id
  | VeOutboxOutsideDataModel id id id id
  | VeOutboxWriteMissingDataModel id id id
  | VeOutboxWriteOutsideTransaction id id
  | VeOutboxWriteCannotBeIntent id id

datatype (plugins only: code) object_error =
    VeDataObjectSchemaNotCanonical id id
  | VeInvalidObjectVersionField id field_path version_field_defect
  | VeDirectWriteToVersionField id nat id field_path
  | VeCompareAndSetWithoutIdentifiedInstance id nat id
  | VeCompareAndSetWithoutComparison id nat id
  | VeDuplicateCompareField id nat id field_path
  | VeUpsertWithoutIdentifiedInstance id nat id
  | VeUpsertWithoutUpdateFields id nat id
  | VeUpsertMutatesIdentity id nat id field_path
  | VeManagedFieldRoleConflict id field_path managed_role managed_role
  | VeDirectWriteToManagedField id nat id field_path managed_role
  | VeInvalidManagedFieldType id field_path managed_role managed_field_defect
  | VeEmptyObjectIdentity id

datatype (plugins only: code) transaction_error =
    VeTransactionRequirementKeyUnavailable id step_location id transaction_requirement_family nat value_ref entry_unavailability
  | VeTransactionOrderingPositionUnavailable id step_location id nat value_ref entry_unavailability
  | VeTransactionOrderingPositionNotOrderedScalar id id nat value_ref string
  | VeMissingTransactionRejectedArm id step_location id nat
  | VeUnexpectedTransactionRejectedArm id step_location id
  | VeTransactionObjectOutsideDataModel id id id
  | VeTransactionMissingDataModel id id
  | VeTransactionReadOutsideTransaction id id
  | VeTransactionReadOutOfOrder id id
  | VeTransactionReadFieldNotSelected id id field_path
  | VeStateTransitionSubjectMismatch id id id id

datatype (plugins only: code) program_error =
    VeAbandonWithoutMessageInput id step_location
  | VeUnknownResultErrorClass id step_location id id
  | VeMissingResultErrorArm id step_location id id
  | VeUnexpectedResultErrorArm id step_location id id
  | VeProgramNotTerminated id
  | VeUnreachableProgramStep id step_location
  | VeTransactionArtifactNotAvailable id step_location id program_use
  | VeEffectResultNotBound id step_location id program_use
  | VeEffectResultVariantOutOfScope id step_location id result_variant program_use
  | VeEffectHasNoResult id step_location id id
  | VeEmptyJoinAll id step_location
  | VeRaceRequiresTwoHandles id step_location nat
  | VeDuplicateSynchronizationHandle id step_location id program_use
  | VeAsyncHandleNotAvailable id step_location id program_use
  | VeRaceResultContractMismatch id step_location id id id
  | VeEffectKindNotAsyncCapable id step_location id

datatype (plugins only: code) runtime_error =
    VeEmptyRoutingKey id
  | VeRoutingWithoutGrouping id id id
  | VeGroupingKeySchemaNotOnTopic id id id
  | VeGroupingKeyMissingSchema id id id
  | VeEmptyGroupingKey id id
  | VeGroupingKeyArityMismatch id id nat nat
  | VeWithinGroupWithoutGrouping id
  | VeTransportSemanticsAtBothScopes id id id
  | VeDuplicateRouterForBoundary id id id id
  | VeEmptyPartitionKey id
  | VeDuplicateStorageLayoutForObject id id id id
  | VeOutboxPartitionSchemaNotAdmitted id id id
  | VeOutboxPartitionMissingSchema id id id
  | VeEmptyOutboxPartitionKey id id
  | VeOutboxPartitionKeyArityMismatch id id nat nat
  | VePartitionOrderingWithoutPartitioning id
  | VeOutboxRoutingWithoutPartitioning id id id

datatype validation_error =
    OfReference reference_error
  | OfMessage message_error
  | OfPlacement placement_error
  | OfObject object_error
  | OfTransaction transaction_error
  | OfProgram program_error
  | OfRuntime runtime_error

end
