(* ===== verification/Validate_Index.thy ===== *)
theory Validate_Index
  imports Validate_Errors Spec_Sites
begin

text \<open>
  The index of model validation (\<open>analyzer/validation/mod.rs\<close>): the walk over every declaration of
  a model (\<open>visit_declarations\<close>), the check that ids are unique, the reference index built from the
  programs (\<open>ReferenceIndex::build\<close>), and the scopes a value reference is judged in. A visitor
  callback becomes the list of the visited items in their order. Maps of which only \<open>get\<close> is used
  are \<open>bmap\<close>s like the others.
\<close>

section \<open>Declarations\<close>

type_synonym declared_id = "id \<times> reference_kind \<times> id option"

fun tx_step_declarations :: "id \<Rightarrow> id \<Rightarrow> tx_step \<Rightarrow> declared_id list" where
  "tx_step_declarations opn t (TsRead s) = [(rd_bind s, RkTransactionRead, Some t)]"
| "tx_step_declarations opn t (TsEstablishEffectIntent s) =
     [(ei_effect_id s, RkEffect, Some opn), (ei_bind s, RkEffectIntent, Some opn)]"
| "tx_step_declarations opn t (TsEstablishTransactionOutput s) =
     [(eo_bind s, RkTransactionOutput, Some opn)]"
| "tx_step_declarations opn t (TsTransition s) =
     map (\<lambda>i. (ti_bind i, RkEffectIntent, Some opn)) (bm_values (st_effect_intents s))"
| "tx_step_declarations opn t (TsWriteOutbox s) = [(wo_effect_id s, RkEffect, Some opn)]"
| "tx_step_declarations opn t _ = []"

definition bind_declaration :: "id \<Rightarrow> id option \<Rightarrow> declared_id list" where
  "bind_declaration opn b = (case b of None \<Rightarrow> [] | Some i \<Rightarrow> [(i, RkEffectResult, Some opn)])"

fun step_declarations :: "id \<Rightarrow> operation_step \<Rightarrow> declared_id list" where
  "step_declarations opn (OsTransaction t r) =
     (tx_id t, RkTransaction, Some opn) # concat (map (tx_step_declarations opn (tx_id t)) (tx_steps t))"
| "step_declarations opn (OsExecuteEffect s) =
     (xf_effect_id s, RkEffect, Some opn) # bind_declaration opn (xf_bind s)"
| "step_declarations opn (OsExecuteEffectAsync s) =
     [(xa_effect_id s, RkEffect, Some opn), (xa_handle s, RkAsyncHandle, Some opn)]"
| "step_declarations opn (OsExecuteEffectIntent s) = bind_declaration opn (xi_bind s)"
| "step_declarations opn (OsExecuteEffectIntentAsync s) = [(xia_handle s, RkAsyncHandle, Some opn)]"
| "step_declarations opn (OsJoinAll hs) = concat (map (\<lambda>h. bind_declaration opn (aj_bind h)) hs)"
| "step_declarations opn (OsRace s) = bind_declaration opn (rc_bind s)"
| "step_declarations opn _ = []"

definition transition_declarations :: "id \<times> transition \<Rightarrow> declared_id list" where
  "transition_declarations e =
     (case e of (t, tn) \<Rightarrow>
        map (\<lambda>x. (x, RkEffect, Some t)) (bm_keys (tn_side_effects tn))
        @ map (\<lambda>x. (x, RkEffect, Some t)) (bm_keys (tn_effects tn)))"

definition machine_declarations :: "id \<times> state_machine \<Rightarrow> declared_id list" where
  "machine_declarations e =
     (case e of (i, sm) \<Rightarrow>
        (i, RkStateMachine, None) # map (\<lambda>s. (s, RkState, Some i)) (sm_states sm)
        @ concat (map (\<lambda>t. (fst t, RkTransition, Some i) # transition_declarations t) (sm_transitions sm)))"

definition data_model_declarations :: "id \<times> data_model \<Rightarrow> declared_id list" where
  "data_model_declarations e =
     (case e of (i, dm) \<Rightarrow>
        (i, RkDataModel, None) # map (\<lambda>x. (x, RkDataObject, Some i)) (bm_keys (dm_objects dm))
        @ map (\<lambda>x. (x, RkOutbox, Some i)) (bm_keys (dm_outboxes dm)))"

definition runtime_declarations :: "runtime_model option \<Rightarrow> declared_id list" where
  "runtime_declarations rt =
     (case rt of None \<Rightarrow> []
      | Some r \<Rightarrow> map (\<lambda>x. (x, RkExecutionPool, None)) (bm_keys (rm_pools r))
                @ map (\<lambda>x. (x, RkRouter, None)) (bm_keys (rm_routers r))
                @ map (\<lambda>x. (x, RkStorageLayout, None)) (bm_keys (rm_layouts r)))"

definition operation_declarations :: "id \<times> operation \<Rightarrow> declared_id list" where
  "operation_declarations e =
     (case e of (i, d) \<Rightarrow>
        (i, RkOperation, None) # map (\<lambda>x. (x, RkInput, Some i)) (bm_keys (op_inputs d))
        @ concat (map (step_declarations i) (program_steps (op_program d))))"

definition model_declarations :: "model \<Rightarrow> declared_id list" where
  "model_declarations m =
     map (\<lambda>x. (x, RkService, None)) (bm_keys (md_services m))
     @ map (\<lambda>x. (x, RkSchema, None)) (bm_keys (md_schemas m))
     @ concat (map data_model_declarations (md_data_models m))
     @ map (\<lambda>x. (x, RkTopic, None)) (bm_keys (md_topics m))
     @ runtime_declarations (md_runtime m)
     @ concat (map machine_declarations (md_state_machines m))
     @ concat (map operation_declarations (md_operations m))"

section \<open>Global uniqueness of ids\<close>

definition declaration_of :: "declared_id \<Rightarrow> id_declaration" where
  "declaration_of e = (case e of (i, k, w) \<Rightarrow> \<lparr>id_kind = k, id_owner = w\<rparr>)"

fun duplicate_ids :: "(id, id_declaration) bmap \<Rightarrow> declared_id list \<Rightarrow> validation_error list" where
  "duplicate_ids seen [] = []"
| "duplicate_ids seen (e # es) =
     (case bm_get seen (fst e) of
        Some first \<Rightarrow> OfReference (VeDuplicateId (fst e) first (declaration_of e)) # duplicate_ids seen es
      | None \<Rightarrow> duplicate_ids (bm_insert (fst e) (declaration_of e) seen) es)"

definition validate_global_id_uniqueness :: "model \<Rightarrow> validation_error list" where
  "validate_global_id_uniqueness m = duplicate_ids [] (model_declarations m)"

section \<open>The reference index\<close>

record reference_info =
  ri_kind :: reference_kind
  ri_owner :: "id option"

record reference_index =
  ix_entries :: "(id, reference_info) bmap"
  ix_appliers :: "(id \<times> id) list"
  ix_effect_contracts :: "(id, effect) bmap"
  ix_outbox_writes :: "(id, outbox_write_effect) bmap"
  ix_output_schemas :: "(id, id) bmap"
  ix_result_bindings :: "(id, id) bmap"
  ix_handle_effects :: "(id, id) bmap"

definition insert_all :: "('k::linorder \<times> 'v) list \<Rightarrow> ('k, 'v) bmap" where
  "insert_all es = fold (\<lambda>(k, v). bm_insert k v) es []"

definition declaration_entries :: "model \<Rightarrow> (id, reference_info) bmap" where
  "declaration_entries m =
     insert_all (map (\<lambda>(i, k, w). (i, \<lparr>ri_kind = k, ri_owner = w\<rparr>)) (model_declarations m))"

text \<open>Every step of every operation, with the operation's id, in the order of the loops.\<close>

definition all_steps :: "model \<Rightarrow> (id \<times> operation_step) list" where
  "all_steps m = concat (map (\<lambda>(i, d). map (Pair i) (program_steps (op_program d))) (md_operations m))"

definition inner_steps :: "operation_step \<Rightarrow> tx_step list" where
  "inner_steps s = (case s of OsTransaction t r \<Rightarrow> tx_steps t | _ \<Rightarrow> [])"

definition all_tx_steps :: "model \<Rightarrow> (id \<times> tx_step) list" where
  "all_tx_steps m = concat (map (\<lambda>(i, s). map (Pair i) (inner_steps s)) (all_steps m))"

definition transition_appliers :: "model \<Rightarrow> (id \<times> id) list" where
  "transition_appliers m =
     List.map_filter (\<lambda>(opn, s). case s of TsTransition t \<Rightarrow> Some (st_transition t, opn) | _ \<Rightarrow> None)
       (all_tx_steps m)"

fun intent_entries :: "tx_step \<Rightarrow> (id \<times> id) list" where
  "intent_entries (TsTransition t) = map (\<lambda>(e, i). (ti_bind i, e)) (st_effect_intents t)"
| "intent_entries (TsEstablishEffectIntent s) = [(ei_bind s, ei_effect_id s)]"
| "intent_entries _ = []"

definition intent_effects :: "model \<Rightarrow> (id, id) bmap" where
  "intent_effects m = insert_all (concat (map (\<lambda>(opn, s). intent_entries s) (all_tx_steps m)))"

definition effect_contracts :: "model \<Rightarrow> (id, effect) bmap" where
  "effect_contracts m = insert_all (concat (map (\<lambda>(opn, s). step_effect_declarations s) (all_steps m)))"

definition outbox_write_contracts :: "model \<Rightarrow> (id, outbox_write_effect) bmap" where
  "outbox_write_contracts m =
     insert_all (List.map_filter (\<lambda>(opn, s). case s of
        TsWriteOutbox w \<Rightarrow> Some (wo_effect_id w, wo_effect w) | _ \<Rightarrow> None) (all_tx_steps m))"

definition output_schemas :: "model \<Rightarrow> (id, id) bmap" where
  "output_schemas m =
     insert_all (List.map_filter (\<lambda>(opn, s). case s of
        TsEstablishTransactionOutput w \<Rightarrow> Some (eo_bind w, eo_schema w) | _ \<Rightarrow> None) (all_tx_steps m))"

fun handle_entry :: "(id, id) bmap \<Rightarrow> operation_step \<Rightarrow> (id \<times> id) list" where
  "handle_entry intents (OsExecuteEffectAsync s) = [(xa_handle s, xa_effect_id s)]"
| "handle_entry intents (OsExecuteEffectIntentAsync s) =
     (case bm_get intents (xia_intent s) of Some e \<Rightarrow> [(xia_handle s, e)] | None \<Rightarrow> [])"
| "handle_entry intents _ = []"

definition handle_effects :: "model \<Rightarrow> (id, id) bmap" where
  "handle_effects m = insert_all (concat (map (\<lambda>(opn, s). handle_entry (intent_effects m) s) (all_steps m)))"

definition bound_effect :: "id option \<Rightarrow> id option \<Rightarrow> (id \<times> id) list" where
  "bound_effect b e = (case (b, e) of (Some i, Some x) \<Rightarrow> [(i, x)] | _ \<Rightarrow> [])"

definition first_handle :: "id list \<Rightarrow> id option" where
  "first_handle hs = (case hs of [] \<Rightarrow> None | h # _ \<Rightarrow> Some h)"

fun binding_entry :: "(id, id) bmap \<Rightarrow> (id, id) bmap \<Rightarrow> operation_step \<Rightarrow> (id \<times> id) list" where
  "binding_entry intents handles (OsExecuteEffect s) = bound_effect (xf_bind s) (Some (xf_effect_id s))"
| "binding_entry intents handles (OsExecuteEffectIntent s) =
     bound_effect (xi_bind s) (bm_get intents (xi_intent s))"
| "binding_entry intents handles (OsJoinAll hs) =
     concat (map (\<lambda>h. bound_effect (aj_bind h) (bm_get handles (aj_handle h))) hs)"
| "binding_entry intents handles (OsRace s) =
     bound_effect (rc_bind s) (Option.bind (first_handle (rc_handles s)) (bm_get handles))"
| "binding_entry intents handles _ = []"

definition result_bindings :: "model \<Rightarrow> (id, id) bmap" where
  "result_bindings m =
     insert_all (concat (map (\<lambda>(opn, s). binding_entry (intent_effects m) (handle_effects m) s) (all_steps m)))"

definition build_reference_index :: "model \<Rightarrow> reference_index" where
  "build_reference_index m =
     \<lparr>ix_entries = declaration_entries m, ix_appliers = transition_appliers m,
      ix_effect_contracts = effect_contracts m, ix_outbox_writes = outbox_write_contracts m,
      ix_output_schemas = output_schemas m, ix_result_bindings = result_bindings m,
      ix_handle_effects = handle_effects m\<rparr>"

definition index_get :: "reference_index \<Rightarrow> id \<Rightarrow> reference_info option" where
  "index_get ix i = bm_get (ix_entries ix) i"

definition applies_transition :: "reference_index \<Rightarrow> id \<Rightarrow> id \<Rightarrow> bool" where
  "applies_transition ix opn t \<longleftrightarrow> (t, opn) \<in> set (ix_appliers ix)"

section \<open>Scopes of a value reference\<close>

datatype value_scope = ScopeOperation id | ScopeTransition id

record tx_scope =
  ts_id :: id
  ts_transaction :: transaction
  ts_step :: nat

record value_context =
  vc_scope :: value_scope
  vc_transaction :: "tx_scope option"
  vc_errors :: "(id, id) bmap option"

definition scope_read :: "tx_scope \<Rightarrow> id \<Rightarrow> (nat \<times> read_step) option" where
  "scope_read sc b =
     find_map (\<lambda>(k, s). case s of TsRead r \<Rightarrow> if rd_bind r = b then Some (k, r) else None | _ \<Rightarrow> None)
       (enumerate 0 (tx_steps (ts_transaction sc)))"

definition operation_context :: "id \<Rightarrow> value_context" where
  "operation_context opn = \<lparr>vc_scope = ScopeOperation opn, vc_transaction = None, vc_errors = None\<rparr>"

definition transition_context :: "id \<Rightarrow> value_context" where
  "transition_context t = \<lparr>vc_scope = ScopeTransition t, vc_transaction = None, vc_errors = None\<rparr>"

definition with_errors :: "(id, id) bmap \<Rightarrow> value_context \<Rightarrow> value_context" where
  "with_errors errs c = c\<lparr>vc_errors := Some errs\<rparr>"

definition in_transaction :: "transaction \<Rightarrow> nat \<Rightarrow> value_context \<Rightarrow> value_context" where
  "in_transaction t k c = c\<lparr>vc_transaction := Some \<lparr>ts_id = tx_id t, ts_transaction = t, ts_step = k\<rparr>\<rparr>"

definition error_class :: "value_context \<Rightarrow> id \<Rightarrow> id option" where
  "error_class c r = Option.bind (vc_errors c) (\<lambda>errs. bm_get errs r)"

fun scope_admits_operation :: "reference_index \<Rightarrow> value_scope \<Rightarrow> id \<Rightarrow> bool" where
  "scope_admits_operation ix (ScopeOperation i) opn = (i = opn)"
| "scope_admits_operation ix (ScopeTransition t) opn = applies_transition ix opn t"

fun scope_admits_transition :: "reference_index \<Rightarrow> value_scope \<Rightarrow> id \<Rightarrow> bool" where
  "scope_admits_transition ix (ScopeOperation opn) t = applies_transition ix opn t"
| "scope_admits_transition ix (ScopeTransition i) t = (i = t)"

section \<open>The scoped walk\<close>

text \<open>
  \<open>walk_scoped\<close>: every step with its location and the error class each enclosing arm selects.
\<close>

type_synonym scoped_step = "step_location \<times> operation_step \<times> (id, id) bmap"

fun scoped_block :: "step_location \<Rightarrow> arm option \<Rightarrow> (id, id) bmap \<Rightarrow> operation_block \<Rightarrow> scoped_step list"
and scoped_steps :: "step_location \<Rightarrow> arm option \<Rightarrow> (id, id) bmap \<Rightarrow> nat \<Rightarrow> operation_step list \<Rightarrow> scoped_step list"
and scoped_nested :: "step_location \<Rightarrow> (id, id) bmap \<Rightarrow> operation_step \<Rightarrow> scoped_step list"
and scoped_errors :: "step_location \<Rightarrow> (id, id) bmap \<Rightarrow> id \<Rightarrow> (id \<times> operation_block) list \<Rightarrow> scoped_step list"
where
  "scoped_block parent a sc (Block ss) = scoped_steps parent a sc 0 ss"
| "scoped_steps parent a sc k [] = []"
| "scoped_steps parent a sc k (s # ss) =
     (descend parent a k, s, sc) # scoped_nested (descend parent a k) sc s @ scoped_steps parent a sc (Suc k) ss"
| "scoped_nested loc sc (OsTransaction t None) = []"
| "scoped_nested loc sc (OsTransaction t (Some b)) = scoped_block loc (Some ArmRejected) sc b"
| "scoped_nested loc sc (OsMatchResult r ok errs) =
     scoped_block loc (Some ArmOk) sc ok @ scoped_errors loc sc r errs"
| "scoped_nested loc sc (OsBranch c b None) = scoped_block loc (Some ArmThen) sc b"
| "scoped_nested loc sc (OsBranch c b (Some d)) =
     scoped_block loc (Some ArmThen) sc b @ scoped_block loc (Some ArmOtherwise) sc d"
| "scoped_nested loc sc s = []"
| "scoped_errors loc sc r [] = []"
| "scoped_errors loc sc r ((e, b) # errs) =
     scoped_block loc (Some (ArmErr e)) (bm_insert r e sc) b @ scoped_errors loc sc r errs"

definition walk_scoped :: "operation_block \<Rightarrow> scoped_step list" where
  "walk_scoped b = scoped_block [] None [] b"

end
