(* ===== verification/Validate_Resolve.thy ===== *)
theory Validate_Resolve
  imports Validate_Index
begin

text \<open>
  Resolution of field paths (\<open>schema_path_resolves\<close>, \<open>schema_field_type\<close>,
  \<open>path_has_optional_segment\<close> of \<open>analyzer/validation/mod.rs\<close>) and of what a value reference
  names: the schemas of effects, results and objects.

  A call of the code may fail to return, by a panic of \<open>expect\<close> or by a recursion that does not
  end: its value is then \<open>None\<close> at the outermost option. \<open>gather\<close> runs checks in turn.
\<close>

section \<open>Checks that may not return\<close>

fun gather :: "('a \<Rightarrow> 'b list option) \<Rightarrow> 'a list \<Rightarrow> 'b list option" where
  "gather f [] = Some []"
| "gather f (x # xs) =
     (case f x of None \<Rightarrow> None | Some ys \<Rightarrow> map_option ((@) ys) (gather f xs))"

definition in_turn :: "'b list option list \<Rightarrow> 'b list option" where
  "in_turn cs = gather (\<lambda>c. c) cs"

lemma gather_Nil_iff: "gather f xs = Some [] \<longleftrightarrow> (\<forall>x \<in> set xs. f x = Some [])"
  by (induction xs) (auto split: option.splits)

lemma gather_returns: "gather f xs \<noteq> None \<longleftrightarrow> (\<forall>x \<in> set xs. f x \<noteq> None)"
  by (induction xs) (auto split: option.splits)

lemma gather_set: "gather f xs = Some ys \<Longrightarrow> set ys = (\<Union>x \<in> set xs. set (the (f x)))"
  by (induction xs arbitrary: ys) (auto split: option.splits)

lemma gather_cong [fundef_cong]:
  "xs = ys \<Longrightarrow> (\<And>x. x \<in> set ys \<Longrightarrow> f x = g x) \<Longrightarrow> gather f xs = gather g ys"
  by (induction xs arbitrary: ys) (auto split: option.split)

lemma in_turn_Nil_iff: "in_turn cs = Some [] \<longleftrightarrow> (\<forall>c \<in> set cs. c = Some [])"
  by (simp add: in_turn_def gather_Nil_iff)

lemma in_turn_returns: "in_turn cs \<noteq> None \<longleftrightarrow> (\<forall>c \<in> set cs. c \<noteq> None)"
  unfolding in_turn_def by (rule gather_returns)

section \<open>Field paths\<close>

partial_function (option) resolve_schema_components :: "model \<Rightarrow> id \<Rightarrow> string list \<Rightarrow> bool option" where
  "resolve_schema_components m s cs =
     (case cs of
        [] \<Rightarrow> Some True
      | c # rest \<Rightarrow>
          (case bm_get (md_schemas m) s of
             None \<Rightarrow> None
           | Some (SchCanonical sc) \<Rightarrow>
               (case bm_get (cs_fields sc) c of
                  None \<Rightarrow> Some False
                | Some f \<Rightarrow>
                    if rest = [] then Some True
                    else (case f_ty f of
                            TSchema i \<Rightarrow> resolve_schema_components m i rest
                          | _ \<Rightarrow> Some False))
           | Some (SchFragment fr) \<Rightarrow>
               (case bm_get (sf_mapping fr) c of
                  None \<Rightarrow> Some False
                | Some p \<Rightarrow> resolve_schema_components m (sf_source fr) (components p @ rest))))"

definition resolve_type_components :: "model \<Rightarrow> type_ref \<Rightarrow> string list \<Rightarrow> bool option" where
  "resolve_type_components m ty cs =
     (if cs = [] then Some True
      else case ty of TSchema i \<Rightarrow> resolve_schema_components m i cs | _ \<Rightarrow> Some False)"

definition schema_path_resolves :: "model \<Rightarrow> id \<Rightarrow> field_path \<Rightarrow> bool option" where
  "schema_path_resolves m s p =
     (if components p = [] then Some False else resolve_schema_components m s (components p))"

text \<open>The declared type at the end of a path, and whether any segment is optional.\<close>

partial_function (option) schema_field_type ::
    "model \<Rightarrow> id \<Rightarrow> string list \<Rightarrow> (type_ref \<times> bool) option option" where
  "schema_field_type m s cs =
     (case cs of
        [] \<Rightarrow> Some None
      | c # rest \<Rightarrow>
          (case bm_get (md_schemas m) s of
             None \<Rightarrow> Some None
           | Some (SchCanonical sc) \<Rightarrow>
               (case bm_get (cs_fields sc) c of
                  None \<Rightarrow> Some None
                | Some f \<Rightarrow>
                    if rest = [] then Some (Some (f_ty f, f_optional f))
                    else (case f_ty f of
                            TSchema i \<Rightarrow>
                              Option.bind (schema_field_type m i rest) (\<lambda>r.
                                Some (map_option (\<lambda>(ty, opt). (ty, f_optional f \<or> opt)) r))
                          | _ \<Rightarrow> Some None))
           | Some (SchFragment fr) \<Rightarrow>
               (case bm_get (sf_mapping fr) c of
                  None \<Rightarrow> Some None
                | Some p \<Rightarrow> schema_field_type m (sf_source fr) (components p @ rest))))"

partial_function (option) path_has_optional_segment ::
    "model \<Rightarrow> id \<Rightarrow> string list \<Rightarrow> bool option option" where
  "path_has_optional_segment m s cs =
     (case cs of
        [] \<Rightarrow> Some None
      | c # rest \<Rightarrow>
          (case bm_get (md_schemas m) s of
             None \<Rightarrow> Some None
           | Some (SchCanonical sc) \<Rightarrow>
               (case bm_get (cs_fields sc) c of
                  None \<Rightarrow> Some None
                | Some f \<Rightarrow>
                    if rest = [] then Some (Some (f_optional f))
                    else (case f_ty f of
                            TSchema i \<Rightarrow>
                              Option.bind (path_has_optional_segment m i rest) (\<lambda>r.
                                Some (map_option ((\<or>) (f_optional f)) r))
                          | _ \<Rightarrow> Some None))
           | Some (SchFragment fr) \<Rightarrow>
               (case bm_get (sf_mapping fr) c of
                  None \<Rightarrow> Some None
                | Some p \<Rightarrow> path_has_optional_segment m (sf_source fr) (components p @ rest))))"

declare resolve_schema_components.simps [code] schema_field_type.simps [code]
  path_has_optional_segment.simps [code]

text \<open>A type as a diagnostic names it.\<close>

fun type_label :: "type_ref \<Rightarrow> string" where
  "type_label (TScalar s) =
     (case s of ScString \<Rightarrow> ''string'' | ScBool \<Rightarrow> ''bool'' | ScInt \<Rightarrow> ''int'' | ScFloat \<Rightarrow> ''float''
      | ScDecimal \<Rightarrow> ''decimal'' | ScUuid \<Rightarrow> ''uuid'' | ScTimestamp \<Rightarrow> ''timestamp'')"
| "type_label (TSchema i) = id_text i"
| "type_label (TList t) = ''['' @ type_label t @ '']''"

section \<open>What a reference names\<close>

definition object_schema :: "model \<Rightarrow> reference_index \<Rightarrow> id \<Rightarrow> id option" where
  "object_schema m ix obj =
     Option.bind (index_get ix obj) (\<lambda>info.
     Option.bind (ri_owner info) (\<lambda>w.
     Option.bind (bm_get (md_data_models m) w) (\<lambda>dm.
     map_option do_schema (bm_get (dm_objects dm) obj))))"

text \<open>The chain of \<open>?\<close> the optional lookups of an object make; here \<open>None\<close> is a value.\<close>

definition owned_object :: "model \<Rightarrow> reference_index \<Rightarrow> id \<Rightarrow> data_object option" where
  "owned_object m ix obj =
     Option.bind (index_get ix obj) (\<lambda>info.
     Option.bind (ri_owner info) (\<lambda>w.
     Option.bind (bm_get (md_data_models m) w) (\<lambda>dm. bm_get (dm_objects dm) obj)))"

definition find_input :: "model \<Rightarrow> reference_index \<Rightarrow> id \<Rightarrow> op_input option" where
  "find_input m ix i =
     Option.bind (index_get ix i) (\<lambda>info.
     Option.bind (ri_owner info) (\<lambda>w.
     Option.bind (bm_get (md_operations m) w) (\<lambda>d. bm_get (op_inputs d) i)))"

text \<open>The first machine that declares the transition decides.\<close>

definition declared_transition :: "model \<Rightarrow> id \<Rightarrow> transition option" where
  "declared_transition m t = find_map (\<lambda>sm. bm_get (sm_transitions sm) t) (bm_values (md_state_machines m))"

fun side_effect_schema :: "transition_side_effect \<Rightarrow> id" where
  "side_effect_schema (TsePublication p) = pe_schema p"
| "side_effect_schema (TseRequest r) = re_schema r"

definition transition_effect_schema :: "model \<Rightarrow> id \<Rightarrow> id \<Rightarrow> id option" where
  "transition_effect_schema m t e =
     (case declared_transition m t of
        None \<Rightarrow> None
      | Some tn \<Rightarrow>
          (case bm_get (tn_side_effects tn) e of
             Some se \<Rightarrow> Some (side_effect_schema se)
           | None \<Rightarrow> map_option (\<lambda>te. ow_schema (te_write te)) (bm_get (tn_effects tn) e)))"

fun contract_schema :: "effect \<Rightarrow> id option" where
  "contract_schema (EfPublication p) = Some (pe_schema p)"
| "contract_schema (EfRequest r) = Some (re_schema r)"
| "contract_schema (EfOutboxWrite w) = Some (ow_schema w)"
| "contract_schema (EfExternal x) = None"

definition effect_schema :: "model \<Rightarrow> reference_index \<Rightarrow> id \<Rightarrow> id option option" where
  "effect_schema m ix e =
     Option.bind (index_get ix e) (\<lambda>info.
     Option.bind (ri_owner info) (\<lambda>w.
     Option.bind (index_get ix w) (\<lambda>winfo.
       (case bm_get (ix_outbox_writes ix) e of
          Some wr \<Rightarrow> Some (Some (ow_schema wr))
        | None \<Rightarrow>
            if ri_kind winfo = RkOperation
            then Some (Option.bind (bm_get (ix_effect_contracts ix) e) contract_schema)
            else if ri_kind winfo = RkTransition then Some (transition_effect_schema m w e)
            else Some None))))"

definition request_result :: "model \<Rightarrow> request_effect \<Rightarrow> result_type option" where
  "request_result m r =
     Option.bind (bm_get (md_operations m) (rq_operation (re_target r))) (\<lambda>d.
     Option.bind (bm_get (op_inputs d) (rq_input (re_target r))) (\<lambda>i.
       case i of InRequest q \<Rightarrow> Some (ri_result q) | _ \<Rightarrow> None))"

fun contract_result :: "model \<Rightarrow> effect \<Rightarrow> result_type option" where
  "contract_result m (EfRequest r) = request_result m r"
| "contract_result m (EfExternal x) = xe_result x"
| "contract_result m _ = None"

fun side_effect_result :: "model \<Rightarrow> transition_side_effect \<Rightarrow> result_type option" where
  "side_effect_result m (TsePublication p) = None"
| "side_effect_result m (TseRequest r) = request_result m r"

definition effect_result_type :: "model \<Rightarrow> reference_index \<Rightarrow> id \<Rightarrow> result_type option" where
  "effect_result_type m ix e =
     Option.bind (index_get ix e) (\<lambda>info.
     Option.bind (ri_owner info) (\<lambda>w.
     Option.bind (index_get ix w) (\<lambda>winfo.
       if ri_kind winfo = RkOperation
       then Option.bind (bm_get (ix_effect_contracts ix) e) (contract_result m)
       else if ri_kind winfo = RkTransition
       then Option.bind (declared_transition m w) (\<lambda>tn.
              Option.bind (bm_get (tn_side_effects tn) e) (side_effect_result m))
       else None)))"

definition result_arm_of :: "value_context \<Rightarrow> value_source \<Rightarrow> (id \<times> result_arm) option" where
  "result_arm_of c src =
     (case src of
        VsEffectResultOk r \<Rightarrow> Some (r, ArmResOk)
      | VsEffectResultErr r \<Rightarrow> map_option (\<lambda>e. (r, ArmResErr e)) (error_class c r)
      | _ \<Rightarrow> None)"

definition effect_result_schema :: "model \<Rightarrow> reference_index \<Rightarrow> value_context \<Rightarrow> value_ref \<Rightarrow> id option" where
  "effect_result_schema m ix c v =
     Option.bind (result_arm_of c (vr_source v)) (\<lambda>(r, a).
     Option.bind (bm_get (ix_result_bindings ix) r) (\<lambda>e.
     Option.bind (effect_result_type m ix e) (\<lambda>rt. schema_of rt a)))"

text \<open>The schemas an input admits; \<open>None\<close> when its topic or outbox is not declared.\<close>

fun admitted_schemas :: "model \<Rightarrow> op_input \<Rightarrow> id list option" where
  "admitted_schemas m (InRequest r) = Some [ri_schema r]"
| "admitted_schemas m (InSubscription s) =
     map_option (\<lambda>tp. case si_messages s of MsAll \<Rightarrow> tp_messages tp | MsOnly ms \<Rightarrow> ms)
       (bm_get (md_topics m) (si_topic s))"
| "admitted_schemas m (InOutbox b) = map_option (\<lambda>(w, ob). ob_messages ob) (model_outbox m (oi_outbox b))"

definition value_ref_schemas ::
    "model \<Rightarrow> reference_index \<Rightarrow> value_context \<Rightarrow> value_ref \<Rightarrow> id list option option" where
  "value_ref_schemas m ix c v =
     (case vr_source v of
        VsInput i \<Rightarrow> Some (Option.bind (find_input m ix i) (admitted_schemas m))
      | VsEffect e \<Rightarrow> map_option (map_option (\<lambda>s. [s])) (effect_schema m ix e)
      | VsTransactionOutput b \<Rightarrow> Some (map_option (\<lambda>s. [s]) (bm_get (ix_output_schemas ix) b))
      | VsEffectResultOk r \<Rightarrow> Some (map_option (\<lambda>s. [s]) (effect_result_schema m ix c v))
      | VsEffectResultErr r \<Rightarrow> Some (map_option (\<lambda>s. [s]) (effect_result_schema m ix c v))
      | VsStateMachineSubject sm \<Rightarrow>
          Some (Option.bind (bm_get (md_state_machines m) sm) (\<lambda>d.
            map_option (\<lambda>ob. [do_schema ob]) (owned_object m ix (ms_object (sm_subject d)))))
      | VsTransactionRead b \<Rightarrow>
          Some (Option.bind (vc_transaction c) (\<lambda>sc.
            Option.bind (scope_read sc b) (\<lambda>(k, r).
            map_option (\<lambda>ob. [do_schema ob]) (owned_object m ix (os_object (rd_target r)))))))"

text \<open>\<open>collect\<close> into an option: the first \<open>None\<close> decides; a later schema is not looked at.\<close>

fun types_of :: "model \<Rightarrow> string list \<Rightarrow> id list \<Rightarrow> (type_ref \<times> bool) list option option" where
  "types_of m cs [] = Some (Some [])"
| "types_of m cs (s # ss) =
     (case schema_field_type m s cs of
        None \<Rightarrow> None
      | Some None \<Rightarrow> Some None
      | Some (Some t) \<Rightarrow> map_option (map_option ((#) t)) (types_of m cs ss))"

definition value_ref_types ::
    "model \<Rightarrow> reference_index \<Rightarrow> value_context \<Rightarrow> value_ref \<Rightarrow> (type_ref \<times> bool) list option option" where
  "value_ref_types m ix c v =
     (case value_ref_schemas m ix c v of
        None \<Rightarrow> None
      | Some None \<Rightarrow> Some None
      | Some (Some ss) \<Rightarrow> types_of m (components (vr_path v)) ss)"

section \<open>Redundant presence checks\<close>

fun presence_roots :: "condition \<Rightarrow> value_ref list" where
  "presence_roots (CondPresent v) = [v]"
| "presence_roots (CondAnd cs) = concat (map presence_roots cs)"
| "presence_roots (CondNot c) = presence_roots c"
| "presence_roots _ = []"

fun verdicts_of :: "model \<Rightarrow> string list \<Rightarrow> id list \<Rightarrow> bool option list option" where
  "verdicts_of m cs [] = Some []"
| "verdicts_of m cs (s # ss) =
     (case path_has_optional_segment m s cs of
        None \<Rightarrow> None
      | Some v \<Rightarrow> map_option ((#) v) (verdicts_of m cs ss))"

definition redundant_root :: "model \<Rightarrow> reference_index \<Rightarrow> value_context \<Rightarrow> value_ref \<Rightarrow> bool option" where
  "redundant_root m ix c v =
     (case value_ref_schemas m ix c v of
        None \<Rightarrow> None
      | Some None \<Rightarrow> Some False
      | Some (Some ss) \<Rightarrow>
          map_option (\<lambda>vs. vs \<noteq> [] \<and> list_all (\<lambda>r. r = Some False) vs)
            (verdicts_of m (components (vr_path v)) ss))"

end
