(* ===== verification/Validate_References.thy ===== *)
theory Validate_References
  imports Validate_Resolve
begin

text \<open>
  The reference pass of model validation (\<open>validate_references\<close> and \<open>validate_program_references\<close> of
  \<open>analyzer/validation/mod.rs\<close>): every reference names a declaration of the expected kind and
  owner, and a value reference a source its evaluator can observe. A function that pushes errors
  returns them; one that also answers a question returns both.
\<close>

section \<open>Expectations\<close>

type_synonym judged = "bool \<times> validation_error list"

definition expect_reference :: "reference_index \<Rightarrow> id \<Rightarrow> id \<Rightarrow> reference_kind \<Rightarrow> judged" where
  "expect_reference ix subj r k =
     (case index_get ix r of
        None \<Rightarrow> (False, [OfReference (VeUnknownReference subj r k)])
      | Some info \<Rightarrow>
          if ri_kind info \<noteq> k then (False, [OfReference (VeInvalidReferenceKind subj r k (ri_kind info))])
          else (True, []))"

definition expect_owned_by :: "reference_index \<Rightarrow> id \<Rightarrow> id \<Rightarrow> id \<Rightarrow> judged" where
  "expect_owned_by ix subj r w =
     (case index_get ix r of
        None \<Rightarrow> (False, [])
      | Some info \<Rightarrow>
          if ri_owner info \<noteq> Some w then (False, [OfReference (VeInvalidReferenceOwner subj r w (ri_owner info))])
          else (True, []))"

definition if_valid :: "judged \<Rightarrow> judged \<Rightarrow> judged" where
  "if_valid a b = (if fst a then (fst b, snd a @ snd b) else (False, snd a))"

definition expect_owned_reference :: "reference_index \<Rightarrow> id \<Rightarrow> id \<Rightarrow> reference_kind \<Rightarrow> id \<Rightarrow> judged" where
  "expect_owned_reference ix subj r k w = if_valid (expect_reference ix subj r k) (expect_owned_by ix subj r w)"

abbreviation expected :: "reference_index \<Rightarrow> id \<Rightarrow> reference_kind \<Rightarrow> id \<Rightarrow> validation_error list" where
  "expected ix subj k r \<equiv> snd (expect_reference ix subj r k)"

abbreviation expected_owned :: "reference_index \<Rightarrow> id \<Rightarrow> reference_kind \<Rightarrow> id \<Rightarrow> id \<Rightarrow> validation_error list" where
  "expected_owned ix subj k w r \<equiv> snd (expect_owned_reference ix subj r k w)"

text \<open>The owner of a declaration is declared, so the \<open>expect\<close> of the code does not fail.\<close>

definition expect_in_scope :: "reference_index \<Rightarrow> id \<Rightarrow> value_context \<Rightarrow> id \<Rightarrow> judged" where
  "expect_in_scope ix subj c r =
     (case index_get ix r of
        None \<Rightarrow> (False, [])
      | Some info \<Rightarrow>
          (case ri_owner info of
             None \<Rightarrow> (True, [])
           | Some w \<Rightarrow>
               let admitted =
                     (if map_option ri_kind (index_get ix w) = Some RkTransition
                      then scope_admits_transition ix (vc_scope c) w
                      else scope_admits_operation ix (vc_scope c) w)
               in (admitted, if admitted then [] else [OfReference (VeValueSourceOutOfScope subj r w)])))"

section \<open>Value references\<close>

definition read_reference :: "reference_index \<Rightarrow> id \<Rightarrow> value_context \<Rightarrow> id \<Rightarrow> validation_error list" where
  "read_reference ix subj c b =
     (case vc_transaction c of
        None \<Rightarrow> [OfTransaction (VeTransactionReadOutsideTransaction subj b)]
      | Some sc \<Rightarrow>
          let owned = expect_owned_by ix subj b (ts_id sc)
          in if \<not> fst owned then snd owned
             else (case scope_read sc b of
                     None \<Rightarrow> []
                   | Some (k, r) \<Rightarrow>
                       if ts_step sc \<le> k then [OfTransaction (VeTransactionReadOutOfOrder (ts_id sc) b)] else []))"

definition scoped_reference ::
    "reference_index \<Rightarrow> id \<Rightarrow> value_context \<Rightarrow> reference_kind \<Rightarrow> id \<Rightarrow> validation_error list" where
  "scoped_reference ix subj c k r = snd (if_valid (expect_reference ix subj r k) (expect_in_scope ix subj c r))"

definition validate_value_ref_reference ::
    "reference_index \<Rightarrow> id \<Rightarrow> value_context \<Rightarrow> value_ref \<Rightarrow> validation_error list" where
  "validate_value_ref_reference ix subj c v =
     (case vr_source v of
        VsInput i \<Rightarrow> scoped_reference ix subj c RkInput i
      | VsEffect e \<Rightarrow> scoped_reference ix subj c RkEffect e
      | VsTransactionOutput b \<Rightarrow> scoped_reference ix subj c RkTransactionOutput b
      | VsEffectResultOk r \<Rightarrow> scoped_reference ix subj c RkEffectResult r
      | VsEffectResultErr r \<Rightarrow> scoped_reference ix subj c RkEffectResult r
      | VsStateMachineSubject sm \<Rightarrow> expected ix subj RkStateMachine sm
      | VsTransactionRead b \<Rightarrow>
          let known = expect_reference ix subj b RkTransactionRead
          in if fst known then snd known @ read_reference ix subj c b else snd known)"

definition refs_all :: "reference_index \<Rightarrow> id \<Rightarrow> value_context \<Rightarrow> value_ref list \<Rightarrow> validation_error list" where
  "refs_all ix subj c vs = concat (map (validate_value_ref_reference ix subj c) vs)"

fun validate_type_ref_references :: "id \<Rightarrow> type_ref \<Rightarrow> reference_index \<Rightarrow> validation_error list" where
  "validate_type_ref_references subj (TScalar s) ix = []"
| "validate_type_ref_references subj (TSchema i) ix = expected ix subj RkSchema i"
| "validate_type_ref_references subj (TList t) ix = validate_type_ref_references subj t ix"

definition validate_derivation_references ::
    "reference_index \<Rightarrow> id \<Rightarrow> value_context \<Rightarrow> derivation \<Rightarrow> validation_error list" where
  "validate_derivation_references ix subj c d =
     (case d of DUnspecified \<Rightarrow> [] | Deterministic from \<Rightarrow> refs_all ix subj c from)"

fun validate_predicate_references ::
    "reference_index \<Rightarrow> id \<Rightarrow> value_context \<Rightarrow> predicate \<Rightarrow> validation_error list" where
  "validate_predicate_references ix subj c PAll = []"
| "validate_predicate_references ix subj c (PEq f v) =
     (case v of SvValue r \<Rightarrow> validate_value_ref_reference ix subj c r | SvLiteral l \<Rightarrow> [])"
| "validate_predicate_references ix subj c (PAnd ps) =
     concat (map (validate_predicate_references ix subj c) ps)"

definition validate_selector_references ::
    "reference_index \<Rightarrow> id \<Rightarrow> value_context \<Rightarrow> object_selector \<Rightarrow> validation_error list" where
  "validate_selector_references ix subj c s =
     expected ix subj RkDataObject (os_object s) @ validate_predicate_references ix subj c (os_predicate s)"

definition validate_propagation_references ::
    "reference_index \<Rightarrow> id \<Rightarrow> value_context \<Rightarrow> key_propagation list \<Rightarrow> validation_error list" where
  "validate_propagation_references ix subj c ps =
     concat (map (\<lambda>p. refs_all ix subj c (ik_components (kp_source p))
                    @ refs_all ix subj c (ik_components (kp_target p))) ps)"

section \<open>Effects\<close>

definition validate_publication_references ::
    "reference_index \<Rightarrow> id \<Rightarrow> value_context \<Rightarrow> publication_effect \<Rightarrow> validation_error list" where
  "validate_publication_references ix e c p =
     expected ix e RkTopic (pe_topic p) @ expected ix e RkSchema (pe_schema p)
     @ validate_propagation_references ix e c (pe_propagation p)"

definition validate_request_input_kind :: "model \<Rightarrow> reference_index \<Rightarrow> id \<Rightarrow> id \<Rightarrow> validation_error list" where
  "validate_request_input_kind m ix subj i =
     (case find_input m ix i of
        None \<Rightarrow> []
      | Some inp \<Rightarrow>
          if input_kind_of inp \<noteq> IkRequest
          then [OfReference (VeInvalidInputKind subj i IkRequest (input_kind_of inp))] else [])"

definition validate_request_effect_references ::
    "model \<Rightarrow> reference_index \<Rightarrow> id \<Rightarrow> value_context \<Rightarrow> request_effect \<Rightarrow> validation_error list" where
  "validate_request_effect_references m ix e c r =
     (let opv = expect_reference ix e (rq_operation (re_target r)) RkOperation;
          inv = expect_reference ix e (rq_input (re_target r)) RkInput
      in expected ix e RkSchema (re_schema r) @ snd opv @ snd inv
         @ (if fst opv \<and> fst inv
            then snd (expect_owned_by ix e (rq_input (re_target r)) (rq_operation (re_target r))) else [])
         @ (if fst inv then validate_request_input_kind m ix e (rq_input (re_target r)) else [])
         @ validate_propagation_references ix e c (re_propagation r))"

definition validate_outbox_write_references ::
    "reference_index \<Rightarrow> id \<Rightarrow> value_context \<Rightarrow> outbox_write_effect \<Rightarrow> validation_error list" where
  "validate_outbox_write_references ix e c w =
     expected ix e RkOutbox (ow_outbox w) @ expected ix e RkSchema (ow_schema w)
     @ validate_propagation_references ix e c (ow_propagation w)"

definition validate_external_guarantee_placement :: "id \<Rightarrow> external_effect \<Rightarrow> validation_error list" where
  "validate_external_guarantee_placement e x =
     (let keyed = (case xe_identity x of XiKeyed k \<Rightarrow> True | XiUnspecified \<Rightarrow> False)
      in (if xe_idempotency x = XdIdenticalPerIdentity \<and> \<not> keyed
          then [OfPlacement (VeExternalIdempotencyRequiresIdentity e)] else [])
         @ (if xe_result_replay x = XrReplayStable \<and> \<not> keyed
            then [OfPlacement (VeExternalReplayStabilityRequiresIdentity e)] else [])
         @ (if xe_result_replay x \<in> {XrUnstable, XrReplayStable} \<and> xe_result x = None
            then [OfPlacement (VeExternalResultReplayWithoutResult e)] else []))"

definition validate_result_type_references :: "reference_index \<Rightarrow> id \<Rightarrow> result_type \<Rightarrow> validation_error list" where
  "validate_result_type_references ix subj r =
     expected ix subj RkSchema (rt_ok r)
     @ concat (map (\<lambda>k. expected ix subj RkSchema (er_schema k)) (bm_values (rt_errors r)))"

fun validate_effect_references ::
    "model \<Rightarrow> reference_index \<Rightarrow> id \<Rightarrow> value_context \<Rightarrow> effect \<Rightarrow> validation_error list" where
  "validate_effect_references m ix e c (EfPublication p) = validate_publication_references ix e c p"
| "validate_effect_references m ix e c (EfRequest r) = validate_request_effect_references m ix e c r"
| "validate_effect_references m ix e c (EfExternal x) =
     (case xe_identity x of XiKeyed k \<Rightarrow> refs_all ix e c k | XiUnspecified \<Rightarrow> [])
     @ validate_external_guarantee_placement e x
     @ (case xe_result x of None \<Rightarrow> [] | Some r \<Rightarrow> validate_result_type_references ix e r)"
| "validate_effect_references m ix e c (EfOutboxWrite w) = validate_outbox_write_references ix e c w"

fun validate_transition_effect_references ::
    "model \<Rightarrow> reference_index \<Rightarrow> id \<Rightarrow> value_context \<Rightarrow> transition_side_effect \<Rightarrow> validation_error list" where
  "validate_transition_effect_references m ix e c (TsePublication p) = validate_publication_references ix e c p"
| "validate_transition_effect_references m ix e c (TseRequest r) = validate_request_effect_references m ix e c r"

section \<open>Transactions\<close>

definition requirement_reference :: "reference_index \<Rightarrow> id \<Rightarrow> id \<Rightarrow> value_ref \<Rightarrow> validation_error list" where
  "requirement_reference ix opn t v =
     (case vr_source v of
        VsTransactionRead b \<Rightarrow> expected ix t RkTransactionRead b
      | _ \<Rightarrow> validate_value_ref_reference ix t (operation_context opn) v)"

fun tx_step_references ::
    "model \<Rightarrow> reference_index \<Rightarrow> id \<Rightarrow> value_context \<Rightarrow> tx_step \<Rightarrow> validation_error list" where
  "tx_step_references m ix t c (TsRead s) = validate_selector_references ix t c (rd_target s)"
| "tx_step_references m ix t c (TsAdvanceCursor s) =
     validate_selector_references ix t c (ac_target s) @ validate_value_ref_reference ix t c (ac_incoming s)"
| "tx_step_references m ix t c (TsFence s) =
     validate_selector_references ix t c (fe_target s) @ validate_value_ref_reference ix t c (fe_token s)"
| "tx_step_references m ix t c (TsUpdate s) =
     validate_selector_references ix t c (up_target s) @ validate_derivation_references ix t c (up_values s)"
| "tx_step_references m ix t c (TsCompareAndSet s) =
     validate_selector_references ix t c (cas_target s) @ validate_derivation_references ix t c (cas_values s)"
| "tx_step_references m ix t c (TsUpsert s) =
     validate_selector_references ix t c (us_target s)
     @ validate_derivation_references ix t c (us_insert_values s)
     @ validate_derivation_references ix t c (us_update_values s)"
| "tx_step_references m ix t c (TsInsert s) =
     expected ix t RkDataObject (in_object s) @ validate_derivation_references ix t c (in_values s)"
| "tx_step_references m ix t c (TsDelete s) = validate_selector_references ix t c (de_target s)"
| "tx_step_references m ix t c (TsLock s) = validate_selector_references ix t c (lk_target s)"
| "tx_step_references m ix t c (TsTransition s) =
     (let mv = expect_reference ix t (st_machine s) RkStateMachine;
          tv = expect_reference ix t (st_transition s) RkTransition
      in snd mv @ snd tv
         @ (if fst mv \<and> fst tv then snd (expect_owned_by ix t (st_transition s) (st_machine s)) else [])
         @ validate_selector_references ix t c (st_subject s)
         @ concat (map (\<lambda>i. validate_derivation_references ix t c (ti_values i)) (bm_values (st_effect_intents s)))
         @ concat (map (\<lambda>a. validate_derivation_references ix t c (ta_values a)) (bm_values (st_effects s))))"
| "tx_step_references m ix t c (TsEstablishEffectIntent s) =
     (case ei_effect s of EfOutboxWrite w \<Rightarrow> [OfPlacement (VeOutboxWriteCannotBeIntent t (ei_effect_id s))] | _ \<Rightarrow> [])
     @ validate_effect_references m ix (ei_effect_id s) c (ei_effect s)
     @ validate_derivation_references ix t c (ei_values s)"
| "tx_step_references m ix t c (TsEstablishTransactionOutput s) =
     expected ix t RkSchema (eo_schema s) @ validate_derivation_references ix t c (eo_values s)"
| "tx_step_references m ix t c (TsWriteOutbox s) =
     validate_outbox_write_references ix (wo_effect_id s) c (wo_effect s)
     @ validate_derivation_references ix t c (wo_values s)"

definition validate_transaction_references ::
    "model \<Rightarrow> reference_index \<Rightarrow> id \<Rightarrow> transaction \<Rightarrow> validation_error list" where
  "validate_transaction_references m ix opn t =
     (case tx_data_model t of None \<Rightarrow> [] | Some dm \<Rightarrow> expected ix (tx_id t) RkDataModel dm)
     @ (case tx_idempotency t of
          IgDeduplicatedBy k \<Rightarrow> refs_all ix (tx_id t) (operation_context opn) (ik_components k) | _ \<Rightarrow> [])
     @ concat (map (\<lambda>r. requirement_reference ix opn (tx_id t) (sr_key r)) (tr_serializability (tx_requirements t)))
     @ concat (map (\<lambda>r. requirement_reference ix opn (tx_id t) (or_key r)
                      @ requirement_reference ix opn (tx_id t) (or_position r)) (tr_ordering (tx_requirements t)))
     @ concat (map (\<lambda>(k, s).
          (let c = in_transaction t k (operation_context opn)
           in refs_all ix (tx_id t) c (List.map_filter compare_root (step_compare s))
              @ tx_step_references m ix (tx_id t) c s))
        (enumerate 0 (tx_steps t)))"

section \<open>Programs\<close>

definition outside_transaction :: "id \<Rightarrow> id \<Rightarrow> effect \<Rightarrow> validation_error list" where
  "outside_transaction opn e f =
     (case f of EfOutboxWrite w \<Rightarrow> [OfPlacement (VeOutboxWriteOutsideTransaction opn e)] | _ \<Rightarrow> [])"

definition returned_error_class ::
    "model \<Rightarrow> reference_index \<Rightarrow> id \<Rightarrow> step_location \<Rightarrow> return_step \<Rightarrow> validation_error list" where
  "returned_error_class m ix opn loc s =
     (case (ret_outcome s, find_input m ix (ret_request s)) of
        (OutErr e d, Some (InRequest r)) \<Rightarrow>
          if bm_contains (rt_errors (ri_result r)) e then []
          else [OfProgram (VeUnknownResultErrorClass opn loc (ret_request s) e)]
      | _ \<Rightarrow> [])"

fun step_references ::
    "model \<Rightarrow> reference_index \<Rightarrow> id \<Rightarrow> step_location \<Rightarrow> operation_step \<Rightarrow> validation_error list" where
  "step_references m ix opn loc (OsTransaction t r) = validate_transaction_references m ix opn t"
| "step_references m ix opn loc (OsExecuteEffect s) =
     outside_transaction opn (xf_effect_id s) (xf_effect s)
     @ validate_effect_references m ix (xf_effect_id s) (operation_context opn) (xf_effect s)
     @ validate_derivation_references ix opn (operation_context opn) (xf_values s)"
| "step_references m ix opn loc (OsExecuteEffectAsync s) =
     outside_transaction opn (xa_effect_id s) (xa_effect s)
     @ validate_effect_references m ix (xa_effect_id s) (operation_context opn) (xa_effect s)
     @ validate_derivation_references ix opn (operation_context opn) (xa_values s)"
| "step_references m ix opn loc (OsExecuteEffectIntent s) = expected_owned ix opn RkEffectIntent opn (xi_intent s)"
| "step_references m ix opn loc (OsExecuteEffectIntentAsync s) =
     expected_owned ix opn RkEffectIntent opn (xia_intent s)"
| "step_references m ix opn loc (OsJoinAll hs) =
     concat (map (\<lambda>h. expected_owned ix opn RkAsyncHandle opn (aj_handle h)) hs)"
| "step_references m ix opn loc (OsRace s) =
     concat (map (expected_owned ix opn RkAsyncHandle opn) (rc_handles s))"
| "step_references m ix opn loc (OsMatchResult r ok errs) = expected_owned ix opn RkEffectResult opn r"
| "step_references m ix opn loc (OsBranch c b d) = refs_all ix opn (operation_context opn) (condition_roots c)"
| "step_references m ix opn loc (OsReturn s) =
     (let known = expect_owned_reference ix opn (ret_request s) RkInput opn
      in snd known
         @ (if fst known
            then validate_request_input_kind m ix opn (ret_request s) @ returned_error_class m ix opn loc s
            else [])
         @ validate_derivation_references ix opn (operation_context opn) (outcome_values (ret_outcome s)))"
| "step_references m ix opn loc OsComplete = []"
| "step_references m ix opn loc OsAbandon = []"

definition validate_program_references ::
    "model \<Rightarrow> reference_index \<Rightarrow> id \<Rightarrow> operation_block \<Rightarrow> validation_error list" where
  "validate_program_references m ix opn b =
     concat (map (\<lambda>(loc, s). step_references m ix opn loc s) (steps_with_locations b))"

section \<open>The model\<close>

definition validate_schema_references :: "model \<Rightarrow> reference_index \<Rightarrow> validation_error list" where
  "validate_schema_references m ix =
     concat (map (\<lambda>(i, s). case s of
          SchCanonical sc \<Rightarrow> concat (map (\<lambda>f. validate_type_ref_references i (f_ty f) ix) (bm_values (cs_fields sc)))
        | SchFragment fr \<Rightarrow> expected ix i RkSchema (sf_source fr)) (md_schemas m))"

definition identity_references :: "reference_index \<Rightarrow> id \<Rightarrow> message_identity \<Rightarrow> validation_error list" where
  "identity_references ix subj mi =
     (case mi of MiUnspecified \<Rightarrow> [] | MiKeyed k \<Rightarrow> concat (map (expected ix subj RkSchema) (bm_keys k)))"

definition validate_data_model_references :: "model \<Rightarrow> reference_index \<Rightarrow> validation_error list" where
  "validate_data_model_references m ix =
     concat (map (\<lambda>dm.
          concat (map (\<lambda>(i, ob). expected ix i RkSchema (do_schema ob)) (dm_objects dm))
          @ concat (map (\<lambda>(i, ob). concat (map (expected ix i RkSchema) (ob_messages ob))
                               @ identity_references ix i (ob_identity ob)) (dm_outboxes dm)))
        (bm_values (md_data_models m)))"

definition validate_topic_references :: "model \<Rightarrow> reference_index \<Rightarrow> validation_error list" where
  "validate_topic_references m ix =
     concat (map (\<lambda>(i, tp). concat (map (expected ix i RkSchema) (tp_messages tp))
                          @ identity_references ix i (tp_identity tp)) (md_topics m))"

definition is_kind :: "reference_index \<Rightarrow> reference_kind \<Rightarrow> id \<Rightarrow> bool" where
  "is_kind ix k r \<longleftrightarrow> map_option ri_kind (index_get ix r) = Some k"

definition transition_write_references ::
    "reference_index \<Rightarrow> id \<Rightarrow> id \<Rightarrow> id \<times> transition_effect \<Rightarrow> validation_error list" where
  "transition_write_references ix sm t e =
     (case e of (i, te) \<Rightarrow>
        let w = te_write te in
          (if is_kind ix RkOutbox (ow_outbox w) then []
           else [OfPlacement (VeUnknownTransitionOutbox sm t i (ow_outbox w))])
          @ (if is_kind ix RkSchema (ow_schema w) then []
             else [OfPlacement (VeInvalidTransitionOutboxSchema sm t i (ow_outbox w) (ow_schema w))])
          @ validate_propagation_references ix i (transition_context t) (ow_propagation w))"

definition transition_references ::
    "model \<Rightarrow> reference_index \<Rightarrow> id \<Rightarrow> id \<times> transition \<Rightarrow> validation_error list" where
  "transition_references m ix sm e =
     (case e of (t, tn) \<Rightarrow>
        concat (map (expected_owned ix t RkState sm) (tn_from tn))
        @ expected_owned ix t RkState sm (tn_to tn)
        @ concat (map (\<lambda>(i, se). validate_transition_effect_references m ix i (transition_context t) se)
            (tn_side_effects tn))
        @ concat (map (transition_write_references ix sm t) (tn_effects tn)))"

definition validate_state_machine_references :: "model \<Rightarrow> reference_index \<Rightarrow> validation_error list" where
  "validate_state_machine_references m ix =
     concat (map (\<lambda>(i, sm). expected ix i RkDataObject (ms_object (sm_subject sm))
          @ expected_owned ix i RkState i (sm_initial sm)
          @ concat (map (transition_references m ix i) (sm_transitions sm))) (md_state_machines m))"

fun validate_input_references :: "reference_index \<Rightarrow> id \<Rightarrow> op_input \<Rightarrow> validation_error list" where
  "validate_input_references ix i (InRequest r) =
     expected ix i RkSchema (ri_schema r) @ validate_result_type_references ix i (ri_result r)"
| "validate_input_references ix i (InSubscription s) =
     expected ix i RkTopic (si_topic s)
     @ (case si_messages s of MsAll \<Rightarrow> [] | MsOnly ms \<Rightarrow> concat (map (expected ix i RkSchema) ms))"
| "validate_input_references ix i (InOutbox b) = expected ix i RkOutbox (oi_outbox b)"

definition operation_references :: "model \<Rightarrow> reference_index \<Rightarrow> id \<times> operation \<Rightarrow> validation_error list" where
  "operation_references m ix e =
     (case e of (opn, d) \<Rightarrow>
        expected ix opn RkService (op_service d)
        @ concat (map (\<lambda>(i, inp). validate_input_references ix i inp) (op_inputs d))
        @ validate_program_references m ix opn (op_program d)
        @ concat (map (\<lambda>r. refs_all ix opn (operation_context opn) (ik_components (ir_key r)))
            (oq_idempotency (op_requirements d)))
        @ concat (map (\<lambda>r. refs_all ix opn (operation_context opn) (ik_components (rr_key r)))
            (oq_recoverability (op_requirements d))))"

definition validate_operation_references :: "model \<Rightarrow> reference_index \<Rightarrow> validation_error list" where
  "validate_operation_references m ix = concat (map (operation_references m ix) (md_operations m))"

definition validate_references :: "model \<Rightarrow> reference_index \<Rightarrow> validation_error list" where
  "validate_references m ix =
     validate_schema_references m ix @ validate_data_model_references m ix @ validate_topic_references m ix
     @ validate_state_machine_references m ix @ validate_operation_references m ix"

end
