(* ===== verification/Validate_Programs.thy ===== *)
theory Validate_Programs
  imports Validate_Index
begin

text \<open>
  The definite-availability analysis of an operation program (\<open>ProgramValidator\<close> of
  \<open>analyzer/validation/mod.rs\<close>): what every path reaching a step has established, bound, launched
  and selected, and the errors where a step consumes more. The validator's mutable fields, the
  errors and the pairs already reported, are the record \<open>checked\<close>, threaded through the walk.
\<close>

section \<open>Availability\<close>

record availability =
  av_artifacts :: "id set"
  av_bound :: "id set"
  av_handles :: "id set"
  av_ok :: "id set"
  av_err :: "(id, id) bmap"

definition nothing_available :: availability where
  "nothing_available = \<lparr>av_artifacts = {}, av_bound = {}, av_handles = {}, av_ok = {}, av_err = []\<rparr>"

definition av_meet :: "availability \<Rightarrow> availability \<Rightarrow> availability" where
  "av_meet a b =
     \<lparr>av_artifacts = av_artifacts a \<inter> av_artifacts b, av_bound = av_bound a \<inter> av_bound b,
      av_handles = av_handles a \<inter> av_handles b, av_ok = av_ok a \<inter> av_ok b,
      av_err = filter (\<lambda>(r, c). bm_get (av_err b) r = Some c) (av_err a)\<rparr>"

fun av_join :: "availability option \<Rightarrow> availability option \<Rightarrow> availability option" where
  "av_join (Some a) (Some b) = Some (av_meet a b)"
| "av_join (Some a) None = Some a"
| "av_join None b = b"

definition unavailability_at_entry :: "availability \<Rightarrow> value_ref \<Rightarrow> entry_unavailability option" where
  "unavailability_at_entry st v =
     (case vr_source v of
        VsTransactionRead b \<Rightarrow> Some (EuTransactionRead b)
      | VsTransactionOutput b \<Rightarrow> if b \<in> av_artifacts st then None else Some (EuArtifactNotAvailable b)
      | VsEffectResultOk r \<Rightarrow>
          if r \<in> av_ok st then None
          else if r \<in> av_bound st then Some (EuResultPayloadOutOfScope r) else Some (EuResultNotBound r)
      | VsEffectResultErr r \<Rightarrow>
          if bm_contains (av_err st) r then None
          else if r \<in> av_bound st then Some (EuResultPayloadOutOfScope r) else Some (EuResultNotBound r)
      | _ \<Rightarrow> None)"

definition add_bound :: "id option \<Rightarrow> availability \<Rightarrow> availability" where
  "add_bound b st = (case b of None \<Rightarrow> st | Some i \<Rightarrow> st\<lparr>av_bound := insert i (av_bound st)\<rparr>)"

definition add_handle :: "id \<Rightarrow> availability \<Rightarrow> availability" where
  "add_handle h st = st\<lparr>av_handles := insert h (av_handles st)\<rparr>"

section \<open>Roots and artifacts of a transaction\<close>

fun side_effect_propagation :: "transition_side_effect \<Rightarrow> key_propagation list" where
  "side_effect_propagation (TsePublication p) = pe_propagation p"
| "side_effect_propagation (TseRequest r) = re_propagation r"

definition transition_declaration_roots :: "model \<Rightarrow> state_transition \<Rightarrow> value_ref list" where
  "transition_declaration_roots m s =
     (case Option.bind (bm_get (md_state_machines m) (st_machine s))
             (\<lambda>sm. bm_get (sm_transitions sm) (st_transition s)) of
        None \<Rightarrow> []
      | Some tn \<Rightarrow>
          concat (map (\<lambda>se. propagation_roots (side_effect_propagation se)) (bm_values (tn_side_effects tn)))
          @ concat (map (\<lambda>te. propagation_roots (ow_propagation (te_write te))) (bm_values (tn_effects tn))))"

fun established_by_step :: "tx_step \<Rightarrow> id list" where
  "established_by_step (TsEstablishTransactionOutput s) = [eo_bind s]"
| "established_by_step (TsEstablishEffectIntent s) = [ei_bind s]"
| "established_by_step (TsTransition t) = map ti_bind (bm_values (st_effect_intents t))"
| "established_by_step _ = []"

definition established_by :: "transaction \<Rightarrow> id list" where
  "established_by t = concat (map established_by_step (tx_steps t))"

definition establish_all :: "transaction \<Rightarrow> availability \<Rightarrow> availability" where
  "establish_all t st = st\<lparr>av_artifacts := av_artifacts st \<union> set (established_by t)\<rparr>"

section \<open>Reporting\<close>

record checked =
  ck_errors :: "validation_error list"
  ck_reported :: "(step_location \<times> id) set"

definition complain_of :: "validation_error \<Rightarrow> checked \<Rightarrow> checked" where
  "complain_of e k = k\<lparr>ck_errors := ck_errors k @ [e]\<rparr>"

text \<open>One diagnostic per step and declaration.\<close>

definition report_once :: "step_location \<Rightarrow> id \<Rightarrow> validation_error \<Rightarrow> checked \<Rightarrow> checked" where
  "report_once loc i e k =
     (if (loc, i) \<in> ck_reported k then k
      else complain_of e (k\<lparr>ck_reported := insert (loc, i) (ck_reported k)\<rparr>))"

text \<open>The error a missing value is, if it is missing.\<close>

definition missing_value ::
    "id \<Rightarrow> availability \<Rightarrow> step_location \<Rightarrow> program_use \<Rightarrow> value_ref \<Rightarrow> validation_error option" where
  "missing_value opn st loc use v =
     (case vr_source v of
        VsTransactionOutput b \<Rightarrow>
          if b \<in> av_artifacts st then None
          else Some (OfProgram (VeTransactionArtifactNotAvailable opn loc b use))
      | VsEffectResultOk r \<Rightarrow>
          if r \<in> av_ok st then None
          else Some (OfProgram
            (if r \<in> av_bound st then VeEffectResultVariantOutOfScope opn loc r VariantOk use
             else VeEffectResultNotBound opn loc r use))
      | VsEffectResultErr r \<Rightarrow>
          if bm_contains (av_err st) r then None
          else Some (OfProgram
            (if r \<in> av_bound st then VeEffectResultVariantOutOfScope opn loc r VariantErr use
             else VeEffectResultNotBound opn loc r use))
      | _ \<Rightarrow> None)"

definition require_value ::
    "id \<Rightarrow> availability \<Rightarrow> step_location \<Rightarrow> program_use \<Rightarrow> value_ref \<Rightarrow> checked \<Rightarrow> checked" where
  "require_value opn st loc use v k =
     (case missing_value opn st loc use v of
        None \<Rightarrow> k
      | Some e \<Rightarrow> report_once loc (source_id (vr_source v)) e k)"

definition require_all ::
    "id \<Rightarrow> availability \<Rightarrow> step_location \<Rightarrow> program_use \<Rightarrow> value_ref list \<Rightarrow> checked \<Rightarrow> checked" where
  "require_all opn st loc use vs = fold (require_value opn st loc use) vs"

definition require_intent :: "id \<Rightarrow> availability \<Rightarrow> step_location \<Rightarrow> id \<Rightarrow> checked \<Rightarrow> checked" where
  "require_intent opn st loc i k =
     (if i \<in> av_artifacts st then k
      else report_once loc i (OfProgram (VeTransactionArtifactNotAvailable opn loc i (PuEffectIntent i))) k)"

fun synchronize ::
    "id \<Rightarrow> availability \<Rightarrow> step_location \<Rightarrow> program_use \<Rightarrow> id set \<Rightarrow> id list \<Rightarrow> checked \<Rightarrow> checked" where
  "synchronize opn st loc use seen [] k = k"
| "synchronize opn st loc use seen (h # hs) k =
     (if h \<in> seen
      then synchronize opn st loc use seen hs
             (complain_of (OfProgram (VeDuplicateSynchronizationHandle opn loc h use)) k)
      else synchronize opn st loc use (insert h seen) hs
             (if h \<in> av_handles st then k
              else report_once loc h (OfProgram (VeAsyncHandleNotAvailable opn loc h use)) k))"

section \<open>Transactions\<close>

definition requirement_key_error ::
    "id \<Rightarrow> availability \<Rightarrow> step_location \<Rightarrow> id \<Rightarrow> transaction_requirement_family \<Rightarrow> nat \<Rightarrow> value_ref
       \<Rightarrow> checked \<Rightarrow> checked" where
  "requirement_key_error opn st loc t family n v k =
     (case unavailability_at_entry st v of
        None \<Rightarrow> k
      | Some reason \<Rightarrow>
          complain_of (OfTransaction (VeTransactionRequirementKeyUnavailable opn loc t family n v reason)) k)"

definition position_error ::
    "id \<Rightarrow> availability \<Rightarrow> step_location \<Rightarrow> id \<Rightarrow> nat \<Rightarrow> value_ref \<Rightarrow> checked \<Rightarrow> checked" where
  "position_error opn st loc t n v k =
     (case unavailability_at_entry st v of
        None \<Rightarrow> k
      | Some reason \<Rightarrow>
          complain_of (OfTransaction (VeTransactionOrderingPositionUnavailable opn loc t n v reason)) k)"

text \<open>The roots of a body whose value must come from outside it.\<close>

definition established_output :: "tx_step \<Rightarrow> id set" where
  "established_output s = (case s of TsEstablishTransactionOutput o' \<Rightarrow> {eo_bind o'} | _ \<Rightarrow> {})"

fun body_roots :: "model \<Rightarrow> id set \<Rightarrow> tx_step list \<Rightarrow> value_ref list" where
  "body_roots m here [] = []"
| "body_roots m here (s # ss) =
     filter (\<lambda>v. case vr_source v of VsTransactionOutput b \<Rightarrow> b \<notin> here | _ \<Rightarrow> True) (step_roots s)
     @ (case s of TsTransition t \<Rightarrow> transition_declaration_roots m t | _ \<Rightarrow> [])
     @ body_roots m (here \<union> established_output s) ss"

definition rejected_arm_error ::
    "id \<Rightarrow> step_location \<Rightarrow> transaction \<Rightarrow> operation_block option \<Rightarrow> checked \<Rightarrow> checked" where
  "rejected_arm_error opn loc t rejected k =
     (case (rejected, position_of step_rejects (tx_steps t)) of
        (None, Some n) \<Rightarrow> complain_of (OfTransaction (VeMissingTransactionRejectedArm opn loc (tx_id t) n)) k
      | (Some b, None) \<Rightarrow> complain_of (OfTransaction (VeUnexpectedTransactionRejectedArm opn loc (tx_id t))) k
      | _ \<Rightarrow> k)"

definition key_roots :: "transaction \<Rightarrow> value_ref list" where
  "key_roots t = (case tx_idempotency t of IgDeduplicatedBy key \<Rightarrow> ik_components key | _ \<Rightarrow> [])"

definition judge_transaction ::
    "model \<Rightarrow> id \<Rightarrow> availability \<Rightarrow> step_location \<Rightarrow> transaction \<Rightarrow> operation_block option \<Rightarrow> checked \<Rightarrow> checked" where
  "judge_transaction m opn st loc t rejected k =
     rejected_arm_error opn loc t rejected
       (require_all opn st loc (PuTransaction (tx_id t)) (body_roots m {} (tx_steps t))
         (fold (\<lambda>(n, r) k. position_error opn st loc (tx_id t) n (or_position r)
                 (requirement_key_error opn st loc (tx_id t) TfOrdering n (or_key r) k))
            (enumerate 0 (tr_ordering (tx_requirements t)))
           (fold (\<lambda>(n, r). requirement_key_error opn st loc (tx_id t) TfSerializability n (sr_key r))
              (enumerate 0 (tr_serializability (tx_requirements t)))
             (require_all opn st loc (PuTransaction (tx_id t)) (key_roots t) k))))"

section \<open>Programs\<close>

definition leave_match :: "availability \<Rightarrow> id \<Rightarrow> availability option \<Rightarrow> availability option" where
  "leave_match outer r =
     map_option (\<lambda>st. st\<lparr>av_ok := (if r \<in> av_ok outer then av_ok st else av_ok st - {r}),
        av_err := (case bm_get (av_err outer) r of
                     Some c \<Rightarrow> bm_insert r c (av_err st) | None \<Rightarrow> bm_remove r (av_err st))\<rparr>)"

type_synonym flow = "availability option \<times> checked"

fun avail_block ::
    "model \<Rightarrow> id \<Rightarrow> step_location \<Rightarrow> arm option \<Rightarrow> availability \<Rightarrow> operation_block \<Rightarrow> checked \<Rightarrow> flow"
and avail_steps ::
    "model \<Rightarrow> id \<Rightarrow> step_location \<Rightarrow> arm option \<Rightarrow> nat \<Rightarrow> availability \<Rightarrow> operation_step list \<Rightarrow> checked \<Rightarrow> flow"
and avail_step ::
    "model \<Rightarrow> id \<Rightarrow> step_location \<Rightarrow> availability \<Rightarrow> operation_step \<Rightarrow> checked \<Rightarrow> flow"
and avail_errors ::
    "model \<Rightarrow> id \<Rightarrow> step_location \<Rightarrow> availability \<Rightarrow> id \<Rightarrow> (id \<times> operation_block) list \<Rightarrow> flow \<Rightarrow> flow"
where
  "avail_block m opn parent a st (Block ss) k = avail_steps m opn parent a 0 st ss k"
| "avail_steps m opn parent a n st [] k = (Some st, k)"
| "avail_steps m opn parent a n st (s # ss) k =
     (case avail_step m opn (descend parent a n) st s k of
        (Some st', k') \<Rightarrow> avail_steps m opn parent a (Suc n) st' ss k'
      | (None, k') \<Rightarrow>
          (None, if ss = [] then k'
                 else complain_of (OfProgram (VeUnreachableProgramStep opn (descend parent a (Suc n)))) k'))"
| "avail_step m opn loc st (OsTransaction t rejected) k =
     (case rejected of
        None \<Rightarrow> (Some (establish_all t st), judge_transaction m opn st loc t rejected k)
      | Some b \<Rightarrow>
          (case avail_block m opn loc (Some ArmRejected) st b (judge_transaction m opn st loc t rejected k) of
             (out, k') \<Rightarrow> (av_join (Some (establish_all t st)) out, k')))"
| "avail_step m opn loc st (OsExecuteEffect s) k =
     (Some (add_bound (xf_bind s) st),
      require_all opn st loc (PuEffect (xf_effect_id s)) (effect_roots (xf_effect s))
        (require_all opn st loc (PuEffect (xf_effect_id s)) (derivation_roots (xf_values s)) k))"
| "avail_step m opn loc st (OsExecuteEffectAsync s) k =
     (Some (add_handle (xa_handle s) st),
      require_all opn st loc (PuEffect (xa_effect_id s)) (effect_roots (xa_effect s))
        (require_all opn st loc (PuEffect (xa_effect_id s)) (derivation_roots (xa_values s))
          (if permits_direct_async (xa_effect s) then k
           else complain_of (OfProgram (VeEffectKindNotAsyncCapable opn loc (xa_effect_id s))) k)))"
| "avail_step m opn loc st (OsExecuteEffectIntent s) k =
     (Some (add_bound (xi_bind s) st), require_intent opn st loc (xi_intent s) k)"
| "avail_step m opn loc st (OsExecuteEffectIntentAsync s) k =
     (Some (add_handle (xia_handle s) st), require_intent opn st loc (xia_intent s) k)"
| "avail_step m opn loc st (OsJoinAll hs) k =
     (Some (fold (\<lambda>h. add_bound (aj_bind h)) hs st),
      synchronize opn st loc PuJoinAll {} (map aj_handle hs)
        (if hs = [] then complain_of (OfProgram (VeEmptyJoinAll opn loc)) k else k))"
| "avail_step m opn loc st (OsRace s) k =
     (Some (add_bound (rc_bind s) st),
      synchronize opn st loc PuRace {} (rc_handles s)
        (if length (rc_handles s) < 2
         then complain_of (OfProgram (VeRaceRequiresTwoHandles opn loc (length (rc_handles s)))) k else k))"
| "avail_step m opn loc st (OsMatchResult r ok errs) k =
     (case avail_errors m opn loc st r errs
             (avail_block m opn loc (Some ArmOk) (st\<lparr>av_ok := insert r (av_ok st)\<rparr>) ok
               (if r \<in> av_bound st then k
                else complain_of (OfProgram (VeEffectResultNotBound opn loc r PuMatch)) k)) of
        (out, k') \<Rightarrow> (leave_match st r out, k'))"
| "avail_step m opn loc st (OsBranch c b otherwise) k =
     (case avail_block m opn loc (Some ArmThen) st b (require_all opn st loc PuCondition (condition_roots c) k) of
        (thn, k') \<Rightarrow>
          (case otherwise of
             None \<Rightarrow> (av_join thn (Some st), k')
           | Some d \<Rightarrow>
               (case avail_block m opn loc (Some ArmOtherwise) st d k' of
                  (els, k'') \<Rightarrow> (av_join thn els, k''))))"
| "avail_step m opn loc st (OsReturn s) k =
     (None, require_all opn st loc (PuReturn (ret_request s)) (derivation_roots (outcome_values (ret_outcome s))) k)"
| "avail_step m opn loc st OsComplete k = (None, k)"
| "avail_step m opn loc st OsAbandon k = (None, k)"
| "avail_errors m opn loc st r [] f = f"
| "avail_errors m opn loc st r ((e, b) # errs) f =
     (case f of (out, k) \<Rightarrow>
        (case avail_block m opn loc (Some (ArmErr e)) (st\<lparr>av_err := bm_insert r e (av_err st)\<rparr>) b k of
           (arm_out, k') \<Rightarrow> avail_errors m opn loc st r errs (av_join out arm_out, k')))"

definition nothing_checked :: checked where
  "nothing_checked = \<lparr>ck_errors = [], ck_reported = {}\<rparr>"

definition check_program_flow :: "model \<Rightarrow> id \<Rightarrow> operation_block \<Rightarrow> flow" where
  "check_program_flow m opn b = avail_block m opn [] None nothing_available b nothing_checked"

definition program_flow_errors :: "model \<Rightarrow> id \<Rightarrow> operation_block \<Rightarrow> validation_error list" where
  "program_flow_errors m opn b =
     (case check_program_flow m opn b of
        (out, k) \<Rightarrow> ck_errors k @ (if out = None then [] else [OfProgram (VeProgramNotTerminated opn)]))"

definition validate_programs :: "model \<Rightarrow> validation_error list" where
  "validate_programs m = concat (map (\<lambda>(opn, d). program_flow_errors m opn (op_program d)) (md_operations m))"

end
