(* ===== verification/Validate_Paths.thy ===== *)
theory Validate_Paths
  imports Validate_Resolve Validate_Programs
begin

text \<open>
  The field-path pass of model validation (\<open>validate_field_paths\<close> of \<open>analyzer/validation/mod.rs\<close>):
  every field path of the model resolves against the schema it is read from. The pass runs after
  the reference pass; where the code relies on it with \<open>expect\<close>, or resolves a path without end,
  the value is \<open>None\<close>.
\<close>

type_synonym errors = "validation_error list option"

section \<open>One path\<close>

definition validate_schema_path :: "model \<Rightarrow> id \<Rightarrow> id \<Rightarrow> field_path \<Rightarrow> errors" where
  "validate_schema_path m subj s p =
     map_option (\<lambda>b. if b then [] else [OfReference (VeInvalidFieldPath subj s p)]) (schema_path_resolves m s p)"

definition validate_object_path :: "model \<Rightarrow> reference_index \<Rightarrow> id \<Rightarrow> id \<Rightarrow> field_path \<Rightarrow> errors" where
  "validate_object_path m ix subj obj p =
     Option.bind (object_schema m ix obj) (\<lambda>s. validate_schema_path m subj s p)"

definition field_selection_covers :: "field_path \<Rightarrow> field_path \<Rightarrow> bool" where
  "field_selection_covers sel p = starts_with p sel"

definition read_path ::
    "model \<Rightarrow> reference_index \<Rightarrow> id \<Rightarrow> value_context \<Rightarrow> id \<Rightarrow> field_path \<Rightarrow> errors" where
  "read_path m ix subj c b p =
     (case vc_transaction c of
        None \<Rightarrow> Some []
      | Some sc \<Rightarrow>
          (case scope_read sc b of
             None \<Rightarrow> Some []
           | Some (k, r) \<Rightarrow>
               if (case rd_fields r of FsAll \<Rightarrow> True | FsOnly fs \<Rightarrow> list_ex (\<lambda>f. field_selection_covers f p) fs)
               then validate_object_path m ix subj (os_object (rd_target r)) p
               else Some [OfTransaction (VeTransactionReadFieldNotSelected (ts_id sc) b p)]))"

definition validate_value_ref_path ::
    "model \<Rightarrow> reference_index \<Rightarrow> id \<Rightarrow> value_context \<Rightarrow> value_ref \<Rightarrow> errors" where
  "validate_value_ref_path m ix subj c v =
     (case vr_source v of
        VsInput i \<Rightarrow>
          Option.bind (find_input m ix i) (\<lambda>inp.
          Option.bind (admitted_schemas m inp) (gather (\<lambda>s. validate_schema_path m subj s (vr_path v))))
      | VsEffect e \<Rightarrow>
          Option.bind (effect_schema m ix e) (\<lambda>r.
            case r of
              None \<Rightarrow> Some [OfReference (VeValueSourceHasNoSchema subj e)]
            | Some s \<Rightarrow> validate_schema_path m subj s (vr_path v))
      | VsTransactionOutput b \<Rightarrow>
          Option.bind (bm_get (ix_output_schemas ix) b) (\<lambda>s. validate_schema_path m subj s (vr_path v))
      | VsStateMachineSubject sm \<Rightarrow>
          Option.bind (bm_get (md_state_machines m) sm) (\<lambda>d.
            validate_object_path m ix subj (ms_object (sm_subject d)) (vr_path v))
      | VsTransactionRead b \<Rightarrow> read_path m ix subj c b (vr_path v)
      | _ \<Rightarrow>
          (case effect_result_schema m ix c v of
             None \<Rightarrow> Some []
           | Some s \<Rightarrow> validate_schema_path m subj s (vr_path v)))"

definition paths_all :: "model \<Rightarrow> reference_index \<Rightarrow> id \<Rightarrow> value_context \<Rightarrow> value_ref list \<Rightarrow> errors" where
  "paths_all m ix subj c vs = gather (validate_value_ref_path m ix subj c) vs"

definition validate_derivation_paths :: "model \<Rightarrow> reference_index \<Rightarrow> id \<Rightarrow> value_context \<Rightarrow> derivation \<Rightarrow> errors" where
  "validate_derivation_paths m ix subj c d =
     (case d of DUnspecified \<Rightarrow> Some [] | Deterministic from \<Rightarrow> paths_all m ix subj c from)"

definition validate_propagation_paths ::
    "model \<Rightarrow> reference_index \<Rightarrow> id \<Rightarrow> value_context \<Rightarrow> key_propagation list \<Rightarrow> errors" where
  "validate_propagation_paths m ix subj c ps =
     gather (\<lambda>p. in_turn [paths_all m ix subj c (ik_components (kp_source p)),
                          paths_all m ix subj c (ik_components (kp_target p))]) ps"

fun validate_effect_paths :: "model \<Rightarrow> reference_index \<Rightarrow> id \<Rightarrow> value_context \<Rightarrow> effect \<Rightarrow> errors" where
  "validate_effect_paths m ix e c (EfPublication p) = validate_propagation_paths m ix e c (pe_propagation p)"
| "validate_effect_paths m ix e c (EfRequest r) = validate_propagation_paths m ix e c (re_propagation r)"
| "validate_effect_paths m ix e c (EfExternal x) =
     (case xe_identity x of XiKeyed k \<Rightarrow> paths_all m ix e c k | XiUnspecified \<Rightarrow> Some [])"
| "validate_effect_paths m ix e c (EfOutboxWrite w) = validate_propagation_paths m ix e c (ow_propagation w)"

definition validate_transition_effect_paths ::
    "model \<Rightarrow> reference_index \<Rightarrow> id \<Rightarrow> value_context \<Rightarrow> transition_side_effect \<Rightarrow> errors" where
  "validate_transition_effect_paths m ix e c se = validate_propagation_paths m ix e c (side_effect_propagation se)"

section \<open>Transactions\<close>

fun validate_predicate_paths ::
    "model \<Rightarrow> reference_index \<Rightarrow> id \<Rightarrow> value_context \<Rightarrow> id \<Rightarrow> predicate \<Rightarrow> errors" where
  "validate_predicate_paths m ix subj c obj PAll = Some []"
| "validate_predicate_paths m ix subj c obj (PEq f v) =
     in_turn [validate_object_path m ix subj obj f,
       (case v of SvValue r \<Rightarrow> validate_value_ref_path m ix subj c r | SvLiteral l \<Rightarrow> Some [])]"
| "validate_predicate_paths m ix subj c obj (PAnd ps) = gather (validate_predicate_paths m ix subj c obj) ps"

definition validate_selector_paths ::
    "model \<Rightarrow> reference_index \<Rightarrow> id \<Rightarrow> value_context \<Rightarrow> object_selector \<Rightarrow> errors" where
  "validate_selector_paths m ix subj c s = validate_predicate_paths m ix subj c (os_object s) (os_predicate s)"

definition compare_paths :: "model \<Rightarrow> reference_index \<Rightarrow> id \<Rightarrow> value_context \<Rightarrow> tx_step \<Rightarrow> errors" where
  "compare_paths m ix t c s =
     (case step_object s of
        None \<Rightarrow> Some []
      | Some obj \<Rightarrow>
          gather (\<lambda>cc. in_turn [validate_object_path m ix t obj (cc_field cc),
              (case compare_root cc of None \<Rightarrow> Some [] | Some v \<Rightarrow> validate_value_ref_path m ix t c v)])
            (step_compare s))"

fun tx_step_paths :: "model \<Rightarrow> reference_index \<Rightarrow> id \<Rightarrow> value_context \<Rightarrow> tx_step \<Rightarrow> errors" where
  "tx_step_paths m ix t c (TsRead s) =
     in_turn [validate_selector_paths m ix t c (rd_target s),
       (case rd_fields s of FsAll \<Rightarrow> Some []
        | FsOnly fs \<Rightarrow> gather (validate_object_path m ix t (os_object (rd_target s))) fs)]"
| "tx_step_paths m ix t c (TsUpdate s) =
     in_turn [validate_selector_paths m ix t c (up_target s),
       gather (validate_object_path m ix t (os_object (up_target s))) (up_fields s),
       validate_derivation_paths m ix t c (up_values s)]"
| "tx_step_paths m ix t c (TsCompareAndSet s) =
     in_turn [validate_selector_paths m ix t c (cas_target s),
       gather (validate_object_path m ix t (os_object (cas_target s))) (cas_fields s),
       validate_derivation_paths m ix t c (cas_values s)]"
| "tx_step_paths m ix t c (TsUpsert s) =
     in_turn [validate_selector_paths m ix t c (us_target s),
       gather (validate_object_path m ix t (os_object (us_target s))) (us_update_fields s),
       validate_derivation_paths m ix t c (us_insert_values s),
       validate_derivation_paths m ix t c (us_update_values s)]"
| "tx_step_paths m ix t c (TsInsert s) = validate_derivation_paths m ix t c (in_values s)"
| "tx_step_paths m ix t c (TsDelete s) = validate_selector_paths m ix t c (de_target s)"
| "tx_step_paths m ix t c (TsLock s) =
     in_turn [validate_selector_paths m ix t c (lk_target s),
       (case lk_order s of LoUnspecified \<Rightarrow> Some []
        | LoBy ts \<Rightarrow> gather (\<lambda>x. validate_object_path m ix t (os_object (lk_target s)) (ot_field x)) ts)]"
| "tx_step_paths m ix t c (TsTransition s) =
     in_turn [validate_selector_paths m ix t c (st_subject s),
       gather (\<lambda>i. validate_derivation_paths m ix t c (ti_values i)) (bm_values (st_effect_intents s)),
       gather (\<lambda>a. validate_derivation_paths m ix t c (ta_values a)) (bm_values (st_effects s))]"
| "tx_step_paths m ix t c (TsAdvanceCursor s) =
     in_turn [validate_selector_paths m ix t c (ac_target s),
       validate_object_path m ix t (os_object (ac_target s)) (ac_field s),
       validate_value_ref_path m ix t c (ac_incoming s)]"
| "tx_step_paths m ix t c (TsFence s) =
     in_turn [validate_selector_paths m ix t c (fe_target s),
       validate_object_path m ix t (os_object (fe_target s)) (fe_field s),
       validate_value_ref_path m ix t c (fe_token s)]"
| "tx_step_paths m ix t c (TsEstablishEffectIntent s) =
     in_turn [validate_effect_paths m ix (ei_effect_id s) c (ei_effect s),
       validate_derivation_paths m ix t c (ei_values s)]"
| "tx_step_paths m ix t c (TsEstablishTransactionOutput s) = validate_derivation_paths m ix t c (eo_values s)"
| "tx_step_paths m ix t c (TsWriteOutbox s) =
     in_turn [validate_propagation_paths m ix (wo_effect_id s) c (ow_propagation (wo_effect s)),
       validate_derivation_paths m ix t c (wo_values s)]"

definition validate_transaction_paths ::
    "model \<Rightarrow> reference_index \<Rightarrow> id \<Rightarrow> transaction \<Rightarrow> (id, id) bmap \<Rightarrow> errors" where
  "validate_transaction_paths m ix opn t sc =
     (let c = with_errors sc (operation_context opn)
      in in_turn
        [paths_all m ix (tx_id t) c (key_roots t),
         paths_all m ix (tx_id t) c (map sr_key (tr_serializability (tx_requirements t))),
         paths_all m ix (tx_id t) c
           (concat (map (\<lambda>r. [or_key r, or_position r]) (tr_ordering (tx_requirements t)))),
         gather (\<lambda>(k, s). in_turn
             [compare_paths m ix (tx_id t) (in_transaction t k c) s,
              tx_step_paths m ix (tx_id t) (in_transaction t k c) s])
           (enumerate 0 (tx_steps t))])"

section \<open>Programs and the model\<close>

fun step_paths :: "model \<Rightarrow> reference_index \<Rightarrow> id \<Rightarrow> operation_step \<Rightarrow> (id, id) bmap \<Rightarrow> errors" where
  "step_paths m ix opn (OsTransaction t r) sc = validate_transaction_paths m ix opn t sc"
| "step_paths m ix opn (OsExecuteEffect s) sc =
     in_turn [validate_effect_paths m ix (xf_effect_id s) (with_errors sc (operation_context opn)) (xf_effect s),
       validate_derivation_paths m ix opn (with_errors sc (operation_context opn)) (xf_values s)]"
| "step_paths m ix opn (OsExecuteEffectAsync s) sc =
     in_turn [validate_effect_paths m ix (xa_effect_id s) (with_errors sc (operation_context opn)) (xa_effect s),
       validate_derivation_paths m ix opn (with_errors sc (operation_context opn)) (xa_values s)]"
| "step_paths m ix opn (OsBranch c b d) sc =
     paths_all m ix opn (with_errors sc (operation_context opn)) (condition_roots c)"
| "step_paths m ix opn (OsReturn s) sc =
     validate_derivation_paths m ix opn (with_errors sc (operation_context opn)) (outcome_values (ret_outcome s))"
| "step_paths m ix opn _ sc = Some []"

definition validate_program_paths :: "model \<Rightarrow> reference_index \<Rightarrow> id \<Rightarrow> operation_block \<Rightarrow> errors" where
  "validate_program_paths m ix opn b = gather (\<lambda>(loc, s, sc). step_paths m ix opn s sc) (walk_scoped b)"

definition identity_paths :: "model \<Rightarrow> id \<Rightarrow> message_identity \<Rightarrow> errors" where
  "identity_paths m subj mi =
     (case mi of
        MiUnspecified \<Rightarrow> Some []
      | MiKeyed k \<Rightarrow> gather (\<lambda>(s, ps). gather (validate_schema_path m subj s) ps) k)"

definition fragment_paths :: "model \<Rightarrow> id \<times> schema \<Rightarrow> errors" where
  "fragment_paths m e =
     (case e of
        (i, SchFragment fr) \<Rightarrow> gather (validate_schema_path m i (sf_source fr)) (bm_values (sf_mapping fr))
      | _ \<Rightarrow> Some [])"

definition input_identity_paths :: "model \<Rightarrow> id \<times> op_input \<Rightarrow> errors" where
  "input_identity_paths m e =
     (case e of
        (i, InRequest r) \<Rightarrow>
          (case ri_identity r of
             RiUnspecified \<Rightarrow> Some []
           | RiKeyed fs \<Rightarrow> gather (validate_schema_path m i (ri_schema r)) fs)
      | _ \<Rightarrow> Some [])"

definition operation_paths :: "model \<Rightarrow> reference_index \<Rightarrow> id \<times> operation \<Rightarrow> errors" where
  "operation_paths m ix e =
     (case e of (opn, d) \<Rightarrow>
        in_turn [gather (input_identity_paths m) (op_inputs d),
          gather (\<lambda>r. paths_all m ix opn (operation_context opn) (ik_components (ir_key r)))
            (oq_idempotency (op_requirements d)),
          gather (\<lambda>r. paths_all m ix opn (operation_context opn) (ik_components (rr_key r)))
            (oq_recoverability (op_requirements d)),
          validate_program_paths m ix opn (op_program d)])"

definition transition_paths :: "model \<Rightarrow> reference_index \<Rightarrow> id \<times> transition \<Rightarrow> errors" where
  "transition_paths m ix e =
     (case e of (t, tn) \<Rightarrow>
        in_turn [gather (\<lambda>(i, se). validate_transition_effect_paths m ix i (transition_context t) se) (tn_side_effects tn),
          gather (\<lambda>(i, te). validate_propagation_paths m ix i (transition_context t) (ow_propagation (te_write te)))
            (tn_effects tn)])"

definition validate_field_paths :: "model \<Rightarrow> reference_index \<Rightarrow> errors" where
  "validate_field_paths m ix =
     in_turn
       [gather (fragment_paths m) (md_schemas m),
        gather (\<lambda>dm. gather (\<lambda>(i, ob). gather (validate_schema_path m i (do_schema ob)) (do_identity ob)) (dm_objects dm))
          (bm_values (md_data_models m)),
        gather (\<lambda>(i, tp). identity_paths m i (tp_identity tp)) (md_topics m),
        gather (\<lambda>dm. gather (\<lambda>(i, ob). identity_paths m i (ob_identity ob)) (dm_outboxes dm))
          (bm_values (md_data_models m)),
        gather (\<lambda>(i, sm). validate_object_path m ix i (ms_object (sm_subject sm)) (ms_state (sm_subject sm)))
          (md_state_machines m),
        gather (operation_paths m ix) (md_operations m),
        gather (\<lambda>sm. gather (transition_paths m ix) (sm_transitions sm)) (bm_values (md_state_machines m))]"

end
