(* ===== verification/Validate_Rules.thy ===== *)
theory Validate_Rules
  imports Validate_Paths "HOL-Library.Product_Lexorder"
begin

text \<open>
  The structural passes of model validation that run once references resolve
  (\<open>analyzer/validation/mod.rs\<close>, from \<open>validate_fragment_cycles\<close> to \<open>validate_result_bindings\<close>):
  fragments, data models, topics, outboxes, state machines, transactions, guarded mutations, managed
  fields, ordering positions, result bindings and match arms. A pass that relies on the reference
  pass with \<open>expect\<close>, or resolves a field's type, has \<open>None\<close> where the call does not return.
\<close>

section \<open>Fragment cycles\<close>

definition fragment_source :: "model \<Rightarrow> id \<Rightarrow> id option" where
  "fragment_source m s =
     (case bm_get (md_schemas m) s of Some (SchFragment fr) \<Rightarrow> Some (sf_source fr) | _ \<Rightarrow> None)"

lemma fragment_source_key: "fragment_source m s = Some t \<Longrightarrow> s \<in> set (bm_keys (md_schemas m))"
  by (auto simp: fragment_source_def image_iff dest!: map_of_SomeD split: option.splits schema.splits) force+

text \<open>The inner loop: the errors it pushes, and the path it has followed.\<close>

function follow_fragments :: "model \<Rightarrow> id set \<Rightarrow> id list \<Rightarrow> id \<Rightarrow> validation_error list \<times> id list" where
  "follow_fragments m complete path cur =
     (if cur \<in> complete then ([], path)
      else (case position_of ((=) cur) path of
              Some n \<Rightarrow> ([OfReference (VeFragmentCycle (drop n path @ [cur]))], path)
            | None \<Rightarrow>
                (case fragment_source m cur of
                   None \<Rightarrow> ([], path)
                 | Some s \<Rightarrow> follow_fragments m complete (path @ [cur]) s)))"
  by pat_completeness auto

termination
proof (relation "measure (\<lambda>(m, complete, path, cur). card (set (bm_keys (md_schemas m)) - set path))", goal_cases)
  case (2 m complete path cur s)
  then have "cur \<in> set (bm_keys (md_schemas m)) - set path"
    using fragment_source_key [of m cur s] by (auto simp: position_of_None_iff)
  then have "set (bm_keys (md_schemas m)) - set (path @ [cur]) \<subset> set (bm_keys (md_schemas m)) - set path"
    by auto
  then have "card (set (bm_keys (md_schemas m)) - set (path @ [cur])) < card (set (bm_keys (md_schemas m)) - set path)"
    by (rule psubset_card_mono [rotated]) simp
  then show ?case by simp
qed simp

declare follow_fragments.simps [simp del]

fun fragment_cycles :: "model \<Rightarrow> id set \<Rightarrow> id list \<Rightarrow> validation_error list" where
  "fragment_cycles m complete [] = []"
| "fragment_cycles m complete (s # ss) =
     (if s \<in> complete then fragment_cycles m complete ss
      else (case follow_fragments m complete [] s of
              (errs, path) \<Rightarrow> errs @ fragment_cycles m (complete \<union> set path) ss))"

definition validate_fragment_cycles :: "model \<Rightarrow> validation_error list" where
  "validate_fragment_cycles m = fragment_cycles m {} (bm_keys (md_schemas m))"

section \<open>Data models\<close>

definition is_canonical :: "model \<Rightarrow> id \<Rightarrow> bool" where
  "is_canonical m s \<longleftrightarrow> (case bm_get (md_schemas m) s of Some (SchCanonical c) \<Rightarrow> True | _ \<Rightarrow> False)"

definition data_object_errors :: "model \<Rightarrow> id \<times> data_object \<Rightarrow> validation_error list" where
  "data_object_errors m e =
     (case e of (i, ob) \<Rightarrow>
        (if is_canonical m (do_schema ob) then [] else [OfObject (VeDataObjectSchemaNotCanonical i (do_schema ob))])
        @ (if do_identity ob = [] then [OfObject (VeEmptyObjectIdentity i)] else []))"

definition all_objects :: "model \<Rightarrow> (id \<times> data_object) list" where
  "all_objects m = concat (map dm_objects (bm_values (md_data_models m)))"

definition all_outboxes :: "model \<Rightarrow> (id \<times> outbox) list" where
  "all_outboxes m = concat (map dm_outboxes (bm_values (md_data_models m)))"

definition validate_data_models :: "model \<Rightarrow> validation_error list" where
  "validate_data_models m = concat (map (data_object_errors m) (all_objects m))"

section \<open>Topics and outboxes\<close>

definition expected_arity :: "('k, 'a list) bmap \<Rightarrow> nat option" where
  "expected_arity mp = find_map (\<lambda>t. if length t > 0 then Some (length t) else None) (bm_values mp)"

text \<open>Topics and outboxes share the shape of a message identity; the errors differ.\<close>

definition identity_shape ::
    "(id \<Rightarrow> message_error) \<Rightarrow> (id \<Rightarrow> message_error) \<Rightarrow> (id \<Rightarrow> nat \<Rightarrow> nat \<Rightarrow> message_error)
       \<Rightarrow> id bset \<Rightarrow> message_identity \<Rightarrow> validation_error list" where
  "identity_shape unknown blank arity messages mi =
     (case mi of
        MiUnspecified \<Rightarrow> []
      | MiKeyed mp \<Rightarrow>
          map (\<lambda>s. OfMessage (unknown s)) (filter (\<lambda>s. s \<notin> set messages) (bm_keys mp))
          @ concat (map (\<lambda>(s, t).
              if t = [] then [OfMessage (blank s)]
              else (case expected_arity mp of
                      Some n \<Rightarrow> if length t \<noteq> n then [OfMessage (arity s n (length t))] else []
                    | None \<Rightarrow> [])) mp))"

definition validate_message_identity_shape :: "model \<Rightarrow> validation_error list" where
  "validate_message_identity_shape m =
     concat (map (\<lambda>(i, tp). identity_shape (VeMessageIdentitySchemaNotOnTopic i) (VeEmptyMessageIdentity i)
       (VeMessageIdentityArityMismatch i) (tp_messages tp) (tp_identity tp)) (md_topics m))"

definition validate_outbox_message_identity_shape :: "id \<times> outbox \<Rightarrow> validation_error list" where
  "validate_outbox_message_identity_shape e =
     (case e of (i, ob) \<Rightarrow> identity_shape (VeOutboxMessageIdentitySchemaNotAdmitted i)
        (VeEmptyOutboxMessageIdentity i) (VeOutboxMessageIdentityArityMismatch i) (ob_messages ob) (ob_identity ob))"

definition outbox_inputs :: "model \<Rightarrow> (id \<times> id \<times> id) list" where
  "outbox_inputs m =
     concat (map (\<lambda>(opn, d). List.map_filter (\<lambda>(i, inp). case inp of
        InOutbox b \<Rightarrow> Some (oi_outbox b, opn, i) | _ \<Rightarrow> None) (op_inputs d)) (md_operations m))"

definition consumers_of :: "model \<Rightarrow> id \<Rightarrow> (id \<times> id) list" where
  "consumers_of m ob = map snd (filter (\<lambda>(b, c). b = ob) (outbox_inputs m))"

definition validate_outbox_consumers :: "model \<Rightarrow> validation_error list" where
  "validate_outbox_consumers m =
     concat (map (\<lambda>(ob, decl). case consumers_of m ob of
          [] \<Rightarrow> [OfMessage (VeOutboxWithoutConsumer ob)]
        | (fo, fi) # others \<Rightarrow> map (\<lambda>(opn, i). OfMessage (VeOutboxMultipleConsumers ob fo fi opn i)) others)
       (all_outboxes m))"

definition validate_outboxes :: "model \<Rightarrow> validation_error list" where
  "validate_outboxes m =
     concat (map validate_outbox_message_identity_shape (all_outboxes m)) @ validate_outbox_consumers m"

definition all_inputs :: "model \<Rightarrow> (id \<times> op_input) list" where
  "all_inputs m = concat (map op_inputs (bm_values (md_operations m)))"

definition subscription_membership :: "model \<Rightarrow> id \<times> op_input \<Rightarrow> errors" where
  "subscription_membership m e =
     (case e of
        (i, InSubscription s) \<Rightarrow>
          map_option (\<lambda>tp. case si_messages s of
              MsAll \<Rightarrow> []
            | MsOnly ms \<Rightarrow> map (\<lambda>x. OfMessage (VeSubscriptionMessageNotOnTopic i (si_topic s) x))
                (filter (\<lambda>x. x \<notin> set (tp_messages tp)) ms)) (bm_get (md_topics m) (si_topic s))
      | _ \<Rightarrow> Some [])"

definition validate_subscription_topic_membership :: "model \<Rightarrow> errors" where
  "validate_subscription_topic_membership m = gather (subscription_membership m) (all_inputs m)"

definition validate_publication_membership :: "model \<Rightarrow> id \<Rightarrow> publication_effect \<Rightarrow> errors" where
  "validate_publication_membership m e p =
     map_option (\<lambda>tp. if pe_schema p \<in> set (tp_messages tp) then []
        else [OfMessage (VePublicationEffectMessageNotOnTopic e (pe_topic p) (pe_schema p))])
       (bm_get (md_topics m) (pe_topic p))"

definition all_transitions :: "model \<Rightarrow> (id \<times> transition) list" where
  "all_transitions m = concat (map sm_transitions (bm_values (md_state_machines m)))"

definition validate_publication_topic_membership :: "model \<Rightarrow> errors" where
  "validate_publication_topic_membership m =
     in_turn
       [gather (\<lambda>d. gather (\<lambda>(e, eff). case eff of
            EfPublication p \<Rightarrow> validate_publication_membership m e p | _ \<Rightarrow> Some [])
          (effect_declarations (op_program d))) (bm_values (md_operations m)),
        gather (\<lambda>(t, tn). gather (\<lambda>(e, se). case se of
            TsePublication p \<Rightarrow> validate_publication_membership m e p | _ \<Rightarrow> Some [])
          (tn_side_effects tn)) (all_transitions m)]"

definition validate_topics :: "model \<Rightarrow> errors" where
  "validate_topics m =
     in_turn [validate_subscription_topic_membership m, validate_publication_topic_membership m,
       Some (validate_message_identity_shape m)]"

definition validate_request_identity_shape :: "model \<Rightarrow> validation_error list" where
  "validate_request_identity_shape m =
     List.map_filter (\<lambda>(i, inp). case inp of
        InRequest r \<Rightarrow> if ri_identity r = RiKeyed [] then Some (OfMessage (VeEmptyRequestIdentity i)) else None
      | _ \<Rightarrow> None) (all_inputs m)"

section \<open>State machines and transactions\<close>

definition all_transactions :: "model \<Rightarrow> transaction list" where
  "all_transactions m = concat (map (\<lambda>d. map snd (transactions (op_program d))) (bm_values (md_operations m)))"

definition transition_subject :: "model \<Rightarrow> transaction \<Rightarrow> tx_step \<Rightarrow> errors" where
  "transition_subject m t s =
     (case s of
        TsTransition x \<Rightarrow>
          map_option (\<lambda>sm. if os_object (st_subject x) = ms_object (sm_subject sm) then []
              else [OfTransaction (VeStateTransitionSubjectMismatch (tx_id t) (st_machine x)
                      (ms_object (sm_subject sm)) (os_object (st_subject x)))])
            (bm_get (md_state_machines m) (st_machine x))
      | _ \<Rightarrow> Some [])"

definition validate_state_machines :: "model \<Rightarrow> errors" where
  "validate_state_machines m = gather (\<lambda>t. gather (transition_subject m t) (tx_steps t)) (all_transactions m)"

definition validate_transaction_object :: "reference_index \<Rightarrow> transaction \<Rightarrow> id \<Rightarrow> errors" where
  "validate_transaction_object ix t obj =
     map_option (\<lambda>info. case tx_data_model t of
         None \<Rightarrow> [OfTransaction (VeTransactionMissingDataModel (tx_id t) obj)]
       | Some dm \<Rightarrow>
           if ri_owner info \<noteq> Some dm
           then [OfTransaction (VeTransactionObjectOutsideDataModel (tx_id t) dm obj)] else [])
      (index_get ix obj)"

definition missing_of :: "id list \<Rightarrow> id list \<Rightarrow> id list" where
  "missing_of declared provided = filter (\<lambda>i. i \<notin> set provided) declared"

definition validate_transition_effect_intents :: "model \<Rightarrow> id \<Rightarrow> state_transition \<Rightarrow> errors" where
  "validate_transition_effect_intents m t s =
     Option.bind (bm_get (md_state_machines m) (st_machine s)) (\<lambda>sm.
     map_option (\<lambda>tn.
         let declared = bm_keys (tn_side_effects tn); provided = bm_keys (st_effect_intents s)
         in if set declared = set provided then []
            else [OfPlacement (VeTransitionEffectIntentsMismatch t (st_transition s)
                    (missing_of declared provided) (missing_of provided declared))])
       (bm_get (sm_transitions sm) (st_transition s)))"

definition validate_transition_effect_applications :: "model \<Rightarrow> id \<Rightarrow> state_transition \<Rightarrow> validation_error list" where
  "validate_transition_effect_applications m t s =
     (case Option.bind (bm_get (md_state_machines m) (st_machine s))
             (\<lambda>sm. bm_get (sm_transitions sm) (st_transition s)) of
        None \<Rightarrow> []
      | Some tn \<Rightarrow>
          let declared = bm_keys (tn_effects tn); provided = bm_keys (st_effects s)
          in if set declared = set provided then []
             else [OfPlacement (VeInvalidTransitionOutboxDerivation t (st_transition s)
                     (missing_of declared provided) (missing_of provided declared))])"

definition validate_transaction_outbox ::
    "model \<Rightarrow> reference_index \<Rightarrow> transaction \<Rightarrow> write_outbox_effect \<Rightarrow> errors" where
  "validate_transaction_outbox m ix t w =
     Option.bind (index_get ix (ow_outbox (wo_effect w))) (\<lambda>info.
       case tx_data_model t of
         None \<Rightarrow> Some [OfPlacement (VeOutboxWriteMissingDataModel (tx_id t) (wo_effect_id w) (ow_outbox (wo_effect w)))]
       | Some dm \<Rightarrow>
           if ri_owner info \<noteq> Some dm
           then Some [OfPlacement (VeOutboxOutsideDataModel (tx_id t) (wo_effect_id w) dm (ow_outbox (wo_effect w)))]
           else map_option (\<lambda>(owner, ob).
                  if ow_schema (wo_effect w) \<in> set (ob_messages ob) then []
                  else [OfPlacement (VeOutboxWriteMessageNotAdmitted (wo_effect_id w)
                          (ow_outbox (wo_effect w)) (ow_schema (wo_effect w)))])
                (model_outbox m (ow_outbox (wo_effect w))))"

fun transaction_step_placement :: "model \<Rightarrow> reference_index \<Rightarrow> transaction \<Rightarrow> tx_step \<Rightarrow> errors" where
  "transaction_step_placement m ix t (TsTransition s) =
     in_turn [validate_transaction_object ix t (os_object (st_subject s)),
       validate_transition_effect_intents m (tx_id t) s,
       Some (validate_transition_effect_applications m (tx_id t) s)]"
| "transaction_step_placement m ix t (TsWriteOutbox s) = validate_transaction_outbox m ix t s"
| "transaction_step_placement m ix t s =
     (case step_object s of None \<Rightarrow> Some [] | Some obj \<Rightarrow> validate_transaction_object ix t obj)"

definition validate_transactions :: "model \<Rightarrow> reference_index \<Rightarrow> errors" where
  "validate_transactions m ix =
     gather (\<lambda>t. gather (transaction_step_placement m ix t) (tx_steps t)) (all_transactions m)"

definition transition_effect_placement ::
    "model \<Rightarrow> id option \<Rightarrow> id \<Rightarrow> id \<Rightarrow> id \<times> transition_effect \<Rightarrow> validation_error list" where
  "transition_effect_placement m subject_owner sm t e =
     (case e of (i, te) \<Rightarrow>
        (case model_outbox m (ow_outbox (te_write te)) of
           None \<Rightarrow> []
         | Some (owner, ob) \<Rightarrow>
             (case subject_owner of
                Some w \<Rightarrow> if w \<noteq> owner
                  then [OfPlacement (VeTransitionOutboxOutsideDataModel sm t i (ow_outbox (te_write te)) w)] else []
              | None \<Rightarrow> [])
             @ (if ow_schema (te_write te) \<in> set (ob_messages ob) then []
                else [OfPlacement (VeInvalidTransitionOutboxSchema sm t i (ow_outbox (te_write te)) (ow_schema (te_write te)))])))"

definition validate_transition_effects :: "model \<Rightarrow> reference_index \<Rightarrow> validation_error list" where
  "validate_transition_effects m ix =
     concat (map (\<lambda>(i, sm).
        let owner = Option.bind (index_get ix (ms_object (sm_subject sm))) ri_owner
        in concat (map (\<lambda>(t, tn). concat (map (transition_effect_placement m owner i t) (tn_effects tn)))
             (sm_transitions sm))) (md_state_machines m))"

section \<open>Versions and guarded mutations\<close>

definition paths_related :: "field_path \<Rightarrow> field_path \<Rightarrow> bool" where
  "paths_related a b \<longleftrightarrow> starts_with a b \<or> starts_with b a"

definition version_defect :: "model \<Rightarrow> data_object \<Rightarrow> field_path \<Rightarrow> version_field_defect option option" where
  "version_defect m ob f =
     (if list_ex (\<lambda>i. paths_related i f) (do_identity ob) then Some (Some VdIdentityField)
      else map_option (\<lambda>r. case r of
          None \<Rightarrow> Some VdUnresolved
        | Some (ty, opt) \<Rightarrow>
            if opt then Some VdOptional
            else if ty = TScalar ScInt then None else Some (VdNotInt (type_label ty)))
        (schema_field_type m (do_schema ob) (components f)))"

definition object_version_errors :: "model \<Rightarrow> id \<times> data_object \<Rightarrow> errors" where
  "object_version_errors m e =
     (case e of (i, ob) \<Rightarrow>
        (case do_version ob of
           None \<Rightarrow> Some []
         | Some v \<Rightarrow>
             map_option (\<lambda>d. case d of None \<Rightarrow> []
                 | Some defect \<Rightarrow> [OfObject (VeInvalidObjectVersionField i (ov_field v) defect)])
               (version_defect m ob (ov_field v))))"

definition validate_object_versions :: "model \<Rightarrow> errors" where
  "validate_object_versions m = gather (object_version_errors m) (all_objects m)"

definition object_version_field :: "model \<Rightarrow> reference_index \<Rightarrow> id \<Rightarrow> field_path option" where
  "object_version_field m ix obj = Option.bind (owned_object m ix obj) (\<lambda>ob. map_option ov_field (do_version ob))"

definition object_identity :: "model \<Rightarrow> reference_index \<Rightarrow> id \<Rightarrow> field_path list option" where
  "object_identity m ix obj = map_option do_identity (owned_object m ix obj)"

fun pinned_fields :: "predicate \<Rightarrow> field_path list" where
  "pinned_fields PAll = []"
| "pinned_fields (PEq f v) = [f]"
| "pinned_fields (PAnd ps) = concat (map pinned_fields ps)"

definition selector_identifies_instance :: "field_path list \<Rightarrow> predicate \<Rightarrow> bool" where
  "selector_identifies_instance identity p \<longleftrightarrow> list_all (\<lambda>f. f \<in> set (pinned_fields p)) identity"

fun assigned_fields :: "tx_step \<Rightarrow> (object_selector \<times> field_path bset) option" where
  "assigned_fields (TsUpdate s) = Some (up_target s, up_fields s)"
| "assigned_fields (TsCompareAndSet s) = Some (cas_target s, cas_fields s)"
| "assigned_fields (TsUpsert s) = Some (us_target s, us_update_fields s)"
| "assigned_fields _ = None"

definition version_write_error :: "model \<Rightarrow> reference_index \<Rightarrow> id \<Rightarrow> nat \<Rightarrow> tx_step \<Rightarrow> validation_error list" where
  "version_write_error m ix t k s =
     (case assigned_fields s of
        None \<Rightarrow> []
      | Some (target, fs) \<Rightarrow>
          (case object_version_field m ix (os_object target) of
             None \<Rightarrow> []
           | Some v \<Rightarrow>
               if list_ex (\<lambda>f. paths_related f v) fs
               then [OfObject (VeDirectWriteToVersionField t k (os_object target) v)] else []))"

definition identified_target :: "model \<Rightarrow> reference_index \<Rightarrow> object_selector \<Rightarrow> bool" where
  "identified_target m ix s =
     (case object_identity m ix (os_object s) of
        None \<Rightarrow> True | Some identity \<Rightarrow> selector_identifies_instance identity (os_predicate s))"

fun guard_shape_errors :: "model \<Rightarrow> reference_index \<Rightarrow> id \<Rightarrow> nat \<Rightarrow> tx_step \<Rightarrow> validation_error list" where
  "guard_shape_errors m ix t k (TsCompareAndSet s) =
     (if identified_target m ix (cas_target s) then []
      else [OfObject (VeCompareAndSetWithoutIdentifiedInstance t k (os_object (cas_target s)))])
     @ (if cas_compare s = [] then [OfObject (VeCompareAndSetWithoutComparison t k (os_object (cas_target s)))] else [])"
| "guard_shape_errors m ix t k (TsUpsert s) =
     (if identified_target m ix (us_target s) then []
      else [OfObject (VeUpsertWithoutIdentifiedInstance t k (os_object (us_target s)))])
     @ (if us_update_fields s = [] then [OfObject (VeUpsertWithoutUpdateFields t k (os_object (us_target s)))] else [])
     @ (case object_identity m ix (os_object (us_target s)) of
          None \<Rightarrow> []
        | Some identity \<Rightarrow>
            map (\<lambda>f. OfObject (VeUpsertMutatesIdentity t k (os_object (us_target s)) f))
              (filter (\<lambda>f. list_ex (paths_related f) identity) (us_update_fields s)))"
| "guard_shape_errors m ix t k _ = []"

fun repeated_fields :: "field_path set \<Rightarrow> compare_condition list \<Rightarrow> field_path list" where
  "repeated_fields seen [] = []"
| "repeated_fields seen (c # cs) =
     (if cc_field c \<in> seen then cc_field c # repeated_fields seen cs
      else repeated_fields (insert (cc_field c) seen) cs)"

text \<open>Only steps with a target compare, so the \<open>expect\<close> of the code does not fail.\<close>

lemma compare_has_object: "step_object s = None \<Longrightarrow> step_compare s = []"
  by (cases s) simp_all

definition repeated_compare_errors :: "id \<Rightarrow> nat \<Rightarrow> tx_step \<Rightarrow> validation_error list" where
  "repeated_compare_errors t k s =
     (case step_object s of
        None \<Rightarrow> []
      | Some obj \<Rightarrow> map (\<lambda>f. OfObject (VeDuplicateCompareField t k obj f)) (repeated_fields {} (step_compare s)))"

definition validate_guarded_mutations :: "model \<Rightarrow> reference_index \<Rightarrow> validation_error list" where
  "validate_guarded_mutations m ix =
     concat (map (\<lambda>t. concat (map (\<lambda>(k, s).
          version_write_error m ix (tx_id t) k s @ guard_shape_errors m ix (tx_id t) k s
          @ repeated_compare_errors (tx_id t) k s) (enumerate 0 (tx_steps t)))) (all_transactions m))"

end
