(* ===== verification/Validate_Managed.thy ===== *)
theory Validate_Managed
  imports Validate_Rules
begin

text \<open>
  Managed fields, ordering positions, result bindings, match arms and \<open>abandon\<close>
  (\<open>validate_managed_fields\<close>, \<open>validate_ordering_positions\<close>, \<open>validate_result_bindings\<close>,
  \<open>validate_match_arms\<close>, \<open>validate_abandon\<close> of \<open>analyzer/validation/mod.rs\<close>).
\<close>

section \<open>Managed fields\<close>

type_synonym role_map = "(id \<times> field_path, managed_role) bmap"

definition version_roles :: "model \<Rightarrow> role_map" where
  "version_roles m =
     insert_all (List.map_filter (\<lambda>(i, ob).
        map_option (\<lambda>v. ((i, ov_field v), MrVersion)) (do_version ob)) (all_objects m))"

record claims =
  cl_roles :: role_map
  cl_conflicts :: "(id \<times> field_path \<times> managed_role) set"
  cl_errors :: "validation_error list"

definition claim_role :: "id \<times> field_path \<times> managed_role \<Rightarrow> claims \<Rightarrow> claims" where
  "claim_role e c =
     (case e of (obj, f, role) \<Rightarrow>
        (case bm_get (cl_roles c) (obj, f) of
           Some existing \<Rightarrow>
             if existing \<noteq> role \<and> (obj, f, role) \<notin> cl_conflicts c
             then c\<lparr>cl_conflicts := insert (obj, f, role) (cl_conflicts c),
                    cl_errors := cl_errors c @ [OfObject (VeManagedFieldRoleConflict obj f existing role)]\<rparr>
             else c
         | None \<Rightarrow> c\<lparr>cl_roles := bm_insert (obj, f) role (cl_roles c)\<rparr>))"

fun claimed_role :: "tx_step \<Rightarrow> (id \<times> field_path \<times> managed_role) option" where
  "claimed_role (TsAdvanceCursor s) = Some (os_object (ac_target s), ac_field s, MrCursor (ac_rule s))"
| "claimed_role (TsFence s) = Some (os_object (fe_target s), fe_field s, MrFence)"
| "claimed_role _ = None"

definition managed_claims :: "model \<Rightarrow> claims" where
  "managed_claims m =
     fold claim_role
       (List.map_filter claimed_role (concat (map tx_steps (all_transactions m))))
       \<lparr>cl_roles = version_roles m, cl_conflicts = {}, cl_errors = []\<rparr>"

definition managed_type_defect :: "managed_role \<Rightarrow> (type_ref \<times> bool) option \<Rightarrow> managed_field_defect option" where
  "managed_type_defect role r =
     (case r of
        None \<Rightarrow> Some MdUnresolved
      | Some (ty, opt) \<Rightarrow>
          if opt then Some MdOptional
          else if role = MrCursor Successor
          then (if ty = TScalar ScInt then None else Some (MdNotInt (type_label ty)))
          else if ty \<in> {TScalar ScInt, TScalar ScDecimal, TScalar ScTimestamp} then None
          else Some (MdNotOrderedScalar (type_label ty)))"

definition managed_type_errors :: "model \<Rightarrow> reference_index \<Rightarrow> (id \<times> field_path) \<times> managed_role \<Rightarrow> errors" where
  "managed_type_errors m ix e =
     (case e of ((obj, f), role) \<Rightarrow>
        if role = MrVersion then Some []
        else (case owned_object m ix obj of
                None \<Rightarrow> Some []
              | Some ob \<Rightarrow>
                  map_option (\<lambda>r. case managed_type_defect role r of
                      None \<Rightarrow> []
                    | Some defect \<Rightarrow> [OfObject (VeInvalidManagedFieldType obj f role defect)])
                  (schema_field_type m (do_schema ob) (components f))))"

definition managed_write_errors :: "role_map \<Rightarrow> id \<Rightarrow> nat \<Rightarrow> object_selector \<times> field_path bset \<Rightarrow> validation_error list" where
  "managed_write_errors roles t k e =
     (case e of (target, fs) \<Rightarrow>
        concat (map (\<lambda>written. List.map_filter (\<lambda>((obj, f), role).
            if obj = os_object target \<and> role \<noteq> MrVersion \<and> paths_related written f
            then Some (OfObject (VeDirectWriteToManagedField t k obj f role)) else None) roles) fs))"

fun driven_field :: "tx_step \<Rightarrow> (id \<times> field_path \<times> value_ref \<times> managed_role) option" where
  "driven_field (TsAdvanceCursor s) =
     Some (os_object (ac_target s), ac_field s, ac_incoming s, MrCursor (ac_rule s))"
| "driven_field (TsFence s) = Some (os_object (fe_target s), fe_field s, fe_token s, MrFence)"
| "driven_field _ = None"

definition shown_type :: "type_ref \<times> bool \<Rightarrow> string" where
  "shown_type e = (case e of (ty, opt) \<Rightarrow> if opt then ''optional '' @ type_label ty else type_label ty)"

definition driven_value_errors ::
    "model \<Rightarrow> reference_index \<Rightarrow> value_context \<Rightarrow> id \<times> field_path \<times> value_ref \<times> managed_role \<Rightarrow> errors" where
  "driven_value_errors m ix c e =
     (case e of (obj, f, v, role) \<Rightarrow>
        (case owned_object m ix obj of
           None \<Rightarrow> Some []
         | Some ob \<Rightarrow>
             Option.bind (schema_field_type m (do_schema ob) (components f)) (\<lambda>r. case r of
                 Some (expected, False) \<Rightarrow>
                   map_option (\<lambda>ts. case ts of
                       None \<Rightarrow> []
                     | Some ts \<Rightarrow>
                         (case find (\<lambda>(found, opt). opt \<or> found \<noteq> expected) ts of
                            None \<Rightarrow> []
                          | Some x \<Rightarrow> [OfObject (VeInvalidManagedFieldType obj f role
                              (MdValueTypeMismatch (type_label expected) (shown_type x)))]))
                     (value_ref_types m ix c v)
               | _ \<Rightarrow> Some [])))"

definition managed_step_errors ::
    "model \<Rightarrow> reference_index \<Rightarrow> role_map \<Rightarrow> value_context \<Rightarrow> id \<Rightarrow> nat \<Rightarrow> tx_step \<Rightarrow> errors" where
  "managed_step_errors m ix roles c t k s =
     (case driven_field s of
        Some e \<Rightarrow> driven_value_errors m ix c e
      | None \<Rightarrow>
          (case assigned_fields s of
             Some e \<Rightarrow> Some (managed_write_errors roles t k e)
           | None \<Rightarrow> Some []))"

definition scoped_transactions :: "operation_block \<Rightarrow> (transaction \<times> (id, id) bmap) list" where
  "scoped_transactions b =
     List.map_filter (\<lambda>(loc, s, sc). case s of OsTransaction t r \<Rightarrow> Some (t, sc) | _ \<Rightarrow> None) (walk_scoped b)"

definition managed_program_errors :: "model \<Rightarrow> reference_index \<Rightarrow> role_map \<Rightarrow> id \<times> operation \<Rightarrow> errors" where
  "managed_program_errors m ix roles e =
     (case e of (opn, d) \<Rightarrow>
        gather (\<lambda>(t, sc). gather (\<lambda>(k, s).
            managed_step_errors m ix roles (in_transaction t k (with_errors sc (operation_context opn))) (tx_id t) k s)
          (enumerate 0 (tx_steps t))) (scoped_transactions (op_program d)))"

definition validate_managed_fields :: "model \<Rightarrow> reference_index \<Rightarrow> errors" where
  "validate_managed_fields m ix =
     (let c = managed_claims m
      in in_turn [Some (cl_errors c), gather (managed_type_errors m ix) (cl_roles c),
           gather (managed_program_errors m ix (cl_roles c)) (md_operations m)])"

section \<open>Ordering positions\<close>

definition position_defect :: "type_ref \<times> bool \<Rightarrow> string option" where
  "position_defect e =
     (case e of (ty, opt) \<Rightarrow>
        if opt then Some (''optional '' @ type_label ty)
        else if ty \<in> {TScalar ScInt, TScalar ScDecimal, TScalar ScTimestamp} then None
        else Some (type_label ty))"

definition ordering_position_errors ::
    "model \<Rightarrow> reference_index \<Rightarrow> id \<Rightarrow> value_context \<Rightarrow> transaction \<Rightarrow> nat \<times> ordering_requirement \<Rightarrow> errors" where
  "ordering_position_errors m ix opn c t e =
     (case e of (k, r) \<Rightarrow>
        map_option (\<lambda>ts. case ts of
            None \<Rightarrow> []
          | Some ts \<Rightarrow>
              (case find_map position_defect ts of
                 None \<Rightarrow> []
               | Some found \<Rightarrow>
                   [OfTransaction (VeTransactionOrderingPositionNotOrderedScalar opn (tx_id t) k (or_position r) found)]))
          (value_ref_types m ix c (or_position r)))"

definition validate_ordering_positions :: "model \<Rightarrow> reference_index \<Rightarrow> errors" where
  "validate_ordering_positions m ix =
     gather (\<lambda>(opn, d). gather (\<lambda>(t, sc).
        gather (ordering_position_errors m ix opn (with_errors sc (operation_context opn)) t)
          (enumerate 0 (tr_ordering (tx_requirements t)))) (scoped_transactions (op_program d))) (md_operations m)"

section \<open>Results\<close>

definition joined_result_errors ::
    "model \<Rightarrow> reference_index \<Rightarrow> id \<Rightarrow> step_location \<Rightarrow> async_join \<Rightarrow> validation_error list" where
  "joined_result_errors m ix opn loc h =
     (case (aj_bind h, bm_get (ix_handle_effects ix) (aj_handle h)) of
        (Some b, Some e) \<Rightarrow>
          if effect_result_type m ix e = None then [OfProgram (VeEffectHasNoResult opn loc e b)] else []
      | _ \<Rightarrow> [])"

fun race_result_errors ::
    "model \<Rightarrow> reference_index \<Rightarrow> id \<Rightarrow> step_location \<Rightarrow> id \<Rightarrow> (id \<times> result_type) option \<Rightarrow> id list
       \<Rightarrow> validation_error list" where
  "race_result_errors m ix opn loc b first [] = []"
| "race_result_errors m ix opn loc b first (h # hs) =
     (case bm_get (ix_handle_effects ix) h of
        None \<Rightarrow> race_result_errors m ix opn loc b first hs
      | Some e \<Rightarrow>
          (case effect_result_type m ix e of
             None \<Rightarrow> OfProgram (VeEffectHasNoResult opn loc e b) # race_result_errors m ix opn loc b first hs
           | Some c \<Rightarrow>
               (case first of
                  None \<Rightarrow> race_result_errors m ix opn loc b (Some (e, c)) hs
                | Some (fe, fc) \<Rightarrow>
                    (if c \<noteq> fc then [OfProgram (VeRaceResultContractMismatch opn loc b fe e)] else [])
                    @ race_result_errors m ix opn loc b first hs)))"

fun step_result_binding :: "operation_step \<Rightarrow> id option" where
  "step_result_binding (OsExecuteEffect s) = xf_bind s"
| "step_result_binding (OsExecuteEffectIntent s) = xi_bind s"
| "step_result_binding _ = None"

fun result_binding_errors ::
    "model \<Rightarrow> reference_index \<Rightarrow> id \<Rightarrow> step_location \<Rightarrow> operation_step \<Rightarrow> validation_error list" where
  "result_binding_errors m ix opn loc (OsJoinAll hs) = concat (map (joined_result_errors m ix opn loc) hs)"
| "result_binding_errors m ix opn loc (OsRace s) =
     (case rc_bind s of None \<Rightarrow> [] | Some b \<Rightarrow> race_result_errors m ix opn loc b None (rc_handles s))"
| "result_binding_errors m ix opn loc s =
     (case step_result_binding s of
        None \<Rightarrow> []
      | Some r \<Rightarrow>
          (case bm_get (ix_result_bindings ix) r of
             None \<Rightarrow> []
           | Some e \<Rightarrow>
               if effect_result_type m ix e = None then [OfProgram (VeEffectHasNoResult opn loc e r)] else []))"

definition over_programs ::
    "(id \<Rightarrow> step_location \<Rightarrow> operation_step \<Rightarrow> validation_error list) \<Rightarrow> model \<Rightarrow> validation_error list" where
  "over_programs f m =
     concat (map (\<lambda>(opn, d). concat (map (\<lambda>(loc, s). f opn loc s) (steps_with_locations (op_program d))))
       (md_operations m))"

definition validate_result_bindings :: "model \<Rightarrow> reference_index \<Rightarrow> validation_error list" where
  "validate_result_bindings m ix = over_programs (result_binding_errors m ix) m"

fun match_arm_errors ::
    "model \<Rightarrow> reference_index \<Rightarrow> id \<Rightarrow> step_location \<Rightarrow> operation_step \<Rightarrow> validation_error list" where
  "match_arm_errors m ix opn loc (OsMatchResult r ok errs) =
     (case Option.bind (bm_get (ix_result_bindings ix) r) (effect_result_type m ix) of
        None \<Rightarrow> []
      | Some contract \<Rightarrow>
          map (\<lambda>e. OfProgram (VeMissingResultErrorArm opn loc r e))
            (filter (\<lambda>e. e \<notin> set (map fst errs)) (bm_keys (rt_errors contract)))
          @ map (\<lambda>e. OfProgram (VeUnexpectedResultErrorArm opn loc r e))
              (filter (\<lambda>e. \<not> bm_contains (rt_errors contract) e) (map fst errs)))"
| "match_arm_errors m ix opn loc _ = []"

definition validate_match_arms :: "model \<Rightarrow> reference_index \<Rightarrow> validation_error list" where
  "validate_match_arms m ix = over_programs (match_arm_errors m ix) m"

definition consumes_messages :: "operation \<Rightarrow> bool" where
  "consumes_messages d \<longleftrightarrow> list_ex (\<lambda>inp. input_kind_of inp \<noteq> IkRequest) (bm_values (op_inputs d))"

definition validate_abandon :: "model \<Rightarrow> validation_error list" where
  "validate_abandon m =
     concat (map (\<lambda>(opn, d).
        if consumes_messages d then []
        else List.map_filter (\<lambda>(loc, s).
            if s = OsAbandon then Some (OfProgram (VeAbandonWithoutMessageInput opn loc)) else None)
          (steps_with_locations (op_program d))) (md_operations m))"

end
