(* ===== verification/Validate_Runtime.thy ===== *)
theory Validate_Runtime
  imports Validate_References Validate_Managed
begin

text \<open>
  Validation of the runtime realization (\<open>analyzer/validation/runtime.rs\<close>): what each declaration is
  anchored at, the shape of grouping, partition and routing keys, and the one scope of transport
  semantics. A key's path that does not resolve to an answer makes the value \<open>None\<close>.
\<close>

section \<open>Keys\<close>

definition expect_pool :: "model \<Rightarrow> id \<Rightarrow> id \<Rightarrow> validation_error list" where
  "expect_pool m subj p =
     (if model_execution_pool m p = None
      then [OfReference (VeUnknownReference subj p RkExecutionPool)] else [])"

text \<open>The tuples of a keyed mapping, for the errors of a grouping or of a partitioning.\<close>

definition key_tuple_errors ::
    "model \<Rightarrow> id \<Rightarrow> (id \<Rightarrow> runtime_error) \<Rightarrow> (id \<Rightarrow> nat \<Rightarrow> nat \<Rightarrow> runtime_error)
       \<Rightarrow> grouping_key \<Rightarrow> errors" where
  "key_tuple_errors m subj blank arity key =
     gather (\<lambda>(s, t).
        if t = [] then Some [OfRuntime (blank s)]
        else in_turn
          [Some (case expected_arity key of
             Some n \<Rightarrow> if length t \<noteq> n then [OfRuntime (arity s n (length t))] else []
           | None \<Rightarrow> []),
           gather (validate_schema_path m subj s) t]) key"

definition key_coverage_errors ::
    "(id \<Rightarrow> runtime_error) \<Rightarrow> (id \<Rightarrow> runtime_error) \<Rightarrow> id bset \<Rightarrow> id bset \<Rightarrow> grouping_key
       \<Rightarrow> validation_error list" where
  "key_coverage_errors foreign missing admitted covers key =
     map (\<lambda>s. OfRuntime (foreign s)) (filter (\<lambda>s. s \<notin> set admitted) (bm_keys key))
     @ map (\<lambda>s. OfRuntime (missing s)) (filter (\<lambda>s. \<not> bm_contains key s) covers)"

definition validate_grouping ::
    "model \<Rightarrow> reference_index \<Rightarrow> id \<Rightarrow> id \<Rightarrow> grouping_key option \<Rightarrow> ordering_semantics option
       \<Rightarrow> id bset \<Rightarrow> errors" where
  "validate_grouping m ix subj topic grouping order covers =
     in_turn
       [Some (if order = Some OrdWithinGroup \<and> grouping = None
              then [OfRuntime (VeWithinGroupWithoutGrouping subj)] else []),
        (case grouping of
           None \<Rightarrow> Some []
         | Some key \<Rightarrow>
             in_turn
               [Some (concat (map (expected ix subj RkSchema) (bm_keys key))),
                (case bm_get (md_topics m) topic of
                   None \<Rightarrow> Some []
                 | Some tp \<Rightarrow>
                     in_turn
                       [Some (key_coverage_errors (VeGroupingKeySchemaNotOnTopic subj topic)
                          (VeGroupingKeyMissingSchema subj topic) (tp_messages tp) covers key),
                        key_tuple_errors m subj (VeEmptyGroupingKey subj)
                          (VeGroupingKeyArityMismatch subj) key])])]"

section \<open>Topics and subscriptions\<close>

definition topic_messages :: "model \<Rightarrow> id \<Rightarrow> id bset" where
  "topic_messages m t = (case bm_get (md_topics m) t of None \<Rightarrow> [] | Some tp \<Rightarrow> tp_messages tp)"

definition validate_topic_runtimes :: "model \<Rightarrow> runtime_model \<Rightarrow> reference_index \<Rightarrow> errors" where
  "validate_topic_runtimes m r ix =
     gather (\<lambda>(t, tr). in_turn
        [Some (expected ix t RkTopic t),
         validate_grouping m ix t t (tpr_grouping tr) (tpr_ordering tr) (topic_messages m t)])
       (rm_topics r)"

definition declared_input :: "model \<Rightarrow> id \<Rightarrow> id \<Rightarrow> op_input option" where
  "declared_input m opn i = Option.bind (bm_get (md_operations m) opn) (\<lambda>d. bm_get (op_inputs d) i)"

text \<open>The subscriptions that declare transport semantics of their own, with their topic.\<close>

definition subscription_scoped :: "model \<Rightarrow> runtime_model \<Rightarrow> (id \<times> id \<times> id) list" where
  "subscription_scoped m r =
     concat (map (\<lambda>(opn, ins). List.map_filter (\<lambda>(i, sr).
        if declares_transport (sbr_grouping sr) (sbr_ordering sr)
        then (case declared_input m opn i of
                Some (InSubscription s) \<Rightarrow> Some (si_topic s, opn, i)
              | _ \<Rightarrow> None)
        else None) ins) (rm_subscriptions r))"

definition validate_transport_scope :: "model \<Rightarrow> runtime_model \<Rightarrow> validation_error list" where
  "validate_transport_scope m r =
     concat (map (\<lambda>(t, tr).
        if declares_transport (tpr_grouping tr) (tpr_ordering tr)
        then map (\<lambda>(u, opn, i). OfRuntime (VeTransportSemanticsAtBothScopes t opn i))
               (filter (\<lambda>e. fst e = t) (subscription_scoped m r))
        else []) (rm_topics r))"

definition admitted_messages :: "model \<Rightarrow> subscription_input \<Rightarrow> id bset" where
  "admitted_messages m s =
     (case si_messages s of MsOnly ms \<Rightarrow> ms | MsAll \<Rightarrow> topic_messages m (si_topic s))"

definition subscription_runtime_errors ::
    "model \<Rightarrow> reference_index \<Rightarrow> id \<Rightarrow> id \<Rightarrow> subscription_runtime \<Rightarrow> subscription_input \<Rightarrow> errors" where
  "subscription_runtime_errors m ix opn i sr s =
     in_turn
       [Some (expect_pool m i (sd_pool (sbr_dispatch sr))),
        validate_grouping m ix i (si_topic s) (sbr_grouping sr) (sbr_ordering sr) (admitted_messages m s),
        Some (case sd_routing (sbr_dispatch sr) of
                None \<Rightarrow> []
              | Some rt \<Rightarrow>
                  (case srt_key rt of
                     SrkGroupingKey \<Rightarrow>
                       if effective_grouping m opn i (si_topic s) = None
                       then [OfRuntime (VeRoutingWithoutGrouping opn i (si_topic s))] else []))]"

definition wrong_input :: "id \<Rightarrow> id \<Rightarrow> input_kind \<Rightarrow> op_input \<Rightarrow> validation_error" where
  "wrong_input subj i k other = OfReference (VeInvalidInputKind subj i k (input_kind_of other))"

definition validate_subscription_runtimes :: "model \<Rightarrow> runtime_model \<Rightarrow> reference_index \<Rightarrow> errors" where
  "validate_subscription_runtimes m r ix =
     gather (\<lambda>(opn, ins).
        case bm_get (md_operations m) opn of
          None \<Rightarrow> Some [OfReference (VeUnknownReference opn opn RkOperation)]
        | Some d \<Rightarrow>
            gather (\<lambda>(i, sr).
              case bm_get (op_inputs d) i of
                Some (InSubscription s) \<Rightarrow> subscription_runtime_errors m ix opn i sr s
              | Some other \<Rightarrow> Some [wrong_input i i IkSubscription other]
              | None \<Rightarrow> Some [OfReference (VeUnknownReference opn i RkInput)]) ins)
       (rm_subscriptions r)"

section \<open>Outboxes\<close>

definition partitioning_errors ::
    "model \<Rightarrow> reference_index \<Rightarrow> id \<Rightarrow> outbox_runtime \<Rightarrow> outbox_input \<Rightarrow> errors" where
  "partitioning_errors m ix i ob b =
     (case obr_partitioning ob of
        OpNone \<Rightarrow> Some []
      | OpKeyed key \<Rightarrow>
          in_turn
            [Some (concat (map (expected ix i RkSchema) (bm_keys key))),
             (case model_outbox m (oi_outbox b) of
                None \<Rightarrow> Some []
              | Some (w, x) \<Rightarrow>
                  in_turn
                    [Some (key_coverage_errors (VeOutboxPartitionSchemaNotAdmitted i (oi_outbox b))
                       (VeOutboxPartitionMissingSchema i (oi_outbox b)) (ob_messages x) (ob_messages x) key),
                     key_tuple_errors m i (VeEmptyOutboxPartitionKey i)
                       (VeOutboxPartitionKeyArityMismatch i) key])])"

definition outbox_runtime_errors ::
    "model \<Rightarrow> reference_index \<Rightarrow> id \<Rightarrow> id \<Rightarrow> outbox_runtime \<Rightarrow> outbox_input \<Rightarrow> errors" where
  "outbox_runtime_errors m ix opn i ob b =
     in_turn
       [Some (expect_pool m i (od_pool (obr_dispatch ob))),
        Some (if obr_ordering ob = OoPartition \<and> obr_partitioning ob = OpNone
              then [OfRuntime (VePartitionOrderingWithoutPartitioning i)] else []),
        Some (case od_routing (obr_dispatch ob) of
                None \<Rightarrow> []
              | Some rt \<Rightarrow>
                  (case ort_key rt of
                     OrkPartitionKey \<Rightarrow>
                       if obr_partitioning ob = OpNone
                       then [OfRuntime (VeOutboxRoutingWithoutPartitioning opn i (oi_outbox b))] else [])),
        partitioning_errors m ix i ob b]"

definition validate_outbox_runtimes :: "model \<Rightarrow> runtime_model \<Rightarrow> reference_index \<Rightarrow> errors" where
  "validate_outbox_runtimes m r ix =
     gather (\<lambda>(opn, ins).
        case bm_get (md_operations m) opn of
          None \<Rightarrow> Some [OfReference (VeUnknownReference opn opn RkOperation)]
        | Some d \<Rightarrow>
            gather (\<lambda>(i, ob).
              case bm_get (op_inputs d) i of
                Some (InOutbox b) \<Rightarrow> outbox_runtime_errors m ix opn i ob b
              | Some other \<Rightarrow> Some [wrong_input i i IkOutbox other]
              | None \<Rightarrow> Some [OfReference (VeUnknownReference opn i RkInput)]) ins)
       (rm_outboxes r)"

section \<open>Routers and storage layouts\<close>

text \<open>The pairs a loop has seen, the first of each subject kept: the earlier holder, if any.\<close>

definition holder_of :: "('a \<times> id) list \<Rightarrow> 'a \<Rightarrow> id option" where
  "holder_of seen x = map_of seen x"

definition routing_errors :: "model \<Rightarrow> id \<Rightarrow> router \<Rightarrow> errors" where
  "routing_errors m i rt =
     (case bm_get (md_operations m) (ir_operation (rt_boundary rt)) of
        None \<Rightarrow> Some [OfReference (VeUnknownReference i (ir_operation (rt_boundary rt)) RkOperation)]
      | Some d \<Rightarrow>
          (case bm_get (op_inputs d) (ir_input (rt_boundary rt)) of
             Some (InRequest q) \<Rightarrow>
               (case rt_routing rt of
                  None \<Rightarrow> Some []
                | Some k \<Rightarrow>
                    in_turn
                      [Some (if rqr_key k = [] then [OfRuntime (VeEmptyRoutingKey i)] else []),
                       gather (validate_schema_path m i (ri_schema q)) (rqr_key k)])
           | Some other \<Rightarrow> Some [wrong_input i (ir_input (rt_boundary rt)) IkRequest other]
           | None \<Rightarrow> Some [OfReference (VeUnknownReference i (ir_input (rt_boundary rt)) RkInput)]))"

fun router_errors :: "model \<Rightarrow> (input_ref \<times> id) list \<Rightarrow> (id \<times> router) list \<Rightarrow> errors" where
  "router_errors m seen [] = Some []"
| "router_errors m seen ((i, rt) # rts) =
     in_turn
       [Some (case holder_of seen (rt_boundary rt) of
                None \<Rightarrow> []
              | Some first \<Rightarrow> [OfRuntime (VeDuplicateRouterForBoundary first i
                  (ir_operation (rt_boundary rt)) (ir_input (rt_boundary rt)))]),
        Some (expect_pool m i (rt_pool rt)),
        routing_errors m i rt,
        router_errors m
          (if holder_of seen (rt_boundary rt) = None then seen @ [(rt_boundary rt, i)] else seen) rts]"

definition validate_routers :: "model \<Rightarrow> runtime_model \<Rightarrow> errors" where
  "validate_routers m r = router_errors m [] (rm_routers r)"

definition layout_key_errors :: "model \<Rightarrow> id \<Rightarrow> storage_layout \<Rightarrow> errors" where
  "layout_key_errors m i sl =
     (case bm_get (md_data_models m) (or_data_model (sl_object sl)) of
        None \<Rightarrow> Some [OfReference (VeUnknownReference i (or_data_model (sl_object sl)) RkDataModel)]
      | Some dm \<Rightarrow>
          (case bm_get (dm_objects dm) (or_object (sl_object sl)) of
             None \<Rightarrow> Some [OfReference (VeUnknownReference i (or_object (sl_object sl)) RkDataObject)]
           | Some ob \<Rightarrow> gather (validate_schema_path m i (do_schema ob)) (sl_partition_key sl)))"

fun layout_errors :: "model \<Rightarrow> (object_ref \<times> id) list \<Rightarrow> (id \<times> storage_layout) list \<Rightarrow> errors" where
  "layout_errors m seen [] = Some []"
| "layout_errors m seen ((i, sl) # sls) =
     in_turn
       [Some (case holder_of seen (sl_object sl) of
                None \<Rightarrow> []
              | Some first \<Rightarrow> [OfRuntime (VeDuplicateStorageLayoutForObject first i
                  (or_data_model (sl_object sl)) (or_object (sl_object sl)))]),
        Some (if sl_partition_key sl = [] then [OfRuntime (VeEmptyPartitionKey i)] else []),
        layout_key_errors m i sl,
        layout_errors m
          (if holder_of seen (sl_object sl) = None then seen @ [(sl_object sl, i)] else seen) sls]"

definition validate_storage_layouts :: "model \<Rightarrow> runtime_model \<Rightarrow> errors" where
  "validate_storage_layouts m r = layout_errors m [] (rm_layouts r)"

definition validate_runtime :: "model \<Rightarrow> reference_index \<Rightarrow> errors" where
  "validate_runtime m ix =
     (case md_runtime m of
        None \<Rightarrow> Some []
      | Some r \<Rightarrow>
          in_turn
            [validate_topic_runtimes m r ix,
             validate_subscription_runtimes m r ix,
             validate_outbox_runtimes m r ix,
             Some (validate_transport_scope m r),
             validate_routers m r,
             validate_storage_layouts m r])"

end
