(* ===== verification/Replay_Paths.thy ===== *)
theory Replay_Paths
  imports Spec_Sites Analysis_Values
begin

text \<open>
  The paths of an operation program (\<open>analyzer/verification/paths.rs\<close>): every linear sequence of
  steps an invocation may traverse, with the decisions that select it and the terminal it reaches.

  The walk of the code extends prefixes and emits terminated paths into a vector; here it returns
  the prefixes that fall through with the paths it emitted, in the order of the code.
\<close>

section \<open>Paths\<close>

datatype transaction_outcome = ToCommitted | ToRejected

datatype (plugins only: code) decision =
    DcMatch id result_arm
  | DcBranch condition arm
  | DcTransaction id transaction_outcome

datatype (plugins only: code) path_step =
    PsTransaction step_location transaction
  | PsExecuteEffect step_location execute_effect
  | PsExecuteEffectIntent step_location execute_effect_intent
  | PsExecuteEffectAsync step_location execute_effect_async
  | PsExecuteEffectIntentAsync step_location execute_effect_intent_async
  | PsJoinAll step_location "async_join list"
  | PsRace step_location race_step
  | PsDecision step_location decision

datatype (plugins only: code) terminal =
    TmReturn step_location id result_outcome
  | TmComplete step_location
  | TmAbandon step_location
  | TmNone

record prog_path =
  pa_steps :: "path_step list"
  pa_terminal :: terminal

section \<open>References\<close>

datatype (plugins only: code) decision_taken =
    DtMatch step_location id result_arm
  | DtBranch step_location arm
  | DtTransaction step_location id transaction_outcome

type_synonym path_ref = "decision_taken list"

fun decision_taken_of :: "step_location \<Rightarrow> decision \<Rightarrow> decision_taken" where
  "decision_taken_of loc (DcMatch r a) = DtMatch loc r a"
| "decision_taken_of loc (DcBranch c a) = DtBranch loc a"
| "decision_taken_of loc (DcTransaction t out) = DtTransaction loc t out"

definition path_reference :: "prog_path \<Rightarrow> path_ref" where
  "path_reference p =
     List.map_filter (\<lambda>s. case s of
        PsDecision loc d \<Rightarrow> Some (decision_taken_of loc d) | _ \<Rightarrow> None) (pa_steps p)"

definition admitted_for :: "operation \<Rightarrow> id \<Rightarrow> prog_path \<Rightarrow> bool" where
  "admitted_for opn input p =
     (case pa_terminal p of
        TmReturn loc request out \<Rightarrow> request = input
      | TmAbandon loc \<Rightarrow> (case bm_get (op_inputs opn) input of Some (InRequest r) \<Rightarrow> False | _ \<Rightarrow> True)
      | _ \<Rightarrow> True)"

definition abandons :: "prog_path \<Rightarrow> bool" where
  "abandons p = (case pa_terminal p of TmAbandon loc \<Rightarrow> True | _ \<Rightarrow> False)"

definition returns_for :: "id \<Rightarrow> prog_path \<Rightarrow> result_outcome option" where
  "returns_for input p =
     (case pa_terminal p of
        TmReturn loc request out \<Rightarrow> if request = input then Some out else None | _ \<Rightarrow> None)"

section \<open>The walk\<close>

type_synonym walked = "path_step list list \<times> prog_path list"

definition join_walks :: "walked \<Rightarrow> walked \<Rightarrow> walked" where
  "join_walks a b = (fst a @ fst b, snd a @ snd b)"

definition join_all_walks :: "walked list \<Rightarrow> walked" where
  "join_all_walks ws = (concat (map fst ws), concat (map snd ws))"

definition goes_on :: "path_step list \<Rightarrow> path_step \<Rightarrow> walked" where
  "goes_on pre s = ([pre @ [s]], [])"

definition ends_at :: "path_step list \<Rightarrow> terminal \<Rightarrow> walked" where
  "ends_at pre t = ([], [\<lparr>pa_steps = pre, pa_terminal = t\<rparr>])"

fun walk_block :: "path_step list \<Rightarrow> step_location \<Rightarrow> arm option \<Rightarrow> operation_block \<Rightarrow> walked"
and walk_steps ::
    "path_step list list \<Rightarrow> step_location \<Rightarrow> arm option \<Rightarrow> nat \<Rightarrow> operation_step list \<Rightarrow> walked"
and walk_step :: "path_step list \<Rightarrow> step_location \<Rightarrow> operation_step \<Rightarrow> walked"
and walk_errors :: "path_step list \<Rightarrow> step_location \<Rightarrow> id \<Rightarrow> (id \<times> operation_block) list \<Rightarrow> walked"
where
  "walk_block pre parent a (Block ss) = walk_steps [pre] parent a 0 ss"
| "walk_steps opens parent a i [] = (opens, [])"
| "walk_steps opens parent a i (s # ss) =
     (case join_all_walks (map (\<lambda>pre. walk_step pre (descend parent a i) s) opens) of
        (nx, out) \<Rightarrow>
          if nx = [] then ([], out)
          else join_walks ([], out) (walk_steps nx parent a (Suc i) ss))"
| "walk_step pre loc (OsTransaction t None) = goes_on pre (PsTransaction loc t)"
| "walk_step pre loc (OsTransaction t (Some b)) =
     join_walks
       (goes_on (pre @ [PsTransaction loc t]) (PsDecision loc (DcTransaction (tx_id t) ToCommitted)))
       (walk_block (pre @ [PsDecision loc (DcTransaction (tx_id t) ToRejected)]) loc (Some ArmRejected) b)"
| "walk_step pre loc (OsExecuteEffect s) = goes_on pre (PsExecuteEffect loc s)"
| "walk_step pre loc (OsExecuteEffectAsync s) = goes_on pre (PsExecuteEffectAsync loc s)"
| "walk_step pre loc (OsExecuteEffectIntent s) = goes_on pre (PsExecuteEffectIntent loc s)"
| "walk_step pre loc (OsExecuteEffectIntentAsync s) = goes_on pre (PsExecuteEffectIntentAsync loc s)"
| "walk_step pre loc (OsJoinAll hs) = goes_on pre (PsJoinAll loc hs)"
| "walk_step pre loc (OsRace s) = goes_on pre (PsRace loc s)"
| "walk_step pre loc (OsMatchResult r ok errs) =
     join_walks
       (walk_block (pre @ [PsDecision loc (DcMatch r ArmResOk)]) loc (Some ArmOk) ok)
       (walk_errors pre loc r errs)"
| "walk_step pre loc (OsBranch c b None) =
     join_walks
       (walk_block (pre @ [PsDecision loc (DcBranch c ArmThen)]) loc (Some ArmThen) b)
       (goes_on pre (PsDecision loc (DcBranch c ArmOtherwise)))"
| "walk_step pre loc (OsBranch c b (Some d)) =
     join_walks
       (walk_block (pre @ [PsDecision loc (DcBranch c ArmThen)]) loc (Some ArmThen) b)
       (walk_block (pre @ [PsDecision loc (DcBranch c ArmOtherwise)]) loc (Some ArmOtherwise) d)"
| "walk_step pre loc (OsReturn s) = ends_at pre (TmReturn loc (ret_request s) (ret_outcome s))"
| "walk_step pre loc OsComplete = ends_at pre (TmComplete loc)"
| "walk_step pre loc OsAbandon = ends_at pre (TmAbandon loc)"
| "walk_errors pre loc r [] = ([], [])"
| "walk_errors pre loc r ((e, b) # errs) =
     join_walks
       (walk_block (pre @ [PsDecision loc (DcMatch r (ArmResErr e))]) loc (Some (ArmErr e)) b)
       (walk_errors pre loc r errs)"

definition paths :: "operation_block \<Rightarrow> prog_path list" where
  "paths b =
     (case walk_block [] [] None b of
        (opens, out) \<Rightarrow> out @ map (\<lambda>steps. \<lparr>pa_steps = steps, pa_terminal = TmNone\<rparr>) opens)"

end
