(* ===== verification/Replay_Trigger.thy ===== *)
theory Replay_Trigger
  imports Replay_Paths
begin

text \<open>
  The trigger graph (\<open>analyzer/verification/trigger.rs\<close>): which operations an effect goes on to
  invoke, the modeled producers and consumers of a message, and the effect contract behind an
  execution site.
\<close>

section \<open>Consumers and producers\<close>

record consumer_site =
  cs_operation :: id
  cs_input :: id
  cs_subscription :: subscription_input

datatype producer_site = PdOperation id | PdTransition id id

record producer_of_message =
  pm_site :: producer_site
  pm_effect :: id
  pm_publication :: publication_effect

record outbox_consumer =
  oc_operation :: id
  oc_input :: id

datatype outbox_producer_site = OpsOperation id id | OpsTransition id id

record outbox_producer =
  obp_site :: outbox_producer_site
  obp_effect :: id
  obp_write :: outbox_write_effect

record trigger_graph =
  tg_subscriptions :: "(id, consumer_site list) bmap"
  tg_publications :: "(id, producer_of_message list) bmap"
  tg_outbox_inputs :: "(id, outbox_consumer list) bmap"
  tg_outbox_writes :: "(id, outbox_producer list) bmap"

section \<open>Building the graph\<close>

text \<open>\<open>entry(k).or_default().push(v)\<close>.\<close>

definition push_entry :: "'k::linorder \<times> 'v \<Rightarrow> ('k, 'v list) bmap \<Rightarrow> ('k, 'v list) bmap" where
  "push_entry e m = bm_insert (fst e) (get_or [] (bm_get m (fst e)) @ [snd e]) m"

definition group_entries :: "('k::linorder \<times> 'v) list \<Rightarrow> ('k, 'v list) bmap" where
  "group_entries es = fold push_entry es []"

definition subscription_entries :: "model \<Rightarrow> (id \<times> consumer_site) list" where
  "subscription_entries m =
     concat (map (\<lambda>(opn, d). List.map_filter (\<lambda>(i, inp). case inp of
          InSubscription s \<Rightarrow> Some (si_topic s, \<lparr>cs_operation = opn, cs_input = i, cs_subscription = s\<rparr>)
        | _ \<Rightarrow> None) (op_inputs d)) (md_operations m))"

definition publication_entries :: "model \<Rightarrow> (id \<times> producer_of_message) list" where
  "publication_entries m =
     concat (map (\<lambda>(opn, d). List.map_filter (\<lambda>(e, f). case f of
          EfPublication p \<Rightarrow> Some (pe_topic p, \<lparr>pm_site = PdOperation opn, pm_effect = e, pm_publication = p\<rparr>)
        | _ \<Rightarrow> None) (effect_declarations (op_program d))) (md_operations m))
     @ concat (map (\<lambda>(mc, sm). concat (map (\<lambda>(tn, t). List.map_filter (\<lambda>(e, f). case f of
          TsePublication p \<Rightarrow> Some (pe_topic p, \<lparr>pm_site = PdTransition mc tn, pm_effect = e, pm_publication = p\<rparr>)
        | _ \<Rightarrow> None) (tn_side_effects t)) (sm_transitions sm))) (md_state_machines m))"

definition outbox_input_entries :: "model \<Rightarrow> (id \<times> outbox_consumer) list" where
  "outbox_input_entries m =
     concat (map (\<lambda>(opn, d). List.map_filter (\<lambda>(i, inp). case inp of
          InOutbox b \<Rightarrow> Some (oi_outbox b, \<lparr>oc_operation = opn, oc_input = i\<rparr>)
        | _ \<Rightarrow> None) (op_inputs d)) (md_operations m))"

definition outbox_write_entries :: "model \<Rightarrow> (id \<times> outbox_producer) list" where
  "outbox_write_entries m =
     concat (map (\<lambda>(opn, d). map (\<lambda>(t, w).
          (ow_outbox (wo_effect w),
           \<lparr>obp_site = OpsOperation opn t, obp_effect = wo_effect_id w, obp_write = wo_effect w\<rparr>))
        (outbox_write_declarations (op_program d))) (md_operations m))
     @ concat (map (\<lambda>(mc, sm). concat (map (\<lambda>(tn, t). map (\<lambda>(e, f).
          (ow_outbox (te_write f),
           \<lparr>obp_site = OpsTransition mc tn, obp_effect = e, obp_write = te_write f\<rparr>))
        (tn_effects t)) (sm_transitions sm))) (md_state_machines m))"

definition build_triggers :: "model \<Rightarrow> trigger_graph" where
  "build_triggers m =
     \<lparr>tg_subscriptions = group_entries (subscription_entries m),
      tg_publications = group_entries (publication_entries m),
      tg_outbox_inputs = group_entries (outbox_input_entries m),
      tg_outbox_writes = group_entries (outbox_write_entries m)\<rparr>"

section \<open>Queries\<close>

definition message_producers :: "trigger_graph \<Rightarrow> id \<Rightarrow> id \<Rightarrow> producer_of_message list" where
  "message_producers tg tp sch =
     filter (\<lambda>p. pe_schema (pm_publication p) = sch) (get_or [] (bm_get (tg_publications tg) tp))"

definition message_consumers :: "model \<Rightarrow> trigger_graph \<Rightarrow> id \<Rightarrow> id \<Rightarrow> consumer_site list" where
  "message_consumers m tg tp sch =
     (let declared = (case bm_get (md_topics m) tp of None \<Rightarrow> False | Some d \<Rightarrow> sch \<in> set (tp_messages d))
      in filter (\<lambda>c. case si_messages (cs_subscription c) of
             MsAll \<Rightarrow> declared | MsOnly ss \<Rightarrow> sch \<in> set ss)
           (get_or [] (bm_get (tg_subscriptions tg) tp)))"

definition outbox_producers :: "trigger_graph \<Rightarrow> id \<Rightarrow> id \<Rightarrow> outbox_producer list" where
  "outbox_producers tg ox sch =
     filter (\<lambda>p. ow_schema (obp_write p) = sch) (get_or [] (bm_get (tg_outbox_writes tg) ox))"

definition outbox_consumers :: "model \<Rightarrow> trigger_graph \<Rightarrow> id \<Rightarrow> id \<Rightarrow> outbox_consumer list" where
  "outbox_consumers m tg ox sch =
     (case model_outbox m ox of
        Some (d, ob) \<Rightarrow>
          if sch \<in> set (ob_messages ob) then get_or [] (bm_get (tg_outbox_inputs tg) ox) else []
      | None \<Rightarrow> [])"

text \<open>A key that names one input only, and the requirements keyed so.\<close>

definition keyed_from :: "idempotency_key \<Rightarrow> id \<Rightarrow> bool" where
  "keyed_from k i \<longleftrightarrow> ik_components k \<noteq> [] \<and> list_all (\<lambda>c. vr_source c = VsInput i) (ik_components k)"

definition collapses_duplicates :: "operation \<Rightarrow> id \<Rightarrow> bool" where
  "collapses_duplicates d i \<longleftrightarrow> list_ex (\<lambda>r. keyed_from (ir_key r) i) (oq_idempotency (op_requirements d))"

definition returns_consistently :: "operation \<Rightarrow> id \<Rightarrow> nat option" where
  "returns_consistently d i =
     position_of (\<lambda>r. ir_result r = RrReplayConsistent \<and> keyed_from (ir_key r) i)
       (oq_idempotency (op_requirements d))"

definition key_input :: "idempotency_key \<Rightarrow> id option" where
  "key_input k =
     (case ik_components k of
        [] \<Rightarrow> None
      | c # cs \<Rightarrow> (case vr_source c of VsInput i \<Rightarrow> Some i | _ \<Rightarrow> None))"

section \<open>Effect contracts\<close>

datatype effect_contract =
    EcPublication publication_effect
  | EcRequest request_effect
  | EcExternal external_effect
  | EcOutboxWrite outbox_write_effect

fun contract_of_effect :: "effect \<Rightarrow> effect_contract" where
  "contract_of_effect (EfPublication p) = EcPublication p"
| "contract_of_effect (EfRequest r) = EcRequest r"
| "contract_of_effect (EfExternal x) = EcExternal x"
| "contract_of_effect (EfOutboxWrite w) = EcOutboxWrite w"

fun contract_of_side_effect :: "transition_side_effect \<Rightarrow> effect_contract" where
  "contract_of_side_effect (TsePublication p) = EcPublication p"
| "contract_of_side_effect (TseRequest r) = EcRequest r"

fun contract_of_admission :: "transition_effect \<Rightarrow> effect_contract" where
  "contract_of_admission (TeOutboxWrite w) = EcOutboxWrite w"

definition transition_contract :: "transition \<Rightarrow> id \<Rightarrow> effect_contract option" where
  "transition_contract t e =
     (case bm_get (tn_side_effects t) e of
        Some s \<Rightarrow> Some (contract_of_side_effect s)
      | None \<Rightarrow> map_option contract_of_admission (bm_get (tn_effects t) e))"

definition effect_contract_of :: "model \<Rightarrow> operation \<Rightarrow> id \<Rightarrow> effect_contract option" where
  "effect_contract_of m d e =
     (case bm_get (effect_declarations (op_program d)) e of
        Some f \<Rightarrow> Some (contract_of_effect f)
      | None \<Rightarrow>
          (case find (\<lambda>(t, w). wo_effect_id w = e) (outbox_write_declarations (op_program d)) of
             Some (t, w) \<Rightarrow> Some (EcOutboxWrite (wo_effect w))
           | None \<Rightarrow>
               find_map (\<lambda>(mc, sm). find_map (\<lambda>(tn, t). transition_contract t e) (sm_transitions sm))
                 (md_state_machines m)))"

lemma push_entry_get:
  "get_or [] (bm_get (push_entry e m) k) = get_or [] (bm_get m k) @ (if k = fst e then [snd e] else [])"
  by (simp add: push_entry_def)

lemma fold_push_get:
  "get_or [] (bm_get (fold push_entry es m) k)
     = get_or [] (bm_get m k) @ map snd (filter (\<lambda>e. fst e = k) es)"
  by (induction es arbitrary: m) (auto simp: push_entry_get)

text \<open>Each list of the graph is the sublist of the entries of its boundary, in model order.\<close>

lemma group_entries_get: "get_or [] (bm_get (group_entries es) k) = map snd (filter (\<lambda>e. fst e = k) es)"
  by (simp add: group_entries_def fold_push_get)

end
