(* ===== verification/Replay_Engine.thy ===== *)
theory Replay_Engine
  imports Replay_Trigger
begin

text \<open>
  The replay engine (\<open>analyzer/verification/replay.rs\<close>): relative to a governing key, which value
  roots are stable across the attempts of a class, which transactions replay, which artifacts,
  effect instances and results a retry finds again, and which decisions it takes again, in one
  forward pass over a path.
\<close>

section \<open>Judgments\<close>

datatype (plugins only: code) governing_key_defect =
    GkEmpty
  | GkComponentNotFromInput value_source
  | GkComponentsFromMultipleInputs id id
  | GkInputNotDeclared id

datatype (plugins only: code) stability_rule =
    SrKeyComponent
  | SrIdentifiedPayload
  | SrRecoveredArtifact id
  | SrReconstructedArtifact id
  | SrReplayConsistentResult id id
  | SrReplayStableExternalResult id id result_arm

datatype (plugins only: code) stable_root = StableRoot (sr_root: value_ref) (sr_rule: stability_rule)

datatype (plugins only: code) payload_identity_gap =
    PgNotDeclared
  | PgSchemaNotMapped id
  | PgNotPinnedByKey "id option" field_path

datatype (plugins only: code) stability_gap =
    SgUnidentifiedPayloadField id payload_identity_gap
  | SgNotTriggeringInput id
  | SgMutableSubjectState id
  | SgEffectPayloadRoot id
  | SgTransactionReadRoot id
  | SgArtifactUnavailable id id "replay_gap list" "replay_gap list"
  | SgArtifactNotInContext id
  | SgResultNotInContext id
  | SgResultUnstable id id result_gap
and replay_gap =
    RgNoKeyedCommit
  | RgCommitKeyRootUnstable value_ref stability_gap
  | RgContainsTransition
  | RgContainsInsert
  | RgContainsDelete
  | RgPublishesVersion
  | RgContainsCompareAndSet
  | RgContainsFenceComparison
  | RgContainsUpsert
  | RgContainsCursorAdvance
  | RgMutationTargetRootUnstable value_ref stability_gap
  | RgMutationDerivationUnspecified
  | RgMutationDerivationRootUnstable value_ref stability_gap
  | RgArtifactDerivationUnspecified
  | RgArtifactDerivationRootUnstable value_ref stability_gap
and unstable_root = UnstableRoot value_ref stability_gap
and instance_gap =
    IgDerivationUnspecified
  | IgRootsUnstable "unstable_root list"
  | IgIntentNotEstablished id
  | IgIntentNotReplayAvailable id id "replay_gap list" "replay_gap list"
and result_gap =
    RsInstanceNotClassFixed instance_gap
  | RsRequestSchemaMismatch id id
  | RsTargetResultNotDeclared id id
  | RsTargetResultUnproven id id
  | RsExternalResultNotReplayStable external_result_replay
  | RsExternalIdentityKeyUnstable "unstable_root list"
  | RsExternalErrorRetryable
  | RsTargetErrorRetryable id id id
  | RsExternalErrorDispositionUnspecified
  | RsNoResultContract
  | RsRaceWinnerNondeterministic "id list"

datatype (plugins only: code) artifact_replay =
    ArRecovered id "stable_root list"
  | ArReconstructed id "stable_root list" "stable_root list"
  | ArUnavailable id "replay_gap list" "replay_gap list"

fun artifact_transaction :: "artifact_replay \<Rightarrow> id" where
  "artifact_transaction (ArRecovered t _) = t"
| "artifact_transaction (ArReconstructed t _ _) = t"
| "artifact_transaction (ArUnavailable t _ _) = t"

fun is_available :: "artifact_replay \<Rightarrow> bool" where
  "is_available (ArUnavailable _ _ _) = False"
| "is_available _ = True"

datatype (plugins only: code) instance_stability =
    IsReplayDeterministic "stable_root list"
  | IsEstablishedIntent id artifact_replay

datatype (plugins only: code) result_stability_rule =
    RuReplayConsistentTarget id id nat instance_stability
  | RuExternalTerminalResult result_arm "stable_root list"

datatype (plugins only: code) result_replay =
    ResultStable id result_stability_rule
  | ResultUnstable id result_gap

record bound_result =
  br_ok :: result_replay
  br_errors :: "(id, result_replay) bmap"
  br_fallback :: result_replay

definition both :: "result_replay \<Rightarrow> bound_result" where
  "both r = \<lparr>br_ok = r, br_errors = [], br_fallback = r\<rparr>"

fun bound_arm :: "bound_result \<Rightarrow> result_arm \<Rightarrow> result_replay" where
  "bound_arm b ArmResOk = br_ok b"
| "bound_arm b (ArmResErr e) = get_or (br_fallback b) (bm_get (br_errors b) e)"

record async_launch =
  al_effect :: id
  al_result :: bound_result

record path_context =
  px_artifacts :: "(id, artifact_replay) bmap"
  px_results :: "(id, bound_result) bmap"
  px_handles :: "(id, async_launch) bmap"
  px_selected :: "(id, result_arm) bmap"

definition context_empty :: path_context where
  "context_empty = \<lparr>px_artifacts = [], px_results = [], px_handles = [], px_selected = []\<rparr>"

datatype (plugins only: code) decision_rule =
    RlStableResult id id result_stability_rule
  | RlStableCondition "stable_root list"
  | RlIdempotencyInertContinuation
  | RlResolvedCommit id "stable_root list"
  | RlOutcomeDivergenceAddsNoWork id

datatype (plugins only: code) decision_gap =
    DgConditionUnspecified
  | DgConditionRootsUnstable "unstable_root list"
  | DgResultNotInContext id
  | DgResultUnstable id id result_gap
  | DgTransactionOutcomeUnstable id transaction_outcome "replay_gap list"

type_synonym decision_replay = "decision_taken \<times> decision_rule"

datatype (plugins only: code) effect_site =
    EsDirect id derivation
  | EsIntent id id
  | EsOutboxWrite id derivation id

fun site_effect :: "effect_site \<Rightarrow> id" where
  "site_effect (EsDirect e _) = e"
| "site_effect (EsIntent i e) = e"
| "site_effect (EsOutboxWrite e _ _) = e"

type_synonym route = "replay_gap list + stable_root list"

type_synonym instance_judgment = "instance_gap + instance_stability"

datatype (plugins only: code) traced_step =
    TrTransaction step_location transaction path_context route route
  | TrEffect step_location effect_site "effect_contract option" path_context instance_judgment
      "(id \<times> bound_result) option"
  | TrDecision step_location decision_taken "decision_gap + decision_rule"

record path_trace =
  pt_steps :: "traced_step list"
  pt_terminal :: terminal
  pt_end :: path_context

definition unstable_decisions :: "path_trace \<Rightarrow> (decision_taken \<times> decision_gap) list" where
  "unstable_decisions tr =
     List.map_filter (\<lambda>s. case s of TrDecision loc taken (Inl gap) \<Rightarrow> Some (taken, gap) | _ \<Rightarrow> None) (pt_steps tr)"

definition stable_decisions :: "path_trace \<Rightarrow> decision_replay list" where
  "stable_decisions tr =
     List.map_filter (\<lambda>s. case s of TrDecision loc taken (Inr rule) \<Rightarrow> Some (taken, rule) | _ \<Rightarrow> None) (pt_steps tr)"

section \<open>The analysis of one operation and key\<close>

record intent_site =
  it_effect :: id
  it_contract :: effect_contract

text \<open>\<open>payload\<close> is \<open>None\<close> when the whole triggering payload is stable, else the gap.\<close>

record replay_analysis =
  ra_model :: model
  ra_operation :: operation
  ra_input :: id
  ra_key :: idempotency_key
  ra_consistent :: "(id \<times> id) set"
  ra_schemas :: "id list option"
  ra_payload :: "payload_identity_gap option"
  ra_intents :: "(id, intent_site) bmap"

fun governing_input :: "id option \<Rightarrow> value_ref list \<Rightarrow> governing_key_defect + id" where
  "governing_input None [] = Inl GkEmpty"
| "governing_input (Some i) [] = Inr i"
| "governing_input cur (c # cs) =
     (case vr_source c of
        VsInput i \<Rightarrow>
          (case cur of
             None \<Rightarrow> governing_input (Some i) cs
           | Some f \<Rightarrow> if f \<noteq> i then Inl (GkComponentsFromMultipleInputs f i) else governing_input cur cs)
      | src \<Rightarrow> Inl (GkComponentNotFromInput src))"

fun payload_schemas :: "model \<Rightarrow> op_input \<Rightarrow> id list option" where
  "payload_schemas m (InRequest r) = Some [ri_schema r]"
| "payload_schemas m (InSubscription s) =
     (case si_messages s of
        MsOnly ss \<Rightarrow> Some ss
      | MsAll \<Rightarrow> map_option tp_messages (bm_get (md_topics m) (si_topic s)))"
| "payload_schemas m (InOutbox b) = map_option (\<lambda>(d, ob). ob_messages ob) (model_outbox m (oi_outbox b))"

fun step_intents :: "model \<Rightarrow> tx_step \<Rightarrow> (id \<times> intent_site) list" where
  "step_intents m (TsEstablishEffectIntent e) =
     [(ei_bind e, \<lparr>it_effect = ei_effect_id e, it_contract = contract_of_effect (ei_effect e)\<rparr>)]"
| "step_intents m (TsTransition s) =
     (case Option.bind (bm_get (md_state_machines m) (st_machine s))
         (\<lambda>sm. bm_get (sm_transitions sm) (st_transition s)) of
        None \<Rightarrow> []
      | Some t \<Rightarrow> List.map_filter (\<lambda>(e, i).
          map_option (\<lambda>f. (ti_bind i, \<lparr>it_effect = e, it_contract = contract_of_side_effect f\<rparr>))
            (bm_get (tn_side_effects t) e)) (st_effect_intents s))"
| "step_intents m _ = []"

definition intent_sites :: "model \<Rightarrow> operation \<Rightarrow> (id, intent_site) bmap" where
  "intent_sites m d =
     fold (\<lambda>(i, s). bm_insert i s)
       (concat (map (\<lambda>(loc, t). concat (map (step_intents m) (tx_steps t))) (transactions (op_program d)))) []"

definition payload_same_value :: "model \<Rightarrow> id \<Rightarrow> field_path \<Rightarrow> field_path \<Rightarrow> bool" where
  "payload_same_value m s a b =
     (if a = b then True
      else case (canonical_value_path m s a, canonical_value_path m s b) of
        (Some x, Some y) \<Rightarrow> x = y | _ \<Rightarrow> False)"

definition pinned_by_key :: "model \<Rightarrow> idempotency_key \<Rightarrow> id list option \<Rightarrow> field_path \<Rightarrow> bool" where
  "pinned_by_key m key schemas p =
     list_ex (\<lambda>c. case schemas of
          Some ss \<Rightarrow> list_all (\<lambda>s. payload_same_value m s (vr_path c) p) ss
        | None \<Rightarrow> vr_path c = p) (ik_components key)"

text \<open>The identity tuples of the admitted schemas, or the first schema without one.\<close>

fun identity_tuples ::
    "(id, field_path list) bmap \<Rightarrow> id list \<Rightarrow> payload_identity_gap + (id \<times> field_path list) list" where
  "identity_tuples mapping [] = Inr []"
| "identity_tuples mapping (s # ss) =
     (case bm_get mapping s of
        Some tuple \<Rightarrow>
          if tuple = [] then Inl (PgSchemaNotMapped s)
          else (case identity_tuples mapping ss of Inl g \<Rightarrow> Inl g | Inr ts \<Rightarrow> Inr ((s, tuple) # ts))
      | None \<Rightarrow> Inl (PgSchemaNotMapped s))"

definition tuple_get :: "field_path list \<Rightarrow> nat \<Rightarrow> field_path option" where
  "tuple_get t i = (if i < length t then Some (t ! i) else None)"

definition position_pinned ::
    "model \<Rightarrow> idempotency_key \<Rightarrow> (id \<times> field_path list) list \<Rightarrow> nat \<Rightarrow> bool" where
  "position_pinned m key tuples i =
     list_ex (\<lambda>c. list_all (\<lambda>(s, t). case tuple_get t i of
          None \<Rightarrow> False | Some f \<Rightarrow> payload_same_value m s (vr_path c) f) tuples) (ik_components key)"

definition mapped_payload_gap ::
    "model \<Rightarrow> idempotency_key \<Rightarrow> id list option \<Rightarrow> message_identity option \<Rightarrow> payload_identity_gap option" where
  "mapped_payload_gap m key schemas identity =
     (case (identity, schemas) of
        (Some (MiKeyed mapping), Some ss) \<Rightarrow>
          (case identity_tuples mapping ss of
             Inl g \<Rightarrow> Some g
           | Inr tuples \<Rightarrow>
               (case tuples of
                  [] \<Rightarrow> Some PgNotDeclared
                | (s, first) # _ \<Rightarrow>
                    find_map (\<lambda>(i, f).
                        if position_pinned m key tuples i then None
                        else Some (PgNotPinnedByKey
                          (map_option fst (find (\<lambda>(s, t). tuple_get t i = None) tuples)) f))
                      (enumerate 0 first)))
      | _ \<Rightarrow> Some PgNotDeclared)"

fun payload_gap :: "model \<Rightarrow> idempotency_key \<Rightarrow> id list option \<Rightarrow> op_input \<Rightarrow> payload_identity_gap option" where
  "payload_gap m key schemas (InRequest r) =
     (case ri_identity r of
        RiKeyed fs \<Rightarrow>
          if fs = [] then Some PgNotDeclared
          else find_map (\<lambda>f. if pinned_by_key m key schemas f then None else Some (PgNotPinnedByKey None f)) fs
      | RiUnspecified \<Rightarrow> Some PgNotDeclared)"
| "payload_gap m key schemas (InSubscription s) =
     mapped_payload_gap m key schemas (map_option tp_identity (bm_get (md_topics m) (si_topic s)))"
| "payload_gap m key schemas (InOutbox b) =
     mapped_payload_gap m key schemas (map_option (\<lambda>(d, ob). ob_identity ob) (model_outbox m (oi_outbox b)))"

definition new_analysis ::
    "model \<Rightarrow> operation \<Rightarrow> idempotency_key \<Rightarrow> (id \<times> id) set \<Rightarrow> governing_key_defect + replay_analysis" where
  "new_analysis m d key consistent =
     (case governing_input None (ik_components key) of
        Inl defect \<Rightarrow> Inl defect
      | Inr i \<Rightarrow>
          (case bm_get (op_inputs d) i of
             None \<Rightarrow> Inl (GkInputNotDeclared i)
           | Some inp \<Rightarrow>
               Inr \<lparr>ra_model = m, ra_operation = d, ra_input = i, ra_key = key, ra_consistent = consistent,
                    ra_schemas = payload_schemas m inp,
                    ra_payload = payload_gap m key (payload_schemas m inp) inp,
                    ra_intents = intent_sites m d\<rparr>))"

definition payload_identified :: "replay_analysis \<Rightarrow> bool" where
  "payload_identified an \<longleftrightarrow> ra_payload an = None"

definition admits_no_attempts :: "replay_analysis \<Rightarrow> bool" where
  "admits_no_attempts an \<longleftrightarrow> ra_schemas an = Some []"

section \<open>Root stability\<close>

fun rule_of_result :: "id \<Rightarrow> result_arm \<Rightarrow> result_replay \<Rightarrow> stability_gap + stability_rule" where
  "rule_of_result r a (ResultUnstable e gap) = Inl (SgResultUnstable r e gap)"
| "rule_of_result r a (ResultStable e (RuReplayConsistentTarget opn i k inst)) = Inr (SrReplayConsistentResult r e)"
| "rule_of_result r a (ResultStable e (RuExternalTerminalResult x key)) = Inr (SrReplayStableExternalResult r e a)"

definition error_arm_in_scope :: "path_context \<Rightarrow> id \<Rightarrow> result_arm" where
  "error_arm_in_scope ctx r =
     (case bm_get (px_selected ctx) r of Some (ArmResErr e) \<Rightarrow> ArmResErr e | _ \<Rightarrow> ArmResErr (Id []))"

definition result_rule :: "path_context \<Rightarrow> id \<Rightarrow> result_arm \<Rightarrow> stability_gap + stability_rule" where
  "result_rule ctx r a =
     (case bm_get (px_results ctx) r of
        None \<Rightarrow> Inl (SgResultNotInContext r)
      | Some b \<Rightarrow> rule_of_result r a (bound_arm b a))"

fun artifact_rule :: "id \<Rightarrow> artifact_replay option \<Rightarrow> stability_gap + stability_rule" where
  "artifact_rule x None = Inl (SgArtifactNotInContext x)"
| "artifact_rule x (Some (ArUnavailable t rg ng)) = Inl (SgArtifactUnavailable x t rg ng)"
| "artifact_rule x (Some (ArRecovered t k)) = Inr (SrRecoveredArtifact t)"
| "artifact_rule x (Some (ArReconstructed t d b)) = Inr (SrReconstructedArtifact t)"

definition root_rule :: "replay_analysis \<Rightarrow> path_context \<Rightarrow> value_ref \<Rightarrow> stability_gap + stability_rule" where
  "root_rule an ctx r =
     (case vr_source r of
        VsInput i \<Rightarrow>
          if i = ra_input an then
            (if pinned_by_key (ra_model an) (ra_key an) (ra_schemas an) (vr_path r) then Inr SrKeyComponent
             else case ra_payload an of
               None \<Rightarrow> Inr SrIdentifiedPayload | Some g \<Rightarrow> Inl (SgUnidentifiedPayloadField i g))
          else Inl (SgNotTriggeringInput i)
      | VsStateMachineSubject mc \<Rightarrow> Inl (SgMutableSubjectState mc)
      | VsEffect e \<Rightarrow> Inl (SgEffectPayloadRoot e)
      | VsTransactionRead rd \<Rightarrow> Inl (SgTransactionReadRoot rd)
      | VsTransactionOutput x \<Rightarrow> artifact_rule x (bm_get (px_artifacts ctx) x)
      | VsEffectResultOk b \<Rightarrow> result_rule ctx b ArmResOk
      | VsEffectResultErr b \<Rightarrow> result_rule ctx b (error_arm_in_scope ctx b))"

definition root_stability :: "replay_analysis \<Rightarrow> path_context \<Rightarrow> value_ref \<Rightarrow> stability_gap + stable_root" where
  "root_stability an ctx r =
     (case root_rule an ctx r of Inl g \<Rightarrow> Inl g | Inr rule \<Rightarrow> Inr (StableRoot r rule))"

fun roots_stability ::
    "replay_analysis \<Rightarrow> path_context \<Rightarrow> value_ref list \<Rightarrow> stable_root list \<times> unstable_root list" where
  "roots_stability an ctx [] = ([], [])"
| "roots_stability an ctx (r # rs) =
     (case roots_stability an ctx rs of (sts, uns) \<Rightarrow>
        (case root_stability an ctx r of
           Inr s \<Rightarrow> (s # sts, uns) | Inl g \<Rightarrow> (sts, UnstableRoot r g # uns)))"

section \<open>Instances and results\<close>

definition direct_instance :: "replay_analysis \<Rightarrow> path_context \<Rightarrow> derivation \<Rightarrow> instance_judgment" where
  "direct_instance an ctx d =
     (case d of
        DUnspecified \<Rightarrow> Inl IgDerivationUnspecified
      | Deterministic from \<Rightarrow>
          (case roots_stability an ctx from of (sts, uns) \<Rightarrow>
             if uns = [] then Inr (IsReplayDeterministic sts) else Inl (IgRootsUnstable uns)))"

definition intent_instance :: "path_context \<Rightarrow> id \<Rightarrow> instance_judgment" where
  "intent_instance ctx i =
     (case bm_get (px_artifacts ctx) i of
        None \<Rightarrow> Inl (IgIntentNotEstablished i)
      | Some (ArUnavailable t rg ng) \<Rightarrow> Inl (IgIntentNotReplayAvailable i t rg ng)
      | Some r \<Rightarrow> Inr (IsEstablishedIntent i r))"

definition external_replay :: "replay_analysis \<Rightarrow> path_context \<Rightarrow> id \<Rightarrow> external_effect \<Rightarrow> bound_result" where
  "external_replay an ctx e x =
     (let uns = (\<lambda>gap. both (ResultUnstable e gap))
      in case xe_result x of
           None \<Rightarrow> uns RsNoResultContract
         | Some result \<Rightarrow>
             if xe_result_replay x \<noteq> XrReplayStable
             then uns (RsExternalResultNotReplayStable (xe_result_replay x))
             else case xe_identity x of
               XiUnspecified \<Rightarrow> uns (RsExternalResultNotReplayStable (xe_result_replay x))
             | XiKeyed key \<Rightarrow>
                 (case roots_stability an ctx key of (sts, unstable_roots) \<Rightarrow>
                    if unstable_roots \<noteq> [] then uns (RsExternalIdentityKeyUnstable unstable_roots)
                    else
                      \<lparr>br_ok = ResultStable e (RuExternalTerminalResult ArmResOk sts),
                       br_errors = map (\<lambda>(c, d). (c,
                         case er_disposition d of
                           EdTerminal \<Rightarrow> ResultStable e (RuExternalTerminalResult (ArmResErr c) sts)
                         | EdRetryable \<Rightarrow> ResultUnstable e RsExternalErrorRetryable
                         | EdUnspecified \<Rightarrow> ResultUnstable e RsExternalErrorDispositionUnspecified))
                         (rt_errors result),
                       br_fallback = ResultUnstable e RsExternalErrorDispositionUnspecified\<rparr>))"

definition request_target_input :: "model \<Rightarrow> request_effect \<Rightarrow> (operation \<times> request_input) option" where
  "request_target_input m q =
     (case bm_get (md_operations m) (rq_operation (re_target q)) of
        None \<Rightarrow> None
      | Some d \<Rightarrow>
          (case bm_get (op_inputs d) (rq_input (re_target q)) of Some (InRequest r) \<Rightarrow> Some (d, r) | _ \<Rightarrow> None))"

definition request_result_replay ::
    "replay_analysis \<Rightarrow> id \<Rightarrow> request_effect \<Rightarrow> instance_judgment \<Rightarrow> bound_result" where
  "request_result_replay an e q inst =
     (let uns = (\<lambda>gap. both (ResultUnstable e gap));
          opn = rq_operation (re_target q); i = rq_input (re_target q)
      in case inst of
           Inl gap \<Rightarrow> uns (RsInstanceNotClassFixed gap)
         | Inr stability \<Rightarrow>
             (case request_target_input (ra_model an) q of
                None \<Rightarrow> uns (RsTargetResultNotDeclared opn i)
              | Some (target, declared) \<Rightarrow>
                  if ri_schema declared \<noteq> re_schema q
                  then uns (RsRequestSchemaMismatch (ri_schema declared) (re_schema q))
                  else case returns_consistently target i of
                    None \<Rightarrow> uns (RsTargetResultNotDeclared opn i)
                  | Some k \<Rightarrow>
                      if (opn, i) \<notin> ra_consistent an then uns (RsTargetResultUnproven opn i)
                      else
                        (let sts = ResultStable e (RuReplayConsistentTarget opn i k stability)
                         in \<lparr>br_ok = sts,
                             br_errors = map (\<lambda>(c, d). (c,
                               if er_disposition d = EdRetryable
                               then ResultUnstable e (RsTargetErrorRetryable opn i c) else sts))
                               (rt_errors (ri_result declared)),
                             br_fallback = sts\<rparr>)))"

definition result_replay_of ::
    "replay_analysis \<Rightarrow> path_context \<Rightarrow> id \<Rightarrow> effect_contract option \<Rightarrow> instance_judgment \<Rightarrow> bound_result" where
  "result_replay_of an ctx e contract inst =
     (case contract of
        Some (EcExternal x) \<Rightarrow> external_replay an ctx e x
      | Some (EcRequest q) \<Rightarrow> request_result_replay an e q inst
      | _ \<Rightarrow> both (ResultUnstable e RsNoResultContract))"

section \<open>Transactions\<close>

definition push_new :: "'a \<Rightarrow> 'a list \<Rightarrow> 'a list" where
  "push_new x xs = (if x \<in> set xs then xs else xs @ [x])"

definition object_versioned :: "model \<Rightarrow> id \<Rightarrow> bool" where
  "object_versioned m ob \<longleftrightarrow>
     list_ex (\<lambda>d. do_version d \<noteq> None)
       (List.map_filter (\<lambda>(n, dm). bm_get (dm_objects dm) ob) (md_data_models m))"

fun recovery_gaps :: "replay_analysis \<Rightarrow> path_context \<Rightarrow> value_ref list \<Rightarrow> stable_root list \<times> replay_gap list" where
  "recovery_gaps an ctx [] = ([], [])"
| "recovery_gaps an ctx (r # rs) =
     (case recovery_gaps an ctx rs of (roots, gaps) \<Rightarrow>
        (case root_stability an ctx r of
           Inr s \<Rightarrow> (s # roots, gaps) | Inl g \<Rightarrow> (roots, RgCommitKeyRootUnstable r g # gaps)))"

text \<open>Route B: a keyed commit over a sts key.\<close>

definition recovery_route :: "replay_analysis \<Rightarrow> path_context \<Rightarrow> transaction \<Rightarrow> route" where
  "recovery_route an ctx t =
     (case tx_idempotency t of
        IgDeduplicatedBy key \<Rightarrow>
          (case recovery_gaps an ctx (ik_components key) of (roots, gaps) \<Rightarrow>
             if gaps = [] then Inr roots else Inl gaps)
      | _ \<Rightarrow> Inl [RgNoKeyedCommit])"

type_synonym route_state = "stable_root list \<times> replay_gap list"

definition add_gap :: "replay_gap \<Rightarrow> route_state \<Rightarrow> route_state" where
  "add_gap g st = (fst st, push_new g (snd st))"

definition add_root ::
    "replay_analysis \<Rightarrow> path_context \<Rightarrow> (value_ref \<Rightarrow> stability_gap \<Rightarrow> replay_gap) \<Rightarrow> value_ref
       \<Rightarrow> route_state \<Rightarrow> route_state" where
  "add_root an ctx uns r st =
     (case root_stability an ctx r of
        Inr s \<Rightarrow> (push_new s (fst st), snd st) | Inl g \<Rightarrow> add_gap (uns r g) st)"

definition publishes_version :: "replay_analysis \<Rightarrow> id \<Rightarrow> route_state \<Rightarrow> route_state" where
  "publishes_version an ob st =
     (if object_versioned (ra_model an) ob then add_gap RgPublishesVersion st else st)"

fun natural_step :: "replay_analysis \<Rightarrow> path_context \<Rightarrow> tx_step \<Rightarrow> route_state \<Rightarrow> route_state" where
  "natural_step an ctx (TsTransition s) st = add_gap RgContainsTransition st"
| "natural_step an ctx (TsInsert s) st = add_gap RgContainsInsert st"
| "natural_step an ctx (TsDelete s) st = add_gap RgContainsDelete st"
| "natural_step an ctx (TsUpdate s) st =
     (let target = fold (add_root an ctx RgMutationTargetRootUnstable)
            (predicate_roots (os_predicate (up_target s)))
            (publishes_version an (os_object (up_target s)) st)
      in case up_values s of
           DUnspecified \<Rightarrow> add_gap RgMutationDerivationUnspecified target
         | Deterministic from \<Rightarrow> fold (add_root an ctx RgMutationDerivationRootUnstable) from target)"
| "natural_step an ctx (TsCompareAndSet s) st = add_gap RgContainsCompareAndSet st"
| "natural_step an ctx (TsUpsert s) st = add_gap RgContainsUpsert st"
| "natural_step an ctx (TsAdvanceCursor s) st = add_gap RgContainsCursorAdvance st"
| "natural_step an ctx (TsFence s) st =
     publishes_version an (os_object (fe_target s))
       (if fe_compare s = [] then st else add_gap RgContainsFenceComparison st)"
| "natural_step an ctx _ st = st"

text \<open>Route A: re-executing the body reproduces its state.\<close>

definition natural_route :: "replay_analysis \<Rightarrow> path_context \<Rightarrow> transaction \<Rightarrow> route" where
  "natural_route an ctx t =
     (case fold (natural_step an ctx) (tx_steps t) ([], []) of (roots, gaps) \<Rightarrow>
        if gaps = [] then Inr roots else Inl gaps)"

definition gaps_of :: "route \<Rightarrow> replay_gap list" where
  "gaps_of r = (case r of Inl gaps \<Rightarrow> gaps | Inr roots \<Rightarrow> [])"

definition roots_of :: "route \<Rightarrow> stable_root list" where
  "roots_of r = (case r of Inl gaps \<Rightarrow> [] | Inr roots \<Rightarrow> roots)"

fun derivation_replay ::
    "replay_analysis \<Rightarrow> path_context \<Rightarrow> derivation \<Rightarrow> stable_root list \<times> replay_gap list" where
  "derivation_replay an ctx DUnspecified = ([], [RgArtifactDerivationUnspecified])"
| "derivation_replay an ctx (Deterministic from) =
     (case roots_stability an ctx from of (sts, uns) \<Rightarrow>
        (sts, map (\<lambda>u. case u of UnstableRoot r g \<Rightarrow> RgArtifactDerivationRootUnstable r g) uns))"

definition artifact_replay_of ::
    "replay_analysis \<Rightarrow> id \<Rightarrow> route \<Rightarrow> route \<Rightarrow> derivation \<Rightarrow> path_context \<Rightarrow> artifact_replay" where
  "artifact_replay_of an t recovery natural d ctx =
     (case recovery of
        Inr key \<Rightarrow> ArRecovered t key
      | Inl gaps \<Rightarrow>
          (case derivation_replay an ctx d of (roots, derivation_gaps) \<Rightarrow>
             let reconstruction = gaps_of natural @ derivation_gaps
             in if reconstruction = [] then ArReconstructed t roots (roots_of natural)
                else ArUnavailable t gaps reconstruction))"

record outbox_write_trace =
  owt_effect_id :: id
  owt_effect :: outbox_write_effect
  owt_values :: derivation
  owt_before :: path_context
  owt_instance :: instance_judgment

definition bind_artifact :: "id \<Rightarrow> artifact_replay \<Rightarrow> path_context \<Rightarrow> path_context" where
  "bind_artifact x r ctx = ctx\<lparr>px_artifacts := bm_insert x r (px_artifacts ctx)\<rparr>"

definition write_trace ::
    "replay_analysis \<Rightarrow> path_context \<Rightarrow> id \<Rightarrow> outbox_write_effect \<Rightarrow> derivation \<Rightarrow> outbox_write_trace" where
  "write_trace an ctx e w d =
     \<lparr>owt_effect_id = e, owt_effect = w, owt_values = d, owt_before = ctx,
      owt_instance = direct_instance an ctx d\<rparr>"

fun apply_tx_step ::
    "replay_analysis \<Rightarrow> id \<Rightarrow> route \<Rightarrow> route \<Rightarrow> tx_step \<Rightarrow> path_context \<times> outbox_write_trace list
       \<Rightarrow> path_context \<times> outbox_write_trace list" where
  "apply_tx_step an t recovery natural (TsEstablishTransactionOutput s) (ctx, ws) =
     (bind_artifact (eo_bind s) (artifact_replay_of an t recovery natural (eo_values s) ctx) ctx, ws)"
| "apply_tx_step an t recovery natural (TsEstablishEffectIntent s) (ctx, ws) =
     (bind_artifact (ei_bind s) (artifact_replay_of an t recovery natural (ei_values s) ctx) ctx, ws)"
| "apply_tx_step an t recovery natural (TsTransition s) (ctx, ws) =
     (let ctx' = fold (\<lambda>i c. bind_artifact (ti_bind i) (artifact_replay_of an t recovery natural (ti_values i) c) c)
            (bm_values (st_effect_intents s)) ctx;
          declared = Option.bind (bm_get (md_state_machines (ra_model an)) (st_machine s))
            (\<lambda>sm. bm_get (sm_transitions sm) (st_transition s))
      in (ctx', ws @ List.map_filter (\<lambda>(e, app).
            map_option (\<lambda>adm. write_trace an ctx' e (te_write adm) (ta_values app))
              (Option.bind declared (\<lambda>d. bm_get (tn_effects d) e))) (st_effects s)))"
| "apply_tx_step an t recovery natural (TsWriteOutbox w) (ctx, ws) =
     (ctx, ws @ [write_trace an ctx (wo_effect_id w) (wo_effect w) (wo_values w)])"
| "apply_tx_step an t recovery natural _ (ctx, ws) = (ctx, ws)"

definition apply_transaction ::
    "replay_analysis \<Rightarrow> path_context \<Rightarrow> transaction
       \<Rightarrow> path_context \<times> route \<times> route \<times> outbox_write_trace list" where
  "apply_transaction an ctx t =
     (let recovery = recovery_route an ctx t; natural = natural_route an ctx t
      in case fold (apply_tx_step an (tx_id t) recovery natural) (tx_steps t) (ctx, []) of
           (ctx', ws) \<Rightarrow> (ctx', recovery, natural, ws))"

section \<open>Decisions\<close>

definition match_replay :: "path_context \<Rightarrow> id \<Rightarrow> result_arm \<Rightarrow> decision_gap + decision_rule" where
  "match_replay ctx r a =
     (case bm_get (px_results ctx) r of
        None \<Rightarrow> Inl (DgResultNotInContext r)
      | Some b \<Rightarrow>
          (case bound_arm b a of
             ResultUnstable e gap \<Rightarrow> Inl (DgResultUnstable r e gap)
           | ResultStable e rule \<Rightarrow> Inr (RlStableResult r e rule)))"

fun outcome_replay :: "(id, route) bmap \<Rightarrow> id \<Rightarrow> transaction_outcome \<Rightarrow> decision_gap + decision_rule" where
  "outcome_replay commits t ToCommitted =
     (case bm_get commits t of
        Some (Inr key) \<Rightarrow> Inr (RlResolvedCommit t key)
      | Some (Inl recovery) \<Rightarrow> Inl (DgTransactionOutcomeUnstable t ToCommitted recovery)
      | None \<Rightarrow> Inl (DgTransactionOutcomeUnstable t ToCommitted []))"
| "outcome_replay commits t ToRejected = Inl (DgTransactionOutcomeUnstable t ToRejected [])"

definition branch_replay :: "replay_analysis \<Rightarrow> path_context \<Rightarrow> condition \<Rightarrow> decision_gap + decision_rule" where
  "branch_replay an ctx c =
     (if \<not> is_deterministic c then Inl DgConditionUnspecified
      else case roots_stability an ctx (condition_roots c) of (sts, uns) \<Rightarrow>
        if uns = [] then Inr (RlStableCondition sts) else Inl (DgConditionRootsUnstable uns))"

fun decision_replay_of ::
    "replay_analysis \<Rightarrow> path_context \<Rightarrow> (id, route) bmap \<Rightarrow> decision \<Rightarrow> decision_gap + decision_rule" where
  "decision_replay_of an ctx commits (DcMatch r a) = match_replay ctx r a"
| "decision_replay_of an ctx commits (DcTransaction t out) = outcome_replay commits t out"
| "decision_replay_of an ctx commits (DcBranch c a) = branch_replay an ctx c"

section \<open>The trace of a path\<close>

record trace_state =
  ts_context :: path_context
  ts_steps :: "traced_step list"
  ts_commits :: "(id, route) bmap"

definition trace_start :: trace_state where
  "trace_start = \<lparr>ts_context = context_empty, ts_steps = [], ts_commits = []\<rparr>"

definition bind_result :: "id \<Rightarrow> bound_result \<Rightarrow> path_context \<Rightarrow> path_context" where
  "bind_result b r ctx = ctx\<lparr>px_results := bm_insert b r (px_results ctx)\<rparr>"

definition bind_handle :: "id \<Rightarrow> async_launch \<Rightarrow> path_context \<Rightarrow> path_context" where
  "bind_handle h l ctx = ctx\<lparr>px_handles := bm_insert h l (px_handles ctx)\<rparr>"

definition push_effect ::
    "replay_analysis \<Rightarrow> step_location \<Rightarrow> effect_site \<Rightarrow> effect_contract option \<Rightarrow> instance_judgment
       \<Rightarrow> id option \<Rightarrow> trace_state \<Rightarrow> trace_state" where
  "push_effect an loc site contract inst bind st =
     (let before = ts_context st;
          res = map_option (\<lambda>b. (b, result_replay_of an before (site_effect site) contract inst)) bind
      in st\<lparr>ts_context := (case res of None \<Rightarrow> before | Some (b, r) \<Rightarrow> bind_result b r before),
            ts_steps := ts_steps st @ [TrEffect loc site contract before inst res]\<rparr>)"

definition launch_effect ::
    "replay_analysis \<Rightarrow> step_location \<Rightarrow> effect_site \<Rightarrow> effect_contract \<Rightarrow> instance_judgment
       \<Rightarrow> id \<Rightarrow> trace_state \<Rightarrow> trace_state" where
  "launch_effect an loc site contract inst h st =
     (let result = result_replay_of an (ts_context st) (site_effect site) (Some contract) inst;
          st' = push_effect an loc site (Some contract) inst None st
      in st'\<lparr>ts_context := bind_handle h \<lparr>al_effect = site_effect site, al_result = result\<rparr> (ts_context st')\<rparr>)"

definition join_one :: "async_join \<Rightarrow> path_context \<Rightarrow> path_context" where
  "join_one j ctx =
     (case (aj_bind j, bm_get (px_handles ctx) (aj_handle j)) of
        (Some b, Some l) \<Rightarrow> bind_result b (al_result l) ctx
      | _ \<Rightarrow> ctx)"

definition race_candidates :: "path_context \<Rightarrow> id list \<Rightarrow> id list" where
  "race_candidates ctx hs = List.map_filter (\<lambda>h. map_option al_effect (bm_get (px_handles ctx) h)) hs"

definition race_result :: "path_context \<Rightarrow> id list \<Rightarrow> id \<Rightarrow> bound_result" where
  "race_result ctx hs b =
     (let cs = race_candidates ctx hs
      in both (ResultUnstable (case cs of [] \<Rightarrow> b | c # r \<Rightarrow> c) (RsRaceWinnerNondeterministic cs)))"

definition select_arm :: "decision \<Rightarrow> path_context \<Rightarrow> path_context" where
  "select_arm d ctx =
     (case d of DcMatch r a \<Rightarrow> ctx\<lparr>px_selected := bm_insert r a (px_selected ctx)\<rparr> | _ \<Rightarrow> ctx)"

definition write_step :: "step_location \<Rightarrow> id \<Rightarrow> outbox_write_trace \<Rightarrow> traced_step" where
  "write_step loc t w =
     TrEffect loc (EsOutboxWrite (owt_effect_id w) (owt_values w) t) (Some (EcOutboxWrite (owt_effect w)))
       (owt_before w) (owt_instance w) None"

fun trace_step :: "replay_analysis \<Rightarrow> path_step \<Rightarrow> trace_state \<Rightarrow> trace_state" where
  "trace_step an (PsTransaction loc t) st =
     (case apply_transaction an (ts_context st) t of (ctx', recovery, natural, ws) \<Rightarrow>
        st\<lparr>ts_context := ctx',
           ts_commits := bm_insert (tx_id t) recovery (ts_commits st),
           ts_steps := ts_steps st @ [TrTransaction loc t (ts_context st) recovery natural]
             @ map (write_step loc (tx_id t)) ws\<rparr>)"
| "trace_step an (PsExecuteEffect loc s) st =
     push_effect an loc (EsDirect (xf_effect_id s) (xf_values s)) (Some (contract_of_effect (xf_effect s)))
       (direct_instance an (ts_context st) (xf_values s)) (xf_bind s) st"
| "trace_step an (PsExecuteEffectIntent loc s) st =
     (case bm_get (ra_intents an) (xi_intent s) of
        None \<Rightarrow> st
      | Some site \<Rightarrow>
          push_effect an loc (EsIntent (xi_intent s) (it_effect site)) (Some (it_contract site))
            (intent_instance (ts_context st) (xi_intent s)) (xi_bind s) st)"
| "trace_step an (PsExecuteEffectAsync loc s) st =
     launch_effect an loc (EsDirect (xa_effect_id s) (xa_values s)) (contract_of_effect (xa_effect s))
       (direct_instance an (ts_context st) (xa_values s)) (xa_handle s) st"
| "trace_step an (PsExecuteEffectIntentAsync loc s) st =
     (case bm_get (ra_intents an) (xia_intent s) of
        None \<Rightarrow> st
      | Some site \<Rightarrow>
          launch_effect an loc (EsIntent (xia_intent s) (it_effect site)) (it_contract site)
            (intent_instance (ts_context st) (xia_intent s)) (xia_handle s) st)"
| "trace_step an (PsJoinAll loc js) st = st\<lparr>ts_context := fold join_one js (ts_context st)\<rparr>"
| "trace_step an (PsRace loc s) st =
     (case rc_bind s of
        None \<Rightarrow> st
      | Some b \<Rightarrow>
          st\<lparr>ts_context := bind_result b (race_result (ts_context st) (rc_handles s) b) (ts_context st)\<rparr>)"
| "trace_step an (PsDecision loc d) st =
     st\<lparr>ts_context := select_arm d (ts_context st),
        ts_steps := ts_steps st
          @ [TrDecision loc (decision_taken_of loc d)
               (decision_replay_of an (ts_context st) (ts_commits st) d)]\<rparr>"

definition trace :: "replay_analysis \<Rightarrow> prog_path \<Rightarrow> path_trace" where
  "trace an p =
     (let st = fold (trace_step an) (pa_steps p) trace_start
      in \<lparr>pt_steps = ts_steps st, pt_terminal = pa_terminal p, pt_end = ts_context st\<rparr>)"

end
