(* ===== verification/Replay_Verdicts.thy ===== *)
theory Replay_Verdicts
  imports Replay_Engine Analysis_Serializability
begin

text \<open>
  What the three replay provers share: the layers a proof consumed and a missing proof needs
  (\<open>ProofScope\<close>, \<open>RemedyLayer\<close> of \<open>verification/mod.rs\<close>), the deduplication of obstacles by
  site, and the loop that iterates the checks from a set of assumed requirements until the proven
  set is stable (\<open>fixpoint\<close> of \<open>result_replay.rs\<close> and \<open>idempotency.rs\<close>). The locale
  \<open>assumption_loop\<close> states what the loop needs of a prover, and proves that it ends, in the least
  fixpoint from nothing assumed and in the greatest from everything assumed.
\<close>

section \<open>Layers\<close>

fun scope_join :: "proof_scope \<Rightarrow> proof_scope \<Rightarrow> proof_scope" where
  "scope_join L0Only L0Only = L0Only"
| "scope_join _ _ = RuntimeDependent"

definition scope_joined :: "proof_scope list \<Rightarrow> proof_scope" where
  "scope_joined ss = fold (\<lambda>s acc. scope_join acc s) ss L0Only"

datatype remedy_layer = Application | Runtime

fun remedy_join :: "remedy_layer \<Rightarrow> remedy_layer \<Rightarrow> remedy_layer" where
  "remedy_join Runtime Runtime = Runtime"
| "remedy_join _ _ = Application"

fun remedy_joined :: "remedy_layer list \<Rightarrow> remedy_layer option" where
  "remedy_joined [] = None"
| "remedy_joined (l # ls) = Some (fold (\<lambda>x acc. remedy_join acc x) ls l)"

lemma fold_scope_join: "fold (\<lambda>s acc. scope_join acc s) ss a = L0Only \<longleftrightarrow> a = L0Only \<and> set ss \<subseteq> {L0Only}"
proof (induction ss arbitrary: a)
  case (Cons s ss)
  then show ?case by (cases a; cases s) auto
qed simp

lemma scope_joined_L0: "scope_joined ss = L0Only \<longleftrightarrow> set ss \<subseteq> {L0Only}"
  by (simp add: scope_joined_def fold_scope_join)

lemma fold_remedy_join:
  "fold (\<lambda>x acc. remedy_join acc x) ls a = Runtime \<longleftrightarrow> a = Runtime \<and> set ls \<subseteq> {Runtime}"
proof (induction ls arbitrary: a)
  case (Cons l ls)
  then show ?case by (cases a; cases l) auto
qed simp

lemma remedy_joined_Runtime: "remedy_joined ls = Some Runtime \<longleftrightarrow> ls \<noteq> [] \<and> set ls \<subseteq> {Runtime}"
  by (cases ls) (auto simp: fold_remedy_join)

section \<open>Obstacles\<close>

fun dedupe_from :: "('t \<Rightarrow> 'k) \<Rightarrow> 'k list \<Rightarrow> 't list \<Rightarrow> 't list" where
  "dedupe_from site sites [] = []"
| "dedupe_from site sites (x # xs) =
     (if site x \<in> set sites then dedupe_from site sites xs
      else x # dedupe_from site (sites @ [site x]) xs)"

definition dedupe :: "('t \<Rightarrow> 'k) \<Rightarrow> 't list \<Rightarrow> 't list" where
  "dedupe site xs = dedupe_from site [] xs"

lemma dedupe_from_sites:
  "site ` set (dedupe_from site ks xs) = site ` set xs - set ks"
  by (induction xs arbitrary: ks) auto

lemma dedupe_from_distinct: "distinct (map site (dedupe_from site ks xs))"
proof (induction xs arbitrary: ks)
  case (Cons x xs)
  have "site x \<notin> site ` set (dedupe_from site (ks @ [site x]) xs)"
    by (simp add: dedupe_from_sites)
  then show ?case using Cons by simp
qed simp

lemma dedupe_from_subset: "set (dedupe_from site ks xs) \<subseteq> set xs"
proof (induction xs arbitrary: ks)
  case (Cons x xs)
  show ?case using Cons [of ks] Cons [of "ks @ [site x]"] by (simp split: if_splits) blast
qed simp

lemma dedupe_sites: "site ` set (dedupe site xs) = site ` set xs"
  by (simp add: dedupe_def dedupe_from_sites)

lemma dedupe_Nil_iff: "dedupe site xs = [] \<longleftrightarrow> xs = []"
  using dedupe_sites [of site xs] by auto

fun decision_site :: "decision_taken \<Rightarrow> decision_taken" where
  "decision_site (DtMatch loc r a) = DtMatch loc r ArmResOk"
| "decision_site (DtBranch loc a) = DtBranch loc ArmThen"
| "decision_site (DtTransaction loc t out) = DtTransaction loc t ToCommitted"

section \<open>The assumption loop\<close>

text \<open>\<open>fixpoint\<close>: run under what is assumed, until what is proven is what was assumed.\<close>

partial_function (option) settle :: "('a set \<Rightarrow> 'c) \<Rightarrow> ('c \<Rightarrow> 'a set) \<Rightarrow> 'a set \<Rightarrow> 'c option" where
  "settle run proven assumed =
     (let checks = run assumed; held = proven checks
      in if held = assumed then Some checks else settle run proven held)"

lemma settle_stop: "proven (run S) = S \<Longrightarrow> settle run proven S = Some (run S)"
  by (subst settle.simps) simp

lemma settle_again:
  "proven (run S) \<noteq> S \<Longrightarrow> settle run proven S = settle run proven (proven (run S))"
  by (subst settle.simps) (simp add: Let_def)

locale assumption_loop =
  fixes run :: "'a set \<Rightarrow> 'c" and proven :: "'c \<Rightarrow> 'a set" and every :: "'a set"
  assumes every_finite: "finite every"
    and proven_every: "proven (run S) \<subseteq> every"
    and proven_mono: "S \<subseteq> T \<Longrightarrow> proven (run S) \<subseteq> proven (run T)"
begin

lemma ascends:
  assumes "S \<subseteq> proven (run S)" "S \<subseteq> every" "\<And>F. proven (run F) \<subseteq> F \<Longrightarrow> S \<subseteq> F"
  shows "\<exists>T. settle run proven S = Some (run T) \<and> proven (run T) = T
           \<and> (\<forall>F. proven (run F) \<subseteq> F \<longrightarrow> T \<subseteq> F)"
  using assms
proof (induction "card (every - S)" arbitrary: S rule: less_induct)
  case less
  let ?N = "proven (run S)"
  show ?case
  proof (cases "?N = S")
    case True
    show ?thesis
      by (intro exI [of _ S] conjI settle_stop [where run = run and proven = proven and S = S, OF True] True
            allI impI less.prems(3))
  next
    case False
    have sub: "?N \<subseteq> every" by (rule proven_every)
    have "every - ?N \<subset> every - S" using False less.prems(1) sub by blast
    then have less: "card (every - ?N) < card (every - S)"
      by (rule psubset_card_mono [rotated]) (simp add: every_finite)
    have step: "?N \<subseteq> proven (run ?N)" by (rule proven_mono [OF less.prems(1)])
    have least: "?N \<subseteq> F" if "proven (run F) \<subseteq> F" for F
      using proven_mono [OF less.prems(3) [OF that]] that by (rule subset_trans)
    have "\<exists>T. settle run proven ?N = Some (run T) \<and> proven (run T) = T
        \<and> (\<forall>F. proven (run F) \<subseteq> F \<longrightarrow> T \<subseteq> F)"
      by (rule less.hyps [OF less step sub least])
    then show ?thesis
      unfolding settle_again [where run = run and proven = proven and S = S, OF False] .
  qed
qed

lemma descends:
  assumes "proven (run S) \<subseteq> S" "S \<subseteq> every" "\<And>F. F \<subseteq> proven (run F) \<Longrightarrow> F \<subseteq> S"
  shows "\<exists>T. settle run proven S = Some (run T) \<and> proven (run T) = T
           \<and> (\<forall>F. F \<subseteq> proven (run F) \<longrightarrow> F \<subseteq> T)"
  using assms
proof (induction "card S" arbitrary: S rule: less_induct)
  case less
  let ?N = "proven (run S)"
  show ?case
  proof (cases "?N = S")
    case True
    show ?thesis
      by (intro exI [of _ S] conjI settle_stop [where run = run and proven = proven and S = S, OF True] True
            allI impI less.prems(3))
  next
    case False
    have "finite S" using less.prems(2) every_finite by (rule finite_subset)
    then have less: "card ?N < card S"
      using False less.prems(1) by (simp add: psubset_card_mono psubsetI)
    have step: "proven (run ?N) \<subseteq> ?N" by (rule proven_mono [OF less.prems(1)])
    have greatest: "F \<subseteq> ?N" if "F \<subseteq> proven (run F)" for F
      using that proven_mono [OF less.prems(3) [OF that]] by (rule subset_trans)
    have "\<exists>T. settle run proven ?N = Some (run T) \<and> proven (run T) = T
        \<and> (\<forall>F. F \<subseteq> proven (run F) \<longrightarrow> F \<subseteq> T)"
      by (rule less.hyps [OF less step proven_every greatest])
    then show ?thesis
      unfolding settle_again [where run = run and proven = proven and S = S, OF False] .
  qed
qed

text \<open>From nothing assumed the loop ends in the least set closed under the prover.\<close>

lemma settles_least:
  "\<exists>T. settle run proven {} = Some (run T) \<and> proven (run T) = T
     \<and> (\<forall>F. proven (run F) \<subseteq> F \<longrightarrow> T \<subseteq> F)"
  by (rule ascends) auto

text \<open>From everything assumed it ends in the greatest set that proves itself.\<close>

lemma settles_greatest:
  "\<exists>T. settle run proven every = Some (run T) \<and> proven (run T) = T
     \<and> (\<forall>F. F \<subseteq> proven (run F) \<longrightarrow> F \<subseteq> T)"
  by (rule descends) (use proven_every in blast)+

end

end
