(* ===== verification/Replay_Results.thy ===== *)
theory Replay_Results
  imports Replay_Verdicts
begin

text \<open>
  The prover of result replay (\<open>analyzer/verification/result_replay.rs\<close>): for a requirement
  declared replay-consistent, every decision of every returning path replays and every returned
  payload is derived from stable roots, under the requirements of other operations that the loop
  assumes.
\<close>

section \<open>Verdicts\<close>

record retryable_return =
  rtr_path :: path_ref
  rtr_error :: id

record returned_result =
  rd_path :: path_ref
  rd_arm :: result_arm
  rd_decisions :: "decision_replay list"
  rd_derivation :: "stable_root list"

datatype (plugins only: code) result_proof =
    RpNoAdmittedInvocations id
  | RpNoReturnedResult id
  | RpClassFixedResult "returned_result list" "retryable_return list"

datatype (plugins only: code) result_obstacle =
    RoGoverningKeyInadmissible governing_key_defect
  | RoPathDecisionUnstable path_ref decision_taken decision_gap
  | RoDerivationUnspecified path_ref id
  | RoDerivationRootUnstable path_ref id "unstable_root list"

datatype (plugins only: code) result_verdict =
    RvProven result_proof proof_scope
  | RvUnproven "result_obstacle list"

record result_check =
  rk_operation :: id
  rk_requirement :: nat
  rk_key :: idempotency_key
  rk_verdict :: result_verdict
  rk_coinductive :: bool

definition result_proof_scope :: "result_proof \<Rightarrow> proof_scope" where
  "result_proof_scope p = L0Only"

definition result_proven :: "result_proof \<Rightarrow> result_verdict" where
  "result_proven p = RvProven p (result_proof_scope p)"

fun result_is_proven :: "result_verdict \<Rightarrow> bool" where
  "result_is_proven (RvProven _ _) = True"
| "result_is_proven (RvUnproven _) = False"

fun result_site :: "result_obstacle \<Rightarrow> result_obstacle" where
  "result_site (RoGoverningKeyInadmissible d) = RoGoverningKeyInadmissible d"
| "result_site (RoPathDecisionUnstable p d g) = RoPathDecisionUnstable [] (decision_site d) g"
| "result_site (RoDerivationUnspecified p r) = RoDerivationUnspecified [] r"
| "result_site (RoDerivationRootUnstable p r us) = RoDerivationRootUnstable [] r us"

section \<open>One requirement\<close>

definition returning_sites :: "operation \<Rightarrow> id \<Rightarrow> (prog_path \<times> result_outcome) list" where
  "returning_sites d i =
     List.map_filter (\<lambda>p. map_option (\<lambda>out. (p, out)) (returns_for i p)) (paths (op_program d))"

definition result_contract :: "operation \<Rightarrow> id \<Rightarrow> result_type option" where
  "result_contract d i =
     (case bm_get (op_inputs d) i of Some (InRequest r) \<Rightarrow> Some (ri_result r) | _ \<Rightarrow> None)"

fun exempt_error :: "result_type option \<Rightarrow> result_outcome \<Rightarrow> id option" where
  "exempt_error (Some contract) (OutErr e d) =
     (case result_error contract e of
        Some c \<Rightarrow> if er_disposition c = EdRetryable then Some e else None
      | None \<Rightarrow> None)"
| "exempt_error _ _ = None"

datatype (plugins only: code) return_judgment =
    JrRetryable retryable_return
  | JrBlocked "result_obstacle list"
  | JrReturned returned_result

definition derivation_judgment ::
    "replay_analysis \<Rightarrow> path_ref \<Rightarrow> path_context \<Rightarrow> derivation \<Rightarrow> result_obstacle list \<times> stable_root list" where
  "derivation_judgment an ref ctx d =
     (case d of
        DUnspecified \<Rightarrow> ([RoDerivationUnspecified ref (ra_input an)], [])
      | Deterministic from \<Rightarrow>
          (case roots_stability an ctx from of (sts, uns) \<Rightarrow>
             (if uns = [] then [] else [RoDerivationRootUnstable ref (ra_input an) uns], sts)))"

definition judge_return ::
    "replay_analysis \<Rightarrow> result_type option \<Rightarrow> prog_path \<times> result_outcome \<Rightarrow> return_judgment" where
  "judge_return an contract po =
     (case po of (p, out) \<Rightarrow>
        (case exempt_error contract out of
           Some e \<Rightarrow> JrRetryable \<lparr>rtr_path = path_reference p, rtr_error = e\<rparr>
         | None \<Rightarrow>
             let tr = trace an p;
                 decisions = map (\<lambda>(taken, gap). RoPathDecisionUnstable (path_reference p) taken gap)
                   (unstable_decisions tr)
             in case derivation_judgment an (path_reference p) (pt_end tr) (outcome_values out) of
                  (obs, sts) \<Rightarrow>
                    if decisions @ obs = []
                    then JrReturned \<lparr>rd_path = path_reference p, rd_arm = outcome_arm out,
                           rd_decisions = stable_decisions tr, rd_derivation = sts\<rparr>
                    else JrBlocked (decisions @ obs)))"

fun blocked :: "return_judgment \<Rightarrow> result_obstacle list" where
  "blocked (JrBlocked obs) = obs"
| "blocked _ = []"

definition result_verdict_of :: "return_judgment list \<Rightarrow> result_verdict" where
  "result_verdict_of js =
     (let obs = concat (map blocked js)
      in if obs = []
         then result_proven (RpClassFixedResult
                (List.map_filter (\<lambda>j. case j of JrReturned r \<Rightarrow> Some r | _ \<Rightarrow> None) js)
                (List.map_filter (\<lambda>j. case j of JrRetryable r \<Rightarrow> Some r | _ \<Rightarrow> None) js))
         else RvUnproven (dedupe result_site obs))"

definition result_check_requirement ::
    "model \<Rightarrow> operation \<Rightarrow> idempotency_key \<Rightarrow> (id \<times> id) set \<Rightarrow> result_verdict" where
  "result_check_requirement m d key assumed =
     (case new_analysis m d key assumed of
        Inl defect \<Rightarrow> RvUnproven [RoGoverningKeyInadmissible defect]
      | Inr an \<Rightarrow>
          if admits_no_attempts an then result_proven (RpNoAdmittedInvocations (ra_input an))
          else let sites = returning_sites d (ra_input an)
            in if sites = [] then result_proven (RpNoReturnedResult (ra_input an))
               else result_verdict_of (map (judge_return an (result_contract d (ra_input an))) sites))"

section \<open>Every requirement\<close>

definition result_run :: "model \<Rightarrow> (id \<times> id) set \<Rightarrow> result_check list" where
  "result_run m assumed =
     concat (map (\<lambda>(opn, d). List.map_filter (\<lambda>(k, r).
          if ir_result r \<noteq> RrReplayConsistent then None
          else Some \<lparr>rk_operation = opn, rk_requirement = k, rk_key = ir_key r,
                     rk_verdict = result_check_requirement m d (ir_key r) assumed,
                     rk_coinductive = False\<rparr>)
        (enumerate 0 (oq_idempotency (op_requirements d)))) (md_operations m))"

definition result_pair :: "result_check \<Rightarrow> (id \<times> id) option" where
  "result_pair c = map_option (\<lambda>i. (rk_operation c, i)) (key_input (rk_key c))"

definition consistent_set :: "result_check list \<Rightarrow> (id \<times> id) set" where
  "consistent_set cs =
     set (List.map_filter result_pair (filter (\<lambda>c. result_is_proven (rk_verdict c)) cs))"

definition result_every :: "model \<Rightarrow> (id \<times> id) set" where
  "result_every m =
     set (concat (map (\<lambda>(opn, d). List.map_filter (\<lambda>r.
          if ir_result r = RrReplayConsistent then map_option (\<lambda>i. (opn, i)) (key_input (ir_key r)) else None)
        (oq_idempotency (op_requirements d))) (md_operations m)))"

definition result_fixpoint :: "model \<Rightarrow> (id \<times> id) set \<Rightarrow> result_check list option" where
  "result_fixpoint m assumed = settle (result_run m) consistent_set assumed"

definition mark_coinductive :: "(id \<times> id) set \<Rightarrow> result_check \<Rightarrow> result_check" where
  "mark_coinductive least c =
     (if result_is_proven (rk_verdict c)
        \<and> (case result_pair c of None \<Rightarrow> False | Some p \<Rightarrow> p \<notin> least)
      then c\<lparr>rk_coinductive := True\<rparr> else c)"

definition result_check_all :: "model \<Rightarrow> result_check list option" where
  "result_check_all m =
     Option.bind (result_fixpoint m {}) (\<lambda>least.
     map_option (map (mark_coinductive (consistent_set least))) (result_fixpoint m (result_every m)))"

end
