(* ===== verification/Replay_Recoverability.thy ===== *)
theory Replay_Recoverability
  imports Replay_Results
begin

text \<open>
  The prover of recoverability (\<open>analyzer/verification/recoverability.rs\<close>): for every admitted path
  of the triggering input, every transaction a resumption re-encounters resolves, and every artifact
  a later step consumes is replay-available; guaranteed completion needs a modeled retry driver.
\<close>

section \<open>Verdicts\<close>

datatype (plugins only: code) resolution =
    RsKeyedCommit "stable_root list"
  | RsNaturalReplay "stable_root list"
  | RsTerminalStep

record transaction_resolution =
  trs_transaction :: id
  trs_resolution :: resolution

record artifact_availability =
  av_artifact :: id
  av_replay :: artifact_replay

record path_resumption =
  pr_path :: path_ref
  pr_transactions :: "transaction_resolution list"
  pr_artifacts :: "artifact_availability list"
  pr_abandons :: bool

datatype retry_driver =
    DrAtLeastOnceDelivery id id
  | DrIntrinsicOutboxRedrive id id
  | DrInboundRepeatableRequest id id
  | DrInboundRepeatableTransitionEffect id id id

datatype (plugins only: code) recoverability_proof =
    CpNoAdmittedInvocations id
  | CpResumable "path_resumption list"
  | CpGuaranteed retry_driver "path_resumption list"

datatype (plugins only: code) recoverability_obstacle =
    CoGoverningKeyInadmissible governing_key_defect
  | CoNoAdmittedPath id
  | CoPathNotTerminated path_ref
  | CoEveryPathAbandons id
  | CoTransactionNotResolvable path_ref id "replay_gap list" "replay_gap list"
  | CoArtifactNotEstablished path_ref id id
  | CoArtifactNotReplayAvailable path_ref id id "replay_gap list" "replay_gap list"
  | CoNoModeledRetryDriver id "delivery_semantics option"

datatype (plugins only: code) recoverability_verdict =
    CvProven recoverability_proof proof_scope
  | CvUnproven "recoverability_obstacle list"

datatype recoverability_note = RnRetrySafetyUndeclared id

record recoverability_check =
  rc_operation :: id
  rc_requirement :: nat
  rc_key :: idempotency_key
  rc_completion :: completion_requirement
  rc_verdict :: recoverability_verdict
  rc_notes :: "recoverability_note list"

fun driver_scope :: "retry_driver \<Rightarrow> proof_scope" where
  "driver_scope (DrAtLeastOnceDelivery _ _) = RuntimeDependent"
| "driver_scope (DrIntrinsicOutboxRedrive _ _) = L0Only"
| "driver_scope (DrInboundRepeatableRequest _ _) = L0Only"
| "driver_scope (DrInboundRepeatableTransitionEffect _ _ _) = L0Only"

fun recoverability_scope :: "recoverability_proof \<Rightarrow> proof_scope" where
  "recoverability_scope (CpNoAdmittedInvocations _) = L0Only"
| "recoverability_scope (CpResumable _) = L0Only"
| "recoverability_scope (CpGuaranteed d _) = driver_scope d"

definition recoverability_proven :: "recoverability_proof \<Rightarrow> recoverability_verdict" where
  "recoverability_proven p = CvProven p (recoverability_scope p)"

fun recoverability_site :: "recoverability_obstacle \<Rightarrow> recoverability_obstacle" where
  "recoverability_site (CoTransactionNotResolvable p t rg ng) = CoTransactionNotResolvable [] t rg ng"
| "recoverability_site (CoArtifactNotEstablished p x c) = CoArtifactNotEstablished [] x c"
| "recoverability_site (CoArtifactNotReplayAvailable p x t rg ng) = CoArtifactNotReplayAvailable [] x t rg ng"
| "recoverability_site ob = ob"

section \<open>One path\<close>

record path_findings =
  pf_transactions :: "transaction_resolution list"
  pf_artifacts :: "artifact_availability list"
  pf_reported :: "id set"
  pf_obstacles :: "recoverability_obstacle list"

definition findings_start :: path_findings where
  "findings_start = \<lparr>pf_transactions = [], pf_artifacts = [], pf_reported = {}, pf_obstacles = []\<rparr>"

definition add_obstacle :: "recoverability_obstacle \<Rightarrow> path_findings \<Rightarrow> path_findings" where
  "add_obstacle ob f = f\<lparr>pf_obstacles := pf_obstacles f @ [ob]\<rparr>"

text \<open>Each artifact is judged once per path, at its first consumer.\<close>

definition require_artifact ::
    "path_ref \<Rightarrow> id \<Rightarrow> path_context \<Rightarrow> id \<Rightarrow> path_findings \<Rightarrow> path_findings" where
  "require_artifact ref consumer ctx x f =
     (if x \<in> pf_reported f then f
      else let g = f\<lparr>pf_reported := insert x (pf_reported f)\<rparr>
        in case bm_get (px_artifacts ctx) x of
             None \<Rightarrow> add_obstacle (CoArtifactNotEstablished ref x consumer) g
           | Some (ArUnavailable t rg ng) \<Rightarrow> add_obstacle (CoArtifactNotReplayAvailable ref x t rg ng) g
           | Some r \<Rightarrow> g\<lparr>pf_artifacts := pf_artifacts g @ [\<lparr>av_artifact = x, av_replay = r\<rparr>]\<rparr>)"

definition output_root :: "value_ref \<Rightarrow> id option" where
  "output_root r = (case vr_source r of VsTransactionOutput x \<Rightarrow> Some x | _ \<Rightarrow> None)"

definition output_roots :: "value_ref list \<Rightarrow> id list" where
  "output_roots rs = List.map_filter output_root rs"

text \<open>
  The artifacts the steps of a transaction consume from before it: what an earlier step of the same
  transaction establishes is exempt.
\<close>

fun foreign_outputs :: "id set \<Rightarrow> tx_step list \<Rightarrow> id list" where
  "foreign_outputs here [] = []"
| "foreign_outputs here (s # ss) =
     filter (\<lambda>x. x \<notin> here) (output_roots (step_roots s))
     @ foreign_outputs (case s of TsEstablishTransactionOutput e \<Rightarrow> insert (eo_bind e) here | _ \<Rightarrow> here) ss"

definition resolve :: "path_ref \<Rightarrow> bool \<Rightarrow> id \<Rightarrow> route \<Rightarrow> route \<Rightarrow> path_findings \<Rightarrow> path_findings" where
  "resolve ref re_encountered t recovery natural f =
     (let note = (\<lambda>r. f\<lparr>pf_transactions := pf_transactions f
            @ [\<lparr>trs_transaction = t, trs_resolution = r\<rparr>]\<rparr>)
      in if re_encountered
         then (case recovery of
                 Inr key \<Rightarrow> note (RsKeyedCommit key)
               | Inl rg \<Rightarrow>
                   (case natural of
                      Inr body \<Rightarrow> note (RsNaturalReplay body)
                    | Inl ng \<Rightarrow> add_obstacle (CoTransactionNotResolvable ref t rg ng) f))
         else note RsTerminalStep)"

definition consumed_by_site :: "effect_site \<Rightarrow> id list" where
  "consumed_by_site s =
     (case s of
        EsDirect e d \<Rightarrow> output_roots (derivation_roots d)
      | EsIntent i e \<Rightarrow> [i]
      | EsOutboxWrite e d t \<Rightarrow> output_roots (derivation_roots d))"

fun site_consumer :: "effect_site \<Rightarrow> id" where
  "site_consumer (EsDirect e d) = e"
| "site_consumer (EsIntent i e) = i"
| "site_consumer (EsOutboxWrite e d t) = e"

text \<open>\<open>position < last || !completes\<close> is the argument \<open>re_encountered\<close>.\<close>

definition recover_step :: "path_ref \<Rightarrow> bool \<Rightarrow> traced_step \<Rightarrow> path_findings \<Rightarrow> path_findings" where
  "recover_step ref re_encountered s f =
     (case s of
        TrTransaction loc t before recovery natural \<Rightarrow>
          resolve ref re_encountered (tx_id t) recovery natural
            (fold (require_artifact ref (tx_id t) before) (foreign_outputs {} (tx_steps t)) f)
      | TrEffect loc site contract before inst res \<Rightarrow>
          fold (require_artifact ref (site_consumer site) before) (consumed_by_site site) f
      | TrDecision loc taken judged \<Rightarrow> f)"

fun recover_steps :: "path_ref \<Rightarrow> bool \<Rightarrow> traced_step list \<Rightarrow> path_findings \<Rightarrow> path_findings" where
  "recover_steps ref completes [] f = f"
| "recover_steps ref completes (s # ss) f =
     recover_steps ref completes ss (recover_step ref (ss \<noteq> [] \<or> \<not> completes) s f)"

definition recover_terminal :: "path_ref \<Rightarrow> path_context \<Rightarrow> terminal \<Rightarrow> path_findings \<Rightarrow> path_findings" where
  "recover_terminal ref ctx t f =
     (case t of
        TmReturn loc request out \<Rightarrow>
          fold (require_artifact ref request ctx) (output_roots (derivation_roots (outcome_values out))) f
      | TmNone \<Rightarrow> add_obstacle (CoPathNotTerminated ref) f
      | _ \<Rightarrow> f)"

definition findings_of_path :: "replay_analysis \<Rightarrow> prog_path \<Rightarrow> path_findings" where
  "findings_of_path an p =
     (let ref = path_reference p; tr = trace an p;
          completes = (case pt_terminal tr of TmComplete loc \<Rightarrow> True | _ \<Rightarrow> False)
      in recover_terminal ref (pt_end tr) (pt_terminal tr)
           (recover_steps ref completes (pt_steps tr) findings_start))"

definition recover_path :: "replay_analysis \<Rightarrow> prog_path \<Rightarrow> recoverability_obstacle list + path_resumption" where
  "recover_path an p =
     (let f = findings_of_path an p
      in if pf_obstacles f = []
         then Inr \<lparr>pr_path = path_reference p, pr_transactions = pf_transactions f,
                pr_artifacts = pf_artifacts f, pr_abandons = abandons p\<rparr>
         else Inl (pf_obstacles f))"

section \<open>The retry driver\<close>

definition targets_input :: "id \<Rightarrow> id \<Rightarrow> request_effect \<Rightarrow> bool" where
  "targets_input opn i q \<longleftrightarrow>
     rq_operation (re_target q) = opn \<and> rq_input (re_target q) = i \<and> re_retry q = RetryMayRepeat"

definition repeatable_request :: "model \<Rightarrow> id \<Rightarrow> id \<Rightarrow> retry_driver option" where
  "repeatable_request m opn i =
     find_map (\<lambda>(caller, d). find_map (\<lambda>(e, f). case f of
          EfRequest q \<Rightarrow> if targets_input opn i q then Some (DrInboundRepeatableRequest caller e) else None
        | _ \<Rightarrow> None) (effect_declarations (op_program d))) (md_operations m)"

definition repeatable_side_effect :: "model \<Rightarrow> id \<Rightarrow> id \<Rightarrow> retry_driver option" where
  "repeatable_side_effect m opn i =
     find_map (\<lambda>(mc, sm). find_map (\<lambda>(tn, t). find_map (\<lambda>(e, f). case f of
          TseRequest q \<Rightarrow>
            if targets_input opn i q then Some (DrInboundRepeatableTransitionEffect mc tn e) else None
        | _ \<Rightarrow> None) (tn_side_effects t)) (sm_transitions sm)) (md_state_machines m)"

definition find_driver :: "model \<Rightarrow> id \<Rightarrow> operation \<Rightarrow> id \<Rightarrow> delivery_semantics option + retry_driver" where
  "find_driver m opn d i =
     (case bm_get (op_inputs d) i of
        Some (InSubscription s) \<Rightarrow>
          if delivery m opn i = DlAtLeastOnce then Inr (DrAtLeastOnceDelivery i (si_topic s))
          else Inl (Some (delivery m opn i))
      | Some (InOutbox b) \<Rightarrow> Inr (DrIntrinsicOutboxRedrive i (oi_outbox b))
      | Some (InRequest r) \<Rightarrow>
          (case repeatable_request m opn i of
             Some dr \<Rightarrow> Inr dr
           | None \<Rightarrow> (case repeatable_side_effect m opn i of Some dr \<Rightarrow> Inr dr | None \<Rightarrow> Inl None))
      | None \<Rightarrow> Inl None)"

section \<open>One requirement\<close>

definition admitted_paths :: "operation \<Rightarrow> id \<Rightarrow> prog_path list" where
  "admitted_paths d i = filter (admitted_for d i) (paths (op_program d))"

definition admission_obstacles :: "id \<Rightarrow> prog_path list \<Rightarrow> recoverability_obstacle list" where
  "admission_obstacles i ps =
     (if ps = [] then [CoNoAdmittedPath i]
      else if list_all abandons ps then [CoEveryPathAbandons i] else [])"

definition path_obstacles :: "(recoverability_obstacle list + path_resumption) list \<Rightarrow> recoverability_obstacle list" where
  "path_obstacles js = concat (map (\<lambda>j. case j of Inl obs \<Rightarrow> obs | Inr r \<Rightarrow> []) js)"

definition resumptions :: "(recoverability_obstacle list + path_resumption) list \<Rightarrow> path_resumption list" where
  "resumptions js = List.map_filter (\<lambda>j. case j of Inl obs \<Rightarrow> None | Inr r \<Rightarrow> Some r) js"

fun driver_judgment ::
    "model \<Rightarrow> id \<Rightarrow> operation \<Rightarrow> id \<Rightarrow> completion_requirement \<Rightarrow> recoverability_obstacle list \<times> retry_driver option"
where
  "driver_judgment m opn d i CrResumable = ([], None)"
| "driver_judgment m opn d i CrGuaranteed =
     (case find_driver m opn d i of
        Inr dr \<Rightarrow> ([], Some dr)
      | Inl dl \<Rightarrow> ([CoNoModeledRetryDriver i dl], None))"

definition recoverability_check_requirement ::
    "model \<Rightarrow> id \<Rightarrow> operation \<Rightarrow> idempotency_key \<Rightarrow> completion_requirement \<Rightarrow> (id \<times> id) set
       \<Rightarrow> recoverability_verdict \<times> recoverability_note list" where
  "recoverability_check_requirement m opn d key completion consistent =
     (case new_analysis m d key consistent of
        Inl defect \<Rightarrow> (CvUnproven [CoGoverningKeyInadmissible defect], [])
      | Inr an \<Rightarrow>
          if admits_no_attempts an then (recoverability_proven (CpNoAdmittedInvocations (ra_input an)), [])
          else let i = ra_input an; ps = admitted_paths d i; js = map (recover_path an) ps
            in case driver_judgment m opn d i completion of
                 (driver_obstacles, driver) \<Rightarrow>
                   let obs = admission_obstacles i ps @ path_obstacles js @ driver_obstacles
                   in if obs \<noteq> [] then (CvUnproven (dedupe recoverability_site obs), [])
                      else (recoverability_proven
                              (case driver of
                                 None \<Rightarrow> CpResumable (resumptions js)
                               | Some dr \<Rightarrow> CpGuaranteed dr (resumptions js)),
                            if driver \<noteq> None \<and> \<not> collapses_duplicates d i
                            then [RnRetrySafetyUndeclared i] else []))"

definition recoverability_check_all :: "model \<Rightarrow> (id \<times> id) set \<Rightarrow> recoverability_check list" where
  "recoverability_check_all m consistent =
     concat (map (\<lambda>(opn, d). map (\<lambda>(k, r).
          case recoverability_check_requirement m opn d (rr_key r) (rr_completion r) consistent of
            (verdict, ns) \<Rightarrow>
              \<lparr>rc_operation = opn, rc_requirement = k, rc_key = rr_key r,
               rc_completion = rr_completion r, rc_verdict = verdict, rc_notes = ns\<rparr>)
        (enumerate 0 (oq_recoverability (op_requirements d)))) (md_operations m))"

end
