(* ===== verification/Replay_Idempotency.thy ===== *)
theory Replay_Idempotency
  imports Replay_Recoverability
begin

text \<open>
  The prover of idempotency (\<open>analyzer/verification/idempotency.rs\<close>): every admitted path is
  retry-safe in its state, effect and control legs, under the requirements of the targets and
  consumers that the loop assumes; the lineage of message identities, and the propagation of proof
  scopes.
\<close>

section \<open>Verdicts\<close>

datatype lineage_source = LsTopic id | LsOutbox id

datatype producer_ref = PrOperation id id | PrTransition id id id

datatype (plugins only: code) lineage_fact = LfPropagated idempotency_key "nat option" | LfUndeclared

record identity_lineage =
  il_source :: lineage_source
  il_schema :: id
  il_producer :: producer_ref
  il_fact :: lineage_fact

datatype consumer_collapse = CcProvenRequirement id id | CcSingleDelivery id id

datatype (plugins only: code) effect_safety =
    EsafeExternallyIdempotent "stable_root list"
  | EsafeExternallySideEffectFree
  | EsafeSameLogicalMessage id id instance_stability "consumer_collapse list"
  | EsafeDeduplicatedByTarget id id instance_stability
  | EsafeTransactionDeduplicated id "stable_root list"
  | EsafeSameLogicalOutboxMessage id id instance_stability "consumer_collapse list"

datatype (plugins only: code) retry_route = RtKeyedCommit "stable_root list" | RtNaturalReplay "stable_root list"

record transaction_retry_safety =
  trt_transaction :: id
  trt_route :: retry_route

record effect_retry_safety =
  ers_effect :: id
  ers_safety :: effect_safety

record path_retry_safety =
  ps_path :: path_ref
  ps_decisions :: "decision_replay list"
  ps_transactions :: "transaction_retry_safety list"
  ps_effects :: "effect_retry_safety list"

datatype (plugins only: code) idempotency_proof =
    IpNoAdmittedInvocations id
  | IpNoAdmittedPaths id
  | IpSingleDelivery id id
  | IpRetrySafePaths "path_retry_safety list"

datatype (plugins only: code) idempotency_obstacle =
    IoGoverningKeyInadmissible governing_key_defect
  | IoPathDecisionUnstable path_ref decision_taken decision_gap
  | IoTransactionNotRetrySafe path_ref id "replay_gap list" "replay_gap list"
  | IoExternalApplicationsDistinguishable path_ref id
  | IoExternalIdempotencyUnknown path_ref id
  | IoExternalIdentityKeyUnstable path_ref id "unstable_root list"
  | IoPublicationNotIdentified path_ref id id id
  | IoPublicationConsumerNotKeyed path_ref id id id id id
  | IoPublicationConsumerRequirementUnproven path_ref id id id id id
  | IoOutboxWriteNotIdentified path_ref id id id id
  | IoOutboxConsumerNotKeyed path_ref id id id id id
  | IoOutboxConsumerRequirementUnproven path_ref id id id id id
  | IoEffectInstanceUnspecified path_ref id
  | IoEffectInstanceRootUnstable path_ref id "unstable_root list"
  | IoIntentNotEstablished path_ref id
  | IoIntentNotReplayAvailable path_ref id id "replay_gap list" "replay_gap list"
  | IoRequestSchemaMismatch path_ref id id id
  | IoRequestTargetHasNoKeyedRequirement path_ref id id id
  | IoRequestTargetRequirementUnproven path_ref id id id

datatype (plugins only: code) idempotency_verdict =
    IvProven idempotency_proof proof_scope
  | IvUnproven "idempotency_obstacle list"

record idempotency_check =
  ic_operation :: id
  ic_requirement :: nat
  ic_key :: idempotency_key
  ic_verdict :: idempotency_verdict
  ic_coinductive :: bool
  ic_lineage :: "identity_lineage list"

fun collapse_scope :: "consumer_collapse \<Rightarrow> proof_scope" where
  "collapse_scope (CcSingleDelivery _ _) = RuntimeDependent"
| "collapse_scope (CcProvenRequirement _ _) = L0Only"

fun safety_scope :: "effect_safety \<Rightarrow> proof_scope" where
  "safety_scope (EsafeSameLogicalMessage t s i cs) = scope_joined (map collapse_scope cs)"
| "safety_scope (EsafeSameLogicalOutboxMessage t s i cs) = scope_joined (map collapse_scope cs)"
| "safety_scope _ = L0Only"

fun collapse_dependency :: "consumer_collapse \<Rightarrow> (id \<times> id) option" where
  "collapse_dependency (CcProvenRequirement opn i) = Some (opn, i)"
| "collapse_dependency (CcSingleDelivery _ _) = None"

fun safety_dependencies :: "effect_safety \<Rightarrow> (id \<times> id) list" where
  "safety_dependencies (EsafeDeduplicatedByTarget opn i inst) = [(opn, i)]"
| "safety_dependencies (EsafeSameLogicalMessage t s i cs) = List.map_filter collapse_dependency cs"
| "safety_dependencies (EsafeSameLogicalOutboxMessage t s i cs) = List.map_filter collapse_dependency cs"
| "safety_dependencies _ = []"

fun idempotency_scope :: "idempotency_proof \<Rightarrow> proof_scope" where
  "idempotency_scope (IpNoAdmittedInvocations _) = L0Only"
| "idempotency_scope (IpNoAdmittedPaths _) = L0Only"
| "idempotency_scope (IpSingleDelivery _ _) = RuntimeDependent"
| "idempotency_scope (IpRetrySafePaths ps) =
     scope_joined (map (\<lambda>e. safety_scope (ers_safety e)) (concat (map ps_effects ps)))"

fun proof_dependencies :: "idempotency_proof \<Rightarrow> (id \<times> id) list" where
  "proof_dependencies (IpRetrySafePaths ps) =
     concat (map (\<lambda>e. safety_dependencies (ers_safety e)) (concat (map ps_effects ps)))"
| "proof_dependencies _ = []"

definition idempotency_proven :: "idempotency_proof \<Rightarrow> idempotency_verdict" where
  "idempotency_proven p = IvProven p (idempotency_scope p)"

fun idempotency_is_proven :: "idempotency_verdict \<Rightarrow> bool" where
  "idempotency_is_proven (IvProven _ _) = True"
| "idempotency_is_proven (IvUnproven _) = False"

fun idempotency_site :: "idempotency_obstacle \<Rightarrow> idempotency_obstacle" where
  "idempotency_site (IoGoverningKeyInadmissible d) = IoGoverningKeyInadmissible d"
| "idempotency_site (IoPathDecisionUnstable p d g) = IoPathDecisionUnstable [] (decision_site d) g"
| "idempotency_site (IoTransactionNotRetrySafe p t rg ng) = IoTransactionNotRetrySafe [] t rg ng"
| "idempotency_site (IoExternalApplicationsDistinguishable p e) = IoExternalApplicationsDistinguishable [] e"
| "idempotency_site (IoExternalIdempotencyUnknown p e) = IoExternalIdempotencyUnknown [] e"
| "idempotency_site (IoExternalIdentityKeyUnstable p e us) = IoExternalIdentityKeyUnstable [] e us"
| "idempotency_site (IoPublicationNotIdentified p e t s) = IoPublicationNotIdentified [] e t s"
| "idempotency_site (IoPublicationConsumerNotKeyed p e t s opn i) = IoPublicationConsumerNotKeyed [] e t s opn i"
| "idempotency_site (IoPublicationConsumerRequirementUnproven p e t s opn i) =
     IoPublicationConsumerRequirementUnproven [] e t s opn i"
| "idempotency_site (IoOutboxWriteNotIdentified p e t ox s) = IoOutboxWriteNotIdentified [] e t ox s"
| "idempotency_site (IoOutboxConsumerNotKeyed p e ox s opn i) = IoOutboxConsumerNotKeyed [] e ox s opn i"
| "idempotency_site (IoOutboxConsumerRequirementUnproven p e ox s opn i) =
     IoOutboxConsumerRequirementUnproven [] e ox s opn i"
| "idempotency_site (IoEffectInstanceUnspecified p e) = IoEffectInstanceUnspecified [] e"
| "idempotency_site (IoEffectInstanceRootUnstable p e us) = IoEffectInstanceRootUnstable [] e us"
| "idempotency_site (IoIntentNotEstablished p i) = IoIntentNotEstablished [] i"
| "idempotency_site (IoIntentNotReplayAvailable p i t rg ng) = IoIntentNotReplayAvailable [] i t rg ng"
| "idempotency_site (IoRequestSchemaMismatch p e x a) = IoRequestSchemaMismatch [] e x a"
| "idempotency_site (IoRequestTargetHasNoKeyedRequirement p e opn i) =
     IoRequestTargetHasNoKeyedRequirement [] e opn i"
| "idempotency_site (IoRequestTargetRequirementUnproven p e opn i) =
     IoRequestTargetRequirementUnproven [] e opn i"

section \<open>Effects\<close>

record prover_scope =
  sp_model :: model
  sp_graph :: trigger_graph
  sp_proven :: "(id \<times> id) set"
  sp_consistent :: "(id \<times> id) set"

definition maps_schema :: "message_identity option \<Rightarrow> id \<Rightarrow> bool" where
  "maps_schema identity s \<longleftrightarrow>
     (case identity of Some (MiKeyed mapping) \<Rightarrow> bm_get mapping s \<noteq> None | _ \<Rightarrow> False)"

fun instance_obstacle :: "path_ref \<Rightarrow> effect_site \<Rightarrow> instance_gap \<Rightarrow> idempotency_obstacle" where
  "instance_obstacle ref site IgDerivationUnspecified = IoEffectInstanceUnspecified ref (site_effect site)"
| "instance_obstacle ref site (IgRootsUnstable us) = IoEffectInstanceRootUnstable ref (site_effect site) us"
| "instance_obstacle ref site (IgIntentNotEstablished i) = IoIntentNotEstablished ref i"
| "instance_obstacle ref site (IgIntentNotReplayAvailable i t rg ng) = IoIntentNotReplayAvailable ref i t rg ng"

text \<open>One consumer either collapses duplicates, or is the obstacle.\<close>

definition collapsing_target :: "model \<Rightarrow> id \<Rightarrow> id \<Rightarrow> bool" where
  "collapsing_target m opn i \<longleftrightarrow>
     (case bm_get (md_operations m) opn of None \<Rightarrow> False | Some d \<Rightarrow> collapses_duplicates d i)"

definition outbox_collapse ::
    "prover_scope \<Rightarrow> path_ref \<Rightarrow> id \<Rightarrow> outbox_write_effect \<Rightarrow> outbox_consumer
       \<Rightarrow> idempotency_obstacle + consumer_collapse" where
  "outbox_collapse sc ref e w c =
     (let opn = oc_operation c; i = oc_input c
      in if \<not> collapsing_target (sp_model sc) opn i
         then Inl (IoOutboxConsumerNotKeyed ref e (ow_outbox w) (ow_schema w) opn i)
         else if (opn, i) \<notin> sp_proven sc
         then Inl (IoOutboxConsumerRequirementUnproven ref e (ow_outbox w) (ow_schema w) opn i)
         else Inr (CcProvenRequirement opn i))"

definition publication_collapse ::
    "prover_scope \<Rightarrow> bool \<Rightarrow> path_ref \<Rightarrow> id \<Rightarrow> publication_effect \<Rightarrow> consumer_site
       \<Rightarrow> idempotency_obstacle + consumer_collapse" where
  "publication_collapse sc identified ref e p c =
     (let opn = cs_operation c; i = cs_input c
      in if identified \<and> delivery (sp_model sc) opn i = DlAtMostOnce
         then Inr (CcSingleDelivery opn i)
         else if \<not> collapsing_target (sp_model sc) opn i
         then Inl (IoPublicationConsumerNotKeyed ref e (pe_topic p) (pe_schema p) opn i)
         else if (opn, i) \<notin> sp_proven sc
         then Inl (IoPublicationConsumerRequirementUnproven ref e (pe_topic p) (pe_schema p) opn i)
         else Inr (CcProvenRequirement opn i))"

fun collapse_all ::
    "('c \<Rightarrow> idempotency_obstacle + consumer_collapse) \<Rightarrow> 'c list
       \<Rightarrow> idempotency_obstacle list \<times> consumer_collapse list" where
  "collapse_all f [] = ([], [])"
| "collapse_all f (c # cs) =
     (case collapse_all f cs of (obs, ok) \<Rightarrow>
        (case f c of Inl ob \<Rightarrow> (ob # obs, ok) | Inr k \<Rightarrow> (obs, k # ok)))"

type_synonym safety_judgment = "idempotency_obstacle list \<times> effect_safety option"

text \<open>A message is safe when it is identified, its instance class-fixed and every consumer collapses.\<close>

definition message_safety ::
    "path_ref \<Rightarrow> effect_site \<Rightarrow> idempotency_obstacle list \<Rightarrow> idempotency_obstacle list \<times> consumer_collapse list
       \<Rightarrow> instance_judgment \<Rightarrow> (instance_stability \<Rightarrow> consumer_collapse list \<Rightarrow> effect_safety)
       \<Rightarrow> safety_judgment" where
  "message_safety ref site unidentified collapse inst safe =
     (case inst of
        Inl gap \<Rightarrow> (unidentified @ fst collapse @ [instance_obstacle ref site gap], None)
      | Inr stability \<Rightarrow>
          (unidentified @ fst collapse,
           if unidentified = [] \<and> fst collapse = [] then Some (safe stability (snd collapse)) else None))"

definition outbox_write_safety ::
    "prover_scope \<Rightarrow> path_ref \<Rightarrow> effect_site \<Rightarrow> outbox_write_effect \<Rightarrow> instance_judgment
       \<Rightarrow> (id, stable_root list) bmap \<Rightarrow> safety_judgment" where
  "outbox_write_safety sc ref site w inst commits =
     (case site of
        EsOutboxWrite e d t \<Rightarrow>
          (case bm_get commits t of
             Some key \<Rightarrow> ([], Some (EsafeTransactionDeduplicated t key))
           | None \<Rightarrow>
               let identified = maps_schema (map_option (\<lambda>(dm, ob). ob_identity ob)
                     (model_outbox (sp_model sc) (ow_outbox w))) (ow_schema w)
               in message_safety ref site
                    (if identified then []
                     else [IoOutboxWriteNotIdentified ref e t (ow_outbox w) (ow_schema w)])
                    (collapse_all (outbox_collapse sc ref e w)
                      (outbox_consumers (sp_model sc) (sp_graph sc) (ow_outbox w) (ow_schema w)))
                    inst (EsafeSameLogicalOutboxMessage (ow_outbox w) (ow_schema w)))
      | _ \<Rightarrow> ([IoOutboxWriteNotIdentified ref (site_effect site) (Id []) (ow_outbox w) (ow_schema w)], None))"

definition external_safety ::
    "replay_analysis \<Rightarrow> path_context \<Rightarrow> path_ref \<Rightarrow> id \<Rightarrow> external_effect \<Rightarrow> safety_judgment" where
  "external_safety an ctx ref e x =
     (case xe_idempotency x of
        XdSideEffectFree \<Rightarrow> ([], Some EsafeExternallySideEffectFree)
      | XdIdenticalPerIdentity \<Rightarrow>
          (case xe_identity x of
             XiUnspecified \<Rightarrow> ([IoExternalIdempotencyUnknown ref e], None)
           | XiKeyed key \<Rightarrow>
               (case roots_stability an ctx key of (sts, uns) \<Rightarrow>
                  if uns = [] then ([], Some (EsafeExternallyIdempotent sts))
                  else ([IoExternalIdentityKeyUnstable ref e uns], None)))
      | XdDistinguishable \<Rightarrow> ([IoExternalApplicationsDistinguishable ref e], None)
      | XdUnspecified \<Rightarrow> ([IoExternalIdempotencyUnknown ref e], None))"

definition publication_safety ::
    "prover_scope \<Rightarrow> path_ref \<Rightarrow> effect_site \<Rightarrow> publication_effect \<Rightarrow> instance_judgment \<Rightarrow> safety_judgment" where
  "publication_safety sc ref site p inst =
     (let e = site_effect site;
          identified = maps_schema (map_option tp_identity (bm_get (md_topics (sp_model sc)) (pe_topic p)))
            (pe_schema p)
      in message_safety ref site
           (if identified then [] else [IoPublicationNotIdentified ref e (pe_topic p) (pe_schema p)])
           (collapse_all (publication_collapse sc identified ref e p)
             (message_consumers (sp_model sc) (sp_graph sc) (pe_topic p) (pe_schema p)))
           inst (EsafeSameLogicalMessage (pe_topic p) (pe_schema p)))"

definition target_obstacle :: "prover_scope \<Rightarrow> path_ref \<Rightarrow> id \<Rightarrow> request_effect \<Rightarrow> idempotency_obstacle option" where
  "target_obstacle sc ref e q =
     (let opn = rq_operation (re_target q); i = rq_input (re_target q)
      in case request_target_input (sp_model sc) q of
           Some (d, declared) \<Rightarrow>
             if ri_schema declared \<noteq> re_schema q
             then Some (IoRequestSchemaMismatch ref e (ri_schema declared) (re_schema q))
             else if \<not> collapses_duplicates d i
             then Some (IoRequestTargetHasNoKeyedRequirement ref e opn i)
             else if (opn, i) \<notin> sp_proven sc
             then Some (IoRequestTargetRequirementUnproven ref e opn i)
             else None
         | None \<Rightarrow> Some (IoRequestTargetHasNoKeyedRequirement ref e opn i))"

definition request_safety ::
    "prover_scope \<Rightarrow> path_ref \<Rightarrow> effect_site \<Rightarrow> request_effect \<Rightarrow> instance_judgment \<Rightarrow> safety_judgment" where
  "request_safety sc ref site q inst =
     (let target = target_obstacle sc ref (site_effect site) q;
          obs = (case target of None \<Rightarrow> [] | Some ob \<Rightarrow> [ob])
      in case inst of
           Inl gap \<Rightarrow> (obs @ [instance_obstacle ref site gap], None)
         | Inr stability \<Rightarrow>
             (obs, if target = None
                   then Some (EsafeDeduplicatedByTarget (rq_operation (re_target q)) (rq_input (re_target q)) stability)
                   else None))"

fun contract_safety ::
    "prover_scope \<Rightarrow> replay_analysis \<Rightarrow> path_context \<Rightarrow> path_ref \<Rightarrow> effect_site \<Rightarrow> effect_contract
       \<Rightarrow> instance_judgment \<Rightarrow> (id, stable_root list) bmap \<Rightarrow> safety_judgment" where
  "contract_safety sc an ctx ref site (EcOutboxWrite w) inst commits = outbox_write_safety sc ref site w inst commits"
| "contract_safety sc an ctx ref site (EcExternal x) inst commits = external_safety an ctx ref (site_effect site) x"
| "contract_safety sc an ctx ref site (EcPublication p) inst commits = publication_safety sc ref site p inst"
| "contract_safety sc an ctx ref site (EcRequest q) inst commits = request_safety sc ref site q inst"

section \<open>One path\<close>

fun is_decision_step :: "path_step \<Rightarrow> bool" where
  "is_decision_step (PsDecision _ _) = True"
| "is_decision_step _ = False"

fun inert_decisions :: "path_step list \<Rightarrow> step_location list" where
  "inert_decisions [] = []"
| "inert_decisions (s # ss) =
     (case s of
        PsDecision loc d \<Rightarrow> if list_all is_decision_step ss then [loc] else []
      | _ \<Rightarrow> []) @ inert_decisions ss"

record safety_findings =
  sf_decisions :: "decision_replay list"
  sf_transactions :: "transaction_retry_safety list"
  sf_effects :: "effect_retry_safety list"
  sf_commits :: "(id, stable_root list) bmap"
  sf_obstacles :: "idempotency_obstacle list"

definition safety_start :: safety_findings where
  "safety_start =
     \<lparr>sf_decisions = [], sf_transactions = [], sf_effects = [], sf_commits = [], sf_obstacles = []\<rparr>"

definition retry_transaction :: "path_ref \<Rightarrow> id \<Rightarrow> route \<Rightarrow> route \<Rightarrow> safety_findings \<Rightarrow> safety_findings" where
  "retry_transaction ref t recovery natural f =
     (let note = (\<lambda>r g. g\<lparr>sf_transactions := sf_transactions g @ [\<lparr>trt_transaction = t, trt_route = r\<rparr>]\<rparr>)
      in case recovery of
           Inr key \<Rightarrow> note (RtKeyedCommit key) (f\<lparr>sf_commits := bm_insert t key (sf_commits f)\<rparr>)
         | Inl rg \<Rightarrow>
             (case natural of
                Inr body \<Rightarrow> note (RtNaturalReplay body) f
              | Inl ng \<Rightarrow> f\<lparr>sf_obstacles := sf_obstacles f @ [IoTransactionNotRetrySafe ref t rg ng]\<rparr>))"

definition retry_effect ::
    "prover_scope \<Rightarrow> replay_analysis \<Rightarrow> path_ref \<Rightarrow> effect_site \<Rightarrow> effect_contract option \<Rightarrow> path_context
       \<Rightarrow> instance_judgment \<Rightarrow> safety_findings \<Rightarrow> safety_findings" where
  "retry_effect sc an ref site contract ctx inst f =
     (case contract of
        None \<Rightarrow> f
      | Some c \<Rightarrow>
          (case contract_safety sc an ctx ref site c inst (sf_commits f) of (obs, safety) \<Rightarrow>
             f\<lparr>sf_obstacles := sf_obstacles f @ obs,
               sf_effects := sf_effects f @ (case safety of None \<Rightarrow> []
                 | Some s \<Rightarrow> [\<lparr>ers_effect = site_effect site, ers_safety = s\<rparr>])\<rparr>))"

definition retry_decision ::
    "path_ref \<Rightarrow> step_location list \<Rightarrow> step_location \<Rightarrow> decision_taken \<Rightarrow> decision_gap + decision_rule
       \<Rightarrow> safety_findings \<Rightarrow> safety_findings" where
  "retry_decision ref inert loc taken judged f =
     (let note = (\<lambda>r. f\<lparr>sf_decisions := sf_decisions f @ [(taken, r)]\<rparr>)
      in case judged of
           Inr rule \<Rightarrow> note rule
         | Inl gap \<Rightarrow>
             (case taken of
                DtTransaction l t out \<Rightarrow> note (RlOutcomeDivergenceAddsNoWork t)
              | _ \<Rightarrow>
                  if loc \<in> set inert then note RlIdempotencyInertContinuation
                  else f\<lparr>sf_obstacles := sf_obstacles f @ [IoPathDecisionUnstable ref taken gap]\<rparr>))"

definition retry_step ::
    "prover_scope \<Rightarrow> replay_analysis \<Rightarrow> path_ref \<Rightarrow> step_location list \<Rightarrow> traced_step \<Rightarrow> safety_findings
       \<Rightarrow> safety_findings" where
  "retry_step sc an ref inert s f =
     (case s of
        TrTransaction loc t before recovery natural \<Rightarrow> retry_transaction ref (tx_id t) recovery natural f
      | TrEffect loc site contract before inst res \<Rightarrow> retry_effect sc an ref site contract before inst f
      | TrDecision loc taken judged \<Rightarrow> retry_decision ref inert loc taken judged f)"

definition retry_path :: "prover_scope \<Rightarrow> replay_analysis \<Rightarrow> prog_path \<Rightarrow> idempotency_obstacle list + path_retry_safety" where
  "retry_path sc an p =
     (let ref = path_reference p;
          f = fold (retry_step sc an ref (inert_decisions (pa_steps p))) (pt_steps (trace an p)) safety_start
      in if sf_obstacles f = []
         then Inr \<lparr>ps_path = ref, ps_decisions = sf_decisions f, ps_transactions = sf_transactions f,
                ps_effects = sf_effects f\<rparr>
         else Inl (sf_obstacles f))"

section \<open>One requirement\<close>

definition single_delivery :: "model \<Rightarrow> id \<Rightarrow> operation \<Rightarrow> replay_analysis \<Rightarrow> id option" where
  "single_delivery m opn d an =
     (case bm_get (op_inputs d) (ra_input an) of
        Some (InSubscription s) \<Rightarrow>
          if delivery m opn (ra_input an) = DlAtMostOnce \<and> payload_identified an then Some (si_topic s) else None
      | _ \<Rightarrow> None)"

definition idempotency_verdict_of ::
    "(idempotency_obstacle list + path_retry_safety) list \<Rightarrow> idempotency_verdict" where
  "idempotency_verdict_of js =
     (let obs = concat (map (\<lambda>j. case j of Inl os \<Rightarrow> os | Inr s \<Rightarrow> []) js)
      in if obs = []
         then idempotency_proven
                (IpRetrySafePaths (List.map_filter (\<lambda>j. case j of Inl os \<Rightarrow> None | Inr s \<Rightarrow> Some s) js))
         else IvUnproven (dedupe idempotency_site obs))"

definition idempotency_check_requirement ::
    "prover_scope \<Rightarrow> id \<Rightarrow> operation \<Rightarrow> idempotency_key \<Rightarrow> idempotency_verdict" where
  "idempotency_check_requirement sc opn d key =
     (case new_analysis (sp_model sc) d key (sp_consistent sc) of
        Inl defect \<Rightarrow> IvUnproven [IoGoverningKeyInadmissible defect]
      | Inr an \<Rightarrow>
          let i = ra_input an
          in if admits_no_attempts an then idempotency_proven (IpNoAdmittedInvocations i)
             else case single_delivery (sp_model sc) opn d an of
               Some tp \<Rightarrow> idempotency_proven (IpSingleDelivery i tp)
             | None \<Rightarrow>
                 if admitted_paths d i = [] then idempotency_proven (IpNoAdmittedPaths i)
                 else idempotency_verdict_of (map (retry_path sc an) (admitted_paths d i)))"

section \<open>Lineage\<close>

definition effect_targets :: "id \<Rightarrow> key_propagation \<Rightarrow> field_path list" where
  "effect_targets e pr =
     List.map_filter (\<lambda>c. if vr_source c = VsEffect e then Some (vr_path c) else None)
       (ik_components (kp_target pr))"

definition requirement_keyed :: "model \<Rightarrow> id option \<Rightarrow> idempotency_key \<Rightarrow> nat option" where
  "requirement_keyed m producer key =
     Option.bind producer (\<lambda>opn. Option.bind (bm_get (md_operations m) opn) (\<lambda>d.
       position_of (\<lambda>r. ir_key r = key) (oq_idempotency (op_requirements d))))"

definition propagation_fact ::
    "model \<Rightarrow> id option \<Rightarrow> id \<Rightarrow> key_propagation list \<Rightarrow> field_path list \<Rightarrow> lineage_fact" where
  "propagation_fact m producer e prs identity =
     (case find_map (\<lambda>pr.
          if list_all (\<lambda>f. f \<in> set (effect_targets e pr)) identity
          then Some (LfPropagated (kp_source pr) (requirement_keyed m producer (kp_source pr))) else None) prs of
        Some lf \<Rightarrow> lf | None \<Rightarrow> LfUndeclared)"

definition identified_schemas :: "(id, field_path list) bmap \<Rightarrow> id list \<Rightarrow> (id \<times> field_path list) list" where
  "identified_schemas mapping admitted =
     List.map_filter (\<lambda>s. map_option (\<lambda>f. (s, f)) (bm_get mapping s)) admitted"

fun producer_operation :: "producer_site \<Rightarrow> id option" where
  "producer_operation (PdOperation opn) = Some opn"
| "producer_operation (PdTransition mc tn) = None"

fun producer_reference :: "id \<Rightarrow> producer_site \<Rightarrow> producer_ref" where
  "producer_reference e (PdOperation opn) = PrOperation opn e"
| "producer_reference e (PdTransition mc tn) = PrTransition mc tn e"

definition subscription_lineage :: "model \<Rightarrow> trigger_graph \<Rightarrow> subscription_input \<Rightarrow> identity_lineage list" where
  "subscription_lineage m tg s =
     (case bm_get (md_topics m) (si_topic s) of
        None \<Rightarrow> []
      | Some tp \<Rightarrow>
          (case tp_identity tp of
             MiUnspecified \<Rightarrow> []
           | MiKeyed mapping \<Rightarrow>
               concat (map (\<lambda>(sch, identity). map (\<lambda>p.
                   \<lparr>il_source = LsTopic (si_topic s), il_schema = sch,
                    il_producer = producer_reference (pm_effect p) (pm_site p),
                    il_fact = propagation_fact m (producer_operation (pm_site p)) (pm_effect p)
                      (pe_propagation (pm_publication p)) identity\<rparr>)
                 (message_producers tg (si_topic s) sch))
                 (identified_schemas mapping
                   (case si_messages s of MsAll \<Rightarrow> tp_messages tp | MsOnly ss \<Rightarrow> ss)))))"

fun outbox_producer_operation :: "outbox_producer_site \<Rightarrow> id option" where
  "outbox_producer_operation (OpsOperation opn t) = Some opn"
| "outbox_producer_operation (OpsTransition mc tn) = None"

fun outbox_producer_reference :: "id \<Rightarrow> outbox_producer_site \<Rightarrow> producer_ref" where
  "outbox_producer_reference e (OpsOperation opn t) = PrOperation opn e"
| "outbox_producer_reference e (OpsTransition mc tn) = PrTransition mc tn e"

definition outbox_lineage :: "model \<Rightarrow> trigger_graph \<Rightarrow> outbox_input \<Rightarrow> identity_lineage list" where
  "outbox_lineage m tg b =
     (case model_outbox m (oi_outbox b) of
        None \<Rightarrow> []
      | Some (dm, ob) \<Rightarrow>
          (case ob_identity ob of
             MiUnspecified \<Rightarrow> []
           | MiKeyed mapping \<Rightarrow>
               concat (map (\<lambda>(sch, identity). map (\<lambda>p.
                   \<lparr>il_source = LsOutbox (oi_outbox b), il_schema = sch,
                    il_producer = outbox_producer_reference (obp_effect p) (obp_site p),
                    il_fact = propagation_fact m (outbox_producer_operation (obp_site p)) (obp_effect p)
                      (ow_propagation (obp_write p)) identity\<rparr>)
                 (outbox_producers tg (oi_outbox b) sch))
                 (identified_schemas mapping (ob_messages ob)))))"

definition key_lineage :: "prover_scope \<Rightarrow> operation \<Rightarrow> idempotency_key \<Rightarrow> identity_lineage list" where
  "key_lineage sc d key =
     (case key_input key of
        None \<Rightarrow> []
      | Some i \<Rightarrow>
          (case bm_get (op_inputs d) i of
             Some (InSubscription s) \<Rightarrow> subscription_lineage (sp_model sc) (sp_graph sc) s
           | Some (InOutbox b) \<Rightarrow> outbox_lineage (sp_model sc) (sp_graph sc) b
           | _ \<Rightarrow> []))"

section \<open>Every requirement\<close>

definition idempotency_run :: "model \<Rightarrow> trigger_graph \<Rightarrow> (id \<times> id) set \<Rightarrow> (id \<times> id) set \<Rightarrow> idempotency_check list" where
  "idempotency_run m tg consistent assumed =
     (let sc = \<lparr>sp_model = m, sp_graph = tg, sp_proven = assumed, sp_consistent = consistent\<rparr>
      in concat (map (\<lambda>(opn, d). map (\<lambda>(k, r).
           \<lparr>ic_operation = opn, ic_requirement = k, ic_key = ir_key r,
            ic_verdict = idempotency_check_requirement sc opn d (ir_key r),
            ic_coinductive = False, ic_lineage = key_lineage sc d (ir_key r)\<rparr>)
         (enumerate 0 (oq_idempotency (op_requirements d)))) (md_operations m)))"

definition idempotency_pair :: "idempotency_check \<Rightarrow> (id \<times> id) option" where
  "idempotency_pair c = map_option (\<lambda>i. (ic_operation c, i)) (key_input (ic_key c))"

definition proven_set :: "idempotency_check list \<Rightarrow> (id \<times> id) set" where
  "proven_set cs =
     set (List.map_filter idempotency_pair (filter (\<lambda>c. idempotency_is_proven (ic_verdict c)) cs))"

definition idempotency_every :: "model \<Rightarrow> (id \<times> id) set" where
  "idempotency_every m =
     set (concat (map (\<lambda>(opn, d). List.map_filter (\<lambda>r. map_option (\<lambda>i. (opn, i)) (key_input (ir_key r)))
       (oq_idempotency (op_requirements d))) (md_operations m)))"

definition idempotency_fixpoint ::
    "model \<Rightarrow> trigger_graph \<Rightarrow> (id \<times> id) set \<Rightarrow> (id \<times> id) set \<Rightarrow> idempotency_check list option" where
  "idempotency_fixpoint m tg consistent assumed = settle (idempotency_run m tg consistent) proven_set assumed"

definition mark_idempotency :: "(id \<times> id) set \<Rightarrow> idempotency_check \<Rightarrow> idempotency_check" where
  "mark_idempotency least c =
     (if idempotency_is_proven (ic_verdict c)
        \<and> (case idempotency_pair c of None \<Rightarrow> False | Some p \<Rightarrow> p \<notin> least)
      then c\<lparr>ic_coinductive := True\<rparr> else c)"

section \<open>Scopes\<close>

fun runtime_verdict :: "idempotency_verdict \<Rightarrow> bool" where
  "runtime_verdict (IvProven p RuntimeDependent) = True"
| "runtime_verdict _ = False"

definition runtime_pairs :: "idempotency_check list \<Rightarrow> (id \<times> id) set" where
  "runtime_pairs cs =
     set (List.map_filter idempotency_pair (filter (\<lambda>c. runtime_verdict (ic_verdict c)) cs))"

fun widen_verdict :: "(id \<times> id) set \<Rightarrow> idempotency_verdict \<Rightarrow> idempotency_verdict" where
  "widen_verdict rt (IvProven p L0Only) =
     IvProven p (if list_ex (\<lambda>dp. dp \<in> rt) (proof_dependencies p) then RuntimeDependent else L0Only)"
| "widen_verdict rt v = v"

definition widen :: "(id \<times> id) set \<Rightarrow> idempotency_check \<Rightarrow> idempotency_check" where
  "widen rt c = c\<lparr>ic_verdict := widen_verdict rt (ic_verdict c)\<rparr>"

definition widen_all :: "idempotency_check list \<Rightarrow> idempotency_check list" where
  "widen_all cs = map (widen (runtime_pairs cs)) cs"

definition narrow_count :: "idempotency_check list \<Rightarrow> nat" where
  "narrow_count cs = length (filter (\<lambda>c. \<not> runtime_verdict (ic_verdict c)) cs)"

lemma widen_verdict_runtime: "runtime_verdict v \<Longrightarrow> widen_verdict rt v = v"
  by (cases "(rt, v)" rule: widen_verdict.cases) auto

lemma widen_verdict_changed: "widen_verdict rt v \<noteq> v \<Longrightarrow> \<not> runtime_verdict v \<and> runtime_verdict (widen_verdict rt v)"
  by (cases "(rt, v)" rule: widen_verdict.cases) (auto split: if_splits)

lemma widen_changed:
  "widen rt c \<noteq> c \<Longrightarrow> \<not> runtime_verdict (ic_verdict c) \<and> runtime_verdict (ic_verdict (widen rt c))"
  using widen_verdict_changed [of rt "ic_verdict c"] by (cases c) (auto simp: widen_def)

lemma widen_keeps_runtime: "runtime_verdict (ic_verdict c) \<Longrightarrow> widen rt c = c"
  by (cases c) (simp add: widen_def widen_verdict_runtime)

lemma map_widen_count: "narrow_count (map (widen rt) cs) \<le> narrow_count cs"
proof (induction cs)
  case (Cons c cs)
  then show ?case using widen_keeps_runtime [of c rt] by (auto simp: narrow_count_def)
qed (simp add: narrow_count_def)

lemma map_widen_less: "map (widen rt) cs \<noteq> cs \<Longrightarrow> narrow_count (map (widen rt) cs) < narrow_count cs"
proof (induction cs)
  case (Cons c cs)
  show ?case
  proof (cases "widen rt c = c")
    case True
    then show ?thesis using Cons by (auto simp: narrow_count_def)
  next
    case False
    then show ?thesis
      using widen_changed [OF False] map_widen_count [of rt cs] by (simp add: narrow_count_def)
  qed
qed simp

function propagate_scopes :: "idempotency_check list \<Rightarrow> idempotency_check list" where
  "propagate_scopes cs = (if widen_all cs = cs then cs else propagate_scopes (widen_all cs))"
  by pat_completeness auto
termination
  by (relation "measure narrow_count") (auto simp: widen_all_def map_widen_less)

declare propagate_scopes.simps [simp del]

definition idempotency_check_all :: "model \<Rightarrow> (id \<times> id) set \<Rightarrow> idempotency_check list option" where
  "idempotency_check_all m consistent =
     (let tg = build_triggers m
      in Option.bind (idempotency_fixpoint m tg consistent {}) (\<lambda>least.
         map_option (\<lambda>cs. propagate_scopes (map (mark_idempotency (proven_set least)) cs))
           (idempotency_fixpoint m tg consistent (idempotency_every m))))"

end
