(* ===== verification/Replay_Report.thy ===== *)
theory Replay_Report
  imports Replay_Idempotency Analysis_Ordering
begin

text \<open>
  The verification of a model (\<open>analyzer/verification/mod.rs\<close>): the model notes and the report that
  puts the five provers together. The redundant presence checks of the validator are an argument.
\<close>

section \<open>Notes\<close>

record redundant_presence =
  rpr_operation :: id
  rpr_location :: step_location
  rpr_root :: value_ref

datatype (plugins only: code) model_note =
    MnDuplicateDeliveryUnchecked id id id delivery_semantics
  | MnDuplicateOutboxDeliveryUnchecked id id id
  | MnRedundantPresenceCheck id step_location value_ref
  | MnAbandonWithoutRedelivery id id id

fun note_subject :: "model_note \<Rightarrow> id option" where
  "note_subject (MnDuplicateDeliveryUnchecked opn i t d) = Some i"
| "note_subject (MnDuplicateOutboxDeliveryUnchecked opn i ox) = Some i"
| "note_subject (MnRedundantPresenceCheck opn loc r) = Some opn"
| "note_subject (MnAbandonWithoutRedelivery opn i t) = Some i"

definition program_abandons :: "operation \<Rightarrow> bool" where
  "program_abandons d = list_ex (\<lambda>(loc, s). s = OsAbandon) (steps_with_locations (op_program d))"

fun input_notes :: "model \<Rightarrow> id \<Rightarrow> operation \<Rightarrow> id \<times> op_input \<Rightarrow> model_note list" where
  "input_notes m opn d (i, InSubscription s) =
     (if delivery m opn i = DlAtMostOnce
      then (if program_abandons d then [MnAbandonWithoutRedelivery opn i (si_topic s)] else [])
      else if collapses_duplicates d i then []
      else [MnDuplicateDeliveryUnchecked opn i (si_topic s) (delivery m opn i)])"
| "input_notes m opn d (i, InOutbox b) =
     (if collapses_duplicates d i then [] else [MnDuplicateOutboxDeliveryUnchecked opn i (oi_outbox b)])"
| "input_notes m opn d (i, InRequest r) = []"

definition model_notes :: "redundant_presence list \<Rightarrow> model \<Rightarrow> model_note list" where
  "model_notes redundant m =
     map (\<lambda>r. MnRedundantPresenceCheck (rpr_operation r) (rpr_location r) (rpr_root r)) redundant
     @ concat (map (\<lambda>(opn, d). concat (map (input_notes m opn d) (op_inputs d))) (md_operations m))"

section \<open>The report\<close>

record verification_report =
  vr_serializability :: "serializability_check list"
  vr_ordering :: "ordering_check list"
  vr_idempotency :: "idempotency_check list"
  vr_result_replay :: "result_check list"
  vr_recoverability :: "recoverability_check list"
  vr_notes :: "model_note list"

definition verify :: "redundant_presence list \<Rightarrow> model \<Rightarrow> verification_report option" where
  "verify redundant m =
     Option.bind (result_check_all m) (\<lambda>result_replay.
     map_option (\<lambda>idempotency.
       \<lparr>vr_serializability = check_serializability m,
        vr_ordering = check_ordering m,
        vr_idempotency = idempotency,
        vr_result_replay = result_replay,
        vr_recoverability = recoverability_check_all m (consistent_set result_replay),
        vr_notes = model_notes redundant m\<rparr>)
       (idempotency_check_all m (consistent_set result_replay)))"

fun serializability_is_proven :: "serializability_verdict \<Rightarrow> bool" where
  "serializability_is_proven (SerProven _ _) = True"
| "serializability_is_proven _ = False"

fun ordering_is_proven :: "ordering_verdict \<Rightarrow> bool" where
  "ordering_is_proven (OrdProven _ _) = True"
| "ordering_is_proven _ = False"

fun recoverability_is_proven :: "recoverability_verdict \<Rightarrow> bool" where
  "recoverability_is_proven (CvProven _ _) = True"
| "recoverability_is_proven (CvUnproven _) = False"

definition all_proven :: "verification_report \<Rightarrow> bool" where
  "all_proven r \<longleftrightarrow>
     list_all (\<lambda>c. serializability_is_proven (sk_verdict c)) (vr_serializability r)
     \<and> list_all (\<lambda>c. ordering_is_proven (ok_verdict c)) (vr_ordering r)
     \<and> list_all (\<lambda>c. idempotency_is_proven (ic_verdict c)) (vr_idempotency r)
     \<and> list_all (\<lambda>c. result_is_proven (rk_verdict c)) (vr_result_replay r)
     \<and> list_all (\<lambda>c. recoverability_is_proven (rc_verdict c)) (vr_recoverability r)"

end
