(* ===== verification/Validate_Model.thy ===== *)
theory Validate_Model
  imports Validate_Runtime Replay_Report
begin

text \<open>
  Model validation put together (\<open>validate\<close>, \<open>program_local_diagnostics\<close> and
  \<open>redundant_presence_checks\<close> of \<open>analyzer/validation/mod.rs\<close>). \<open>None\<close> stands for a call that does
  not return.
\<close>

section \<open>Validation\<close>

definition validate_rest :: "model \<Rightarrow> reference_index \<Rightarrow> errors" where
  "validate_rest m ix =
     in_turn
       [Some (validate_data_models m),
        validate_topics m,
        Some (validate_outboxes m),
        Some (validate_request_identity_shape m),
        validate_object_versions m,
        validate_state_machines m,
        Some (validate_transition_effects m ix),
        validate_transactions m ix,
        Some (validate_guarded_mutations m ix),
        validate_managed_fields m ix,
        Some (validate_result_bindings m ix),
        Some (validate_match_arms m ix),
        Some (validate_abandon m),
        Some (validate_programs m),
        validate_field_paths m ix,
        validate_ordering_positions m ix,
        validate_runtime m ix]"

definition validate :: "model \<Rightarrow> errors" where
  "validate m =
     (if validate_global_id_uniqueness m \<noteq> [] then Some (validate_global_id_uniqueness m)
      else let ix = build_reference_index m in
        if validate_references m ix \<noteq> [] then Some (validate_references m ix)
        else if validate_fragment_cycles m \<noteq> [] then Some (validate_fragment_cycles m)
        else validate_rest m ix)"

section \<open>The diagnostics of one program\<close>

fun is_program_owned_kind :: "reference_kind \<Rightarrow> bool" where
  "is_program_owned_kind RkEffectIntent = True"
| "is_program_owned_kind RkEffectResult = True"
| "is_program_owned_kind RkAsyncHandle = True"
| "is_program_owned_kind RkTransactionOutput = True"
| "is_program_owned_kind RkTransaction = True"
| "is_program_owned_kind RkTransactionRead = True"
| "is_program_owned_kind _ = False"

fun local_reference :: "reference_error \<Rightarrow> bool" where
  "local_reference (VeValueSourceOutOfScope s r w) = True"
| "local_reference (VeInvalidReferenceOwner s r w a) = True"
| "local_reference (VeUnknownReference s r k) = is_program_owned_kind k"
| "local_reference (VeInvalidReferenceKind s r k a) = is_program_owned_kind k"
| "local_reference _ = False"

fun local_placement :: "placement_error \<Rightarrow> bool" where
  "local_placement (VeOutboxWriteOutsideTransaction i e) = True"
| "local_placement (VeOutboxWriteCannotBeIntent i e) = True"
| "local_placement (VeExternalIdempotencyRequiresIdentity e) = True"
| "local_placement (VeExternalReplayStabilityRequiresIdentity e) = True"
| "local_placement (VeExternalResultReplayWithoutResult e) = True"
| "local_placement _ = False"

fun local_object :: "object_error \<Rightarrow> bool" where
  "local_object (VeDirectWriteToVersionField t k ob f) = True"
| "local_object (VeCompareAndSetWithoutIdentifiedInstance t k ob) = True"
| "local_object (VeCompareAndSetWithoutComparison t k ob) = True"
| "local_object (VeDuplicateCompareField t k ob f) = True"
| "local_object (VeUpsertWithoutIdentifiedInstance t k ob) = True"
| "local_object (VeUpsertWithoutUpdateFields t k ob) = True"
| "local_object (VeUpsertMutatesIdentity t k ob f) = True"
| "local_object _ = False"

fun local_transaction :: "transaction_error \<Rightarrow> bool" where
  "local_transaction (VeTransactionReadOutsideTransaction s r) = True"
| "local_transaction (VeTransactionReadOutOfOrder t r) = True"
| "local_transaction (VeTransactionReadFieldNotSelected t r f) = True"
| "local_transaction (VeTransactionRequirementKeyUnavailable i loc t fam k v u) = True"
| "local_transaction (VeTransactionOrderingPositionUnavailable i loc t k v u) = True"
| "local_transaction (VeMissingTransactionRejectedArm i loc t k) = True"
| "local_transaction (VeUnexpectedTransactionRejectedArm i loc t) = True"
| "local_transaction _ = False"

fun local_program :: "program_error \<Rightarrow> bool" where
  "local_program (VeMissingResultErrorArm i loc r e) = False"
| "local_program (VeUnexpectedResultErrorArm i loc r e) = False"
| "local_program (VeRaceResultContractMismatch i loc b e f) = False"
| "local_program _ = True"

fun is_program_local_error :: "validation_error \<Rightarrow> bool" where
  "is_program_local_error (OfReference e) = local_reference e"
| "is_program_local_error (OfPlacement e) = local_placement e"
| "is_program_local_error (OfObject e) = local_object e"
| "is_program_local_error (OfTransaction e) = local_transaction e"
| "is_program_local_error (OfProgram e) = local_program e"
| "is_program_local_error (OfMessage e) = False"
| "is_program_local_error (OfRuntime e) = False"

definition program_local_diagnostics :: "model \<Rightarrow> id \<Rightarrow> validation_error list" where
  "program_local_diagnostics m opn =
     (case bm_get (md_operations m) opn of
        None \<Rightarrow> []
      | Some d \<Rightarrow>
          let ix = build_reference_index m
          in filter is_program_local_error
               (validate_program_references m ix opn (op_program d)
                @ program_flow_errors m opn (op_program d)
                @ validate_guarded_mutations m ix))"

section \<open>Redundant presence checks\<close>

definition branch_presence ::
    "model \<Rightarrow> reference_index \<Rightarrow> id \<Rightarrow> scoped_step \<Rightarrow> redundant_presence list option" where
  "branch_presence m ix opn e =
     (case e of
        (loc, OsBranch c b d, sc) \<Rightarrow>
          gather (\<lambda>v. map_option (\<lambda>redundant.
              if redundant then [\<lparr>rpr_operation = opn, rpr_location = loc, rpr_root = v\<rparr>] else [])
            (redundant_root m ix (with_errors sc (operation_context opn)) v)) (presence_roots c)
      | _ \<Rightarrow> Some [])"

definition redundant_presence_checks :: "model \<Rightarrow> redundant_presence list option" where
  "redundant_presence_checks m =
     gather (\<lambda>(opn, d). gather (branch_presence m (build_reference_index m) opn) (walk_scoped (op_program d)))
       (md_operations m)"

text \<open>\<open>verify\<close> with the presence checks the code computes itself.\<close>

definition verify_model :: "model \<Rightarrow> verification_report option" where
  "verify_model m = Option.bind (redundant_presence_checks m) (\<lambda>redundant. verify redundant m)"

end
