(* ===== verification/Validate_Grounded.thy ===== *)
theory Validate_Grounded
  imports Validate_Model
begin

text \<open>
  Fragments and the resolution of paths through them: the cycle pass is exact for chains of sources,
  resolution returns where no canonical schema embeds a fragment, and two models on which validation
  does not return.
\<close>

section \<open>Chains of sources\<close>

definition sourced_from :: "model \<Rightarrow> (id \<times> id) set" where
  "sourced_from m = {(s, t). fragment_source m s = Some t}"

text \<open>Following the sources of a schema ends.\<close>

inductive grounded :: "model \<Rightarrow> id \<Rightarrow> bool" for m where
  base: "fragment_source m s = None \<Longrightarrow> grounded m s"
| step: "fragment_source m s = Some t \<Longrightarrow> grounded m t \<Longrightarrow> grounded m s"

inductive_cases grounded_step: "grounded m s"

lemma follow_clean:
  "follow_fragments m complete path cur = ([], path') \<Longrightarrow> \<forall>c \<in> complete. grounded m c
     \<Longrightarrow> grounded m cur \<and> (\<forall>p \<in> set path'. p \<notin> set path \<longrightarrow> grounded m p)"
proof (induction m complete path cur arbitrary: path' rule: follow_fragments.induct)
  case (1 m complete path cur)
  note unfolded = "1.prems"(1) [unfolded follow_fragments.simps [of m complete path cur]]
  show ?case
  proof (cases "cur \<in> complete")
    case True
    then show ?thesis using unfolded "1.prems"(2) by auto
  next
    case False
    then have free: "position_of ((=) cur) path = None" using unfolded by (cases "position_of ((=) cur) path") auto
    show ?thesis
    proof (cases "fragment_source m cur")
      case None
      then show ?thesis using unfolded False free by (auto intro: grounded.base)
    next
      case (Some s)
      then have "follow_fragments m complete (path @ [cur]) s = ([], path')" using unfolded False free by simp
      from "1.IH" [OF False free Some this "1.prems"(2)] have
        "grounded m s" and "\<forall>p \<in> set path'. p \<notin> set (path @ [cur]) \<longrightarrow> grounded m p" by blast+
      moreover have "grounded m cur" using Some \<open>grounded m s\<close> by (rule grounded.step)
      ultimately show ?thesis by auto
    qed
  qed
qed

lemma fragment_cycles_clean:
  "fragment_cycles m complete ss = [] \<Longrightarrow> \<forall>c \<in> complete. grounded m c \<Longrightarrow> \<forall>s \<in> set ss. grounded m s"
proof (induction m complete ss rule: fragment_cycles.induct)
  case (2 m complete s ss)
  show ?case
  proof (cases "s \<in> complete")
    case True
    then show ?thesis using 2 by simp
  next
    case False
    obtain errs path where f: "follow_fragments m complete [] s = (errs, path)" by (rule prod.exhaust)
    then have "errs = []" and rest: "fragment_cycles m (complete \<union> set path) ss = []" using "2.prems"(1) False by auto
    with f have "follow_fragments m complete [] s = ([], path)" by simp
    from follow_clean [OF this "2.prems"(2)] have "grounded m s" "\<forall>p \<in> set path. grounded m p" by auto
    then show ?thesis using "2.IH"(2) [OF False f [symmetric] rest] "2.prems"(2) by auto
  qed
qed simp

lemma cycle_pass_grounds: "validate_fragment_cycles m = [] \<Longrightarrow> grounded m s"
proof -
  assume "validate_fragment_cycles m = []"
  then have keys: "\<forall>s \<in> set (bm_keys (md_schemas m)). grounded m s"
    unfolding validate_fragment_cycles_def by (rule fragment_cycles_clean) simp
  show ?thesis
  proof (cases "fragment_source m s")
    case (Some t)
    then show ?thesis using keys fragment_source_key by blast
  qed (rule grounded.base)
qed

lemma grounded_no_cycle: "grounded m s \<Longrightarrow> (s, s) \<notin> (sourced_from m)\<^sup>+"
proof (induction rule: grounded.induct)
  case (base s)
  then show ?case by (auto simp: sourced_from_def dest: tranclD)
next
  case (step s t)
  show ?case
  proof
    assume "(s, s) \<in> (sourced_from m)\<^sup>+"
    then obtain u where "(s, u) \<in> sourced_from m" "(u, s) \<in> (sourced_from m)\<^sup>*" by (auto dest: tranclD)
    moreover from this step.hyps(1) have "u = t" by (simp add: sourced_from_def)
    ultimately have "(t, t) \<in> (sourced_from m)\<^sup>+" by (metis rtrancl_into_trancl1)
    then show False using step.IH by simp
  qed
qed

section \<open>Reported cycles\<close>

text \<open>A list of schemas in which each is the source of the one before it.\<close>

fun source_chain :: "model \<Rightarrow> id list \<Rightarrow> bool" where
  "source_chain m (s # t # ss) = (fragment_source m s = Some t \<and> source_chain m (t # ss))"
| "source_chain m _ = True"

definition source_cycle :: "model \<Rightarrow> id list \<Rightarrow> bool" where
  "source_cycle m c \<longleftrightarrow> 2 \<le> length c \<and> hd c = last c \<and> source_chain m c"

lemma source_chain_snoc:
  "source_chain m (ss @ [s]) \<Longrightarrow> fragment_source m s = Some t \<Longrightarrow> source_chain m (ss @ [s, t])"
  by (induction m "ss @ [s]" arbitrary: ss rule: source_chain.induct)
    (auto simp: Cons_eq_append_conv append_eq_Cons_conv)

lemma source_chain_drop: "source_chain m ss \<Longrightarrow> source_chain m (drop n ss)"
proof (induction m ss arbitrary: n rule: source_chain.induct)
  case (1 m s t ss)
  then show ?case by (cases n) auto
qed (simp_all add: drop_Cons split: nat.split)

lemma follow_cycle:
  "source_chain m (path @ [cur]) \<Longrightarrow> follow_fragments m complete path cur = (errs, path') \<Longrightarrow> e \<in> set errs
     \<Longrightarrow> \<exists>c. e = OfReference (VeFragmentCycle c) \<and> source_cycle m c"
proof (induction m complete path cur rule: follow_fragments.induct)
  case (1 m complete path cur)
  note unfolded = "1.prems"(2) [unfolded follow_fragments.simps [of m complete path cur]]
  have open_cur: "cur \<notin> complete" using unfolded "1.prems"(3) by auto
  show ?case
  proof (cases "position_of ((=) cur) path")
    case (Some n)
    then have n: "n < length path" "path ! n = cur" using position_of_Some [OF Some] by auto
    have "e = OfReference (VeFragmentCycle (drop n path @ [cur]))" using unfolded open_cur Some "1.prems"(3) by auto
    moreover have "source_chain m (drop n (path @ [cur]))" by (rule source_chain_drop) (rule "1.prems"(1))
    moreover have "hd (drop n path @ [cur]) = cur" using n by (simp add: hd_drop_conv_nth)
    ultimately show ?thesis using n by (auto simp: source_cycle_def)
  next
    case None
    then obtain s where s: "fragment_source m cur = Some s"
      using unfolded open_cur "1.prems"(3) by (cases "fragment_source m cur") auto
    have "source_chain m ((path @ [cur]) @ [s])" using source_chain_snoc [OF "1.prems"(1) s] by simp
    then show ?thesis using "1.IH" [OF open_cur None s] unfolded open_cur None s "1.prems"(3) by simp
  qed
qed

lemma fragment_cycles_reported:
  "e \<in> set (fragment_cycles m complete ss) \<Longrightarrow> \<exists>c. e = OfReference (VeFragmentCycle c) \<and> source_cycle m c"
proof (induction m complete ss rule: fragment_cycles.induct)
  case (2 m complete s ss)
  show ?case
  proof (cases "s \<in> complete")
    case True
    then show ?thesis using 2 by simp
  next
    case False
    obtain errs path where f: "follow_fragments m complete [] s = (errs, path)" by (rule prod.exhaust)
    then have "e \<in> set errs \<or> e \<in> set (fragment_cycles m (complete \<union> set path) ss)" using "2.prems" False by simp
    then show ?thesis using follow_cycle [OF _ f] "2.IH"(2) [OF False f [symmetric]] by auto
  qed
qed simp

lemma source_chain_trancl:
  "source_chain m (s # ss) \<Longrightarrow> ss \<noteq> [] \<Longrightarrow> (s, last ss) \<in> (sourced_from m)\<^sup>+"
proof (induction ss arbitrary: s)
  case (Cons t ss)
  then have st: "(s, t) \<in> sourced_from m" by (simp add: sourced_from_def)
  show ?case
  proof (cases "ss = []")
    case True
    then show ?thesis using st by auto
  next
    case False
    then have "(t, last ss) \<in> (sourced_from m)\<^sup>+" using Cons by simp
    with st False show ?thesis by (metis last_ConsR trancl_into_trancl2)
  qed
qed simp

lemma source_cycle_trancl: "source_cycle m c \<Longrightarrow> (hd c, hd c) \<in> (sourced_from m)\<^sup>+"
proof -
  assume c: "source_cycle m c"
  then obtain s t ss where e: "c = s # t # ss" by (cases "(m, c)" rule: source_chain.cases) (auto simp: source_cycle_def)
  have "source_chain m c" "hd c = last c" using c by (simp_all add: source_cycle_def)
  then show ?thesis using source_chain_trancl [of m s "t # ss"] unfolding e by simp
qed

section \<open>Resolution returns\<close>

definition embeds_only_canonical :: "model \<Rightarrow> bool" where
  "embeds_only_canonical m \<longleftrightarrow>
     list_all (\<lambda>(i, s). case s of
         SchCanonical sc \<Rightarrow>
           list_all (\<lambda>f. case f_ty f of TSchema j \<Rightarrow> is_canonical m j | _ \<Rightarrow> True) (bm_values (cs_fields sc))
       | SchFragment fr \<Rightarrow> True) (md_schemas m)"

lemma embedded_canonical:
  assumes "embeds_only_canonical m" "bm_get (md_schemas m) s = Some (SchCanonical sc)"
    "bm_get (cs_fields sc) c = Some f" "f_ty f = TSchema j"
  shows "is_canonical m j"
proof -
  have "(s, SchCanonical sc) \<in> set (md_schemas m)" "f \<in> set (bm_values (cs_fields sc))"
    using assms(2,3) by (force dest: map_of_SomeD)+
  then show ?thesis using assms(1,4) by (fastforce simp: embeds_only_canonical_def list_all_iff)
qed

lemma is_canonical_schema: "is_canonical m s \<Longrightarrow> \<exists>sc. bm_get (md_schemas m) s = Some (SchCanonical sc)"
  by (auto simp: is_canonical_def split: option.splits schema.splits)

lemma canonical_resolves:
  assumes "embeds_only_canonical m"
  shows "is_canonical m s \<Longrightarrow> resolve_schema_components m s cs \<noteq> None"
    "is_canonical m s \<Longrightarrow> schema_field_type m s cs \<noteq> None"
    "is_canonical m s \<Longrightarrow> path_has_optional_segment m s cs \<noteq> None"
proof (induction cs arbitrary: s)
  case Nil
  { case 1 then show ?case by (subst resolve_schema_components.simps) simp }
  { case 2 then show ?case by (subst schema_field_type.simps) simp }
  { case 3 then show ?case by (subst path_has_optional_segment.simps) simp }
next
  case (Cons c cs)
  { case 1
    then obtain sc where "bm_get (md_schemas m) s = Some (SchCanonical sc)" using is_canonical_schema by blast
    then show ?case using Cons.IH(1) embedded_canonical [OF assms]
      by (subst resolve_schema_components.simps) (auto split: option.split type_ref.split) }
  { case 2
    then obtain sc where "bm_get (md_schemas m) s = Some (SchCanonical sc)" using is_canonical_schema by blast
    then show ?case using Cons.IH(2) embedded_canonical [OF assms]
      by (subst schema_field_type.simps) (fastforce split: option.split type_ref.split) }
  { case 3
    then obtain sc where "bm_get (md_schemas m) s = Some (SchCanonical sc)" using is_canonical_schema by blast
    then show ?case using Cons.IH(3) embedded_canonical [OF assms]
      by (subst path_has_optional_segment.simps) (fastforce split: option.split type_ref.split) }
qed

text \<open>Every source is declared.\<close>

definition sources_declared :: "model \<Rightarrow> bool" where
  "sources_declared m \<longleftrightarrow>
     list_all (\<lambda>(i, s). case s of SchFragment fr \<Rightarrow> bm_contains (md_schemas m) (sf_source fr) | _ \<Rightarrow> True) (md_schemas m)"

lemma schema_cases:
  obtains (absent) "bm_get (md_schemas m) s = None"
  | (canonical) "is_canonical m s"
  | (fragment) fr where "bm_get (md_schemas m) s = Some (SchFragment fr)" "fragment_source m s = Some (sf_source fr)"
proof (cases "bm_get (md_schemas m) s")
  case (Some x)
  then show ?thesis by (cases x) (auto simp: is_canonical_def fragment_source_def intro: that)
qed (rule that(1))

lemma fragment_resolves:
  assumes "embeds_only_canonical m" "sources_declared m"
  shows "grounded m s \<Longrightarrow> bm_contains (md_schemas m) s \<Longrightarrow> resolve_schema_components m s cs \<noteq> None"
proof (induction arbitrary: cs rule: grounded.induct)
  case (base s)
  have "is_canonical m s" using base by (cases rule: schema_cases [of m s]) (auto simp: bm_contains_def)
  then show ?case by (rule canonical_resolves(1) [OF assms(1)])
next
  case (step s t)
  from step.hyps(1) obtain fr where fr: "bm_get (md_schemas m) s = Some (SchFragment fr)" "t = sf_source fr"
    by (auto simp: fragment_source_def split: option.splits schema.splits)
  have "bm_contains (md_schemas m) t"
    using assms(2) map_of_SomeD [OF fr(1)] fr(2) by (auto simp: sources_declared_def list_all_iff)
  then show ?case using step.IH fr by (subst resolve_schema_components.simps) (auto split: list.split option.split)
qed

lemma fragment_types:
  assumes "embeds_only_canonical m"
  shows "grounded m s \<Longrightarrow> schema_field_type m s cs \<noteq> None"
    "grounded m s \<Longrightarrow> path_has_optional_segment m s cs \<noteq> None"
proof (induction arbitrary: cs and cs rule: grounded.inducts)
  case (base s)
  { case 1
    show ?case using base
    proof (cases rule: schema_cases [of m s])
      case absent then show ?thesis by (subst schema_field_type.simps) (auto split: list.split)
    next
      case canonical then show ?thesis by (rule canonical_resolves(2) [OF assms])
    qed simp }
  { case 2
    show ?case using base
    proof (cases rule: schema_cases [of m s])
      case absent then show ?thesis by (subst path_has_optional_segment.simps) (auto split: list.split)
    next
      case canonical then show ?thesis by (rule canonical_resolves(3) [OF assms])
    qed simp }
next
  case (step s t)
  from step.hyps(1) obtain fr where fr: "bm_get (md_schemas m) s = Some (SchFragment fr)" "t = sf_source fr"
    by (auto simp: fragment_source_def split: option.splits schema.splits)
  { case 1 show ?case using step.IH(1) fr by (subst schema_field_type.simps) (auto split: list.split option.split) }
  { case 2 show ?case using step.IH(2) fr by (subst path_has_optional_segment.simps) (auto split: list.split option.split) }
qed

section \<open>Validations that do not return\<close>

lemma in_turn_stuck: "None \<in> set cs \<Longrightarrow> in_turn cs = None"
  using in_turn_returns [of cs] by blast

lemma gather_stuck: "x \<in> set xs \<Longrightarrow> f x = None \<Longrightarrow> gather f xs = None"
  using gather_returns [of f xs] by blast

lemma validate_after:
  assumes "validate_global_id_uniqueness m = []" "validate_references m (build_reference_index m) = []"
    "validate_fragment_cycles m = []"
  shows "validate m = validate_rest m (build_reference_index m)"
  using assms by (simp add: validate_def)

lemma stuck_paths: "validate_field_paths m ix = None \<Longrightarrow> validate_rest m ix = None"
  unfolding validate_rest_def by (rule in_turn_stuck) simp

lemma stuck_runtime: "validate_runtime m ix = None \<Longrightarrow> validate_rest m ix = None"
  unfolding validate_rest_def by (rule in_turn_stuck) simp

text \<open>A canonical schema that embeds a fragment of itself, whose mapping goes through the embedding.\<close>

definition maps_through_itself :: "model \<Rightarrow> id \<Rightarrow> string \<Rightarrow> bool" where
  "maps_through_itself m i y \<longleftrightarrow>
     (\<exists>fr sc x f. bm_get (md_schemas m) i = Some (SchFragment fr)
        \<and> bm_get (md_schemas m) (sf_source fr) = Some (SchCanonical sc)
        \<and> bm_get (sf_mapping fr) y = Some (FieldPath [x, y])
        \<and> bm_get (cs_fields sc) x = Some f \<and> f_ty f = TSchema i)"

lemma self_mapping_recurses:
  assumes i: "bm_get (md_schemas m) i = Some (SchFragment fr)"
    and s: "bm_get (md_schemas m) (sf_source fr) = Some (SchCanonical sc)"
    and y: "bm_get (sf_mapping fr) y = Some (FieldPath [x, y])"
    and x: "bm_get (cs_fields sc) x = Some f" "f_ty f = TSchema i"
    and r: "resolve_schema_components m' j cs = Some b"
  shows "m' = m \<longrightarrow> \<not> (j = i \<and> cs = [y] \<or> j = sf_source fr \<and> cs = [x, y])"
proof (rule resolve_schema_components.raw_induct [OF _ r], goal_cases)
  case (1 g n j cs b)
  then show ?case
    using 1(1) [of m "sf_source fr" "[x, y]" b] 1(1) [of m i "[y]" b] by (auto simp: i s y x split: list.splits)
qed

lemma self_mapping_stuck:
  assumes "maps_through_itself m i y" shows "resolve_schema_components m i [y] = None"
proof (cases "resolve_schema_components m i [y]")
  case (Some b)
  obtain fr sc x f where "bm_get (md_schemas m) i = Some (SchFragment fr)"
    "bm_get (md_schemas m) (sf_source fr) = Some (SchCanonical sc)"
    "bm_get (sf_mapping fr) y = Some (FieldPath [x, y])"
    "bm_get (cs_fields sc) x = Some f" "f_ty f = TSchema i"
    using assms by (auto simp: maps_through_itself_def)
  from self_mapping_recurses [OF this Some] show ?thesis by simp
qed

lemma self_mapping_paths: 
  assumes "maps_through_itself m i y" shows "validate_field_paths m ix = None"
proof -
  obtain fr x where fr: "bm_get (md_schemas m) i = Some (SchFragment fr)" "bm_get (sf_mapping fr) y = Some (FieldPath [x, y])"
    using assms by (auto simp: maps_through_itself_def)
  have "resolve_schema_components m (sf_source fr) [x, y] = None"
    using self_mapping_stuck [OF assms] fr by (subst (asm) resolve_schema_components.simps) simp
  then have "fragment_paths m (i, SchFragment fr) = None"
    using map_of_SomeD [OF fr(2)]
    by (auto simp: fragment_paths_def validate_schema_path_def schema_path_resolves_def image_iff
       intro!: gather_stuck [where x = "FieldPath [x, y]"] bexI [where x = "(y, FieldPath [x, y])"])
  then have "gather (fragment_paths m) (md_schemas m) = None" by (rule gather_stuck [OF map_of_SomeD [OF fr(1)]])
  then show ?thesis unfolding validate_field_paths_def by (intro in_turn_stuck) simp
qed

text \<open>A grouping key of an undeclared schema: the reference check reports it, the paths are resolved anyway.\<close>

lemma undeclared_key_stuck:
  assumes "(t, tr) \<in> set (rm_topics r)" "tpr_grouping tr = Some key" "bm_contains (md_topics m) t"
    "(s, p # tuple) \<in> set key" "components p \<noteq> []" "\<not> bm_contains (md_schemas m) s"
  shows "validate_topic_runtimes m r ix = None"
proof -
  have "resolve_schema_components m s (components p) = None"
    using assms(5,6) by (subst resolve_schema_components.simps) (auto simp: bm_contains_def split: list.split)
  then have "validate_schema_path m t s p = None"
    using assms(5) by (simp add: validate_schema_path_def schema_path_resolves_def)
  then have "key_tuple_errors m t blank arity key = None" for blank arity
    unfolding key_tuple_errors_def by (intro gather_stuck [OF assms(4)]) (simp add: in_turn_stuck)
  then have "validate_grouping m ix t t (Some key) order covers = None" for order covers
    using assms(3) unfolding validate_grouping_def by (auto simp: bm_contains_def in_turn_stuck)
  then show ?thesis
    unfolding validate_topic_runtimes_def using assms(2)
    by (intro gather_stuck [OF assms(1)]) (simp add: in_turn_stuck)
qed

end
