(* ===== verification/Validate_Flow.thy ===== *)
theory Validate_Flow
  imports Validate_Programs Replay_Paths
begin

text \<open>
  What the definite-availability analysis promises of the paths of a program: where it reports
  nothing, every step of every path finds what it consumes established before it on that path, and
  every path ends at a terminal.
\<close>

section \<open>What a path has provided\<close>

fun step_artifacts :: "path_step \<Rightarrow> id set" where
  "step_artifacts (PsTransaction loc t) = set (established_by t)"
| "step_artifacts _ = {}"

fun step_bound :: "path_step \<Rightarrow> id set" where
  "step_bound (PsExecuteEffect loc s) = set_option (xf_bind s)"
| "step_bound (PsExecuteEffectIntent loc s) = set_option (xi_bind s)"
| "step_bound (PsJoinAll loc hs) = (\<Union>h \<in> set hs. set_option (aj_bind h))"
| "step_bound (PsRace loc s) = set_option (rc_bind s)"
| "step_bound _ = {}"

fun step_handles :: "path_step \<Rightarrow> id set" where
  "step_handles (PsExecuteEffectAsync loc s) = {xa_handle s}"
| "step_handles (PsExecuteEffectIntentAsync loc s) = {xia_handle s}"
| "step_handles _ = {}"

fun step_selected :: "path_step \<Rightarrow> (id \<times> result_arm) set" where
  "step_selected (PsDecision loc (DcMatch r a)) = {(r, a)}"
| "step_selected _ = {}"

definition over :: "(path_step \<Rightarrow> 'a set) \<Rightarrow> path_step list \<Rightarrow> 'a set" where
  "over f ss = (\<Union>s \<in> set ss. f s)"

lemma over_append [simp]: "over f (a @ b) = over f a \<union> over f b"
  by (auto simp: over_def)

lemma over_simps [simp]: "over f [] = {}" "over f (s # ss) = f s \<union> over f ss"
  by (auto simp: over_def)

section \<open>What a path consumes\<close>

text \<open>A value is met after a prefix of a path when the prefix has produced its source.\<close>

definition value_met :: "path_step list \<Rightarrow> value_ref \<Rightarrow> bool" where
  "value_met pre v =
     (case vr_source v of
        VsTransactionOutput b \<Rightarrow> b \<in> over step_artifacts pre
      | VsEffectResultOk r \<Rightarrow> (r, ArmResOk) \<in> over step_selected pre
      | VsEffectResultErr r \<Rightarrow> (\<exists>e. (r, ArmResErr e) \<in> over step_selected pre)
      | _ \<Rightarrow> True)"

definition entry_met :: "path_step list \<Rightarrow> value_ref \<Rightarrow> bool" where
  "entry_met pre v \<longleftrightarrow> value_met pre v \<and> (\<nexists>b. vr_source v = VsTransactionRead b)"

definition entry_roots :: "transaction \<Rightarrow> value_ref list" where
  "entry_roots t =
     map sr_key (tr_serializability (tx_requirements t))
     @ concat (map (\<lambda>r. [or_key r, or_position r]) (tr_ordering (tx_requirements t)))"

fun step_met :: "model \<Rightarrow> path_step list \<Rightarrow> path_step \<Rightarrow> bool" where
  "step_met m pre (PsTransaction loc t) =
     (list_all (value_met pre) (key_roots t @ body_roots m {} (tx_steps t))
      \<and> list_all (entry_met pre) (entry_roots t))"
| "step_met m pre (PsExecuteEffect loc s) =
     list_all (value_met pre) (derivation_roots (xf_values s) @ effect_roots (xf_effect s))"
| "step_met m pre (PsExecuteEffectAsync loc s) =
     (permits_direct_async (xa_effect s)
      \<and> list_all (value_met pre) (derivation_roots (xa_values s) @ effect_roots (xa_effect s)))"
| "step_met m pre (PsExecuteEffectIntent loc s) = (xi_intent s \<in> over step_artifacts pre)"
| "step_met m pre (PsExecuteEffectIntentAsync loc s) = (xia_intent s \<in> over step_artifacts pre)"
| "step_met m pre (PsJoinAll loc hs) =
     (hs \<noteq> [] \<and> distinct (map aj_handle hs) \<and> aj_handle ` set hs \<subseteq> over step_handles pre)"
| "step_met m pre (PsRace loc s) =
     (2 \<le> length (rc_handles s) \<and> distinct (rc_handles s) \<and> set (rc_handles s) \<subseteq> over step_handles pre)"
| "step_met m pre (PsDecision loc (DcMatch r a)) = (r \<in> over step_bound pre)"
| "step_met m pre (PsDecision loc (DcBranch c a)) = list_all (value_met pre) (condition_roots c)"
| "step_met m pre (PsDecision loc (DcTransaction t out)) = True"

fun steps_met :: "model \<Rightarrow> path_step list \<Rightarrow> path_step list \<Rightarrow> bool" where
  "steps_met m pre [] = True"
| "steps_met m pre (s # ss) = (step_met m pre s \<and> steps_met m (pre @ [s]) ss)"

lemma steps_met_append [simp]: "steps_met m pre (a @ b) = (steps_met m pre a \<and> steps_met m (pre @ a) b)"
  by (induction a arbitrary: pre) auto

fun terminal_met :: "path_step list \<Rightarrow> terminal \<Rightarrow> bool" where
  "terminal_met pre (TmReturn loc i out) = list_all (value_met pre) (derivation_roots (outcome_values out))"
| "terminal_met pre TmNone = False"
| "terminal_met pre _ = True"

definition path_met :: "model \<Rightarrow> prog_path \<Rightarrow> bool" where
  "path_met m p \<longleftrightarrow> steps_met m [] (pa_steps p) \<and> terminal_met (pa_steps p) (pa_terminal p)"

section \<open>A walk without complaints\<close>

named_theorems clean_simps \<open>when a check leaves nothing behind\<close>

definition clean :: "checked \<Rightarrow> bool" where
  "clean k \<longleftrightarrow> ck_errors k = [] \<and> ck_reported k = {}"

lemma clean_complain [clean_simps]: "\<not> clean (complain_of e k)"
  by (simp add: clean_def complain_of_def)

lemma clean_report [clean_simps]: "\<not> clean (report_once loc i e k)"
  by (auto simp: clean_def report_once_def complain_of_def)

lemma clean_require [clean_simps]:
  "clean (require_value opn st loc use v k) \<longleftrightarrow> missing_value opn st loc use v = None \<and> clean k"
  by (auto simp: require_value_def clean_simps split: option.split)

lemma clean_require_all [clean_simps]:
  "clean (require_all opn st loc use vs k)
     \<longleftrightarrow> list_all (\<lambda>v. missing_value opn st loc use v = None) vs \<and> clean k"
  unfolding require_all_def by (induction vs arbitrary: k) (auto simp: clean_simps)

lemma clean_intent [clean_simps]:
  "clean (require_intent opn st loc i k) \<longleftrightarrow> i \<in> av_artifacts st \<and> clean k"
  by (auto simp: require_intent_def clean_simps)

lemma clean_synchronize [clean_simps]:
  "clean (synchronize opn st loc use seen hs k)
     \<longleftrightarrow> set hs \<inter> seen = {} \<and> distinct hs \<and> set hs \<subseteq> av_handles st \<and> clean k"
  by (induction opn st loc use seen hs k rule: synchronize.induct) (auto simp: clean_simps)

lemma clean_requirement [clean_simps]:
  "clean (requirement_key_error opn st loc t f n v k) \<longleftrightarrow> unavailability_at_entry st v = None \<and> clean k"
  "clean (position_error opn st loc t n v k) \<longleftrightarrow> unavailability_at_entry st v = None \<and> clean k"
  by (auto simp: requirement_key_error_def position_error_def clean_simps split: option.split)

lemma clean_fold:
  assumes "\<And>x k. clean (f x k) \<longleftrightarrow> P x \<and> clean k"
  shows "clean (fold f xs k) \<longleftrightarrow> list_all P xs \<and> clean k"
proof (induction xs arbitrary: k)
  case (Cons x xs)
  show ?case by (simp add: Cons.IH assms) blast
qed simp

lemma list_all_enumerate: "list_all (\<lambda>(n, r). P r) (enumerate k xs) \<longleftrightarrow> list_all P xs"
  by (induction xs arbitrary: k) simp_all

lemma clean_serializability [clean_simps]:
  "clean (fold (\<lambda>(n, r). requirement_key_error opn st loc t f n (g r)) (enumerate 0 xs) k)
     \<longleftrightarrow> list_all (\<lambda>r. unavailability_at_entry st (g r) = None) xs \<and> clean k"
proof -
  have "clean (fold (\<lambda>(n, r). requirement_key_error opn st loc t f n (g r)) (enumerate 0 xs) k)
     \<longleftrightarrow> list_all (\<lambda>(n, r). unavailability_at_entry st (g r) = None) (enumerate 0 xs) \<and> clean k"
    by (rule clean_fold) (auto simp: clean_simps)
  then show ?thesis by (simp only: list_all_enumerate)
qed

lemma clean_ordering [clean_simps]:
  "clean (fold (\<lambda>(n, r) k. position_error opn st loc t n (p r)
            (requirement_key_error opn st loc t f n (g r) k)) (enumerate 0 xs) k)
     \<longleftrightarrow> list_all (\<lambda>r. unavailability_at_entry st (g r) = None \<and> unavailability_at_entry st (p r) = None) xs
       \<and> clean k"
proof -
  have "clean (fold (\<lambda>(n, r) k. position_error opn st loc t n (p r)
            (requirement_key_error opn st loc t f n (g r) k)) (enumerate 0 xs) k)
     \<longleftrightarrow> list_all (\<lambda>(n, r). unavailability_at_entry st (g r) = None \<and> unavailability_at_entry st (p r) = None)
           (enumerate 0 xs) \<and> clean k"
    by (rule clean_fold) (auto simp: clean_simps)
  then show ?thesis by (simp only: list_all_enumerate)
qed

lemma clean_rejected [clean_simps]:
  "clean (rejected_arm_error opn loc t rejected k)
     \<longleftrightarrow> (rejected = None \<longleftrightarrow> position_of step_rejects (tx_steps t) = None) \<and> clean k"
  by (auto simp: rejected_arm_error_def clean_simps split: option.split)

lemma list_all_requirement_roots:
  "list_all P (entry_roots t) \<longleftrightarrow>
     list_all (\<lambda>r. P (sr_key r)) (tr_serializability (tx_requirements t))
     \<and> list_all (\<lambda>r. P (or_key r) \<and> P (or_position r)) (tr_ordering (tx_requirements t))"
  by (auto simp: entry_roots_def list_all_iff)

lemma clean_transaction [clean_simps]:
  "clean (judge_transaction m opn st loc t rejected k) \<longleftrightarrow>
     (rejected = None \<longleftrightarrow> position_of step_rejects (tx_steps t) = None)
     \<and> list_all (\<lambda>v. missing_value opn st loc (PuTransaction (tx_id t)) v = None)
         (key_roots t @ body_roots m {} (tx_steps t))
     \<and> list_all (\<lambda>v. unavailability_at_entry st v = None) (entry_roots t)
     \<and> clean k"
  unfolding judge_transaction_def list_all_requirement_roots list_all_append clean_simps
  by blast

section \<open>States and prefixes\<close>

text \<open>A prefix of a path provides at least what a state grants.\<close>

definition inside :: "availability \<Rightarrow> path_step list \<Rightarrow> bool" where
  "inside st pre \<longleftrightarrow>
     av_artifacts st \<subseteq> over step_artifacts pre \<and> av_bound st \<subseteq> over step_bound pre
     \<and> av_handles st \<subseteq> over step_handles pre \<and> (\<forall>r \<in> av_ok st. (r, ArmResOk) \<in> over step_selected pre)
     \<and> (\<forall>(r, c) \<in> set (av_err st). (r, ArmResErr c) \<in> over step_selected pre)"

lemma within_extend: "inside st pre \<Longrightarrow> inside st (pre @ suf)"
  by (auto simp: inside_def)

lemma within_nothing: "inside nothing_available pre"
  by (simp add: inside_def nothing_available_def)

lemma contains_entry: "bm_contains m r \<Longrightarrow> \<exists>c. (r, c) \<in> set m"
  by (auto simp: bm_contains_def dest: map_of_SomeD)

lemma within_value:
  "missing_value opn st loc use v = None \<Longrightarrow> inside st pre \<Longrightarrow> value_met pre v"
  by (auto simp: missing_value_def value_met_def inside_def split: value_source.splits if_splits
      dest!: contains_entry)

lemma within_entry:
  "unavailability_at_entry st v = None \<Longrightarrow> inside st pre \<Longrightarrow> entry_met pre v"
  by (auto simp: unavailability_at_entry_def entry_met_def value_met_def inside_def
      split: value_source.splits if_splits dest!: contains_entry)

lemma within_values:
  "list_all (\<lambda>v. missing_value opn st loc use v = None) vs \<Longrightarrow> inside st pre \<Longrightarrow> list_all (value_met pre) vs"
  using within_value by (auto simp: list_all_iff)

lemma within_entries:
  "list_all (\<lambda>v. unavailability_at_entry st v = None) vs \<Longrightarrow> inside st pre \<Longrightarrow> list_all (entry_met pre) vs"
  using within_entry by (auto simp: list_all_iff)

lemma join_within_left: "inside a o' \<Longrightarrow> \<exists>st. av_join (Some a) x = Some st \<and> inside st o'"
  by (cases x) (auto simp: inside_def av_meet_def)

lemma join_within_right: "inside b o' \<Longrightarrow> \<exists>st. av_join x (Some b) = Some st \<and> inside st o'"
  by (cases x) (auto simp: inside_def av_meet_def dest: map_of_SomeD)

lemma within_establish: "inside st pre \<Longrightarrow> inside (establish_all t st) (pre @ [PsTransaction loc t])"
  by (auto simp: inside_def establish_all_def)

lemma within_ok: "inside st pre \<Longrightarrow> inside (st\<lparr>av_ok := insert r (av_ok st)\<rparr>) (pre @ [PsDecision loc (DcMatch r ArmResOk)])"
  by (auto simp: inside_def)

lemma set_bm_insert: "set (bm_insert k v m) \<subseteq> insert (k, v) (set m)"
  by (induction k v m rule: bm_insert.induct) auto

lemma within_err:
  "inside st pre \<Longrightarrow>
     inside (st\<lparr>av_err := bm_insert r e (av_err st)\<rparr>) (pre @ [PsDecision loc (DcMatch r (ArmResErr e))])"
  using set_bm_insert [of r e "av_err st"] by (fastforce simp: inside_def)

lemma within_bound:
  "inside st pre \<Longrightarrow> set_option b \<subseteq> step_bound s \<Longrightarrow> inside (add_bound b st) (pre @ [s])"
  by (auto simp: inside_def add_bound_def split: option.splits)

lemma within_handle: "inside st pre \<Longrightarrow> h \<in> step_handles s \<Longrightarrow> inside (add_handle h st) (pre @ [s])"
  by (auto simp: inside_def add_handle_def)

lemma fold_bound:
  "fold (\<lambda>h. add_bound (aj_bind h)) hs st = st\<lparr>av_bound := av_bound st \<union> (\<Union>h \<in> set hs. set_option (aj_bind h))\<rparr>"
  by (induction hs arbitrary: st) (auto simp: add_bound_def split: option.split)

lemma within_joined:
  "inside st pre \<Longrightarrow> inside (fold (\<lambda>h. add_bound (aj_bind h)) hs st) (pre @ [PsJoinAll loc hs])"
  by (auto simp: inside_def fold_bound)

lemma within_weaker:
  assumes "inside st pre" "av_artifacts st' \<subseteq> av_artifacts st" "av_bound st' \<subseteq> av_bound st"
    "av_handles st' \<subseteq> av_handles st" "av_ok st' \<subseteq> av_ok st"
    "\<forall>(r, c) \<in> set (av_err st'). (r, ArmResErr c) \<in> over step_selected pre"
  shows "inside st' pre"
  using assms unfolding inside_def by blast

lemma within_leave:
  assumes "inside st' pre" "inside st pre"
  shows "\<exists>st''. leave_match st r (Some st') = Some st'' \<and> inside st'' pre"
proof -
  let ?e = "case bm_get (av_err st) r of Some c \<Rightarrow> bm_insert r c (av_err st') | None \<Rightarrow> bm_remove r (av_err st')"
  have "\<forall>(i, c) \<in> set ?e. (i, ArmResErr c) \<in> over step_selected pre"
  proof (cases "bm_get (av_err st) r")
    case None
    then show ?thesis using assms(1) by (auto simp: inside_def bm_remove_def)
  next
    case (Some c)
    then have "(r, ArmResErr c) \<in> over step_selected pre"
      using assms(2) map_of_SomeD [OF Some] by (auto simp: inside_def)
    then show ?thesis
      using assms(1) set_bm_insert [of r c "av_err st'"] Some by (auto simp: inside_def)
  qed
  then have "inside (st'\<lparr>av_ok := (if r \<in> av_ok st then av_ok st' else av_ok st' - {r}), av_err := ?e\<rparr>) pre"
    by (intro within_weaker [OF assms(1)]) auto
  then show ?thesis by (simp add: leave_match_def)
qed

section \<open>Soundness of the walk\<close>

lemma walk_extends:
  "\<forall>q \<in> set (fst (walk_block pre parent a b)). \<exists>suf. q = pre @ suf"
  "\<forall>q \<in> set (fst (walk_steps opens parent a i ss)). \<exists>pre \<in> set opens. \<exists>suf. q = pre @ suf"
  "\<forall>q \<in> set (fst (walk_step pre loc s)). \<exists>suf. q = pre @ suf"
  "\<forall>q \<in> set (fst (walk_errors pre loc r errs)). \<exists>suf. q = pre @ suf"
proof (induction pre parent a b and opens parent a i ss and pre loc s and pre loc r errs
    rule: walk_block_walk_steps_walk_step_walk_errors.induct)
  case (3 opens parent a i s ss)
  obtain nx out where w: "join_all_walks (map (\<lambda>pre. walk_step pre (descend parent a i) s) opens) = (nx, out)"
    by (rule prod.exhaust)
  have nx: "\<exists>pre \<in> set opens. \<exists>suf. q = pre @ suf" if "q \<in> set nx" for q
    using that w 3(1) by (fastforce simp: join_all_walks_def)
  have "\<exists>pre \<in> set opens. \<exists>suf. q = pre @ suf"
    if "q \<in> set (fst (walk_steps nx parent a (Suc i) ss))" "nx \<noteq> []" for q
    using 3(2) [OF w [symmetric] that(2)] that(1) nx by fastforce
  then show ?case by (auto simp: w join_walks_def)
qed (auto simp: goes_on_def ends_at_def join_walks_def)

definition flow_ok :: "model \<Rightarrow> availability option \<Rightarrow> walked \<Rightarrow> bool" where
  "flow_ok m out ws \<longleftrightarrow>
     (\<forall>q \<in> set (fst ws). steps_met m [] q \<and> (\<exists>st. out = Some st \<and> inside st q))
     \<and> (\<forall>p \<in> set (snd ws). path_met m p)"

lemma flow_join: "flow_ok m a u \<Longrightarrow> flow_ok m b w \<Longrightarrow> flow_ok m (av_join a b) (join_walks u w)"
  using join_within_left join_within_right by (fastforce simp: flow_ok_def join_walks_def)

lemma flow_goes_on:
  "steps_met m [] pre \<Longrightarrow> step_met m pre s \<Longrightarrow> inside st (pre @ [s]) \<Longrightarrow> flow_ok m (Some st) (goes_on pre s)"
  by (simp add: flow_ok_def goes_on_def)

lemma flow_ends: "steps_met m [] pre \<Longrightarrow> terminal_met pre t \<Longrightarrow> flow_ok m out (ends_at pre t)"
  by (simp add: flow_ok_def ends_at_def path_met_def)

lemma flow_nothing: "flow_ok m out ([], [])"
  by (simp add: flow_ok_def)

lemma flow_leave:
  assumes "flow_ok m out ws" "\<And>q. q \<in> set (fst ws) \<Longrightarrow> inside st q"
  shows "flow_ok m (leave_match st r out) ws"
  using assms within_leave by (fastforce simp: flow_ok_def)

definition sound_from :: "model \<Rightarrow> availability \<Rightarrow> availability option \<Rightarrow> (path_step list \<Rightarrow> walked) \<Rightarrow> bool" where
  "sound_from m st out w \<longleftrightarrow> (\<forall>pre. inside st pre \<and> steps_met m [] pre \<longrightarrow> flow_ok m out (w pre))"

lemma sound_fromD: "sound_from m st out w \<Longrightarrow> inside st pre \<Longrightarrow> steps_met m [] pre \<Longrightarrow> flow_ok m out (w pre)"
  by (simp add: sound_from_def)

lemma sound_step:
  assumes "\<And>pre. inside st pre \<Longrightarrow> step_met m pre s" "\<And>pre. inside st pre \<Longrightarrow> inside st' (pre @ [s])"
  shows "sound_from m st (Some st') (\<lambda>pre. goes_on pre s)"
  using assms by (simp add: sound_from_def flow_goes_on)

lemma sound_end:
  assumes "\<And>pre. inside st pre \<Longrightarrow> terminal_met pre t"
  shows "sound_from m st out (\<lambda>pre. ends_at pre t)"
  using assms by (simp add: sound_from_def flow_ends)

lemma flow_join_all:
  "(\<And>pre. pre \<in> set opens \<Longrightarrow> flow_ok m out (w pre)) \<Longrightarrow> flow_ok m out (join_all_walks (map w opens))"
  by (fastforce simp: flow_ok_def join_all_walks_def)

lemma flow_more: "flow_ok m out ws \<Longrightarrow> flow_ok m o' (nx, ps) \<Longrightarrow> flow_ok m out (join_walks ([], ps) ws)"
  by (auto simp: flow_ok_def join_walks_def)

lemma flow_closed: "flow_ok m out ([], ps) \<Longrightarrow> flow_ok m out' ([], ps)"
  by (simp add: flow_ok_def)

text \<open>A sequence: every open prefix takes the first step, what stays open the rest.\<close>

lemma flow_steps:
  assumes "\<And>pre. pre \<in> set opens \<Longrightarrow> flow_ok m out1 (walk_step pre (descend parent a n) s)"
    "\<And>nx. \<forall>pre \<in> set nx. \<exists>st. out1 = Some st \<and> inside st pre \<and> steps_met m [] pre \<Longrightarrow> nx \<noteq> [] \<Longrightarrow>
       flow_ok m out (walk_steps nx parent a (Suc n) ss)"
  shows "flow_ok m out (walk_steps opens parent a n (s # ss))"
proof -
  obtain nx ps where w: "join_all_walks (map (\<lambda>pre. walk_step pre (descend parent a n) s) opens) = (nx, ps)"
    by (rule prod.exhaust)
  have f: "flow_ok m out1 (nx, ps)"
    using flow_join_all [of opens m out1 "\<lambda>pre. walk_step pre (descend parent a n) s", OF assms(1)] by (simp add: w)
  have "flow_ok m out (walk_steps nx parent a (Suc n) ss)" if "nx \<noteq> []"
    by (rule assms(2) [OF _ that]) (use f in \<open>auto simp: flow_ok_def\<close>)
  then show ?thesis using f by (cases "nx = []") (auto simp: w intro: flow_closed flow_more)
qed

lemma sound_committed:
  assumes "\<And>pre. inside st pre \<Longrightarrow> step_met m pre (PsTransaction loc t)"
    "sound_from m st outb (\<lambda>pre. walk_block pre loc (Some ArmRejected) b)"
  shows "sound_from m st (av_join (Some (establish_all t st)) outb) (\<lambda>pre. walk_step pre loc (OsTransaction t (Some b)))"
  unfolding sound_from_def
proof (intro allI impI)
  fix pre assume p: "inside st pre \<and> steps_met m [] pre"
  have "flow_ok m (Some (establish_all t st))
      (goes_on (pre @ [PsTransaction loc t]) (PsDecision loc (DcTransaction (tx_id t) ToCommitted)))"
    using p assms(1) within_extend [OF within_establish, where suf = "[_]"]
    by (intro flow_goes_on) simp_all
  moreover have "flow_ok m outb
      (walk_block (pre @ [PsDecision loc (DcTransaction (tx_id t) ToRejected)]) loc (Some ArmRejected) b)"
    by (rule sound_fromD [OF assms(2)]) (use p in \<open>simp_all add: within_extend\<close>)
  ultimately show "flow_ok m (av_join (Some (establish_all t st)) outb) (walk_step pre loc (OsTransaction t (Some b)))"
    by (simp add: flow_join)
qed

lemma within_transaction:
  assumes "list_all (\<lambda>v. missing_value opn st loc use v = None) (key_roots t @ body_roots m {} (tx_steps t))"
    "list_all (\<lambda>v. unavailability_at_entry st v = None) (entry_roots t)" "inside st pre"
  shows "step_met m pre (PsTransaction loc' t)"
  using within_values [OF assms(1,3)] within_entries [OF assms(2,3)] by simp

lemma sound_branch:
  assumes "\<And>pre. inside st pre \<Longrightarrow> list_all (value_met pre) (condition_roots c)"
    "sound_from m st thn (\<lambda>pre. walk_block pre loc (Some ArmThen) b)"
    "case otherwise of None \<Rightarrow> els = Some st
       | Some d \<Rightarrow> sound_from m st els (\<lambda>pre. walk_block pre loc (Some ArmOtherwise) d)"
  shows "sound_from m st (av_join thn els) (\<lambda>pre. walk_step pre loc (OsBranch c b otherwise))"
  unfolding sound_from_def
proof (intro allI impI)
  fix pre assume p: "inside st pre \<and> steps_met m [] pre"
  let ?thn = "pre @ [PsDecision loc (DcBranch c ArmThen)]" and ?els = "pre @ [PsDecision loc (DcBranch c ArmOtherwise)]"
  have met: "steps_met m [] ?thn" "steps_met m [] ?els" "inside st ?thn" "inside st ?els"
    using p assms(1) by (simp_all add: within_extend)
  have t: "flow_ok m thn (walk_block ?thn loc (Some ArmThen) b)"
    by (rule sound_fromD [OF assms(2) met(3,1)])
  show "flow_ok m (av_join thn els) (walk_step pre loc (OsBranch c b otherwise))"
  proof (cases otherwise)
    case None
    then have "flow_ok m els (goes_on pre (PsDecision loc (DcBranch c ArmOtherwise)))"
      using assms(3) met by (simp add: flow_ok_def goes_on_def)
    then show ?thesis using None t by (simp add: flow_join)
  next
    case (Some d)
    then have "flow_ok m els (walk_block ?els loc (Some ArmOtherwise) d)"
      using assms(3) sound_fromD [of m st els "\<lambda>pre. walk_block pre loc (Some ArmOtherwise) d", OF _ met(4,2)] by simp
    then show ?thesis using Some t by (simp add: flow_join)
  qed
qed

lemma sound_match:
  assumes "r \<in> av_bound st"
    "sound_from m (st\<lparr>av_ok := insert r (av_ok st)\<rparr>) out1 (\<lambda>pre. walk_block pre loc (Some ArmOk) ok)"
    "\<And>pre ws. inside st pre \<Longrightarrow> steps_met m [] pre \<Longrightarrow> r \<in> over step_bound pre \<Longrightarrow> flow_ok m out1 ws \<Longrightarrow>
       flow_ok m out (join_walks ws (walk_errors pre loc r errs))"
  shows "sound_from m st (leave_match st r out) (\<lambda>pre. walk_step pre loc (OsMatchResult r ok errs))"
  unfolding sound_from_def
proof (intro allI impI)
  fix pre assume p: "inside st pre \<and> steps_met m [] pre"
  then have r: "r \<in> over step_bound pre" using assms(1) by (auto simp: inside_def)
  have "flow_ok m out1 (walk_block (pre @ [PsDecision loc (DcMatch r ArmResOk)]) loc (Some ArmOk) ok)"
    by (rule sound_fromD [OF assms(2)]) (use p r in \<open>simp_all add: within_ok\<close>)
  then have "flow_ok m out (walk_step pre loc (OsMatchResult r ok errs))"
    using assms(3) p r by simp
  then show "flow_ok m (leave_match st r out) (walk_step pre loc (OsMatchResult r ok errs))"
  proof (rule flow_leave)
    fix q assume "q \<in> set (fst (walk_step pre loc (OsMatchResult r ok errs)))"
    then obtain suf where "q = pre @ suf" using walk_extends(3) by blast
    then show "inside st q" using p by (simp add: within_extend)
  qed
qed

lemma sound_error_arm:
  assumes "sound_from m (st\<lparr>av_err := bm_insert r e (av_err st)\<rparr>) out (\<lambda>pre. walk_block pre loc (Some (ArmErr e)) b)"
    "inside st pre" "steps_met m [] pre" "r \<in> over step_bound pre"
  shows "flow_ok m out (walk_block (pre @ [PsDecision loc (DcMatch r (ArmResErr e))]) loc (Some (ArmErr e)) b)"
  by (rule sound_fromD [OF assms(1)]) (use assms(2-4) in \<open>simp_all add: within_err\<close>)

lemma join_walks_assoc: "join_walks (join_walks a b) c = join_walks a (join_walks b c)"
  by (simp add: join_walks_def)

lemma sound_walk:
  "clean (snd (avail_block m opn parent a st b k)) \<Longrightarrow>
     clean k \<and> sound_from m st (fst (avail_block m opn parent a st b k)) (\<lambda>pre. walk_block pre parent a b)"
  "clean (snd (avail_steps m opn parent a n st ss k)) \<Longrightarrow>
     clean k \<and> (\<forall>opens. (\<forall>pre \<in> set opens. inside st pre \<and> steps_met m [] pre)
       \<longrightarrow> flow_ok m (fst (avail_steps m opn parent a n st ss k)) (walk_steps opens parent a n ss))"
  "clean (snd (avail_step m opn loc st s k)) \<Longrightarrow>
     clean k \<and> sound_from m st (fst (avail_step m opn loc st s k)) (\<lambda>pre. walk_step pre loc s)"
  "clean (snd (avail_errors m opn loc st r errs f)) \<Longrightarrow>
     clean (snd f) \<and> (\<forall>pre ws. inside st pre \<and> steps_met m [] pre \<and> r \<in> over step_bound pre \<and> flow_ok m (fst f) ws
       \<longrightarrow> flow_ok m (fst (avail_errors m opn loc st r errs f)) (join_walks ws (walk_errors pre loc r errs)))"
proof (induction m opn parent a st b k and m opn parent a n st ss k and m opn loc st s k and m opn loc st r errs f
    rule: avail_block_avail_steps_avail_step_avail_errors.induct)
  case (1 m opn parent a st ss k)
  then show ?case by (simp add: sound_from_def)
next
  case (2 m opn parent a n st k)
  then show ?case by (simp add: flow_ok_def)
next
  case (3 m opn parent a n st s ss k)
  obtain out1 k1 where av: "avail_step m opn (descend parent a n) st s k = (out1, k1)" by (rule prod.exhaust)
  show ?case
  proof (cases out1)
    case None
    then have "clean k1" using 3(3) av by (simp add: clean_simps split: if_splits)
    then have "clean k \<and> sound_from m st None (\<lambda>pre. walk_step pre (descend parent a n) s)"
      using 3(1) by (simp add: av None)
    moreover have "flow_ok m None (walk_steps opens parent a n (s # ss))"
      if "\<forall>pre \<in> set opens. inside st pre \<and> steps_met m [] pre" for opens
      by (rule flow_steps [where ?out1.0 = None]) (use that sound_fromD [OF conjunct2 [OF calculation]] in auto)
    ultimately show ?thesis using None av by simp
  next
    case (Some st1)
    then have c: "clean (snd (avail_steps m opn parent a (Suc n) st1 ss k1))" using 3(3) av by simp
    have ih2: "clean k1" "\<And>opens. \<forall>pre \<in> set opens. inside st1 pre \<and> steps_met m [] pre \<Longrightarrow>
        flow_ok m (fst (avail_steps m opn parent a (Suc n) st1 ss k1)) (walk_steps opens parent a (Suc n) ss)"
      using 3(2) [OF av [symmetric] Some c] by blast+
    then have ih1: "clean k \<and> sound_from m st (Some st1) (\<lambda>pre. walk_step pre (descend parent a n) s)"
      using 3(1) by (simp add: av Some)
    have "flow_ok m (fst (avail_steps m opn parent a (Suc n) st1 ss k1)) (walk_steps opens parent a n (s # ss))"
      if "\<forall>pre \<in> set opens. inside st pre \<and> steps_met m [] pre" for opens
      by (rule flow_steps [where ?out1.0 = "Some st1"]) (use that ih2(2) sound_fromD [OF conjunct2 [OF ih1]] in auto)
    then show ?thesis using ih1 Some av by simp
  qed
next
  case (4 m opn loc st t rejected k)
  show ?case
  proof (cases rejected)
    case None
    then show ?thesis
      using 4(2) within_transaction [of opn st loc _ t m]
      by (auto simp: clean_simps intro!: sound_step within_establish)
  next
    case (Some b)
    obtain outb k' where av: "avail_block m opn loc (Some ArmRejected) st b (judge_transaction m opn st loc t rejected k) = (outb, k')"
      by (rule prod.exhaust)
    then have "clean k'" using 4(2) Some by simp
    then have ih: "clean (judge_transaction m opn st loc t rejected k)"
      "sound_from m st outb (\<lambda>pre. walk_block pre loc (Some ArmRejected) b)"
      using 4(1) [OF Some] av by simp_all
    have "sound_from m st (av_join (Some (establish_all t st)) outb) (\<lambda>pre. walk_step pre loc (OsTransaction t (Some b)))"
      by (rule sound_committed [OF _ ih(2)], rule within_transaction [of opn st loc "PuTransaction (tx_id t)"]) (use ih(1) in \<open>simp_all add: clean_simps\<close>)
    then show ?thesis using ih(1) Some av by (simp add: clean_simps)
  qed
next
  case (5 m opn loc st s k)
  then show ?case
    using within_values [of opn st loc] by (auto simp: clean_simps intro!: sound_step within_bound)
next
  case (6 m opn loc st s k)
  then show ?case
    using within_values [of opn st loc]
    by (auto simp: clean_simps intro!: sound_step within_handle split: if_splits)
next
  case (7 m opn loc st s k)
  then show ?case by (auto simp: clean_simps inside_def intro!: sound_step within_bound)
next
  case (8 m opn loc st s k)
  then show ?case by (auto simp: clean_simps inside_def intro!: sound_step within_handle)
next
  case (9 m opn loc st hs k)
  then show ?case
    by (auto simp: clean_simps intro!: sound_step within_joined split: if_splits) (auto simp: inside_def)
next
  case (10 m opn loc st s k)
  then show ?case
    by (auto simp: clean_simps intro!: sound_step within_bound split: if_splits) (auto simp: inside_def)
next
  case (11 m opn loc st r ok errs k)
  let ?k = "if r \<in> av_bound st then k else complain_of (OfProgram (VeEffectResultNotBound opn loc r PuMatch)) k"
  obtain out1 k1 where av: "avail_block m opn loc (Some ArmOk) (st\<lparr>av_ok := insert r (av_ok st)\<rparr>) ok ?k = (out1, k1)"
    by (rule prod.exhaust)
  obtain out k2 where ae: "avail_errors m opn loc st r errs (out1, k1) = (out, k2)" by (rule prod.exhaust)
  have "clean k2" using 11(3) av ae by simp
  then have e: "clean k1"
    "\<And>pre ws. inside st pre \<Longrightarrow> steps_met m [] pre \<Longrightarrow> r \<in> over step_bound pre \<Longrightarrow> flow_ok m out1 ws \<Longrightarrow>
       flow_ok m out (join_walks ws (walk_errors pre loc r errs))"
    using 11(2) by (simp_all add: av ae del: split_paired_All)
  then have b: "clean ?k"
    "sound_from m (st\<lparr>av_ok := insert r (av_ok st)\<rparr>) out1 (\<lambda>pre. walk_block pre loc (Some ArmOk) ok)"
    using 11(1) by (simp_all add: av)
  then have bd: "r \<in> av_bound st" "clean k" by (auto simp: clean_simps split: if_splits)
  then have "avail_block m opn loc (Some ArmOk) (st\<lparr>av_ok := insert r (av_ok st)\<rparr>) ok k = (out1, k1)"
    using av by simp
  then show ?case using sound_match [OF bd(1) b(2) e(2)] bd by (simp add: ae)
next
  case (12 m opn loc st c b otherwise k)
  let ?k = "require_all opn st loc PuCondition (condition_roots c) k"
  obtain thn k1 where av: "avail_block m opn loc (Some ArmThen) st b ?k = (thn, k1)" by (rule prod.exhaust)
  show ?case
  proof (cases otherwise)
    case None
    then have "clean k1" using 12(3) av by simp
    then have i: "clean ?k" "sound_from m st thn (\<lambda>pre. walk_block pre loc (Some ArmThen) b)"
      using 12(1) by (simp_all add: av)
    then have "sound_from m st (av_join thn (Some st)) (\<lambda>pre. walk_step pre loc (OsBranch c b otherwise))"
      using None within_values [of opn st loc] by (intro sound_branch) (auto simp: clean_simps)
    then show ?thesis using i None av by (simp add: clean_simps)
  next
    case (Some d)
    obtain els k2 where ae: "avail_block m opn loc (Some ArmOtherwise) st d k1 = (els, k2)" by (rule prod.exhaust)
    have "clean k2" using 12(3) av ae Some by simp
    then have j: "clean k1" "sound_from m st els (\<lambda>pre. walk_block pre loc (Some ArmOtherwise) d)"
      using 12(2) [OF av [symmetric] Some] by (simp_all add: ae)
    then have i: "clean ?k" "sound_from m st thn (\<lambda>pre. walk_block pre loc (Some ArmThen) b)"
      using 12(1) by (simp_all add: av)
    then have "sound_from m st (av_join thn els) (\<lambda>pre. walk_step pre loc (OsBranch c b otherwise))"
      using Some j within_values [of opn st loc] by (intro sound_branch) (auto simp: clean_simps)
    then show ?thesis using i Some av ae by (simp add: clean_simps)
  qed
next
  case (13 m opn loc st s k)
  then show ?case
    using within_values [of opn st loc] by (auto simp: clean_simps intro!: sound_end)
next
  case (14 m opn loc st k)
  then show ?case by (auto intro!: sound_end)
next
  case (15 m opn loc st k)
  then show ?case by (auto intro!: sound_end)
next
  case (16 m opn loc st r f)
  then show ?case by (simp add: join_walks_def)
next
  case (17 m opn loc st r e b errs f)
  obtain out k where f: "f = (out, k)" by (rule prod.exhaust)
  obtain arm k1 where av:
    "avail_block m opn loc (Some (ArmErr e)) (st\<lparr>av_err := bm_insert r e (av_err st)\<rparr>) b k = (arm, k1)"
    by (rule prod.exhaust)
  have rest: "clean k1" "\<And>pre ws. inside st pre \<Longrightarrow> steps_met m [] pre \<Longrightarrow> r \<in> over step_bound pre \<Longrightarrow>
      flow_ok m (av_join out arm) ws \<Longrightarrow>
      flow_ok m (fst (avail_errors m opn loc st r errs (av_join out arm, k1))) (join_walks ws (walk_errors pre loc r errs))"
    using 17(2) [OF f [symmetric] av [symmetric]] 17(3) by (simp_all add: f av del: split_paired_All)
  then have b: "clean k"
    "sound_from m (st\<lparr>av_err := bm_insert r e (av_err st)\<rparr>) arm (\<lambda>pre. walk_block pre loc (Some (ArmErr e)) b)"
    using 17(1) [OF f [symmetric]] rest(1) by (simp_all add: av)
  have "flow_ok m (fst (avail_errors m opn loc st r ((e, b) # errs) f))
      (join_walks ws (walk_errors pre loc r ((e, b) # errs)))"
    if p: "inside st pre" "steps_met m [] pre" "r \<in> over step_bound pre" "flow_ok m out ws" for pre ws
    using rest(2) [OF p(1-3) flow_join [OF p(4) sound_error_arm [OF b(2) p(1-3)]]]
    by (simp add: f av join_walks_assoc)
  then show ?case using b(1) by (simp add: f)
qed

section \<open>Nothing is suppressed\<close>

text \<open>The validator suppresses a second error of a declaration only after it has reported a first.\<close>

definition reports_settled :: "checked \<Rightarrow> bool" where
  "reports_settled k \<longleftrightarrow> (ck_errors k = [] \<longrightarrow> ck_reported k = {})"

lemma settled_complain: "reports_settled (complain_of e k)"
  by (simp add: reports_settled_def complain_of_def)

lemma settled_report: "reports_settled k \<Longrightarrow> reports_settled (report_once loc i e k)"
  by (auto simp: report_once_def settled_complain)

lemma settled_require: "reports_settled k \<Longrightarrow> reports_settled (require_value opn st loc use v k)"
  by (auto simp: require_value_def settled_report split: option.split)

lemma settled_fold: "(\<And>x k. reports_settled k \<Longrightarrow> reports_settled (f x k)) \<Longrightarrow> reports_settled k \<Longrightarrow> reports_settled (fold f xs k)"
  by (induction xs arbitrary: k) auto

lemma settled_require_all: "reports_settled k \<Longrightarrow> reports_settled (require_all opn st loc use vs k)"
  unfolding require_all_def by (rule settled_fold) (rule settled_require)

lemma settled_intent: "reports_settled k \<Longrightarrow> reports_settled (require_intent opn st loc i k)"
  by (simp add: require_intent_def settled_report)

lemma settled_synchronize: "reports_settled k \<Longrightarrow> reports_settled (synchronize opn st loc use seen hs k)"
  by (induction opn st loc use seen hs k rule: synchronize.induct) (auto simp: settled_complain settled_report)

lemma settled_entry:
  "reports_settled k \<Longrightarrow> reports_settled (requirement_key_error opn st loc t f n v k)"
  "reports_settled k \<Longrightarrow> reports_settled (position_error opn st loc t n v k)"
  by (auto simp: requirement_key_error_def position_error_def settled_complain split: option.split)

lemma settled_transaction: "reports_settled k \<Longrightarrow> reports_settled (judge_transaction m opn st loc t rejected k)"
  unfolding judge_transaction_def rejected_arm_error_def
  by (auto intro!: settled_complain settled_require_all settled_fold settled_entry split: option.split prod.split)

lemmas settled_intros = settled_complain settled_require_all settled_intent settled_synchronize settled_transaction

lemma settled_walk:
  "reports_settled k \<Longrightarrow> reports_settled (snd (avail_block m opn parent a st b k))"
  "reports_settled k \<Longrightarrow> reports_settled (snd (avail_steps m opn parent a n st ss k))"
  "reports_settled k \<Longrightarrow> reports_settled (snd (avail_step m opn loc st s k))"
  "reports_settled (snd f) \<Longrightarrow> reports_settled (snd (avail_errors m opn loc st r errs f))"
proof (induction m opn parent a st b k and m opn parent a n st ss k and m opn loc st s k and m opn loc st r errs f
    rule: avail_block_avail_steps_avail_step_avail_errors.induct)
  case (3 m opn parent a n st s ss k)
  then show ?case by (auto simp: settled_intros split: prod.split option.split)
next
  case (4 m opn loc st t rejected k)
  then show ?case by (auto simp: settled_intros split: prod.split option.split)
next
  case (11 m opn loc st r ok errs k)
  then show ?case by (auto simp: settled_intros split: prod.split)
next
  case (12 m opn loc st c b otherwise k)
  then show ?case by (force simp: settled_intros split: prod.split option.split)
next
  case (17 m opn loc st r e b errs f)
  then show ?case by (auto simp: settled_intros split: prod.split)
qed (auto simp: settled_intros)

lemma program_flow_clean:
  assumes "program_flow_errors m opn b = []"
  shows "clean (snd (check_program_flow m opn b))" "fst (check_program_flow m opn b) = None"
proof -
  have "reports_settled (snd (check_program_flow m opn b))"
    unfolding check_program_flow_def
    by (rule settled_walk(1)) (simp add: reports_settled_def nothing_checked_def)
  then show "clean (snd (check_program_flow m opn b))" "fst (check_program_flow m opn b) = None"
    using assms by (auto simp: program_flow_errors_def clean_def reports_settled_def split: prod.splits if_splits)
qed

lemma program_flow_sound:
  assumes "program_flow_errors m opn b = []" "p \<in> set (paths b)"
  shows "path_met m p"
proof -
  note c = program_flow_clean [OF assms(1), unfolded check_program_flow_def]
  have "sound_from m nothing_available None (\<lambda>pre. walk_block pre [] None b)"
    using sound_walk(1) [OF c(1)] c(2) by simp
  then have "flow_ok m None (walk_block [] [] None b)"
    by (rule sound_fromD) (simp_all add: within_nothing)
  then show ?thesis
    using assms(2) by (cases "walk_block [] [] None b") (auto simp: paths_def flow_ok_def)
qed

end
