(* ===== verification/Replay_Facts.thy ===== *)
theory Replay_Facts
  imports Replay_Report
begin

text \<open>
  What each judgment of the replay engine amounts to: when a root is stable, when a transaction
  recovers or replays, when an artifact is available; and that the engine is monotone in the set of
  requirements it may rely on. The last section states the loop of the result replay prover over
  these facts.
\<close>

section \<open>Judgments as conditions\<close>

abbreviation proved :: "'a + 'b \<Rightarrow> bool" where
  "proved j \<equiv> \<not> isl j"

fun result_stable :: "result_replay \<Rightarrow> bool" where
  "result_stable (ResultStable _ _) = True"
| "result_stable (ResultUnstable _ _) = False"

definition art_ok :: "path_context \<Rightarrow> id \<Rightarrow> bool" where
  "art_ok ctx x \<longleftrightarrow> (case bm_get (px_artifacts ctx) x of Some a \<Rightarrow> is_available a | None \<Rightarrow> False)"

definition res_ok :: "path_context \<Rightarrow> id \<Rightarrow> result_arm \<Rightarrow> bool" where
  "res_ok ctx r a \<longleftrightarrow>
     (case bm_get (px_results ctx) r of Some b \<Rightarrow> result_stable (bound_arm b a) | None \<Rightarrow> False)"

definition root_ok :: "replay_analysis \<Rightarrow> path_context \<Rightarrow> value_ref \<Rightarrow> bool" where
  "root_ok an ctx r \<longleftrightarrow>
     (case vr_source r of
        VsInput i \<Rightarrow> i = ra_input an
          \<and> (pinned_by_key (ra_model an) (ra_key an) (ra_schemas an) (vr_path r) \<or> payload_identified an)
      | VsTransactionOutput x \<Rightarrow> art_ok ctx x
      | VsEffectResultOk b \<Rightarrow> res_ok ctx b ArmResOk
      | VsEffectResultErr b \<Rightarrow> res_ok ctx b (error_arm_in_scope ctx b)
      | _ \<Rightarrow> False)"

definition roots_ok :: "replay_analysis \<Rightarrow> path_context \<Rightarrow> value_ref list \<Rightarrow> bool" where
  "roots_ok an ctx rs \<longleftrightarrow> list_all (root_ok an ctx) rs"

fun derivation_ok :: "replay_analysis \<Rightarrow> path_context \<Rightarrow> derivation \<Rightarrow> bool" where
  "derivation_ok an ctx DUnspecified = False"
| "derivation_ok an ctx (Deterministic from) = roots_ok an ctx from"

lemma artifact_rule_ok: "proved (artifact_rule x a) \<longleftrightarrow> (case a of Some r \<Rightarrow> is_available r | None \<Rightarrow> False)"
  by (cases "(x, a)" rule: artifact_rule.cases) auto

lemma rule_of_result_ok: "proved (rule_of_result r a j) \<longleftrightarrow> result_stable j"
  by (cases "(r, a, j)" rule: rule_of_result.cases) auto

lemma result_rule_ok: "proved (result_rule ctx r a) \<longleftrightarrow> res_ok ctx r a"
  by (auto simp: result_rule_def res_ok_def rule_of_result_ok split: option.split)

lemma root_rule_ok: "proved (root_rule an ctx r) \<longleftrightarrow> root_ok an ctx r"
  by (auto simp: root_rule_def root_ok_def art_ok_def artifact_rule_ok result_rule_ok payload_identified_def
      split: value_source.split option.split)

lemma root_stability_ok: "proved (root_stability an ctx r) \<longleftrightarrow> root_ok an ctx r"
  using root_rule_ok [of an ctx r] by (auto simp: root_stability_def split: sum.split)

lemma roots_stability_ok: "snd (roots_stability an ctx rs) = [] \<longleftrightarrow> roots_ok an ctx rs"
proof (induction rs)
  case (Cons r rs)
  show ?case using Cons root_stability_ok [of an ctx r]
    by (auto simp: roots_ok_def split: prod.split sum.split)
qed (simp add: roots_ok_def)

lemma roots_stability_case:
  "(case roots_stability an ctx rs of (sts, uns) \<Rightarrow> if uns = [] then f sts else g uns)
     = (if roots_ok an ctx rs then f (fst (roots_stability an ctx rs)) else g (snd (roots_stability an ctx rs)))"
  by (simp add: roots_stability_ok [symmetric] split: prod.split)

lemma direct_instance_ok: "proved (direct_instance an ctx d) \<longleftrightarrow> derivation_ok an ctx d"
  by (cases d) (simp_all add: direct_instance_def roots_stability_case)

lemma intent_instance_ok: "proved (intent_instance ctx i) \<longleftrightarrow> art_ok ctx i"
  by (auto simp: intent_instance_def art_ok_def split: option.split artifact_replay.split)

section \<open>Results\<close>

fun terminal_arm :: "result_type \<Rightarrow> result_arm \<Rightarrow> bool" where
  "terminal_arm result ArmResOk = True"
| "terminal_arm result (ArmResErr c) \<longleftrightarrow>
     (case result_error result c of Some d \<Rightarrow> er_disposition d = EdTerminal | None \<Rightarrow> False)"

fun held_arm :: "result_type \<Rightarrow> result_arm \<Rightarrow> bool" where
  "held_arm result ArmResOk = True"
| "held_arm result (ArmResErr c) \<longleftrightarrow>
     (case result_error result c of Some d \<Rightarrow> er_disposition d \<noteq> EdRetryable | None \<Rightarrow> True)"

definition external_ok :: "replay_analysis \<Rightarrow> path_context \<Rightarrow> external_effect \<Rightarrow> result_arm \<Rightarrow> bool" where
  "external_ok an ctx x a \<longleftrightarrow>
     (case (xe_result x, xe_identity x) of
        (Some result, XiKeyed key) \<Rightarrow>
          xe_result_replay x = XrReplayStable \<and> roots_ok an ctx key \<and> terminal_arm result a
      | _ \<Rightarrow> False)"

definition answer_ok :: "replay_analysis \<Rightarrow> request_effect \<Rightarrow> instance_judgment \<Rightarrow> result_arm \<Rightarrow> bool" where
  "answer_ok an q inst a \<longleftrightarrow>
     proved inst
     \<and> (case request_target_input (ra_model an) q of
          Some (d, declared) \<Rightarrow>
            ri_schema declared = re_schema q
            \<and> returns_consistently d (rq_input (re_target q)) \<noteq> None
            \<and> (rq_operation (re_target q), rq_input (re_target q)) \<in> ra_consistent an
            \<and> held_arm (ri_result declared) a
        | None \<Rightarrow> False)"

lemma bound_arm_both [simp]: "bound_arm (both j) a = j"
  by (cases a) (auto simp: both_def)

lemma bm_get_map_errors: "bm_get (map (\<lambda>(c, d). (c, f c d)) es) c = map_option (f c) (bm_get es c)"
  by (induction es) auto

lemma external_arm_ok: "result_stable (bound_arm (external_replay an ctx e x) a) \<longleftrightarrow> external_ok an ctx x a"
proof (cases "xe_result x")
  case None
  then show ?thesis by (simp add: external_replay_def external_ok_def)
next
  case (Some result)
  show ?thesis
  proof (cases "xe_identity x")
    case XiUnspecified
    then show ?thesis using Some by (simp add: external_replay_def external_ok_def)
  next
    case (XiKeyed key)
    obtain ss us where s: "roots_stability an ctx key = (ss, us)" by fastforce
    have us: "us = [] \<longleftrightarrow> roots_ok an ctx key" using roots_stability_ok [of an ctx key] s by simp
    show ?thesis
    proof (cases "us = [] \<and> xe_result_replay x = XrReplayStable")
      case False
      then show ?thesis using Some XiKeyed s us by (auto simp: external_replay_def external_ok_def)
    next
      case True
      then show ?thesis using Some XiKeyed s us
        by (cases a) (auto simp: external_replay_def external_ok_def bm_get_map_errors get_or_def
            result_error_def split: option.split error_disposition.split)
    qed
  qed
qed

lemma request_arm_ok: "result_stable (bound_arm (request_result_replay an e q inst) a) \<longleftrightarrow> answer_ok an q inst a"
proof (cases inst)
  case (Inl g)
  then show ?thesis by (simp add: request_result_replay_def answer_ok_def)
next
  case (Inr st)
  show ?thesis
  proof (cases "request_target_input (ra_model an) q")
    case None
    then show ?thesis using Inr by (simp add: request_result_replay_def answer_ok_def)
  next
    case (Some dd)
    obtain d declared where dd: "dd = (d, declared)" by fastforce
    show ?thesis
    proof (cases "ri_schema declared = re_schema q
        \<and> returns_consistently d (rq_input (re_target q)) \<noteq> None
        \<and> (rq_operation (re_target q), rq_input (re_target q)) \<in> ra_consistent an")
      case False
      then show ?thesis
        using Inr Some dd
        by (auto simp: request_result_replay_def answer_ok_def Let_def split: option.split)
    next
      case True
      then show ?thesis
        using Inr Some dd
        by (cases a) (auto simp: request_result_replay_def answer_ok_def Let_def bm_get_map_errors get_or_def
            result_error_def split: option.split)
    qed
  qed
qed

section \<open>Routes\<close>

definition recovery_ok :: "replay_analysis \<Rightarrow> path_context \<Rightarrow> transaction \<Rightarrow> bool" where
  "recovery_ok an ctx t \<longleftrightarrow>
     (case tx_idempotency t of IgDeduplicatedBy key \<Rightarrow> roots_ok an ctx (ik_components key) | _ \<Rightarrow> False)"

fun natural_step_ok :: "replay_analysis \<Rightarrow> path_context \<Rightarrow> tx_step \<Rightarrow> bool" where
  "natural_step_ok an ctx (TsUpdate s) \<longleftrightarrow>
     \<not> object_versioned (ra_model an) (os_object (up_target s))
     \<and> roots_ok an ctx (predicate_roots (os_predicate (up_target s)))
     \<and> derivation_ok an ctx (up_values s)"
| "natural_step_ok an ctx (TsFence s) \<longleftrightarrow>
     fe_compare s = [] \<and> \<not> object_versioned (ra_model an) (os_object (fe_target s))"
| "natural_step_ok an ctx (TsRead s) = True"
| "natural_step_ok an ctx (TsLock s) = True"
| "natural_step_ok an ctx (TsEstablishEffectIntent s) = True"
| "natural_step_ok an ctx (TsEstablishTransactionOutput s) = True"
| "natural_step_ok an ctx (TsWriteOutbox s) = True"
| "natural_step_ok an ctx _ = False"

lemma recovery_gaps_ok: "snd (recovery_gaps an ctx rs) = [] \<longleftrightarrow> roots_ok an ctx rs"
proof (induction rs)
  case (Cons r rs)
  show ?case using Cons root_stability_ok [of an ctx r]
    by (auto simp: roots_ok_def split: prod.split sum.split)
qed (simp add: roots_ok_def)

lemma recovery_route_ok: "proved (recovery_route an ctx t) \<longleftrightarrow> recovery_ok an ctx t"
  by (auto simp: recovery_route_def recovery_ok_def recovery_gaps_ok [symmetric]
      split: idempotency_guarantee.split prod.split)

lemma add_gap_snd: "snd (add_gap g st) \<noteq> []"
  by (auto simp: add_gap_def push_new_def)

lemma add_root_snd: "snd (add_root an ctx u r st) = [] \<longleftrightarrow> snd st = [] \<and> root_ok an ctx r"
  using root_stability_ok [of an ctx r] by (auto simp: add_root_def add_gap_snd split: sum.split)

lemma fold_add_root_snd:
  "snd (fold (add_root an ctx u) rs st) = [] \<longleftrightarrow> snd st = [] \<and> roots_ok an ctx rs"
  by (induction rs arbitrary: st) (auto simp: add_root_snd roots_ok_def)

lemma publishes_version_snd:
  "snd (publishes_version an ob st) = [] \<longleftrightarrow> snd st = [] \<and> \<not> object_versioned (ra_model an) ob"
  by (simp add: publishes_version_def add_gap_snd)

lemma natural_step_snd: "snd (natural_step an ctx s st) = [] \<longleftrightarrow> snd st = [] \<and> natural_step_ok an ctx s"
  by (cases s)
     (auto simp: add_gap_snd publishes_version_snd fold_add_root_snd Let_def split: derivation.split)

lemma fold_natural_snd:
  "snd (fold (natural_step an ctx) ss st) = [] \<longleftrightarrow> snd st = [] \<and> list_all (natural_step_ok an ctx) ss"
  by (induction ss arbitrary: st) (auto simp: natural_step_snd)

definition natural_ok :: "replay_analysis \<Rightarrow> path_context \<Rightarrow> transaction \<Rightarrow> bool" where
  "natural_ok an ctx t \<longleftrightarrow> list_all (natural_step_ok an ctx) (tx_steps t)"

lemma natural_route_ok: "proved (natural_route an ctx t) \<longleftrightarrow> natural_ok an ctx t"
  using fold_natural_snd [of an ctx "tx_steps t" "([], [])"]
  by (auto simp: natural_route_def natural_ok_def split: prod.split)

lemma derivation_replay_ok: "snd (derivation_replay an ctx d) = [] \<longleftrightarrow> derivation_ok an ctx d"
  by (cases d) (auto simp: roots_stability_ok [symmetric] split: prod.split)

lemma gaps_of_Nil: "(\<And>gs. j = Inl gs \<Longrightarrow> gs \<noteq> []) \<Longrightarrow> gaps_of j = [] \<longleftrightarrow> proved j"
  by (cases j) (auto simp: gaps_of_def)

lemma natural_route_gaps: "natural_route an ctx t = Inl gs \<Longrightarrow> gs \<noteq> []"
  by (auto simp: natural_route_def split: prod.splits if_splits)

lemma artifact_replay_ok:
  assumes "\<And>gs. natural = Inl gs \<Longrightarrow> gs \<noteq> []"
  shows "is_available (artifact_replay_of an t recovery natural d ctx)
           \<longleftrightarrow> proved recovery \<or> (proved natural \<and> derivation_ok an ctx d)"
  using gaps_of_Nil [OF assms] derivation_replay_ok [of an ctx d]
  by (auto simp: artifact_replay_of_def Let_def split: sum.split prod.split)

section \<open>Bindings\<close>

lemma art_ok_bind: "art_ok (bind_artifact x a ctx) y \<longleftrightarrow> (if y = x then is_available a else art_ok ctx y)"
  by (simp add: art_ok_def bind_artifact_def)

lemma art_ok_other [simp]:
  "art_ok (bind_result b r ctx) y = art_ok ctx y" "art_ok (bind_handle h l ctx) y = art_ok ctx y"
  "art_ok (select_arm d ctx) y = art_ok ctx y"
  by (simp_all add: art_ok_def bind_result_def bind_handle_def select_arm_def split: decision.split)

lemma res_ok_bind:
  "res_ok (bind_result b j ctx) r a \<longleftrightarrow> (if r = b then result_stable (bound_arm j a) else res_ok ctx r a)"
  by (simp add: res_ok_def bind_result_def)

lemma res_ok_other [simp]:
  "res_ok (bind_artifact x j ctx) r a = res_ok ctx r a" "res_ok (bind_handle h l ctx) r a = res_ok ctx r a"
  "res_ok (select_arm d ctx) r a = res_ok ctx r a"
  by (simp_all add: res_ok_def bind_artifact_def bind_handle_def select_arm_def split: decision.split)

lemma handles_other [simp]:
  "px_handles (bind_artifact x j ctx) = px_handles ctx" "px_handles (bind_result b k ctx) = px_handles ctx"
  "px_handles (select_arm d ctx) = px_handles ctx"
  "px_handles (bind_handle h l ctx) = bm_insert h l (px_handles ctx)"
  by (simp_all add: bind_artifact_def bind_result_def select_arm_def bind_handle_def split: decision.split)

lemma selected_other [simp]:
  "px_selected (bind_artifact x j ctx) = px_selected ctx" "px_selected (bind_result b k ctx) = px_selected ctx"
  "px_selected (bind_handle h l ctx) = px_selected ctx"
  by (simp_all add: bind_artifact_def bind_result_def bind_handle_def)

section \<open>Decisions\<close>

definition commit_ok :: "(id, route) bmap \<Rightarrow> id \<Rightarrow> bool" where
  "commit_ok commits t \<longleftrightarrow> (case bm_get commits t of Some r \<Rightarrow> proved r | None \<Rightarrow> False)"

fun decision_ok :: "replay_analysis \<Rightarrow> path_context \<Rightarrow> (id, route) bmap \<Rightarrow> decision \<Rightarrow> bool" where
  "decision_ok an ctx commits (DcMatch r a) = res_ok ctx r a"
| "decision_ok an ctx commits (DcTransaction t out) \<longleftrightarrow> out = ToCommitted \<and> commit_ok commits t"
| "decision_ok an ctx commits (DcBranch c a) \<longleftrightarrow> is_deterministic c \<and> roots_ok an ctx (condition_roots c)"

lemma decision_replay_ok: "proved (decision_replay_of an ctx commits d) \<longleftrightarrow> decision_ok an ctx commits d"
proof (cases d)
  case (DcMatch r a)
  then show ?thesis by (auto simp: match_replay_def res_ok_def split: option.split result_replay.split)
next
  case (DcBranch c a)
  then show ?thesis by (simp add: branch_replay_def roots_stability_case)
next
  case (DcTransaction t out)
  then show ?thesis by (cases out) (auto simp: commit_ok_def split: option.split sum.split)
qed

fun step_replays :: "traced_step \<Rightarrow> bool" where
  "step_replays (TrDecision loc taken j) = proved j"
| "step_replays _ = True"

lemma unstable_in_Nil:
  "List.map_filter (\<lambda>s. case s of TrDecision loc taken (Inl gap) \<Rightarrow> Some (taken, gap) | _ \<Rightarrow> None) ss = []
     \<longleftrightarrow> list_all step_replays ss"
  by (induction ss) (auto split: traced_step.split sum.split)

lemma unstable_decisions_Nil: "unstable_decisions tr = [] \<longleftrightarrow> list_all step_replays (pt_steps tr)"
  by (simp add: unstable_decisions_def unstable_in_Nil)

end
