(* ===== verification/Replay_Monotone.thy ===== *)
theory Replay_Monotone
  imports Replay_Facts
begin

text \<open>
  The engine is monotone in the requirements it may rely on: with more of them, every root,
  artifact, result and decision that replayed still replays. Hence more assumptions prove more
  result requirements, which is what the loop of the prover needs to end in a fixpoint.
\<close>

definition relying_on :: "(id \<times> id) set \<Rightarrow> replay_analysis \<Rightarrow> replay_analysis" where
  "relying_on S an = an\<lparr>ra_consistent := S\<rparr>"

lemma relying_on_simps [simp]:
  "ra_model (relying_on S an) = ra_model an" "ra_operation (relying_on S an) = ra_operation an"
  "ra_input (relying_on S an) = ra_input an" "ra_key (relying_on S an) = ra_key an"
  "ra_schemas (relying_on S an) = ra_schemas an" "ra_payload (relying_on S an) = ra_payload an"
  "ra_intents (relying_on S an) = ra_intents an" "ra_consistent (relying_on S an) = S"
  by (simp_all add: relying_on_def)

lemma relying_twice [simp]: "relying_on T (relying_on S an) = relying_on T an"
  by (simp add: relying_on_def)

lemma new_analysis_relying:
  "new_analysis m d key S = (case new_analysis m d key {} of Inl g \<Rightarrow> Inl g | Inr an \<Rightarrow> Inr (relying_on S an))"
  by (auto simp: new_analysis_def relying_on_def split: sum.split option.split)

section \<open>The order on contexts\<close>

definition bound_le :: "bound_result \<Rightarrow> bound_result \<Rightarrow> bool" where
  "bound_le b c \<longleftrightarrow> (\<forall>a. result_stable (bound_arm b a) \<longrightarrow> result_stable (bound_arm c a))"

fun launch_le :: "async_launch option \<Rightarrow> async_launch option \<Rightarrow> bool" where
  "launch_le None None = True"
| "launch_le (Some l) (Some k) \<longleftrightarrow> al_effect l = al_effect k \<and> bound_le (al_result l) (al_result k)"
| "launch_le _ _ = False"

definition ctx_le :: "path_context \<Rightarrow> path_context \<Rightarrow> bool" where
  "ctx_le c d \<longleftrightarrow>
     (\<forall>x. art_ok c x \<longrightarrow> art_ok d x) \<and> (\<forall>r a. res_ok c r a \<longrightarrow> res_ok d r a)
     \<and> (\<forall>h. launch_le (bm_get (px_handles c) h) (bm_get (px_handles d) h))
     \<and> px_selected c = px_selected d"

lemma ctx_leD:
  assumes "ctx_le c d"
  shows "art_ok c x \<Longrightarrow> art_ok d x" "res_ok c r a \<Longrightarrow> res_ok d r a"
    "launch_le (bm_get (px_handles c) h) (bm_get (px_handles d) h)" "px_selected c = px_selected d"
  using assms by (auto simp: ctx_le_def)

lemma bound_le_refl: "bound_le b b"
  by (simp add: bound_le_def)

lemma launch_le_refl: "launch_le l l"
  by (cases l) (auto simp: bound_le_refl)

section \<open>Judgments\<close>

lemma root_ok_mono: "ctx_le c d \<Longrightarrow> root_ok an c r \<Longrightarrow> root_ok (relying_on T an) d r"
  by (auto simp: root_ok_def payload_identified_def error_arm_in_scope_def ctx_leD split: value_source.splits)

lemma roots_ok_mono: "ctx_le c d \<Longrightarrow> roots_ok an c rs \<Longrightarrow> roots_ok (relying_on T an) d rs"
  by (auto simp: roots_ok_def list_all_iff root_ok_mono)

lemma derivation_ok_mono: "ctx_le c d \<Longrightarrow> derivation_ok an c v \<Longrightarrow> derivation_ok (relying_on T an) d v"
  by (cases v) (auto simp: roots_ok_mono)

lemma natural_step_ok_mono:
  "ctx_le c d \<Longrightarrow> natural_step_ok an c s \<Longrightarrow> natural_step_ok (relying_on T an) d s"
  by (cases s) (auto simp: roots_ok_mono derivation_ok_mono)

lemma routes_mono:
  assumes "ctx_le c d"
  shows "proved (recovery_route an c t) \<Longrightarrow> proved (recovery_route (relying_on T an) d t)"
    "proved (natural_route an c t) \<Longrightarrow> proved (natural_route (relying_on T an) d t)"
  using assms unfolding recovery_route_ok natural_route_ok
  by (auto simp: recovery_ok_def natural_ok_def list_all_iff roots_ok_mono natural_step_ok_mono
      split: idempotency_guarantee.splits)

lemma result_replay_mono:
  assumes "ctx_le c d" "S \<subseteq> T" "proved i \<Longrightarrow> proved j"
  shows "bound_le (result_replay_of (relying_on S an) c e contract i)
           (result_replay_of (relying_on T an) d e contract j)"
proof -
  have "external_ok (relying_on S an) c x a \<Longrightarrow> external_ok (relying_on T an) d x a" for x a
    using roots_ok_mono [OF assms(1), of "relying_on S an" _ T]
    by (auto simp: external_ok_def relying_on_def split: option.splits external_identity.splits)
  moreover have "answer_ok (relying_on S an) q i a \<Longrightarrow> answer_ok (relying_on T an) q j a" for q a
    using assms(2,3) by (auto simp: answer_ok_def split: option.splits prod.splits)
  ultimately show ?thesis
    by (auto simp: result_replay_of_def bound_le_def external_arm_ok request_arm_ok
        split: option.split effect_contract.split)
qed

section \<open>Bindings and transactions\<close>

lemma bind_artifact_mono:
  "ctx_le c d \<Longrightarrow> (is_available a \<Longrightarrow> is_available b) \<Longrightarrow> ctx_le (bind_artifact x a c) (bind_artifact x b d)"
  unfolding ctx_le_def by (auto simp: art_ok_bind)

lemma bind_result_mono: "ctx_le c d \<Longrightarrow> bound_le j k \<Longrightarrow> ctx_le (bind_result b j c) (bind_result b k d)"
  unfolding ctx_le_def bound_le_def by (auto simp: res_ok_bind)

lemma bind_handle_mono:
  "ctx_le c d \<Longrightarrow> al_effect l = al_effect k \<Longrightarrow> bound_le (al_result l) (al_result k) \<Longrightarrow>
     ctx_le (bind_handle h l c) (bind_handle h k d)"
  unfolding ctx_le_def by auto

lemma select_arm_mono: "ctx_le c d \<Longrightarrow> ctx_le (select_arm x c) (select_arm x d)"
  unfolding ctx_le_def by (auto, auto simp: select_arm_def split: decision.split)

definition proper :: "route \<Rightarrow> bool" where
  "proper r \<longleftrightarrow> (\<forall>gs. r = Inl gs \<longrightarrow> gs \<noteq> [])"

lemma natural_route_proper: "proper (natural_route an ctx t)"
  by (auto simp: proper_def dest: natural_route_gaps)

lemma artifact_mono:
  assumes "ctx_le c d" "proper n" "proper n'" "proved r \<Longrightarrow> proved r'" "proved n \<Longrightarrow> proved n'"
  shows "is_available (artifact_replay_of an t r n v c) \<Longrightarrow> is_available (artifact_replay_of (relying_on T an) t r' n' v d)"
  using assms derivation_ok_mono [OF assms(1), of an v T]
  by (auto simp: artifact_replay_ok proper_def)

lemma intents_mono:
  assumes "ctx_le c d" "proper n" "proper n'" "proved r \<Longrightarrow> proved r'" "proved n \<Longrightarrow> proved n'"
  shows "ctx_le (fold (\<lambda>i c. bind_artifact (ti_bind i) (artifact_replay_of an t r n (ti_values i) c) c) is c)
           (fold (\<lambda>i c. bind_artifact (ti_bind i) (artifact_replay_of (relying_on T an) t r' n' (ti_values i) c) c) is d)"
  using assms(1)
proof (induction "is" arbitrary: c d)
  case (Cons i ls)
  then show ?case
    using bind_artifact_mono [OF Cons.prems artifact_mono [OF Cons.prems assms(2-5)]] by simp
qed simp

lemma apply_tx_step_mono:
  assumes "ctx_le c d" "proper n" "proper n'" "proved r \<Longrightarrow> proved r'" "proved n \<Longrightarrow> proved n'"
  shows "ctx_le (fst (apply_tx_step an t r n s (c, ws))) (fst (apply_tx_step (relying_on T an) t r' n' s (d, vs)))"
  using assms(1) intents_mono [OF assms] bind_artifact_mono [OF assms(1) artifact_mono [OF assms]]
  by (cases s) (simp_all add: Let_def)

lemma apply_tx_steps_mono:
  assumes "ctx_le c d" "proper n" "proper n'" "proved r \<Longrightarrow> proved r'" "proved n \<Longrightarrow> proved n'"
  shows "ctx_le (fst (fold (apply_tx_step an t r n) ss (c, ws)))
           (fst (fold (apply_tx_step (relying_on T an) t r' n') ss (d, vs)))"
  using assms(1)
proof (induction ss arbitrary: c d ws vs)
  case (Cons s ss)
  obtain c' ws' where c: "apply_tx_step an t r n s (c, ws) = (c', ws')" by fastforce
  obtain d' vs' where d: "apply_tx_step (relying_on T an) t r' n' s (d, vs) = (d', vs')" by fastforce
  show ?case using Cons.IH [of c' d' ws' vs'] c d
      apply_tx_step_mono [where an = an and t = t and s = s and T = T and ws = ws and vs = vs
          and r = r and r' = r' and n = n and n' = n',
        OF Cons.prems assms(2-5)]
    by simp
qed simp

lemma apply_transaction_mono:
  assumes "ctx_le c d"
  shows "ctx_le (fst (apply_transaction an c t)) (fst (apply_transaction (relying_on T an) d t))"
  using apply_tx_steps_mono [OF assms natural_route_proper natural_route_proper routes_mono [OF assms]]
  by (simp add: apply_transaction_def Let_def case_prod_unfold)

lemma apply_transaction_routes:
  "apply_transaction an c t = (c', r, n, ws) \<Longrightarrow> r = recovery_route an c t \<and> n = natural_route an c t"
  by (auto simp: apply_transaction_def Let_def split: prod.splits)

section \<open>Traces\<close>

definition state_le :: "trace_state \<Rightarrow> trace_state \<Rightarrow> bool" where
  "state_le s t \<longleftrightarrow>
     ctx_le (ts_context s) (ts_context t)
     \<and> (\<forall>x. commit_ok (ts_commits s) x \<longrightarrow> commit_ok (ts_commits t) x)
     \<and> (list_all step_replays (ts_steps s) \<longrightarrow> list_all step_replays (ts_steps t))"

lemma state_leD: "state_le s t \<Longrightarrow> ctx_le (ts_context s) (ts_context t)"
  by (simp add: state_le_def)

lemma push_effect_mono:
  assumes "state_le s t" "S \<subseteq> T" "proved i \<Longrightarrow> proved j"
  shows "state_le (push_effect (relying_on S an) loc site c i b s) (push_effect (relying_on T an) loc site c j b t)"
  using assms bind_result_mono [OF state_leD [OF assms(1)] result_replay_mono [OF state_leD [OF assms(1)] assms(2,3)]]
  by (cases b) (auto simp: push_effect_def state_le_def Let_def)

lemma launch_effect_mono:
  assumes "state_le s t" "S \<subseteq> T" "proved i \<Longrightarrow> proved j"
  shows "state_le (launch_effect (relying_on S an) loc site c i h s) (launch_effect (relying_on T an) loc site c j h t)"
proof -
  have "state_le (push_effect (relying_on S an) loc site (Some c) i None s)
      (push_effect (relying_on T an) loc site (Some c) j None t)"
    by (rule push_effect_mono [OF assms])
  then show ?thesis
    using result_replay_mono [where an = an and e = "site_effect site" and contract = "Some c" and i = i and j = j,
        OF state_leD [OF assms(1)] assms(2,3)]
    by (auto simp: launch_effect_def state_le_def Let_def intro!: bind_handle_mono)
qed

lemma join_one_mono: "ctx_le c d \<Longrightarrow> ctx_le (join_one j c) (join_one j d)"
proof -
  assume le: "ctx_le c d"
  show ?thesis
    using le ctx_leD(3) [OF le, of "aj_handle j"]
    by (cases "aj_bind j"; cases "bm_get (px_handles c) (aj_handle j)"; cases "bm_get (px_handles d) (aj_handle j)")
       (auto simp: join_one_def intro: bind_result_mono)
qed

lemma join_all_mono: "ctx_le c d \<Longrightarrow> ctx_le (fold join_one js c) (fold join_one js d)"
  by (induction js arbitrary: c d) (auto simp: join_one_mono)

lemma commit_ok_insert: "commit_ok (bm_insert t r cs) x \<longleftrightarrow> (if x = t then proved r else commit_ok cs x)"
  by (simp add: commit_ok_def)

lemma decision_ok_mono:
  "ctx_le c d \<Longrightarrow> (\<And>x. commit_ok cs x \<Longrightarrow> commit_ok ds x) \<Longrightarrow> decision_ok an c cs x \<Longrightarrow>
     decision_ok (relying_on T an) d ds x"
  by (cases x) (auto simp: ctx_leD roots_ok_mono)

lemma list_all_write_steps: "list_all step_replays (map (write_step loc t) ws)"
  by (induction ws) (auto simp: write_step_def)

lemma trace_step_mono:
  assumes "state_le s t" "S \<subseteq> T"
  shows "state_le (trace_step (relying_on S an) p s) (trace_step (relying_on T an) p t)"
proof -
  have le: "ctx_le (ts_context s) (ts_context t)" using assms(1) by (rule state_leD)
  have T: "relying_on T (relying_on S an) = relying_on T an" by (simp add: relying_on_def)
  have direct: "proved (direct_instance (relying_on S an) (ts_context s) v) \<Longrightarrow>
      proved (direct_instance (relying_on T an) (ts_context t) v)" for v
    using derivation_ok_mono [OF le, of "relying_on S an" v T] T by (simp add: direct_instance_ok)
  have intent: "proved (intent_instance (ts_context s) v) \<Longrightarrow> proved (intent_instance (ts_context t) v)" for v
    using ctx_leD(1) [OF le] by (simp add: intent_instance_ok)
  show ?thesis
  proof (cases p)
    case (PsTransaction loc x)
    obtain c' r n ws where a: "apply_transaction (relying_on S an) (ts_context s) x = (c', r, n, ws)" by (metis prod_cases4)
    obtain d' r' n' vs where b: "apply_transaction (relying_on T an) (ts_context t) x = (d', r', n', vs)" by (metis prod_cases4)
    have "ctx_le c' d'" using apply_transaction_mono [OF le, of "relying_on S an" x T] a b T by simp
    moreover have "proved r \<Longrightarrow> proved r'"
      using routes_mono(1) [OF le, of "relying_on S an" x T] apply_transaction_routes [OF a]
        apply_transaction_routes [OF b] T by simp
    ultimately show ?thesis
      using assms(1) a b by (auto simp: PsTransaction state_le_def commit_ok_insert list_all_write_steps)
  next
    case (PsDecision loc x)
    have "decision_ok (relying_on S an) (ts_context s) (ts_commits s) x \<Longrightarrow>
        decision_ok (relying_on T an) (ts_context t) (ts_commits t) x"
      using decision_ok_mono [OF le, of "ts_commits s" "ts_commits t" "relying_on S an" x T] T assms(1)
      by (auto simp: state_le_def)
    then show ?thesis
      using assms(1) by (auto simp: PsDecision state_le_def select_arm_mono decision_replay_ok)
  next
    case (PsRace loc x)
    have "ctx_le (bind_result b (race_result (ts_context s) hs b) (ts_context s))
        (bind_result b (race_result (ts_context t) hs b) (ts_context t))" for b hs
      by (rule bind_result_mono [OF le]) (auto simp: race_result_def Let_def bound_le_def)
    then show ?thesis using assms(1) by (auto simp: PsRace state_le_def split: option.split)
  next
    case (PsJoinAll loc js)
    then show ?thesis using assms(1) by (auto simp: state_le_def join_all_mono)
  next
    case (PsExecuteEffect loc x)
    then show ?thesis using push_effect_mono [OF assms direct] by simp
  next
    case (PsExecuteEffectIntent loc x)
    then show ?thesis using assms(1) push_effect_mono [OF assms intent] by (auto split: option.split)
  next
    case (PsExecuteEffectAsync loc x)
    then show ?thesis using launch_effect_mono [OF assms direct] by simp
  next
    case (PsExecuteEffectIntentAsync loc x)
    then show ?thesis using assms(1) launch_effect_mono [OF assms intent] by (auto split: option.split)
  qed
qed

lemma state_le_refl: "state_le s s"
  by (auto simp: state_le_def ctx_le_def launch_le_refl)

lemma trace_steps_mono:
  "S \<subseteq> T \<Longrightarrow> state_le s t \<Longrightarrow>
     state_le (fold (trace_step (relying_on S an)) ps s) (fold (trace_step (relying_on T an)) ps t)"
  by (induction ps arbitrary: s t) (auto simp: trace_step_mono)

end
