(* ===== verification/Replay_Fixpoints.thy ===== *)
theory Replay_Fixpoints
  imports Replay_Monotone
begin

text \<open>
  The loops of the result replay and idempotency provers end: more assumptions prove more, so from
  every declared requirement the loop descends to the greatest set of requirements that proves
  itself. Both provers interpret the locale of the loop.
\<close>

section \<open>Result replay\<close>

fun return_ok :: "replay_analysis \<Rightarrow> result_type option \<Rightarrow> prog_path \<times> result_outcome \<Rightarrow> bool" where
  "return_ok an contract (p, out) \<longleftrightarrow>
     exempt_error contract out \<noteq> None
     \<or> (list_all step_replays (pt_steps (trace an p))
        \<and> derivation_ok an (pt_end (trace an p)) (outcome_values out))"

lemma derivation_judgment_ok: "fst (derivation_judgment an ref ctx d) = [] \<longleftrightarrow> derivation_ok an ctx d"
  by (cases d) (auto simp: derivation_judgment_def roots_stability_ok [symmetric] split: prod.split)

lemma blocked_Nil: "blocked (judge_return an contract po) = [] \<longleftrightarrow> return_ok an contract po"
proof -
  obtain p out where po: "po = (p, out)" by fastforce
  show ?thesis
    using derivation_judgment_ok [of an "path_reference p" "pt_end (trace an p)" "outcome_values out"]
    by (auto simp: po judge_return_def Let_def unstable_decisions_Nil split: option.split prod.split)
qed

lemma verdict_proven: "result_is_proven (result_verdict_of js) \<longleftrightarrow> (\<forall>j \<in> set js. blocked j = [])"
  by (simp add: result_verdict_of_def Let_def result_proven_def)

definition requirement_ok :: "model \<Rightarrow> operation \<Rightarrow> idempotency_key \<Rightarrow> (id \<times> id) set \<Rightarrow> bool" where
  "requirement_ok m d key S \<longleftrightarrow>
     (case new_analysis m d key S of
        Inl defect \<Rightarrow> False
      | Inr an \<Rightarrow> admits_no_attempts an
          \<or> list_all (return_ok an (result_contract d (ra_input an))) (returning_sites d (ra_input an)))"

lemma check_requirement_ok: "result_is_proven (result_check_requirement m d key S) \<longleftrightarrow> requirement_ok m d key S"
  by (auto simp: result_check_requirement_def requirement_ok_def Let_def result_proven_def verdict_proven
      blocked_Nil list_all_iff split: sum.split)

lemma trace_mono:
  assumes "S \<subseteq> T"
  shows "list_all step_replays (pt_steps (trace (relying_on S an) p)) \<Longrightarrow>
      list_all step_replays (pt_steps (trace (relying_on T an) p))"
    "ctx_le (pt_end (trace (relying_on S an) p)) (pt_end (trace (relying_on T an) p))"
  using trace_steps_mono [OF assms state_le_refl, of an "pa_steps p" trace_start]
  by (auto simp: trace_def Let_def state_le_def)

lemma return_ok_mono:
  assumes "S \<subseteq> T"
  shows "return_ok (relying_on S an) contract po \<Longrightarrow> return_ok (relying_on T an) contract po"
proof -
  obtain p out where po: "po = (p, out)" by fastforce
  show "return_ok (relying_on S an) contract po \<Longrightarrow> return_ok (relying_on T an) contract po"
    using trace_mono [OF assms, of an p]
      derivation_ok_mono [OF trace_mono(2) [OF assms, of an p], of "relying_on S an" "outcome_values out" T]
    by (auto simp: po)
qed

lemma sites_mono:
  "S \<subseteq> T \<Longrightarrow> list_all (return_ok (relying_on S an) contract) xs \<Longrightarrow> list_all (return_ok (relying_on T an) contract) xs"
  by (erule list.pred_mono_strong) (rule return_ok_mono)

lemma requirement_ok_mono: "S \<subseteq> T \<Longrightarrow> requirement_ok m d key S \<Longrightarrow> requirement_ok m d key T"
  unfolding requirement_ok_def new_analysis_relying [of m d key S] new_analysis_relying [of m d key T]
  by (cases "new_analysis m d key {}")
     (auto simp: admits_no_attempts_def simp del: return_ok.simps intro: sites_mono)

text \<open>The requirements a run proves, as a set.\<close>

definition declared_result :: "model \<Rightarrow> id \<Rightarrow> id \<Rightarrow> operation \<Rightarrow> idempotency_requirement \<Rightarrow> bool" where
  "declared_result m opn i d r \<longleftrightarrow>
     (opn, d) \<in> set (md_operations m) \<and> r \<in> set (oq_idempotency (op_requirements d))
     \<and> ir_result r = RrReplayConsistent \<and> key_input (ir_key r) = Some i"

lemma set_enumerate_from: "(\<exists>k. (k, x) \<in> set (enumerate n xs)) \<longleftrightarrow> x \<in> set xs"
  by (induction xs arbitrary: n) auto

lemma consistent_set_run:
  "(opn, i) \<in> consistent_set (result_run m S) \<longleftrightarrow>
     (\<exists>d r. declared_result m opn i d r \<and> requirement_ok m d (ir_key r) S)"
proof
  assume "(opn, i) \<in> consistent_set (result_run m S)"
  then obtain d k r where "(opn, d) \<in> set (md_operations m)"
      "(k, r) \<in> set (enumerate 0 (oq_idempotency (op_requirements d)))" "ir_result r = RrReplayConsistent"
      "result_is_proven (result_check_requirement m d (ir_key r) S)" "key_input (ir_key r) = Some i"
    by (auto simp: consistent_set_def result_run_def set_map_filter result_pair_def split: if_splits)
  then show "\<exists>d r. declared_result m opn i d r \<and> requirement_ok m d (ir_key r) S"
    using set_enumerate_from [of r 0 "oq_idempotency (op_requirements d)"]
    by (auto simp: declared_result_def check_requirement_ok)
next
  assume "\<exists>d r. declared_result m opn i d r \<and> requirement_ok m d (ir_key r) S"
  then obtain d r where dr: "declared_result m opn i d r" "requirement_ok m d (ir_key r) S" by blast
  then obtain k where k: "(k, r) \<in> set (enumerate 0 (oq_idempotency (op_requirements d)))"
    using set_enumerate_from [of r 0 "oq_idempotency (op_requirements d)"] by (auto simp: declared_result_def)
  let ?c = "\<lparr>rk_operation = opn, rk_requirement = k, rk_key = ir_key r,
      rk_verdict = result_check_requirement m d (ir_key r) S, rk_coinductive = False\<rparr>"
  have "?c \<in> set (result_run m S)"
    using dr k by (force simp: result_run_def set_map_filter declared_result_def)
  moreover have "result_is_proven (rk_verdict ?c)" "result_pair ?c = Some (opn, i)"
    using dr by (simp_all add: check_requirement_ok result_pair_def declared_result_def)
  ultimately show "(opn, i) \<in> consistent_set (result_run m S)"
    by (auto simp: consistent_set_def set_map_filter)
qed

lemma set_declared:
  "y \<in> set (concat (map (\<lambda>(opn, d). List.map_filter (f opn) (g d)) ops)) \<longleftrightarrow>
     (\<exists>opn d r. (opn, d) \<in> set ops \<and> r \<in> set (g d) \<and> f opn r = Some y)"
proof (induction ops)
  case (Cons e ops)
  obtain opn d where "e = (opn, d)" by fastforce
  then show ?case using Cons by (auto simp: set_map_filter)
qed simp

lemma result_every_iff: "(opn, i) \<in> result_every m \<longleftrightarrow> (\<exists>d r. declared_result m opn i d r)"
  unfolding result_every_def set_declared declared_result_def by (auto split: if_splits)

lemma consistent_mono: "S \<subseteq> T \<Longrightarrow> consistent_set (result_run m S) \<subseteq> consistent_set (result_run m T)"
proof (rule subrelI)
  fix opn i assume "S \<subseteq> T" "(opn, i) \<in> consistent_set (result_run m S)"
  then show "(opn, i) \<in> consistent_set (result_run m T)"
    unfolding consistent_set_run using requirement_ok_mono by blast
qed

interpretation results: assumption_loop "result_run m" consistent_set "result_every m" for m
proof
  show "finite (result_every m)" unfolding result_every_def by (rule finite_set)
  show "consistent_set (result_run m S) \<subseteq> result_every m" for S
    by (rule subrelI) (unfold consistent_set_run result_every_iff, blast)
  show "S \<subseteq> T \<Longrightarrow> consistent_set (result_run m S) \<subseteq> consistent_set (result_run m T)" for S T
    by (rule consistent_mono)
qed

lemma mark_coinductive_verdict:
  "rk_verdict (mark_coinductive L c) = rk_verdict c" "result_pair (mark_coinductive L c) = result_pair c"
  by (simp_all add: mark_coinductive_def result_pair_def)

lemma consistent_set_marked: "consistent_set (map (mark_coinductive L) cs) = consistent_set cs"
  by (auto simp: consistent_set_def set_map_filter mark_coinductive_verdict)

section \<open>Idempotency\<close>

definition proving :: "(id \<times> id) set \<Rightarrow> prover_scope \<Rightarrow> prover_scope" where
  "proving S sc = sc\<lparr>sp_proven := S\<rparr>"

lemma proving_simps [simp]:
  "sp_model (proving S sc) = sp_model sc" "sp_graph (proving S sc) = sp_graph sc"
  "sp_consistent (proving S sc) = sp_consistent sc" "sp_proven (proving S sc) = S"
  by (simp_all add: proving_def)

lemma collapse_all_Nil: "fst (collapse_all f cs) = [] \<longleftrightarrow> list_all (\<lambda>c. proved (f c)) cs"
  by (induction cs) (auto split: prod.split sum.split)

lemma message_safety_Nil:
  "fst (message_safety ref site u cl inst safe) = [] \<longleftrightarrow> u = [] \<and> fst cl = [] \<and> proved inst"
  by (auto simp: message_safety_def split: sum.split)

lemma collapse_mono:
  assumes "S \<subseteq> T"
  shows "proved (outbox_collapse (proving S sc) ref e w c) \<Longrightarrow> proved (outbox_collapse (proving T sc) ref e w c)"
    "proved (publication_collapse (proving S sc) k ref e p q) \<Longrightarrow>
       proved (publication_collapse (proving T sc) k ref e p q)"
    "target_obstacle (proving S sc) ref e rq = None \<Longrightarrow> target_obstacle (proving T sc) ref e rq = None"
  using assms
  by (auto simp: outbox_collapse_def publication_collapse_def target_obstacle_def Let_def
      split: if_splits option.splits)

lemma contract_safety_mono:
  assumes "S \<subseteq> T"
  shows "fst (contract_safety (proving S sc) an ctx ref site c inst commits) = [] \<Longrightarrow>
    fst (contract_safety (proving T sc) an ctx ref site c inst commits) = []"
proof (cases c)
  case (EcOutboxWrite w)
  then show "fst (contract_safety (proving S sc) an ctx ref site c inst commits) = [] \<Longrightarrow> ?thesis"
    using collapse_mono(1) [OF assms]
    by (auto simp: outbox_write_safety_def Let_def message_safety_Nil collapse_all_Nil list_all_iff
        split: effect_site.splits option.splits if_splits)
next
  case (EcPublication p)
  then show "fst (contract_safety (proving S sc) an ctx ref site c inst commits) = [] \<Longrightarrow> ?thesis"
    using collapse_mono(2) [OF assms]
    by (auto simp: publication_safety_def Let_def message_safety_Nil collapse_all_Nil list_all_iff split: if_splits)
next
  case (EcRequest q)
  then show "fst (contract_safety (proving S sc) an ctx ref site c inst commits) = [] \<Longrightarrow> ?thesis"
    using collapse_mono(3) [OF assms, of sc ref "site_effect site" q]
    by (auto simp: request_safety_def Let_def split: sum.splits option.splits)
qed simp

definition findings_le :: "safety_findings \<Rightarrow> safety_findings \<Rightarrow> bool" where
  "findings_le f g \<longleftrightarrow> sf_commits f = sf_commits g \<and> (sf_obstacles f = [] \<longrightarrow> sf_obstacles g = [])"

lemma retry_step_mono:
  assumes "S \<subseteq> T" "findings_le f g"
  shows "findings_le (retry_step (proving S sc) an ref inert s f) (retry_step (proving T sc) an ref inert s g)"
proof (cases s)
  case (TrTransaction loc t before recovery natural)
  then show ?thesis using assms(2)
    by (auto simp: retry_step_def retry_transaction_def findings_le_def Let_def split: sum.split)
next
  case (TrEffect loc site contract before inst res)
  show ?thesis
  proof (cases contract)
    case None
    then show ?thesis using assms(2) TrEffect by (simp add: retry_step_def retry_effect_def)
  next
    case (Some c)
    then show ?thesis
      using assms(2) TrEffect contract_safety_mono [OF assms(1), of sc an before ref site c inst "sf_commits g"]
      by (auto simp: retry_step_def retry_effect_def findings_le_def split: prod.split)
  qed
next
  case (TrDecision loc taken j)
  then show ?thesis using assms(2)
    by (auto simp: retry_step_def retry_decision_def findings_le_def Let_def
        split: sum.split decision_taken.split)
qed

lemma retry_steps_mono:
  "S \<subseteq> T \<Longrightarrow> findings_le f g \<Longrightarrow>
     findings_le (fold (retry_step (proving S sc) an ref inert) ss f)
       (fold (retry_step (proving T sc) an ref inert) ss g)"
  by (induction ss arbitrary: f g) (auto simp: retry_step_mono)

lemma retry_path_mono:
  "S \<subseteq> T \<Longrightarrow> proved (retry_path (proving S sc) an p) \<Longrightarrow> proved (retry_path (proving T sc) an p)"
  using retry_steps_mono [of S T safety_start safety_start sc an "path_reference p"
      "inert_decisions (pa_steps p)" "pt_steps (trace an p)"]
  by (auto simp: retry_path_def Let_def findings_le_def split: if_splits)

lemma retry_path_gaps: "retry_path sc an p = Inl obs \<Longrightarrow> obs \<noteq> []"
  by (auto simp: retry_path_def Let_def split: if_splits)

lemma idempotency_verdict_proven:
  assumes "\<And>j obs. j \<in> set js \<Longrightarrow> j = Inl obs \<Longrightarrow> obs \<noteq> []"
  shows "idempotency_is_proven (idempotency_verdict_of js) \<longleftrightarrow> (\<forall>j \<in> set js. proved j)"
proof -
  have "concat (map (\<lambda>j. case j of Inl os \<Rightarrow> os | Inr s \<Rightarrow> []) js) = [] \<longleftrightarrow> (\<forall>j \<in> set js. proved j)"
    using assms by (induction js) (force split: sum.splits)+
  then show ?thesis by (simp add: idempotency_verdict_of_def Let_def idempotency_proven_def)
qed

definition safety_ok :: "prover_scope \<Rightarrow> id \<Rightarrow> operation \<Rightarrow> idempotency_key \<Rightarrow> bool" where
  "safety_ok sc opn d key \<longleftrightarrow>
     (case new_analysis (sp_model sc) d key (sp_consistent sc) of
        Inl defect \<Rightarrow> False
      | Inr an \<Rightarrow> admits_no_attempts an \<or> single_delivery (sp_model sc) opn d an \<noteq> None
          \<or> list_all (\<lambda>p. proved (retry_path sc an p)) (admitted_paths d (ra_input an)))"

lemma idempotency_requirement_ok:
  "idempotency_is_proven (idempotency_check_requirement sc opn d key) \<longleftrightarrow> safety_ok sc opn d key"
proof -
  have "idempotency_is_proven (idempotency_verdict_of (map (retry_path sc an) ps))
      \<longleftrightarrow> list_all (\<lambda>p. proved (retry_path sc an p)) ps" for an ps
    by (subst idempotency_verdict_proven) (auto simp: list_all_iff dest: retry_path_gaps [OF sym])
  then show ?thesis
    by (auto simp: idempotency_check_requirement_def safety_ok_def Let_def idempotency_proven_def
        split: sum.split option.split)
qed

lemma safety_ok_mono: "S \<subseteq> T \<Longrightarrow> safety_ok (proving S sc) opn d key \<Longrightarrow> safety_ok (proving T sc) opn d key"
  by (auto simp: safety_ok_def list_all_iff retry_path_mono split: sum.splits)

definition scope_of :: "model \<Rightarrow> trigger_graph \<Rightarrow> (id \<times> id) set \<Rightarrow> (id \<times> id) set \<Rightarrow> prover_scope" where
  "scope_of m tg consistent S =
     \<lparr>sp_model = m, sp_graph = tg, sp_proven = S, sp_consistent = consistent\<rparr>"

definition declared_key :: "model \<Rightarrow> id \<Rightarrow> id \<Rightarrow> operation \<Rightarrow> idempotency_requirement \<Rightarrow> bool" where
  "declared_key m opn i d r \<longleftrightarrow>
     (opn, d) \<in> set (md_operations m) \<and> r \<in> set (oq_idempotency (op_requirements d))
     \<and> key_input (ir_key r) = Some i"

lemma proven_set_run:
  "(opn, i) \<in> proven_set (idempotency_run m tg consistent S) \<longleftrightarrow>
     (\<exists>d r. declared_key m opn i d r \<and> safety_ok (scope_of m tg consistent S) opn d (ir_key r))"
proof
  assume "(opn, i) \<in> proven_set (idempotency_run m tg consistent S)"
  then obtain d k r where "(opn, d) \<in> set (md_operations m)"
      "(k, r) \<in> set (enumerate 0 (oq_idempotency (op_requirements d)))"
      "idempotency_is_proven (idempotency_check_requirement (scope_of m tg consistent S) opn d (ir_key r))"
      "key_input (ir_key r) = Some i"
    by (auto simp: proven_set_def idempotency_run_def Let_def set_map_filter idempotency_pair_def scope_of_def)
  then show "\<exists>d r. declared_key m opn i d r \<and> safety_ok (scope_of m tg consistent S) opn d (ir_key r)"
    using set_enumerate_from [of r 0 "oq_idempotency (op_requirements d)"]
    by (auto simp: declared_key_def idempotency_requirement_ok)
next
  assume "\<exists>d r. declared_key m opn i d r \<and> safety_ok (scope_of m tg consistent S) opn d (ir_key r)"
  then obtain d r where dr: "declared_key m opn i d r" "safety_ok (scope_of m tg consistent S) opn d (ir_key r)"
    by blast
  then obtain k where k: "(k, r) \<in> set (enumerate 0 (oq_idempotency (op_requirements d)))"
    using set_enumerate_from [of r 0 "oq_idempotency (op_requirements d)"] by (auto simp: declared_key_def)
  let ?sc = "scope_of m tg consistent S"
  let ?c = "\<lparr>ic_operation = opn, ic_requirement = k, ic_key = ir_key r,
      ic_verdict = idempotency_check_requirement ?sc opn d (ir_key r), ic_coinductive = False,
      ic_lineage = key_lineage ?sc d (ir_key r)\<rparr>"
  have "?c \<in> set (idempotency_run m tg consistent S)"
    using dr k by (force simp: idempotency_run_def Let_def declared_key_def scope_of_def)
  moreover have "idempotency_is_proven (ic_verdict ?c)" "idempotency_pair ?c = Some (opn, i)"
    using dr by (simp_all add: idempotency_requirement_ok idempotency_pair_def declared_key_def)
  ultimately show "(opn, i) \<in> proven_set (idempotency_run m tg consistent S)"
    by (auto simp: proven_set_def set_map_filter)
qed

lemma idempotency_every_iff: "(opn, i) \<in> idempotency_every m \<longleftrightarrow> (\<exists>d r. declared_key m opn i d r)"
  unfolding idempotency_every_def set_declared declared_key_def by auto

lemma proving_scope_of: "proving T (scope_of m tg consistent S) = scope_of m tg consistent T"
  by (simp add: proving_def scope_of_def)

lemma proven_mono:
  "S \<subseteq> T \<Longrightarrow> proven_set (idempotency_run m tg consistent S) \<subseteq> proven_set (idempotency_run m tg consistent T)"
proof (rule subrelI)
  fix opn i assume S: "S \<subseteq> T" "(opn, i) \<in> proven_set (idempotency_run m tg consistent S)"
  have "safety_ok (scope_of m tg consistent S) opn d key \<Longrightarrow> safety_ok (scope_of m tg consistent T) opn d key"
    for d key
    using safety_ok_mono [OF S(1), of "scope_of m tg consistent S" opn d key] by (simp add: proving_scope_of)
  then show "(opn, i) \<in> proven_set (idempotency_run m tg consistent T)"
    using S(2) unfolding proven_set_run by blast
qed

interpretation safeties: assumption_loop "idempotency_run m tg consistent" proven_set "idempotency_every m"
  for m tg consistent
proof
  show "finite (idempotency_every m)" unfolding idempotency_every_def by (rule finite_set)
  show "proven_set (idempotency_run m tg consistent S) \<subseteq> idempotency_every m" for S
    by (rule subrelI) (unfold proven_set_run idempotency_every_iff, blast)
  show "S \<subseteq> T \<Longrightarrow> proven_set (idempotency_run m tg consistent S)
      \<subseteq> proven_set (idempotency_run m tg consistent T)" for S T
    by (rule proven_mono)
qed

section \<open>Scopes\<close>

definition runtime_at :: "idempotency_check list \<Rightarrow> nat \<Rightarrow> bool" where
  "runtime_at cs k \<longleftrightarrow> k < length cs \<and> runtime_verdict (ic_verdict (cs ! k))"

fun rests_on :: "idempotency_verdict \<Rightarrow> (id \<times> id) list" where
  "rests_on (IvProven p s) = proof_dependencies p"
| "rests_on (IvUnproven obs) = []"

text \<open>\<open>k\<close> leans on \<open>j\<close> when its proof cites the boundary the requirement \<open>j\<close> is keyed from.\<close>

definition leans_on :: "idempotency_check list \<Rightarrow> (nat \<times> nat) set" where
  "leans_on cs =
     {(k, j). k < length cs \<and> j < length cs
        \<and> (\<exists>pr \<in> set (rests_on (ic_verdict (cs ! k))). idempotency_pair (cs ! j) = Some pr)}"

lemma widen_keeps:
  "idempotency_pair (widen rt c) = idempotency_pair c" "rests_on (ic_verdict (widen rt c)) = rests_on (ic_verdict c)"
  by (cases "(rt, ic_verdict c)" rule: widen_verdict.cases; simp add: widen_def idempotency_pair_def)+

lemma widen_all_nth: "k < length cs \<Longrightarrow> widen_all cs ! k = widen (runtime_pairs cs) (cs ! k)"
  by (simp add: widen_all_def)

lemma length_widen_all [simp]: "length (widen_all cs) = length cs"
  by (simp add: widen_all_def)

lemma leans_on_widen [simp]: "leans_on (widen_all cs) = leans_on cs"
  by (auto simp: leans_on_def widen_all_nth widen_keeps)

lemma runtime_pairs_iff: "pr \<in> runtime_pairs cs \<longleftrightarrow> (\<exists>j. runtime_at cs j \<and> idempotency_pair (cs ! j) = Some pr)"
proof -
  have "pr \<in> runtime_pairs cs \<longleftrightarrow> (\<exists>c. c \<in> set cs \<and> runtime_verdict (ic_verdict c) \<and> idempotency_pair c = Some pr)"
    by (auto simp: runtime_pairs_def set_map_filter)
  then show ?thesis unfolding runtime_at_def in_set_conv_nth by blast
qed

lemma runtime_widen:
  "runtime_at (widen_all cs) k \<longleftrightarrow> runtime_at cs k \<or> (\<exists>j. (k, j) \<in> leans_on cs \<and> runtime_at cs j)"
proof (cases "k < length cs")
  case True
  have "runtime_verdict (ic_verdict (widen rt c))
      \<longleftrightarrow> runtime_verdict (ic_verdict c) \<or> (\<exists>pr \<in> set (rests_on (ic_verdict c)). pr \<in> rt)" for rt c
    by (cases "(rt, ic_verdict c)" rule: widen_verdict.cases) (auto simp: widen_def list_ex_iff)
  then have "runtime_at (widen_all cs) k \<longleftrightarrow> runtime_at cs k
      \<or> (\<exists>pr \<in> set (rests_on (ic_verdict (cs ! k))). pr \<in> runtime_pairs cs)"
    using True by (simp add: runtime_at_def widen_all_nth)
  then show ?thesis using True by (auto simp: runtime_pairs_iff leans_on_def runtime_at_def)
next
  case False
  then show ?thesis by (auto simp: runtime_at_def leans_on_def)
qed

lemma reaches_runtime_widen:
  "(\<exists>j. (k, j) \<in> (leans_on cs)\<^sup>* \<and> runtime_at (widen_all cs) j) \<longleftrightarrow> (\<exists>j. (k, j) \<in> (leans_on cs)\<^sup>* \<and> runtime_at cs j)"
  unfolding runtime_widen by (meson rtrancl.rtrancl_into_rtrancl)

lemma propagate_runtime:
  "runtime_at (propagate_scopes cs) k \<longleftrightarrow> (\<exists>j. (k, j) \<in> (leans_on cs)\<^sup>* \<and> runtime_at cs j)"
proof (induction cs rule: propagate_scopes.induct)
  case (1 cs)
  show ?case
  proof (cases "widen_all cs = cs")
    case True
    have closed: "runtime_at cs i" if "(i, j) \<in> leans_on cs" "runtime_at cs j" for i j
      using runtime_widen [of cs i] True that by auto
    have "runtime_at cs k" if "(k, j) \<in> (leans_on cs)\<^sup>*" "runtime_at cs j" for j
      using that by (induction rule: converse_rtrancl_induct) (auto intro: closed)
    then show ?thesis using True by (subst propagate_scopes.simps) auto
  next
    case False
    then show ?thesis using 1 reaches_runtime_widen [of k cs] by (subst propagate_scopes.simps) simp
  qed
qed

lemma propagate_keeps:
  "map idempotency_pair (propagate_scopes cs) = map idempotency_pair cs
   \<and> map (\<lambda>c. idempotency_is_proven (ic_verdict c)) (propagate_scopes cs)
       = map (\<lambda>c. idempotency_is_proven (ic_verdict c)) cs"
proof (induction cs rule: propagate_scopes.induct)
  case (1 cs)
  have "idempotency_is_proven (ic_verdict (widen rt c)) = idempotency_is_proven (ic_verdict c)" for rt c
    by (cases "(rt, ic_verdict c)" rule: widen_verdict.cases) (auto simp: widen_def)
  then have "map idempotency_pair (widen_all cs) = map idempotency_pair cs
      \<and> map (\<lambda>c. idempotency_is_proven (ic_verdict c)) (widen_all cs)
          = map (\<lambda>c. idempotency_is_proven (ic_verdict c)) cs"
    by (simp add: widen_all_def widen_keeps)
  then show ?case using 1 by (subst (1 2) propagate_scopes.simps) simp
qed

lemma proven_set_of_maps:
  "proven_set cs = {pr. (Some pr, True) \<in> set (zip (map idempotency_pair cs)
      (map (\<lambda>c. idempotency_is_proven (ic_verdict c)) cs))}"
  by (force simp: proven_set_def set_map_filter zip_map_map zip_same_conv_map)

lemma proven_set_propagated: "proven_set (propagate_scopes cs) = proven_set cs"
  unfolding proven_set_of_maps using propagate_keeps [of cs] by simp

lemma mark_idempotency_keeps:
  "ic_verdict (mark_idempotency L c) = ic_verdict c" "idempotency_pair (mark_idempotency L c) = idempotency_pair c"
  by (simp_all add: mark_idempotency_def idempotency_pair_def)

lemma proven_set_marked: "proven_set (map (mark_idempotency L) cs) = proven_set cs"
  by (auto simp: proven_set_def set_map_filter mark_idempotency_keeps)

section \<open>Both loops end\<close>

lemma result_check_settles:
  "\<exists>checks. result_check_all m = Some checks
     \<and> consistent_set (result_run m (consistent_set checks)) = consistent_set checks
     \<and> (\<forall>F. F \<subseteq> consistent_set (result_run m F) \<longrightarrow> F \<subseteq> consistent_set checks)"
proof -
  obtain L where L: "settle (result_run m) consistent_set {} = Some (result_run m L)"
    using results.settles_least [of m] by blast
  obtain G where G: "settle (result_run m) consistent_set (result_every m) = Some (result_run m G)"
    "consistent_set (result_run m G) = G" "\<forall>F. F \<subseteq> consistent_set (result_run m F) \<longrightarrow> F \<subseteq> G"
    using results.settles_greatest [of m] by blast
  then show ?thesis
    by (simp add: result_check_all_def result_fixpoint_def L consistent_set_marked)
qed

lemma idempotency_check_settles:
  "\<exists>checks. idempotency_check_all m consistent = Some checks
     \<and> proven_set (idempotency_run m (build_triggers m) consistent (proven_set checks)) = proven_set checks
     \<and> (\<forall>F. F \<subseteq> proven_set (idempotency_run m (build_triggers m) consistent F) \<longrightarrow> F \<subseteq> proven_set checks)"
proof -
  let ?run = "idempotency_run m (build_triggers m) consistent"
  obtain L where L: "settle ?run proven_set {} = Some (?run L)"
    using safeties.settles_least [of m "build_triggers m" consistent] by blast
  obtain G where G: "settle ?run proven_set (idempotency_every m) = Some (?run G)"
    "proven_set (?run G) = G" "\<forall>F. F \<subseteq> proven_set (?run F) \<longrightarrow> F \<subseteq> G"
    using safeties.settles_greatest [of m "build_triggers m" consistent] by blast
  then show ?thesis
    by (simp add: idempotency_check_all_def idempotency_fixpoint_def Let_def L proven_set_propagated
        proven_set_marked)
qed

end
