(* ===== verification/Replay_Recovery.thy ===== *)
theory Replay_Recovery
  imports Replay_Fixpoints
begin

text \<open>
  What a proof of recoverability establishes of every admitted path: the re-encountered
  transactions resolve and whatever a step consumes is available where it is consumed, although the
  prover judges an artifact at its first consumer only. Contexts of a path that binds every artifact
  once only grow.
\<close>

section \<open>Artifacts along a path\<close>

fun step_binds :: "tx_step \<Rightarrow> id list" where
  "step_binds (TsEstablishTransactionOutput s) = [eo_bind s]"
| "step_binds (TsEstablishEffectIntent s) = [ei_bind s]"
| "step_binds (TsTransition s) = map ti_bind (bm_values (st_effect_intents s))"
| "step_binds _ = []"

fun path_step_binds :: "path_step \<Rightarrow> id list" where
  "path_step_binds (PsTransaction loc t) = concat (map step_binds (tx_steps t))"
| "path_step_binds _ = []"

definition path_binds :: "path_step list \<Rightarrow> id list" where
  "path_binds ss = concat (map path_step_binds ss)"

definition ctx_grows :: "path_context \<Rightarrow> path_context \<Rightarrow> bool" where
  "ctx_grows c d \<longleftrightarrow> (\<forall>x a. bm_get (px_artifacts c) x = Some a \<longrightarrow> bm_get (px_artifacts d) x = Some a)"

definition unbound :: "path_context \<Rightarrow> id list \<Rightarrow> bool" where
  "unbound c xs \<longleftrightarrow> (\<forall>x \<in> set xs. bm_get (px_artifacts c) x = None)"

lemma ctx_grows_refl [simp]: "ctx_grows c c"
  by (simp add: ctx_grows_def)

lemma ctx_grows_trans: "ctx_grows c d \<Longrightarrow> ctx_grows d e \<Longrightarrow> ctx_grows c e"
  by (simp add: ctx_grows_def)

lemma ctx_grows_art_ok: "ctx_grows c d \<Longrightarrow> art_ok c x \<Longrightarrow> art_ok d x"
  by (auto simp: ctx_grows_def art_ok_def split: option.splits)

lemma ctx_grows_bind: "bm_get (px_artifacts c) x = None \<Longrightarrow> ctx_grows c (bind_artifact x a c)"
  by (auto simp: ctx_grows_def bind_artifact_def)

lemma unbound_bind: "unbound c xs \<Longrightarrow> x \<notin> set xs \<Longrightarrow> unbound (bind_artifact x a c) xs"
  by (auto simp: unbound_def bind_artifact_def)

text \<open>\<open>extends xs c d\<close>: \<open>d\<close> ctx_grows \<open>c\<close> and differs from it on \<open>xs\<close> at most.\<close>

definition extends :: "id list \<Rightarrow> path_context \<Rightarrow> path_context \<Rightarrow> bool" where
  "extends xs c d \<longleftrightarrow> ctx_grows c d \<and> (\<forall>x. x \<notin> set xs \<longrightarrow> bm_get (px_artifacts d) x = bm_get (px_artifacts c) x)"

lemma extends_refl [simp]: "extends xs c c"
  by (simp add: extends_def)

lemma extends_trans: "extends xs c d \<Longrightarrow> extends ys d e \<Longrightarrow> extends (xs @ ys) c e"
  by (auto simp: extends_def intro: ctx_grows_trans)

lemma extends_unbound: "extends xs c d \<Longrightarrow> unbound c ys \<Longrightarrow> set xs \<inter> set ys = {} \<Longrightarrow> unbound d ys"
  by (fastforce simp: extends_def unbound_def)

lemma extends_bind: "unbound c [x] \<Longrightarrow> extends [x] c (bind_artifact x a c)"
  by (auto simp: extends_def unbound_def ctx_grows_bind) (simp add: bind_artifact_def)

lemma extends_artifacts_eq: "px_artifacts c = px_artifacts d \<Longrightarrow> extends xs c d"
  by (simp add: extends_def ctx_grows_def)

lemma artifacts_other [simp]:
  "px_artifacts (bind_result b k ctx) = px_artifacts ctx" "px_artifacts (bind_handle h l ctx) = px_artifacts ctx"
  "px_artifacts (select_arm d ctx) = px_artifacts ctx"
  by (simp_all add: bind_result_def bind_handle_def select_arm_def split: decision.split)

lemma unbound_simps [simp]:
  "unbound c []" "unbound c (x # xs) \<longleftrightarrow> bm_get (px_artifacts c) x = None \<and> unbound c xs"
  "unbound c (xs @ ys) \<longleftrightarrow> unbound c xs \<and> unbound c ys"
  by (auto simp: unbound_def)

lemma extends_intents:
  assumes "unbound c (map ti_bind is)" "distinct (map ti_bind is)"
  shows "extends (map ti_bind is) c
    (fold (\<lambda>i c. bind_artifact (ti_bind i) (artifact_replay_of an t r n (ti_values i) c) c) is c)"
  using assms
proof (induction "is" arbitrary: c)
  case (Cons i ls)
  let ?d = "bind_artifact (ti_bind i) (artifact_replay_of an t r n (ti_values i) c) c"
  have e: "extends [ti_bind i] c ?d" using Cons.prems by (auto intro!: extends_bind)
  have "unbound ?d (map ti_bind ls)"
    by (rule extends_unbound [OF e]) (use Cons.prems in auto)
  then have "extends (map ti_bind ls) ?d
      (fold (\<lambda>i c. bind_artifact (ti_bind i) (artifact_replay_of an t r n (ti_values i) c) c) ls ?d)"
    using Cons by simp
  then show ?case using extends_trans [OF e] by simp
qed simp

lemma extends_tx_step:
  assumes "unbound c (step_binds s)" "distinct (step_binds s)"
  shows "extends (step_binds s) c (fst (apply_tx_step an t r n s (c, ws)))"
  using assms extends_intents [of c "bm_values (case s of TsTransition x \<Rightarrow> st_effect_intents x)" an t r n]
  by (cases s) (auto simp: Let_def intro!: extends_bind)

text \<open>The contexts in which the steps of a path are judged form a chain.\<close>

definition ctx_chain :: "path_context \<Rightarrow> path_context list \<Rightarrow> path_context \<Rightarrow> bool" where
  "ctx_chain c cs d \<longleftrightarrow> sorted_wrt ctx_grows (c # cs @ [d])"

lemma ctx_chain_Nil [simp]: "ctx_chain c [] d \<longleftrightarrow> ctx_grows c d"
  by (simp add: ctx_chain_def)

lemma ctx_chain_append: "ctx_chain c xs d \<Longrightarrow> ctx_chain d ys e \<Longrightarrow> ctx_chain c (xs @ ys) e"
  by (auto simp: ctx_chain_def sorted_wrt_append intro: ctx_grows_trans)

lemma ctx_chain_const: "ctx_grows c e \<Longrightarrow> (\<And>x. x \<in> set xs \<Longrightarrow> x = e) \<Longrightarrow> ctx_chain c xs e"
proof (induction xs)
  case (Cons x xs)
  have x: "x = e" by (rule Cons.prems(2)) simp
  have xs: "\<forall>y \<in> set xs. y = e" using Cons.prems(2) by simp
  have "ctx_chain c xs e" by (rule Cons.IH [OF Cons.prems(1)]) (use xs in blast)
  then show ?case using x xs Cons.prems(1) by (simp add: ctx_chain_def)
qed simp

lemma ctx_chain_grows: "ctx_chain c xs d \<Longrightarrow> ctx_grows c d"
  by (simp add: ctx_chain_def)

lemma apply_tx_step_writes:
  "\<exists>vs. snd (apply_tx_step an t r n s (c, ws)) = ws @ vs
     \<and> (\<forall>w \<in> set vs. owt_before w = fst (apply_tx_step an t r n s (c, ws)))"
proof (cases s)
  case (TsTransition x)
  let ?d = "fst (apply_tx_step an t r n s (c, ws))"
  let ?declared = "Option.bind (bm_get (md_state_machines (ra_model an)) (st_machine x))
      (\<lambda>sm. bm_get (sm_transitions sm) (st_transition x))"
  let ?vs = "List.map_filter (\<lambda>(e, app). map_option (\<lambda>adm. write_trace an ?d e (te_write adm) (ta_values app))
      (Option.bind ?declared (\<lambda>d. bm_get (tn_effects d) e))) (st_effects x)"
  have "snd (apply_tx_step an t r n s (c, ws)) = ws @ ?vs" by (simp add: TsTransition Let_def)
  moreover have "owt_before w = ?d" if "w \<in> set ?vs" for w
    using that by (auto simp: set_map_filter write_trace_def)
  ultimately show ?thesis by blast
qed (simp_all add: write_trace_def)

lemma tx_steps_chain:
  assumes "unbound c (concat (map step_binds ss))" "distinct (concat (map step_binds ss))"
  shows "\<exists>vs d. fold (apply_tx_step an t r n) ss (c, ws) = (d, ws @ vs)
    \<and> extends (concat (map step_binds ss)) c d \<and> ctx_chain c (map owt_before vs) d"
  using assms
proof (induction ss arbitrary: c ws)
  case (Cons s ss)
  obtain e us where s: "apply_tx_step an t r n s (c, ws) = (e, ws @ us)" "\<forall>w \<in> set us. owt_before w = e"
    using apply_tx_step_writes [of an t r n s c ws] by (metis prod.collapse fst_conv snd_conv)
  have e: "extends (step_binds s) c e"
    using extends_tx_step [of c s an t r n ws] Cons.prems s by simp
  have "unbound e (concat (map step_binds ss))"
    by (rule extends_unbound [OF e]) (use Cons.prems in auto)
  then obtain vs d where d: "fold (apply_tx_step an t r n) ss (e, ws @ us) = (d, (ws @ us) @ vs)"
    "extends (concat (map step_binds ss)) e d" "ctx_chain e (map owt_before vs) d"
    using Cons.IH [of e "ws @ us"] Cons.prems by auto
  have "ctx_chain c (map owt_before us) e"
    by (rule ctx_chain_const) (use e s in \<open>auto simp: extends_def\<close>)
  then have "ctx_chain c (map owt_before (us @ vs)) d" using d(3) by (simp add: ctx_chain_append)
  moreover have "extends (concat (map step_binds (s # ss))) c d" using extends_trans [OF e d(2)] by simp
  ultimately show ?case using s d by (intro exI [of _ "us @ vs"] exI [of _ d]) simp
qed simp

section \<open>Traces\<close>

fun step_context :: "traced_step \<Rightarrow> path_context option" where
  "step_context (TrTransaction loc t before r n) = Some before"
| "step_context (TrEffect loc site c before i b) = Some before"
| "step_context (TrDecision loc taken j) = None"

abbreviation contexts :: "traced_step list \<Rightarrow> path_context list" where
  "contexts \<equiv> List.map_filter step_context"

lemma contexts_writes: "contexts (map (write_step loc t) ws) = map owt_before ws"
  by (induction ws) (auto simp: write_step_def)

lemma join_all_artifacts: "px_artifacts (fold join_one js ctx) = px_artifacts ctx"
  by (induction js arbitrary: ctx) (auto simp: join_one_def split: option.split)

lemma trace_step_chain:
  assumes "unbound (ts_context st) (path_step_binds p)" "distinct (path_step_binds p)"
  shows "\<exists>vs. ts_steps (trace_step an p st) = ts_steps st @ vs
    \<and> extends (path_step_binds p) (ts_context st) (ts_context (trace_step an p st))
    \<and> ctx_chain (ts_context st) (contexts vs) (ts_context (trace_step an p st))"
proof (cases p)
  case (PsTransaction loc t)
  obtain vs d where d: "fold (apply_tx_step an (tx_id t) (recovery_route an (ts_context st) t)
        (natural_route an (ts_context st) t)) (tx_steps t) (ts_context st, []) = (d, vs)"
    "extends (path_step_binds p) (ts_context st) d" "ctx_chain (ts_context st) (map owt_before vs) d"
    using tx_steps_chain [of "ts_context st" "tx_steps t" an "tx_id t" "recovery_route an (ts_context st) t"
        "natural_route an (ts_context st) t" "[]"] assms by (auto simp: PsTransaction)
  have "ctx_chain (ts_context st) (ts_context st # map owt_before vs) d"
    using d(3) by (auto simp: ctx_chain_def)
  then show ?thesis using d
    by (auto simp: PsTransaction apply_transaction_def Let_def contexts_writes)
next
  case (PsJoinAll loc js)
  then show ?thesis by (auto simp: join_all_artifacts intro!: extends_artifacts_eq simp: ctx_grows_def)
qed (auto simp: push_effect_def launch_effect_def Let_def ctx_chain_def ctx_grows_def
      intro!: extends_artifacts_eq split: option.split)

lemma trace_steps_chain:
  assumes "unbound (ts_context st) (path_binds ps)" "distinct (path_binds ps)"
  shows "\<exists>vs. ts_steps (fold (trace_step an) ps st) = ts_steps st @ vs
    \<and> ctx_chain (ts_context st) (contexts vs) (ts_context (fold (trace_step an) ps st))"
  using assms
proof (induction ps arbitrary: st)
  case (Cons p ps)
  obtain us where u: "ts_steps (trace_step an p st) = ts_steps st @ us"
    "extends (path_step_binds p) (ts_context st) (ts_context (trace_step an p st))"
    "ctx_chain (ts_context st) (contexts us) (ts_context (trace_step an p st))"
    using trace_step_chain [of st p an] Cons.prems by (auto simp: path_binds_def)
  have "unbound (ts_context (trace_step an p st)) (path_binds ps)"
    by (rule extends_unbound [OF u(2)]) (use Cons.prems in \<open>auto simp: path_binds_def\<close>)
  then obtain vs where v: "ts_steps (fold (trace_step an) ps (trace_step an p st)) = ts_steps (trace_step an p st) @ vs"
    "ctx_chain (ts_context (trace_step an p st)) (contexts vs) (ts_context (fold (trace_step an) ps (trace_step an p st)))"
    using Cons.IH [of "trace_step an p st"] Cons.prems by (auto simp: path_binds_def)
  then show ?case using u ctx_chain_append [OF u(3) v(2)] by (intro exI [of _ "us @ vs"]) simp
qed simp

lemma trace_chain:
  assumes "distinct (path_binds (pa_steps p))"
  shows "ctx_chain context_empty (contexts (pt_steps (trace an p))) (pt_end (trace an p))"
proof -
  have "unbound (ts_context trace_start) (path_binds (pa_steps p))"
    by (simp add: unbound_def trace_start_def context_empty_def)
  then obtain vs where "ts_steps (fold (trace_step an) (pa_steps p) trace_start) = ts_steps trace_start @ vs"
    "ctx_chain (ts_context trace_start) (contexts vs) (ts_context (fold (trace_step an) (pa_steps p) trace_start))"
    using trace_steps_chain assms by blast
  then show ?thesis by (simp add: trace_def Let_def trace_start_def)
qed

section \<open>The obstacles of a path\<close>

lemma require_artifact_findings:
  "pf_obstacles (require_artifact ref cn ctx x f) = []
     \<longleftrightarrow> pf_obstacles f = [] \<and> (x \<in> pf_reported f \<or> art_ok ctx x)"
  "pf_reported (require_artifact ref cn ctx x f) = insert x (pf_reported f)"
  by (auto simp: require_artifact_def add_obstacle_def art_ok_def Let_def split: option.split artifact_replay.split)

lemma fold_require_artifact:
  "pf_obstacles (fold (require_artifact ref cn ctx) xs f) = []
     \<longleftrightarrow> pf_obstacles f = [] \<and> (\<forall>x \<in> set xs. x \<in> pf_reported f \<or> art_ok ctx x)"
  "pf_reported (fold (require_artifact ref cn ctx) xs f) = set xs \<union> pf_reported f"
  by (induction xs arbitrary: f) (auto simp: require_artifact_findings)

fun step_consumes :: "traced_step \<Rightarrow> id list" where
  "step_consumes (TrTransaction loc t before r n) = foreign_outputs {} (tx_steps t)"
| "step_consumes (TrEffect loc site c before i b) = consumed_by_site site"
| "step_consumes (TrDecision loc taken j) = []"

text \<open>A step a resumption can get past: it resolves and has what it consumes.\<close>

fun step_resolves :: "traced_step \<Rightarrow> bool" where
  "step_resolves (TrTransaction loc t before r n) \<longleftrightarrow> proved r \<or> proved n"
| "step_resolves _ = True"

definition step_supplied :: "traced_step \<Rightarrow> bool" where
  "step_supplied s \<longleftrightarrow>
     (case step_context s of None \<Rightarrow> True | Some ctx \<Rightarrow> list_all (art_ok ctx) (step_consumes s))"

lemma resolve_findings:
  "pf_obstacles (resolve ref re t r n f) = [] \<longleftrightarrow> pf_obstacles f = [] \<and> (re \<longrightarrow> proved r \<or> proved n)"
  "pf_reported (resolve ref re t r n f) = pf_reported f"
  by (auto simp: resolve_def add_obstacle_def Let_def split: sum.split)

lemma recover_step_reported:
  "pf_reported (recover_step ref re s f) = set (step_consumes s) \<union> pf_reported f"
  by (cases s) (auto simp: recover_step_def resolve_findings fold_require_artifact)

lemma recover_step_findings:
  assumes "pf_obstacles (recover_step ref re s f) = []"
    "\<And>ctx x. step_context s = Some ctx \<Longrightarrow> x \<in> pf_reported f \<Longrightarrow> art_ok ctx x"
  shows "pf_obstacles f = []" "step_supplied s" "re \<Longrightarrow> step_resolves s"
  using assms
  by (cases s; auto simp: recover_step_def resolve_findings fold_require_artifact step_supplied_def list_all_iff)+

text \<open>What is reported has been available since it was.\<close>

definition reported_ok :: "path_findings \<Rightarrow> path_context list \<Rightarrow> bool" where
  "reported_ok f cs \<longleftrightarrow> (\<forall>c \<in> set cs. \<forall>x \<in> pf_reported f. art_ok c x)"

lemma recover_steps_obstacles: "pf_obstacles (recover_steps ref completes ss f) = [] \<Longrightarrow> pf_obstacles f = []"
proof (induction ss arbitrary: f)
  case (Cons s ss)
  have "pf_obstacles (recover_step ref (ss \<noteq> [] \<or> \<not> completes) s f) = []"
    by (rule Cons.IH) (use Cons.prems in simp)
  then show ?case
    by (cases s) (auto simp: recover_step_def resolve_findings fold_require_artifact)
qed simp

lemma recover_steps_findings:
  assumes "pf_obstacles (recover_steps ref completes ss f) = []"
    "sorted_wrt ctx_grows (contexts ss @ [d])" "reported_ok f (contexts ss @ [d])"
  shows "list_all step_supplied ss" "list_all step_resolves (if completes then butlast ss else ss)"
    "\<forall>x \<in> pf_reported (recover_steps ref completes ss f). art_ok d x"
  using assms
proof (induction ss arbitrary: f)
  case Nil
  { case 1 then show ?case by simp next case 2 then show ?case by simp
    next case 3 then show ?case by (simp add: reported_ok_def) }
next
  case (Cons s ss)
  let ?re = "ss \<noteq> [] \<or> \<not> completes"
  let ?g = "\<lambda>f. recover_step ref ?re s f"
  have facts: "step_supplied s" "?re \<Longrightarrow> step_resolves s" "pf_obstacles (recover_steps ref completes ss (?g f)) = []"
    "sorted_wrt ctx_grows (contexts ss @ [d])" "reported_ok (?g f) (contexts ss @ [d])"
    if p: "pf_obstacles (recover_steps ref completes (s # ss) f) = []"
      "sorted_wrt ctx_grows (contexts (s # ss) @ [d])" "reported_ok f (contexts (s # ss) @ [d])" for f
  proof -
    show rest: "pf_obstacles (recover_steps ref completes ss (?g f)) = []" using p(1) by simp
    have now: "art_ok ctx x" if "step_context s = Some ctx" "x \<in> pf_reported f" for ctx x
      using p(3) that by (simp add: reported_ok_def)
    show sup: "step_supplied s" and "?re \<Longrightarrow> step_resolves s"
      using recover_step_findings [OF recover_steps_obstacles [OF rest] now] by blast+
    show "sorted_wrt ctx_grows (contexts ss @ [d])"
      using p(2) by (auto split: option.splits)
    have "art_ok c x" if "c \<in> set (contexts ss @ [d])" "x \<in> set (step_consumes s)" for c x
    proof (cases "step_context s")
      case None
      then show ?thesis using that(2) by (cases s) auto
    next
      case (Some ctx)
      then have "art_ok ctx x" using sup that(2) by (simp add: step_supplied_def list_all_iff)
      moreover have "ctx_grows ctx c" using p(2) Some that(1) by auto
      ultimately show ?thesis by (rule ctx_grows_art_ok [rotated])
    qed
    then show "reported_ok (?g f) (contexts ss @ [d])"
      using p(3) by (auto simp: reported_ok_def recover_step_reported split: option.splits)
  qed
  {
    case 1
    show ?case using facts(1) [OF 1] Cons.IH(1) [OF facts(3-5) [OF 1]] by simp
  next
    case 2
    show ?case using facts(2) [OF 2] Cons.IH(2) [OF facts(3-5) [OF 2]] by auto
  next
    case 3
    show ?case using Cons.IH(3) [OF facts(3-5) [OF 3]] by simp
  }
qed

section \<open>Resumable paths\<close>

definition completes_path :: "prog_path \<Rightarrow> bool" where
  "completes_path p \<longleftrightarrow> (case pa_terminal p of TmComplete loc \<Rightarrow> True | _ \<Rightarrow> False)"

definition terminal_supplied :: "path_context \<Rightarrow> terminal \<Rightarrow> bool" where
  "terminal_supplied ctx t \<longleftrightarrow>
     (case t of
        TmReturn loc request out \<Rightarrow> list_all (art_ok ctx) (output_roots (derivation_roots (outcome_values out)))
      | TmNone \<Rightarrow> False
      | _ \<Rightarrow> True)"

text \<open>
  Every prefix of the path can be resumed: each step has what it consumes, and each transaction
  resolves but the last traced one of a completing path; the terminal can be constructed.
\<close>

definition resumable_path :: "replay_analysis \<Rightarrow> prog_path \<Rightarrow> bool" where
  "resumable_path an p \<longleftrightarrow>
     (let tr = trace an p
      in list_all step_supplied (pt_steps tr)
         \<and> list_all step_resolves (if completes_path p then butlast (pt_steps tr) else pt_steps tr)
         \<and> terminal_supplied (pt_end tr) (pa_terminal p))"

lemma recover_path_resumable:
  assumes "distinct (path_binds (pa_steps p))" "proved (recover_path an p)"
  shows "resumable_path an p"
proof -
  let ?tr = "trace an p" and ?ref = "path_reference p"
  let ?f = "recover_steps ?ref (completes_path p) (pt_steps ?tr) findings_start"
  have t: "pt_terminal ?tr = pa_terminal p" by (simp add: trace_def Let_def)
  have "pf_obstacles (findings_of_path an p) = []"
    using assms(2) by (auto simp: recover_path_def Let_def split: if_splits)
  then have ob: "pf_obstacles (recover_terminal ?ref (pt_end ?tr) (pa_terminal p) ?f) = []"
    by (simp add: findings_of_path_def Let_def t completes_path_def)
  then have f: "pf_obstacles ?f = []"
    by (cases "pa_terminal p") (auto simp: recover_terminal_def fold_require_artifact add_obstacle_def)
  have sorted: "sorted_wrt ctx_grows (contexts (pt_steps ?tr) @ [pt_end ?tr])"
    using trace_chain [OF assms(1), of an] by (simp add: ctx_chain_def)
  have start: "reported_ok findings_start cs" for cs by (simp add: reported_ok_def findings_start_def)
  note facts = recover_steps_findings [OF f sorted start]
  have "terminal_supplied (pt_end ?tr) (pa_terminal p)"
    using ob facts(3)
    by (cases "pa_terminal p")
       (auto simp: recover_terminal_def fold_require_artifact add_obstacle_def terminal_supplied_def list_all_iff)
  then show ?thesis using facts(1,2) by (simp add: resumable_path_def Let_def)
qed

lemma recover_path_gaps: "recover_path an p = Inl obs \<Longrightarrow> obs \<noteq> []"
  by (auto simp: recover_path_def Let_def split: if_splits)

lemma path_obstacles_Nil:
  "(\<And>j obs. j \<in> set js \<Longrightarrow> j = Inl obs \<Longrightarrow> obs \<noteq> []) \<Longrightarrow> path_obstacles js = [] \<longleftrightarrow> (\<forall>j \<in> set js. proved j)"
  by (induction js) (force simp: path_obstacles_def split: sum.splits)+

lemma recoverability_requirement:
  assumes "recoverability_is_proven (fst (recoverability_check_requirement m opn d key completion consistent))"
    "new_analysis m d key consistent = Inr an" "\<not> admits_no_attempts an"
  shows "\<exists>p \<in> set (admitted_paths d (ra_input an)). \<not> abandons p"
    "p \<in> set (admitted_paths d (ra_input an)) \<Longrightarrow> proved (recover_path an p)"
    "completion = CrGuaranteed \<Longrightarrow> proved (find_driver m opn d (ra_input an))"
proof -
  let ?ps = "admitted_paths d (ra_input an)"
  obtain ob dr where dj: "driver_judgment m opn d (ra_input an) completion = (ob, dr)" by fastforce
  have none: "admission_obstacles (ra_input an) ?ps = []" "path_obstacles (map (recover_path an) ?ps) = []" "ob = []"
    using assms dj by (auto simp: recoverability_check_requirement_def Let_def split: if_splits)
  show "\<exists>p \<in> set ?ps. \<not> abandons p"
    using none(1) by (auto simp: admission_obstacles_def list_all_iff split: if_splits)
  have "\<forall>j \<in> set (map (recover_path an) ?ps). proved j"
  proof (rule iffD1 [OF path_obstacles_Nil none(2)])
    fix j obs assume "j \<in> set (map (recover_path an) ?ps)" "j = Inl obs"
    then show "obs \<noteq> []" using recover_path_gaps by force
  qed
  then show "p \<in> set ?ps \<Longrightarrow> proved (recover_path an p)" by simp
  show "completion = CrGuaranteed \<Longrightarrow> proved (find_driver m opn d (ra_input an))"
    using none(3) dj by (auto split: sum.splits)
qed

section \<open>The final-step exemption\<close>

text \<open>The barriers of a path leave no trace, so they do not end the exemption of a transaction.\<close>

fun is_barrier :: "path_step \<Rightarrow> bool" where
  "is_barrier (PsJoinAll _ _) = True"
| "is_barrier (PsRace _ _) = True"
| "is_barrier _ = False"

fun admits_nothing :: "tx_step \<Rightarrow> bool" where
  "admits_nothing (TsWriteOutbox _) = False"
| "admits_nothing (TsTransition s) \<longleftrightarrow> st_effects s = []"
| "admits_nothing _ = True"

lemma barriers_leave_no_trace:
  "list_all is_barrier bs \<Longrightarrow> ts_steps (fold (trace_step an) bs st) = ts_steps st"
proof (induction bs arbitrary: st)
  case (Cons b bs)
  then show ?case by (cases b) (auto split: option.split)
qed simp

lemma admits_nothing_writes:
  "list_all admits_nothing ss \<Longrightarrow> snd (fold (apply_tx_step an t r n) ss (c, ws)) = ws"
proof (induction ss arbitrary: c ws)
  case (Cons s ss)
  obtain d vs where s: "apply_tx_step an t r n s (c, ws) = (d, vs)" by fastforce
  have "vs = ws" using Cons.prems s by (cases s) (auto simp: Let_def)
  then show ?case using Cons s by simp
qed simp

lemma recover_steps_append:
  "ts \<noteq> [] \<Longrightarrow> recover_steps ref completes (ss @ ts) f
     = recover_steps ref completes ts (fold (recover_step ref True) ss f)"
  by (induction ss arbitrary: f) auto

lemma last_transaction_exempt:
  assumes "pa_steps p = pre @ PsTransaction loc t # bs" "list_all is_barrier bs"
    "list_all admits_nothing (tx_steps t)" "completes_path p"
  shows "\<lparr>trs_transaction = tx_id t, trs_resolution = RsTerminalStep\<rparr> \<in> set (pf_transactions (findings_of_path an p))"
proof -
  let ?st = "fold (trace_step an) pre trace_start"
  have "snd (snd (snd (apply_transaction an (ts_context ?st) t))) = []"
    using admits_nothing_writes [OF assms(3)] by (simp add: apply_transaction_def Let_def case_prod_unfold)
  then obtain d r n where a: "apply_transaction an (ts_context ?st) t = (d, r, n, [])"
    by (metis prod.collapse)
  have "pt_steps (trace an p) = ts_steps ?st @ [TrTransaction loc t (ts_context ?st) r n]"
    using barriers_leave_no_trace [OF assms(2)] a by (simp add: trace_def Let_def assms(1))
  moreover obtain l where "pa_terminal p = TmComplete l"
    using assms(4) by (auto simp: completes_path_def split: terminal.splits)
  moreover have "pt_terminal (trace an p) = pa_terminal p" by (simp add: trace_def Let_def)
  ultimately show ?thesis
    by (simp add: findings_of_path_def Let_def recover_steps_append recover_step_def resolve_def recover_terminal_def)
qed

end
