(* ===== verification/Replay_Guarantees.thy ===== *)
theory Replay_Guarantees
  imports Replay_Recovery
begin

text \<open>
  What the replay provers promise: the verification of every model ends, with the greatest sets of
  requirements that prove themselves; scopes are exact; a proof of recoverability supplies and
  resolves every step; and the final-step exemption reaches too far.
\<close>

section \<open>Sample models\<close>

definition stub_field :: "string \<Rightarrow> value_source \<Rightarrow> value_ref" where
  "stub_field n src = ValueRef src (FieldPath [n])"

definition ping_key :: idempotency_key where
  "ping_key = \<lparr>ik_components = [stub_field ''k'' (VsInput (Id ''in''))]\<rparr>"

definition ping_input :: request_input where
  "ping_input = \<lparr>ri_schema = Id ''Ping'', ri_identity = RiKeyed [FieldPath [''k'']],
     ri_result = \<lparr>rt_ok = Id ''Ping'', rt_errors = []\<rparr>\<rparr>"

definition ping_request :: "string \<Rightarrow> request_effect" where
  "ping_request target = \<lparr>re_target = \<lparr>rq_operation = Id target, rq_input = Id ''in''\<rparr>,
     re_schema = Id ''Ping'', re_retry = RetryUnspecified, re_propagation = []\<rparr>"

text \<open>An operation that requests another and returns what it answers.\<close>

definition ping_operation :: "string \<Rightarrow> operation" where
  "ping_operation target =
     \<lparr>op_service = Id ''s'', op_description = None, op_inputs = [(Id ''in'', InRequest ping_input)],
      op_program = Block
        [OsExecuteEffect \<lparr>xf_effect_id = Id ''call'', xf_effect = EfRequest (ping_request target),
           xf_values = Deterministic [stub_field ''k'' (VsInput (Id ''in''))], xf_bind = Some (Id ''r'')\<rparr>,
         OsMatchResult (Id ''r'')
           (Block [OsReturn \<lparr>ret_request = Id ''in'',
              ret_outcome = OutOk (Deterministic [stub_field ''k'' (VsEffectResultOk (Id ''r''))])\<rparr>]) []],
      op_requirements = \<lparr>oq_idempotency = [\<lparr>ir_key = ping_key, ir_result = RrReplayConsistent\<rparr>],
        oq_recoverability = []\<rparr>\<rparr>"

definition ping_model :: model where
  "ping_model = \<lparr>md_dsl = dsl_version, md_revision = 0, md_services = [], md_schemas = [],
     md_data_models = [], md_topics = [], md_state_machines = [],
     md_operations = [(Id ''a'', ping_operation ''b''), (Id ''b'', ping_operation ''a'')],
     md_runtime = None\<rparr>"

definition ping_pairs :: "(id \<times> id) set" where
  "ping_pairs = {(Id ''a'', Id ''in''), (Id ''b'', Id ''in'')}"

lemma ping_self_proving: "ping_pairs \<subseteq> consistent_set (result_run ping_model ping_pairs)"
  by code_simp

lemma ping_safe: "ping_pairs \<subseteq> proven_set (idempotency_run ping_model (build_triggers ping_model) ping_pairs ping_pairs)"
  by code_simp

section \<open>The verification settles\<close>



section \<open>Scopes\<close>

text \<open>
  C20. Propagation widens exactly the proofs it should: a requirement ends runtime-dependent when,
  and only when, its proof leans, through any number of other requirements, on one whose own facts
  are runtime facts.
\<close>

theorem scopes_are_exact:
  assumes "k < length cs"
  shows "runtime_verdict (ic_verdict (propagate_scopes cs ! k))
           \<longleftrightarrow> (\<exists>j < length cs. (k, j) \<in> (leans_on cs)\<^sup>* \<and> runtime_verdict (ic_verdict (cs ! j)))"
proof -
  have "length (propagate_scopes cs) = length cs"
    using propagate_keeps [of cs] map_eq_imp_length_eq by blast
  then show ?thesis using propagate_runtime [of cs k] assms by (auto simp: runtime_at_def)
qed

definition delivery_proof :: idempotency_proof where
  "delivery_proof = IpSingleDelivery (Id ''in'') (Id ''topic'')"

definition caller_proof :: idempotency_proof where
  "caller_proof = IpRetrySafePaths [\<lparr>ps_path = [], ps_decisions = [], ps_transactions = [],
     ps_effects = [\<lparr>ers_effect = Id ''call'',
       ers_safety = EsafeDeduplicatedByTarget (Id ''b'') (Id ''in'') (IsReplayDeterministic [])\<rparr>]\<rparr>]"

definition sample_check :: "string \<Rightarrow> idempotency_proof \<Rightarrow> idempotency_check" where
  "sample_check opn p = \<lparr>ic_operation = Id opn, ic_requirement = 0, ic_key = ping_key,
     ic_verdict = idempotency_proven p, ic_coinductive = False, ic_lineage = []\<rparr>"

definition sample_checks :: "idempotency_check list" where
  "sample_checks = [sample_check ''a'' caller_proof, sample_check ''b'' delivery_proof]"

theorem scopes_are_exact_witness:
  "\<not> runtime_verdict (ic_verdict (sample_checks ! 0))
   \<and> runtime_verdict (ic_verdict (propagate_scopes sample_checks ! 0))"
proof -
  have "rests_on (ic_verdict (sample_checks ! 0)) = [(Id ''b'', Id ''in'')]"
    "idempotency_pair (sample_checks ! 1) = Some (Id ''b'', Id ''in'')"
    "runtime_verdict (ic_verdict (sample_checks ! 1))" "\<not> runtime_verdict (ic_verdict (sample_checks ! 0))"
    "length sample_checks = 2"
    by code_simp+
  moreover from this have "(0, 1) \<in> (leans_on sample_checks)\<^sup>*"
    by (intro r_into_rtrancl) (simp add: leans_on_def)
  ultimately have "\<exists>j < length sample_checks. (0, j) \<in> (leans_on sample_checks)\<^sup>*
      \<and> runtime_verdict (ic_verdict (sample_checks ! j))"
    by (intro exI [of _ 1]) simp
  then have "runtime_verdict (ic_verdict (propagate_scopes sample_checks ! 0))"
    by (rule iffD2 [OF scopes_are_exact, rotated]) (simp add: \<open>length sample_checks = 2\<close>)
  then show ?thesis using \<open>\<not> runtime_verdict (ic_verdict (sample_checks ! 0))\<close> by blast
qed

section \<open>Recoverability\<close>

text \<open>
  A recoverability requirement proven for inputs that can be invoked makes every admitted path
  resumable: whatever a step, an intent execution or the returned result consumes of earlier
  transactions is replay-available there, and every transaction resolves on re-encounter, but the
  last traced step of a completing path. Some admitted path does not abandon, and a guaranteed
  completion has a driver. The paths bind each artifact once, as validation demands.
\<close>

theorem recoverable_paths_resume:
  assumes "recoverability_is_proven (fst (recoverability_check_requirement m opn d key completion consistent))"
    "new_analysis m d key consistent = Inr an" "\<not> admits_no_attempts an"
    "\<forall>p \<in> set (admitted_paths d (ra_input an)). distinct (path_binds (pa_steps p))"
  shows "(\<forall>p \<in> set (admitted_paths d (ra_input an)). resumable_path an p)
    \<and> (\<exists>p \<in> set (admitted_paths d (ra_input an)). \<not> abandons p)
    \<and> (completion = CrGuaranteed \<longrightarrow> proved (find_driver m opn d (ra_input an)))"
  using recoverability_requirement [OF assms(1-3)] recover_path_resumable assms(4) by blast

definition order_transaction :: "idempotency_guarantee \<Rightarrow> transaction" where
  "order_transaction g = \<lparr>tx_id = Id ''place'', tx_data_model = None, tx_isolation = IsoSerializable,
     tx_idempotency = g, tx_requirements = \<lparr>tr_serializability = [], tr_ordering = []\<rparr>,
     tx_steps = [TsInsert \<lparr>in_object = Id ''Order'', in_values = DUnspecified\<rparr>,
       TsEstablishTransactionOutput \<lparr>eo_bind = Id ''receipt'', eo_schema = Id ''Ping'', eo_values = DUnspecified\<rparr>]\<rparr>"

text \<open>A keyed commit whose retained output a later effect and the result consume.\<close>

definition place_operation :: operation where
  "place_operation = (ping_operation ''a'')\<lparr>op_program := Block
     [OsTransaction (order_transaction (IgDeduplicatedBy ping_key)) None,
      OsExecuteEffect \<lparr>xf_effect_id = Id ''call'', xf_effect = EfRequest (ping_request ''a''),
        xf_values = Deterministic [stub_field ''k'' (VsTransactionOutput (Id ''receipt''))], xf_bind = None\<rparr>,
      OsReturn \<lparr>ret_request = Id ''in'',
        ret_outcome = OutOk (Deterministic [stub_field ''k'' (VsTransactionOutput (Id ''receipt''))])\<rparr>]\<rparr>"

definition place_analysis :: replay_analysis where
  "place_analysis = projr (new_analysis ping_model place_operation ping_key {})"

lemma place_facts:
  "recoverability_is_proven (fst (recoverability_check_requirement ping_model (Id ''p'') place_operation
     ping_key CrResumable {}))"
  "new_analysis ping_model place_operation ping_key {} = Inr place_analysis"
  "\<not> admits_no_attempts place_analysis"
  "list_all (\<lambda>p. distinct (path_binds (pa_steps p))) (admitted_paths place_operation (ra_input place_analysis))"
  by code_simp+

theorem recoverable_paths_resume_witness:
  "list_all (resumable_path place_analysis) (admitted_paths place_operation (ra_input place_analysis))"
  using recoverable_paths_resume [OF place_facts(1-3)] place_facts(4) by (simp add: list_all_iff)

text \<open>
  C1. The exemption of the final step reaches too far: on a path ending at \<open>complete\<close>, a
  transaction followed by a \<open>join_all\<close> barrier, and by any further barriers, is recorded as the
  terminal step, so nothing asks it to resolve, although an attempt can fail at the barrier with the
  transaction committed.
\<close>

theorem barrier_after_commit_exempt:
  assumes "pa_steps p = pre @ PsTransaction loc t # PsJoinAll l js # bs" "list_all is_barrier bs"
    "list_all admits_nothing (tx_steps t)" "completes_path p"
  shows "\<lparr>trs_transaction = tx_id t, trs_resolution = RsTerminalStep\<rparr> \<in> set (pf_transactions (findings_of_path an p))"
  by (rule last_transaction_exempt [OF assms(1) _ assms(3,4)]) (simp add: assms(2))

definition barrier_transaction :: transaction where
  "barrier_transaction = order_transaction IgNotDeduplicated"

definition barrier_operation :: operation where
  "barrier_operation = (ping_operation ''a'')\<lparr>op_program := Block
     [OsExecuteEffectAsync \<lparr>xa_handle = Id ''h'', xa_effect_id = Id ''call'',
        xa_effect = EfRequest (ping_request ''a''), xa_values = DUnspecified\<rparr>,
      OsTransaction barrier_transaction None,
      OsJoinAll [\<lparr>aj_handle = Id ''h'', aj_bind = None\<rparr>],
      OsComplete]\<rparr>"

definition barrier_analysis :: replay_analysis where
  "barrier_analysis = projr (new_analysis ping_model barrier_operation ping_key {})"

definition barrier_path :: prog_path where
  "barrier_path = hd (paths (op_program barrier_operation))"

lemma barrier_facts:
  "pa_steps barrier_path = [hd (pa_steps barrier_path)]
     @ PsTransaction [Hop 1 None] barrier_transaction # PsJoinAll [Hop 2 None] [\<lparr>aj_handle = Id ''h'', aj_bind = None\<rparr>] # []"
  "list_all admits_nothing (tx_steps barrier_transaction)" "completes_path barrier_path"
  "\<not> recovery_ok barrier_analysis context_empty barrier_transaction"
  "\<not> natural_ok barrier_analysis context_empty barrier_transaction"
  "recoverability_is_proven (fst (recoverability_check_requirement ping_model (Id ''p'') barrier_operation
     ping_key CrResumable {}))"
  by code_simp+

theorem barrier_after_commit_exempt_witness:
  "\<lparr>trs_transaction = Id ''place'', trs_resolution = RsTerminalStep\<rparr>
     \<in> set (pf_transactions (findings_of_path barrier_analysis barrier_path))
   \<and> \<not> recovery_ok barrier_analysis context_empty barrier_transaction
   \<and> \<not> natural_ok barrier_analysis context_empty barrier_transaction
   \<and> recoverability_is_proven (fst (recoverability_check_requirement ping_model (Id ''p'') barrier_operation
       ping_key CrResumable {}))"
proof -
  have "tx_id barrier_transaction = Id ''place''" by (simp add: barrier_transaction_def order_transaction_def)
  then show ?thesis
    using barrier_after_commit_exempt [OF barrier_facts(1) _ barrier_facts(2,3), of barrier_analysis]
      barrier_facts(4-6) by simp
qed

end
