(* ===== verification/Validate_Unique.thy ===== *)
theory Validate_Unique
  imports Validate_Grounded Validate_Flow Replay_Guarantees
begin

text \<open>
  Unique ids: the first pass of validation is exact, and on a model it accepts a path binds each
  artifact once, which is what the replay provers rest on.
\<close>

section \<open>Uniqueness\<close>

lemma duplicate_ids_none:
  "duplicate_ids seen es = [] \<longleftrightarrow> distinct (map fst es) \<and> set (map fst es) \<inter> fst ` set seen = {}"
proof (induction seen es rule: duplicate_ids.induct)
  case (2 seen e es)
  show ?case
  proof (cases "bm_get seen (fst e)")
    case None
    then have "fst e \<notin> fst ` set seen" by (simp add: map_of_eq_None_iff)
    moreover have "fst ` set (bm_insert (fst e) (declaration_of e) seen) = insert (fst e) (fst ` set seen)"
      using bm_keys_insert [of "fst e" "declaration_of e" seen] by simp
    ultimately show ?thesis using 2 None by auto
  next
    case (Some d)
    then have "fst e \<in> fst ` set seen" by (force dest: map_of_SomeD)
    then show ?thesis using Some by auto
  qed
qed simp

lemma unique_declarations: "validate_global_id_uniqueness m = [] \<longleftrightarrow> distinct (map fst (model_declarations m))"
  by (simp add: validate_global_id_uniqueness_def duplicate_ids_none)

section \<open>What the paths of a program bind\<close>

definition program_binds :: "(step_location \<times> operation_step) list \<Rightarrow> id list" where
  "program_binds es = concat (map (\<lambda>(loc, s). concat (map step_binds (inner_steps s))) es)"

lemma program_binds_simps [simp]:
  "program_binds [] = []"
  "program_binds ((loc, s) # es) = concat (map step_binds (inner_steps s)) @ program_binds es"
  "program_binds (es @ fs) = program_binds es @ program_binds fs"
  by (simp_all add: program_binds_def)

lemma path_binds_simps [simp]:
  "path_binds [] = []" "path_binds (s # ss) = path_step_binds s @ path_binds ss"
  "path_binds (ss @ ts) = path_binds ss @ path_binds ts"
  by (simp_all add: path_binds_def)

definition traced :: "walked \<Rightarrow> path_step list set" where
  "traced w = set (fst w) \<union> pa_steps ` set (snd w)"

lemma traced_simps [simp]:
  "traced (goes_on pre s) = {pre @ [s]}"
  "traced (ends_at pre t) = {pre}"
  "traced (join_walks a b) = traced a \<union> traced b"
  "traced (join_all_walks ws) = (\<Union>w \<in> set ws. traced w)"
  "traced (ss, ps) = set ss \<union> pa_steps ` set ps"
  by (auto simp: traced_def goes_on_def ends_at_def join_walks_def join_all_walks_def)

definition binds_within :: "id list \<Rightarrow> path_step list \<Rightarrow> walked \<Rightarrow> bool" where
  "binds_within L pre w \<longleftrightarrow> (\<forall>xs \<in> traced w. \<exists>ys. xs = pre @ ys \<and> subseq (path_binds ys) L)"

lemma within_weaken: "binds_within L pre w \<Longrightarrow> subseq L L' \<Longrightarrow> binds_within L' pre w"
  unfolding binds_within_def by (meson subseq_order.order_trans)

lemma within_join:
  "binds_within L pre u \<Longrightarrow> binds_within L' pre w \<Longrightarrow> binds_within (L @ L') pre (join_walks u w)"
  using within_weaken [of L pre u "L @ L'"] within_weaken [of L' pre w "L @ L'"]
  by (auto simp: binds_within_def)

lemma within_goes_on: "path_step_binds s = L \<Longrightarrow> binds_within L pre (goes_on pre s)"
  by (simp add: binds_within_def)

lemma within_ends_at: "binds_within L pre (ends_at pre t)"
  by (simp add: binds_within_def)

lemma within_after:
  assumes "binds_within L (pre @ [d]) w"
  shows "binds_within (path_step_binds d @ L) pre w"
  unfolding binds_within_def
proof
  fix xs assume "xs \<in> traced w"
  then obtain ys where "xs = (pre @ [d]) @ ys" "subseq (path_binds ys) L" using assms by (auto simp: binds_within_def)
  then show "\<exists>ys. xs = pre @ ys \<and> subseq (path_binds ys) (path_step_binds d @ L)"
    by (intro exI [of _ "d # ys"]) (simp add: subseq_append')
qed

lemma within_decided: "binds_within L (pre @ [PsDecision loc d]) w \<Longrightarrow> binds_within L pre w"
  using within_after [of L pre "PsDecision loc d" w] by simp

definition all_within :: "id list \<Rightarrow> path_step list list \<Rightarrow> walked \<Rightarrow> bool" where
  "all_within L os w \<longleftrightarrow> (\<forall>xs \<in> traced w. \<exists>pre \<in> set os. \<exists>ys. xs = pre @ ys \<and> subseq (path_binds ys) L)"

lemma within_all:
  assumes "\<And>pre. binds_within L pre (f pre)"
  shows "all_within L os (join_all_walks (map f os))"
  using assms by (fastforce simp: all_within_def binds_within_def)

lemma all_within_steps:
  assumes "all_within L os (nx, out)" "all_within L' nx w"
  shows "all_within (L @ L') os (join_walks ([], out) w)"
  unfolding all_within_def
proof
  fix xs assume "xs \<in> traced (join_walks ([], out) w)"
  then consider "xs \<in> pa_steps ` set out" | "xs \<in> traced w" by auto
  then show "\<exists>pre \<in> set os. \<exists>ys. xs = pre @ ys \<and> subseq (path_binds ys) (L @ L')"
  proof cases
    case 1
    then have "xs \<in> traced (nx, out)" by auto
    from bspec [OF assms(1) [unfolded all_within_def] this] obtain pre ys where
      "pre \<in> set os" "xs = pre @ ys" "subseq (path_binds ys) L" by blast
    then show ?thesis using subseq_order.order_trans [of _ L "L @ L'"] by auto
  next
    case 2
    then obtain mid zs where mid: "mid \<in> set nx" "xs = mid @ zs" "subseq (path_binds zs) L'"
      using assms(2) by (auto simp: all_within_def)
    then have "mid \<in> traced (nx, out)" by auto
    from bspec [OF assms(1) [unfolded all_within_def] this] obtain pre ys where
      "pre \<in> set os" "mid = pre @ ys" "subseq (path_binds ys) L" by blast
    with mid show ?thesis
      by (intro bexI [of _ pre] exI [of _ "ys @ zs"]) (simp_all add: list_emb_append_mono)
  qed
qed

lemma walk_binds:
  "binds_within (program_binds (collect_block parent a b)) pre (walk_block pre parent a b)"
  "all_within (program_binds (collect_steps parent a i ss)) os (walk_steps os parent a i ss)"
  "binds_within (program_binds ((loc, s) # collect_nested loc s)) pre (walk_step pre loc s)"
  "binds_within (program_binds (collect_errors loc errs)) pre (walk_errors pre loc r errs)"
proof (induction parent a b and parent a i ss and loc s and loc errs arbitrary: pre and os and pre and pre r
    rule: collect_block_collect_steps_collect_nested_collect_errors.induct)
  case (1 parent a ss)
  then show ?case using "1" [of "[pre]"] by (auto simp: all_within_def binds_within_def)
next
  case (2 parent a i)
  show ?case by (auto simp: all_within_def intro!: bexI exI [of _ "[]"])
next
  case (3 parent a i s ss)
  let ?loc = "descend parent a i"
  obtain nx out where w: "join_all_walks (map (\<lambda>pre. walk_step pre ?loc s) os) = (nx, out)" by (rule prod.exhaust)
  have first: "all_within (program_binds ((?loc, s) # collect_nested ?loc s)) os (nx, out)"
    unfolding w [symmetric] by (rule within_all) (rule "3.IH"(1))
  have rest: "all_within (program_binds (collect_steps parent a (Suc i) ss)) nx (walk_steps nx parent a (Suc i) ss)"
    by (rule "3.IH"(2))
  show ?case
  proof (cases "nx = []")
    case True
    have "all_within (program_binds (collect_steps parent a (Suc i) ss)) [] ([], [])" by (simp add: all_within_def)
    from all_within_steps [OF first [unfolded True] this] show ?thesis using w True by (simp add: join_walks_def)
  next
    case False
    then show ?thesis using all_within_steps [OF first rest] w by simp
  qed
next
  case (5 loc t b)
  have "binds_within [] (pre @ [PsTransaction loc t])
      (goes_on (pre @ [PsTransaction loc t]) (PsDecision loc (DcTransaction (tx_id t) ToCommitted)))"
    by (rule within_goes_on) simp
  from within_join [OF within_after [OF this] within_decided [OF 5]] show ?case
    by (simp add: inner_steps_def)
next
  case (6 loc r ok errs)
  have "binds_within (program_binds (collect_block loc (Some ArmOk) ok) @ program_binds (collect_errors loc errs)) pre
      (walk_step pre loc (OsMatchResult r ok errs))"
    unfolding walk_step.simps by (rule within_join [OF within_decided [OF 6(1)] 6(2)])
  then show ?case by (simp add: inner_steps_def)
next
  case (7 loc c b)
  have "binds_within [] pre (goes_on pre (PsDecision loc (DcBranch c ArmOtherwise)))" by (rule within_goes_on) simp
  from within_join [OF within_decided [OF 7] this] show ?case by (simp add: inner_steps_def)
next
  case (8 loc c b d)
  have "binds_within (program_binds (collect_block loc (Some ArmThen) b) @ program_binds (collect_block loc (Some ArmOtherwise) d))
      pre (walk_step pre loc (OsBranch c b (Some d)))"
    unfolding walk_step.simps by (rule within_join [OF within_decided [OF 8(1)] within_decided [OF 8(2)]])
  then show ?case by (simp add: inner_steps_def)
next
  case (10 loc)
  show ?case by (simp add: binds_within_def)
next
  case (11 loc e b errs)
  have "binds_within (program_binds (collect_block loc (Some (ArmErr e)) b) @ program_binds (collect_errors loc errs))
      pre (walk_errors pre loc r ((e, b) # errs))"
    unfolding walk_errors.simps by (rule within_join [OF within_decided [OF 11(1)] 11(2)])
  then show ?case by simp
qed (simp_all add: inner_steps_def within_goes_on within_ends_at)

lemma path_binds_program:
  assumes "p \<in> set (paths b)"
  shows "subseq (path_binds (pa_steps p)) (program_binds (steps_with_locations b))"
proof -
  have "pa_steps p \<in> traced (walk_block [] [] None b)"
    using assms by (cases "walk_block [] [] None b") (auto simp: paths_def)
  then show ?thesis using walk_binds(1) [of "[]" None b "[]"] by (auto simp: binds_within_def steps_with_locations_def)
qed

text \<open>What transactions bind is declared under its own id.\<close>

lemma step_binds_declared: "subseq (step_binds s) (map fst (tx_step_declarations opn t s))"
  by (cases s) (simp_all add: comp_def)

lemma subseq_concat: "list_all2 subseq xs ys \<Longrightarrow> subseq (concat xs) (concat ys)"
  by (induction rule: list_all2_induct) (simp_all add: list_emb_append_mono)

lemma subseq_concat_map: "(\<And>x. x \<in> set xs \<Longrightarrow> subseq (f x) (g x)) \<Longrightarrow> subseq (concat (map f xs)) (concat (map g xs))"
  by (rule subseq_concat) (simp add: list_all2_conv_all_nth)

lemma inner_binds_declared:
  "subseq (concat (map step_binds (inner_steps s))) (map fst (step_declarations opn s))"
proof (cases s)
  case (OsTransaction t r)
  have "subseq (concat (map step_binds (tx_steps t)))
      (concat (map (\<lambda>x. map fst (tx_step_declarations opn (tx_id t) x)) (tx_steps t)))"
    by (rule subseq_concat_map) (rule step_binds_declared)
  then have "subseq (concat (map step_binds (tx_steps t)))
      (map fst (concat (map (tx_step_declarations opn (tx_id t)) (tx_steps t))))"
    by (simp add: map_concat comp_def)
  then show ?thesis using OsTransaction by (simp add: inner_steps_def list_emb_Cons)
qed (simp_all add: inner_steps_def)

lemma program_binds_declared:
  "subseq (program_binds (steps_with_locations (op_program d))) (map fst (operation_declarations (opn, d)))"
proof -
  let ?es = "steps_with_locations (op_program d)"
  have "subseq (program_binds ?es) (concat (map (\<lambda>e. map fst (step_declarations opn (snd e))) ?es))"
    unfolding program_binds_def
    by (rule subseq_concat_map) (simp add: inner_binds_declared split: prod.split)
  also have "concat (map (\<lambda>e. map fst (step_declarations opn (snd e))) ?es)
      = map fst (concat (map (step_declarations opn) (program_steps (op_program d))))"
    by (simp add: map_concat program_steps_def comp_def)
  finally have "subseq (program_binds ?es) (map fst (concat (map (step_declarations opn) (program_steps (op_program d)))))" .
  then show ?thesis
    using subseq_order.order_trans
      [OF _ list_emb_append2 [OF subseq_order.order_refl, where zs = "opn # bm_keys (op_inputs d)"]]
    by (simp add: operation_declarations_def comp_def)
qed

lemma distinct_operation:
  assumes "distinct (map fst (model_declarations m))" "(opn, d) \<in> set (md_operations m)"
  shows "distinct (map fst (operation_declarations (opn, d)))"
proof -
  have "distinct (map fst (concat (map operation_declarations (md_operations m))))"
    using assms(1) by (simp add: model_declarations_def)
  then have "distinct (concat (map (\<lambda>e. map fst (operation_declarations e)) (md_operations m)))"
    by (simp add: map_concat comp_def)
  then show ?thesis using assms(2) by (auto simp: distinct_concat_iff)
qed

lemma distinct_subseq: "subseq xs ys \<Longrightarrow> distinct ys \<Longrightarrow> distinct xs"
  by (induction rule: list_emb.induct) (auto dest: list_emb_set)

lemma validated_path_binds:
  assumes "validate_global_id_uniqueness m = []" "(opn, d) \<in> set (md_operations m)" "p \<in> set (paths (op_program d))"
  shows "distinct (path_binds (pa_steps p))"
proof -
  have "distinct (map fst (operation_declarations (opn, d)))"
    using distinct_operation assms(1,2) by (simp add: unique_declarations)
  then show ?thesis
    using distinct_subseq path_binds_program [OF assms(3)] program_binds_declared by blast
qed

end
