(* ===== verification/Validate_Declared.thy ===== *)
theory Validate_Declared
  imports Validate_Unique
begin

text \<open>
  What the index knows is declared: the entry of an id names a declaration of the model, and each
  kind of declaration has its place. These facts are what the reference pass leaves to the later
  passes.
\<close>

section \<open>Entries of the index\<close>

lemma insert_all_fold:
  "bm_get (fold (\<lambda>(k, v). bm_insert k v) es acc) i = Some v \<Longrightarrow> (i, v) \<in> set es \<or> bm_get acc i = Some v"
  by (induction es arbitrary: acc) (fastforce split: if_splits)+

lemma insert_all_get: "bm_get (insert_all es) i = Some v \<Longrightarrow> (i, v) \<in> set es"
  unfolding insert_all_def using insert_all_fold [of es "[]" i v] by auto

lemma insert_all_keeps:
  "i \<in> fst ` set es \<or> bm_get acc i \<noteq> None \<Longrightarrow> bm_get (fold (\<lambda>(k, v). bm_insert k v) es acc) i \<noteq> None"
  by (induction es arbitrary: acc) auto

lemma insert_all_has: "(i, v) \<in> set es \<Longrightarrow> bm_get (insert_all es) i \<noteq> None"
  unfolding insert_all_def by (rule insert_all_keeps) force

lemma index_entry_declared:
  "index_get (build_reference_index m) i = Some info \<Longrightarrow> (i, ri_kind info, ri_owner info) \<in> set (model_declarations m)"
  by (auto simp: index_get_def build_reference_index_def declaration_entries_def dest!: insert_all_get)

lemma declared_index_entry:
  "(i, k, w) \<in> set (model_declarations m) \<Longrightarrow> index_get (build_reference_index m) i \<noteq> None"
  by (auto simp: index_get_def build_reference_index_def declaration_entries_def
      intro!: insert_all_has [where v = "\<lparr>ri_kind = k, ri_owner = w\<rparr>", simplified] image_eqI [where x = "(i, k, w)"])

lemma expected_kind: "expected ix subj k r = [] \<longleftrightarrow> is_kind ix k r"
  by (auto simp: expect_reference_def is_kind_def split: option.split)

lemma kind_entry: "is_kind ix k r \<longleftrightarrow> (\<exists>info. index_get ix r = Some info \<and> ri_kind info = k)"
  by (auto simp: is_kind_def)

section \<open>The places of declarations\<close>

definition program_tx_step :: "model \<Rightarrow> id \<Rightarrow> tx_step \<Rightarrow> bool" where
  "program_tx_step m opn s \<longleftrightarrow> (opn, s) \<in> set (all_tx_steps m)"

definition program_step :: "model \<Rightarrow> id \<Rightarrow> operation_step \<Rightarrow> bool" where
  "program_step m opn s \<longleftrightarrow> (opn, s) \<in> set (all_steps m)"

lemma program_step_iff:
  "program_step m opn s \<longleftrightarrow> (\<exists>d. (opn, d) \<in> set (md_operations m) \<and> s \<in> set (program_steps (op_program d)))"
  by (force simp: program_step_def all_steps_def)

lemma program_tx_step_iff: "program_tx_step m opn s \<longleftrightarrow> (\<exists>t r. program_step m opn (OsTransaction t r) \<and> s \<in> set (tx_steps t))"
  by (force simp: program_tx_step_def all_tx_steps_def program_step_def inner_steps_def split: operation_step.splits)

lemma bm_containsI: "(i, v) \<in> set es \<Longrightarrow> bm_contains es i"
  by (force simp: bm_contains_iff)

lemma bm_contains_key: "i \<in> set (bm_keys es) \<Longrightarrow> bm_contains es i"
  by (simp add: bm_contains_iff)

fun placed :: "model \<Rightarrow> id \<Rightarrow> reference_kind \<Rightarrow> id option \<Rightarrow> bool" where
  "placed m i RkSchema w = (bm_contains (md_schemas m) i)"
| "placed m i RkTopic w = (bm_contains (md_topics m) i)"
| "placed m i RkDataObject w =
     (\<exists>v dm. w = Some v \<and> (v, dm) \<in> set (md_data_models m) \<and> bm_contains (dm_objects dm) i)"
| "placed m i RkOutbox w =
     (\<exists>v dm. w = Some v \<and> (v, dm) \<in> set (md_data_models m) \<and> bm_contains (dm_outboxes dm) i)"
| "placed m i RkStateMachine w = (bm_contains (md_state_machines m) i)"
| "placed m i RkTransition w =
     (\<exists>v sm. w = Some v \<and> (v, sm) \<in> set (md_state_machines m) \<and> bm_contains (sm_transitions sm) i)"
| "placed m i RkOperation w = (bm_contains (md_operations m) i)"
| "placed m i RkInput w =
     (\<exists>v d. w = Some v \<and> (v, d) \<in> set (md_operations m) \<and> bm_contains (op_inputs d) i)"
| "placed m i RkEffect w =
     (\<exists>v. w = Some v \<and> (bm_contains (md_operations m) v
        \<or> (\<exists>x sm. (x, sm) \<in> set (md_state_machines m) \<and> bm_contains (sm_transitions sm) v)))"
| "placed m i RkTransactionOutput w =
     (\<exists>opn s. program_tx_step m opn (TsEstablishTransactionOutput s) \<and> eo_bind s = i)"
| "placed m i k w = True"

lemma tx_step_placed:
  assumes "(i, k, w) \<in> set (tx_step_declarations opn t s)" "program_tx_step m opn s"
  shows "placed m i k w"
proof -
  have "bm_contains (md_operations m) opn"
    using assms(2) by (auto simp: program_tx_step_iff program_step_iff intro: bm_containsI)
  with assms show ?thesis by (cases s) auto
qed

lemma bind_placed: "(i, k, w) \<in> set (bind_declaration opn b) \<Longrightarrow> placed m i k w"
  by (auto simp: bind_declaration_def split: option.splits)

lemma step_placed:
  assumes "(i, k, w) \<in> set (step_declarations opn s)" "program_step m opn s"
  shows "placed m i k w"
proof -
  have op: "bm_contains (md_operations m) opn" using assms(2) by (auto simp: program_step_iff intro: bm_containsI)
  show ?thesis
  proof (cases s)
    case (OsTransaction t r)
    then consider "k = RkTransaction" | x where "x \<in> set (tx_steps t)" "(i, k, w) \<in> set (tx_step_declarations opn (tx_id t) x)"
      using assms(1) by auto
    then show ?thesis
    proof cases
      case 2
      then have "program_tx_step m opn x" using assms(2) OsTransaction by (auto simp: program_tx_step_iff)
      with 2(2) show ?thesis by (rule tx_step_placed)
    qed simp
  qed (use assms(1) op in \<open>auto dest: bind_placed [where m = m]\<close>)
qed

lemma declaration_placed: "(i, k, w) \<in> set (model_declarations m) \<Longrightarrow> placed m i k w"
proof -
  assume "(i, k, w) \<in> set (model_declarations m)"
  then consider
      (simple) "k = RkService \<or> k = RkExecutionPool \<or> k = RkRouter \<or> k = RkStorageLayout"
    | (schema) x where "k = RkSchema" "(i, x) \<in> set (md_schemas m)"
    | (topic) x where "k = RkTopic" "(i, x) \<in> set (md_topics m)"
    | (data) v dm where "(v, dm) \<in> set (md_data_models m)" "(i, k, w) \<in> set (data_model_declarations (v, dm))"
    | (machine) v sm where "(v, sm) \<in> set (md_state_machines m)" "(i, k, w) \<in> set (machine_declarations (v, sm))"
    | (operation) v d where "(v, d) \<in> set (md_operations m)" "(i, k, w) \<in> set (operation_declarations (v, d))"
    unfolding model_declarations_def runtime_declarations_def
    by (auto split: option.splits)
  then show ?thesis
  proof cases
    case simple then show ?thesis by auto
  next
    case schema then show ?thesis by (auto intro: bm_containsI)
  next
    case topic then show ?thesis by (auto intro: bm_containsI)
  next
    case data then show ?thesis by (fastforce simp: data_model_declarations_def intro: bm_containsI)
  next
    case machine
    then show ?thesis by (fastforce simp: machine_declarations_def transition_declarations_def intro: bm_containsI)
  next
    case operation
    then consider "k = RkOperation" "i = v" | x where "k = RkInput" "w = Some v" "(i, x) \<in> set (op_inputs d)"
      | s where "s \<in> set (program_steps (op_program d))" "(i, k, w) \<in> set (step_declarations v s)"
      by (auto simp: operation_declarations_def)
    then show ?thesis
    proof cases
      case 1 then show ?thesis using operation(1) by (auto intro: bm_containsI)
    next
      case 2 then show ?thesis using operation(1) by (auto intro: bm_containsI)
    next
      case 3
      then have "program_step m v s" using operation(1) by (auto simp: program_step_iff)
      with 3(2) show ?thesis by (rule step_placed)
    qed
  qed
qed

lemma kind_placed: "is_kind (build_reference_index m) k i \<Longrightarrow> \<exists>w. placed m i k w"
  using index_entry_declared declaration_placed by (fastforce simp: kind_entry)

section \<open>Sources of fragments\<close>

lemma schema_kind: "is_kind (build_reference_index m) RkSchema s \<Longrightarrow> bm_contains (md_schemas m) s"
  using kind_placed [of m RkSchema s] by simp

lemma references_sources:
  assumes "validate_references m (build_reference_index m) = []"
  shows "sources_declared m"
  using assms
  by (fastforce simp: validate_references_def validate_schema_references_def sources_declared_def list_all_iff
      expected_kind intro: schema_kind split: schema.splits)

end
