(* ===== verification/Validate_Exact.thy ===== *)
theory Validate_Exact
  imports Validate_Flow
begin

text \<open>
  The definite-availability analysis is exact for artifacts, result bindings and handles: what it
  grants at the end of a block is the intersection, over all paths that fall through it, of what
  they provide; and it reports a program as not terminated exactly if a path falls off its end. The
  contract of the three tracked sets is the locale \<open>tracked\<close>.
\<close>

section \<open>Open paths\<close>

text \<open>What a walk leaves open depends on its prefix only by extending it.\<close>

definition opens :: "walked \<Rightarrow> path_step list set" where
  "opens w = set (fst w)"

lemma opens_simps [simp]:
  "opens (goes_on pre s) = {pre @ [s]}"
  "opens (ends_at pre t) = {}"
  "opens (join_walks a b) = opens a \<union> opens b"
  "opens (join_all_walks ws) = (\<Union>w \<in> set ws. opens w)"
  "opens (ss, ps) = set ss"
  by (simp_all add: opens_def goes_on_def ends_at_def join_walks_def join_all_walks_def)

lemma opens_steps:
  "opens (walk_steps os parent a i (s # ss)) =
     opens (walk_steps (fst (join_all_walks (map (\<lambda>pre. walk_step pre (descend parent a i) s) os))) parent a (Suc i) ss)"
proof (cases "join_all_walks (map (\<lambda>pre. walk_step pre (descend parent a i) s) os)")
  case (Pair nx ps)
  have "opens (walk_steps [] parent a (Suc i) ss) = {}"
    by (induction ss arbitrary: i) (simp_all add: join_all_walks_def)
  then show ?thesis by (simp add: Pair)
qed

definition extend_all :: "path_step list set \<Rightarrow> path_step list set \<Rightarrow> path_step list set" where
  "extend_all A B = (\<Union>a \<in> A. (@) a ` B)"

lemma extend_single: "extend_all {a} B = (@) a ` B" "extend_all A {[]} = A" "extend_all {[]} B = B"
  by (auto simp: extend_all_def)

lemma extend_assoc: "extend_all (extend_all A B) C = extend_all A (extend_all B C)"
  by (auto simp: extend_all_def image_iff)

lemma extend_Un: "extend_all A (B \<union> C) = extend_all A B \<union> extend_all A C"
  by (auto simp: extend_all_def)

definition shifts :: "(path_step list \<Rightarrow> walked) \<Rightarrow> bool" where
  "shifts w \<longleftrightarrow> (\<forall>pre. opens (w pre) = (@) pre ` opens (w []))"

lemma shiftsD: "shifts w \<Longrightarrow> opens (w pre) = (@) pre ` opens (w [])"
  unfolding shifts_def by (rule spec)

lemma shifts_goes_on: "shifts (\<lambda>pre. goes_on pre s)"
  by (simp add: shifts_def)

lemma shifts_ends_at: "shifts (\<lambda>pre. ends_at pre t)"
  by (simp add: shifts_def)

lemma shifts_empty: "shifts (\<lambda>pre. ([], []))"
  by (simp add: shifts_def)

lemma shifts_join:
  assumes "shifts u" "shifts w" shows "shifts (\<lambda>pre. join_walks (u pre) (w pre))"
  unfolding shifts_def
proof
  fix pre
  show "opens (join_walks (u pre) (w pre)) = (@) pre ` opens (join_walks (u []) (w []))"
    unfolding opens_simps image_Un shiftsD [OF assms(1), of pre] shiftsD [OF assms(2), of pre] by (rule refl)
qed

lemma shifts_decided:
  assumes "shifts w" shows "shifts (\<lambda>pre. w (pre @ [d]))"
  unfolding shifts_def
proof
  fix pre
  show "opens (w (pre @ [d])) = (@) pre ` opens (w ([] @ [d]))"
    unfolding shiftsD [OF assms, of "pre @ [d]"] shiftsD [OF assms, of "[] @ [d]"]
    by (simp add: image_image)
qed

definition shifts_all :: "(path_step list list \<Rightarrow> walked) \<Rightarrow> bool" where
  "shifts_all w \<longleftrightarrow> (\<forall>os. opens (w os) = extend_all (set os) (opens (w [[]])))"

lemma shifts_allD: "shifts_all w \<Longrightarrow> opens (w os) = extend_all (set os) (opens (w [[]]))"
  unfolding shifts_all_def by (rule spec)

lemma shifts_block:
  assumes "shifts_all w" shows "shifts (\<lambda>pre. w [pre])"
  unfolding shifts_def
proof
  fix pre
  have "opens (w [pre]) = extend_all (set [pre]) (opens (w [[]]))" by (rule shifts_allD [OF assms])
  also have "\<dots> = (@) pre ` opens (w [[]])" by (simp add: extend_single)
  finally show "opens (w [pre]) = (@) pre ` opens (w [[]])" .
qed

lemma opens_Cons:
  assumes "shifts (\<lambda>pre. walk_step pre (descend parent a i) s)" "shifts_all (\<lambda>os. walk_steps os parent a (Suc i) ss)"
  shows "opens (walk_steps os parent a i (s # ss)) =
    extend_all (set os) (extend_all (opens (walk_step [] (descend parent a i) s)) (opens (walk_steps [[]] parent a (Suc i) ss)))"
proof -
  let ?S = "opens (walk_step [] (descend parent a i) s)" and ?R = "opens (walk_steps [[]] parent a (Suc i) ss)"
  have nx: "set (fst (join_all_walks (map (\<lambda>pre. walk_step pre (descend parent a i) s) os))) = extend_all (set os) ?S"
  proof -
    have "set (fst (join_all_walks (map (\<lambda>pre. walk_step pre (descend parent a i) s) os)))
        = (\<Union>pre \<in> set os. opens (walk_step pre (descend parent a i) s))"
      by (auto simp: join_all_walks_def opens_def)
    also have "\<dots> = (\<Union>pre \<in> set os. (@) pre ` ?S)" by (intro SUP_cong refl shiftsD [OF assms(1)])
    finally show ?thesis unfolding extend_all_def .
  qed
  show ?thesis
    unfolding opens_steps
    by (subst shifts_allD [OF assms(2)]) (simp only: nx extend_assoc)
qed

lemma shifts_steps:
  assumes "shifts (\<lambda>pre. walk_step pre (descend parent a i) s)" "shifts_all (\<lambda>os. walk_steps os parent a (Suc i) ss)"
  shows "shifts_all (\<lambda>os. walk_steps os parent a i (s # ss))"
  unfolding shifts_all_def
proof
  fix os
  show "opens (walk_steps os parent a i (s # ss)) = extend_all (set os) (opens (walk_steps [[]] parent a i (s # ss)))"
    unfolding opens_Cons [OF assms] by (simp add: extend_single)
qed

lemma walks_shift:
  "shifts (\<lambda>pre. walk_block pre parent a b)"
  "shifts_all (\<lambda>os. walk_steps os parent a i ss)"
  "shifts (\<lambda>pre. walk_step pre loc s)"
  "\<forall>r. shifts (\<lambda>pre. walk_errors pre loc r errs)"
proof (induction parent a b and parent a i ss and loc s and loc errs
    rule: collect_block_collect_steps_collect_nested_collect_errors.induct)
  case (1 parent a ss)
  then show ?case unfolding walk_block.simps by (rule shifts_block)
next
  case (2 parent a i)
  show ?case by (simp add: shifts_all_def extend_single)
next
  case (3 parent a i s ss)
  then show ?case by (rule shifts_steps)
next
  case (5 loc t b)
  have "shifts (\<lambda>pre. goes_on (pre @ [PsTransaction loc t]) (PsDecision loc (DcTransaction (tx_id t) ToCommitted)))"
    by (rule shifts_decided) (rule shifts_goes_on)
  from shifts_join [OF this shifts_decided [OF 5]] show ?case unfolding walk_step.simps .
next
  case (6 loc r ok errs)
  then show ?case unfolding walk_step.simps by (intro shifts_join shifts_decided) blast+
next
  case (7 loc c b)
  then show ?case unfolding walk_step.simps by (intro shifts_join shifts_decided shifts_goes_on)
next
  case (8 loc c b d)
  then show ?case unfolding walk_step.simps by (intro shifts_join shifts_decided)
next
  case (10 loc)
  then show ?case by (simp add: shifts_empty)
next
  case (11 loc e b errs)
  then show ?case unfolding walk_errors.simps by (intro allI shifts_join shifts_decided) blast+
qed (unfold walk_step.simps, (rule shifts_goes_on shifts_ends_at shifts_empty)+)

lemma opens_decided: "opens (walk_block [d] loc a b) = (@) [d] ` opens (walk_block [] loc a b)"
  by (rule shiftsD [OF walks_shift(1)])

lemma opens_sequence:
  "opens (walk_steps [[]] parent a i (s # ss)) =
     extend_all (opens (walk_step [] (descend parent a i) s)) (opens (walk_steps [[]] parent a (Suc i) ss))"
  by (simp only: opens_Cons [OF walks_shift(3,2)]) (simp add: extend_single)

section \<open>Tracked sets\<close>

locale tracked =
  fixes g :: "availability \<Rightarrow> id set"
    and f :: "path_step \<Rightarrow> id set"
  assumes meet: "g (av_meet a b) = g a \<inter> g b"
    and establish: "g (establish_all t st) = g st \<union> f (PsTransaction loc t)"
    and executed: "g (add_bound (xf_bind s) st) = g st \<union> f (PsExecuteEffect loc s)"
    and launched: "g (add_handle (xa_handle s1) st) = g st \<union> f (PsExecuteEffectAsync loc s1)"
    and intent_executed: "g (add_bound (xi_bind s2) st) = g st \<union> f (PsExecuteEffectIntent loc s2)"
    and intent_launched: "g (add_handle (xia_handle s3) st) = g st \<union> f (PsExecuteEffectIntentAsync loc s3)"
    and joined: "g (fold (\<lambda>h. add_bound (aj_bind h)) hs st) = g st \<union> f (PsJoinAll loc hs)"
    and raced: "g (add_bound (rc_bind s4) st) = g st \<union> f (PsRace loc s4)"
    and decided: "f (PsDecision loc d) = {}"
    and selected: "g (st\<lparr>av_ok := x\<rparr>) = g st" "g (st\<lparr>av_err := y\<rparr>) = g st"
begin

definition exact :: "availability \<Rightarrow> availability option \<Rightarrow> path_step list set \<Rightarrow> bool" where
  "exact st out Y \<longleftrightarrow>
     (out = None \<longleftrightarrow> Y = {}) \<and> (\<forall>st'. out = Some st' \<longrightarrow> g st' = g st \<union> (\<Inter>y \<in> Y. over f y))"

lemma exact_join: "exact st a Y \<Longrightarrow> exact st b Z \<Longrightarrow> exact st (av_join a b) (Y \<union> Z)"
  by (cases "(a, b)" rule: av_join.cases) (auto simp: exact_def meet)

lemma exact_seq:
  assumes "exact st (Some st1) Y" "exact st1 out Z"
  shows "exact st out (extend_all Y Z)"
proof -
  have ne: "Y \<noteq> {}" using assms(1) by (auto simp: exact_def)
  have "(\<Inter>y \<in> extend_all Y Z. over f y) = (\<Inter>y \<in> Y. over f y) \<union> (\<Inter>z \<in> Z. over f z)" if "Z \<noteq> {}"
    using ne that by (auto simp: extend_all_def)
  then show ?thesis using assms ne by (auto simp: exact_def extend_all_def)
qed

lemma exact_step: "g st' = g st \<union> f s \<Longrightarrow> exact st (Some st') {[s]}"
  by (simp add: exact_def)

lemma exact_decided: "exact st out Y \<Longrightarrow> exact st out ((@) [PsDecision loc d] ` Y)"
  by (simp add: exact_def decided)

lemma exact_leave: "exact st out Y \<Longrightarrow> exact st (leave_match st' r out) Y"
  by (auto simp: exact_def leave_match_def selected)

lemma exact_select: "exact (st\<lparr>av_ok := x\<rparr>) out Y = exact st out Y" "exact (st\<lparr>av_err := y\<rparr>) out Y = exact st out Y"
  by (simp_all add: exact_def selected)

lemma exact_none: "exact st None {}"
  by (simp add: exact_def)

lemma exact_committed: "exact st (Some (establish_all t st)) {[PsTransaction loc t, PsDecision loc' d]}"
  by (simp add: exact_def establish [of t st loc] decided)

lemma exact_walk:
  "exact st (fst (avail_block m opn parent a st b k)) (opens (walk_block [] parent a b))"
  "exact st (fst (avail_steps m opn parent a n st ss k)) (opens (walk_steps [[]] parent a n ss))"
  "exact st (fst (avail_step m opn loc st s k)) (opens (walk_step [] loc s))"
  "\<forall>Y. exact st (fst fl) Y
     \<longrightarrow> exact st (fst (avail_errors m opn loc st r errs fl)) (Y \<union> opens (walk_errors [] loc r errs))"
proof (induction m opn parent a st b k and m opn parent a n st ss k and m opn loc st s k and m opn loc st r errs fl
    rule: avail_block_avail_steps_avail_step_avail_errors.induct)
  case (2 m opn parent a n st k)
  show ?case by (simp add: exact_def)
next
  case (3 m opn parent a n st s ss k)
  obtain out1 k1 where av: "avail_step m opn (descend parent a n) st s k = (out1, k1)" by (rule prod.exhaust)
  show ?case
  proof (cases out1)
    case None
    then have "opens (walk_step [] (descend parent a n) s) = {}" using 3(1) av by (simp add: exact_def)
    then show ?thesis unfolding opens_sequence by (simp add: None av extend_all_def exact_none)
  next
    case (Some st1)
    have e: "exact st (Some st1) (opens (walk_step [] (descend parent a n) s))" using 3(1) av Some by simp
    show ?thesis
      unfolding opens_sequence using exact_seq [OF e 3(2) [OF av [symmetric] Some]] by (simp add: Some av)
  qed
next
  case (4 m opn loc st t rejected k)
  show ?case
  proof (cases rejected)
    case None
    then show ?thesis by (simp add: exact_step establish)
  next
    case (Some b)
    obtain outb k' where av: "avail_block m opn loc (Some ArmRejected) st b (judge_transaction m opn st loc t rejected k) = (outb, k')"
      by (rule prod.exhaust)
    have "exact st outb (opens (walk_block [] loc (Some ArmRejected) b))" using 4 [OF Some] av by simp
    from exact_join [OF exact_committed exact_decided [OF this]] show ?thesis
      using Some av by (simp add: opens_decided)
  qed
next
  case (11 m opn loc st r ok errs k)
  let ?k = "if r \<in> av_bound st then k else complain_of (OfProgram (VeEffectResultNotBound opn loc r PuMatch)) k"
  obtain out1 k1 where av: "avail_block m opn loc (Some ArmOk) (st\<lparr>av_ok := insert r (av_ok st)\<rparr>) ok ?k = (out1, k1)"
    by (rule prod.exhaust)
  obtain out k2 where ae: "avail_errors m opn loc st r errs (out1, k1) = (out, k2)" by (rule prod.exhaust)
  have "exact st out1 (opens (walk_block [] loc (Some ArmOk) ok))"
    using 11(1) unfolding av by (simp add: exact_select)
  from exact_decided [OF this] have "exact st out (opens (walk_step [] loc (OsMatchResult r ok errs)))"
    using 11(2) unfolding av ae by (simp add: opens_decided)
  then show ?case by (simp only: avail_step.simps av ae prod.case fst_conv exact_leave)
next
  case (12 m opn loc st c b otherwise k)
  let ?k = "require_all opn st loc PuCondition (condition_roots c) k"
  obtain thn k1 where av: "avail_block m opn loc (Some ArmThen) st b ?k = (thn, k1)" by (rule prod.exhaust)
  have t: "exact st thn ((@) [PsDecision loc (DcBranch c ArmThen)] ` opens (walk_block [] loc (Some ArmThen) b))"
    using 12(1) av by (intro exact_decided) simp
  show ?case
  proof (cases otherwise)
    case None
    have "exact st (Some st) {[PsDecision loc (DcBranch c ArmOtherwise)]}"
      by (rule exact_step) (simp add: decided)
    from exact_join [OF t this] show ?thesis using None av by (simp add: opens_decided)
  next
    case (Some d)
    obtain els k2 where ae: "avail_block m opn loc (Some ArmOtherwise) st d k1 = (els, k2)" by (rule prod.exhaust)
    have "exact st els ((@) [PsDecision loc (DcBranch c ArmOtherwise)] ` opens (walk_block [] loc (Some ArmOtherwise) d))"
      using 12(2) [OF av [symmetric] Some] ae by (intro exact_decided) simp
    from exact_join [OF t this] show ?thesis using Some av ae by (simp add: opens_decided)
  qed
next
  case (17 m opn loc st r e b errs fl)
  obtain out k where fl: "fl = (out, k)" by (rule prod.exhaust)
  obtain arm k1 where av:
    "avail_block m opn loc (Some (ArmErr e)) (st\<lparr>av_err := bm_insert r e (av_err st)\<rparr>) b k = (arm, k1)"
    by (rule prod.exhaust)
  have a: "exact st arm ((@) [PsDecision loc (DcMatch r (ArmResErr e))] ` opens (walk_block [] loc (Some (ArmErr e)) b))"
    using 17(1) [OF fl [symmetric]] av by (intro exact_decided) (simp add: exact_select)
  show ?case
  proof (intro allI impI)
    fix Y assume "exact st (fst fl) Y"
    then have "exact st (av_join out arm) (Y \<union> (@) [PsDecision loc (DcMatch r (ArmResErr e))] ` opens (walk_block [] loc (Some (ArmErr e)) b))"
      using exact_join a by (simp add: fl)
    then have "exact st (fst (av_join out arm, k1)) (Y \<union> (@) [PsDecision loc (DcMatch r (ArmResErr e))] ` opens (walk_block [] loc (Some (ArmErr e)) b))"
      by simp
    from mp [OF spec [OF 17(2) [OF fl [symmetric] av [symmetric]]] this]
    show "exact st (fst (avail_errors m opn loc st r ((e, b) # errs) fl)) (Y \<union> opens (walk_errors [] loc r ((e, b) # errs)))"
      by (simp add: fl av opens_decided Un_assoc)
  qed
qed (simp_all add: exact_step exact_none executed launched intent_executed intent_launched joined raced)

end

interpretation artifacts: tracked av_artifacts step_artifacts
  by unfold_locales (auto simp: av_meet_def establish_all_def add_bound_def add_handle_def fold_bound split: option.split)

interpretation bindings: tracked av_bound step_bound
  by unfold_locales (auto simp: av_meet_def establish_all_def add_bound_def add_handle_def fold_bound split: option.split)

interpretation handles: tracked av_handles step_handles
  by unfold_locales (auto simp: av_meet_def establish_all_def add_bound_def add_handle_def fold_bound split: option.split)

end
