(* ===== verification/Validate_Guarantees.thy ===== *)
theory Validate_Guarantees
  imports Validate_Declared Validate_Exact
begin

text \<open>
  What model validation promises: what a validated program consumes is there on every path, the
  availability analysis is exact, ids are unique, what the replay provers prove of validated models,
  and where resolution of field paths returns and where it does not.
\<close>

section \<open>A sample model\<close>

definition id_field :: "value_source \<Rightarrow> value_ref" where
  "id_field src = ValueRef src (FieldPath [''id''])"

definition shop_key :: idempotency_key where
  "shop_key = \<lparr>ik_components = [id_field (VsInput (Id ''in''))]\<rparr>"

definition shop_transaction :: transaction where
  "shop_transaction = \<lparr>tx_id = Id ''place'', tx_data_model = Some (Id ''orders''), tx_isolation = IsoSerializable,
     tx_idempotency = IgDeduplicatedBy shop_key, tx_requirements = \<lparr>tr_serializability = [], tr_ordering = []\<rparr>,
     tx_steps = [TsInsert \<lparr>in_object = Id ''OrderRow'', in_values = Deterministic [id_field (VsInput (Id ''in''))]\<rparr>,
       TsEstablishTransactionOutput \<lparr>eo_bind = Id ''receipt'', eo_schema = Id ''Order'',
         eo_values = Deterministic [id_field (VsInput (Id ''in''))]\<rparr>]\<rparr>"

definition shop_program :: operation_block where
  "shop_program = Block
     [OsTransaction shop_transaction None,
      OsBranch (CondPresent (id_field (VsTransactionOutput (Id ''receipt''))))
        (Block [OsReturn \<lparr>ret_request = Id ''in'',
           ret_outcome = OutOk (Deterministic [id_field (VsTransactionOutput (Id ''receipt''))])\<rparr>]) None,
      OsReturn \<lparr>ret_request = Id ''in'', ret_outcome = OutOk (Deterministic [id_field (VsInput (Id ''in''))])\<rparr>]"

definition shop_operation :: operation where
  "shop_operation = \<lparr>op_service = Id ''shop'', op_description = None,
     op_inputs = [(Id ''in'', InRequest \<lparr>ri_schema = Id ''Order'', ri_identity = RiKeyed [FieldPath [''id'']],
        ri_result = \<lparr>rt_ok = Id ''Order'', rt_errors = []\<rparr>\<rparr>)],
     op_program = shop_program,
     op_requirements = \<lparr>oq_idempotency = [], oq_recoverability = [\<lparr>rr_key = shop_key, rr_completion = CrResumable\<rparr>]\<rparr>\<rparr>"

definition shop_model :: model where
  "shop_model = \<lparr>md_dsl = dsl_version, md_revision = 0,
     md_services = [(Id ''shop'', \<lparr>sv_kind = SkBackend\<rparr>)],
     md_schemas = [(Id ''Order'', SchCanonical \<lparr>cs_description = None, cs_completeness = Complete,
        cs_fields = [(''id'', \<lparr>f_ty = TScalar ScString, f_optional = False\<rparr>)]\<rparr>)],
     md_data_models = [(Id ''orders'', \<lparr>dm_objects = [(Id ''OrderRow'', \<lparr>do_schema = Id ''Order'',
        do_identity = [FieldPath [''id'']], do_version = None\<rparr>)], dm_outboxes = []\<rparr>)],
     md_topics = [], md_state_machines = [],
     md_operations = [(Id ''order'', shop_operation)], md_runtime = None\<rparr>"

lemma shop_valid: "validate shop_model = Some []"
  by code_simp

lemma shop_operations: "md_operations shop_model = [(Id ''order'', shop_operation)]"
  by (simp add: shop_model_def)

section \<open>Validated programs\<close>

lemma validated_passes:
  assumes "validate m = Some []"
  shows "validate_global_id_uniqueness m = []" "validate_references m (build_reference_index m) = []"
    "validate_fragment_cycles m = []" "validate_programs m = []"
    "validate_field_paths m (build_reference_index m) = Some []"
proof -
  show u: "validate_global_id_uniqueness m = []" using assms by (simp add: validate_def split: if_splits)
  show r: "validate_references m (build_reference_index m) = []"
    using assms u by (simp add: validate_def Let_def split: if_splits)
  show c: "validate_fragment_cycles m = []" using assms u r by (simp add: validate_def Let_def split: if_splits)
  have "validate_rest m (build_reference_index m) = Some []" using assms validate_after [OF u r c] by simp
  then show "validate_programs m = []" "validate_field_paths m (build_reference_index m) = Some []"
    by (simp_all add: validate_rest_def in_turn_Nil_iff)
qed

text \<open>
  C2. On every path of every program of a validated model, each step finds what it consumes
  established before it on that path (outputs of committed transactions, bound results, selected
  result arms, launched handles, effect intents), and the path ends at a terminal of the program.
\<close>

theorem validated_programs_flow:
  assumes "validate m = Some []" "(opn, d) \<in> set (md_operations m)" "p \<in> set (paths (op_program d))"
  shows "path_met m p"
proof -
  have "program_flow_errors m opn (op_program d) = []"
    using validated_passes(4) [OF assms(1)] assms(2) by (auto simp: validate_programs_def)
  then show ?thesis using assms(3) by (rule program_flow_sound)
qed

theorem validated_programs_flow_witness:
  "length (paths shop_program) = 2 \<and> list_all (path_met shop_model) (paths shop_program)"
proof -
  have "path_met shop_model p" if "p \<in> set (paths shop_program)" for p
    by (rule validated_programs_flow [OF shop_valid, of "Id ''order''" shop_operation])
      (use that in \<open>simp_all add: shop_operations shop_operation_def\<close>)
  moreover have "length (paths shop_program) = 2" by code_simp
  ultimately show ?thesis by (simp add: list_all_iff)
qed

text \<open>
  C8. The availability analysis is exact: from any state, a block falls through if and only if some
  walk of it does, and then the artifacts, bound results and handles it grants beyond those of the
  start are those that all its walks that fall through provide.
\<close>

theorem availability_exact:
  "case fst (avail_block m opn parent a st b k) of
     None \<Rightarrow> opens (walk_block [] parent a b) = {}
   | Some st' \<Rightarrow> opens (walk_block [] parent a b) \<noteq> {}
       \<and> av_artifacts st' = av_artifacts st \<union> (\<Inter>y \<in> opens (walk_block [] parent a b). over step_artifacts y)
       \<and> av_bound st' = av_bound st \<union> (\<Inter>y \<in> opens (walk_block [] parent a b). over step_bound y)
       \<and> av_handles st' = av_handles st \<union> (\<Inter>y \<in> opens (walk_block [] parent a b). over step_handles y)"
proof (cases "fst (avail_block m opn parent a st b k)")
  case None
  then have "artifacts.exact st None (opens (walk_block [] parent a b))"
    using artifacts.exact_walk(1) [of st m opn parent a b k] by simp
  then show ?thesis unfolding None artifacts.exact_def by simp
next
  case (Some st')
  have "artifacts.exact st (Some st') (opens (walk_block [] parent a b))"
    "bindings.exact st (Some st') (opens (walk_block [] parent a b))"
    "handles.exact st (Some st') (opens (walk_block [] parent a b))"
    using artifacts.exact_walk(1) [of st m opn parent a b k] bindings.exact_walk(1) [of st m opn parent a b k]
      handles.exact_walk(1) [of st m opn parent a b k] Some by simp_all
  then show ?thesis
    unfolding Some artifacts.exact_def bindings.exact_def handles.exact_def by simp
qed

section \<open>Unique ids\<close>

lemma duplicate_reported:
  "OfReference (VeDuplicateId i a b) \<in> set (duplicate_ids seen es)
     \<longleftrightarrow> (bm_get seen i = Some a \<and> (\<exists>y \<in> set es. fst y = i \<and> declaration_of y = b))
       \<or> (bm_get seen i = None \<and> (\<exists>pre x mid y post. es = pre @ x # mid @ y # post \<and> fst x = i \<and> fst y = i
            \<and> i \<notin> fst ` set pre \<and> declaration_of x = a \<and> declaration_of y = b))"
proof (induction seen es rule: duplicate_ids.induct)
  case (2 seen e es)
  have split: "(\<exists>pre x mid y post. e # es = pre @ x # mid @ y # post \<and> fst x = i \<and> fst y = i
        \<and> i \<notin> fst ` set pre \<and> declaration_of x = a \<and> declaration_of y = b)
     \<longleftrightarrow> (if fst e = i then declaration_of e = a \<and> (\<exists>y \<in> set es. fst y = i \<and> declaration_of y = b)
          else (\<exists>pre x mid y post. es = pre @ x # mid @ y # post \<and> fst x = i \<and> fst y = i
            \<and> i \<notin> fst ` set pre \<and> declaration_of x = a \<and> declaration_of y = b))" (is "?L = ?R")
  proof
    assume ?L
    then obtain pre x mid y post where w: "e # es = pre @ x # mid @ y # post" "fst x = i" "fst y = i"
      "i \<notin> fst ` set pre" "declaration_of x = a" "declaration_of y = b" by blast
    show ?R
    proof (cases pre)
      case Nil
      then show ?thesis using w by auto
    next
      case (Cons p ps)
      then have "fst e \<noteq> i" "es = ps @ x # mid @ y # post" "i \<notin> fst ` set ps" using w(1,4) by auto
      with w show ?thesis
        by (simp only: if_False) (intro exI [of _ ps] exI [of _ x] exI [of _ mid] exI [of _ y] exI [of _ post], simp)
    qed
  next
    assume r: ?R
    show ?L
    proof (cases "fst e = i")
      case True
      then obtain y where "y \<in> set es" "fst y = i" "declaration_of y = b" "declaration_of e = a" using r by auto
      moreover then obtain mid post where "es = mid @ y # post" by (auto simp: in_set_conv_decomp)
      ultimately show ?thesis using True
        by (intro exI [of _ "[]"] exI [of _ e] exI [of _ mid] exI [of _ y] exI [of _ post]) simp
    next
      case False
      then obtain pre x mid y post where "es = pre @ x # mid @ y # post" "fst x = i" "fst y = i"
        "i \<notin> fst ` set pre" "declaration_of x = a" "declaration_of y = b" using r by auto
      then show ?thesis using False
        by (intro exI [of _ "e # pre"] exI [of _ x] exI [of _ mid] exI [of _ y] exI [of _ post]) simp
    qed
  qed
  show ?case
    unfolding split using 2 by (cases "bm_get seen (fst e)") auto
qed simp

text \<open>
  C15. Uniqueness of ids is reported exactly: an error names an id, its first declaration and a later
  one, in the order of the model, and each such pair is reported; no error means all are distinct.
\<close>

theorem unique_ids_exact:
  "(OfReference (VeDuplicateId i a b) \<in> set (validate_global_id_uniqueness m)
      \<longleftrightarrow> (\<exists>pre x mid y post. model_declarations m = pre @ x # mid @ y # post \<and> fst x = i \<and> fst y = i
            \<and> i \<notin> fst ` set pre \<and> declaration_of x = a \<and> declaration_of y = b))
   \<and> (validate_global_id_uniqueness m = [] \<longleftrightarrow> distinct (map fst (model_declarations m)))"
  using unique_declarations [of m] unfolding validate_global_id_uniqueness_def
  by (simp only: duplicate_reported) simp

section \<open>Replay on validated models\<close>


definition shop_analysis :: replay_analysis where
  "shop_analysis = projr (new_analysis shop_model shop_operation shop_key {})"

lemma shop_facts:
  "recoverability_is_proven (fst (recoverability_check_requirement shop_model (Id ''order'') shop_operation
     shop_key CrResumable {}))"
  "new_analysis shop_model shop_operation shop_key {} = Inr shop_analysis"
  "\<not> admits_no_attempts shop_analysis"
  by code_simp+


section \<open>Fragments\<close>

text \<open>
  C16. The fragment pass is exact for chains of sources: it reports nothing if and only if no schema
  is, through sources, its own source, and each report is such a cycle, spelled from a schema back to
  itself.
\<close>

theorem fragment_cycles_exact:
  "(validate_fragment_cycles m = [] \<longleftrightarrow> acyclic (sourced_from m))
   \<and> list_all (\<lambda>e. \<exists>c. e = OfReference (VeFragmentCycle c) \<and> source_cycle m c) (validate_fragment_cycles m)"
proof -
  have reported: "\<exists>c. e = OfReference (VeFragmentCycle c) \<and> source_cycle m c"
    if "e \<in> set (validate_fragment_cycles m)" for e
    using fragment_cycles_reported that unfolding validate_fragment_cycles_def .
  have "acyclic (sourced_from m)" if "validate_fragment_cycles m = []"
    using grounded_no_cycle [OF cycle_pass_grounds [OF that]] by (auto simp: acyclic_def)
  moreover have "validate_fragment_cycles m = []" if "acyclic (sourced_from m)"
  proof (rule ccontr)
    assume "validate_fragment_cycles m \<noteq> []"
    then obtain e where "e \<in> set (validate_fragment_cycles m)" by (cases "validate_fragment_cycles m") auto
    then obtain c where "source_cycle m c" using reported by blast
    then show False using source_cycle_trancl that by (auto simp: acyclic_def)
  qed
  ultimately show ?thesis unfolding list_all_iff by (intro conjI iffI ballI reported)
qed

text \<open>
  C17. The cycle pass is not enough for resolution to end: where a canonical schema embeds a fragment
  of itself whose mapping goes through the embedding, validation runs into an endless recursion,
  after every earlier pass has accepted the model.
\<close>

theorem embedded_fragment_not_returning:
  assumes "validate_global_id_uniqueness m = []" "validate_references m (build_reference_index m) = []"
    "validate_fragment_cycles m = []" "maps_through_itself m i y"
  shows "validate m = None"
  using validate_after [OF assms(1-3)] stuck_paths [OF self_mapping_paths [OF assms(4)]] by simp

definition embedding_model :: model where
  "embedding_model = \<lparr>md_dsl = dsl_version, md_revision = 0, md_services = [],
     md_schemas = [(Id ''F'', SchFragment \<lparr>sf_source = Id ''S'', sf_mapping = [(''y'', FieldPath [''x'', ''y''])]\<rparr>),
       (Id ''S'', SchCanonical \<lparr>cs_description = None, cs_completeness = Complete,
          cs_fields = [(''x'', \<lparr>f_ty = TSchema (Id ''F''), f_optional = False\<rparr>)]\<rparr>)],
     md_data_models = [], md_topics = [], md_state_machines = [], md_operations = [], md_runtime = None\<rparr>"

lemma embedding_passes:
  "validate_global_id_uniqueness embedding_model = []"
  "validate_references embedding_model (build_reference_index embedding_model) = []"
  "validate_fragment_cycles embedding_model = []"
  by code_simp+

lemma embedding_maps: "maps_through_itself embedding_model (Id ''F'') ''y''"
  by (simp add: maps_through_itself_def embedding_model_def)

theorem embedded_fragment_not_returning_witness: "validate embedding_model = None"
  by (rule embedded_fragment_not_returning [OF embedding_passes embedding_maps])

text \<open>
  C18. A grouping key that maps an undeclared schema is found by the runtime pass, but its paths are
  resolved all the same, against a schema that is not there: validation does not return.
\<close>

theorem undeclared_key_not_returning:
  assumes "validate_global_id_uniqueness m = []" "validate_references m (build_reference_index m) = []"
    "validate_fragment_cycles m = []" "md_runtime m = Some r" "(t, tr) \<in> set (rm_topics r)"
    "tpr_grouping tr = Some key" "bm_contains (md_topics m) t" "(s, p # tuple) \<in> set key"
    "components p \<noteq> []" "\<not> bm_contains (md_schemas m) s"
  shows "validate m = None"
proof -
  have "validate_runtime m (build_reference_index m) = None"
    using undeclared_key_stuck [OF assms(5-10)] assms(4) by (simp add: validate_runtime_def in_turn_stuck)
  then show ?thesis using validate_after [OF assms(1-3)] stuck_runtime by simp
qed

definition grouped_key :: grouping_key where
  "grouped_key = [(Id ''Order'', [FieldPath [''id'']])]"

definition grouped_runtime :: runtime_model where
  "grouped_runtime = runtime_default\<lparr>rm_topics := [(Id ''orders'',
     \<lparr>tpr_grouping = Some grouped_key, tpr_ordering = None\<rparr>)]\<rparr>"

definition grouped_model :: model where
  "grouped_model = \<lparr>md_dsl = dsl_version, md_revision = 0, md_services = [], md_schemas = [],
     md_data_models = [], md_topics = [(Id ''orders'', \<lparr>tp_messages = [], tp_identity = MiUnspecified\<rparr>)],
     md_state_machines = [], md_operations = [],
     md_runtime = Some grouped_runtime\<rparr>"

lemma grouped_passes:
  "validate_global_id_uniqueness grouped_model = []"
  "validate_references grouped_model (build_reference_index grouped_model) = []"
  "validate_fragment_cycles grouped_model = []"
  by code_simp+

theorem undeclared_key_not_returning_witness: "validate grouped_model = None"
proof (rule undeclared_key_not_returning [OF grouped_passes])
  show "(Id ''orders'', \<lparr>tpr_grouping = Some grouped_key, tpr_ordering = None\<rparr>) \<in> set (rm_topics grouped_runtime)"
    by (simp add: grouped_runtime_def)
  show "(Id ''Order'', FieldPath [''id''] # []) \<in> set grouped_key" by (simp add: grouped_key_def)
qed (simp_all add: grouped_model_def bm_contains_def)


lemma shop_resolves:
  "embeds_only_canonical shop_model" "bm_contains (md_schemas shop_model) (Id ''Order'')"
  by code_simp+


end
