(* ===== verification/Spec2Isabelle.thy ===== *)
theory Spec2Isabelle
  imports Analysis_Ordering Design_Progress Validate_Guarantees
begin

text \<open>
  Verification library for Conseqa, a design tool for service systems. A \<^emph>\<open>model\<close> (\<open>src/src/spec\<close>)
  declares services, schemas, data models, topics, state machines and operations; an operation is a
  program of transactions, effects, joins and branches, with requirements on its idempotency,
  recoverability, serializability and order. The \<^emph>\<open>analyzer\<close> (\<open>src/src/analyzer\<close>) decides which
  requirements the model itself proves. The \<^emph>\<open>design engine\<close> (\<open>src/src/design\<close>) lets many agents
  edit a model at once: a task reads a pinned snapshot, submits a patch, and a single commit worker
  judges it against the head (optimistic concurrency control over semantic symbols). The engine
  runs the draft checks of its commit gate on every patch and the analyzer on what was committed.

  \<^bold>\<open>Conventions.\<close> A struct is a record and an enum a datatype with the source's constructors; ids
  are wrapped strings. A \<open>BTreeMap\<close> is a list of pairs sorted by key (\<open>bmap\<close> of \<open>Prelude\<close>, with
  \<open>bm_wf\<close> as its invariant), a \<open>BTreeSet\<close> that is only tested is a set, one that is iterated a
  sorted list. A \<open>Result\<close> is a sum with the error on the left; a panic is a value of its own or is
  shown unreachable. Hashes are of a type of words, revisions and versions are naturals.

  \<^bold>\<open>Theories.\<close>

  \<^item> \<open>Prelude\<close>: ordered maps and sets and iterator adaptors.

  \<^item> The specification: \<open>Spec_Base\<close> (\<open>id.rs\<close>, \<open>schema.rs\<close>: ids with their escaped spelling, types
    with their shorthand parsers), \<open>Spec_Effect\<close>, \<open>Spec_Transaction\<close>, \<open>Spec_Program\<close>
    (\<open>spec/operation\<close>: effects, derivations, transactions, programs with their locations, lookup and
    in-place update), \<open>Spec_Model\<close> (the root and the runtime), \<open>Spec_Sites\<close> (the effect and binding
    sites of a program). Their lemmas show that decoding inverts encoding, that locations identify
    steps and that the mutable lookup of a transaction agrees with the immutable one.

  \<^item> Conflicts, serializability and order (\<open>analyzer/verification\<close>): \<open>Analysis_Values\<close>
    (\<open>value_identity.rs\<close>), \<open>Analysis_Conflicts\<close>, \<open>Analysis_Evidence\<close> and \<open>Analysis_Cycles\<close>
    (\<open>transaction_conflicts.rs\<close>: access index, overlap, closures, dependencies with evidence and
    gaps, Tarjan's components), \<open>Analysis_Serializability\<close> and \<open>Analysis_Ordering\<close> (the provers).
    The provers are sound for a semantics of committed histories that these theories state.

  \<^item> Replay (\<open>analyzer/verification\<close>): \<open>Replay_Paths\<close> (\<open>paths.rs\<close>), \<open>Replay_Trigger\<close>
    (\<open>trigger.rs\<close>), \<open>Replay_Engine\<close> (\<open>replay.rs\<close>: what a retry re-presents), \<open>Replay_Results\<close>,
    \<open>Replay_Idempotency\<close>, \<open>Replay_Recoverability\<close> (the provers), \<open>Replay_Verdicts\<close> and
    \<open>Replay_Report\<close> (\<open>mod.rs\<close>: scopes, notes and the composition of all provers). \<open>Replay_Facts\<close>
    characterises each judgement, \<open>Replay_Monotone\<close> shows the provers monotone in the requirements
    they assume, \<open>Replay_Fixpoints\<close> that the loops settle in fixpoints and scopes are exact,
    \<open>Replay_Recovery\<close> and \<open>Replay_Guarantees\<close> what a proof of recoverability promises.

  \<^item> Model validation (\<open>analyzer/validation\<close>): \<open>Validate_Errors\<close> (\<open>error.rs\<close>, \<open>reference.rs\<close>),
    \<open>Validate_Index\<close> (declarations, unique ids, the reference index), \<open>Validate_Resolve\<close> (field paths
    and what a reference names), \<open>Validate_References\<close>, \<open>Validate_Programs\<close> (definite availability),
    \<open>Validate_Paths\<close>, \<open>Validate_Rules\<close>, \<open>Validate_Managed\<close>, \<open>Validate_Runtime\<close> (\<open>runtime.rs\<close>) and
    \<open>Validate_Model\<close> (\<open>validate\<close>, the diagnostics of one program). \<open>Validate_Flow\<close> and
    \<open>Validate_Exact\<close> relate the availability analysis to the paths of \<open>Replay_Paths\<close>,
    \<open>Validate_Grounded\<close> treats fragments and the ends of resolution, \<open>Validate_Unique\<close> and
    \<open>Validate_Declared\<close> what unique ids and the index give; \<open>Validate_Guarantees\<close> states the results.

  \<^item> Design data: \<open>Design_Symbols\<close>, \<open>Design_Workspace\<close>, \<open>Design_Sketch\<close>, \<open>Design_Patch\<close>,
    \<open>Design_Content\<close>, \<open>Design_Task\<close>; the semantic graph \<open>Design_Graph\<close> with its facts in
    \<open>Design_Snapshot\<close>; queries \<open>Design_Query\<close>; renderings \<open>Design_Render\<close>.

  \<^item> The commit gate (\<open>design/commit.rs\<close>): \<open>Design_Check\<close> (draft checks), \<open>Design_Commit\<close> (applying a
    patch), \<open>Design_Footprint\<close> and \<open>Design_Gate\<close> (what a patch may change and what acceptance means).

  \<^item> The engine (\<open>design/engine.rs\<close>): \<open>Design_Engine\<close> (state, tasks, reads, outcomes) and
    \<open>Design_Protocol\<close> (the commit protocol). \<open>Design_Occ\<close> and \<open>Design_Steps\<close> make it a system of
    interleaved steps beside an abstract commit protocol; \<open>Design_Invariants\<close> and
    \<open>Design_Simulation\<close> show the refinement; \<open>Design_Guarantees\<close> and \<open>Design_Progress\<close> draw the
    conclusions: what is committed, what readers see, what is final, what makes progress.

  \<^bold>\<open>Interfaces.\<close> Locales state what one part needs of another: ordered maps in \<open>Prelude\<close>, versioned
  snapshots in \<open>Design_Snapshot\<close>, the assumption loop of the provers in \<open>Replay_Verdicts\<close>, the sets an
  availability analysis tracks in \<open>Validate_Exact\<close>; each is interpreted on the model's own definitions.

  \<^bold>\<open>Parameters.\<close> Arguments stand for what is not code of this repository or not modelled: the hash
  and the JSON writer, fresh ids and tokens, the outcome of a write to the store, the state of the
  background analysis, the validator's diagnostics of a program and the sketch compiler (both in the
  record \<open>gate\<close>; the validator's are \<open>program_local_diagnostics\<close> before their conversion into texts), and
  the redundant presence checks that the report only lists (\<open>verify_model\<close> computes them).

  \<^bold>\<open>Bounds.\<close> \<open>max_fragment_hops\<close> is the code's own budget. The loops over assumed requirements are
  \<open>settle\<close>, a partial function shown to return for every model; \<open>propagate_scopes\<close>, \<open>bfs\<close>, \<open>walk\<close> and
  the closure loops end by a measure. Resolution of field paths is a partial function: a call of the
  validator that panics or recurses without end has the value \<open>None\<close>, and \<open>Validate_Guarantees\<close> shows
  when it returns and two kinds of models on which it does not. No other fuel is used.

  \<^bold>\<open>Not modelled.\<close> The YAML parser is a library call. Basis extraction, change
  analysis, the sketch compiler, conformance and realization are parts with logic of their own that
  the modelled parts do not call, or take as parameters. The project store, the protocol server, the
  harness, the remote orchestration, the viewer and the command line are input and output. Display
  implementations, serialized forms and the text of diagnostics are left out everywhere.
\<close>

end
